(* ===== verification/Norma_Prelude.thy ===== *)
theory Norma_Prelude
  imports Main "HOL-Library.AList" "HOL-Library.Word" "HOL-Library.Multiset"
begin

text \<open>
  The prelude of the development: the types the components share (64-bit words, points in time
  and durations, hashes and addresses), the association-list model of Go's built-in \<open>map\<close> with
  the laws the components rely on, a model of the standard library's \<open>sort.Search\<close> and
  \<open>slices.SortFunc\<close>, and the collections of facts the component proofs use.
\<close>

named_theorems gomap_simps "how the operations of a Go map read back and count"
named_theorems inv_simps "unfolded invariants"

section \<open>Shared types\<close>

type_synonym u64 = "64 word"
type_synonym hash = "256 word"
type_synonym address = "160 word"

text \<open>
  A \<open>time.Time\<close> is its distance to the Unix epoch in nanoseconds; a \<open>time.Duration\<close> is a number
  of nanoseconds. The zero value of \<open>time.Time\<close> is January 1 of the year 1.
\<close>

type_synonym gotime = int
type_synonym duration = int

definition zero_time :: gotime where
  "zero_time = - 62135596800000000000"

definition minDuration :: duration where
  "minDuration = - (2 ^ 63)"

definition maxDuration :: duration where
  "maxDuration = 2 ^ 63 - 1"

text \<open>\<open>Time.Sub\<close> saturates at the bounds of a 64-bit duration.\<close>

definition time_sub :: "gotime \<Rightarrow> gotime \<Rightarrow> duration" where
  "time_sub t u = max minDuration (min maxDuration (t - u))"

lemma time_sub_nonneg_iff: "0 \<le> time_sub t u \<longleftrightarrow> u \<le> t"
  by (auto simp: time_sub_def minDuration_def maxDuration_def)

text \<open>\<open>time.Unix(0, ns)\<close> for a 64-bit \<open>ns\<close>.\<close>

definition unix_nanos :: "u64 \<Rightarrow> gotime" where
  "unix_nanos ns = sint ns"

lemma unix_nanos_not_zero_time: "unix_nanos ns \<noteq> zero_time"
proof -
  have "- (2 ^ 63) \<le> sint ns"
    using sint_greater_eq [of ns] by simp
  then show ?thesis by (auto simp: unix_nanos_def zero_time_def)
qed

section \<open>Go maps\<close>

text \<open>
  A Go map is an association list with distinct keys. Iterating over it goes through the list in
  its order, which stands for whichever order the Go runtime chooses.
\<close>

type_synonym ('k, 'v) gomap = "('k \<times> 'v) list"

definition gm_wf :: "('k, 'v) gomap \<Rightarrow> bool" where
  "gm_wf m \<longleftrightarrow> distinct (map fst m)"

definition gm_get :: "('k, 'v) gomap \<Rightarrow> 'k \<Rightarrow> 'v option" where
  "gm_get m k = map_of m k"

definition gm_set :: "'k \<Rightarrow> 'v \<Rightarrow> ('k, 'v) gomap \<Rightarrow> ('k, 'v) gomap" where
  "gm_set k v m = AList.update k v m"

definition gm_del :: "'k \<Rightarrow> ('k, 'v) gomap \<Rightarrow> ('k, 'v) gomap" where
  "gm_del k m = AList.delete k m"

definition gm_keys :: "('k, 'v) gomap \<Rightarrow> 'k list" where
  "gm_keys m = map fst m"

text \<open>The number of entries whose value satisfies a predicate.\<close>

definition gm_count :: "('v \<Rightarrow> bool) \<Rightarrow> ('k, 'v) gomap \<Rightarrow> int" where
  "gm_count P m = int (length (filter (\<lambda>kv. P (snd kv)) m))"

text \<open>
  The interface of a finite map the components program against: what a lookup returns after an
  insertion or a removal, and how the number of entries of a class moves. The lemmas a component
  needs are proved here once.
\<close>

locale counted_map =
  fixes get :: "'m \<Rightarrow> 'k \<Rightarrow> 'v option"
    and put :: "'k \<Rightarrow> 'v \<Rightarrow> 'm \<Rightarrow> 'm"
    and del :: "'k \<Rightarrow> 'm \<Rightarrow> 'm"
    and cnt :: "('v \<Rightarrow> bool) \<Rightarrow> 'm \<Rightarrow> int"
    and wf :: "'m \<Rightarrow> bool"
  assumes get_put: "get (put k v m) k' = (if k' = k then Some v else get m k')"
    and get_del: "wf m \<Longrightarrow> get (del k m) k' = (if k' = k then None else get m k')"
    and wf_put: "wf m \<Longrightarrow> wf (put k v m)"
    and wf_del: "wf m \<Longrightarrow> wf (del k m)"
    and cnt_put: "wf m \<Longrightarrow> cnt P (put k v m) =
          cnt P m - (case get m k of None \<Rightarrow> 0 | Some w \<Rightarrow> of_bool (P w)) + of_bool (P v)"
    and cnt_del: "wf m \<Longrightarrow> cnt P (del k m) =
          cnt P m - (case get m k of None \<Rightarrow> 0 | Some w \<Rightarrow> of_bool (P w))"
begin

lemma cnt_put_fresh: "wf m \<Longrightarrow> get m k = None \<Longrightarrow> cnt P (put k v m) = cnt P m + of_bool (P v)"
  by (simp add: cnt_put)

lemma cnt_put_old:
  "wf m \<Longrightarrow> get m k = Some w \<Longrightarrow> cnt P (put k v m) = cnt P m - of_bool (P w) + of_bool (P v)"
  by (simp add: cnt_put)

lemma cnt_put_same: "wf m \<Longrightarrow> get m k = Some w \<Longrightarrow> P v = P w \<Longrightarrow> cnt P (put k v m) = cnt P m"
  by (simp add: cnt_put_old)

lemma cnt_del_old: "wf m \<Longrightarrow> get m k = Some w \<Longrightarrow> cnt P (del k m) = cnt P m - of_bool (P w)"
  by (simp add: cnt_del)

lemma cnt_del_absent: "wf m \<Longrightarrow> get m k = None \<Longrightarrow> cnt P (del k m) = cnt P m"
  by (simp add: cnt_del)

end

lemma gm_count_Cons: "gm_count P (kv # m) = of_bool (P (snd kv)) + gm_count P m"
  by (simp add: gm_count_def)

lemma gm_count_update:
  "gm_wf m \<Longrightarrow> gm_count P (AList.update k v m) =
     gm_count P m - (case map_of m k of None \<Rightarrow> 0 | Some w \<Rightarrow> of_bool (P w)) + of_bool (P v)"
proof (induction m)
  case Nil
  then show ?case by (simp add: gm_count_def)
next
  case (Cons kv m)
  then show ?case
    by (cases kv) (auto simp: gm_count_Cons gm_wf_def map_of_eq_None_iff split: option.splits)
qed

lemma gm_delete_absent: "k \<notin> fst ` set m \<Longrightarrow> AList.delete k m = m"
  by (induction m) auto

lemma gm_count_delete:
  "gm_wf m \<Longrightarrow> gm_count P (AList.delete k m) =
     gm_count P m - (case map_of m k of None \<Rightarrow> 0 | Some w \<Rightarrow> of_bool (P w))"
proof (induction m)
  case Nil
  then show ?case by (simp add: gm_count_def)
next
  case (Cons kv m)
  then show ?case
    by (cases kv)
       (auto simp: gm_count_Cons gm_wf_def gm_delete_absent map_of_eq_None_iff
         split: option.splits intro: rev_image_eqI)
qed

interpretation gm: counted_map gm_get gm_set gm_del gm_count gm_wf
proof
  show "gm_get (gm_set k v m) k' = (if k' = k then Some v else gm_get m k')"
    for k k' :: 'k and v :: 'v and m
    by (simp add: gm_get_def gm_set_def update_conv')
  show "gm_wf m \<Longrightarrow> gm_get (gm_del k m) k' = (if k' = k then None else gm_get m k')"
    for k k' :: 'k and m :: "('k, 'v) gomap"
    by (simp add: gm_get_def gm_del_def delete_conv')
  show "gm_wf m \<Longrightarrow> gm_wf (gm_set k v m)" for k :: 'k and v :: 'v and m
    by (simp add: gm_wf_def gm_set_def distinct_update)
  show "gm_wf m \<Longrightarrow> gm_wf (gm_del k m)" for k :: 'k and m :: "('k, 'v) gomap"
    by (simp add: gm_wf_def gm_del_def distinct_delete)
  show "gm_wf m \<Longrightarrow> gm_count P (gm_set k v m) =
      gm_count P m - (case gm_get m k of None \<Rightarrow> 0 | Some w \<Rightarrow> of_bool (P w)) + of_bool (P v)"
    for P k and v :: 'v and m :: "('k, 'v) gomap"
    by (simp add: gm_set_def gm_get_def gm_count_update)
  show "gm_wf m \<Longrightarrow> gm_count P (gm_del k m) =
      gm_count P m - (case gm_get m k of None \<Rightarrow> 0 | Some w \<Rightarrow> of_bool (P w))"
    for P k and m :: "('k, 'v) gomap"
    by (simp add: gm_del_def gm_get_def gm_count_delete)
qed

lemmas gm_specs [gomap_simps] = gm.get_put gm.get_del gm.wf_put gm.wf_del

lemma gm_wf_Nil [simp]: "gm_wf []"
  by (simp add: gm_wf_def)

lemma gm_get_Nil [simp]: "gm_get [] k = None"
  by (simp add: gm_get_def)

lemma gm_count_Nil [simp]: "gm_count P [] = 0"
  by (simp add: gm_count_def)

lemma gm_get_Cons [simp]: "gm_get (kv # m) k = (if k = fst kv then Some (snd kv) else gm_get m k)"
  by (cases kv) (simp add: gm_get_def)

lemma gm_set_Nil [simp]: "gm_set k v [] = [(k, v)]"
  by (simp add: gm_set_def)

lemma gm_set_Cons [simp]:
  "gm_set k v (kv # m) = (if fst kv = k then (k, v) # m else kv # gm_set k v m)"
  by (cases kv) (simp add: gm_set_def)

lemma gm_del_Nil [simp]: "gm_del k [] = []"
  by (simp add: gm_del_def)

lemma gm_del_Cons [simp]: "gm_del k (kv # m) = (if fst kv = k then gm_del k m else kv # gm_del k m)"
  by (cases kv) (auto simp: gm_del_def)

lemma gm_get_SomeD: "gm_get m k = Some v \<Longrightarrow> (k, v) \<in> set m"
  by (simp add: gm_get_def map_of_SomeD)

lemma gm_get_Some_iff: "gm_wf m \<Longrightarrow> gm_get m k = Some v \<longleftrightarrow> (k, v) \<in> set m"
  by (simp add: gm_get_def gm_wf_def)

lemma gm_get_None_iff: "gm_get m k = None \<longleftrightarrow> k \<notin> set (gm_keys m)"
  by (simp add: gm_get_def gm_keys_def map_of_eq_None_iff)

lemma gm_count_nonneg: "0 \<le> gm_count P m"
  by (simp add: gm_count_def)

lemma gm_count_pos: "gm_get m k = Some v \<Longrightarrow> P v \<Longrightarrow> 0 < gm_count P m"
  by (induction m) (auto simp: gm_count_Cons gm_count_nonneg add_strict_increasing split: if_splits)

lemma gm_count_split:
  "(\<And>v. P v \<longleftrightarrow> Q v \<or> R v) \<Longrightarrow> (\<And>v. \<not> (Q v \<and> R v)) \<Longrightarrow>
     gm_count P m = gm_count Q m + gm_count R m"
  by (induction m) (auto simp: gm_count_Cons)

lemma length_gm_set: "length (gm_set k v m) = (if gm_get m k = None then Suc (length m) else length m)"
  by (induction m) auto

lemma length_gm_set_le: "length (gm_set k v m) \<le> Suc (length m)"
  by (simp add: length_gm_set)

lemma length_gm_del_le: "length (gm_del k m) \<le> length m"
  by (induction m) auto

lemma set_gm_set_subset: "set (gm_set k v m) \<subseteq> insert (k, v) (set m)"
  by (induction m) (auto split: if_splits)

text \<open>
  A map whose values determine their keys, all of them keys of a second map, has at most as many
  entries as that one.
\<close>

lemma length_by_values:
  assumes wf: "gm_wf m" and inj: "\<And>k k' v. gm_get m k = Some v \<Longrightarrow> gm_get m k' = Some v \<Longrightarrow> k = k'"
    and sub: "\<And>k v. gm_get m k = Some v \<Longrightarrow> gm_get m' v \<noteq> None"
  shows "length m \<le> length m'"
proof -
  have "inj_on snd (set m)"
    using wf inj by (auto simp: inj_on_def gm_get_Some_iff)
  then have "card (snd ` set m) = length m"
    using wf by (metis card_image distinct_card distinct_map gm_wf_def)
  moreover have "snd ` set m \<subseteq> set (gm_keys m')"
    using wf sub by (auto simp: gm_get_Some_iff gm_get_None_iff)
  then have "card (snd ` set m) \<le> card (set (gm_keys m'))"
    by (simp add: card_mono)
  moreover have "card (set (gm_keys m')) \<le> length m'"
    by (metis card_length gm_keys_def length_map)
  ultimately show ?thesis by simp
qed

text \<open>A map over 64-bit keys with fewer than \<open>2 ^ 64\<close> entries misses a key above every start.\<close>

lemma u64_map_gap:
  fixes m :: "(u64, 'v) gomap"
  assumes "length m < 2 ^ 64"
  shows "\<exists>k. gm_get m (r + of_nat k) = None"
proof (rule ccontr)
  assume full: "\<not> ?thesis"
  have "w \<in> set (gm_keys m)" for w
  proof -
    have "r + of_nat (unat (w - r)) = w" by simp
    with full show ?thesis by (metis gm_get_None_iff)
  qed
  then have "set (gm_keys m) = UNIV" by blast
  then have "card (UNIV :: u64 set) \<le> length m"
    by (metis card_length gm_keys_def length_map)
  then show False using assms by (simp add: card_word)
qed

end
