(* ===== verification/Txmon_Samples.thy ===== *)
theory Txmon_Samples
  imports Norma_Prelude
begin

text \<open>
  The bounded selection of measurements of \<open>driver/monitoring/transactions/samples.go\<close>: \<open>add\<close>
  offers a measurement, and a full set drops every second retained one and accepts half as many
  from then on. The main result is that the retained measurements stay spread over the whole
  run: at stride \<open>k\<close>, two neighbouring retained measurements are at least \<open>k\<close> and less than
  \<open>2 k\<close> offers apart, and less than \<open>2 k\<close> offers lie behind the last one.
\<close>

section \<open>The sample set\<close>

record Sample =
  At :: gotime
  Duration :: duration

record sampleSet =
  samples :: "Sample list"
  seen :: nat
  stride :: nat

definition maxSamplesPerSet :: nat where
  "maxSamplesPerSet = 10000"

definition empty_sampleSet :: sampleSet where
  "empty_sampleSet = \<lparr>samples = [], seen = 0, stride = 0\<rparr>"

text \<open>The loop of \<open>add\<close> that keeps the samples at even positions.\<close>

definition keep_even :: "'a list \<Rightarrow> 'a list" where
  "keep_even xs = map snd (filter (\<lambda>(i, _). i mod 2 = 0) (List.enumerate 0 xs))"

definition sampleSet_add :: "gotime \<Rightarrow> duration \<Rightarrow> sampleSet \<Rightarrow> sampleSet" where
  "sampleSet_add at d s =
     (let st = (if stride s = 0 then 1 else stride s);
          sn = seen s + 1
      in if sn mod st \<noteq> 0 then s\<lparr>seen := sn, stride := st\<rparr>
         else
           let xs = samples s @ [\<lparr>At = at, Duration = d\<rparr>]
           in if length xs < maxSamplesPerSet then s\<lparr>samples := xs, seen := sn, stride := st\<rparr>
              else s\<lparr>samples := keep_even xs, seen := sn, stride := st * 2\<rparr>)"

text \<open>
  \<open>slices.SortFunc\<close> by the moment of submission. It does not say how samples of the same moment
  are ordered; the model keeps their order.
\<close>

definition sampleSet_sorted :: "sampleSet \<Rightarrow> Sample list" where
  "sampleSet_sorted s = sort_key At (samples s)"

text \<open>A run of \<open>add\<close> from the empty set.\<close>

definition offer_all :: "(gotime \<times> duration) list \<Rightarrow> sampleSet" where
  "offer_all xs = fold (\<lambda>(at, d). sampleSet_add at d) xs empty_sampleSet"

section \<open>Keeping the even positions\<close>

fun evens :: "'a list \<Rightarrow> 'a list" where
  "evens [] = []"
| "evens [x] = [x]"
| "evens (x # y # xs) = x # evens xs"

lemma filter_even_enumerate:
  "n mod 2 = 0 \<Longrightarrow> map snd (filter (\<lambda>(i, _). i mod 2 = 0) (List.enumerate n xs)) = evens xs"
  by (induction xs arbitrary: n rule: evens.induct) (auto simp: mod_Suc)

lemma keep_even_eq: "keep_even xs = evens xs"
  by (simp add: keep_even_def filter_even_enumerate)

lemma evens_map: "evens (map f xs) = map f (evens xs)"
  by (induction xs rule: evens.induct) auto

lemma set_evens: "set (evens xs) \<subseteq> set xs"
  by (induction xs rule: evens.induct) auto

lemma length_evens: "length (evens xs) = (length xs + 1) div 2"
  by (induction xs rule: evens.induct) auto

lemma evens_Nil_iff [simp]: "evens xs = [] \<longleftrightarrow> xs = []"
  by (induction xs rule: evens.induct) auto

lemma hd_evens: "hd (evens xs) = hd xs"
  by (induction xs rule: evens.induct) auto

lemma last_evens_snoc: "odd (length xs) \<Longrightarrow> last (evens (xs @ [x])) = last xs"
  by (induction xs rule: evens.induct) auto

lemma successively_evens:
  assumes "\<And>a b c. R a b \<Longrightarrow> R b c \<Longrightarrow> Q a c"
  shows "successively R xs \<Longrightarrow> successively Q (evens xs)"
proof (induction xs rule: evens.induct)
  case (3 x y xs)
  then have xs: "successively Q (evens xs)" by (cases xs) auto
  show ?case
  proof (cases "xs = []")
    case False
    with 3 have "R x y" "R y (hd xs)" by (auto simp: neq_Nil_conv)
    then have "Q x (hd (evens xs))" using assms by (simp add: hd_evens)
    with xs False show ?thesis by (simp add: successively_Cons)
  qed simp
qed auto

section \<open>How the retained samples are spread\<close>

text \<open>
  \<open>spread k ps\<close>: neighbouring positions are at least \<open>k\<close> and less than \<open>2 k\<close> apart.
\<close>

definition spread :: "nat \<Rightarrow> nat list \<Rightarrow> bool" where
  "spread k ps \<longleftrightarrow> successively (\<lambda>a b. a + k \<le> b \<and> b < a + 2 * k) ps"

lemma spread_evens: "spread k ps \<Longrightarrow> spread (2 * k) (evens ps)"
  unfolding spread_def by (rule successively_evens) auto

lemma spread_snoc:
  "ps \<noteq> [] \<Longrightarrow> spread k (ps @ [i]) \<longleftrightarrow> spread k ps \<and> last ps + k \<le> i \<and> i < last ps + 2 * k"
  by (auto simp: spread_def successively_append_iff)

text \<open>The next offer that is accepted after \<open>n\<close> offers at stride \<open>k\<close>.\<close>

definition next_accepted :: "nat \<Rightarrow> nat \<Rightarrow> nat" where
  "next_accepted k n = (n div k + 1) * k"

lemma next_accepted_skip:
  assumes "0 < k" "Suc n mod k \<noteq> 0"
  shows "next_accepted k (Suc n) = next_accepted k n" "Suc n < next_accepted k n"
proof -
  have "Suc n div k = n div k" using assms by (simp add: div_Suc)
  then show "next_accepted k (Suc n) = next_accepted k n" by (simp add: next_accepted_def)
  have "Suc n < (Suc n div k + 1) * k"
    using assms by (simp add: dividend_less_div_times)
  then show "Suc n < next_accepted k n"
    using \<open>Suc n div k = n div k\<close> by (simp add: next_accepted_def)
qed

lemma next_accepted_hit:
  assumes "0 < k" "Suc n mod k = 0"
  shows "Suc n = next_accepted k n" "next_accepted k (Suc n) = Suc n + k"
proof -
  have "Suc n div k = Suc (n div k)" using assms by (simp add: div_Suc)
  moreover have "Suc n = Suc n div k * k" using assms by (metis add.right_neutral div_mult_mod_eq)
  ultimately show "Suc n = next_accepted k n" "next_accepted k (Suc n) = Suc n + k"
    by (auto simp: next_accepted_def)
qed

lemma next_accepted_double:
  assumes "0 < k" "n mod k = 0"
  shows "n + k \<le> next_accepted (2 * k) n \<and> next_accepted (2 * k) n \<le> n + 2 * k"
proof -
  from assms obtain q where n: "n = k * q" by (auto simp: mod_eq_0_iff_dvd)
  have "n div (2 * k) = q div 2"
    using assms(1) unfolding n by (simp add: mult.commute [of 2 k])
  then have eq: "next_accepted (2 * k) n = k * (2 * (q div 2 + 1))"
    by (simp add: next_accepted_def)
  have "q + 1 \<le> 2 * (q div 2 + 1)" "2 * (q div 2 + 1) \<le> q + 2" by arith+
  then have "k * (q + 1) \<le> next_accepted (2 * k) n" "next_accepted (2 * k) n \<le> k * (q + 2)"
    unfolding eq by (simp_all only: mult_le_mono2)
  then show ?thesis by (simp add: n algebra_simps)
qed

definition offered :: "(gotime \<times> duration) list \<Rightarrow> nat \<Rightarrow> Sample" where
  "offered xs i = \<lparr>At = fst (xs ! (i - 1)), Duration = snd (xs ! (i - 1))\<rparr>"

text \<open>The invariant of a run: \<open>ps\<close> are the positions, from 1, of the retained offers.\<close>

definition selects :: "(gotime \<times> duration) list \<Rightarrow> sampleSet \<Rightarrow> nat list \<Rightarrow> bool" where
  "selects xs s ps \<longleftrightarrow>
     seen s = length xs \<and> samples s = map (offered xs) ps \<and> 0 < stride s \<and>
     ps \<noteq> [] \<and> hd ps = 1 \<and> set ps \<subseteq> {1..length xs} \<and> length ps < maxSamplesPerSet \<and>
     spread (stride s) ps \<and>
     last ps + stride s \<le> next_accepted (stride s) (length xs) \<and>
     next_accepted (stride s) (length xs) < last ps + 2 * stride s"

lemma offered_snoc: "i \<in> {1..length xs} \<Longrightarrow> offered (xs @ [x]) i = offered xs i"
  by (auto simp: offered_def nth_append)

lemma map_offered_snoc:
  "set ps \<subseteq> {1..length xs} \<Longrightarrow> map (offered (xs @ [x])) ps = map (offered xs) ps"
  by (simp add: offered_snoc subset_iff)

lemma selects_first: "selects [(at, d)] (sampleSet_add at d empty_sampleSet) [1]"
  by (simp add: selects_def sampleSet_add_def empty_sampleSet_def maxSamplesPerSet_def offered_def
      spread_def next_accepted_def Let_def)

lemma selects_skip:
  assumes sel: "selects xs s ps" and skip: "Suc (length xs) mod stride s \<noteq> 0"
  shows "selects (xs @ [(at, d)]) (sampleSet_add at d s) ps"
  using sel skip next_accepted_skip [of "stride s" "length xs"]
  by (auto simp: selects_def sampleSet_add_def Let_def map_offered_snoc)

lemma selects_hit:
  assumes sel: "selects xs s ps" and hit: "Suc (length xs) mod stride s = 0"
  shows "\<exists>ps'. selects (xs @ [(at, d)]) (sampleSet_add at d s) ps'"
proof -
  define ys where "ys = xs @ [(at, d)]"
  define js where "js = ps @ [length ys]"
  have k: "0 < stride s" and ps: "ps \<noteq> []" "hd ps = 1" "set ps \<subseteq> {1..length xs}"
    and lt: "length ps < maxSamplesPerSet" and sp: "spread (stride s) ps"
    and lo: "last ps + stride s \<le> next_accepted (stride s) (length xs)"
    and hi: "next_accepted (stride s) (length xs) < last ps + 2 * stride s"
    and smp: "samples s = map (offered xs) ps" and sn: "seen s = length xs"
    using sel by (simp_all add: selects_def)
  have len: "length ys = next_accepted (stride s) (length xs)"
    and nxt: "next_accepted (stride s) (length ys) = length ys + stride s"
    using next_accepted_hit [OF k hit] by (simp_all add: ys_def)
  have spj: "spread (stride s) js"
    using ps(1) sp lo hi len by (simp add: js_def spread_snoc)
  have "offered ys (length ys) = \<lparr>At = at, Duration = d\<rparr>"
    by (simp add: offered_def ys_def)
  then have xs: "samples s @ [\<lparr>At = at, Duration = d\<rparr>] = map (offered ys) js"
    using ps(3) by (simp add: js_def smp ys_def map_offered_snoc)
  have rng: "set js \<subseteq> {1..length ys}" using ps(3) by (auto simp: js_def ys_def)
  show ?thesis
  proof (cases "length js < maxSamplesPerSet")
    case True
    have "sampleSet_add at d s = s\<lparr>samples := map (offered ys) js, seen := length ys\<rparr>"
      using k hit True xs sn by (simp add: sampleSet_add_def Let_def ys_def js_def)
    then have "selects ys (sampleSet_add at d s) js"
      using k ps(1,2) rng True spj nxt by (simp add: selects_def js_def)
    then show ?thesis by (auto simp: ys_def)
  next
    case False
    let ?js = "evens js"
    have full: "length js = maxSamplesPerSet" using False lt by (simp add: js_def)
    have add: "sampleSet_add at d s =
        s\<lparr>samples := map (offered ys) ?js, seen := length ys, stride := 2 * stride s\<rparr>"
    proof -
      have "keep_even (samples s @ [\<lparr>At = at, Duration = d\<rparr>]) = map (offered ys) ?js"
        by (simp only: xs keep_even_eq evens_map)
      moreover have "length (samples s @ [\<lparr>At = at, Duration = d\<rparr>]) = length js"
        by (simp only: xs length_map)
      ultimately show ?thesis
        using k hit False sn by (simp add: sampleSet_add_def Let_def ys_def)
    qed
    have "odd (length ps)" using full by (simp add: js_def maxSamplesPerSet_def)
    then have last: "last ?js = last ps" by (simp add: js_def last_evens_snoc)
    have "length ys mod stride s = 0" using hit by (simp add: ys_def)
    note dbl = next_accepted_double [OF k this]
    have "selects ys (sampleSet_add at d s) ?js"
      using k ps(1,2) rng spread_evens [OF spj] full set_evens [of js] dbl lo hi len last
      by (auto simp: selects_def add hd_evens js_def length_evens maxSamplesPerSet_def)
    then show ?thesis by (auto simp: ys_def)
  qed
qed

lemma offer_all_snoc: "offer_all (xs @ [(at, d)]) = sampleSet_add at d (offer_all xs)"
  by (simp add: offer_all_def)

lemma offer_all_selects: "xs \<noteq> [] \<Longrightarrow> \<exists>ps. selects xs (offer_all xs) ps"
proof (induction xs rule: rev_induct)
  case (snoc x xs)
  obtain at d where x: "x = (at, d)" by fastforce
  show ?case
  proof (cases "xs = []")
    case True
    then show ?thesis using selects_first by (auto simp: x offer_all_def)
  next
    case False
    with snoc.IH obtain ps where sel: "selects xs (offer_all xs) ps" by blast
    then show ?thesis
      using selects_skip selects_hit unfolding x offer_all_snoc by blast
  qed
qed simp

lemma next_accepted_gt: "0 < k \<Longrightarrow> n < next_accepted k n"
  using dividend_less_div_times [of k n] by (simp add: next_accepted_def)

section \<open>Properties\<close>

text \<open>Whatever is offered to a sample set, the retained samples are offered ones in the order
  they were offered, starting with the first one; neighbours are at least \<open>stride\<close> and less than
  \<open>2 * stride\<close> offers apart and less than \<open>2 * stride\<close> offers follow the last one, so they
  stay spread over the whole run; and there are always fewer than the limit of them.\<close>

theorem sampleSet_spread:
  assumes "xs \<noteq> []"
  shows "(\<exists>ps. samples (offer_all xs) = map (offered xs) ps \<and> ps \<noteq> [] \<and> hd ps = 1 \<and>
      set ps \<subseteq> {1..length xs} \<and> spread (stride (offer_all xs)) ps \<and>
      length xs < last ps + 2 * stride (offer_all xs) \<and>
      length (samples (offer_all xs)) < maxSamplesPerSet)"
proof -
  from assms obtain ps where sel: "selects xs (offer_all xs) ps" using offer_all_selects by blast
  then have "length xs < next_accepted (stride (offer_all xs)) (length xs)"
    by (simp add: selects_def next_accepted_gt)
  with sel show ?thesis
    by (auto simp: selects_def)
qed

theorem sampleSet_spread_witness:
  "\<exists>ps. samples (offer_all [(5, 1), (6, 2)]) = map (offered [(5, 1), (6, 2)]) ps \<and> hd ps = 1"
  using sampleSet_spread [of "[(5, 1), (6, 2)]"] by blast

text \<open>C2: The exported samples of a set are exactly the retained ones, ordered by the moment of
  submission.\<close>

theorem sampleSet_sorted_ordered:
  "sorted (map At (sampleSet_sorted s)) \<and> mset (sampleSet_sorted s) = mset (samples s)"
  by (simp add: sampleSet_sorted_def)

end
