(* ===== verification/Txmon_Tracker.thy ===== *)
theory Txmon_Tracker
  imports Txmon_Samples "HOL-Library.Char_ord" "HOL-Library.List_Lexorder"
begin

text \<open>
  The tracker of \<open>driver/monitoring/transactions/tracker.go\<close>, which follows the transactions of
  the load generators from their submission over their emission in an event to their inclusion
  in a block. Every method of the tracker holds one mutex from its first to its last line, so
  an execution is a sequence of whole method calls; \<open>tracker_step\<close> has one rule per method.
\<close>

section \<open>Data\<close>

datatype CountKind = Pending | Stalled | Emitted | Included | Rejected

datatype SampleKind = TimeToEmit | TimeToInclude | TimeEmitToInclude

definition OtherTransactions :: string where
  "OtherTransactions = ''(other)''"

definition maxTrackedTransactions :: nat where
  "maxTrackedTransactions = 500000"

record IncludedTransaction =
  it_Hash :: hash
  it_GasUsed :: u64

record BlockContribution =
  bc_Block :: int
  bc_Transactions :: int
  bc_Gas :: u64

record BlockLimit =
  bl_Block :: int
  bl_GasLimit :: u64
  bl_EventGasLimit :: u64
  bl_GasPowerPerSec :: u64

record Counts =
  cPending :: int
  cStalled :: int
  cEmitted :: int
  cIncluded :: int
  cRejected :: int

fun Counts_Get :: "Counts \<Rightarrow> CountKind \<Rightarrow> int" where
  "Counts_Get c Pending = cPending c"
| "Counts_Get c Stalled = cStalled c"
| "Counts_Get c Emitted = cEmitted c"
| "Counts_Get c Included = cIncluded c"
| "Counts_Get c Rejected = cRejected c"

record transaction =
  tx_app :: string
  tx_sender :: address
  tx_nonce :: u64
  tx_submittedAt :: gotime
  tx_emittedAt :: gotime
  tx_blocked :: bool

record sender =
  s_next :: u64
  s_runEnd :: u64
  s_inFlight :: "(u64, hash) gomap"

record application =
  ap_counts :: Counts
  ap_samples :: "SampleKind \<Rightarrow> sampleSet option"

record Tracker =
  t_txs :: "(hash, transaction) gomap"
  t_senders :: "(address, sender) gomap"
  t_apps :: "(string, application) gomap"
  t_blocks :: "(int, (string, BlockContribution) gomap) gomap"
  t_limits :: "(int, BlockLimit) gomap"
  t_untracked :: int
  t_unknownSender :: int
  t_includedNotSeen :: int
  t_inconsistentTime :: int

text \<open>
  What the tracker reads of a submitted transaction: its hash, its nonce, and what the signature
  recovery of go-ethereum (\<open>types.Sender\<close>) answers, \<open>None\<close> for an error.
\<close>

record submitted_tx =
  stx_hash :: hash
  stx_nonce :: u64
  stx_from :: "address option"

definition isZero :: "gotime \<Rightarrow> bool" where
  "isZero t \<longleftrightarrow> t = zero_time"

section \<open>Operations\<close>

definition NewTracker :: Tracker where
  "NewTracker = \<lparr>t_txs = [], t_senders = [], t_apps = [], t_blocks = [], t_limits = [],
     t_untracked = 0, t_unknownSender = 0, t_includedNotSeen = 0, t_inconsistentTime = 0\<rparr>"

definition zero_counts :: Counts where
  "zero_counts = \<lparr>cPending = 0, cStalled = 0, cEmitted = 0, cIncluded = 0, cRejected = 0\<rparr>"

definition zero_application :: application where
  "zero_application = \<lparr>ap_counts = zero_counts, ap_samples = (\<lambda>_. None)\<rparr>"

text \<open>
  \<open>application\<close> returns a pointer to the state of an application, creating it on first use.
  \<open>get_app\<close> is the state the pointer leads to, \<open>with_app\<close> a change through the pointer.
\<close>

definition get_app :: "Tracker \<Rightarrow> string \<Rightarrow> application" where
  "get_app t name = (case gm_get (t_apps t) name of Some a \<Rightarrow> a | None \<Rightarrow> zero_application)"

definition with_app :: "string \<Rightarrow> (application \<Rightarrow> application) \<Rightarrow> Tracker \<Rightarrow> Tracker" where
  "with_app name f t = t\<lparr>t_apps := gm_set name (f (get_app t name)) (t_apps t)\<rparr>"

definition upd_counts :: "(Counts \<Rightarrow> Counts) \<Rightarrow> application \<Rightarrow> application" where
  "upd_counts f a = a\<lparr>ap_counts := f (ap_counts a)\<rparr>"

definition app_sampleSet :: "application \<Rightarrow> SampleKind \<Rightarrow> sampleSet" where
  "app_sampleSet a k = (case ap_samples a k of None \<Rightarrow> empty_sampleSet | Some s \<Rightarrow> s)"

definition add_sample :: "SampleKind \<Rightarrow> gotime \<Rightarrow> duration \<Rightarrow> application \<Rightarrow> application" where
  "add_sample k at d a =
     a\<lparr>ap_samples := (ap_samples a)(k := Some (sampleSet_add at d (app_sampleSet a k)))\<rparr>"

definition executable :: "sender \<Rightarrow> u64 \<Rightarrow> bool" where
  "executable s n \<longleftrightarrow> n \<le> s_runEnd s"

text \<open>
  The loop of \<open>extendRun\<close>; \<open>None\<close> would mean that it never returns. The nonces are 64-bit words,
  so the increment wraps around.
\<close>

partial_function (option) extendRun :: "sender \<Rightarrow> hash list \<Rightarrow> (sender \<times> hash list) option" where
  "extendRun s unblocked =
     (case gm_get (s_inFlight s) (s_runEnd s) of
        None \<Rightarrow> Some (s, unblocked)
      | Some h \<Rightarrow>
          extendRun (s\<lparr>s_runEnd := s_runEnd s + 1\<rparr>)
            (if s_runEnd s > s_next s then unblocked @ [h] else unblocked))"

definition unblock :: "hash \<Rightarrow> Tracker \<Rightarrow> Tracker" where
  "unblock h t =
     (case gm_get (t_txs t) h of
        None \<Rightarrow> t
      | Some e \<Rightarrow>
          if \<not> tx_blocked e then t
          else
            let t1 = t\<lparr>t_txs := gm_set h (e\<lparr>tx_blocked := False\<rparr>) (t_txs t)\<rparr>
            in if \<not> isZero (tx_emittedAt e) then t1
               else with_app (tx_app e)
                 (upd_counts (\<lambda>c. c\<lparr>cStalled := cStalled c - 1, cPending := cPending c + 1\<rparr>)) t1)"

text \<open>
  The parts of \<open>OnTransactionSubmitted\<close> that follow a new transaction: the account its signature
  leads to (the zero address if the signature could not be recovered), the bookkeeping of that
  account with the transaction entered, and the record kept for the transaction.
\<close>

definition tx_from :: "submitted_tx \<Rightarrow> address" where
  "tx_from tx = (case stx_from tx of Some a \<Rightarrow> a | None \<Rightarrow> 0)"

definition fresh_sender :: "u64 \<Rightarrow> sender" where
  "fresh_sender n = \<lparr>s_next = n, s_runEnd = n, s_inFlight = []\<rparr>"

definition entered :: "Tracker \<Rightarrow> submitted_tx \<Rightarrow> sender" where
  "entered t tx =
     (let a = (case gm_get (t_senders t) (tx_from tx) of
                 Some a \<Rightarrow> a
               | None \<Rightarrow> fresh_sender (stx_nonce tx))
      in a\<lparr>s_inFlight := gm_set (stx_nonce tx) (stx_hash tx) (s_inFlight a)\<rparr>)"

definition new_entry :: "string \<Rightarrow> submitted_tx \<Rightarrow> gotime \<Rightarrow> Tracker \<Rightarrow> transaction" where
  "new_entry src tx at t =
     \<lparr>tx_app = src, tx_sender = tx_from tx, tx_nonce = stx_nonce tx, tx_submittedAt = at,
      tx_emittedAt = zero_time, tx_blocked = (\<not> executable (entered t tx) (stx_nonce tx))\<rparr>"

definition OnTransactionSubmitted ::
  "string \<Rightarrow> submitted_tx \<Rightarrow> gotime \<Rightarrow> bool \<Rightarrow> Tracker \<Rightarrow> Tracker option" where
  "OnTransactionSubmitted source tx at err t0 =
     (let t = with_app source id t0 in
      if err then Some (with_app source (upd_counts (\<lambda>c. c\<lparr>cRejected := cRejected c + 1\<rparr>)) t)
      else if length (t_txs t) \<ge> maxTrackedTransactions then
        Some (t\<lparr>t_untracked := t_untracked t + 1\<rparr>)
      else if gm_get (t_txs t) (stx_hash tx) \<noteq> None then Some t
      else
        let t1 = (if stx_from tx = None then t\<lparr>t_unknownSender := t_unknownSender t + 1\<rparr> else t);
            entry = new_entry source tx at t1;
            t2 = t1\<lparr>t_txs := gm_set (stx_hash tx) entry (t_txs t1)\<rparr>;
            t3 = with_app source (upd_counts (\<lambda>c.
                   if tx_blocked entry then c\<lparr>cStalled := cStalled c + 1\<rparr>
                   else c\<lparr>cPending := cPending c + 1\<rparr>)) t2
        in case extendRun (entered t1 tx) [] of
             None \<Rightarrow> None
           | Some (account, unblocked) \<Rightarrow>
               Some (fold unblock unblocked
                 (t3\<lparr>t_senders := gm_set (tx_from tx) account (t_senders t3)\<rparr>)))"

definition MarkEmitted :: "hash \<Rightarrow> gotime \<Rightarrow> Tracker \<Rightarrow> Tracker" where
  "MarkEmitted h at t =
     (case gm_get (t_txs t) h of
        None \<Rightarrow> t
      | Some e \<Rightarrow>
          if \<not> isZero (tx_emittedAt e) then t
          else
            let t1 = t\<lparr>t_txs := gm_set h (e\<lparr>tx_emittedAt := at\<rparr>) (t_txs t)\<rparr>;
                t2 = with_app (tx_app e) (upd_counts (\<lambda>c.
                       if tx_blocked e then c\<lparr>cStalled := cStalled c - 1, cEmitted := cEmitted c + 1\<rparr>
                       else c\<lparr>cPending := cPending c - 1, cEmitted := cEmitted c + 1\<rparr>)) t1;
                delay = time_sub at (tx_submittedAt e)
            in if delay \<ge> 0
               then with_app (tx_app e) (add_sample TimeToEmit (tx_submittedAt e) delay) t2
               else t2\<lparr>t_inconsistentTime := t_inconsistentTime t2 + 1\<rparr>)"

text \<open>The change \<open>releaseNonce\<close> makes to the bookkeeping of the account it finds.\<close>

definition release :: "u64 \<Rightarrow> sender \<Rightarrow> sender" where
  "release n s =
     (let s1 = s\<lparr>s_inFlight := gm_del n (s_inFlight s)\<rparr>
      in if n < s_next s1 then s1
         else let s2 = s1\<lparr>s_next := n + 1\<rparr>
              in if s_runEnd s2 < s_next s2 then s2\<lparr>s_runEnd := s_next s2\<rparr> else s2)"

definition releaseNonce :: "transaction \<Rightarrow> Tracker \<Rightarrow> Tracker" where
  "releaseNonce e t =
     (case gm_get (t_senders t) (tx_sender e) of
        None \<Rightarrow> t
      | Some s \<Rightarrow>
          t\<lparr>t_senders := gm_set (tx_sender e) (release (tx_nonce e) s) (t_senders t)\<rparr>)"

text \<open>The counters and the samples of \<open>markIncluded\<close>, before the transaction is released.\<close>

definition count_included :: "transaction \<Rightarrow> gotime \<Rightarrow> Tracker \<Rightarrow> Tracker" where
  "count_included e at t =
     (let t1 =
        (if \<not> isZero (tx_emittedAt e) then
           with_app (tx_app e) (upd_counts (\<lambda>c. c\<lparr>cEmitted := cEmitted c - 1\<rparr>)) t
         else if tx_blocked e then
           (with_app (tx_app e) (upd_counts (\<lambda>c. c\<lparr>cStalled := cStalled c - 1\<rparr>)) t)
             \<lparr>t_includedNotSeen := t_includedNotSeen t + 1\<rparr>
         else
           (with_app (tx_app e) (upd_counts (\<lambda>c. c\<lparr>cPending := cPending c - 1\<rparr>)) t)
             \<lparr>t_includedNotSeen := t_includedNotSeen t + 1\<rparr>);
        t2 = with_app (tx_app e) (upd_counts (\<lambda>c. c\<lparr>cIncluded := cIncluded c + 1\<rparr>)) t1;
        latency = time_sub at (tx_submittedAt e);
        t3 = (if latency \<ge> 0
              then with_app (tx_app e) (add_sample TimeToInclude (tx_submittedAt e) latency) t2
              else t2\<lparr>t_inconsistentTime := t_inconsistentTime t2 + 1\<rparr>);
        consensus = time_sub at (tx_emittedAt e)
      in if \<not> isZero (tx_emittedAt e) \<and> consensus \<ge> 0
         then with_app (tx_app e) (add_sample TimeEmitToInclude (tx_submittedAt e) consensus) t3
         else t3)"

definition markIncluded :: "hash \<Rightarrow> gotime \<Rightarrow> Tracker \<Rightarrow> string option \<times> Tracker" where
  "markIncluded h at t =
     (case gm_get (t_txs t) h of
        None \<Rightarrow> (None, t)
      | Some e \<Rightarrow>
          let t1 = count_included e at t;
              t2 = t1\<lparr>t_txs := gm_del h (t_txs t1)\<rparr>
          in (Some (tx_app e), releaseNonce e t2))"

definition MarkIncluded :: "hash \<Rightarrow> gotime \<Rightarrow> Tracker \<Rightarrow> Tracker" where
  "MarkIncluded h at t = snd (markIncluded h at t)"

text \<open>One iteration of the loop of \<open>MarkBlock\<close>.\<close>

definition contribute ::
  "int \<Rightarrow> gotime \<Rightarrow> IncludedTransaction \<Rightarrow>
     (string, BlockContribution) gomap \<times> Tracker \<Rightarrow> (string, BlockContribution) gomap \<times> Tracker"
where
  "contribute height at tx = (\<lambda>(composition, t).
     let (tracked, t1) = markIncluded (it_Hash tx) at t;
         app = (case tracked of Some a \<Rightarrow> a | None \<Rightarrow> OtherTransactions);
         c = (case gm_get composition app of
                Some c \<Rightarrow> c
              | None \<Rightarrow> \<lparr>bc_Block = height, bc_Transactions = 0, bc_Gas = 0\<rparr>)
     in (gm_set app (c\<lparr>bc_Transactions := bc_Transactions c + 1,
                       bc_Gas := bc_Gas c + it_GasUsed tx\<rparr>) composition, t1))"

definition MarkBlock :: "int \<Rightarrow> gotime \<Rightarrow> IncludedTransaction list \<Rightarrow> Tracker \<Rightarrow> Tracker" where
  "MarkBlock height at txs t =
     (let (composition, t1) = fold (contribute height at) txs ([], t)
      in if composition \<noteq> [] then t1\<lparr>t_blocks := gm_set height composition (t_blocks t1)\<rparr> else t1)"

definition MarkBlockLimits :: "int \<Rightarrow> BlockLimit \<Rightarrow> Tracker \<Rightarrow> Tracker" where
  "MarkBlockLimits height l t =
     t\<lparr>t_limits := gm_set height (l\<lparr>bl_Block := height\<rparr>) (t_limits t)\<rparr>"

text \<open>
  The read operations. \<open>Counts\<close> and \<open>Samples\<close> create the application they are asked for, which
  is the state they return next to their result.
\<close>

definition Tracker_Counts :: "string \<Rightarrow> Tracker \<Rightarrow> Counts \<times> Tracker" where
  "Tracker_Counts app t = (ap_counts (get_app t app), with_app app id t)"

definition Tracker_Apps :: "Tracker \<Rightarrow> string list" where
  "Tracker_Apps t = gm_keys (t_apps t)"

definition Tracker_Samples :: "string \<Rightarrow> SampleKind \<Rightarrow> Tracker \<Rightarrow> Sample list \<times> Tracker" where
  "Tracker_Samples app k t =
     (sampleSet_sorted (app_sampleSet (get_app t app) k),
      with_app app (\<lambda>a. a\<lparr>ap_samples := (ap_samples a)(k := Some (app_sampleSet a k))\<rparr>) t)"

definition BlockContributions :: "string \<Rightarrow> Tracker \<Rightarrow> BlockContribution list" where
  "BlockContributions app t =
     sort_key bc_Block (List.map_filter (\<lambda>(_, composition). gm_get composition app) (t_blocks t))"

definition BlockGasLimits :: "Tracker \<Rightarrow> BlockLimit list" where
  "BlockGasLimits t = sort_key bl_Block (map snd (t_limits t))"

definition Contributors :: "Tracker \<Rightarrow> string list" where
  "Contributors t = sort (remdups (concat (map (\<lambda>(_, composition). gm_keys composition) (t_blocks t))))"

end
