(* ===== verification/Txmon_Invariant.thy ===== *)
theory Txmon_Invariant
  imports Txmon_Tracker
begin

text \<open>
  The invariant of the transaction tracker: the counters of every application agree with the
  transactions in flight, and the nonce bookkeeping of every sender leads back to them. Every
  operation of the tracker keeps it, so it holds after every sequence of method calls.
\<close>

section \<open>Reading back what an operation wrote\<close>

named_theorems tracker_simps "fields of the tracker after an operation"

lemma get_app_with_app [tracker_simps]:
  "get_app (with_app n f t) a = (if a = n then f (get_app t n) else get_app t a)"
  by (simp add: get_app_def with_app_def gomap_simps)

lemma with_app_fields [tracker_simps]:
  "t_txs (with_app n f t) = t_txs t" "t_senders (with_app n f t) = t_senders t"
  "t_blocks (with_app n f t) = t_blocks t" "t_limits (with_app n f t) = t_limits t"
  by (simp_all add: with_app_def)

lemma get_app_update [tracker_simps]:
  "get_app (t\<lparr>t_txs := m\<rparr>) a = get_app t a" "get_app (t\<lparr>t_senders := ss\<rparr>) a = get_app t a"
  "get_app (t\<lparr>t_untracked := i\<rparr>) a = get_app t a" "get_app (t\<lparr>t_unknownSender := i\<rparr>) a = get_app t a"
  "get_app (t\<lparr>t_includedNotSeen := i\<rparr>) a = get_app t a"
  "get_app (t\<lparr>t_inconsistentTime := i\<rparr>) a = get_app t a"
  "get_app (t\<lparr>t_blocks := b\<rparr>) a = get_app t a" "get_app (t\<lparr>t_limits := l\<rparr>) a = get_app t a"
  by (simp_all add: get_app_def)

lemma ap_counts_simps [tracker_simps]:
  "ap_counts (upd_counts f a) = f (ap_counts a)" "ap_counts (add_sample k at d a) = ap_counts a"
  by (simp_all add: upd_counts_def add_sample_def)

section \<open>The counters agree with the transactions in flight\<close>

definition phase :: "transaction \<Rightarrow> CountKind" where
  "phase e = (if \<not> isZero (tx_emittedAt e) then Emitted else if tx_blocked e then Stalled else Pending)"

definition in_phase :: "string \<Rightarrow> CountKind \<Rightarrow> transaction \<Rightarrow> bool" where
  "in_phase a k e \<longleftrightarrow> tx_app e = a \<and> phase e = k"

definition count_of :: "Tracker \<Rightarrow> string \<Rightarrow> CountKind \<Rightarrow> int" where
  "count_of t a k = Counts_Get (ap_counts (get_app t a)) k"

definition counts_ok :: "Tracker \<Rightarrow> bool" where
  "counts_ok t \<longleftrightarrow> gm_wf (t_txs t) \<and>
     (\<forall>a. \<forall>k \<in> {Pending, Stalled, Emitted}. count_of t a k = gm_count (in_phase a k) (t_txs t))"

text \<open>Three ways the transactions in flight change, and what the counters have to do.\<close>

lemma counts_ok_same:
  "counts_ok t \<Longrightarrow> t_txs t' = t_txs t \<Longrightarrow>
     (\<And>a k. k \<in> {Pending, Stalled, Emitted} \<Longrightarrow> count_of t' a k = count_of t a k) \<Longrightarrow> counts_ok t'"
  by (simp add: counts_ok_def)

lemma counts_ok_new:
  assumes "counts_ok t" "gm_get (t_txs t) h = None" "t_txs t' = gm_set h e (t_txs t)"
    and "\<And>a k. k \<in> {Pending, Stalled, Emitted} \<Longrightarrow>
           count_of t' a k = count_of t a k + of_bool (in_phase a k e)"
  shows "counts_ok t'"
  using assms by (simp add: counts_ok_def gm.cnt_put_fresh gm.wf_put)

lemma counts_ok_change:
  assumes "counts_ok t" "gm_get (t_txs t) h = Some e" "t_txs t' = gm_set h e' (t_txs t)"
    and "\<And>a k. k \<in> {Pending, Stalled, Emitted} \<Longrightarrow>
           count_of t' a k = count_of t a k - of_bool (in_phase a k e) + of_bool (in_phase a k e')"
  shows "counts_ok t'"
  using assms by (simp add: counts_ok_def gm.cnt_put_old gm.wf_put)

lemma counts_ok_gone:
  assumes "counts_ok t" "gm_get (t_txs t) h = Some e" "t_txs t' = gm_del h (t_txs t)"
    and "\<And>a k. k \<in> {Pending, Stalled, Emitted} \<Longrightarrow>
           count_of t' a k = count_of t a k - of_bool (in_phase a k e)"
  shows "counts_ok t'"
  using assms by (simp add: counts_ok_def gm.cnt_del_old gm.wf_del)

lemma phase_simps [tracker_simps]:
  "phase (e\<lparr>tx_blocked := b\<rparr>) = (if \<not> isZero (tx_emittedAt e) then Emitted else if b then Stalled else Pending)"
  "phase (e\<lparr>tx_emittedAt := at\<rparr>) = (if \<not> isZero at then Emitted else if tx_blocked e then Stalled else Pending)"
  by (simp_all add: phase_def)

lemma unblock_counts_ok: "counts_ok t \<Longrightarrow> counts_ok (unblock h t)"
proof (cases "gm_get (t_txs t) h")
  case (Some e)
  assume ok: "counts_ok t"
  show ?thesis
  proof (cases "tx_blocked e")
    case True
    show ?thesis
      by (rule counts_ok_change [OF ok Some, where e' = "e\<lparr>tx_blocked := False\<rparr>"])
         (auto simp: unblock_def Let_def Some True count_of_def in_phase_def phase_def tracker_simps)
  qed (simp add: unblock_def Some ok)
qed (simp add: unblock_def)

lemma fold_unblock_counts_ok: "counts_ok t \<Longrightarrow> counts_ok (fold unblock hs t)"
  by (induction hs arbitrary: t) (simp_all add: unblock_counts_ok)

lemma MarkEmitted_counts_ok:
  assumes ok: "counts_ok t" and "\<not> isZero at"
  shows "counts_ok (MarkEmitted h at t)"
proof (cases "gm_get (t_txs t) h")
  case (Some e)
  show ?thesis
  proof (cases "isZero (tx_emittedAt e)")
    case True
    show ?thesis
      by (rule counts_ok_change [OF ok Some, where e' = "e\<lparr>tx_emittedAt := at\<rparr>"])
         (auto simp: MarkEmitted_def Let_def Some True assms(2) count_of_def in_phase_def phase_def
           tracker_simps)
  qed (simp add: MarkEmitted_def Some ok)
qed (simp add: MarkEmitted_def ok)

lemma count_included_fields [tracker_simps]:
  "t_txs (count_included e at t) = t_txs t" "t_senders (count_included e at t) = t_senders t"
  by (simp_all add: count_included_def Let_def tracker_simps)

lemma releaseNonce_fields [tracker_simps]:
  "t_txs (releaseNonce e t) = t_txs t" "get_app (releaseNonce e t) a = get_app t a"
  by (simp_all add: releaseNonce_def Let_def tracker_simps split: option.splits)

lemma count_of_count_included:
  "count_of (count_included e at t) a k =
     (if k = Included then count_of t a k + of_bool (tx_app e = a)
      else count_of t a k - of_bool (in_phase a k e))"
  by (cases k)
     (auto simp: count_included_def Let_def count_of_def in_phase_def phase_def tracker_simps)

lemma markIncluded_counts_ok:
  assumes ok: "counts_ok t"
  shows "counts_ok (snd (markIncluded h at t))"
proof (cases "gm_get (t_txs t) h")
  case (Some e)
  have "count_of (snd (markIncluded h at t)) a k = count_of (count_included e at t) a k" for a k
    by (simp add: markIncluded_def Let_def Some count_of_def tracker_simps)
  then show ?thesis
    by (intro counts_ok_gone [OF ok Some])
       (auto simp: markIncluded_def Let_def Some count_of_count_included tracker_simps)
qed (simp add: markIncluded_def ok)

lemma counts_ok_blocks [tracker_simps]:
  "counts_ok (t\<lparr>t_blocks := b\<rparr>) = counts_ok t" "counts_ok (t\<lparr>t_limits := l\<rparr>) = counts_ok t"
  "counts_ok (t\<lparr>t_senders := ss\<rparr>) = counts_ok t"
  by (simp_all add: counts_ok_def count_of_def tracker_simps)

lemma with_app_counts_ok:
  "counts_ok t \<Longrightarrow> (\<And>a. ap_counts (f a) = ap_counts a) \<Longrightarrow> counts_ok (with_app n f t)"
  by (rule counts_ok_same) (auto simp: count_of_def tracker_simps)

lemma entered_simps [tracker_simps]:
  "entered (with_app n f t) tx = entered t tx" "entered (t\<lparr>t_unknownSender := i\<rparr>) tx = entered t tx"
  by (simp_all add: entered_def tracker_simps)

lemma new_entry_simps [tracker_simps]:
  "new_entry src tx at (with_app n f t) = new_entry src tx at t"
  "new_entry src tx at (t\<lparr>t_unknownSender := i\<rparr>) = new_entry src tx at t"
  by (simp_all add: new_entry_def tracker_simps)

text \<open>
  The branch of \<open>OnTransactionSubmitted\<close> that follows a new transaction, opened once for the
  proofs about it.
\<close>

definition follows :: "submitted_tx \<Rightarrow> bool \<Rightarrow> Tracker \<Rightarrow> bool" where
  "follows tx err t \<longleftrightarrow> \<not> err \<and> length (t_txs t) < maxTrackedTransactions \<and>
     gm_get (t_txs t) (stx_hash tx) = None"

lemma OnTransactionSubmitted_skip:
  assumes "\<not> follows tx err t"
  shows "\<exists>t'. OnTransactionSubmitted src tx at err t = Some t' \<and> t_txs t' = t_txs t \<and>
    t_senders t' = t_senders t \<and> (\<forall>a k. k \<noteq> Rejected \<longrightarrow> count_of t' a k = count_of t a k)"
proof -
  have "count_of t' a k = count_of t a k"
    if "t' = with_app src (upd_counts (\<lambda>c. c\<lparr>cRejected := cRejected c + 1\<rparr>)) (with_app src id t)"
      "k \<noteq> Rejected" for t' a k
    using that by (cases k) (auto simp: count_of_def tracker_simps)
  then show ?thesis
    using assms
    by (auto simp: follows_def OnTransactionSubmitted_def Let_def count_of_def tracker_simps)
qed

lemma OnTransactionSubmitted_follow:
  assumes "follows tx err t"
  obtains t3 where "t_txs t3 = gm_set (stx_hash tx) (new_entry src tx at t) (t_txs t)"
    and "t_senders t3 = t_senders t"
    and "\<forall>a k. count_of t3 a k = count_of t a k + of_bool (in_phase a k (new_entry src tx at t))"
    and "OnTransactionSubmitted src tx at err t =
      (case extendRun (entered t tx) [] of
         None \<Rightarrow> None
       | Some (acc, us) \<Rightarrow>
           Some (fold unblock us (t3\<lparr>t_senders := gm_set (tx_from tx) acc (t_senders t)\<rparr>)))"
proof -
  let ?t = "with_app src id t"
  let ?t1 = "if stx_from tx = None then ?t\<lparr>t_unknownSender := t_unknownSender ?t + 1\<rparr> else ?t"
  let ?e = "new_entry src tx at t"
  let ?t3 = "with_app src (upd_counts (\<lambda>c. if tx_blocked ?e then c\<lparr>cStalled := cStalled c + 1\<rparr>
      else c\<lparr>cPending := cPending c + 1\<rparr>)) (?t1\<lparr>t_txs := gm_set (stx_hash tx) ?e (t_txs ?t1)\<rparr>)"
  show thesis
  proof (rule that [of ?t3])
    show "t_txs ?t3 = gm_set (stx_hash tx) ?e (t_txs t)" by (simp add: tracker_simps)
    show "t_senders ?t3 = t_senders t" by (simp add: tracker_simps)
    have "count_of ?t3 a k = count_of t a k + of_bool (in_phase a k ?e)" for a k
      by (cases k) (auto simp: count_of_def in_phase_def phase_def isZero_def new_entry_def tracker_simps)
    then show "\<forall>a k. count_of ?t3 a k = count_of t a k + of_bool (in_phase a k ?e)" by blast
    show "OnTransactionSubmitted src tx at err t =
      (case extendRun (entered t tx) [] of None \<Rightarrow> None
       | Some (acc, us) \<Rightarrow>
           Some (fold unblock us (?t3\<lparr>t_senders := gm_set (tx_from tx) acc (t_senders t)\<rparr>)))"
      using assms
      by (cases "extendRun (entered t tx) []")
         (auto simp: OnTransactionSubmitted_def Let_def follows_def tracker_simps)
  qed
qed

lemma OnTransactionSubmitted_counts_ok:
  assumes ok: "counts_ok t" and sub: "OnTransactionSubmitted src tx at err t = Some t'"
  shows "counts_ok t'"
proof (cases "follows tx err t")
  case True
  obtain t3 where t3: "t_txs t3 = gm_set (stx_hash tx) (new_entry src tx at t) (t_txs t)"
    and "t_senders t3 = t_senders t"
    and cnt: "\<forall>a k. count_of t3 a k = count_of t a k + of_bool (in_phase a k (new_entry src tx at t))"
    and eq: "OnTransactionSubmitted src tx at err t =
      (case extendRun (entered t tx) [] of None \<Rightarrow> None
       | Some (acc, us) \<Rightarrow>
           Some (fold unblock us (t3\<lparr>t_senders := gm_set (tx_from tx) acc (t_senders t)\<rparr>)))"
    by (rule OnTransactionSubmitted_follow [OF True, of src at])
  have "counts_ok t3" using ok True t3 cnt by (auto intro: counts_ok_new simp: follows_def)
  then show ?thesis
    using sub by (auto simp: eq split: option.splits intro!: fold_unblock_counts_ok simp: tracker_simps)
next
  case False
  then show ?thesis
    using OnTransactionSubmitted_skip [OF False, of src at] sub by (auto intro: counts_ok_same [OF ok])
qed

section \<open>The run of emittable nonces\<close>

text \<open>
  What \<open>extendRun\<close> computes: it moves the end of the run to the first nonce that is not in flight
  and returns the transactions it passed, the one at \<open>s_next\<close> and the ones below it left out.
\<close>

definition run_hashes :: "sender \<Rightarrow> nat \<Rightarrow> hash list" where
  "run_hashes s k = map (\<lambda>n. the (gm_get (s_inFlight s) n))
     (filter (\<lambda>n. n > s_next s) (map (\<lambda>i. s_runEnd s + of_nat i) [0..<k]))"

lemma run_hashes_Suc:
  "run_hashes s (Suc k) = (if s_runEnd s > s_next s then [the (gm_get (s_inFlight s) (s_runEnd s))] else []) @
     run_hashes (s\<lparr>s_runEnd := s_runEnd s + 1\<rparr>) k"
proof -
  have "[0..<Suc k] = 0 # map Suc [0..<k]" by (simp add: map_Suc_upt upt_conv_Cons del: upt_Suc)
  then show ?thesis by (simp add: run_hashes_def comp_def add.assoc)
qed

lemma extendRun_steps:
  assumes "\<forall>i<k. gm_get (s_inFlight s) (s_runEnd s + of_nat i) \<noteq> None"
    and "gm_get (s_inFlight s) (s_runEnd s + of_nat k) = None"
  shows "extendRun s us = Some (s\<lparr>s_runEnd := s_runEnd s + of_nat k\<rparr>, us @ run_hashes s k)"
  using assms
proof (induction k arbitrary: s us)
  case 0
  then show ?case by (subst extendRun.simps) (simp add: run_hashes_def)
next
  case (Suc k)
  let ?s = "s\<lparr>s_runEnd := s_runEnd s + 1\<rparr>"
  from Suc.prems(1) obtain h where h: "gm_get (s_inFlight s) (s_runEnd s) = Some h" by fastforce
  have "\<forall>i<k. gm_get (s_inFlight ?s) (s_runEnd ?s + of_nat i) \<noteq> None"
    using Suc.prems(1) by (auto simp: add.assoc dest: spec [of _ "Suc _"])
  moreover have "gm_get (s_inFlight ?s) (s_runEnd ?s + of_nat k) = None"
    using Suc.prems(2) by (simp add: add.assoc)
  ultimately have "extendRun ?s us' = Some (?s\<lparr>s_runEnd := s_runEnd ?s + of_nat k\<rparr>, us' @ run_hashes ?s k)"
    for us' by (rule Suc.IH)
  then show ?case
    by (subst extendRun.simps) (simp add: h run_hashes_Suc add.assoc)
qed

lemma extendRun_returns:
  assumes "length (s_inFlight s) < 2 ^ 64"
  obtains k where "\<forall>i<k. gm_get (s_inFlight s) (s_runEnd s + of_nat i) \<noteq> None"
    and "gm_get (s_inFlight s) (s_runEnd s + of_nat k) = None"
    and "extendRun s us = Some (s\<lparr>s_runEnd := s_runEnd s + of_nat k\<rparr>, us @ run_hashes s k)"
proof -
  let ?P = "\<lambda>k. gm_get (s_inFlight s) (s_runEnd s + of_nat k) = None"
  define k where "k = (LEAST k. ?P k)"
  have "?P k" unfolding k_def by (rule LeastI_ex) (rule u64_map_gap [OF assms])
  moreover have "\<forall>i<k. \<not> ?P i" unfolding k_def using not_less_Least by blast
  ultimately show thesis using extendRun_steps that by blast
qed

section \<open>The nonce bookkeeping leads back to the transactions in flight\<close>

definition refers :: "(hash, transaction) gomap \<Rightarrow> address \<Rightarrow> u64 \<Rightarrow> hash \<Rightarrow> bool" where
  "refers txs a n h \<longleftrightarrow> (\<exists>e. gm_get txs h = Some e \<and> tx_sender e = a \<and> tx_nonce e = n)"

definition sender_ok :: "(hash, transaction) gomap \<Rightarrow> address \<Rightarrow> sender \<Rightarrow> bool" where
  "sender_ok txs a s \<longleftrightarrow> gm_wf (s_inFlight s) \<and>
     (\<forall>n h. gm_get (s_inFlight s) n = Some h \<longrightarrow> refers txs a n h)"

definition links_ok :: "Tracker \<Rightarrow> bool" where
  "links_ok t \<longleftrightarrow> gm_wf (t_senders t) \<and> length (t_txs t) \<le> maxTrackedTransactions \<and>
     (\<forall>a s. gm_get (t_senders t) a = Some s \<longrightarrow> sender_ok (t_txs t) a s)"

lemma sender_ok_mono:
  "sender_ok txs a s \<Longrightarrow> (\<And>n h. refers txs a n h \<Longrightarrow> refers txs' a n h) \<Longrightarrow> sender_ok txs' a s"
  by (auto simp: sender_ok_def)

lemma links_ok_mono:
  assumes "links_ok t" "t_senders t' = t_senders t" "length (t_txs t') \<le> maxTrackedTransactions"
    and ref: "\<And>a n h. refers (t_txs t) a n h \<Longrightarrow> refers (t_txs t') a n h"
  shows "links_ok t'"
  unfolding links_ok_def
proof (intro conjI allI impI)
  fix a s
  assume "gm_get (t_senders t') a = Some s"
  then have "sender_ok (t_txs t) a s" using assms(1,2) by (simp add: links_ok_def)
  then show "sender_ok (t_txs t') a s" using ref by (rule sender_ok_mono)
qed (use assms in \<open>simp_all add: links_ok_def\<close>)

lemma refers_change:
  "gm_get txs h' = Some e \<Longrightarrow> tx_sender e' = tx_sender e \<Longrightarrow> tx_nonce e' = tx_nonce e \<Longrightarrow>
     refers txs a n h \<Longrightarrow> refers (gm_set h' e' txs) a n h"
  by (auto simp: refers_def gomap_simps)

lemma links_ok_change:
  assumes "links_ok t" "gm_get (t_txs t) h = Some e" "t_txs t' = gm_set h e' (t_txs t)"
    and "t_senders t' = t_senders t" "tx_sender e' = tx_sender e" "tx_nonce e' = tx_nonce e"
  shows "links_ok t'"
proof (rule links_ok_mono [OF assms(1,4)])
  show "length (t_txs t') \<le> maxTrackedTransactions"
    using assms(1,2,3) by (simp add: links_ok_def length_gm_set)
  show "refers (t_txs t') a n h'" if "refers (t_txs t) a n h'" for a n h'
    using refers_change [OF assms(2,5,6) that] by (simp add: assms(3))
qed

lemma unblock_links_ok: "links_ok t \<Longrightarrow> links_ok (unblock h t)"
proof (cases "gm_get (t_txs t) h")
  case (Some e)
  assume ok: "links_ok t"
  show ?thesis
  proof (cases "tx_blocked e")
    case True
    show ?thesis
      by (rule links_ok_change [OF ok Some, where e' = "e\<lparr>tx_blocked := False\<rparr>"])
         (auto simp: unblock_def Let_def Some True tracker_simps)
  qed (simp add: unblock_def Some ok)
qed (simp add: unblock_def)

lemma fold_unblock_links_ok: "links_ok t \<Longrightarrow> links_ok (fold unblock hs t)"
  by (induction hs arbitrary: t) (simp_all add: unblock_links_ok)

lemma MarkEmitted_links_ok: "links_ok t \<Longrightarrow> links_ok (MarkEmitted h at t)"
proof (cases "gm_get (t_txs t) h")
  case (Some e)
  assume ok: "links_ok t"
  show ?thesis
  proof (cases "isZero (tx_emittedAt e)")
    case True
    show ?thesis
      by (rule links_ok_change [OF ok Some, where e' = "e\<lparr>tx_emittedAt := at\<rparr>"])
         (auto simp: MarkEmitted_def Let_def Some True tracker_simps)
  qed (simp add: MarkEmitted_def Some ok)
qed (simp add: MarkEmitted_def)

lemma sender_ok_inFlight:
  "sender_ok txs a s \<Longrightarrow> s_inFlight s' = s_inFlight s \<Longrightarrow> sender_ok txs a s'"
  by (simp add: sender_ok_def)

lemma sender_ok_length:
  assumes "sender_ok txs a s"
  shows "length (s_inFlight s) \<le> length txs"
proof (rule length_by_values)
  show "gm_wf (s_inFlight s)" using assms by (simp add: sender_ok_def)
  show "k = k'" if "gm_get (s_inFlight s) k = Some h" "gm_get (s_inFlight s) k' = Some h" for k k' h
    using assms that unfolding sender_ok_def refers_def by (metis option.inject)
  show "gm_get txs h \<noteq> None" if "gm_get (s_inFlight s) k = Some h" for k h
    using assms that by (fastforce simp: sender_ok_def refers_def)
qed

text \<open>Giving one sender a new bookkeeping.\<close>

lemma links_ok_sender:
  assumes "links_ok t" "length txs' \<le> maxTrackedTransactions"
    and "sender_ok txs' b s"
    and "\<And>a n h. a \<noteq> b \<Longrightarrow> refers (t_txs t) a n h \<Longrightarrow> refers txs' a n h"
    and "t_txs t' = txs'" "t_senders t' = gm_set b s (t_senders t)"
  shows "links_ok t'"
  unfolding links_ok_def
proof (intro conjI allI impI)
  fix a s'
  assume get: "gm_get (t_senders t') a = Some s'"
  show "sender_ok (t_txs t') a s'"
  proof (cases "a = b")
    case True
    with get show ?thesis using assms(3,5,6) by (simp add: gomap_simps)
  next
    case False
    with get have "sender_ok (t_txs t) a s'" using assms(1,6) by (simp add: links_ok_def gomap_simps)
    then show ?thesis unfolding assms(5) using assms(4) [OF False] by (rule sender_ok_mono)
  qed
qed (use assms in \<open>simp_all add: links_ok_def gomap_simps\<close>)

lemma refers_gone:
  "gm_wf txs \<Longrightarrow> gm_get txs h = Some e \<Longrightarrow> refers txs a n h' \<Longrightarrow> a \<noteq> tx_sender e \<or> n \<noteq> tx_nonce e \<Longrightarrow>
     refers (gm_del h txs) a n h'"
  by (auto simp: refers_def gomap_simps)

lemma release_inFlight [tracker_simps]: "s_inFlight (release n s) = gm_del n (s_inFlight s)"
  by (simp add: release_def Let_def)

lemma markIncluded_links_ok:
  assumes ok: "links_ok t" and wf: "gm_wf (t_txs t)"
  shows "links_ok (snd (markIncluded h at t))"
proof (cases "gm_get (t_txs t) h")
  case (Some e)
  let ?b = "tx_sender e" and ?txs = "gm_del h (t_txs t)"
  have txs: "t_txs (snd (markIncluded h at t)) = ?txs"
    by (simp add: markIncluded_def Some Let_def tracker_simps)
  have len: "length ?txs \<le> maxTrackedTransactions"
    using ok length_gm_del_le [of h "t_txs t"] by (simp add: links_ok_def)
  show ?thesis
  proof (cases "gm_get (t_senders t) ?b")
    case None
    then have snd: "t_senders (snd (markIncluded h at t)) = t_senders t"
      by (simp add: markIncluded_def Some Let_def tracker_simps releaseNonce_def)
    show ?thesis
      unfolding links_ok_def txs snd
    proof (intro conjI allI impI)
      fix a s
      assume s: "gm_get (t_senders t) a = Some s"
      then have "a \<noteq> ?b" using None by auto
      then show "sender_ok ?txs a s"
        using ok s by (auto simp: links_ok_def intro: sender_ok_mono refers_gone [OF wf Some])
    qed (use ok len in \<open>simp_all add: links_ok_def\<close>)
  next
    case s: (Some s)
    let ?s = "release (tx_nonce e) s"
    have snd: "t_senders (snd (markIncluded h at t)) = gm_set ?b ?s (t_senders t)"
      by (simp add: markIncluded_def Some Let_def tracker_simps releaseNonce_def s)
    have sok: "sender_ok (t_txs t) ?b s" using ok s by (simp add: links_ok_def)
    have "sender_ok ?txs ?b ?s"
      using sok refers_gone [OF wf Some]
      by (auto simp: sender_ok_def release_inFlight gomap_simps split: if_splits)
    then show ?thesis
      by (rule links_ok_sender [OF ok len _ _ txs snd]) (simp add: refers_gone [OF wf Some])
  qed
qed (simp add: markIncluded_def ok)

text \<open>Both parts of the invariant along the loop of \<open>MarkBlock\<close>.\<close>

lemma fold_contribute_induct:
  assumes "P t" "\<And>t h. P t \<Longrightarrow> P (snd (markIncluded h at t))"
  shows "P (snd (fold (contribute height at) txs (c, t)))"
  using assms(1)
proof (induction txs arbitrary: c t)
  case (Cons tx txs)
  have "P (snd (contribute height at tx (c, t)))"
    using assms(2) [OF Cons.prems, of "it_Hash tx"]
    by (cases "markIncluded (it_Hash tx) at t") (simp add: contribute_def Let_def)
  then show ?case using Cons.IH by (cases "contribute height at tx (c, t)") simp
qed simp

lemma MarkBlock_keeps:
  assumes "P t" "\<And>t h. P t \<Longrightarrow> P (snd (markIncluded h at t))" "\<And>t b. P t \<Longrightarrow> P (t\<lparr>t_blocks := b\<rparr>)"
  shows "P (MarkBlock height at txs t)"
  using fold_contribute_induct [of P t at height txs "[]", OF assms(1,2)] assms(3)
  by (cases "fold (contribute height at) txs ([], t)") (simp add: MarkBlock_def)

lemma refers_new: "gm_get txs h = None \<Longrightarrow> refers txs a n h' \<Longrightarrow> refers (gm_set h e txs) a n h'"
  by (auto simp: refers_def gomap_simps)

lemma entered_sender_ok:
  assumes ok: "links_ok t" and "gm_get (t_txs t) (stx_hash tx) = None"
    and e: "tx_sender e = tx_from tx" "tx_nonce e = stx_nonce tx"
  shows "sender_ok (gm_set (stx_hash tx) e (t_txs t)) (tx_from tx) (entered t tx)"
proof -
  let ?a = "tx_from tx" and ?txs = "gm_set (stx_hash tx) e (t_txs t)"
  let ?s = "case gm_get (t_senders t) ?a of Some a \<Rightarrow> a | None \<Rightarrow> fresh_sender (stx_nonce tx)"
  have "sender_ok (t_txs t) ?a ?s"
    using ok by (cases "gm_get (t_senders t) ?a") (auto simp: links_ok_def sender_ok_def fresh_sender_def)
  then have "sender_ok ?txs ?a ?s" using refers_new [OF assms(2)] by (rule sender_ok_mono)
  moreover have "refers ?txs ?a (stx_nonce tx) (stx_hash tx)"
    by (simp add: refers_def gomap_simps e)
  ultimately show ?thesis by (simp add: sender_ok_def entered_def Let_def gomap_simps)
qed

text \<open>What following a new transaction does, the loop over the run included.\<close>

definition run_end :: "sender \<Rightarrow> nat \<Rightarrow> bool" where
  "run_end s k \<longleftrightarrow> (\<forall>i<k. gm_get (s_inFlight s) (s_runEnd s + of_nat i) \<noteq> None) \<and>
     gm_get (s_inFlight s) (s_runEnd s + of_nat k) = None"

lemma OnTransactionSubmitted_run:
  assumes ok: "links_ok t" and fol: "follows tx err t"
  obtains k t3 where "run_end (entered t tx) k"
    and "t_txs t3 = gm_set (stx_hash tx) (new_entry src tx at t) (t_txs t)"
    and "t_senders t3 = gm_set (tx_from tx)
      ((entered t tx)\<lparr>s_runEnd := s_runEnd (entered t tx) + of_nat k\<rparr>) (t_senders t)"
    and "OnTransactionSubmitted src tx at err t = Some (fold unblock (run_hashes (entered t tx) k) t3)"
    and "links_ok t3"
proof -
  let ?e = "new_entry src tx at t" and ?a = "tx_from tx" and ?h = "stx_hash tx" and ?s = "entered t tx"
  let ?txs = "gm_set ?h ?e (t_txs t)"
  obtain t3 where t3: "t_txs t3 = ?txs" "t_senders t3 = t_senders t"
    and eq: "OnTransactionSubmitted src tx at err t =
      (case extendRun ?s [] of None \<Rightarrow> None
       | Some (acc, us) \<Rightarrow> Some (fold unblock us (t3\<lparr>t_senders := gm_set ?a acc (t_senders t)\<rparr>)))"
    by (rule OnTransactionSubmitted_follow [OF fol, of src at])
  have new: "gm_get (t_txs t) ?h = None" and len: "length ?txs \<le> maxTrackedTransactions"
    using fol length_gm_set_le [of ?h ?e "t_txs t"] by (simp_all add: follows_def)
  have sok: "sender_ok ?txs ?a ?s" by (rule entered_sender_ok [OF ok new]) (simp_all add: new_entry_def)
  then have "length (s_inFlight ?s) < 2 ^ 64"
    using sender_ok_length [OF sok] len by (simp add: maxTrackedTransactions_def)
  then obtain k where k: "run_end ?s k"
    and run: "extendRun ?s [] = Some (?s\<lparr>s_runEnd := s_runEnd ?s + of_nat k\<rparr>, [] @ run_hashes ?s k)"
    unfolding run_end_def using extendRun_returns [of ?s "[]"] by blast
  let ?s' = "?s\<lparr>s_runEnd := s_runEnd ?s + of_nat k\<rparr>"
  let ?t3 = "t3\<lparr>t_senders := gm_set ?a ?s' (t_senders t)\<rparr>"
  have "sender_ok ?txs ?a ?s'" using sok by (rule sender_ok_inFlight) simp
  then have "links_ok ?t3"
    by (rule links_ok_sender [OF ok len]) (simp_all add: refers_new [OF new] t3)
  moreover have "OnTransactionSubmitted src tx at err t = Some (fold unblock (run_hashes ?s k) ?t3)"
    by (simp add: eq run)
  ultimately show thesis using that [of k ?t3] k t3 by simp
qed

lemma OnTransactionSubmitted_links:
  assumes ok: "links_ok t"
  shows "\<exists>t'. OnTransactionSubmitted src tx at err t = Some t' \<and> links_ok t'"
proof (cases "follows tx err t")
  case True
  then show ?thesis
    by (rule OnTransactionSubmitted_run [OF ok, of tx err src at]) (simp add: fold_unblock_links_ok)
next
  case False
  obtain t' where "OnTransactionSubmitted src tx at err t = Some t'"
      "t_txs t' = t_txs t" "t_senders t' = t_senders t"
    using OnTransactionSubmitted_skip [OF False] by blast
  then show ?thesis using ok by (simp add: links_ok_def)
qed

section \<open>Every execution\<close>

text \<open>
  One rule per method of the tracker that changes its state. Emissions are reported with the
  creation time of an event, which is a 64-bit number of nanoseconds
  (\<open>time.Unix(0, int64(event.CreationTime))\<close>); the times of submissions and blocks are arbitrary.
\<close>

inductive tracker_step :: "Tracker \<Rightarrow> Tracker \<Rightarrow> bool" where
  submitted: "OnTransactionSubmitted src tx at err t = Some t' \<Longrightarrow> tracker_step t t'"
| emitted: "tracker_step t (MarkEmitted h (unix_nanos ns) t)"
| included: "tracker_step t (MarkIncluded h at t)"
| block: "tracker_step t (MarkBlock height at txs t)"
| limits: "tracker_step t (MarkBlockLimits height l t)"
| counts: "tracker_step t (snd (Tracker_Counts app t))"
| samples: "tracker_step t (snd (Tracker_Samples app k t))"

inductive tracker_reach :: "Tracker \<Rightarrow> bool" where
  start: "tracker_reach NewTracker"
| step: "tracker_reach t \<Longrightarrow> tracker_step t t' \<Longrightarrow> tracker_reach t'"

definition tracker_inv :: "Tracker \<Rightarrow> bool" where
  "tracker_inv t \<longleftrightarrow> counts_ok t \<and> links_ok t"

lemma links_ok_fields:
  "links_ok t \<Longrightarrow> t_txs t' = t_txs t \<Longrightarrow> t_senders t' = t_senders t \<Longrightarrow> links_ok t'"
  by (simp add: links_ok_def)

lemma counts_ok_wf: "counts_ok t \<Longrightarrow> gm_wf (t_txs t)"
  by (simp add: counts_ok_def)

lemma markIncluded_inv: "tracker_inv t \<Longrightarrow> tracker_inv (snd (markIncluded h at t))"
  unfolding tracker_inv_def using markIncluded_counts_ok markIncluded_links_ok counts_ok_wf by blast

lemma tracker_inv_blocks: "tracker_inv t \<Longrightarrow> tracker_inv (t\<lparr>t_blocks := b\<rparr>)"
  by (auto simp: tracker_inv_def tracker_simps intro: links_ok_fields)

lemma NewTracker_inv: "tracker_inv NewTracker"
  by (auto simp: tracker_inv_def counts_ok_def links_ok_def NewTracker_def count_of_def get_app_def
    zero_application_def zero_counts_def)

lemma tracker_step_inv: "tracker_step t t' \<Longrightarrow> tracker_inv t \<Longrightarrow> tracker_inv t'"
proof (induction rule: tracker_step.induct)
  case (submitted src tx at err t t')
  then show ?case
    using OnTransactionSubmitted_counts_ok OnTransactionSubmitted_links [of t src tx at err]
    by (auto simp: tracker_inv_def)
next
  case (emitted t h ns)
  then show ?case
    by (simp add: tracker_inv_def MarkEmitted_counts_ok MarkEmitted_links_ok isZero_def
      unix_nanos_not_zero_time)
next
  case (included t h at)
  then show ?case by (simp add: MarkIncluded_def markIncluded_inv)
next
  case (block t height at txs)
  then show ?case
    by (rule MarkBlock_keeps [where P = tracker_inv, OF _ markIncluded_inv tracker_inv_blocks])
next
  case (limits t height l)
  then show ?case
    by (auto simp: MarkBlockLimits_def tracker_inv_def tracker_simps intro: links_ok_fields)
next
  case (counts t app)
  then show ?case
    by (auto simp: Tracker_Counts_def tracker_inv_def tracker_simps intro: links_ok_fields with_app_counts_ok)
next
  case (samples t app k)
  then show ?case
    by (auto simp: Tracker_Samples_def tracker_inv_def tracker_simps
      intro: links_ok_fields with_app_counts_ok)
qed

lemma tracker_reach_inv: "tracker_reach t \<Longrightarrow> tracker_inv t"
  by (induction rule: tracker_reach.induct) (auto intro: NewTracker_inv tracker_step_inv)

end
