(* ===== verification/Txmon_Runs.thy ===== *)
theory Txmon_Runs
  imports Txmon_Invariant
begin

text \<open>
  The separation of emittable from stalled transactions: as long as the included transactions
  come from the emittable run of their sender, \<open>s_runEnd\<close> is the first missing nonce at or above
  \<open>s_next\<close>, and a transaction is marked blocked exactly if it lies beyond it.
\<close>

section \<open>The run of a sender\<close>

text \<open>EIP-2681: no transaction has the largest 64-bit nonce.\<close>

definition valid_nonce :: "u64 \<Rightarrow> bool" where
  "valid_nonce n \<longleftrightarrow> n \<noteq> - 1"

definition run_ok :: "sender \<Rightarrow> bool" where
  "run_ok s \<longleftrightarrow> s_next s \<le> s_runEnd s \<and> gm_wf (s_inFlight s) \<and>
     (\<forall>n. gm_get (s_inFlight s) n \<noteq> None \<longrightarrow> valid_nonce n) \<and>
     (\<forall>n. s_next s \<le> n \<and> n < s_runEnd s \<longrightarrow> gm_get (s_inFlight s) n \<noteq> None)"

definition run_exact :: "(hash, transaction) gomap \<Rightarrow> sender \<Rightarrow> bool" where
  "run_exact txs s \<longleftrightarrow> run_ok s \<and> gm_get (s_inFlight s) (s_runEnd s) = None \<and>
     (\<forall>n h e. gm_get (s_inFlight s) n = Some h \<and> gm_get txs h = Some e \<longrightarrow>
        tx_blocked e = (n > s_runEnd s))"

lemma unat_succ: "(n :: u64) \<noteq> - 1 \<Longrightarrow> unat (n + 1) = Suc (unat n)"
  by (metis Suc_eq_plus1 add.commute add_eq_0_iff2 unatSuc)

lemma word_succ_le: "(n :: u64) \<noteq> - 1 \<Longrightarrow> n + 1 \<le> m \<longleftrightarrow> n < m"
  by (simp add: word_le_nat_alt word_less_nat_alt unat_succ Suc_le_eq)

lemma word_less_succ: "(n :: u64) \<noteq> - 1 \<Longrightarrow> m < n + 1 \<longleftrightarrow> m \<le> n"
  by (simp add: word_le_nat_alt word_less_nat_alt unat_succ less_Suc_eq_le)

text \<open>Along the run the nonces do not wrap around.\<close>

lemma run_unat:
  assumes "\<forall>n. gm_get m n \<noteq> None \<longrightarrow> valid_nonce n" "\<forall>i<k. gm_get m (r + of_nat i) \<noteq> None" "i \<le> k"
  shows "unat (r + of_nat i :: u64) = unat r + i"
  using assms(3)
proof (induction i)
  case (Suc i)
  then have "r + of_nat i \<noteq> - 1" using assms(1,2) by (auto simp: valid_nonce_def)
  then have "unat (r + of_nat i + 1) = Suc (unat (r + of_nat i))" by (rule unat_succ)
  moreover have "r + of_nat (Suc i) = r + of_nat i + 1" by simp
  ultimately show ?case using Suc by (metis Suc_leD add_Suc_right)
qed simp

lemma run_between:
  assumes "\<forall>n. gm_get m n \<noteq> None \<longrightarrow> valid_nonce n" "\<forall>i<k. gm_get m (r + of_nat i) \<noteq> None"
    and "r \<le> n" "n < r + of_nat k"
  obtains i where "i < k" "n = (r :: u64) + of_nat i"
proof
  let ?i = "unat (n - r)"
  show "n = r + of_nat ?i" by simp
  have "unat n < unat r + k" using assms(4) run_unat [OF assms(1,2) order_refl] by (simp add: word_less_nat_alt)
  moreover have "unat (n - r) = unat n - unat r" using assms(3) by (rule unat_sub)
  ultimately show "?i < k" using assms(3) by (simp add: word_le_nat_alt)
qed

lemma run_hashes_iff:
  assumes "run_end s k"
  shows "h \<in> set (run_hashes s k) \<longleftrightarrow>
    (\<exists>i<k. s_next s < s_runEnd s + of_nat i \<and> gm_get (s_inFlight s) (s_runEnd s + of_nat i) = Some h)"
  using assms by (force simp: run_hashes_def run_end_def image_iff)

lemma extended_run_ok:
  assumes "run_ok s" "run_end s k"
  shows "run_ok (s\<lparr>s_runEnd := s_runEnd s + of_nat k\<rparr>)"
proof -
  let ?r = "s_runEnd s" and ?m = "s_inFlight s"
  have valid: "\<forall>n. gm_get ?m n \<noteq> None \<longrightarrow> valid_nonce n"
    and full: "\<forall>i<k. gm_get ?m (?r + of_nat i) \<noteq> None"
    using assms by (simp_all add: run_ok_def run_end_def)
  have "?r \<le> ?r + of_nat k"
    using run_unat [OF valid full order_refl] by (simp add: word_le_nat_alt)
  moreover have "gm_get ?m n \<noteq> None" if lo: "s_next s \<le> n" and hi: "n < ?r + of_nat k" for n
  proof (cases "n < ?r")
    case True
    with lo assms(1) show ?thesis by (simp add: run_ok_def)
  next
    case False
    then have "?r \<le> n" by simp
    then obtain i where "i < k" "n = ?r + of_nat i" by (rule run_between [OF valid full _ hi])
    then show ?thesis using full by blast
  qed
  ultimately show ?thesis using assms(1) by (auto simp: run_ok_def)
qed

lemma release_run_ok:
  assumes ok: "run_ok s" and valid: "valid_nonce n"
  shows "run_ok (release n s)"
proof -
  have n: "n \<noteq> - 1" using valid by (simp add: valid_nonce_def)
  show ?thesis
    using ok
    by (auto simp: run_ok_def release_def Let_def gomap_simps word_succ_le [OF n] word_less_succ [OF n])
qed

section \<open>Every sender of a tracker\<close>

definition runs_ok :: "Tracker \<Rightarrow> bool" where
  "runs_ok t \<longleftrightarrow> tracker_inv t \<and>
     (\<forall>h e. gm_get (t_txs t) h = Some e \<longrightarrow> valid_nonce (tx_nonce e)) \<and>
     (\<forall>a s. gm_get (t_senders t) a = Some s \<longrightarrow> run_ok s)"

definition runs_exact :: "Tracker \<Rightarrow> bool" where
  "runs_exact t \<longleftrightarrow> runs_ok t \<and> (\<forall>a s. gm_get (t_senders t) a = Some s \<longrightarrow> run_exact (t_txs t) s)"

text \<open>Whether a transaction in flight is part of the emittable run of its sender.\<close>

definition from_run :: "transaction \<Rightarrow> Tracker \<Rightarrow> bool" where
  "from_run e t \<longleftrightarrow>
     (case gm_get (t_senders t) (tx_sender e) of None \<Rightarrow> True | Some s \<Rightarrow> tx_nonce e < s_runEnd s)"

fun in_order :: "gotime \<Rightarrow> hash list \<Rightarrow> Tracker \<Rightarrow> bool" where
  "in_order at [] t = True"
| "in_order at (h # hs) t \<longleftrightarrow>
     (case gm_get (t_txs t) h of None \<Rightarrow> True | Some e \<Rightarrow> from_run e t) \<and>
     in_order at hs (snd (markIncluded h at t))"

lemma fold_unblock_senders: "t_senders (fold unblock hs t) = t_senders t"
proof (induction hs arbitrary: t)
  case (Cons h hs)
  have "t_senders (unblock h t) = t_senders t"
    by (simp add: unblock_def Let_def tracker_simps split: option.split)
  with Cons show ?case by simp
qed simp

lemma unblock_get:
  "gm_get (t_txs (unblock h t)) h' =
     map_option (\<lambda>e. if h' = h then e\<lparr>tx_blocked := False\<rparr> else e) (gm_get (t_txs t) h')"
  by (cases "gm_get (t_txs t) h"; cases "gm_get (t_txs t) h'")
     (auto simp: unblock_def Let_def tracker_simps gomap_simps)

lemma fold_unblock_get:
  "gm_get (t_txs (fold unblock hs t)) h =
     map_option (\<lambda>e. if h \<in> set hs then e\<lparr>tx_blocked := False\<rparr> else e) (gm_get (t_txs t) h)"
proof (induction hs arbitrary: t)
  case (Cons h' hs)
  then show ?case by (cases "gm_get (t_txs t) h") (simp_all add: unblock_get)
qed (simp add: option.map_ident)

lemma run_exact_sub:
  assumes "run_exact txs s" "\<And>h' e. gm_get txs' h' = Some e \<Longrightarrow> gm_get txs h' = Some e"
  shows "run_exact txs' s"
  using assms unfolding run_exact_def by blast

lemma release_in_run:
  assumes ex: "run_exact txs s" and n: "n < s_runEnd s" "valid_nonce n"
    and del: "\<And>h' e. gm_get txs' h' = Some e \<Longrightarrow> gm_get txs h' = Some e"
  shows "run_exact txs' (release n s)"
proof -
  have n': "n \<noteq> - 1" using n(2) by (simp add: valid_nonce_def)
  have "s_runEnd (release n s) = s_runEnd s"
    using n(1) by (auto simp: release_def Let_def word_less_succ [OF n'])
  moreover have "run_ok (release n s)" using ex n(2) by (simp add: run_exact_def release_run_ok)
  moreover have "gm_wf (s_inFlight s)" using ex by (simp add: run_exact_def run_ok_def)
  ultimately show ?thesis
    using run_exact_sub [OF ex del] by (auto simp: run_exact_def release_inFlight gomap_simps split: if_splits)
qed

lemma markIncluded_senders:
  "gm_get (t_txs t) h = Some e \<Longrightarrow> t_senders (snd (markIncluded h at t)) =
     (case gm_get (t_senders t) (tx_sender e) of
        None \<Rightarrow> t_senders t
      | Some s \<Rightarrow> gm_set (tx_sender e) (release (tx_nonce e) s) (t_senders t))"
  "gm_get (t_txs t) h = Some e \<Longrightarrow> t_txs (snd (markIncluded h at t)) = gm_del h (t_txs t)"
  by (simp_all add: markIncluded_def Let_def tracker_simps releaseNonce_def split: option.split)

lemma runs_ok_wf: "runs_ok t \<Longrightarrow> gm_wf (t_txs t)"
  by (simp add: runs_ok_def tracker_inv_def counts_ok_wf)

lemma markIncluded_runs_ok:
  assumes ok: "runs_ok t"
  shows "runs_ok (snd (markIncluded h at t))"
proof (cases "gm_get (t_txs t) h")
  case (Some e)
  let ?t = "snd (markIncluded h at t)"
  have "tracker_inv ?t" using ok by (simp add: runs_ok_def markIncluded_inv)
  moreover have "valid_nonce (tx_nonce e')" if "gm_get (t_txs ?t) h' = Some e'" for h' e'
    using ok that by (auto simp: markIncluded_senders(2) [OF Some] runs_ok_wf gomap_simps
      runs_ok_def split: if_splits)
  moreover have "run_ok s" if "gm_get (t_senders ?t) a = Some s" for a s
    using ok that Some release_run_ok
    by (auto simp: markIncluded_senders(1) [OF Some] runs_ok_def gomap_simps split: option.splits if_splits)
  ultimately show ?thesis by (simp add: runs_ok_def)
qed (simp add: markIncluded_def ok)

lemma markIncluded_runs_exact:
  assumes ex: "runs_exact t" and ord: "\<And>e. gm_get (t_txs t) h = Some e \<Longrightarrow> from_run e t"
  shows "runs_exact (snd (markIncluded h at t))"
proof (cases "gm_get (t_txs t) h")
  case (Some e)
  let ?t = "snd (markIncluded h at t)"
  have ok: "runs_ok t" using ex by (simp add: runs_exact_def)
  have del: "gm_get (t_txs t) h' = Some e'" if "gm_get (t_txs ?t) h' = Some e'" for h' e'
    using that by (simp add: markIncluded_senders(2) [OF Some] runs_ok_wf [OF ok] gomap_simps split: if_splits)
  have valid: "valid_nonce (tx_nonce e)" using ok Some by (auto simp: runs_ok_def)
  have "run_exact (t_txs ?t) s" if get: "gm_get (t_senders ?t) a = Some s" for a s
  proof (cases "gm_get (t_senders t) (tx_sender e)")
    case None
    with get have "run_exact (t_txs t) s"
      using ex by (simp add: markIncluded_senders(1) [OF Some] runs_exact_def)
    then show ?thesis using del by (rule run_exact_sub)
  next
    case s0: (Some s0)
    have old: "run_exact (t_txs t) s1" if "gm_get (t_senders t) b = Some s1" for b s1
      using ex that by (simp add: runs_exact_def)
    have "tx_nonce e < s_runEnd s0" using ord [OF Some] by (simp add: from_run_def s0)
    then have "run_exact (t_txs ?t) (release (tx_nonce e) s0)"
      using release_in_run [OF old [OF s0] _ valid] del by blast
    moreover have "run_exact (t_txs ?t) s" if "gm_get (t_senders t) a = Some s"
      using old [OF that] del by (rule run_exact_sub)
    ultimately show ?thesis
      using get by (simp add: markIncluded_senders(1) [OF Some] s0 gomap_simps split: if_splits)
  qed
  then show ?thesis by (simp add: runs_exact_def markIncluded_runs_ok ok)
qed (simp add: markIncluded_def ex)

text \<open>Following a new transaction.\<close>

lemma entered_run_ok:
  assumes "runs_ok t" "valid_nonce (stx_nonce tx)"
  shows "run_ok (entered t tx)"
proof (cases "gm_get (t_senders t) (tx_from tx)")
  case None
  then show ?thesis
    using assms(2) by (auto simp: entered_def run_ok_def fresh_sender_def Let_def gm_wf_def)
next
  case (Some s)
  then have "run_ok s" using assms(1) by (simp add: runs_ok_def)
  with assms(2) Some show ?thesis by (auto simp: entered_def run_ok_def Let_def gomap_simps)
qed

lemma entered_blocked:
  assumes ok: "runs_exact t" and e: "e = new_entry src tx at t"
    and new: "gm_get (t_txs t) (stx_hash tx) = None"
    and n: "gm_get (s_inFlight (entered t tx)) n = Some h"
    and h: "gm_get (gm_set (stx_hash tx) e (t_txs t)) h = Some e'"
  shows "tx_blocked e' = (n > s_runEnd (entered t tx))"
proof (cases "n = stx_nonce tx")
  case True
  then have "h = stx_hash tx" using n by (simp add: entered_def Let_def gomap_simps)
  with h True show ?thesis by (auto simp: e new_entry_def executable_def gomap_simps)
next
  case False
  then obtain s where s: "gm_get (t_senders t) (tx_from tx) = Some s"
    and n': "gm_get (s_inFlight s) n = Some h"
    using n by (auto simp: entered_def Let_def gomap_simps fresh_sender_def split: option.splits)
  have "sender_ok (t_txs t) (tx_from tx) s" "run_exact (t_txs t) s"
    using ok s by (simp_all add: runs_exact_def runs_ok_def tracker_inv_def links_ok_def)
  then have "gm_get (t_txs t) h \<noteq> None" and bl: "\<And>e. gm_get (t_txs t) h = Some e \<Longrightarrow> tx_blocked e = (n > s_runEnd s)"
    using n' unfolding sender_ok_def run_exact_def refers_def by (metis option.distinct(1), blast)
  moreover from this have "h \<noteq> stx_hash tx" using new by auto
  ultimately show ?thesis using h s by (auto simp: entered_def Let_def gomap_simps)
qed

lemma extended_run_exact:
  assumes ok: "run_ok s" and k: "run_end s k" and sok: "sender_ok txs a s"
    and bl: "\<And>n h e. gm_get (s_inFlight s) n = Some h \<Longrightarrow> gm_get txs h = Some e \<Longrightarrow>
      tx_blocked e = (n > s_runEnd s)"
    and txs': "\<And>h. gm_get txs' h =
      map_option (\<lambda>e. if h \<in> set (run_hashes s k) then e\<lparr>tx_blocked := False\<rparr> else e) (gm_get txs h)"
  shows "run_exact txs' (s\<lparr>s_runEnd := s_runEnd s + of_nat k\<rparr>)"
  unfolding run_exact_def
proof (intro conjI allI impI)
  let ?r = "s_runEnd s" and ?m = "s_inFlight s" and ?s = "s\<lparr>s_runEnd := s_runEnd s + of_nat k\<rparr>"
  have valid: "\<forall>n. gm_get ?m n \<noteq> None \<longrightarrow> valid_nonce n" and next_le: "s_next s \<le> ?r"
    and full: "\<forall>i<k. gm_get ?m (?r + of_nat i) \<noteq> None"
    using ok k by (simp_all add: run_ok_def run_end_def)
  have un: "unat (?r + of_nat i) = unat ?r + i" if "i \<le> k" for i
    using run_unat [OF valid full that] .
  show "run_ok ?s" using extended_run_ok [OF ok k] .
  show "gm_get (s_inFlight ?s) (s_runEnd ?s) = None" using k by (simp add: run_end_def)
  fix n h e'
  assume "gm_get (s_inFlight ?s) n = Some h \<and> gm_get txs' h = Some e'"
  then have n: "gm_get ?m n = Some h" and h': "gm_get txs' h = Some e'" by simp_all
  then obtain e where e: "gm_get txs h = Some e"
    and e': "e' = (if h \<in> set (run_hashes s k) then e\<lparr>tx_blocked := False\<rparr> else e)"
    using txs' [of h] by auto
  have "h \<in> set (run_hashes s k) \<longleftrightarrow> ?r \<le> n \<and> n < ?r + of_nat k \<and> s_next s < n"
  proof
    assume "h \<in> set (run_hashes s k)"
    then obtain i where i: "i < k" "s_next s < ?r + of_nat i" "gm_get ?m (?r + of_nat i) = Some h"
      using run_hashes_iff [OF k] by blast
    have "n = ?r + of_nat i"
      using sok n i(3) e unfolding sender_ok_def refers_def by (metis option.inject)
    then show "?r \<le> n \<and> n < ?r + of_nat k \<and> s_next s < n"
      using i un [of i] un [of k] by (simp add: word_le_nat_alt word_less_nat_alt)
  next
    assume *: "?r \<le> n \<and> n < ?r + of_nat k \<and> s_next s < n"
    then obtain i where "i < k" "n = ?r + of_nat i" using run_between [OF valid full] by blast
    with * n show "h \<in> set (run_hashes s k)" using run_hashes_iff [OF k] by blast
  qed
  moreover have "n \<noteq> ?r + of_nat k" using n k by (auto simp: run_end_def)
  moreover have "?r \<le> ?r + of_nat k" using un [of k] by (simp add: word_le_nat_alt)
  ultimately show "tx_blocked e' = (n > s_runEnd ?s)"
    using e' bl [OF n e] next_le by (auto simp: not_less)
qed

lemma other_sender_exact:
  assumes sok: "sender_ok txs0 b s" and sok': "sender_ok txs a s'" and ab: "a \<noteq> b" and ex: "run_exact txs0 s"
    and k: "run_end s' k" and sub: "\<And>h. gm_get txs0 h \<noteq> None \<Longrightarrow> gm_get txs h = gm_get txs0 h"
    and txs': "\<And>h. gm_get txs' h =
      map_option (\<lambda>e. if h \<in> set (run_hashes s' k) then e\<lparr>tx_blocked := False\<rparr> else e) (gm_get txs h)"
  shows "run_exact txs' s"
proof -
  have "tx_blocked e' = (n > s_runEnd s)"
    if n: "gm_get (s_inFlight s) n = Some h" and e': "gm_get txs' h = Some e'" for n h e'
  proof -
    obtain e where e: "gm_get txs0 h = Some e" "tx_sender e = b"
      using sok n unfolding sender_ok_def refers_def by blast
    then have txs: "gm_get txs h = Some e" using sub [of h] by simp
    have "h \<notin> set (run_hashes s' k)"
    proof
      assume "h \<in> set (run_hashes s' k)"
      then obtain m where "gm_get (s_inFlight s') m = Some h" using run_hashes_iff [OF k] by blast
      then show False using sok' txs e(2) ab unfolding sender_ok_def refers_def by (metis option.inject)
    qed
    then have "e' = e" using e' txs' [of h] txs by simp
    then show ?thesis using ex n e(1) unfolding run_exact_def by blast
  qed
  then show ?thesis using ex unfolding run_exact_def by blast
qed

lemma OnTransactionSubmitted_txs_valid:
  assumes "runs_ok t" "valid_nonce (stx_nonce tx)"
    and txs': "\<And>h. gm_get (t_txs t') h = map_option (\<lambda>e. if h \<in> H then e\<lparr>tx_blocked := False\<rparr> else e)
      (gm_get (gm_set (stx_hash tx) (new_entry src tx at t) (t_txs t)) h)"
    and "gm_get (t_txs t') h = Some e"
  shows "valid_nonce (tx_nonce e)"
  using assms by (auto simp: gomap_simps new_entry_def runs_ok_def split: if_splits)

lemma submitted_inv:
  "OnTransactionSubmitted src tx at err t = Some t' \<Longrightarrow> tracker_inv t \<Longrightarrow> tracker_inv t'"
  by (rule tracker_step_inv [OF tracker_step.submitted])

lemma OnTransactionSubmitted_runs:
  assumes ok: "runs_ok t" and v: "valid_nonce (stx_nonce tx)"
    and sub: "OnTransactionSubmitted src tx at err t = Some t'"
  shows "runs_ok t' \<and> (runs_exact t \<longrightarrow> runs_exact t')"
proof (cases "follows tx err t")
  case False
  then have "t_txs t' = t_txs t" "t_senders t' = t_senders t"
    using OnTransactionSubmitted_skip [OF False, of src at] sub by auto
  then show ?thesis using ok submitted_inv [OF sub] by (simp add: runs_ok_def runs_exact_def)
next
  case True
  let ?s = "entered t tx" and ?e = "new_entry src tx at t" and ?a = "tx_from tx"
  let ?txs = "gm_set (stx_hash tx) ?e (t_txs t)"
  have links: "links_ok t" and new: "gm_get (t_txs t) (stx_hash tx) = None"
    using ok True by (simp_all add: runs_ok_def tracker_inv_def follows_def)
  obtain k t3 where k: "run_end ?s k" and t3: "t_txs t3 = ?txs"
      "t_senders t3 = gm_set ?a (?s\<lparr>s_runEnd := s_runEnd ?s + of_nat k\<rparr>) (t_senders t)"
    and t': "t' = fold unblock (run_hashes ?s k) t3"
    using OnTransactionSubmitted_run [OF links True, of src at] sub by (metis option.inject)
  have snd: "t_senders t' = gm_set ?a (?s\<lparr>s_runEnd := s_runEnd ?s + of_nat k\<rparr>) (t_senders t)"
    by (simp add: t' fold_unblock_senders t3)
  have txs: "gm_get (t_txs t') h =
      map_option (\<lambda>e. if h \<in> set (run_hashes ?s k) then e\<lparr>tx_blocked := False\<rparr> else e) (gm_get ?txs h)" for h
    by (simp add: t' fold_unblock_get t3)
  have ent: "run_ok ?s" using entered_run_ok [OF ok v] .
  have sok: "sender_ok ?txs ?a ?s" by (rule entered_sender_ok [OF links new]) (simp_all add: new_entry_def)
  have "runs_ok t'"
    using ok submitted_inv [OF sub] extended_run_ok [OF ent k] OnTransactionSubmitted_txs_valid [OF ok v txs]
    by (auto simp: runs_ok_def snd gomap_simps split: if_splits)
  moreover have "run_exact (t_txs t') s" if ex: "runs_exact t" and get: "gm_get (t_senders t') b = Some s" for b s
  proof (cases "b = ?a")
    case True
    have "run_exact (t_txs t') (?s\<lparr>s_runEnd := s_runEnd ?s + of_nat k\<rparr>)"
      by (rule extended_run_exact [OF ent k sok entered_blocked [OF ex refl new] txs])
    then show ?thesis using get True by (simp add: snd gomap_simps)
  next
    case False
    then have "gm_get (t_senders t) b = Some s" using get by (simp add: snd gomap_simps)
    then have "sender_ok (t_txs t) b s" "run_exact (t_txs t) s"
      using ex links by (simp_all add: links_ok_def runs_exact_def)
    then show ?thesis
      by (rule other_sender_exact [OF _ sok False [symmetric] _ k _ txs]) (use new in \<open>auto simp: gomap_simps\<close>)
  qed
  ultimately show ?thesis by (simp add: runs_exact_def)
qed

lemma MarkEmitted_get:
  "gm_get (t_txs (MarkEmitted h at t)) h' =
     map_option (\<lambda>e. if h' = h \<and> isZero (tx_emittedAt e) then e\<lparr>tx_emittedAt := at\<rparr> else e) (gm_get (t_txs t) h')"
  by (cases "gm_get (t_txs t) h"; cases "gm_get (t_txs t) h'")
     (auto simp: MarkEmitted_def Let_def tracker_simps gomap_simps)

lemma MarkEmitted_senders: "t_senders (MarkEmitted h at t) = t_senders t"
  by (simp add: MarkEmitted_def Let_def tracker_simps split: option.split)

lemma MarkEmitted_runs:
  assumes ok: "runs_ok t"
  shows "runs_ok (MarkEmitted h (unix_nanos ns) t)"
    and "runs_exact t \<Longrightarrow> runs_exact (MarkEmitted h (unix_nanos ns) t)"
proof -
  let ?t = "MarkEmitted h (unix_nanos ns) t"
  have "tracker_inv ?t"
    using ok by (auto simp: runs_ok_def intro: tracker_step_inv tracker_step.emitted)
  moreover have "valid_nonce (tx_nonce e)" if "gm_get (t_txs ?t) h' = Some e" for h' e
    using ok that by (auto simp: MarkEmitted_get runs_ok_def split: if_splits)
  ultimately show ok': "runs_ok ?t" using ok by (simp add: runs_ok_def MarkEmitted_senders)
  assume ex: "runs_exact t"
  have "run_exact (t_txs ?t) s" if "gm_get (t_senders t) a = Some s" for a s
    using ex that by (force simp: runs_exact_def run_exact_def MarkEmitted_get)
  then show "runs_exact ?t" using ok' by (simp add: runs_exact_def MarkEmitted_senders)
qed

section \<open>Executions with valid nonces\<close>

text \<open>
  The method calls with the nonces go-ethereum admits; with the flag \<open>ordered\<close>, the inclusions
  are those of transactions from the emittable run of their sender.
\<close>

inductive guarded_step :: "bool \<Rightarrow> Tracker \<Rightarrow> Tracker \<Rightarrow> bool" for ordered :: bool where
  submitted: "valid_nonce (stx_nonce tx) \<Longrightarrow> OnTransactionSubmitted src tx at err t = Some t' \<Longrightarrow>
    guarded_step ordered t t'"
| emitted: "guarded_step ordered t (MarkEmitted h (unix_nanos ns) t)"
| included: "(ordered \<Longrightarrow> in_order at [h] t) \<Longrightarrow> guarded_step ordered t (MarkIncluded h at t)"
| block: "(ordered \<Longrightarrow> in_order at (map it_Hash txs) t) \<Longrightarrow> guarded_step ordered t (MarkBlock height at txs t)"
| limits: "guarded_step ordered t (MarkBlockLimits height l t)"
| counts: "guarded_step ordered t (snd (Tracker_Counts app t))"
| samples: "guarded_step ordered t (snd (Tracker_Samples app k t))"

inductive guarded_reach :: "bool \<Rightarrow> Tracker \<Rightarrow> bool" for ordered :: bool where
  start: "guarded_reach ordered NewTracker"
| step: "guarded_reach ordered t \<Longrightarrow> guarded_step ordered t t' \<Longrightarrow> guarded_reach ordered t'"

lemma runs_ok_fields:
  "runs_ok t \<Longrightarrow> tracker_inv t' \<Longrightarrow> t_txs t' = t_txs t \<Longrightarrow> t_senders t' = t_senders t \<Longrightarrow> runs_ok t'"
  by (simp add: runs_ok_def)

lemma runs_exact_fields:
  "runs_exact t \<Longrightarrow> runs_ok t' \<Longrightarrow> t_txs t' = t_txs t \<Longrightarrow> t_senders t' = t_senders t \<Longrightarrow> runs_exact t'"
  by (simp add: runs_exact_def)

lemma runs_blocks:
  "runs_ok t \<Longrightarrow> runs_ok (t\<lparr>t_blocks := b\<rparr>)" "runs_exact t \<Longrightarrow> runs_exact (t\<lparr>t_blocks := b\<rparr>)"
  by (simp_all add: runs_ok_def runs_exact_def tracker_inv_blocks)

lemma contribute_snd: "snd (contribute height at tx (c, t)) = snd (markIncluded (it_Hash tx) at t)"
  by (simp add: contribute_def Let_def split: prod.split)

lemma fold_contribute_exact:
  "runs_exact t \<Longrightarrow> in_order at (map it_Hash txs) t \<Longrightarrow>
     runs_exact (snd (fold (contribute height at) txs (c, t)))"
proof (induction txs arbitrary: c t)
  case (Cons tx txs)
  let ?t = "snd (markIncluded (it_Hash tx) at t)"
  have "runs_exact ?t" using Cons.prems by (auto intro: markIncluded_runs_exact)
  then have "runs_exact (snd (fold (contribute height at) txs (fst (contribute height at tx (c, t)), ?t)))"
    using Cons by simp
  then show ?case by (metis contribute_snd fold_simps(2) prod.collapse)
qed simp

lemma MarkBlock_runs_exact:
  assumes "runs_exact t" "in_order at (map it_Hash txs) t"
  shows "runs_exact (MarkBlock height at txs t)"
  using fold_contribute_exact [OF assms, of height "[]"]
  by (cases "fold (contribute height at) txs ([], t)") (simp add: MarkBlock_def runs_blocks)

lemma guarded_step_runs:
  "guarded_step ordered t t' \<Longrightarrow> runs_ok t \<Longrightarrow> runs_ok t' \<and> (ordered \<longrightarrow> runs_exact t \<longrightarrow> runs_exact t')"
proof (induction rule: guarded_step.induct)
  case (submitted tx src at err t t')
  then show ?case using OnTransactionSubmitted_runs by blast
next
  case (emitted t h ns)
  then show ?case by (simp add: MarkEmitted_runs)
next
  case (included at h t)
  then show ?case by (auto simp: MarkIncluded_def markIncluded_runs_ok intro: markIncluded_runs_exact)
next
  case (block at txs t height)
  from block.prems have "runs_ok (MarkBlock height at txs t)"
    by (rule MarkBlock_keeps [where P = runs_ok, OF _ markIncluded_runs_ok runs_blocks(1)])
  then show ?case using block by (simp add: MarkBlock_runs_exact)
next
  case (limits t height l)
  then have "runs_ok (MarkBlockLimits height l t)"
    using tracker_step_inv [OF tracker_step.limits, of t height l]
    by (simp add: runs_ok_def MarkBlockLimits_def)
  then show ?case by (auto intro: runs_exact_fields simp: MarkBlockLimits_def)
next
  case (counts t app)
  then have "runs_ok (snd (Tracker_Counts app t))"
    using tracker_step_inv [OF tracker_step.counts, of t app]
    by (simp add: runs_ok_def Tracker_Counts_def tracker_simps)
  then show ?case by (auto intro: runs_exact_fields simp: Tracker_Counts_def tracker_simps)
next
  case (samples t app k)
  then have "runs_ok (snd (Tracker_Samples app k t))"
    using tracker_step_inv [OF tracker_step.samples, of t app k]
    by (simp add: runs_ok_def Tracker_Samples_def tracker_simps)
  then show ?case by (auto intro: runs_exact_fields simp: Tracker_Samples_def tracker_simps)
qed

lemma guarded_reach_runs: "guarded_reach ordered t \<Longrightarrow> runs_ok t \<and> (ordered \<longrightarrow> runs_exact t)"
proof (induction rule: guarded_reach.induct)
  case start
  have "runs_ok NewTracker" by (simp add: runs_ok_def NewTracker_inv) (simp add: NewTracker_def)
  then show ?case by (simp add: runs_exact_def) (simp add: NewTracker_def)
next
  case (step t t')
  then show ?case using guarded_step_runs by blast
qed

end
