(* ===== verification/Txmon_Properties.thy ===== *)
theory Txmon_Properties
  imports Txmon_Runs
begin

text \<open>
  What the transaction tracker promises its readers, stated over whole executions: the counters,
  the conservation of transactions, the separation of stalled transactions and the composition
  of blocks.
\<close>

section \<open>A small execution\<close>

text \<open>Three transactions of one sender, the one with nonce 1 missing.\<close>

definition ex_tx :: "hash \<Rightarrow> u64 \<Rightarrow> submitted_tx" where
  "ex_tx h n = \<lparr>stx_hash = h, stx_nonce = n, stx_from = Some 7\<rparr>"

definition ex_submit :: "hash \<Rightarrow> u64 \<Rightarrow> Tracker \<Rightarrow> Tracker" where
  "ex_submit h n t = (case OnTransactionSubmitted ''app'' (ex_tx h n) 10 False t of Some t' \<Rightarrow> t' | None \<Rightarrow> t)"

definition ex_gap :: Tracker where
  "ex_gap = ex_submit 103 3 (ex_submit 102 2 (ex_submit 100 0 NewTracker))"

definition ex_entry :: "u64 \<Rightarrow> bool \<Rightarrow> transaction" where
  "ex_entry n b = \<lparr>tx_app = ''app'', tx_sender = 7, tx_nonce = n, tx_submittedAt = 10,
     tx_emittedAt = zero_time, tx_blocked = b\<rparr>"

lemmas ex_eval = ex_submit_def ex_tx_def OnTransactionSubmitted_def Let_def with_app_def get_app_def
  upd_counts_def zero_application_def zero_counts_def entered_def new_entry_def executable_def
  tx_from_def fresh_sender_def maxTrackedTransactions_def extendRun.simps unblock_def isZero_def
  ex_entry_def word_le_nat_alt

lemma ex_gap_eq:
  "t_txs ex_gap = [(100, ex_entry 0 False), (102, ex_entry 2 True), (103, ex_entry 3 True)]"
  "t_senders ex_gap = [(7, \<lparr>s_next = 0, s_runEnd = 1, s_inFlight = [(0, 100), (2, 102), (3, 103)]\<rparr>)]"
  by (simp_all add: ex_gap_def NewTracker_def ex_eval)

lemma ex_submit_reach:
  "guarded_reach ordered t \<Longrightarrow> valid_nonce n \<Longrightarrow> guarded_reach ordered (ex_submit h n t)"
  using guarded_reach.step [OF _ guarded_step.submitted, of ordered t "ex_tx h n" "''app''" 10 False]
  by (auto simp: ex_submit_def ex_tx_def split: option.split)

lemma ex_gap_guarded: "guarded_reach ordered ex_gap"
  unfolding ex_gap_def by (intro ex_submit_reach guarded_reach.start) (simp_all add: valid_nonce_def)

lemma guarded_reach_tracker: "guarded_reach ordered t \<Longrightarrow> tracker_reach t"
proof (induction rule: guarded_reach.induct)
  case (step t t')
  from step.hyps(2) have "tracker_step t t'" by cases (auto intro: tracker_step.intros)
  then show ?case using step.IH by (rule tracker_reach.step [rotated])
qed (rule tracker_reach.start)

lemma ex_gap_reach: "tracker_reach ex_gap"
  using guarded_reach_tracker ex_gap_guarded by blast

section \<open>The properties\<close>

text \<open>
  C4: in every tracker an execution can reach, the Pending, Stalled and Emitted counters of every
  application are the numbers of its transactions in flight that wait unblocked, wait blocked, and
  have been seen in an event.
\<close>

theorem tracker_counts_exact:
  "tracker_reach t \<Longrightarrow> k \<in> {Pending, Stalled, Emitted} \<Longrightarrow>
     Counts_Get (fst (Tracker_Counts a t)) k = gm_count (\<lambda>e. tx_app e = a \<and> phase e = k) (t_txs t)"
  using tracker_reach_inv [of t]
  by (auto simp: tracker_inv_def counts_ok_def count_of_def Tracker_Counts_def in_phase_def [abs_def])

theorem tracker_counts_exact_witness:
  "tracker_reach ex_gap \<and> Stalled \<in> {Pending, Stalled, Emitted} \<and>
     Counts_Get (fst (Tracker_Counts ''app'' ex_gap)) Stalled = 2"
  using tracker_counts_exact [OF ex_gap_reach, of Stalled "''app''"] ex_gap_reach
  by (simp add: ex_gap_eq gm_count_def ex_entry_def phase_def isZero_def)

text \<open>
  reporting a submission always returns. The loop that extends the emittable run of the sender
  terminates because a sender never has more nonces in flight than the tracker holds transactions.
\<close>

theorem OnTransactionSubmitted_returns:
  "tracker_reach t \<Longrightarrow> \<exists>t'. OnTransactionSubmitted src tx at err t = Some t' \<and> tracker_reach t'"
  using tracker_reach_inv [of t] OnTransactionSubmitted_links [of t src tx at err]
  by (auto simp: tracker_inv_def intro: tracker_reach.step tracker_step.submitted)

theorem OnTransactionSubmitted_returns_witness:
  "tracker_reach ex_gap \<and>
     (\<exists>t'. OnTransactionSubmitted ''app'' (ex_tx 101 1) 11 False ex_gap = Some t' \<and> tracker_reach t')"
  using OnTransactionSubmitted_returns [OF ex_gap_reach] ex_gap_reach by blast

text \<open>
  whatever the order of events, every nonce of a sender from the one it executes next up to the
  end of its emittable run belongs to a transaction in flight of that sender.
\<close>

theorem emittable_run_in_flight:
  assumes "guarded_reach ordered t" "gm_get (t_senders t) a = Some s"
    and "s_next s \<le> n" "n < s_runEnd s"
  shows "\<exists>h e. gm_get (s_inFlight s) n = Some h \<and> gm_get (t_txs t) h = Some e \<and>
    tx_sender e = a \<and> tx_nonce e = n"
proof -
  have "runs_ok t" using assms(1) guarded_reach_runs by blast
  then have "run_ok s" "sender_ok (t_txs t) a s"
    using assms(2) by (simp_all add: runs_ok_def tracker_inv_def links_ok_def)
  then obtain h where "gm_get (s_inFlight s) n = Some h" "refers (t_txs t) a n h"
    using assms(3,4) unfolding run_ok_def sender_ok_def by blast
  then show ?thesis by (auto simp: refers_def)
qed

theorem emittable_run_in_flight_witness:
  "gm_get (s_inFlight (snd (hd (t_senders ex_gap)))) 0 = Some 100"
  using emittable_run_in_flight [OF ex_gap_guarded, of 7 "snd (hd (t_senders ex_gap))" 0]
  by (simp add: ex_gap_eq word_less_nat_alt)

text \<open>
  C20: as long as blocks take transactions from the emittable runs of their senders, a transaction
  that a sender's bookkeeping leads to is marked blocked exactly if a nonce between the one the
  account executes next and its own is missing.
\<close>

theorem stalled_iff_gap:
  assumes "guarded_reach True t" "gm_get (t_senders t) a = Some s"
    and n: "gm_get (s_inFlight s) n = Some h" and e: "gm_get (t_txs t) h = Some e"
  shows "tx_blocked e \<longleftrightarrow> (\<exists>m. s_next s \<le> m \<and> m < n \<and> gm_get (s_inFlight s) m = None)"
proof -
  have "run_exact (t_txs t) s" using assms(1,2) guarded_reach_runs [of True t] by (simp add: runs_exact_def)
  then have run: "run_ok s" "gm_get (s_inFlight s) (s_runEnd s) = None" "tx_blocked e = (n > s_runEnd s)"
    using n e unfolding run_exact_def by blast+
  show ?thesis
  proof
    assume "tx_blocked e"
    then show "\<exists>m. s_next s \<le> m \<and> m < n \<and> gm_get (s_inFlight s) m = None"
      using run by (auto simp: run_ok_def)
  next
    assume "\<exists>m. s_next s \<le> m \<and> m < n \<and> gm_get (s_inFlight s) m = None"
    then show "tx_blocked e" using run by (metis linorder_not_le order_less_le_trans run_ok_def)
  qed
qed

theorem stalled_iff_gap_witness:
  "tx_blocked (ex_entry 2 True) \<longleftrightarrow>
     (\<exists>m. s_next (snd (hd (t_senders ex_gap))) \<le> m \<and> m < 2 \<and>
        gm_get (s_inFlight (snd (hd (t_senders ex_gap)))) m = None)"
  by (rule stalled_iff_gap [OF ex_gap_guarded, of 7 _ 2 102]) (simp_all add: ex_gap_eq)

text \<open>
  a block may carry a transaction from beyond a gap, when the one that fills it is not tracked.
  The inclusion then moves the end of the run without the transactions that follow being looked at:
  here the transaction with the nonce the account executes next stays counted as stalled, also
  after its successor is submitted and counted as pending.
\<close>

definition ex_late :: Tracker where
  "ex_late = ex_submit 104 4 (MarkIncluded 102 20 ex_gap)"

lemma ex_included_eq:
  "t_txs (MarkIncluded 102 20 ex_gap) = [(100, ex_entry 0 False), (103, ex_entry 3 True)]"
  "t_senders (MarkIncluded 102 20 ex_gap) =
     [(7, \<lparr>s_next = 3, s_runEnd = 3, s_inFlight = [(0, 100), (3, 103)]\<rparr>)]"
  using markIncluded_senders [of ex_gap 102 "ex_entry 2 True" 20]
  by (simp_all add: MarkIncluded_def ex_gap_eq ex_entry_def release_def Let_def word_less_nat_alt)

lemma ex_late_eq:
  "t_txs ex_late = [(100, ex_entry 0 False), (103, ex_entry 3 True), (104, ex_entry 4 False)]"
  "t_senders ex_late = [(7, \<lparr>s_next = 3, s_runEnd = 5, s_inFlight = [(0, 100), (3, 103), (4, 104)]\<rparr>)]"
  by (simp_all add: ex_late_def ex_submit_def ex_tx_def OnTransactionSubmitted_def Let_def
    entered_def new_entry_def executable_def tx_from_def maxTrackedTransactions_def extendRun.simps
    unblock_def isZero_def ex_entry_def word_le_nat_alt ex_included_eq tracker_simps)

theorem next_nonce_stays_stalled:
  "tracker_reach ex_late \<and>
   (\<exists>s. gm_get (t_senders ex_late) 7 = Some s \<and> s_next s = 3 \<and> gm_get (s_inFlight s) 3 = Some 103) \<and>
   gm_get (t_txs ex_late) 103 = Some (ex_entry 3 True) \<and>
   gm_get (t_txs ex_late) 104 = Some (ex_entry 4 False)"
proof (intro conjI)
  have "guarded_reach False ex_late"
    unfolding ex_late_def
    by (intro ex_submit_reach guarded_reach.step [OF ex_gap_guarded] guarded_step.included)
       (simp_all add: valid_nonce_def)
  then show "tracker_reach ex_late" by (rule guarded_reach_tracker)
qed (simp_all add: ex_late_eq)

text \<open>
  a transaction whose signature cannot be recovered is kept under the zero address, whose nonces
  are followed like those of any account, so it can be counted as stalled.
\<close>

definition ex_unknown :: "hash \<Rightarrow> u64 \<Rightarrow> submitted_tx" where
  "ex_unknown h n = \<lparr>stx_hash = h, stx_nonce = n, stx_from = None\<rparr>"

theorem unknown_sender_can_stall:
  "\<exists>t t'. OnTransactionSubmitted ''app'' (ex_unknown 1 0) 10 False NewTracker = Some t \<and>
     OnTransactionSubmitted ''app'' (ex_unknown 2 5) 11 False t = Some t' \<and>
     t_unknownSender t' = 2 \<and> cStalled (fst (Tracker_Counts ''app'' t')) = 1"
  by (simp add: ex_unknown_def NewTracker_def Tracker_Counts_def ex_eval)

section \<open>Conservation\<close>

text \<open>The transactions of an application that were followed: those in flight and those included.\<close>

definition followed_total :: "Tracker \<Rightarrow> string \<Rightarrow> int" where
  "followed_total t a = (let c = fst (Tracker_Counts a t) in cPending c + cStalled c + cEmitted c + cIncluded c)"

lemma followed_total_counts:
  "followed_total t a = count_of t a Pending + count_of t a Stalled + count_of t a Emitted + count_of t a Included"
  by (simp add: followed_total_def Tracker_Counts_def count_of_def Let_def)

lemma in_phase_sum: "k = Pending \<or> k = Stalled \<or> k = Emitted \<Longrightarrow>
  of_bool (in_phase a Pending e) + of_bool (in_phase a Stalled e) + of_bool (in_phase a Emitted e) =
    (of_bool (tx_app e = a) :: int)"
  by (auto simp: in_phase_def phase_def)

lemma unblock_total: "followed_total (unblock h t) a = followed_total t a"
  by (cases "gm_get (t_txs t) h")
     (auto simp: unblock_def Let_def followed_total_counts count_of_def tracker_simps)

lemma fold_unblock_total: "followed_total (fold unblock hs t) a = followed_total t a"
  by (induction hs arbitrary: t) (simp_all add: unblock_total)

lemma MarkEmitted_total: "followed_total (MarkEmitted h at t) a = followed_total t a"
  by (cases "gm_get (t_txs t) h")
     (auto simp: MarkEmitted_def Let_def followed_total_counts count_of_def tracker_simps)

lemma markIncluded_total: "followed_total (snd (markIncluded h at t)) a = followed_total t a"
proof (cases "gm_get (t_txs t) h")
  case (Some e)
  have "followed_total (snd (markIncluded h at t)) a = followed_total (count_included e at t) a"
    by (simp add: markIncluded_def Some Let_def followed_total_counts count_of_def tracker_simps)
  then show ?thesis
    using in_phase_sum [of Pending a e] by (simp add: followed_total_counts count_of_count_included)
qed (simp add: markIncluded_def)

lemma followed_total_blocks: "followed_total (t\<lparr>t_blocks := b\<rparr>) a = followed_total t a"
  "followed_total (t\<lparr>t_senders := ss\<rparr>) a = followed_total t a"
  by (simp_all add: followed_total_counts count_of_def tracker_simps)

lemma MarkBlock_total: "followed_total (MarkBlock height at txs t) a = followed_total t a"
  using MarkBlock_keeps [of "\<lambda>t'. followed_total t' a = followed_total t a"]
  by (simp add: markIncluded_total followed_total_blocks)

lemma OnTransactionSubmitted_total:
  assumes "OnTransactionSubmitted src tx at err t = Some t'"
  shows "followed_total t' a = followed_total t a + of_bool (follows tx err t \<and> src = a)"
proof (cases "follows tx err t")
  case True
  let ?e = "new_entry src tx at t"
  obtain t3 where cnt: "\<forall>a k. count_of t3 a k = count_of t a k + of_bool (in_phase a k ?e)"
    and eq: "OnTransactionSubmitted src tx at err t =
      (case extendRun (entered t tx) [] of None \<Rightarrow> None
       | Some (acc, us) \<Rightarrow> Some (fold unblock us (t3\<lparr>t_senders := gm_set (tx_from tx) acc (t_senders t)\<rparr>)))"
    by (rule OnTransactionSubmitted_follow [OF True, of src at])
  have "in_phase a Included ?e = False" by (simp add: in_phase_def phase_def)
  then have "followed_total t3 a = followed_total t a + of_bool (src = a)"
    using cnt in_phase_sum [of Pending a ?e] by (simp add: followed_total_counts new_entry_def)
  then show ?thesis
    using assms True
    by (auto simp: eq fold_unblock_total followed_total_blocks split: option.splits)
next
  case False
  then show ?thesis
    using OnTransactionSubmitted_skip [OF False, of src at] assms by (auto simp: followed_total_counts)
qed

text \<open>
  transactions are neither lost nor counted twice. The transactions of an application in flight
  plus those included change only when a submission is followed, and then by one for the
  application that made it; emissions and blocks move transactions between the counters.
\<close>

theorem followed_transactions_conserved:
  "(OnTransactionSubmitted src tx at err t = Some t' \<longrightarrow>
      followed_total t' a = followed_total t a +
        (if \<not> err \<and> length (t_txs t) < maxTrackedTransactions \<and> gm_get (t_txs t) (stx_hash tx) = None \<and> src = a
         then 1 else 0)) \<and>
   followed_total (MarkEmitted h at t) a = followed_total t a \<and>
   followed_total (MarkIncluded h at t) a = followed_total t a \<and>
   followed_total (MarkBlock height at txs t) a = followed_total t a"
  using OnTransactionSubmitted_total [of src tx at err t t' a]
  by (auto simp: MarkEmitted_total MarkIncluded_def markIncluded_total MarkBlock_total follows_def)

theorem followed_transactions_conserved_witness:
  "\<exists>t'. OnTransactionSubmitted ''app'' (ex_tx 1 0) 10 False NewTracker = Some t' \<and>
     followed_total t' ''app'' = followed_total NewTracker ''app'' + 1"
proof -
  obtain t' where t': "OnTransactionSubmitted ''app'' (ex_tx 1 0) 10 False NewTracker = Some t'"
    by (simp add: ex_eval NewTracker_def)
  then show ?thesis
    using followed_transactions_conserved [of "''app''" "ex_tx 1 0" 10 False NewTracker t' "''app''"]
    by (auto simp: NewTracker_def maxTrackedTransactions_def)
qed

section \<open>The composition of blocks\<close>

definition attributed :: "Tracker \<Rightarrow> IncludedTransaction \<Rightarrow> string" where
  "attributed t tx = (case gm_get (t_txs t) (it_Hash tx) of Some e \<Rightarrow> tx_app e | None \<Rightarrow> OtherTransactions)"

definition share :: "int \<Rightarrow> IncludedTransaction list \<Rightarrow> BlockContribution option" where
  "share height txs = (if txs = [] then None
     else Some \<lparr>bc_Block = height, bc_Transactions = int (length txs), bc_Gas = sum_list (map it_GasUsed txs)\<rparr>)"

definition with_share :: "int \<Rightarrow> BlockContribution option \<Rightarrow> IncludedTransaction list \<Rightarrow> BlockContribution option" where
  "with_share height c txs = (if txs = [] then c
     else let c0 = (case c of Some c \<Rightarrow> c | None \<Rightarrow> \<lparr>bc_Block = height, bc_Transactions = 0, bc_Gas = 0\<rparr>)
          in Some (c0\<lparr>bc_Transactions := bc_Transactions c0 + int (length txs),
                     bc_Gas := bc_Gas c0 + sum_list (map it_GasUsed txs)\<rparr>))"

lemma contribute_eq:
  "contribute height at tx (c, t) =
     (gm_set (attributed t tx) (the (with_share height (gm_get c (attributed t tx)) [tx])) c,
      snd (markIncluded (it_Hash tx) at t))"
  by (cases "gm_get (t_txs t) (it_Hash tx)")
     (simp_all add: contribute_def attributed_def markIncluded_def Let_def with_share_def split: option.split)

lemma attributed_other:
  "gm_wf (t_txs t) \<Longrightarrow> it_Hash tx \<noteq> h \<Longrightarrow> attributed (snd (markIncluded h at t)) tx = attributed t tx"
  by (cases "gm_get (t_txs t) h")
     (simp_all add: attributed_def markIncluded_def Let_def tracker_simps gomap_simps)

lemma markIncluded_wf: "gm_wf (t_txs t) \<Longrightarrow> gm_wf (t_txs (snd (markIncluded h at t)))"
  by (cases "gm_get (t_txs t) h") (simp_all add: markIncluded_def Let_def tracker_simps gomap_simps)

lemma with_share_Cons:
  "with_share height (Some (the (with_share height c [tx]))) txs = with_share height c (tx # txs)"
  by (simp add: with_share_def Let_def add.assoc split: option.split)

lemma fold_contribute_get:
  "gm_wf (t_txs t) \<Longrightarrow> distinct (map it_Hash txs) \<Longrightarrow>
     gm_get (fst (fold (contribute height at) txs (c, t))) a =
       with_share height (gm_get c a) (filter (\<lambda>tx. attributed t tx = a) txs)"
proof (induction txs arbitrary: c t)
  case Nil
  then show ?case by (simp add: with_share_def)
next
  case (Cons tx txs)
  let ?t = "snd (markIncluded (it_Hash tx) at t)"
  have "filter (\<lambda>x. attributed ?t x = a) txs = filter (\<lambda>x. attributed t x = a) txs"
  proof (intro filter_cong refl)
    fix x assume "x \<in> set txs"
    then have "it_Hash x \<noteq> it_Hash tx" using Cons.prems(2) by (metis distinct.simps(2) image_eqI list.simps(9) set_map)
    then show "(attributed ?t x = a) = (attributed t x = a)" using Cons.prems(1) by (simp add: attributed_other)
  qed
  then show ?case
    using Cons.prems
    by (simp add: contribute_eq Cons.IH markIncluded_wf gomap_simps with_share_Cons)
qed

lemma markIncluded_blocks: "t_blocks (snd (markIncluded h at t)) = t_blocks t"
  by (simp add: markIncluded_def count_included_def releaseNonce_def Let_def tracker_simps split: option.split)

lemma MarkBlock_blocks:
  assumes "txs \<noteq> []"
  shows "t_blocks (MarkBlock height at txs t) =
    gm_set height (fst (fold (contribute height at) txs ([], t))) (t_blocks t)"
proof -
  let ?r = "fold (contribute height at) txs ([], t)"
  have "t_blocks (snd ?r) = t_blocks t"
    by (rule fold_contribute_induct) (simp_all add: markIncluded_blocks)
  moreover have "fst ?r \<noteq> []"
  proof -
    have "gm_set k v m \<noteq> []" for k :: string and v :: BlockContribution and m
      by (cases m) auto
    moreover have "fold (contribute height at) txs ([], t) =
        contribute height at (last txs) (fold (contribute height at) (butlast txs) ([], t))"
      using assms by (metis append_butlast_last_id comp_apply fold_Cons fold_Nil fold_append id_apply)
    ultimately show ?thesis by (metis contribute_eq fst_conv surj_pair)
  qed
  ultimately show ?thesis by (cases ?r) (simp add: MarkBlock_def)
qed

lemma with_share_None: "with_share height None txs = share height txs"
  by (simp add: with_share_def share_def)

text \<open>
  the composition recorded for a block attributes every transaction of it once: an application
  contributes the transactions in flight of it that the block carries, with their number and the
  gas they used, and the transactions of no application go to \<open>OtherTransactions\<close>. The compositions
  of the other blocks stay as they are.
\<close>

theorem MarkBlock_composition:
  assumes "tracker_reach t" "distinct (map it_Hash txs)" "txs \<noteq> []"
  shows "\<exists>m. (\<forall>b. gm_get (t_blocks (MarkBlock height at txs t)) b =
                (if b = height then Some m else gm_get (t_blocks t) b)) \<and>
             (\<forall>a. gm_get m a = share height (filter (\<lambda>tx. attributed t tx = a) txs))"
proof -
  have wf: "gm_wf (t_txs t)" using tracker_reach_inv [OF assms(1)] by (simp add: tracker_inv_def counts_ok_wf)
  show ?thesis
    by (rule exI [of _ "fst (fold (contribute height at) txs ([], t))"])
       (simp add: MarkBlock_blocks [OF assms(3)] gomap_simps fold_contribute_get [OF wf assms(2)] with_share_None)
qed

theorem MarkBlock_composition_witness:
  "\<exists>m. gm_get (t_blocks (MarkBlock 5 20 [\<lparr>it_Hash = 100, it_GasUsed = 21000\<rparr>, \<lparr>it_Hash = 9, it_GasUsed = 5\<rparr>] ex_gap)) 5 = Some m \<and>
     gm_get m ''app'' = Some \<lparr>bc_Block = 5, bc_Transactions = 1, bc_Gas = 21000\<rparr> \<and>
     gm_get m OtherTransactions = Some \<lparr>bc_Block = 5, bc_Transactions = 1, bc_Gas = 5\<rparr>"
proof -
  let ?txs = "[\<lparr>it_Hash = 100, it_GasUsed = 21000\<rparr>, \<lparr>it_Hash = 9, it_GasUsed = 5\<rparr>]"
  have "distinct (map it_Hash ?txs)" "?txs \<noteq> []" by simp_all
  from MarkBlock_composition [OF ex_gap_reach this, of 5 20] obtain m where
    "gm_get (t_blocks (MarkBlock 5 20 ?txs ex_gap)) 5 = Some m"
    "\<forall>a. gm_get m a = share 5 (filter (\<lambda>tx. attributed ex_gap tx = a) ?txs)"
    by auto
  then show ?thesis
    by (auto simp: attributed_def share_def ex_gap_eq ex_entry_def OtherTransactions_def)
qed

end
