(* ===== verification/Txmon_Observers.thy ===== *)
theory Txmon_Observers
  imports Txmon_Properties
begin

text \<open>
  The observers that feed the tracker: \<open>emissions.go\<close>, which walks the event DAG, and
  \<open>inclusions.go\<close>, which reads the announced blocks. The client connection is a parameter: what it
  answers is not under the control of the program.
\<close>

section \<open>Emissions\<close>

record event =
  ev_CreationTime :: u64
  ev_Parents :: "hash list"
  ev_Transactions :: "hash list"

text \<open>
  The answer of a client asked for the payload of an event: an error, no such event, or the event.
\<close>

type_synonym payload_source = "hash \<Rightarrow> unit + event option"

record emissionObserver =
  eo_tracker :: Tracker
  eo_visited :: "hash list"
  eo_events :: nat

text \<open>
  The loop of \<open>walk\<close> over the stack of pending events. \<open>cancelled\<close> is what the context reports at
  the start of each iteration, counted by \<open>n\<close>; the result is whether an error ended the walk.
\<close>

definition walk_event :: "event \<Rightarrow> emissionObserver \<Rightarrow> emissionObserver" where
  "walk_event e ob =
     ob\<lparr>eo_events := eo_events ob + 1,
       eo_tracker := fold (\<lambda>h. MarkEmitted h (unix_nanos (ev_CreationTime e))) (ev_Transactions e) (eo_tracker ob)\<rparr>"

partial_function (option) walk ::
  "payload_source \<Rightarrow> (nat \<Rightarrow> bool) \<Rightarrow> nat \<Rightarrow> hash list \<Rightarrow> emissionObserver \<Rightarrow> (bool \<times> emissionObserver) option" where
  "walk client cancelled n pending ob =
     (if pending = [] then Some (False, ob)
      else if cancelled n then Some (False, ob)
      else
        let x = last pending; rest = butlast pending
        in if x \<in> set (eo_visited ob) then walk client cancelled (n + 1) rest ob
           else
             let ob1 = ob\<lparr>eo_visited := x # eo_visited ob\<rparr>
             in case client x of
                  Inl _ \<Rightarrow> Some (True, ob1)
                | Inr None \<Rightarrow> walk client cancelled (n + 1) rest ob1
                | Inr (Some e) \<Rightarrow> walk client cancelled (n + 1) (rest @ ev_Parents e) (walk_event e ob1))"

text \<open>One \<open>poll\<close>: the current epoch and its heads, each of which may fail.\<close>

definition poll ::
  "payload_source \<Rightarrow> (nat \<Rightarrow> bool) \<Rightarrow> u64 option \<Rightarrow> (u64 \<Rightarrow> hash list option) \<Rightarrow> emissionObserver \<Rightarrow>
     (bool \<times> emissionObserver) option" where
  "poll client cancelled epoch heads ob =
     (case epoch of
        None \<Rightarrow> Some (True, ob)
      | Some ep \<Rightarrow> (case heads ep of
          None \<Rightarrow> Some (True, ob)
        | Some hs \<Rightarrow> walk client cancelled 0 hs ob))"

section \<open>The walk terminates and is complete\<close>

text \<open>The events a client leads to from given ones.\<close>

inductive_set ancestors :: "payload_source \<Rightarrow> hash set \<Rightarrow> hash set" for client H where
  head: "h \<in> H \<Longrightarrow> h \<in> ancestors client H"
| parent: "h \<in> ancestors client H \<Longrightarrow> client h = Inr (Some e) \<Longrightarrow> p \<in> set (ev_Parents e) \<Longrightarrow>
    p \<in> ancestors client H"

text \<open>A set of events is closed if it contains the parents of its events.\<close>

definition closed_events :: "payload_source \<Rightarrow> hash set \<Rightarrow> bool" where
  "closed_events client V \<longleftrightarrow> (\<forall>h \<in> V. \<forall>e. client h = Inr (Some e) \<longrightarrow> set (ev_Parents e) \<subseteq> V)"

lemma walk_event_visited [simp]: "eo_visited (walk_event e ob) = eo_visited ob"
  by (simp add: walk_event_def)

text \<open>There are finitely many hashes, so every walk ends: each step visits a new event or pops one.\<close>

lemma walk_returns:
  "\<exists>err ob'. walk client cancelled n pending ob = Some (err, ob') \<and> set (eo_visited ob) \<subseteq> set (eo_visited ob')"
proof (induction "(card (- set (eo_visited ob)), length pending)" arbitrary: n pending ob
    rule: wf_induct_rule [OF wf_lex_prod [OF wf_less wf_less]])
  case (1 pending ob n)
  let ?x = "last pending" and ?rest = "butlast pending" and ?V = "set (eo_visited ob)"
  let ?o = "ob\<lparr>eo_visited := ?x # eo_visited ob\<rparr>"
  show ?case
  proof (cases "pending = [] \<or> cancelled n")
    case True
    then show ?thesis by (subst walk.simps) auto
  next
    case False
    show ?thesis
    proof (cases "?x \<in> ?V")
      case True
      have "\<exists>err ob'. walk client cancelled (n + 1) ?rest ob = Some (err, ob') \<and> ?V \<subseteq> set (eo_visited ob')"
        by (rule 1) (use False in auto)
      then show ?thesis using False True by (subst walk.simps) (simp add: Let_def)
    next
      case new: False
      have less: "card (- insert ?x ?V) < card (- ?V)"
      proof -
        have "- insert ?x ?V = - ?V - {?x}" by blast
        then show ?thesis using new by (metis Compl_iff card_Diff1_less finite)
      qed
      have IH: "\<exists>err ob'. walk client cancelled m ps ob1 = Some (err, ob') \<and> insert ?x ?V \<subseteq> set (eo_visited ob')"
        if "eo_visited ob1 = ?x # eo_visited ob" for m ps ob1
        using 1 [of ob1 ps m] less that by simp
      show ?thesis
      proof (cases "client ?x")
        case (Inl u)
        then show ?thesis using False new by (subst walk.simps) (auto simp: Let_def)
      next
        case (Inr r)
        then show ?thesis
          using False new IH [of ?o "n + 1" ?rest] IH [of "walk_event (the r) ?o" "n + 1" "?rest @ ev_Parents (the r)"]
          by (subst walk.simps) (cases r, auto simp: Let_def)
      qed
    qed
  qed
qed

text \<open>Whether a transaction, if in flight, has been seen in an event.\<close>

definition seen_emitted :: "Tracker \<Rightarrow> hash \<Rightarrow> bool" where
  "seen_emitted t h \<longleftrightarrow> (\<forall>e. gm_get (t_txs t) h = Some e \<longrightarrow> \<not> isZero (tx_emittedAt e))"

lemma MarkEmitted_seen: "seen_emitted (MarkEmitted h (unix_nanos ns) t) h"
  by (cases "gm_get (t_txs t) h")
     (auto simp: seen_emitted_def MarkEmitted_get isZero_def unix_nanos_not_zero_time)

lemma MarkEmitted_keeps: "seen_emitted t h \<Longrightarrow> seen_emitted (MarkEmitted h' at t) h"
  by (auto simp: seen_emitted_def MarkEmitted_get split: if_splits)

lemma fold_MarkEmitted_keeps:
  "seen_emitted t h \<Longrightarrow> seen_emitted (fold (\<lambda>x. MarkEmitted x at) xs t) h"
  by (induction xs arbitrary: t) (simp_all add: MarkEmitted_keeps)

lemma fold_MarkEmitted_seen:
  "h \<in> set xs \<Longrightarrow> seen_emitted (fold (\<lambda>x. MarkEmitted x (unix_nanos ns)) xs t) h"
  by (induction xs arbitrary: t) (auto simp: MarkEmitted_seen fold_MarkEmitted_keeps)

definition emitted_of :: "payload_source \<Rightarrow> hash set \<Rightarrow> hash set" where
  "emitted_of client V = (\<Union>h \<in> V. case client h of Inr (Some e) \<Rightarrow> set (ev_Transactions e) | _ \<Rightarrow> {})"

text \<open>
  The invariant of the loop: what is pending covers the parents of what was visited, and the
  transactions of the visited events are seen.
\<close>

definition walk_inv :: "payload_source \<Rightarrow> hash set \<Rightarrow> hash list \<Rightarrow> emissionObserver \<Rightarrow> bool" where
  "walk_inv client T pending ob \<longleftrightarrow>
     (\<forall>h \<in> set (eo_visited ob). \<forall>e. client h = Inr (Some e) \<longrightarrow>
        set (ev_Parents e) \<subseteq> set (eo_visited ob) \<union> set pending) \<and>
     distinct (eo_visited ob) \<and> (\<forall>x \<in> T. seen_emitted (eo_tracker ob) x)"

lemma walk_event_seen:
  "x \<in> T \<union> set (ev_Transactions e) \<Longrightarrow> (\<forall>x \<in> T. seen_emitted (eo_tracker ob) x) \<Longrightarrow>
     seen_emitted (eo_tracker (walk_event e ob)) x"
  by (auto simp: walk_event_def fold_MarkEmitted_keeps fold_MarkEmitted_seen)

lemma set_pending: "pending \<noteq> [] \<Longrightarrow> set pending = insert (last pending) (set (butlast pending))"
  by (metis append_butlast_last_id insert_is_Un list.set(2) empty_set set_append sup_commute)

lemma emitted_of_insert:
  "emitted_of client (insert x V) = (case client x of Inr (Some e) \<Rightarrow> set (ev_Transactions e) | _ \<Rightarrow> {}) \<union> emitted_of client V"
  by (auto simp: emitted_of_def)

lemma walk_complete:
  assumes "\<And>n. \<not> cancelled n"
  shows "walk client cancelled n pending ob = Some (False, ob') \<Longrightarrow>
    walk_inv client (T \<union> emitted_of client (set (eo_visited ob) - V0)) pending ob \<Longrightarrow> V0 \<subseteq> set (eo_visited ob) \<Longrightarrow>
    walk_inv client (T \<union> emitted_of client (set (eo_visited ob') - V0)) [] ob' \<and>
    set pending \<union> set (eo_visited ob) \<subseteq> set (eo_visited ob')"
proof (induction "(card (- set (eo_visited ob)), length pending)" arbitrary: n pending ob
    rule: wf_induct_rule [OF wf_lex_prod [OF wf_less wf_less]])
  case (1 pending ob n)
  let ?x = "last pending" and ?rest = "butlast pending" and ?V = "set (eo_visited ob)"
  let ?o = "ob\<lparr>eo_visited := ?x # eo_visited ob\<rparr>"
  show ?case
  proof (cases "pending = []")
    case True
    then have "ob' = ob" using "1.prems"(1) by (subst (asm) walk.simps) simp
    then show ?thesis using "1.prems" True by simp
  next
    case ne: False
    note pend = set_pending [OF ne]
    show ?thesis
    proof (cases "?x \<in> ?V")
      case True
      have run: "walk client cancelled (n + 1) ?rest ob = Some (False, ob')"
        using "1.prems"(1) ne True assms by (subst (asm) walk.simps) (simp add: Let_def)
      have "walk_inv client (T \<union> emitted_of client (?V - V0)) ?rest ob"
        using "1.prems"(2) True by (auto simp: walk_inv_def pend)
      from "1.hyps" [OF _ run this "1.prems"(3)] show ?thesis using ne True by (auto simp: pend)
    next
      case new: False
      have less: "card (- insert ?x ?V) < card (- ?V)"
      proof -
        have "- insert ?x ?V = - ?V - {?x}" by blast
        then show ?thesis using new by (metis Compl_iff card_Diff1_less finite)
      qed
      have sub: "insert ?x ?V - V0 = insert ?x (?V - V0)" using new "1.prems"(3) by auto
      have IH: "walk_inv client (T \<union> emitted_of client (set (eo_visited ob') - V0)) [] ob' \<and>
          set ps \<union> insert ?x ?V \<subseteq> set (eo_visited ob')"
        if "walk client cancelled (n + 1) ps ob1 = Some (False, ob')" "eo_visited ob1 = ?x # eo_visited ob"
          "walk_inv client (T \<union> emitted_of client (insert ?x ?V - V0)) ps ob1" for ps ob1
        using "1.hyps" [of ob1 ps "n + 1"] less that "1.prems"(3) by auto
      show ?thesis
      proof (cases "client ?x")
        case (Inl u)
        then show ?thesis using "1.prems"(1) ne new assms by (subst (asm) walk.simps) (simp add: Let_def)
      next
        case (Inr r)
        show ?thesis
        proof (cases r)
          case None
          then have "walk client cancelled (n + 1) ?rest ?o = Some (False, ob')"
            using "1.prems"(1) ne new assms Inr by (subst (asm) walk.simps) (simp add: Let_def)
          moreover have "walk_inv client (T \<union> emitted_of client (insert ?x ?V - V0)) ?rest ?o"
            using "1.prems"(2) new None Inr by (auto simp: walk_inv_def pend sub emitted_of_insert)
          ultimately show ?thesis using IH [of ?rest ?o] by (auto simp: pend)
        next
          case (Some e)
          let ?o1 = "walk_event e ?o"
          have "walk client cancelled (n + 1) (?rest @ ev_Parents e) ?o1 = Some (False, ob')"
            using "1.prems"(1) ne new assms Inr Some by (subst (asm) walk.simps) (simp add: Let_def)
          moreover have "\<forall>x \<in> T \<union> emitted_of client (insert ?x ?V - V0). seen_emitted (eo_tracker ?o1) x"
            using "1.prems"(2) Inr Some
            by (auto simp: walk_inv_def sub emitted_of_insert intro!: walk_event_seen [where T = "T \<union> emitted_of client (?V - V0)"])
          then have "walk_inv client (T \<union> emitted_of client (insert ?x ?V - V0)) (?rest @ ev_Parents e) ?o1"
            using "1.prems"(2) new Inr Some by (auto simp: walk_inv_def pend)
          ultimately show ?thesis using IH [of "?rest @ ev_Parents e" ?o1] by (auto simp: pend)
        qed
      qed
    qed
  qed
qed

lemma closed_ancestors:
  assumes "closed_events client V" "H \<subseteq> V"
  shows "ancestors client H \<subseteq> V"
proof
  fix h
  assume "h \<in> ancestors client H"
  then show "h \<in> V"
    by induction (use assms in \<open>auto simp: closed_events_def\<close>)
qed

text \<open>
  walking the event DAG always ends, whatever the nodes answer, and never visits an event twice.
\<close>

theorem walk_terminates:
  "\<exists>err ob'. walk client cancelled n heads ob = Some (err, ob') \<and> set (eo_visited ob) \<subseteq> set (eo_visited ob')"
  by (rule walk_returns)

text \<open>
  a walk that is neither cancelled nor ended by an error reaches every ancestor of the heads, and
  every transaction in flight that one of the newly visited events carries is marked as emitted.
\<close>

theorem walk_marks_ancestors:
  assumes "walk client (\<lambda>_. False) n heads ob = Some (False, ob')"
    and "closed_events client (set (eo_visited ob))" "distinct (eo_visited ob)"
  shows "ancestors client (set heads) \<subseteq> set (eo_visited ob') \<and> distinct (eo_visited ob') \<and>
    (\<forall>h \<in> ancestors client (set heads) - set (eo_visited ob). \<forall>e x t.
       client h = Inr (Some e) \<and> x \<in> set (ev_Transactions e) \<and> gm_get (t_txs (eo_tracker ob')) x = Some t \<longrightarrow>
       \<not> isZero (tx_emittedAt t))"
proof -
  let ?V = "set (eo_visited ob)" and ?V' = "set (eo_visited ob')"
  have "walk_inv client ({} \<union> emitted_of client (?V - ?V)) heads ob"
    using assms(2,3) by (auto simp: walk_inv_def closed_events_def emitted_of_def)
  from walk_complete [OF _ assms(1) this] have inv: "walk_inv client (emitted_of client (?V' - ?V)) [] ob'"
    and sub: "set heads \<subseteq> ?V'" by auto
  from inv have "closed_events client ?V'" by (simp add: walk_inv_def closed_events_def)
  then have anc: "ancestors client (set heads) \<subseteq> ?V'" using sub by (rule closed_ancestors)
  have "seen_emitted (eo_tracker ob') x"
    if "h \<in> ancestors client (set heads) - ?V" "client h = Inr (Some e)" "x \<in> set (ev_Transactions e)" for h e x
  proof -
    have "x \<in> emitted_of client (?V' - ?V)"
      unfolding emitted_of_def by (rule UN_I [of h]) (use that anc in auto)
    then show ?thesis using inv by (simp add: walk_inv_def)
  qed
  then show ?thesis using anc inv by (auto simp: walk_inv_def seen_emitted_def)
qed

definition ex_payload :: payload_source where
  "ex_payload h = Inr (if h = 2 then Some \<lparr>ev_CreationTime = 50, ev_Parents = [1], ev_Transactions = []\<rparr>
     else if h = 1 then Some \<lparr>ev_CreationTime = 40, ev_Parents = [], ev_Transactions = [100]\<rparr> else None)"

theorem walk_marks_ancestors_witness:
  "\<exists>ob'. walk ex_payload (\<lambda>_. False) 0 [2] \<lparr>eo_tracker = ex_gap, eo_visited = [], eo_events = 0\<rparr> = Some (False, ob') \<and>
     (\<forall>t. gm_get (t_txs (eo_tracker ob')) 100 = Some t \<longrightarrow> \<not> isZero (tx_emittedAt t))"
proof -
  let ?o = "\<lparr>eo_tracker = ex_gap, eo_visited = [], eo_events = 0\<rparr>"
  obtain ob' where run: "walk ex_payload (\<lambda>_. False) 0 [2] ?o = Some (False, ob')"
    by (simp add: walk.simps ex_payload_def walk_event_def)
  have anc: "1 \<in> ancestors ex_payload {2}"
    by (rule ancestors.parent [OF ancestors.head, of 2]) (auto simp: ex_payload_def)
  have pay: "ex_payload 1 = Inr (Some \<lparr>ev_CreationTime = 40, ev_Parents = [], ev_Transactions = [100]\<rparr>)"
    by (simp add: ex_payload_def)
  from walk_marks_ancestors [OF run] have "\<not> isZero (tx_emittedAt t)"
    if "gm_get (t_txs (eo_tracker ob')) 100 = Some t" for t
    using anc pay that by (fastforce simp: closed_events_def)
  with run show ?thesis by blast
qed

end
