(* ===== verification/Txmon_Inclusions.thy ===== *)
theory Txmon_Inclusions
  imports Txmon_Observers
begin

text \<open>
  The observer of inclusions, \<open>driver/monitoring/transactions/inclusions.go\<close>: announced blocks are
  queued once per height, read from a node with a few attempts, and handed to the tracker together
  with the gas limits that applied to them.
\<close>

section \<open>Data\<close>

text \<open>The two rules of the network that are read, of go-opera's \<open>opera.Rules\<close>.\<close>

record opera_rules =
  or_MaxEventGas :: u64
  or_AllocPerSec :: u64

text \<open>
  What a node answers: an error (\<open>Inl\<close>), nothing for a block it does not know, or the receipts of a
  block, the gas limit and the epoch of its header, and the rules of an epoch.
\<close>

record node_view =
  nv_receipts :: "int \<Rightarrow> unit + IncludedTransaction list option"
  nv_header :: "int \<Rightarrow> unit + (u64 \<times> u64) option"
  nv_rules :: "u64 \<Rightarrow> unit + opera_rules"

record Block =
  b_Height :: int
  b_Time :: gotime

record blockContents =
  bt_transactions :: "IncludedTransaction list"
  bt_limits :: BlockLimit

record inclusionObserver =
  io_tracker :: Tracker
  io_blocks :: "Block list"
  io_seen :: "int list"
  io_missed :: nat

definition pendingBlocks :: nat where
  "pendingBlocks = 1024"

definition blockReadAttempts :: nat where
  "blockReadAttempts = 3"

datatype read_error = CallFailed | BlockNotFound | RulesNotAvailable | Cancelled

type_synonym rulesCache = "(u64, opera_rules) gomap"

section \<open>Announcements\<close>

definition OnBlock :: "Block \<Rightarrow> inclusionObserver \<Rightarrow> inclusionObserver" where
  "OnBlock b ob =
     (if b_Height b \<in> set (io_seen ob) then ob
      else
        let ob1 = ob\<lparr>io_seen := b_Height b # io_seen ob\<rparr>
        in if length (io_blocks ob1) < pendingBlocks then ob1\<lparr>io_blocks := io_blocks ob1 @ [b]\<rparr>
           else ob1\<lparr>io_missed := io_missed ob1 + 1\<rparr>)"

section \<open>Reading a block\<close>

definition rulesOf :: "node_view \<Rightarrow> u64 \<Rightarrow> rulesCache \<Rightarrow> (read_error + opera_rules) \<times> rulesCache" where
  "rulesOf client epoch cache =
     (case gm_get cache epoch of
        Some rules \<Rightarrow> (Inr rules, cache)
      | None \<Rightarrow>
          (case nv_rules client epoch of
             Inl _ \<Rightarrow> (Inl CallFailed, cache)
           | Inr rules \<Rightarrow>
               if or_MaxEventGas rules = 0 then (Inl RulesNotAvailable, cache)
               else (Inr rules, gm_set epoch rules cache)))"

definition blockTransactions :: "node_view \<Rightarrow> int \<Rightarrow> read_error + IncludedTransaction list" where
  "blockTransactions client height =
     (case nv_receipts client height of
        Inl _ \<Rightarrow> Inl CallFailed
      | Inr None \<Rightarrow> Inl BlockNotFound
      | Inr (Some txs) \<Rightarrow> Inr txs)"

definition blockLimits :: "node_view \<Rightarrow> int \<Rightarrow> rulesCache \<Rightarrow> (read_error + BlockLimit) \<times> rulesCache" where
  "blockLimits client height cache =
     (case nv_header client height of
        Inl _ \<Rightarrow> (Inl CallFailed, cache)
      | Inr None \<Rightarrow> (Inl BlockNotFound, cache)
      | Inr (Some (gasLimit, epoch)) \<Rightarrow>
          (case rulesOf client epoch cache of
             (Inl e, cache1) \<Rightarrow> (Inl e, cache1)
           | (Inr rules, cache1) \<Rightarrow>
               (Inr \<lparr>bl_Block = height, bl_GasLimit = gasLimit, bl_EventGasLimit = or_MaxEventGas rules,
                     bl_GasPowerPerSec = or_AllocPerSec rules\<rparr>, cache1)))"

definition blockContent :: "node_view \<Rightarrow> int \<Rightarrow> rulesCache \<Rightarrow> (read_error + blockContents) \<times> rulesCache" where
  "blockContent client height cache =
     (case blockTransactions client height of
        Inl e \<Rightarrow> (Inl e, cache)
      | Inr txs \<Rightarrow>
          (case blockLimits client height cache of
             (Inl e, cache1) \<Rightarrow> (Inl e, cache1)
           | (Inr limits, cache1) \<Rightarrow> (Inr \<lparr>bt_transactions = txs, bt_limits = limits\<rparr>, cache1)))"

text \<open>
  The attempts of \<open>readBlock\<close>: \<open>client a\<close> is what the node answers during attempt \<open>a\<close>, and \<open>waited a\<close>
  whether the delay before it passed without the context being cancelled.
\<close>

fun read_attempts ::
  "(nat \<Rightarrow> node_view) \<Rightarrow> (nat \<Rightarrow> bool) \<Rightarrow> int \<Rightarrow> nat list \<Rightarrow> read_error \<Rightarrow> rulesCache \<Rightarrow>
     (read_error + blockContents) \<times> rulesCache" where
  "read_attempts client waited height [] err cache = (Inl err, cache)"
| "read_attempts client waited height (a # as) err cache =
     (if a > 0 \<and> \<not> waited a then (Inl Cancelled, cache)
      else case blockContent (client a) height cache of
             (Inr contents, cache1) \<Rightarrow> (Inr contents, cache1)
           | (Inl e, cache1) \<Rightarrow> read_attempts client waited height as e cache1)"

definition readBlock ::
  "(nat \<Rightarrow> node_view) \<Rightarrow> (nat \<Rightarrow> bool) \<Rightarrow> int \<Rightarrow> rulesCache \<Rightarrow> (read_error + blockContents) \<times> rulesCache" where
  "readBlock client waited height cache =
     read_attempts client waited height [0..<blockReadAttempts] CallFailed cache"

text \<open>
  One iteration of \<open>run\<close> for the first queued block. \<open>connected\<close> is whether a client is held and
  \<open>dials\<close> whether dialling one succeeds.
\<close>

definition handle_block ::
  "bool \<Rightarrow> (nat \<Rightarrow> node_view) \<Rightarrow> (nat \<Rightarrow> bool) \<Rightarrow> bool \<times> rulesCache \<times> inclusionObserver \<Rightarrow>
     bool \<times> rulesCache \<times> inclusionObserver" where
  "handle_block dials client waited = (\<lambda>(connected, cache, ob).
     case io_blocks ob of
       [] \<Rightarrow> (connected, cache, ob)
     | block # rest \<Rightarrow>
         let ob1 = ob\<lparr>io_blocks := rest\<rparr>
         in if \<not> connected \<and> \<not> dials then (False, cache, ob1\<lparr>io_missed := io_missed ob1 + 1\<rparr>)
            else case readBlock client waited (b_Height block) cache of
                   (Inl _, cache1) \<Rightarrow> (False, cache1, ob1\<lparr>io_missed := io_missed ob1 + 1\<rparr>)
                 | (Inr contents, cache1) \<Rightarrow>
                     (True, cache1,
                      ob1\<lparr>io_tracker := MarkBlockLimits (b_Height block) (bt_limits contents)
                            (MarkBlock (b_Height block) (b_Time block) (bt_transactions contents) (io_tracker ob1))\<rparr>))"

section \<open>Accounting for every announced block\<close>

text \<open>
  The observer at work: announcements by the logs, blocks handled by \<open>run\<close>, and the submissions and
  emissions the tracker hears of in between, which do not touch the limits.
\<close>

inductive observing :: "bool \<times> rulesCache \<times> inclusionObserver \<Rightarrow> bool" where
  start: "observing (False, [], \<lparr>io_tracker = NewTracker, io_blocks = [], io_seen = [], io_missed = 0\<rparr>)"
| announced: "observing (c, cache, ob) \<Longrightarrow> observing (c, cache, OnBlock b ob)"
| handled: "observing s \<Longrightarrow> observing (handle_block dials client waited s)"
| tracked: "observing (c, cache, ob) \<Longrightarrow> t_limits t' = t_limits (io_tracker ob) \<Longrightarrow>
    observing (c, cache, ob\<lparr>io_tracker := t'\<rparr>)"

definition cache_ok :: "rulesCache \<Rightarrow> bool" where
  "cache_ok cache \<longleftrightarrow> (\<forall>epoch rules. gm_get cache epoch = Some rules \<longrightarrow> or_MaxEventGas rules \<noteq> 0)"

definition limit_ok :: "int \<Rightarrow> BlockLimit \<Rightarrow> bool" where
  "limit_ok height l \<longleftrightarrow> bl_Block l = height \<and> bl_EventGasLimit l \<noteq> 0"

lemma rulesOf_ok:
  "cache_ok cache \<Longrightarrow> rulesOf client epoch cache = (r, cache1) \<Longrightarrow>
     cache_ok cache1 \<and> (\<forall>rules. r = Inr rules \<longrightarrow> or_MaxEventGas rules \<noteq> 0)"
  by (auto simp: rulesOf_def cache_ok_def gomap_simps split: option.splits sum.splits if_splits)

lemma blockContent_ok:
  assumes "cache_ok cache" "blockContent client height cache = (r, cache1)"
  shows "cache_ok cache1 \<and> (\<forall>c. r = Inr c \<longrightarrow> limit_ok height (bt_limits c))"
  using assms rulesOf_ok [of cache client]
  by (fastforce simp: blockContent_def blockLimits_def limit_ok_def split: sum.splits option.splits prod.splits)

lemma read_attempts_ok:
  "cache_ok cache \<Longrightarrow> read_attempts client waited height as err cache = (r, cache1) \<Longrightarrow>
     cache_ok cache1 \<and> (\<forall>c. r = Inr c \<longrightarrow> limit_ok height (bt_limits c))"
proof (induction "as" arbitrary: err cache)
  case (Cons a "as")
  obtain r0 cache0 where bc: "blockContent (client a) height cache = (r0, cache0)" by fastforce
  with Cons.prems(1) have ok: "cache_ok cache0 \<and> (\<forall>c. r0 = Inr c \<longrightarrow> limit_ok height (bt_limits c))"
    by (rule blockContent_ok)
  show ?case
  proof (cases r0)
    case (Inl e)
    then show ?thesis using Cons ok bc by (auto split: if_splits)
  next
    case (Inr c)
    then show ?thesis using Cons.prems ok bc by (auto split: if_splits)
  qed
qed auto

definition observer_inv :: "bool \<times> rulesCache \<times> inclusionObserver \<Rightarrow> bool" where
  "observer_inv = (\<lambda>(c, cache, ob). cache_ok cache \<and> gm_wf (t_limits (io_tracker ob)) \<and>
     distinct (io_seen ob) \<and> distinct (map b_Height (io_blocks ob)) \<and>
     b_Height ` set (io_blocks ob) \<subseteq> set (io_seen ob) \<and>
     fst ` set (t_limits (io_tracker ob)) \<subseteq> set (io_seen ob) \<and>
     fst ` set (t_limits (io_tracker ob)) \<inter> b_Height ` set (io_blocks ob) = {} \<and>
     (\<forall>(h, l) \<in> set (t_limits (io_tracker ob)). limit_ok h l) \<and>
     length (io_blocks ob) \<le> pendingBlocks \<and>
     length (io_seen ob) = length (io_blocks ob) + length (t_limits (io_tracker ob)) + io_missed ob)"

lemma OnBlock_inv: "observer_inv (c, cache, ob) \<Longrightarrow> observer_inv (c, cache, OnBlock b ob)"
  by (auto simp: observer_inv_def OnBlock_def Let_def)

lemma MarkBlock_limits: "t_limits (MarkBlock height at txs t) = t_limits t"
proof -
  have "t_limits (snd (markIncluded h at t)) = t_limits t" for h t
    by (simp add: markIncluded_def count_included_def releaseNonce_def Let_def tracker_simps split: option.split)
  then show ?thesis using MarkBlock_keeps [of "\<lambda>t'. t_limits t' = t_limits t" t at] by simp
qed

lemma gm_set_fresh: "gm_get m k = None \<Longrightarrow> gm_set k v m = m @ [(k, v)]"
  by (induction m) (auto split: if_splits)

lemma handle_block_inv: "observer_inv s \<Longrightarrow> observer_inv (handle_block dials client waited s)"
proof -
  assume inv: "observer_inv s"
  obtain c cache ob where s: "s = (c, cache, ob)" by (cases s)
  show ?thesis
  proof (cases "io_blocks ob")
    case Nil
    then show ?thesis using inv by (simp add: handle_block_def s)
  next
    case (Cons b rest)
    obtain r cache1 where rb: "readBlock client waited (b_Height b) cache = (r, cache1)" by fastforce
    have "cache_ok cache" using inv by (simp add: observer_inv_def s)
    from read_attempts_ok [OF this] rb have ok: "cache_ok cache1" "\<And>x. r = Inr x \<Longrightarrow> limit_ok (b_Height b) (bt_limits x)"
      by (auto simp: readBlock_def)
    have fresh: "gm_get (t_limits (io_tracker ob)) (b_Height b) = None"
      using inv by (auto simp: observer_inv_def s Cons gm_get_None_iff gm_keys_def)
    show ?thesis
    proof (cases "\<not> c \<and> \<not> dials")
      case True
      then show ?thesis using inv by (auto simp: handle_block_def s Cons observer_inv_def Let_def)
    next
      case False
      then show ?thesis
      proof (cases r)
        case (Inl e)
        then show ?thesis using False rb ok(1) inv by (auto simp: handle_block_def s Cons observer_inv_def Let_def)
      next
        case (Inr x)
        let ?l = "(bt_limits x)\<lparr>bl_Block := b_Height b\<rparr>"
        have l: "limit_ok (b_Height b) ?l" using ok(2) [OF Inr] by (simp add: limit_ok_def)
        show ?thesis
          using False rb ok(1) inv Inr l fresh
          by (auto simp: handle_block_def s Cons observer_inv_def Let_def MarkBlockLimits_def MarkBlock_limits
            gm_set_fresh gm_wf_def gm_get_None_iff gm_keys_def)
      qed
    qed
  qed
qed

lemma observing_inv: "observing s \<Longrightarrow> observer_inv s"
proof (induction rule: observing.induct)
  case (handled s dials client waited)
  then show ?case by (simp add: handle_block_inv)
qed (auto simp: OnBlock_inv, auto simp: observer_inv_def cache_ok_def NewTracker_def)

text \<open>
  C40: every announced height is accounted for exactly once: it waits in the queue, or the limits of
  its block are recorded (and its transactions were marked as included), or it is counted as missed;
  the queue never exceeds its bound.
\<close>

theorem announced_blocks_accounted:
  assumes "observing (c, cache, ob)"
  shows "length (io_seen ob) = length (io_blocks ob) + length (t_limits (io_tracker ob)) + io_missed ob \<and>
    distinct (io_seen ob) \<and> distinct (map b_Height (io_blocks ob) @ map fst (t_limits (io_tracker ob))) \<and>
    length (io_blocks ob) \<le> pendingBlocks"
  using observing_inv [OF assms] by (auto simp: observer_inv_def gm_wf_def)

text \<open>
  no limits of all zeros are recorded: every recorded block has a non-zero gas limit per event
  and carries its own height, even if nodes answer for an epoch they do not know.
\<close>

theorem recorded_limits_available:
  assumes "observing (c, cache, ob)" "l \<in> set (BlockGasLimits (io_tracker ob))"
  shows "bl_EventGasLimit l \<noteq> 0 \<and> gm_get (t_limits (io_tracker ob)) (bl_Block l) = Some l"
proof -
  have inv: "observer_inv (c, cache, ob)" by (rule observing_inv [OF assms(1)])
  obtain h where "(h, l) \<in> set (t_limits (io_tracker ob))" using assms(2) by (auto simp: BlockGasLimits_def)
  then show ?thesis using inv by (auto simp: observer_inv_def limit_ok_def gm_get_Some_iff)
qed

definition ex_view :: node_view where
  "ex_view = \<lparr>nv_receipts = (\<lambda>_. Inr (Some [])), nv_header = (\<lambda>_. Inr (Some (1000, 1))),
     nv_rules = (\<lambda>_. Inr \<lparr>or_MaxEventGas = 10, or_AllocPerSec = 5\<rparr>)\<rparr>"

definition ex_observer :: inclusionObserver where
  "ex_observer = \<lparr>io_tracker = NewTracker, io_blocks = [], io_seen = [], io_missed = 0\<rparr>"

definition ex_limit :: BlockLimit where
  "ex_limit = \<lparr>bl_Block = 7, bl_GasLimit = 1000, bl_EventGasLimit = 10, bl_GasPowerPerSec = 5\<rparr>"

lemma ex_handled:
  "\<exists>cache. observing (True, cache, ex_observer\<lparr>io_seen := [7], io_tracker := NewTracker\<lparr>t_limits := [(7, ex_limit)]\<rparr>\<rparr>)"
proof -
  let ?s = "(False, [], OnBlock \<lparr>b_Height = 7, b_Time = 0\<rparr> ex_observer)"
  have "observing ?s" unfolding ex_observer_def by (rule observing.announced [OF observing.start])
  then have "observing (handle_block True (\<lambda>_. ex_view) (\<lambda>_. True) ?s)" by (rule observing.handled)
  then show ?thesis
    by (simp add: ex_observer_def OnBlock_def pendingBlocks_def handle_block_def readBlock_def blockReadAttempts_def
      upt_rec blockContent_def blockTransactions_def blockLimits_def rulesOf_def ex_view_def MarkBlock_def
      MarkBlockLimits_def NewTracker_def ex_limit_def) blast
qed

definition ex_accounted :: inclusionObserver where
  "ex_accounted = ex_observer\<lparr>io_seen := [7], io_tracker := NewTracker\<lparr>t_limits := [(7, ex_limit)]\<rparr>\<rparr>"

theorem announced_blocks_accounted_witness:
  "length (io_seen ex_accounted) =
     length (io_blocks ex_accounted) + length (t_limits (io_tracker ex_accounted)) + io_missed ex_accounted"
proof -
  obtain cache where "observing (True, cache, ex_accounted)" unfolding ex_accounted_def using ex_handled by blast
  from announced_blocks_accounted [OF this] show ?thesis by (rule conjunct1)
qed

theorem recorded_limits_available_witness:
  "ex_limit \<in> set (BlockGasLimits (NewTracker\<lparr>t_limits := [(7, ex_limit)]\<rparr>)) \<and> bl_EventGasLimit ex_limit \<noteq> 0"
proof -
  obtain cache where "observing (True, cache, ex_observer\<lparr>io_seen := [7], io_tracker := NewTracker\<lparr>t_limits := [(7, ex_limit)]\<rparr>\<rparr>)"
    using ex_handled by blast
  from recorded_limits_available [OF this, of ex_limit] show ?thesis by (simp add: BlockGasLimits_def)
qed

end
