(* ===== verification/Go_Search.thy ===== *)
theory Go_Search
  imports Norma_Prelude
begin

text \<open>
  Go's \<open>sort.Search\<close>, the binary search the series are read with, and that it finds the first index
  at which a monotone predicate holds.
\<close>

function search_loop :: "(nat \<Rightarrow> bool) \<Rightarrow> nat \<Rightarrow> nat \<Rightarrow> nat" where
  "search_loop f i j =
     (if i < j then
        let h = (i + j) div 2
        in if \<not> f h then search_loop f (h + 1) j else search_loop f i h
      else i)"
  by pat_completeness auto

termination
  by (relation "measure (\<lambda>(f, i, j). j - i)") auto

declare search_loop.simps [simp del]

definition sort_Search :: "nat \<Rightarrow> (nat \<Rightarrow> bool) \<Rightarrow> nat" where
  "sort_Search n f = search_loop f 0 n"

lemma search_loop_bounds: "i \<le> j \<Longrightarrow> i \<le> search_loop f i j \<and> search_loop f i j \<le> j"
proof (induction f i j rule: search_loop.induct)
  case (1 f i j)
  show ?case
  proof (cases "i < j")
    case True
    then show ?thesis using 1 by (subst (1 2) search_loop.simps) (fastforce simp: Let_def)
  qed (use 1 in \<open>simp add: search_loop.simps\<close>)
qed

lemma search_loop_found:
  "\<forall>a b. a \<le> b \<and> b < n \<and> f a \<longrightarrow> f b \<Longrightarrow> i \<le> j \<Longrightarrow> j \<le> n \<Longrightarrow> \<forall>a < i. \<not> f a \<Longrightarrow> j < n \<longrightarrow> f j \<Longrightarrow>
    (\<forall>a < search_loop f i j. \<not> f a) \<and> (search_loop f i j < n \<longrightarrow> f (search_loop f i j))"
proof (induction f i j rule: search_loop.induct)
  case (1 f i j)
  let ?h = "(i + j) div 2"
  show ?case
  proof (cases "i < j")
    case lt: True
    then have h: "i \<le> ?h" "?h < j" "?h < n" using "1.prems"(3) by auto
    show ?thesis
    proof (cases "f ?h")
      case True
      have "(\<forall>a < search_loop f i ?h. \<not> f a) \<and> (search_loop f i ?h < n \<longrightarrow> f (search_loop f i ?h))"
        by (rule "1.IH"(2) [OF lt refl]) (use True h "1.prems" in simp_all)
      then show ?thesis using lt True by (simp add: search_loop.simps [of f i j] Let_def)
    next
      case False
      have "\<not> f a" if "a < ?h + 1" for a
        using that "1.prems"(1) h False by (metis Suc_eq_plus1 less_Suc_eq_le)
      then have "(\<forall>a < search_loop f (?h + 1) j. \<not> f a) \<and>
          (search_loop f (?h + 1) j < n \<longrightarrow> f (search_loop f (?h + 1) j))"
        by (intro "1.IH"(1) [OF lt refl]) (use False h "1.prems" in simp_all)
      then show ?thesis using lt False by (simp add: search_loop.simps [of f i j] Let_def)
    qed
  next
    case False
    then have "search_loop f i j = i" by (simp add: search_loop.simps)
    with False "1.prems" show ?thesis by simp
  qed
qed

lemma sort_Search_le: "sort_Search n f \<le> n"
  using search_loop_bounds [of 0 n f] by (simp add: sort_Search_def)

text \<open>On a list sorted by a key, the search splits it at the first key that reaches the bound.\<close>

lemma sort_Search_sorted:
  assumes "sorted (map g xs)"
  shows "take (sort_Search (length xs) (\<lambda>i. b \<le> g (xs ! i))) xs = filter (\<lambda>x. g x < b) xs"
    and "drop (sort_Search (length xs) (\<lambda>i. b \<le> g (xs ! i))) xs = filter (\<lambda>x. b \<le> g x) xs"
proof -
  let ?f = "\<lambda>i. b \<le> g (xs ! i)"
  define k where "k = sort_Search (length xs) ?f"
  have mono: "?f c" if "a \<le> c" "c < length xs" "?f a" for a c
    using sorted_nth_mono [OF assms, of a c] that by auto
  have split: "(\<forall>a < k. \<not> ?f a) \<and> (k < length xs \<longrightarrow> ?f k)"
    unfolding sort_Search_def k_def by (rule search_loop_found) (use mono in blast, simp_all)
  have low: "g x < b" if x: "x \<in> set (take k xs)" for x
  proof -
    obtain i where "i < length (take k xs)" "x = take k xs ! i" using x unfolding in_set_conv_nth by blast
    then show ?thesis using split by (simp add: not_le)
  qed
  have high: "b \<le> g x" if x: "x \<in> set (drop k xs)" for x
  proof -
    obtain i where i: "i < length (drop k xs)" "x = drop k xs ! i" using x unfolding in_set_conv_nth by blast
    then have "x = xs ! (k + i)" "k + i < length xs" by simp_all
    moreover from this have "?f k" using split by simp
    ultimately show ?thesis using mono [of k "k + i"] by simp
  qed
  have "filter (\<lambda>x. g x < b) (take k xs @ drop k xs) = take k xs"
    unfolding filter_append using low high by (simp add: filter_id_conv filter_empty_conv not_less)
  then show "take (sort_Search (length xs) ?f) xs = filter (\<lambda>x. g x < b) xs" by (simp add: k_def)
  have "filter (\<lambda>x. b \<le> g x) (take k xs @ drop k xs) = drop k xs"
    unfolding filter_append using low high by (simp add: filter_id_conv filter_empty_conv not_le)
  then show "drop (sort_Search (length xs) ?f) xs = filter (\<lambda>x. b \<le> g x) xs" by (simp add: k_def)
qed

lemma sort_Search_count:
  assumes "sorted (map g xs)"
  shows "sort_Search (length xs) (\<lambda>i. b \<le> g (xs ! i)) = length (filter (\<lambda>x. g x < b) xs)"
  using sort_Search_sorted(1) [OF assms, of b] sort_Search_le by (metis length_take min.absorb2)

lemma sort_Search_less:
  assumes "sorted (map g xs)" "b < a"
  shows "sort_Search (length xs) (\<lambda>i. b \<le> g (xs ! i)) < sort_Search (length xs) (\<lambda>i. a \<le> g (xs ! i)) \<longleftrightarrow>
    (\<exists>x \<in> set xs. b \<le> g x \<and> g x < a)"
proof -
  have "length (filter (\<lambda>x. g x < a) xs) = length (filter (\<lambda>x. g x < b) xs) + length (filter (\<lambda>x. b \<le> g x \<and> g x < a) xs)"
    using assms(2) by (induction xs) auto
  then show ?thesis by (auto simp: sort_Search_count [OF assms(1)] filter_empty_conv)
qed

text \<open>The points between two searched bounds.\<close>

lemma sort_Search_between:
  assumes "sorted (map g xs)" "a \<le> b"
  shows "drop (sort_Search (length xs) (\<lambda>i. a \<le> g (xs ! i)))
      (take (sort_Search (length xs) (\<lambda>i. b \<le> g (xs ! i))) xs) = filter (\<lambda>x. a \<le> g x \<and> g x < b) xs"
    and "sort_Search (length xs) (\<lambda>i. a \<le> g (xs ! i)) \<le> sort_Search (length xs) (\<lambda>i. b \<le> g (xs ! i))"
proof -
  let ?s = "\<lambda>b. sort_Search (length xs) (\<lambda>i. b \<le> g (xs ! i))"
  have len: "?s c = length (filter (\<lambda>x. g x < c) xs)" for c
    by (rule sort_Search_count [OF assms(1)])
  have "filter (\<lambda>x. g x < a) xs = filter (\<lambda>x. g x < a) (filter (\<lambda>x. g x < b) xs)"
    using assms(2) by (auto intro: filter_cong)
  then show le: "?s a \<le> ?s b" by (metis len length_filter_le)
  have "drop (?s a) (take (?s b) xs) = take (?s b - ?s a) (drop (?s a) xs)" by (simp add: drop_take)
  also have "drop (?s a) xs = filter (\<lambda>x. a \<le> g x) xs" by (rule sort_Search_sorted(2) [OF assms(1)])
  also have "take (?s b - ?s a) (filter (\<lambda>x. a \<le> g x) xs) = filter (\<lambda>x. a \<le> g x \<and> g x < b) xs"
  proof -
    have "filter (\<lambda>x. a \<le> g x) xs = filter (\<lambda>x. a \<le> g x \<and> g x < b) xs @ filter (\<lambda>x. b \<le> g x) xs"
    proof -
      have "filter (\<lambda>x. a \<le> g x) xs = filter (\<lambda>x. a \<le> g x) (take (?s b) xs @ drop (?s b) xs)" by simp
      also have "\<dots> = filter (\<lambda>x. a \<le> g x) (filter (\<lambda>x. g x < b) xs) @ filter (\<lambda>x. a \<le> g x) (filter (\<lambda>x. b \<le> g x) xs)"
        by (simp only: filter_append sort_Search_sorted [OF assms(1)])
      finally show ?thesis using assms(2) by (auto simp: conj_commute intro!: arg_cong2 [where f = append] filter_cong)
    qed
    moreover have "length (filter (\<lambda>x. a \<le> g x \<and> g x < b) xs) = ?s b - ?s a"
    proof -
      have "length (filter (\<lambda>x. g x < b) xs) = length (filter (\<lambda>x. g x < a) xs) + length (filter (\<lambda>x. a \<le> g x \<and> g x < b) xs)"
        using assms(2) by (induction xs) auto
      then show ?thesis by (simp add: len)
    qed
    ultimately show ?thesis by simp
  qed
  finally show "drop (?s a) (take (?s b) xs) = filter (\<lambda>x. a \<le> g x \<and> g x < b) xs" .
qed

end
