(* ===== verification/Data_Series.thy ===== *)
theory Data_Series
  imports Go_Search
begin

text \<open>
  The data series of the monitoring: \<open>driver/monitoring/series.go\<close> with its interface as a locale,
  its in-memory implementation \<open>SyncedSeries\<close>, the sources that keep one such series per subject,
  and the moving average of \<open>sma_series.go\<close>.
\<close>

section \<open>The interface\<close>

record ('k, 'v) DataPoint =
  Position :: 'k
  Value :: 'v

text \<open>
  What a reader of a series relies on: \<open>range\<close> returns the points of a half-open interval and
  \<open>latest\<close> the last point. \<open>None\<close> as the result of \<open>range\<close> stands for a panic; the interface
  excludes it for intervals whose bounds are in order.
\<close>

locale series =
  fixes points :: "'s \<Rightarrow> ('k :: linorder, 'v) DataPoint list"
    and range :: "'s \<Rightarrow> 'k \<Rightarrow> 'k \<Rightarrow> ('k, 'v) DataPoint list option"
    and latest :: "'s \<Rightarrow> ('k, 'v) DataPoint option"
    and wf :: "'s \<Rightarrow> bool"
  assumes sorted_points: "wf s \<Longrightarrow> sorted (map Position (points s))"
    and range_eq: "wf s \<Longrightarrow> from \<le> to \<Longrightarrow>
      range s from to = Some (filter (\<lambda>p. from \<le> Position p \<and> Position p < to) (points s))"
    and latest_eq: "wf s \<Longrightarrow> latest s = (if points s = [] then None else Some (last (points s)))"
begin

lemma latest_highest: "wf s \<Longrightarrow> latest s = Some l \<Longrightarrow> p \<in> set (points s) \<Longrightarrow> Position p \<le> Position l"
proof -
  assume wf: "wf s" and l: "latest s = Some l" and p: "p \<in> set (points s)"
  then have "points s \<noteq> []" "l = last (points s)" by (auto simp: latest_eq split: if_splits)
  then obtain ys where ys: "points s = ys @ [l]" by (metis append_butlast_last_id)
  with sorted_points [OF wf] have "\<forall>q \<in> set ys. Position q \<le> Position l" by (simp add: sorted_append)
  with p ys show ?thesis by auto
qed

text \<open>Reading from a bound to beyond the latest point gives everything from the bound on.\<close>

lemma range_to_latest:
  assumes "wf s" "latest s = Some l" "from \<le> to" "Position l < to"
  shows "range s from to = Some (filter (\<lambda>p. from \<le> Position p) (points s))"
proof -
  have "Position p < to" if "p \<in> set (points s)" for p
    using latest_highest [OF assms(1,2) that] assms(4) by simp
  then have "filter (\<lambda>p. from \<le> Position p \<and> Position p < to) (points s) = filter (\<lambda>p. from \<le> Position p) (points s)"
    by (auto intro: filter_cong)
  then show ?thesis using range_eq [OF assms(1,3)] by simp
qed

end

text \<open>With no two points at one position, the range up to the latest point and that point are all.\<close>

locale strict_series = series points range latest wf
  for points :: "'s \<Rightarrow> ('k :: linorder, 'v) DataPoint list" and range latest wf +
  assumes strict_points: "wf s \<Longrightarrow> sorted_wrt (<) (map Position (points s))"
begin

lemma range_and_latest:
  assumes wf: "wf s" and l: "latest s = Some l" and first: "\<forall>p \<in> set (points s). first \<le> Position p"
  shows "map_option (\<lambda>ps. ps @ [l]) (range s first (Position l)) = Some (points s)"
proof -
  have "points s \<noteq> []" "l = last (points s)" using l by (auto simp: latest_eq [OF wf] split: if_splits)
  then obtain ys where ys: "points s = ys @ [l]" by (metis append_butlast_last_id)
  have below: "\<forall>q \<in> set ys. Position q < Position l"
    using strict_points [OF wf] by (simp add: ys sorted_wrt_append)
  have "first \<le> Position l" using first ys by simp
  then have "range s first (Position l) = Some (filter (\<lambda>p. first \<le> Position p \<and> Position p < Position l) (points s))"
    by (rule range_eq [OF wf])
  also have "filter (\<lambda>p. first \<le> Position p \<and> Position p < Position l) (points s) = ys"
    using below first by (auto simp: ys filter_id_conv)
  finally show ?thesis by (simp add: ys)
qed

end

section \<open>SyncedSeries\<close>

type_synonym ('k, 'v) SyncedSeries = "('k, 'v) DataPoint list"

definition Synced_GetRange :: "('k :: linorder, 'v) SyncedSeries \<Rightarrow> 'k \<Rightarrow> 'k \<Rightarrow> ('k, 'v) DataPoint list" where
  "Synced_GetRange s from to =
     (if to < from then []
      else
        let start = sort_Search (length s) (\<lambda>i. from \<le> Position (s ! i));
            end = sort_Search (length s) (\<lambda>i. to \<le> Position (s ! i))
        in if start = end then [] else drop start (take end s))"

definition Synced_GetLatest :: "('k, 'v) SyncedSeries \<Rightarrow> ('k, 'v) DataPoint option" where
  "Synced_GetLatest s = (if s = [] then None else Some (s ! (length s - 1)))"

datatype append_error = ErrOutOfOrderAppend

definition Synced_Append ::
  "'k :: linorder \<Rightarrow> 'v \<Rightarrow> ('k, 'v) SyncedSeries \<Rightarrow> append_error option \<times> ('k, 'v) SyncedSeries" where
  "Synced_Append p v s =
     (if s \<noteq> [] \<and> Position (s ! (length s - 1)) \<ge> p then (Some ErrOutOfOrderAppend, s)
      else (None, s @ [\<lparr>Position = p, Value = v\<rparr>]))"

definition synced_wf :: "('k :: linorder, 'v) SyncedSeries \<Rightarrow> bool" where
  "synced_wf s \<longleftrightarrow> sorted_wrt (<) (map Position s)"

lemma synced_wf_sorted: "synced_wf s \<Longrightarrow> sorted (map Position s)"
  unfolding synced_wf_def by (rule strict_sorted_imp_sorted)

lemma Synced_GetRange_filter:
  assumes "synced_wf s" "from \<le> to"
  shows "Synced_GetRange s from to = filter (\<lambda>p. from \<le> Position p \<and> Position p < to) s"
  using sort_Search_between [OF synced_wf_sorted [OF assms(1)] assms(2)] assms(2)
  by (auto simp: Synced_GetRange_def Let_def)

interpretation synced: strict_series id "\<lambda>s from to. Some (Synced_GetRange s from to)" Synced_GetLatest synced_wf
  by unfold_locales
     (simp_all add: synced_wf_sorted Synced_GetRange_filter Synced_GetLatest_def last_conv_nth synced_wf_def)

lemma Synced_Append_wf: "synced_wf s \<Longrightarrow> synced_wf (snd (Synced_Append p v s))"
proof -
  assume wf: "synced_wf s"
  have "Position x < p" if "x \<in> set s" "\<not> Position (last s) \<ge> p" for x
  proof -
    have "Synced_GetLatest s = Some (last s)"
      using that(1) by (auto simp: Synced_GetLatest_def last_conv_nth)
    then have "Position x \<le> Position (last s)"
      using synced.latest_highest [OF wf] that(1) by simp
    then show ?thesis using that(2) by simp
  qed
  then show ?thesis
    using wf by (cases "s = []") (auto simp: Synced_Append_def synced_wf_def sorted_wrt_append last_conv_nth)
qed

section \<open>Sources of series\<close>

text \<open>
  \<open>utils/series_source.go\<close>: one series per subject. The records of an export are the subject with a
  point of its series; \<open>first\<close> is the zero value of the position type.
\<close>

type_synonym ('s, 'k, 'v) SeriesSource = "('s, ('k, 'v) SyncedSeries) gomap"

definition Source_GetSubjects :: "('s, 'k, 'v) SeriesSource \<Rightarrow> 's list" where
  "Source_GetSubjects d = gm_keys d"

definition Source_GetData :: "'s \<Rightarrow> ('s, 'k, 'v) SeriesSource \<Rightarrow> ('k, 'v) SyncedSeries option" where
  "Source_GetData subject d = gm_get d subject"

definition NewSubject :: "'s \<Rightarrow> ('s, 'k, 'v) SeriesSource \<Rightarrow> ('s, 'k, 'v) SeriesSource option" where
  "NewSubject subject d = (if gm_get d subject \<noteq> None then None else Some (gm_set subject [] d))"

definition GetOrAddSubject :: "'s \<Rightarrow> ('s, 'k, 'v) SeriesSource \<Rightarrow> ('s, 'k, 'v) SeriesSource" where
  "GetOrAddSubject subject d = (if gm_get d subject \<noteq> None then d else gm_set subject [] d)"

text \<open>The records one series contributes to an export.\<close>

definition series_records :: "'k :: linorder \<Rightarrow> ('k, 'v) SyncedSeries \<Rightarrow> ('k, 'v) DataPoint list" where
  "series_records first s =
     (case Synced_GetLatest s of
        None \<Rightarrow> []
      | Some latest \<Rightarrow> Synced_GetRange s first (Position latest) @ [latest])"

definition Source_ForEachRecord :: "'k :: linorder \<Rightarrow> ('s, 'k, 'v) SeriesSource \<Rightarrow> ('s \<times> ('k, 'v) DataPoint) list" where
  "Source_ForEachRecord first d = concat (map (\<lambda>(subject, s). map (Pair subject) (series_records first s)) d)"

text \<open>
  \<open>node/sma_source.go\<close>: the source of a transformed metric. \<open>GetData\<close> builds the transformed series
  of a node with the factory and keeps it; the export goes over the series of the source metric.
\<close>

definition Transformation_GetData ::
  "('x \<Rightarrow> 'y) \<Rightarrow> (string \<Rightarrow> 'x option) \<Rightarrow> string \<Rightarrow> (string, 'y) gomap \<Rightarrow> 'y option \<times> (string, 'y) gomap" where
  "Transformation_GetData factory source node cache =
     (case gm_get cache node of
        Some y \<Rightarrow> (Some y, cache)
      | None \<Rightarrow>
          (case source node of
             Some x \<Rightarrow> (Some (factory x), gm_set node (factory x) cache)
           | None \<Rightarrow> (None, cache)))"

definition Transformation_ForEachRecord ::
  "'k :: linorder \<Rightarrow> string list \<Rightarrow> (string \<Rightarrow> ('k, 'v) SyncedSeries option) \<Rightarrow> (string \<times> ('k, 'v) DataPoint) list" where
  "Transformation_ForEachRecord first subjects source =
     concat (map (\<lambda>subject. case source subject of
         None \<Rightarrow> []
       | Some s \<Rightarrow> map (Pair subject) (series_records first s)) subjects)"

lemma series_records_all:
  assumes "synced_wf s" "\<forall>p \<in> set s. first \<le> Position p"
  shows "series_records first s = s"
proof (cases "Synced_GetLatest s")
  case None
  then show ?thesis by (simp add: series_records_def Synced_GetLatest_def split: if_splits)
next
  case (Some l)
  then show ?thesis
    using synced.range_and_latest [of s l first] assms by (simp add: series_records_def)
qed

section \<open>Moving averages\<close>

record 'v SmaSeries =
  sma_output :: "(int, 'v) SyncedSeries"
  sma_startKey :: int
  sma_endKey :: int
  sma_period :: nat

definition NewSMASeries :: "nat \<Rightarrow> 'v SmaSeries" where
  "NewSMASeries period = \<lparr>sma_output = [], sma_startKey = 0, sma_endKey = 0, sma_period = period\<rparr>"

text \<open>One iteration of the loop of \<open>calculate\<close> over the points, with the running sum.\<close>

definition sma_step ::
  "(int, 'v :: field) DataPoint list \<Rightarrow> nat \<Rightarrow> 'v SmaSeries \<times> 'v \<Rightarrow> 'v SmaSeries \<times> 'v" where
  "sma_step ps i = (\<lambda>(s, sum).
     let point = ps ! i;
         sum1 = sum + Value point;
         old = ps ! (i - sma_period s);
         (s1, sum2) = (if i \<ge> sma_period s then (s\<lparr>sma_startKey := Position old\<rparr>, sum1 - Value old)
                       else (s, sum1))
     in if Position point > sma_endKey s1 \<or> sma_endKey s1 = sma_startKey s1 then
          let n = (if i < sma_period s1 then i + 1 else sma_period s1);
              avr = sum2 / of_nat n
          in (s1\<lparr>sma_endKey := Position point,
                 sma_output := snd (Synced_Append (Position point) avr (sma_output s1))\<rparr>, sum2)
        else (s1, sum2))"

definition calculate :: "(int, 'v :: field) SyncedSeries \<Rightarrow> 'v SmaSeries \<Rightarrow> 'v SmaSeries" where
  "calculate input s =
     (case Synced_GetLatest input of
        None \<Rightarrow> s
      | Some latest \<Rightarrow>
          if Position latest > sma_endKey s \<or> sma_endKey s = sma_startKey s then
            let ps = Synced_GetRange input (sma_startKey s) (Position latest) @ [latest]
            in fst (fold (sma_step ps) [0..<length ps] (s, 0))
          else s)"

definition Sma_GetRange ::
  "(int, 'v :: field) SyncedSeries \<Rightarrow> int \<Rightarrow> int \<Rightarrow> 'v SmaSeries \<Rightarrow> (int, 'v) DataPoint list \<times> 'v SmaSeries" where
  "Sma_GetRange input from to s =
     (let s1 = calculate input s in (Synced_GetRange (sma_output s1) from to, s1))"

definition Sma_GetLatest ::
  "(int, 'v :: field) SyncedSeries \<Rightarrow> 'v SmaSeries \<Rightarrow> (int, 'v) DataPoint option \<times> 'v SmaSeries" where
  "Sma_GetLatest input s = (let s1 = calculate input s in (Synced_GetLatest (sma_output s1), s1))"

end
