(* ===== verification/Txmon_Series.thy ===== *)
theory Txmon_Series
  imports Txmon_Properties Data_Series
begin

text \<open>
  The read-only series the transaction metrics are exposed as: \<open>sample_source.go\<close>,
  \<open>block_series.go\<close>, \<open>composition_source.go\<close> and \<open>gas_limit_source.go\<close> of
  \<open>driver/monitoring/transactions\<close>. Both kinds satisfy the interface of a series; unlike the
  in-memory series they panic on an interval whose bounds are swapped.
\<close>

section \<open>Measurements\<close>

text \<open>\<open>monitoring.NewTime\<close>: the Unix time in nanoseconds as an unsigned 64-bit number.\<close>

definition NewTime :: "gotime \<Rightarrow> u64" where
  "NewTime t = word_of_int t"

type_synonym sampleSeries = "Sample list"

definition sample_point :: "Sample \<Rightarrow> (u64, duration) DataPoint" where
  "sample_point x = \<lparr>Position = NewTime (At x), Value = Duration x\<rparr>"

definition sample_search :: "sampleSeries \<Rightarrow> u64 \<Rightarrow> nat" where
  "sample_search s position = sort_Search (length s) (\<lambda>i. NewTime (At (s ! i)) \<ge> position)"

text \<open>\<open>None\<close> is the panic of \<open>make\<close> with a negative capacity.\<close>

definition sample_GetRange :: "sampleSeries \<Rightarrow> u64 \<Rightarrow> u64 \<Rightarrow> (u64, duration) DataPoint list option" where
  "sample_GetRange s from to =
     (let begin = sample_search s from; end = sample_search s to
      in if end < begin then None else Some (map sample_point (drop begin (take end s))))"

definition sample_GetLatest :: "sampleSeries \<Rightarrow> (u64, duration) DataPoint option" where
  "sample_GetLatest s = (if s = [] then None else Some (sample_point (s ! (length s - 1))))"

definition sample_wf :: "sampleSeries \<Rightarrow> bool" where
  "sample_wf s \<longleftrightarrow> sorted (map (\<lambda>x. NewTime (At x)) s)"

interpretation smp: series "map sample_point" sample_GetRange sample_GetLatest sample_wf
proof
  fix s :: sampleSeries
  assume wf: "sample_wf s"
  then show "sorted (map Position (map sample_point s))" by (simp add: sample_wf_def sample_point_def comp_def)
  show "sample_GetLatest s = (if map sample_point s = [] then None else Some (last (map sample_point s)))"
    by (simp add: sample_GetLatest_def last_conv_nth last_map)
  fix lo hi :: u64
  assume "lo \<le> hi"
  with wf show "sample_GetRange s lo hi =
      Some (filter (\<lambda>p. lo \<le> Position p \<and> Position p < hi) (map sample_point s))"
    using sort_Search_between [of "\<lambda>x. NewTime (At x)" s lo hi]
    by (simp add: sample_GetRange_def sample_search_def sample_wf_def Let_def filter_map comp_def sample_point_def not_less)
qed

section \<open>Values per block\<close>

record 'a blockSeries =
  bs_items :: "'a list"
  bs_block :: "'a \<Rightarrow> int"
  bs_value :: "'a \<Rightarrow> int"

definition block_point :: "'a blockSeries \<Rightarrow> 'a \<Rightarrow> (int, int) DataPoint" where
  "block_point s x = \<lparr>Position = bs_block s x, Value = bs_value s x\<rparr>"

definition block_search :: "'a blockSeries \<Rightarrow> int \<Rightarrow> nat" where
  "block_search s block = sort_Search (length (bs_items s)) (\<lambda>i. bs_block s (bs_items s ! i) \<ge> block)"

definition block_GetRange :: "'a blockSeries \<Rightarrow> int \<Rightarrow> int \<Rightarrow> (int, int) DataPoint list option" where
  "block_GetRange s from to =
     (let begin = block_search s from; end = block_search s to
      in if end < begin then None else Some (map (block_point s) (drop begin (take end (bs_items s)))))"

definition block_GetLatest :: "'a blockSeries \<Rightarrow> (int, int) DataPoint option" where
  "block_GetLatest s =
     (if bs_items s = [] then None else Some (block_point s (bs_items s ! (length (bs_items s) - 1))))"

definition block_wf :: "'a blockSeries \<Rightarrow> bool" where
  "block_wf s \<longleftrightarrow> sorted (map (bs_block s) (bs_items s))"

interpretation blk: series "\<lambda>s. map (block_point s) (bs_items s)" block_GetRange block_GetLatest block_wf
proof
  fix s :: "'a blockSeries"
  assume wf: "block_wf s"
  then show "sorted (map Position (map (block_point s) (bs_items s)))"
    by (simp add: block_wf_def block_point_def comp_def)
  show "block_GetLatest s =
      (if map (block_point s) (bs_items s) = [] then None else Some (last (map (block_point s) (bs_items s))))"
    by (simp add: block_GetLatest_def last_conv_nth last_map)
  fix lo hi :: int
  assume "lo \<le> hi"
  with wf show "block_GetRange s lo hi =
      Some (filter (\<lambda>p. lo \<le> Position p \<and> Position p < hi) (map (block_point s) (bs_items s)))"
    using sort_Search_between [of "bs_block s" "bs_items s" lo hi]
    by (simp add: block_GetRange_def block_search_def block_wf_def Let_def filter_map comp_def block_point_def not_less)
qed

section \<open>Sources\<close>

definition sample_GetData :: "string \<Rightarrow> SampleKind \<Rightarrow> Tracker \<Rightarrow> sampleSeries option" where
  "sample_GetData app k t =
     (let samples = fst (Tracker_Samples app k t) in if samples = [] then None else Some samples)"

definition composition_GetData ::
  "(BlockContribution \<Rightarrow> int) \<Rightarrow> string \<Rightarrow> Tracker \<Rightarrow> BlockContribution blockSeries option" where
  "composition_GetData value app t =
     (let contributions = BlockContributions app t
      in if contributions = [] then None
         else Some \<lparr>bs_items = contributions, bs_block = bc_Block, bs_value = value\<rparr>)"

definition gasLimit_GetData :: "(BlockLimit \<Rightarrow> int) \<Rightarrow> Tracker \<Rightarrow> BlockLimit blockSeries option" where
  "gasLimit_GetData value t =
     (let limits = BlockGasLimits t
      in if limits = [] then None
         else Some \<lparr>bs_items = limits, bs_block = bl_Block, bs_value = value\<rparr>)"

definition composition_ForEachRecord ::
  "(BlockContribution \<Rightarrow> int) \<Rightarrow> Tracker \<Rightarrow> (string \<times> (int, int) DataPoint) list" where
  "composition_ForEachRecord value t =
     concat (map (\<lambda>app. map (\<lambda>c. (app, \<lparr>Position = bc_Block c, Value = value c\<rparr>))
       (BlockContributions app t)) (Contributors t))"

definition countSensor_ReadValue :: "string \<Rightarrow> CountKind \<Rightarrow> Tracker \<Rightarrow> int" where
  "countSensor_ReadValue app k t = Counts_Get (fst (Tracker_Counts app t)) k"

lemma composition_wf: "composition_GetData value app t = Some s \<Longrightarrow> block_wf s"
  by (auto simp: composition_GetData_def block_wf_def BlockContributions_def Let_def split: if_splits)

lemma gasLimit_wf: "gasLimit_GetData value t = Some s \<Longrightarrow> block_wf s"
  by (auto simp: gasLimit_GetData_def block_wf_def BlockGasLimits_def Let_def split: if_splits)

text \<open>Measurements taken between 1970 and 2262 are ordered as their positions are.\<close>

lemma NewTime_mono: "0 \<le> a \<Longrightarrow> a \<le> b \<Longrightarrow> b < 2 ^ 64 \<Longrightarrow> NewTime a \<le> NewTime b"
  by (simp add: NewTime_def word_le_def uint_word_of_int take_bit_eq_mod)

lemma sample_data_wf:
  assumes "sample_GetData app k t = Some s" "\<forall>x \<in> set s. 0 \<le> At x \<and> At x < 2 ^ 63"
  shows "sample_wf s"
proof -
  have "s = sampleSet_sorted (app_sampleSet (get_app t app) k)"
    using assms(1) by (auto simp: sample_GetData_def Tracker_Samples_def Let_def split: if_splits)
  then have "sorted (map At s)" by (simp add: sampleSet_sorted_def)
  then show ?thesis
    using assms(2) unfolding sample_wf_def
    by (induction s) (auto intro!: NewTime_mono)
qed

section \<open>Properties\<close>

text \<open>
  the measurements of an application read over an interval are exactly the retained ones
  submitted in it, in the order of their submission.
\<close>

theorem sample_series_range:
  assumes "sample_GetData app k t = Some s" "\<forall>x \<in> set s. 0 \<le> At x \<and> At x < 2 ^ 63" "from \<le> to"
  shows "sample_GetRange s from to =
    Some (filter (\<lambda>p. from \<le> Position p \<and> Position p < to) (map sample_point s))"
  using smp.range_eq [OF sample_data_wf [OF assms(1,2)] assms(3)] .

definition ex_emitted :: Tracker where
  "ex_emitted = MarkEmitted 100 (unix_nanos 25) ex_gap"

lemma ex_gap_samples: "ap_samples (get_app ex_gap ''app'') = (\<lambda>_. None)"
  by (simp add: ex_gap_def NewTracker_def ex_eval)

lemma ex_emitted_samples:
  "sample_GetData ''app'' TimeToEmit ex_emitted = Some [\<lparr>At = 10, Duration = 15\<rparr>]"
  by (simp add: ex_emitted_def sample_GetData_def Tracker_Samples_def MarkEmitted_def ex_gap_eq ex_entry_def
    isZero_def Let_def get_app_with_app app_sampleSet_def add_sample_def sampleSet_add_def empty_sampleSet_def
    maxSamplesPerSet_def unix_nanos_def time_sub_def minDuration_def maxDuration_def sampleSet_sorted_def
    upd_counts_def zero_time_def get_app_update ex_gap_samples)

theorem sample_series_range_witness:
  "sample_GetRange [\<lparr>At = 10, Duration = 15\<rparr>] 5 20 = Some [\<lparr>Position = 10, Value = 15\<rparr>]"
  using sample_series_range [OF ex_emitted_samples, of 5 20]
  by (simp add: sample_point_def NewTime_def word_le_nat_alt word_less_nat_alt)

text \<open>
  reading what an application contributed to the blocks over an interval whose bounds are swapped
  panics exactly if the application contributed to a block between the bounds, where the in-memory
  series returns nothing.
\<close>

theorem swapped_interval_panics:
  assumes "composition_GetData value app t = Some s" "hi < lo"
  shows "block_GetRange s lo hi = None \<longleftrightarrow>
    (\<exists>c \<in> set (BlockContributions app t). hi \<le> bc_Block c \<and> bc_Block c < lo)"
proof -
  have s: "bs_items s = BlockContributions app t" "bs_block s = bc_Block"
    using assms(1) by (auto simp: composition_GetData_def Let_def split: if_splits)
  have "sorted (map (bs_block s) (bs_items s))" using composition_wf [OF assms(1)] by (simp add: block_wf_def)
  from sort_Search_less [OF this assms(2)] show ?thesis
    by (simp add: block_GetRange_def block_search_def Let_def s)
qed

definition ex_block :: Tracker where
  "ex_block = MarkBlock 5 20 [\<lparr>it_Hash = 9, it_GasUsed = 5\<rparr>] NewTracker"

theorem swapped_interval_panics_witness:
  "\<exists>s. composition_GetData bc_Transactions OtherTransactions ex_block = Some s \<and> block_GetRange s 9 2 = None"
proof -
  have c: "BlockContributions OtherTransactions ex_block = [\<lparr>bc_Block = 5, bc_Transactions = 1, bc_Gas = 5\<rparr>]"
    by (simp add: ex_block_def MarkBlock_def contribute_def markIncluded_def NewTracker_def BlockContributions_def
      OtherTransactions_def map_filter_def)
  then obtain s where s: "composition_GetData bc_Transactions OtherTransactions ex_block = Some s"
    by (simp add: composition_GetData_def)
  with swapped_interval_panics [OF s, of 2 9] c show ?thesis by simp
qed

end
