(* ===== verification/Data_Series_Properties.thy ===== *)
theory Data_Series_Properties
  imports Complex_Main Data_Series
begin

text \<open>
  The moving average computed incrementally equals the one computed from scratch, however often it
  is read while its input grows, and what the exports of the sources contain.
\<close>

section \<open>The reference\<close>

text \<open>
  The average at index \<open>i\<close>: over the last \<open>p\<close> values, or over all values so far while there are
  fewer.
\<close>

definition window :: "nat \<Rightarrow> nat \<Rightarrow> nat" where
  "window p i = (if i < p then 0 else i + 1 - p)"

definition sma_at :: "nat \<Rightarrow> (int, 'v :: field) DataPoint list \<Rightarrow> nat \<Rightarrow> (int, 'v) DataPoint" where
  "sma_at p xs i = \<lparr>Position = Position (xs ! i),
     Value = (\<Sum>j = window p i..<i + 1. Value (xs ! j)) / of_nat (i + 1 - window p i)\<rparr>"

definition sma_upto :: "nat \<Rightarrow> (int, 'v :: field) DataPoint list \<Rightarrow> nat \<Rightarrow> (int, 'v) DataPoint list" where
  "sma_upto p xs m = map (sma_at p xs) [0..<m]"

definition valid_input :: "(int, 'v) SyncedSeries \<Rightarrow> bool" where
  "valid_input xs \<longleftrightarrow> synced_wf xs \<and> (\<forall>p \<in> set xs. 0 \<le> Position p)"

lemma valid_less: "valid_input xs \<Longrightarrow> i < j \<Longrightarrow> j < length xs \<Longrightarrow> Position (xs ! i) < Position (xs ! j)"
  by (simp add: valid_input_def synced_wf_def sorted_wrt_iff_nth_less)

lemma valid_le: "valid_input xs \<Longrightarrow> i \<le> j \<Longrightarrow> j < length xs \<Longrightarrow> Position (xs ! i) \<le> Position (xs ! j)"
  using valid_less [of xs i j] by (cases "i = j") auto

lemma valid_nonneg: "valid_input xs \<Longrightarrow> i < length xs \<Longrightarrow> 0 \<le> Position (xs ! i)"
  by (simp add: valid_input_def)

section \<open>The invariant between reads\<close>

text \<open>After \<open>m\<close> points of the input: the keys, and the averages of these points.\<close>

definition end_key :: "(int, 'v) DataPoint list \<Rightarrow> nat \<Rightarrow> int" where
  "end_key xs m = (if m = 0 then 0 else Position (xs ! (m - 1)))"

definition start_index :: "nat \<Rightarrow> nat \<Rightarrow> nat" where
  "start_index p m = (if m > p then m - p - 1 else 0)"

definition start_key :: "nat \<Rightarrow> (int, 'v) DataPoint list \<Rightarrow> nat \<Rightarrow> int" where
  "start_key p xs m = (if m > p then Position (xs ! (m - p - 1)) else 0)"

definition sma_inv :: "nat \<Rightarrow> (int, 'v :: field) DataPoint list \<Rightarrow> nat \<Rightarrow> 'v SmaSeries \<Rightarrow> bool" where
  "sma_inv p xs m s \<longleftrightarrow> m \<le> length xs \<and> sma_period s = p \<and> sma_output s = sma_upto p xs m \<and>
     sma_endKey s = end_key xs m \<and> sma_startKey s = start_key p xs m"

text \<open>Inside the loop, after the points up to index \<open>a\<close> of the input, started at index \<open>b\<close>.\<close>

definition loop_inv ::
  "nat \<Rightarrow> (int, 'v :: field) DataPoint list \<Rightarrow> nat \<Rightarrow> nat \<Rightarrow> nat \<Rightarrow> 'v SmaSeries \<times> 'v \<Rightarrow> bool" where
  "loop_inv p xs m b a = (\<lambda>(s, sum).
     sma_period s = p \<and> sma_output s = sma_upto p xs (max m a) \<and>
     sma_endKey s = end_key xs (max m a) \<and>
     sma_startKey s = (if a - b > p then Position (xs ! (a - p - 1)) else start_key p xs m) \<and>
     sum = (\<Sum>j = (if a - b > p then a - p else b)..<a. Value (xs ! j)))"

text \<open>The running sum and the start of the window after one more point.\<close>

lemma loop_inv_window:
  fixes xs :: "(int, 'v :: field) DataPoint list"
  assumes inv: "loop_inv p xs m b a (s, sm)" and p: "0 < p" and a: "b \<le> a"
  shows "(if p \<le> a - b then sm + Value (xs ! a) - Value (xs ! (a - p)) else sm + Value (xs ! a)) =
    (\<Sum>j = (if Suc a - b > p then Suc a - p else b)..<Suc a. Value (xs ! j))"
proof (cases "p \<le> a - b")
  case True
  then have lo: "(if a - b > p then a - p else b) = a - p" using a by auto
  have "sm = (\<Sum>j = a - p..<a. Value (xs ! j))" using inv by (simp add: loop_inv_def lo)
  then have "sm + Value (xs ! a) = (\<Sum>j = a - p..<Suc a. Value (xs ! j))" by auto
  also have "\<dots> = Value (xs ! (a - p)) + (\<Sum>j = Suc (a - p)..<Suc a. Value (xs ! j))"
    by (rule sum.atLeast_Suc_lessThan) (use p in auto)
  finally have "sm + Value (xs ! a) - Value (xs ! (a - p)) = (\<Sum>j = Suc (a - p)..<Suc a. Value (xs ! j))"
    by (simp del: sum.op_ivl_Suc)
  moreover have "Suc a - p = Suc (a - p)" "Suc a - b > p" using True a by linarith+
  ultimately show ?thesis using True by (simp del: sum.op_ivl_Suc)
next
  case False
  then have "sm = (\<Sum>j = b..<a. Value (xs ! j))" using inv by (simp add: loop_inv_def)
  with False a show ?thesis by simp
qed

text \<open>A point that was averaged before is averaged again only at position 0, where the append fails.\<close>

lemma sma_repeat:
  fixes xs :: "(int, 'v :: field) DataPoint list"
  assumes xs: "valid_input xs" and p: "0 < p" and b: "b = start_index p m" and a: "b \<le> a" "a < m" "m \<le> length xs"
    and guard: "Position (xs ! a) > end_key xs m \<or>
      end_key xs m = (if p \<le> a - b then Position (xs ! (a - p)) else start_key p xs m)"
  shows "Position (xs ! a) = end_key xs m"
    and "snd (Synced_Append (Position (xs ! a)) v (sma_upto p xs m)) = sma_upto p xs m"
proof -
  have ek: "end_key xs m = Position (xs ! (m - 1))" using a by (simp add: end_key_def)
  have "Position (xs ! a) \<le> Position (xs ! (m - 1))" using a by (intro valid_le [OF xs]) auto
  with guard ek have eq: "Position (xs ! (m - 1)) = (if p \<le> a - b then Position (xs ! (a - p)) else start_key p xs m)"
    by auto
  have "\<not> p \<le> a - b"
  proof
    assume "p \<le> a - b"
    then have "Position (xs ! (a - p)) < Position (xs ! (m - 1))" using a p by (intro valid_less [OF xs]) auto
    with eq \<open>p \<le> a - b\<close> show False by simp
  qed
  moreover have "\<not> m > p"
  proof
    assume "m > p"
    then have "Position (xs ! (m - p - 1)) < Position (xs ! (m - 1))" using a p by (intro valid_less [OF xs]) auto
    with eq \<open>m > p\<close> \<open>\<not> p \<le> a - b\<close> show False by (simp add: start_key_def)
  qed
  ultimately have zero: "Position (xs ! (m - 1)) = 0" using eq by (simp add: start_key_def)
  have "m = 1"
  proof (rule ccontr)
    assume "m \<noteq> 1"
    then have "Position (xs ! 0) < Position (xs ! (m - 1))" using a by (intro valid_less [OF xs]) auto
    moreover have "0 \<le> Position (xs ! 0)" using a by (intro valid_nonneg [OF xs]) auto
    ultimately show False using zero by simp
  qed
  with a zero ek show "Position (xs ! a) = end_key xs m" by simp
  with \<open>m = 1\<close> ek show "snd (Synced_Append (Position (xs ! a)) v (sma_upto p xs m)) = sma_upto p xs m"
    by (simp add: Synced_Append_def sma_upto_def sma_at_def)
qed

text \<open>A new point gets its average.\<close>

lemma sma_append:
  fixes xs :: "(int, 'v :: field) DataPoint list"
  assumes xs: "valid_input xs" and p: "0 < p" and b: "b = start_index p m" and a: "m \<le> a" "a < length xs"
  shows "snd (Synced_Append (Position (xs ! a))
      ((\<Sum>j = (if Suc a - b > p then Suc a - p else b)..<Suc a. Value (xs ! j)) /
        of_nat (if a - b < p then a - b + 1 else p)) (sma_upto p xs a)) = sma_upto p xs (Suc a)"
proof -
  have win: "(if Suc a - b > p then Suc a - p else b) = window p a"
    and n: "(if a - b < p then a - b + 1 else p) = a + 1 - window p a"
    using a b p by (auto simp: window_def start_index_def)
  have "Position (sma_upto p xs a ! (a - 1)) < Position (xs ! a)" if "0 < a"
    using that a valid_less [OF xs, of "a - 1" a] by (simp add: sma_upto_def sma_at_def)
  then show ?thesis
    unfolding win n by (auto simp: Synced_Append_def sma_upto_def sma_at_def)
qed

lemma sma_step_inv:
  fixes xs :: "(int, 'v :: field) DataPoint list"
  assumes inv: "loop_inv p xs m b a st" and xs: "valid_input xs" and p: "0 < p"
    and b: "b = start_index p m" and a: "b \<le> a" "a < length xs" and m: "m \<le> length xs"
  shows "loop_inv p xs m b (Suc a) (sma_step (drop b xs) (a - b) st)"
proof -
  obtain s sm where st: "st = (s, sm)" by (cases st)
  have point: "drop b xs ! (a - b) = xs ! a" using a by simp
  have old: "drop b xs ! (a - (b + p)) = xs ! (a - p)" if "p \<le> a - b" using that a by simp
  let ?sum = "\<Sum>j = (if Suc a - b > p then Suc a - p else b)..<Suc a. Value (xs ! j)"
  have smv: "(if p \<le> a - b then sm + Value (xs ! a) - Value (xs ! (a - p)) else sm + Value (xs ! a)) = ?sum"
    using loop_inv_window [OF inv [unfolded st] p a(1)] .
  let ?sk = "if p \<le> a - b then Position (xs ! (a - p)) else start_key p xs m"
  define s1 where "s1 = s\<lparr>sma_startKey := ?sk\<rparr>"
  have per: "sma_period s = p" and ek: "sma_endKey s = end_key xs (max m a)"
    and out: "sma_output s = sma_upto p xs (max m a)" using inv by (simp_all add: st loop_inv_def)
  have sk: "sma_startKey s = start_key p xs m" if "\<not> p \<le> a - b" using inv that by (simp add: st loop_inv_def)
  have s1f: "sma_endKey s1 = end_key xs (max m a)" "sma_startKey s1 = ?sk" "sma_period s1 = p"
    "sma_output s1 = sma_upto p xs (max m a)" by (simp_all add: s1_def per ek out)
  define sm1 where "sm1 = ?sum"
  have "sma_step (drop b xs) (a - b) (s, sm) =
     (if Position (xs ! a) > end_key xs (max m a) \<or> end_key xs (max m a) = ?sk then
        (s1\<lparr>sma_endKey := Position (xs ! a), sma_output := snd (Synced_Append (Position (xs ! a))
           (sm1 / of_nat (if a - b < p then a - b + 1 else p)) (sma_upto p xs (max m a)))\<rparr>, sm1)
      else (s1, sm1))"
  proof (cases "p \<le> a - b")
    case True
    have eqs: "s\<lparr>sma_startKey := Position (xs ! (a - p))\<rparr> = s1" "sm + Value (xs ! a) - Value (xs ! (a - p)) = sm1"
      using True smv by (simp_all add: s1_def sm1_def del: sum.op_ivl_Suc)
    have "\<not> a - b < p" using True by simp
    then show ?thesis
      unfolding sma_step_def Let_def by (simp add: point per old [OF True] True eqs s1f)
  next
    case False
    have eqs: "s = s1" "sm + Value (xs ! a) = sm1" using False smv sk by (simp_all add: s1_def sm1_def del: sum.op_ivl_Suc)
    show ?thesis unfolding sma_step_def Let_def by (simp add: point False eqs(2) eqs(1) s1f)
  qed
  note step = this [folded st, unfolded sm1_def]
  have key: "(if Suc a - b > p then Position (xs ! (Suc a - p - 1)) else start_key p xs m) = ?sk" using a by auto
  show ?thesis
  proof (cases "a < m")
    case True
    then have mx: "max m a = m" "max m (Suc a) = m" by auto
    show ?thesis
      using sma_repeat [OF xs p b a(1) True m]
      by (auto simp: step mx loop_inv_def key s1_def per ek out)
  next
    case False
    then have mx: "max m a = a" "max m (Suc a) = Suc a" by auto
    have "Position (xs ! a) > end_key xs a \<or> end_key xs a = ?sk"
    proof (cases "a = 0")
      case True
      then show ?thesis using False p by (simp add: end_key_def start_key_def)
    next
      case 2: False
      then show ?thesis using valid_less [OF xs, of "a - 1" a] a by (simp add: end_key_def)
    qed
    then show ?thesis
      using sma_append [OF xs p b _ a(2)] False
      by (simp add: step mx loop_inv_def key s1_def per end_key_def)
  qed
qed

section \<open>Reading the average\<close>

lemma loop_run:
  fixes xs :: "(int, 'v :: field) DataPoint list"
  assumes inv: "sma_inv p xs m s" and xs: "valid_input xs" and p: "0 < p" and b: "b = start_index p m"
    and k: "b + k \<le> length xs"
  shows "loop_inv p xs m b (b + k) (fold (sma_step (drop b xs)) [0..<k] (s, 0))"
  using k
proof (induction k)
  case 0
  have "max m b = m" using b by (simp add: start_index_def)
  then show ?case using inv by (simp add: sma_inv_def loop_inv_def)
next
  case (Suc k)
  then have "loop_inv p xs m b (b + k) (fold (sma_step (drop b xs)) [0..<k] (s, 0))" by simp
  then have "loop_inv p xs m b (Suc (b + k)) (sma_step (drop b xs) (b + k - b) (fold (sma_step (drop b xs)) [0..<k] (s, 0)))"
    by (rule sma_step_inv [OF _ xs p b]) (use Suc inv in \<open>auto simp: sma_inv_def\<close>)
  then show ?case by simp
qed

lemma points_from_start:
  fixes xs :: "(int, 'v :: field) DataPoint list"
  assumes xs: "valid_input xs" and m: "m \<le> length xs" and ne: "xs \<noteq> []"
  shows "Synced_GetRange xs (start_key p xs m) (Position (last xs)) @ [last xs] = drop (start_index p m) xs"
proof -
  let ?b = "start_index p m" and ?k = "start_key p xs m"
  have b: "?b < length xs" using m ne by (cases xs) (auto simp: start_index_def)
  have last: "last xs = xs ! (length xs - 1)" using ne by (simp add: last_conv_nth)
  have le: "?k \<le> Position (last xs)"
    using m ne valid_nonneg [OF xs, of "length xs - 1"] valid_le [OF xs, of "m - p - 1" "length xs - 1"]
    by (auto simp: start_key_def last)
  have drop: "filter (\<lambda>q. ?k \<le> Position q) xs = drop ?b xs"
  proof -
    have low: "\<not> ?k \<le> Position q" if q: "q \<in> set (take ?b xs)" for q
    proof -
      obtain i where "i < length (take ?b xs)" "q = take ?b xs ! i" using q unfolding in_set_conv_nth by blast
      then have "i < ?b" "q = xs ! i" by simp_all
      then show ?thesis using valid_less [OF xs, of i ?b] b by (auto simp: start_index_def start_key_def split: if_splits)
    qed
    have high: "?k \<le> Position q" if q: "q \<in> set (drop ?b xs)" for q
    proof -
      obtain i where i: "i < length (drop ?b xs)" "q = drop ?b xs ! i" using q unfolding in_set_conv_nth by blast
      then have "q = xs ! (?b + i)" "?b + i < length xs" by simp_all
      then show ?thesis
        using valid_le [OF xs, of ?b "?b + i"] valid_nonneg [OF xs, of "?b + i"]
        by (auto simp: start_key_def start_index_def split: if_splits)
    qed
    have "filter (\<lambda>q. ?k \<le> Position q) (take ?b xs @ drop ?b xs) = drop ?b xs"
      unfolding filter_append using low high by (simp add: filter_id_conv filter_empty_conv)
    then show ?thesis by simp
  qed
  have wf: "synced_wf xs" using xs by (simp add: valid_input_def)
  have split: "butlast (drop ?b xs) @ [last xs] = drop ?b xs"
    using b by (metis append_butlast_last_id drop_eq_Nil2 last_drop linorder_not_le)
  have "Synced_GetRange xs ?k (Position (last xs)) = filter (\<lambda>q. Position q < Position (last xs)) (filter (\<lambda>q. ?k \<le> Position q) xs)"
    using Synced_GetRange_filter [OF wf le] by (simp add: conj_commute)
  also have "\<dots> = filter (\<lambda>q. Position q < Position (last xs)) (drop ?b xs)" by (simp only: drop)
  also have "\<dots> = butlast (drop ?b xs)"
  proof -
    have "sorted_wrt (<) (map Position (butlast (drop ?b xs) @ [last xs]))"
      using sorted_wrt_drop [of "(<)" "map Position xs" ?b] wf by (simp add: synced_wf_def drop_map split)
    then have "\<forall>q \<in> set (butlast (drop ?b xs)). Position q < Position (last xs)" by (simp add: sorted_wrt_append)
    then have "filter (\<lambda>q. Position q < Position (last xs)) (butlast (drop ?b xs) @ [last xs]) = butlast (drop ?b xs)"
      by (simp add: filter_id_conv)
    then show ?thesis by (simp only: split)
  qed
  finally show ?thesis by (simp only: split)
qed

lemma calculate_inv:
  fixes xs :: "(int, 'v :: field) DataPoint list"
  assumes inv: "sma_inv p xs m s" and xs: "valid_input xs" and p: "0 < p"
  shows "sma_inv p xs (length xs) (calculate xs s)"
proof (cases "xs = []")
  case True
  then show ?thesis using inv by (simp add: calculate_def Synced_GetLatest_def sma_inv_def)
next
  case ne: False
  let ?b = "start_index p m" and ?n = "length xs"
  have m: "m \<le> ?n" and ek: "sma_endKey s = end_key xs m" and sk: "sma_startKey s = start_key p xs m"
    using inv by (simp_all add: sma_inv_def)
  have latest: "Synced_GetLatest xs = Some (last xs)" "last xs = xs ! (?n - 1)"
    using ne by (simp_all add: Synced_GetLatest_def last_conv_nth)
  show ?thesis
  proof (cases "Position (last xs) > end_key xs m \<or> end_key xs m = start_key p xs m")
    case True
    have b: "?b + length (drop ?b xs) = ?n" using m by (simp add: start_index_def)
    have "calculate xs s = fst (fold (sma_step (drop ?b xs)) [0..<length (drop ?b xs)] (s, 0))"
      using True by (simp add: calculate_def latest(1) ek sk points_from_start [OF xs m ne] Let_def)
    moreover have "loop_inv p xs m ?b ?n (fold (sma_step (drop ?b xs)) [0..<length (drop ?b xs)] (s, 0))"
      using loop_run [OF inv xs p refl, of "length (drop ?b xs)"] b by simp
    moreover have "max m ?n = ?n" using m by simp
    moreover have "(if ?n - ?b > p then Position (xs ! (?n - p - 1)) else start_key p xs m) = start_key p xs ?n"
      using m by (auto simp: start_index_def start_key_def)
    ultimately show ?thesis by (auto simp: loop_inv_def sma_inv_def split: prod.splits)
  next
    case False
    have "m = ?n"
    proof (rule ccontr)
      assume "m \<noteq> ?n"
      then have "m < ?n" using m by simp
      moreover have nz: "m \<noteq> 0"
      proof
        assume "m = 0"
        with False show False by (simp add: end_key_def start_key_def)
      qed
      ultimately have "Position (xs ! (m - 1)) < Position (xs ! (?n - 1))" by (intro valid_less [OF xs]) auto
      with False nz show False by (simp add: latest(2) end_key_def)
    qed
    moreover have "calculate xs s = s" using False by (simp add: calculate_def latest(1) ek sk)
    ultimately show ?thesis using inv by simp
  qed
qed

lemma sma_inv_grow:
  "sma_inv p xs m s \<Longrightarrow> sma_inv p (xs @ ys) m s"
  by (auto simp: sma_inv_def sma_upto_def sma_at_def end_key_def start_key_def nth_append window_def)

text \<open>A history of reads: every read sees the input of the previous read, possibly grown.\<close>

inductive sma_reads :: "nat \<Rightarrow> (int, 'v :: field) SyncedSeries \<Rightarrow> 'v SmaSeries \<Rightarrow> bool" for p where
  fresh: "sma_reads p [] (NewSMASeries p)"
| grows: "sma_reads p xs s \<Longrightarrow> sma_reads p (xs @ ys) s"
| reads: "sma_reads p xs s \<Longrightarrow> valid_input xs \<Longrightarrow> sma_reads p xs (calculate xs s)"

lemma sma_reads_inv: "sma_reads p xs s \<Longrightarrow> 0 < p \<Longrightarrow> \<exists>m. sma_inv p xs m s"
proof (induction rule: sma_reads.induct)
  case fresh
  then show ?case
    by (auto simp: sma_inv_def NewSMASeries_def sma_upto_def end_key_def start_key_def intro!: exI [of _ 0])
qed (auto intro: sma_inv_grow calculate_inv)



text \<open>
  the points of a series are strictly increasing in their positions whatever is appended, since
  an append at or below the last position is refused, and reading an interval returns exactly the
  points in it.
\<close>

definition appended :: "('k :: linorder \<times> 'v) list \<Rightarrow> ('k, 'v) SyncedSeries" where
  "appended ops = fold (\<lambda>(p, v) s. snd (Synced_Append p v s)) ops []"

lemma appended_wf: "synced_wf (appended ops)"
proof -
  have "synced_wf s \<Longrightarrow> synced_wf (fold (\<lambda>(p, v) s. snd (Synced_Append p v s)) ops s)" for s :: "('a, 'b) SyncedSeries"
    by (induction ops arbitrary: s) (auto simp: Synced_Append_wf)
  then show ?thesis by (simp add: appended_def synced_wf_def)
qed

theorem synced_series_contract:
  "sorted_wrt (<) (map Position (appended ops)) \<and>
   Synced_GetRange (appended ops) from to =
     filter (\<lambda>p. from \<le> Position p \<and> Position p < to) (appended ops) \<and>
   Synced_GetLatest (appended ops) = (if appended ops = [] then None else Some (last (appended ops)))"
proof -
  have "Synced_GetRange (appended ops) from to = filter (\<lambda>p. from \<le> Position p \<and> Position p < to) (appended ops)"
  proof (cases "from \<le> to")
    case True
    then show ?thesis by (rule Synced_GetRange_filter [OF appended_wf])
  next
    case False
    then have "filter (\<lambda>p. from \<le> Position p \<and> Position p < to) (appended ops) = []"
      by (auto simp: filter_empty_conv)
    with False show ?thesis by (simp add: Synced_GetRange_def not_le)
  qed
  then show ?thesis
    using appended_wf [of ops] synced.latest_eq [OF appended_wf [of ops]] by (simp add: synced_wf_def)
qed

text \<open>
  the export of a source contains every point of every series exactly once and in order, provided
  that no position lies below the zero value of its type.
\<close>

theorem export_complete:
  assumes "\<forall>(subject, s) \<in> set d. synced_wf s \<and> (\<forall>p \<in> set s. first \<le> Position p)"
  shows "Source_ForEachRecord first d = concat (map (\<lambda>(subject, s). map (Pair subject) s) d)"
  using assms unfolding Source_ForEachRecord_def
  by (intro arg_cong [where f = concat] map_cong) (auto simp: series_records_all)

theorem export_complete_witness:
  "Source_ForEachRecord (0 :: int) [(''A'', [\<lparr>Position = 1, Value = 5 :: int\<rparr>, \<lparr>Position = 3, Value = 6\<rparr>])] =
     [(''A'', \<lparr>Position = 1, Value = 5\<rparr>), (''A'', \<lparr>Position = 3, Value = 6\<rparr>)]"
  using export_complete [of "[(''A'', [\<lparr>Position = 1, Value = 5 :: int\<rparr>, \<lparr>Position = 3, Value = 6\<rparr>])]" "0 :: int"]
  by (simp add: synced_wf_def)

text \<open>
  the export of a transformed metric contains the points of the metric it transforms, not the
  transformed ones: a moving average exports what its input series exports.
\<close>

theorem transformation_exports_input:
  "\<exists>xs :: (int, rat) SyncedSeries. valid_input xs \<and>
    sma_output (calculate xs (NewSMASeries 2)) \<noteq> xs \<and>
    Transformation_ForEachRecord 0 [''A''] (\<lambda>_. Some xs) = map (Pair ''A'') xs"
proof -
  let ?xs = "[\<lparr>Position = 1, Value = 4 :: rat\<rparr>, \<lparr>Position = 2, Value = 6\<rparr>] :: (int, rat) SyncedSeries"
  have v: "valid_input ?xs" by (simp add: valid_input_def synced_wf_def)
  have "sma_inv 2 ?xs 0 (NewSMASeries 2)"
    by (simp add: sma_inv_def NewSMASeries_def sma_upto_def end_key_def start_key_def)
  from calculate_inv [OF this v] have "sma_output (calculate ?xs (NewSMASeries 2)) = sma_upto 2 ?xs 2"
    by (simp add: sma_inv_def numeral_2_eq_2)
  also have "\<dots> \<noteq> ?xs" by (simp add: sma_upto_def sma_at_def window_def upt_rec)
  finally have "sma_output (calculate ?xs (NewSMASeries 2)) \<noteq> ?xs" .
  moreover have "series_records 0 ?xs = ?xs" using v by (intro series_records_all) (auto simp: valid_input_def)
  ultimately show ?thesis using v
    by (intro exI [of _ ?xs]) (simp add: Transformation_ForEachRecord_def)
qed

end
