(* ===== verification/Node_Lifecycle.thy ===== *)
theory Node_Lifecycle
  imports Go_Strings "HOL-Library.Char_ord"
begin

text \<open>
  The lifecycle of a client node: \<open>driver/node/node_state.go\<close>, \<open>node_actions.go\<close> and the state
  handling of \<open>opera.go\<close>. Actions run concurrently and share the node's state under a mutex, so an
  action is a program over three kinds of steps: a critical section of \<open>stateMutex\<close>, a call to the
  container whose response the surroundings decide, and the start of an exit watcher.
\<close>

section \<open>Data\<close>

datatype NodeState =
    Uninitialized | Initializing | Ready | Syncing | Running | Stopping | Killed | Healing

fun NodeState_String :: "NodeState \<Rightarrow> string" where
  "NodeState_String Uninitialized = ''uninitialized''"
| "NodeState_String Initializing = ''initializing''"
| "NodeState_String Ready = ''ready''"
| "NodeState_String Syncing = ''syncing''"
| "NodeState_String Running = ''running''"
| "NodeState_String Stopping = ''stopping''"
| "NodeState_String Killed = ''killed''"
| "NodeState_String Healing = ''healing''"

text \<open>
  The configuration the actions read. \<open>oc_MountDirEmpty\<close> is what \<open>isDirEmpty\<close> finds in the mounted
  data directory.
\<close>

record OperaNodeConfig =
  oc_Label :: string
  oc_ValidatorId :: "int option"
  oc_NumValidators :: int
  oc_RoundTripTime :: duration
  oc_MountDataDir :: "string option"
  oc_MountDirEmpty :: bool
  oc_ExtraArguments :: string
  oc_NetworkBootstrap :: bool
  oc_PubKey :: string

text \<open>
  The mutex-protected fields of \<open>OperaNode\<close>. A client process is identified by the number of the
  exec that started it, which is what the handle stands for.
\<close>

record OperaNode =
  on_state :: NodeState
  on_sonicd :: "nat option"
  on_clientGen :: u64
  on_clientExitWasUnexpected :: bool

datatype node_error =
    CannotTransition "NodeState list" NodeState NodeState
  | WrongState NodeState
  | ExecFailed
  | MalformedScan
  | NoScanResult
  | StillRunning int
  | NothingToStop
  | DidNotExit
  | NotSynced

datatype container_call =
    Mkdir
  | GenesisImport
  | WriteFile string string
  | SetLatency duration
  | ScanClients
  | SignalClients string
  | ExecBackground "string list"
  | HealDatabase
  | WaitExit nat
  | CheckRunning
  | ClientExited nat
  | ConnectivityCheck
  | GetNodeID
  | ContextErr
  | Delay

datatype response = Succeeds | Fails | Output string | Started nat

datatype prog =
    Return "node_error option"
  | Locked "OperaNode \<Rightarrow> OperaNode" "OperaNode \<Rightarrow> prog"
  | Call container_call "response \<Rightarrow> prog"
  | Go u64 nat prog

section \<open>Critical sections\<close>

definition set_state :: "NodeState \<Rightarrow> OperaNode \<Rightarrow> OperaNode" where
  "set_state s n = n\<lparr>on_state := s\<rparr>"

text \<open>\<open>transitionFromAny\<close>: the continuation gets the error, if any.\<close>

definition transitionFromAny :: "NodeState \<Rightarrow> NodeState list \<Rightarrow> (node_error option \<Rightarrow> prog) \<Rightarrow> prog" where
  "transitionFromAny to from k =
     Locked (\<lambda>n. if on_state n \<in> set from then set_state to n else n)
       (\<lambda>n. if on_state n \<in> set from then k None else k (Some (CannotTransition from to (on_state n))))"

definition transition :: "NodeState \<Rightarrow> NodeState \<Rightarrow> (node_error option \<Rightarrow> prog) \<Rightarrow> prog" where
  "transition from to k = transitionFromAny to [from] k"

definition forceSetState :: "NodeState \<Rightarrow> prog \<Rightarrow> prog" where
  "forceSetState s k = Locked (set_state s) (\<lambda>_. k)"

definition GetState :: "(NodeState \<Rightarrow> prog) \<Rightarrow> prog" where
  "GetState k = Locked id (\<lambda>n. k (on_state n))"

definition clientHandle :: "(nat option \<Rightarrow> prog) \<Rightarrow> prog" where
  "clientHandle k = Locked id (\<lambda>n. k (on_sonicd n))"

definition beginClientStart :: "(node_error + u64 \<Rightarrow> prog) \<Rightarrow> prog" where
  "beginClientStart k =
     Locked (\<lambda>n. if on_state n \<noteq> Ready then n
                else n\<lparr>on_state := Syncing, on_clientGen := on_clientGen n + 1,
                       on_clientExitWasUnexpected := False\<rparr>)
       (\<lambda>n. if on_state n \<noteq> Ready then k (Inl (CannotTransition [Ready] Syncing (on_state n)))
            else k (Inr (on_clientGen n + 1)))"

definition attachClient :: "u64 \<Rightarrow> nat \<Rightarrow> prog \<Rightarrow> prog" where
  "attachClient gen handle k =
     Locked (\<lambda>n. if on_clientGen n = gen then n\<lparr>on_sonicd := Some handle\<rparr> else n) (\<lambda>_. k)"

definition recordUnexpectedClientExit :: "u64 \<Rightarrow> OperaNode \<Rightarrow> OperaNode" where
  "recordUnexpectedClientExit gen n =
     (if on_clientGen n \<noteq> gen then n
      else if on_state n \<noteq> Syncing \<and> on_state n \<noteq> Running then n
      else n\<lparr>on_state := Killed, on_clientExitWasUnexpected := True\<rparr>)"

section \<open>Container calls\<close>

text \<open>A call that either succeeds or fails.\<close>

definition exec :: "container_call \<Rightarrow> (node_error option \<Rightarrow> prog) \<Rightarrow> prog" where
  "exec c k = Call c (\<lambda>r. case r of Fails \<Rightarrow> k (Some ExecFailed) | _ \<Rightarrow> k None)"

definition clientScanMarker :: string where
  "clientScanMarker = ''matched=''"

fun parseClientScanCount_lines :: "string list \<Rightarrow> node_error + int" where
  "parseClientScanCount_lines [] = Inl NoScanResult"
| "parseClientScanCount_lines (l # ls) =
     (let line = TrimSpace l in
      if \<not> HasPrefix line clientScanMarker then parseClientScanCount_lines ls
      else case Atoi (TrimPrefix line clientScanMarker) of
             None \<Rightarrow> Inl MalformedScan
           | Some v \<Rightarrow> Inr v)"

definition parseClientScanCount :: "string \<Rightarrow> node_error + int" where
  "parseClientScanCount output = parseClientScanCount_lines (str_split CHR 0x0A output)"

definition scanClientProcesses :: "container_call \<Rightarrow> (node_error + int \<Rightarrow> prog) \<Rightarrow> prog" where
  "scanClientProcesses action k =
     Call action (\<lambda>r. case r of Output s \<Rightarrow> k (parseClientScanCount s) | _ \<Rightarrow> k (Inl ExecFailed))"

definition requireNoClientRunning :: "(node_error option \<Rightarrow> prog) \<Rightarrow> prog" where
  "requireNoClientRunning k =
     scanClientProcesses ScanClients (\<lambda>r. case r of
         Inl err \<Rightarrow> k (Some err)
       | Inr running \<Rightarrow> if running > 0 then k (Some (StillRunning running)) else k None)"

definition waitForSonicdExit :: "(node_error option \<Rightarrow> prog) \<Rightarrow> prog" where
  "waitForSonicdExit k =
     clientHandle (\<lambda>h. case h of
         None \<Rightarrow> k None
       | Some e \<Rightarrow> Call (WaitExit e) (\<lambda>r. case r of Succeeds \<Rightarrow> k None | _ \<Rightarrow> k (Some DidNotExit)))"

section \<open>Actions\<close>

definition dataDir :: string where
  "dataDir = ''/datadir''"

definition configFilePath :: string where
  "configFilePath = dataDir @ ''/config.toml''"

definition passwordFilePath :: string where
  "passwordFilePath = dataDir @ ''/password.txt''"

text \<open>The deferred function of \<open>Initialize\<close> runs on every error after the claim.\<close>

definition Initialize :: "OperaNodeConfig \<Rightarrow> prog" where
  "Initialize c =
     transition Uninitialized Initializing (\<lambda>err. case err of
       Some e \<Rightarrow> Return (Some e)
     | None \<Rightarrow>
         let fail = (\<lambda>e. forceSetState Uninitialized (Return (Some e)));
             finish = transition Initializing Ready (\<lambda>err.
               case err of Some e \<Rightarrow> fail e | None \<Rightarrow> Return None);
             latency = oc_RoundTripTime c div 2;
             tc = (if latency > 0 then exec (SetLatency latency) (\<lambda>err.
                     case err of Some e \<Rightarrow> fail e | None \<Rightarrow> finish)
                   else finish);
             password = exec (WriteFile passwordFilePath (''password'' @ [CHR 0x0A])) (\<lambda>err.
               case err of Some e \<Rightarrow> fail e | None \<Rightarrow> tc)
         in if oc_MountDataDir c = None \<or> oc_MountDirEmpty c
            then exec Mkdir (\<lambda>err. case err of Some e \<Rightarrow> fail e | None \<Rightarrow>
                 exec GenesisImport (\<lambda>err. case err of Some e \<Rightarrow> fail e | None \<Rightarrow> password))
            else password)"

definition doublesignProtection :: duration where
  "doublesignProtection = 5000000000"

definition isLoneGenesisValidator :: "OperaNodeConfig \<Rightarrow> bool" where
  "isLoneGenesisValidator c \<longleftrightarrow> oc_NumValidators c = 1 \<and> oc_ValidatorId c = Some 1"

definition clientConfigToml :: "OperaNodeConfig \<Rightarrow> bool \<Rightarrow> string" where
  "clientConfigToml c bootstrap =
     (let protection = (if bootstrap \<and> isLoneGenesisValidator c then 0 else doublesignProtection)
      in ''[Emitter.EmitIntervals]'' @ [CHR 0x0A] @ ''DoublesignProtection = '' @ itoa (nat protection) @ [CHR 0x0A])"

definition sonicdArgs :: "string \<Rightarrow> string list" where
  "sonicdArgs externalIP =
     [''/sonicd'', ''--datadir='' @ dataDir,
      ''--http'', ''--http.addr'', ''0.0.0.0'', ''--http.port'', ''18545'',
      ''--http.api'', ''admin,dag,eth,sonic,txpool'',
      ''--ws'', ''--ws.addr'', ''0.0.0.0'', ''--ws.port'', ''18546'',
      ''--ws.api'', ''admin,dag,eth,sonic,txpool'',
      ''--pprof'', ''--pprof.addr'', ''0.0.0.0'', ''--nat'', ''extip:'' @ externalIP,
      ''--metrics'', ''--metrics.expensive'', ''--config'', configFilePath,
      ''--datadir.minfreedisk'', ''0'', ''--statedb.livecache'', ''256000000'']"

definition buildSonicdCmd :: "int option \<Rightarrow> string \<Rightarrow> string \<Rightarrow> string \<Rightarrow> string list" where
  "buildSonicdCmd validatorId pubKey externalIP extraArguments =
     sonicdArgs externalIP @
     (case validatorId of
        Some i \<Rightarrow> if i > 0
          then [''--validator.id'', itoa (nat i), ''--validator.pubkey'', pubKey,
                ''--validator.password'', passwordFilePath, ''--mode'', ''rpc'']
          else []
      | None \<Rightarrow> []) @
     (if extraArguments \<noteq> [] then Fields extraArguments else [])"

text \<open>\<open>ip\<close> is the address docker gave the container.\<close>

definition startSonicd :: "OperaNodeConfig \<Rightarrow> string \<Rightarrow> bool \<Rightarrow> prog" where
  "startSonicd c ip observer =
     beginClientStart (\<lambda>r. case r of Inl e \<Rightarrow> Return (Some e) | Inr gen \<Rightarrow>
     requireNoClientRunning (\<lambda>err. case err of Some e \<Rightarrow> forceSetState Ready (Return (Some e)) | None \<Rightarrow>
     clientHandle (\<lambda>h.
       let configToml = clientConfigToml c (oc_NetworkBootstrap c \<and> h = None)
       in exec (WriteFile configFilePath configToml) (\<lambda>err. case err of
            Some e \<Rightarrow> forceSetState Ready (Return (Some e))
          | None \<Rightarrow>
              let validatorId = (if observer then None else oc_ValidatorId c)
              in Call (ExecBackground (buildSonicdCmd validatorId (oc_PubKey c) ip (oc_ExtraArguments c)))
                   (\<lambda>r. case r of
                        Started handle \<Rightarrow> attachClient gen handle (Go gen handle (Return None))
                      | _ \<Rightarrow> forceSetState Ready (Return (Some ExecFailed)))))))"

definition StartSonicd :: "OperaNodeConfig \<Rightarrow> string \<Rightarrow> prog" where
  "StartSonicd c ip = startSonicd c ip False"

definition StartSonicdAsObserver :: "OperaNodeConfig \<Rightarrow> string \<Rightarrow> prog" where
  "StartSonicdAsObserver c ip = startSonicd c ip True"

text \<open>
  \<open>clientExitError\<close>: the first continuation is taken when the process has exited or was never
  started, the second one while it runs.
\<close>

definition clientExitError :: "prog \<Rightarrow> prog \<Rightarrow> prog" where
  "clientExitError exited alive =
     clientHandle (\<lambda>h. case h of
         None \<Rightarrow> exited
       | Some e \<Rightarrow> Call (ClientExited e) (\<lambda>r. case r of Succeeds \<Rightarrow> exited | _ \<Rightarrow> alive))"

text \<open>
  The retry loop of \<open>WaitForSync\<close> with \<open>k\<close> attempts left: a permanent error leaves it at once, any
  other failure waits and tries again, until the attempts or the time of the context are used up.
\<close>

fun sync_attempts :: "nat \<Rightarrow> prog" where
  "sync_attempts 0 = Return (Some NotSynced)"
| "sync_attempts (Suc k) =
     (let again = Call Delay (\<lambda>r. case r of Succeeds \<Rightarrow> sync_attempts k | _ \<Rightarrow> Return (Some NotSynced))
      in exec ContextErr (\<lambda>err. case err of Some _ \<Rightarrow> Return (Some NotSynced) | None \<Rightarrow>
         exec CheckRunning (\<lambda>err. case err of Some _ \<Rightarrow> Return (Some NotSynced) | None \<Rightarrow>
         clientExitError (Return (Some NotSynced))
           (exec ConnectivityCheck (\<lambda>err. case err of Some _ \<Rightarrow> again | None \<Rightarrow>
            exec GetNodeID (\<lambda>err. case err of Some _ \<Rightarrow> again | None \<Rightarrow>
              transition Syncing Running Return))))))"

definition DefaultRetryAttempts :: nat where
  "DefaultRetryAttempts = 180"

definition WaitForSync :: prog where
  "WaitForSync =
     GetState (\<lambda>s. if s \<noteq> Syncing then Return (Some (WrongState s)) else sync_attempts DefaultRetryAttempts)"

definition StopSonicd :: prog where
  "StopSonicd =
     transition Running Stopping (\<lambda>err. case err of Some e \<Rightarrow> Return (Some e) | None \<Rightarrow>
     scanClientProcesses (SignalClients ''INT'') (\<lambda>r. case r of
         Inl e \<Rightarrow> forceSetState Running (Return (Some e))
       | Inr signalled \<Rightarrow>
           if signalled = 0 then forceSetState Killed (Return (Some NothingToStop))
           else waitForSonicdExit (\<lambda>err. case err of
               Some e \<Rightarrow> Return (Some e)
             | None \<Rightarrow> transition Stopping Ready Return)))"

definition ForceStopSonicd :: prog where
  "ForceStopSonicd =
     transitionFromAny Killed [Running, Stopping] (\<lambda>err. case err of Some e \<Rightarrow> Return (Some e) | None \<Rightarrow>
     scanClientProcesses (SignalClients ''KILL'') (\<lambda>r. case r of
         Inl e \<Rightarrow> Return (Some e)
       | Inr _ \<Rightarrow> waitForSonicdExit Return))"

definition HealSonicd :: prog where
  "HealSonicd =
     transition Killed Healing (\<lambda>err. case err of Some e \<Rightarrow> Return (Some e) | None \<Rightarrow>
     requireNoClientRunning (\<lambda>err. case err of Some e \<Rightarrow> forceSetState Killed (Return (Some e)) | None \<Rightarrow>
     exec HealDatabase (\<lambda>err. case err of Some e \<Rightarrow> forceSetState Killed (Return (Some e)) | None \<Rightarrow>
     transition Healing Ready Return)))"

end
