(* ===== verification/Node_Semantics.thy ===== *)
theory Node_Semantics
  imports Node_Lifecycle
begin

text \<open>
  What the actions of \<open>Node_Lifecycle\<close> do: the container with the client processes in it, the
  background (processes that die, exit watchers that fire), the run of one action against them, and
  the interleaving of several actions.
\<close>

section \<open>The surroundings of a node\<close>

text \<open>
  \<open>w_alive\<close> are the client processes in the container, \<open>w_done\<close> the execs whose output stream has
  ended, which is when \<open>handle.Done\<close> is closed, and \<open>w_watch\<close> the exit watchers with the generation
  and the exec they belong to.
\<close>

record world =
  w_node :: OperaNode
  w_alive :: "nat list"
  w_done :: "nat list"
  w_watch :: "(u64 \<times> nat) list"

text \<open>The report of the scan script of \<open>clientScanScript\<close>.\<close>

definition scan_report :: "nat \<Rightarrow> string" where
  "scan_report n = clientScanMarker @ itoa n @ [CHR 0x0A]"

text \<open>
  How the container may respond. An exec may fail at any time, also after the process it was to
  start exists; a scan that succeeds reports the live client processes; waiting for an exit succeeds
  when the stream of the exec has ended.
\<close>

fun responds :: "world \<Rightarrow> container_call \<Rightarrow> response \<Rightarrow> world \<Rightarrow> bool" where
  "responds w ScanClients r w' \<longleftrightarrow> w' = w \<and> (r = Fails \<or> r = Output (scan_report (length (w_alive w))))"
| "responds w (SignalClients s) r w' \<longleftrightarrow>
     w' = w \<and> (r = Fails \<or> r = Output (scan_report (length (w_alive w))))"
| "responds w (ExecBackground cmd) r w' \<longleftrightarrow>
     (case r of
        Started e \<Rightarrow> w' = w\<lparr>w_alive := e # w_alive w\<rparr> \<and> e \<notin> set (w_alive w) \<union> set (w_done w)
      | Fails \<Rightarrow> w' = w \<or> w' = w\<lparr>w_alive := hd (w_alive w') # w_alive w\<rparr>
      | _ \<Rightarrow> False)"
| "responds w (WaitExit e) r w' \<longleftrightarrow> w' = w \<and> (r = Fails \<or> r = Succeeds \<and> e \<in> set (w_done w))"
| "responds w (ClientExited e) r w' \<longleftrightarrow> w' = w \<and> r = (if e \<in> set (w_done w) then Succeeds else Fails)"
| "responds w _ r w' \<longleftrightarrow> w' = w \<and> (r = Fails \<or> r = Succeeds)"

inductive background :: "world \<Rightarrow> world \<Rightarrow> bool" where
  dies: "background w (w\<lparr>w_alive := remove1 e (w_alive w)\<rparr>)"
| ends: "background w (w\<lparr>w_done := e # w_done w\<rparr>)"
| watch: "(gen, e) \<in> set (w_watch w) \<Longrightarrow> e \<in> set (w_done w) \<Longrightarrow>
    background w (w\<lparr>w_node := recordUnexpectedClientExit gen (w_node w)\<rparr>)"

section \<open>One action at a time\<close>

text \<open>
  The run of an action to its end, with the container calls it makes and the world each call is
  made in. The background may act before every step and at the end.
\<close>

inductive runs :: "world \<Rightarrow> prog \<Rightarrow> (container_call \<times> world) list \<Rightarrow> node_error option \<Rightarrow> world \<Rightarrow> bool" where
  return: "background\<^sup>*\<^sup>* w w' \<Longrightarrow> runs w (Return r) [] r w'"
| locked: "background\<^sup>*\<^sup>* w w1 \<Longrightarrow> runs (w1\<lparr>w_node := f (w_node w1)\<rparr>) (k (w_node w1)) tr r w' \<Longrightarrow>
    runs w (Locked f k) tr r w'"
| call: "background\<^sup>*\<^sup>* w w1 \<Longrightarrow> responds w1 c rsp w2 \<Longrightarrow> runs w2 (k rsp) tr r w' \<Longrightarrow>
    runs w (Call c k) ((c, w1) # tr) r w'"
| go: "runs (w\<lparr>w_watch := (gen, e) # w_watch w\<rparr>) k tr r w' \<Longrightarrow> runs w (Go gen e k) tr r w'"

inductive_simps runs_Return: "runs w (Return x) tr r w'"
inductive_simps runs_Locked: "runs w (Locked f k) tr r w'"
inductive_simps runs_Call: "runs w (Call c k) tr r w'"
inductive_simps runs_Go: "runs w (Go gen e k) tr r w'"

lemmas runs_simps = runs_Return runs_Locked runs_Call runs_Go

text \<open>What the background can do to a node: record the exit of a client that was not asked to stop.\<close>

definition crash :: "NodeState \<Rightarrow> NodeState set" where
  "crash s = (if s \<in> {Syncing, Running} then {s, Killed} else {s})"

lemma background_effect:
  "background\<^sup>*\<^sup>* w w' \<Longrightarrow> on_state (w_node w') \<in> crash (on_state (w_node w)) \<and>
     on_sonicd (w_node w') = on_sonicd (w_node w) \<and> on_clientGen (w_node w') = on_clientGen (w_node w) \<and>
     length (w_alive w') \<le> length (w_alive w) \<and> w_watch w' = w_watch w"
proof (induction rule: rtranclp_induct)
  case (step w1 w2)
  from step.hyps(2) show ?case
  proof cases
    case (dies e)
    with step.IH show ?thesis by (auto simp: length_remove1)
  next
    case (watch gen e)
    with step.IH show ?thesis
      by (auto simp: recordUnexpectedClientExit_def crash_def split: if_splits)
  qed (use step.IH in simp)
qed (simp add: crash_def)

lemma background_state:
  "background\<^sup>*\<^sup>* w w' \<Longrightarrow> on_state (w_node w') \<in> crash (on_state (w_node w))"
  using background_effect by blast

lemma background_alive: "background\<^sup>*\<^sup>* w w' \<Longrightarrow> w_alive w = [] \<Longrightarrow> w_alive w' = []"
  using background_effect by fastforce

lemma trim_report: "TrimSpace (clientScanMarker @ itoa n) = clientScanMarker @ itoa n"
proof -
  have digits: "list_all is_digit (itoa n)" "itoa n \<noteq> []" using itoa_digits by blast+
  have "\<not> is_space (last (itoa n))"
    using digits by (metis digit_not_sign last_in_set list_all_iff)
  then show ?thesis
    using digits(2) by (intro TrimSpace_id) (simp add: clientScanMarker_def is_space_def)
qed

lemma split_report: "str_split CHR 0x0A (scan_report n) = [clientScanMarker @ itoa n, []]"
proof -
  have "CHR 0x0A \<notin> set (itoa n)" using itoa_digits [of n] digit_not_sign by (auto simp: list_all_iff)
  moreover have "CHR 0x0A \<notin> set clientScanMarker" by (simp add: clientScanMarker_def)
  ultimately show ?thesis
    using split_append [of "CHR 0x0A" "clientScanMarker @ itoa n" "[]"]
    by (simp add: scan_report_def split_single)
qed

lemma scan_report_parse: "parseClientScanCount (scan_report n) = Inr v \<Longrightarrow> v = int n"
proof -
  assume "parseClientScanCount (scan_report n) = Inr v"
  then have "Atoi (itoa n) = Some v"
    by (simp add: parseClientScanCount_def split_report trim_report split: option.splits)
  moreover obtain c cs where eq: "itoa n = c # cs" using itoa_digits [of n] by (cases "itoa n") auto
  then have "is_digit c" using itoa_digits [of n] by simp
  ultimately show "v = int n"
    using parse_nat_itoa [of n] digit_not_sign [of c]
    by (auto simp: Atoi_def eq Let_def split: option.splits if_splits)
qed

text \<open>
  The documented lifecycle: the states an action may leave a node in, by the state it finds and
  whether it succeeds. Wherever a client is up, it may also die on its own.
\<close>

datatype action = AInitialize | AStart bool | AWaitForSync | AStop | AForceStop | AHeal

fun action_prog :: "OperaNodeConfig \<Rightarrow> string \<Rightarrow> action \<Rightarrow> prog" where
  "action_prog c ip AInitialize = Initialize c"
| "action_prog c ip (AStart observer) = startSonicd c ip observer"
| "action_prog c ip AWaitForSync = WaitForSync"
| "action_prog c ip AStop = StopSonicd"
| "action_prog c ip AForceStop = ForceStopSonicd"
| "action_prog c ip AHeal = HealSonicd"

fun claimed :: "action \<Rightarrow> NodeState \<Rightarrow> bool \<Rightarrow> NodeState set" where
  "claimed AInitialize Uninitialized ok = (if ok then {Ready} else {Uninitialized})"
| "claimed (AStart _) Ready ok = (if ok then {Syncing, Killed} else {Ready})"
| "claimed AWaitForSync Syncing ok = (if ok then {Running, Killed} else {Syncing, Killed})"
| "claimed AStop Running ok = (if ok then {Ready} else {Running, Stopping, Killed})"
| "claimed AForceStop Running ok = {Killed}"
| "claimed AForceStop Stopping ok = {Killed}"
| "claimed AHeal Killed ok = (if ok then {Ready} else {Killed})"
| "claimed _ s ok = (if ok then {} else crash s)"

definition lifecycle :: "action \<Rightarrow> NodeState \<Rightarrow> bool \<Rightarrow> NodeState set" where
  "lifecycle a s ok = (\<Union>s0 \<in> crash s. claimed a s0 ok)"

text \<open>The runs of an action from a state, by the steps of its program.\<close>

definition ensures :: "NodeState \<Rightarrow> prog \<Rightarrow> (bool \<Rightarrow> NodeState \<Rightarrow> bool) \<Rightarrow> bool" where
  "ensures s p Q \<longleftrightarrow> (\<forall>w tr r w'. on_state (w_node w) = s \<longrightarrow> runs w p tr r w' \<longrightarrow>
     Q (r = None) (on_state (w_node w')))"

lemma ensuresD:
  "ensures s p Q \<Longrightarrow> on_state (w_node w) = s \<Longrightarrow> runs w p tr r w' \<Longrightarrow> Q (r = None) (on_state (w_node w'))"
  unfolding ensures_def by blast

lemma responds_node: "responds w c r w' \<Longrightarrow> w_node w' = w_node w"
  by (cases c) (auto split: response.splits simp: world.splits, metis world.select_convs(1) world.surjective world.update_convs(2))

lemma ensures_Return: "\<forall>s' \<in> crash s. Q (r = None) s' \<Longrightarrow> ensures s (Return r) Q"
  using background_state by (fastforce simp: ensures_def runs_simps)

lemma ensures_Locked:
  assumes "\<And>n. on_state n \<in> crash s \<Longrightarrow> ensures (on_state (f n)) (k n) Q"
  shows "ensures s (Locked f k) Q"
  unfolding ensures_def
proof (intro allI impI)
  fix w tr r w'
  assume s: "on_state (w_node w) = s" and "runs w (Locked f k) tr r w'"
  then obtain w1 where bg: "background\<^sup>*\<^sup>* w w1"
    and run: "runs (w1\<lparr>w_node := f (w_node w1)\<rparr>) (k (w_node w1)) tr r w'"
    by (auto simp: runs_simps)
  have "ensures (on_state (f (w_node w1))) (k (w_node w1)) Q"
    using assms background_state [OF bg] s by simp
  then show "Q (r = None) (on_state (w_node w'))" using run by (auto dest: ensuresD [where w = "w1\<lparr>w_node := f (w_node w1)\<rparr>"])
qed

lemma ensures_Call:
  assumes "\<And>rsp s'. s' \<in> crash s \<Longrightarrow> ensures s' (k rsp) Q"
  shows "ensures s (Call c k) Q"
  unfolding ensures_def
proof (intro allI impI)
  fix w tr r w'
  assume s: "on_state (w_node w) = s" and "runs w (Call c k) tr r w'"
  then obtain w1 rsp w2 tr' where bg: "background\<^sup>*\<^sup>* w w1" and "responds w1 c rsp w2"
    and run: "runs w2 (k rsp) tr' r w'"
    by (auto simp: runs_simps)
  then have "on_state (w_node w2) \<in> crash s" using background_state [OF bg] s by (simp add: responds_node)
  then have "ensures (on_state (w_node w2)) (k rsp) Q" by (rule assms)
  then show "Q (r = None) (on_state (w_node w'))" using run by (rule ensuresD [OF _ refl])
qed

lemma ensures_Go:
  assumes "ensures s k Q"
  shows "ensures s (Go gen e k) Q"
  unfolding ensures_def runs_simps
proof (intro allI impI)
  fix w tr r w'
  assume "on_state (w_node w) = s" "runs (w\<lparr>w_watch := (gen, e) # w_watch w\<rparr>) k tr r w'"
  then show "Q (r = None) (on_state (w_node w'))" 
    using ensuresD [OF assms, of "w\<lparr>w_watch := (gen, e) # w_watch w\<rparr>"] by simp
qed

lemmas ensures_intros = ensures_Return ensures_Locked ensures_Call ensures_Go

lemma on_state_attach: "on_state (if P then n\<lparr>on_sonicd := h\<rparr> else n) = on_state n"
  by simp

lemmas step_defs = transition_def transitionFromAny_def forceSetState_def set_state_def GetState_def
  clientHandle_def beginClientStart_def attachClient_def exec_def scanClientProcesses_def
  requireNoClientRunning_def waitForSonicdExit_def clientExitError_def Let_def
  on_state_attach lifecycle_def

lemma ensures_StopSonicd: "ensures s StopSonicd (\<lambda>ok s'. s' \<in> lifecycle AStop s ok)"
  by (cases s)
     (auto simp: StopSonicd_def step_defs crash_def intro!: ensures_intros
       split: response.split option.split sum.split)

lemma ensures_ForceStopSonicd: "ensures s ForceStopSonicd (\<lambda>ok s'. s' \<in> lifecycle AForceStop s ok)"
  by (cases s)
     (auto simp: ForceStopSonicd_def step_defs crash_def intro!: ensures_intros
       split: response.split option.split sum.split)

lemma ensures_HealSonicd: "ensures s HealSonicd (\<lambda>ok s'. s' \<in> lifecycle AHeal s ok)"
  by (cases s)
     (auto simp: HealSonicd_def step_defs crash_def intro!: ensures_intros
       split: response.split option.split sum.split)


text \<open>The same for a set of states that crashes do not leave.\<close>

definition within :: "NodeState set \<Rightarrow> prog \<Rightarrow> (bool \<Rightarrow> NodeState \<Rightarrow> bool) \<Rightarrow> bool" where
  "within S p Q \<longleftrightarrow> (\<forall>s \<in> S. ensures s p Q)"

definition closed :: "NodeState set \<Rightarrow> bool" where
  "closed S \<longleftrightarrow> (\<Union>s \<in> S. crash s) \<subseteq> S"

lemma within_Return: "closed S \<Longrightarrow> \<forall>s \<in> S. Q (r = None) s \<Longrightarrow> within S (Return r) Q"
  unfolding within_def closed_def by (blast intro: ensures_Return)

lemma within_Locked: "closed S \<Longrightarrow> (\<And>n. on_state n \<in> S \<Longrightarrow> ensures (on_state (f n)) (k n) Q) \<Longrightarrow> within S (Locked f k) Q"
  unfolding within_def closed_def by (blast intro: ensures_Locked)

lemma within_Call: "closed S \<Longrightarrow> (\<And>r. within S (k r) Q) \<Longrightarrow> within S (Call c k) Q"
  unfolding within_def closed_def by (blast intro: ensures_Call)

lemma within_Go: "within S k Q \<Longrightarrow> within S (Go gen e k) Q"
  unfolding within_def by (blast intro: ensures_Go)

lemma within_exec:
  "closed S \<Longrightarrow> within S (k None) Q \<Longrightarrow> within S (k (Some ExecFailed)) Q \<Longrightarrow> within S (exec c k) Q"
  unfolding exec_def by (auto intro: within_Call split: response.split)

lemma within_scan: "closed S \<Longrightarrow> (\<And>r. within S (k r) Q) \<Longrightarrow> within S (scanClientProcesses c k) Q"
  unfolding scanClientProcesses_def by (auto intro: within_Call split: response.split)

lemma within_require: "closed S \<Longrightarrow> (\<And>r. within S (k r) Q) \<Longrightarrow> within S (requireNoClientRunning k) Q"
  unfolding requireNoClientRunning_def by (auto intro!: within_scan split: sum.split)

lemma within_handle: "closed S \<Longrightarrow> (\<And>h. within S (k h) Q) \<Longrightarrow> within S (clientHandle k) Q"
  unfolding clientHandle_def by (rule within_Locked) (auto simp: within_def)

lemma within_attach: "closed S \<Longrightarrow> within S k Q \<Longrightarrow> within S (attachClient gen e k) Q"
  unfolding attachClient_def by (rule within_Locked) (auto simp: within_def)

lemma within_force: "closed S \<Longrightarrow> ensures t k Q \<Longrightarrow> within S (forceSetState t k) Q"
  unfolding forceSetState_def by (rule within_Locked) (simp_all add: set_state_def)

lemma within_clientExitError:
  "closed S \<Longrightarrow> within S p Q \<Longrightarrow> within S q Q \<Longrightarrow> within S (clientExitError p q) Q"
  unfolding clientExitError_def by (auto intro!: within_handle within_Call split: option.split response.split)

lemma within_if: "within S p Q \<Longrightarrow> within S q Q \<Longrightarrow> within S (if b then p else q) Q"
  by simp

lemma ensures_claim:
  "crash s \<subseteq> set from \<Longrightarrow> within {to} (k None) Q \<Longrightarrow> ensures s (transitionFromAny to from k) Q"
  unfolding transitionFromAny_def by (rule ensures_Locked) (auto simp: within_def set_state_def)

lemma lifecycle_claim:
  "lifecycle AInitialize Uninitialized ok = (if ok then {Ready} else {Uninitialized})"
  "lifecycle (AStart obs) Ready ok = (if ok then {Syncing, Killed} else {Ready})"
  "lifecycle AWaitForSync Syncing ok = (if ok then {Running, Killed} else {Syncing, Killed})"
  by (cases ok; auto simp: lifecycle_def crash_def)+

lemma ensures_Initialize: "ensures s (Initialize c) (\<lambda>ok s'. s' \<in> lifecycle AInitialize s ok)"
proof (cases "s = Uninitialized")
  case True
  let ?Q = "\<lambda>ok s'. s' \<in> (if ok then {Ready} else {Uninitialized})"
  have cl: "closed {Initializing}" by (simp add: closed_def crash_def)
  have fail: "within {Initializing} (forceSetState Uninitialized (Return (Some e))) ?Q" for e
    by (rule within_force [OF cl]) (auto simp: crash_def intro!: ensures_Return)
  have fin: "within {Initializing} (transition Initializing Ready (\<lambda>err.
      case err of Some e \<Rightarrow> forceSetState Uninitialized (Return (Some e)) | None \<Rightarrow> Return None)) ?Q"
    unfolding transition_def transitionFromAny_def
    by (rule within_Locked [OF cl]) (auto simp: set_state_def crash_def intro!: ensures_Return)
  have "ensures Uninitialized (Initialize c) ?Q"
    unfolding Initialize_def transition_def [of Uninitialized]
    by (rule ensures_claim, simp add: crash_def, simp only: option.case Let_def)
       (rule within_if within_exec cl fail fin | simp only: option.case)+
  with True show ?thesis by (simp add: lifecycle_claim)
next
  case False
  then show ?thesis
    by (cases s)
       (auto simp: Initialize_def transition_def [of Uninitialized] transitionFromAny_def crash_def lifecycle_def intro!: ensures_intros)
qed

lemma ensures_startSonicd:
  "ensures s (startSonicd c ip obs) (\<lambda>ok s'. s' \<in> lifecycle (AStart obs) s ok)"
proof (cases "s = Ready")
  case True
  let ?S = "{Syncing, Killed}" and ?Q = "\<lambda>ok s'. s' \<in> (if ok then {Syncing, Killed} else {Ready})"
  have cl: "closed ?S" by (simp add: closed_def crash_def)
  have fail: "within ?S (forceSetState Ready (Return (Some e))) ?Q" for e
    by (rule within_force [OF cl]) (auto simp: crash_def intro!: ensures_Return)
  have fin: "within ?S (Return None) ?Q" by (rule within_Return [OF cl]) simp
  let ?body = "\<lambda>gen. requireNoClientRunning (\<lambda>err. case err of Some e \<Rightarrow> forceSetState Ready (Return (Some e)) | None \<Rightarrow>
     clientHandle (\<lambda>h. exec (WriteFile configFilePath (clientConfigToml c (oc_NetworkBootstrap c \<and> h = None))) (\<lambda>err.
       case err of Some e \<Rightarrow> forceSetState Ready (Return (Some e)) | None \<Rightarrow>
         Call (ExecBackground (buildSonicdCmd (if obs then None else oc_ValidatorId c) (oc_PubKey c) ip (oc_ExtraArguments c)))
           (\<lambda>r. case r of Started handle \<Rightarrow> attachClient gen handle (Go gen handle (Return None))
                | _ \<Rightarrow> forceSetState Ready (Return (Some ExecFailed))))))"
  have "within ?S (?body gen) ?Q" for gen
    by (auto intro!: within_require within_handle within_exec within_Call within_attach within_Go cl fail fin
      split: option.split response.split)
  then have "ensures Syncing (?body gen) ?Q" for gen by (simp add: within_def)
  then have "ensures Ready (startSonicd c ip obs) ?Q"
    unfolding startSonicd_def beginClientStart_def Let_def
    by (intro ensures_Locked) (simp add: crash_def)
  with True show ?thesis by (simp add: lifecycle_claim)
next
  case False
  then show ?thesis
    by (cases s) (auto simp: startSonicd_def beginClientStart_def crash_def lifecycle_def intro!: ensures_intros)
qed

lemma ensures_sync_attempts:
  "within {Syncing, Killed} (sync_attempts k)
     (\<lambda>ok s'. s' \<in> (if ok then {Running, Killed} else {Syncing, Killed}))"
  (is "within ?S _ ?Q")
proof (induction k)
  case 0
  then show ?case by (auto simp: within_def crash_def intro!: ensures_intros)
next
  case (Suc k)
  have cr: "closed ?S" by (auto simp: closed_def crash_def)
  have fail: "within ?S (Return (Some NotSynced)) ?Q" by (auto simp: within_def crash_def intro!: ensures_intros)
  have fin: "within ?S (transition Syncing Running Return) ?Q"
    by (auto simp: within_def transition_def transitionFromAny_def set_state_def crash_def intro!: ensures_intros)
  have again: "within ?S (Call Delay (\<lambda>r. case r of Succeeds \<Rightarrow> sync_attempts k | _ \<Rightarrow> Return (Some NotSynced))) ?Q"
    using Suc fail cr by (auto intro!: within_Call split: response.split)
  show ?case
    by (simp only: sync_attempts.simps Let_def)
       (rule within_exec within_clientExitError cr fail fin again | assumption | simp only: option.case)+
qed

lemma ensures_WaitForSync: "ensures s WaitForSync (\<lambda>ok s'. s' \<in> lifecycle AWaitForSync s ok)"
proof (cases "s = Syncing")
  case True
  then show ?thesis
    using ensures_sync_attempts [of DefaultRetryAttempts] True
    by (auto simp: WaitForSync_def GetState_def crash_def within_def lifecycle_claim intro!: ensures_intros)
next
  case False
  then show ?thesis
    by (cases s) (auto simp: WaitForSync_def GetState_def crash_def lifecycle_def intro!: ensures_intros)
qed


lemma action_lifecycle: "ensures s (action_prog c ip a) (\<lambda>ok s'. s' \<in> lifecycle a s ok)"
  by (cases a)
     (simp_all add: ensures_Initialize ensures_startSonicd ensures_WaitForSync ensures_StopSonicd
       ensures_ForceStopSonicd ensures_HealSonicd)

section \<open>The data directory\<close>

text \<open>
  The calls that write the data directory are made only while no client process is alive. The
  predicate follows a program with what is known about the live processes.
\<close>

definition writes :: "container_call \<Rightarrow> bool" where
  "writes c \<longleftrightarrow> c = HealDatabase \<or> (\<exists>cmd. c = ExecBackground cmd)"

primrec guarded :: "bool \<Rightarrow> prog \<Rightarrow> bool" where
  "guarded idle (Return r) = True"
| "guarded idle (Locked f k) = (\<forall>n. guarded idle (k n))"
| "guarded idle (Call c k) = ((writes c \<longrightarrow> idle) \<and>
     (\<forall>r. guarded (\<not> writes c \<and> (idle \<or> c = ScanClients \<and> (\<exists>out. r = Output out \<and> (\<exists>v \<le> 0. parseClientScanCount out = Inr v)))) (k r)))"
| "guarded idle (Go gen e k) = guarded idle k"


lemma responds_idle:
  assumes "responds w c r w'" "w_alive w = []" "\<not> writes c"
  shows "w_alive w' = []"
  using assms by (cases c) (auto simp: writes_def)

lemma responds_scan:
  assumes "responds w ScanClients (Output out) w'" "parseClientScanCount out = Inr v" "v \<le> 0"
  shows "w_alive w' = []"
  using assms by (auto dest!: scan_report_parse)

lemma guarded_sound:
  "runs w p tr r w' \<Longrightarrow> guarded idle p \<Longrightarrow> (idle \<longrightarrow> w_alive w = []) \<Longrightarrow>
     (c, v) \<in> set tr \<Longrightarrow> writes c \<Longrightarrow> w_alive v = []"
proof (induction arbitrary: idle rule: runs.induct)
  case (locked w w1 f k tr r w')
  then show ?case by (auto dest!: background_alive)
next
  case (call w w1 c' rsp w2 k tr r w')
  let ?idle = "\<not> writes c' \<and> (idle \<or> c' = ScanClients \<and> (\<exists>out. rsp = Output out \<and> (\<exists>v \<le> 0. parseClientScanCount out = Inr v)))"
  have w1: "idle \<longrightarrow> w_alive w1 = []" using call.prems(2) background_alive [OF call.hyps(1)] by blast
  have "?idle \<longrightarrow> w_alive w2 = []" using responds_idle [OF call.hyps(2)] responds_scan w1 call.hyps(2) by blast
  moreover have "guarded ?idle (k rsp)" and here: "writes c' \<longrightarrow> idle" using call.prems(1) by simp_all
  ultimately have "(c, v) \<in> set tr \<Longrightarrow> w_alive v = []" using call.IH call.prems(4) by blast
  then show ?case using call.prems(3,4) here w1 by auto
next
  case (go w gen e k tr r w')
  then show ?case by auto
qed simp

lemma guarded_sync: "guarded False (sync_attempts k)"
proof (induction k)
  case (Suc k)
  then show ?case
    by (simp add: exec_def clientExitError_def clientHandle_def transition_def transitionFromAny_def
      writes_def Let_def split: response.split option.split)
qed simp

lemma action_guarded: "guarded False (action_prog c ip a)"
proof (cases a)
  case AInitialize
  then show ?thesis
    by (simp add: Initialize_def exec_def transition_def transitionFromAny_def forceSetState_def
      writes_def Let_def split: response.split option.split)
next
  case (AStart obs)
  then show ?thesis
    by (auto simp: startSonicd_def beginClientStart_def requireNoClientRunning_def scanClientProcesses_def
      clientHandle_def exec_def forceSetState_def attachClient_def writes_def Let_def
      split: response.split option.split sum.split)
next
  case AWaitForSync
  then show ?thesis using guarded_sync by (simp add: WaitForSync_def GetState_def)
next
  case AStop
  then show ?thesis
    by (auto simp: StopSonicd_def transition_def transitionFromAny_def scanClientProcesses_def forceSetState_def
      waitForSonicdExit_def clientHandle_def writes_def split: response.split option.split sum.split)
next
  case AForceStop
  then show ?thesis
    by (auto simp: ForceStopSonicd_def transitionFromAny_def scanClientProcesses_def
      waitForSonicdExit_def clientHandle_def writes_def split: response.split option.split sum.split)
next
  case AHeal
  then show ?thesis
    by (auto simp: HealSonicd_def transition_def transitionFromAny_def requireNoClientRunning_def
      scanClientProcesses_def exec_def forceSetState_def writes_def split: response.split option.split sum.split)
qed


section \<open>Several actions at once\<close>

text \<open>
  Concurrent callers: a step of one of the running actions, or of the background. A finished action
  stays in the list with its result.
\<close>

inductive interleaved :: "world \<times> prog list \<Rightarrow> world \<times> prog list \<Rightarrow> bool" where
  locked: "i < length ps \<Longrightarrow> ps ! i = Locked f k \<Longrightarrow>
    interleaved (w, ps) (w\<lparr>w_node := f (w_node w)\<rparr>, ps[i := k (w_node w)])"
| call: "i < length ps \<Longrightarrow> ps ! i = Call c k \<Longrightarrow> responds w c r w' \<Longrightarrow> interleaved (w, ps) (w', ps[i := k r])"
| go: "i < length ps \<Longrightarrow> ps ! i = Go gen e k \<Longrightarrow>
    interleaved (w, ps) (w\<lparr>w_watch := (gen, e) # w_watch w\<rparr>, ps[i := k])"
| behind: "background w w' \<Longrightarrow> interleaved (w, ps) (w', ps)"

text \<open>
  What every critical section of every action keeps, whatever else runs. A transitional state is
  entered only from the state its action claims it from, a new client generation only from Ready
  and together with Syncing, and Running only from Syncing or as the rollback of a failed stop.
\<close>

definition edge_ok :: "OperaNode \<Rightarrow> OperaNode \<Rightarrow> bool" where
  "edge_ok n n' \<longleftrightarrow>
     (on_state n' = on_state n \<or>
      (case on_state n' of
         Initializing \<Rightarrow> on_state n = Uninitialized
       | Syncing \<Rightarrow> on_state n = Ready \<and> on_clientGen n' = on_clientGen n + 1
       | Stopping \<Rightarrow> on_state n = Running
       | Healing \<Rightarrow> on_state n = Killed
       | _ \<Rightarrow> True)) \<and>
     (on_clientGen n' = on_clientGen n \<or>
      on_clientGen n' = on_clientGen n + 1 \<and> on_state n = Ready \<and> on_state n' = Syncing)"

primrec edges_ok :: "prog \<Rightarrow> bool" where
  "edges_ok (Return r) = True"
| "edges_ok (Locked f k) = (\<forall>n. edge_ok n (f n) \<and> edges_ok (k n))"
| "edges_ok (Call c k) = (\<forall>r. edges_ok (k r))"
| "edges_ok (Go gen e k) = edges_ok k"

lemma edges_sync: "edges_ok (sync_attempts k)"
proof (induction k)
  case (Suc k)
  then show ?case
    by (simp add: exec_def clientExitError_def clientHandle_def transition_def transitionFromAny_def
      set_state_def edge_ok_def Let_def split: response.split option.split)
qed simp

lemmas edge_defs = transition_def transitionFromAny_def forceSetState_def set_state_def GetState_def
  clientHandle_def beginClientStart_def attachClient_def exec_def scanClientProcesses_def
  requireNoClientRunning_def waitForSonicdExit_def edge_ok_def Let_def

lemma action_edges: "edges_ok (action_prog c ip a)"
  by (cases a)
     (auto simp: Initialize_def startSonicd_def WaitForSync_def StopSonicd_def ForceStopSonicd_def
       HealSonicd_def edges_sync edge_defs split: response.split option.split sum.split)

lemma edge_record: "edge_ok n (recordUnexpectedClientExit gen n)"
  by (cases "on_clientGen n = gen \<and> (on_state n = Syncing \<or> on_state n = Running)")
     (auto simp: edge_ok_def recordUnexpectedClientExit_def)

lemma background_edge: "background w w' \<Longrightarrow> edge_ok (w_node w) (w_node w')"
  by (cases rule: background.cases) (auto simp: edge_record, simp_all add: edge_ok_def)

lemma interleaved_edge:
  "interleaved (w, ps) (w', ps') \<Longrightarrow> list_all edges_ok ps \<Longrightarrow>
     edge_ok (w_node w) (w_node w') \<and> list_all edges_ok ps'"
proof (induction "(w, ps)" "(w', ps')" rule: interleaved.induct)
  case (locked i f k)
  then have "edges_ok (Locked f k)" by (metis list_all_length)
  then show ?case using locked by (auto simp: list_all_length nth_list_update)
next
  case (call i c k r)
  then have "edges_ok (Call c k)" by (metis list_all_length)
  then show ?case using call by (auto simp: list_all_length nth_list_update responds_node edge_ok_def)
next
  case (go i gen e k)
  then have "edges_ok (Go gen e k)" by (metis list_all_length)
  then show ?case using go by (auto simp: list_all_length nth_list_update edge_ok_def)
next
  case behind
  then show ?case using background_edge by simp
qed

lemma interleaved_edges:
  "interleaved\<^sup>*\<^sup>* x y \<Longrightarrow> list_all edges_ok (snd x) \<Longrightarrow> list_all edges_ok (snd y)"
proof (induction rule: rtranclp_induct)
  case (step y z)
  then show ?case using interleaved_edge [of "fst y" "snd y" "fst z" "snd z"] by simp
qed

end
