(* ===== verification/Node_Properties.thy ===== *)
theory Node_Properties
  imports Node_Semantics
begin

text \<open>
  What the node lifecycle promises, and where concurrent callers can leave it.
\<close>

section \<open>Concrete nodes\<close>

definition ex_node :: "NodeState \<Rightarrow> OperaNode" where
  "ex_node s = \<lparr>on_state = s, on_sonicd = Some 1, on_clientGen = 1, on_clientExitWasUnexpected = False\<rparr>"

definition ex_world :: "NodeState \<Rightarrow> nat list \<Rightarrow> world" where
  "ex_world s alive = \<lparr>w_node = ex_node s, w_alive = alive, w_done = [], w_watch = []\<rparr>"

definition ex_config :: OperaNodeConfig where
  "ex_config = \<lparr>oc_Label = ''A'', oc_ValidatorId = Some 1, oc_NumValidators = 1, oc_RoundTripTime = 0,
     oc_MountDataDir = None, oc_MountDirEmpty = True, oc_ExtraArguments = [], oc_NetworkBootstrap = True,
     oc_PubKey = ''key''\<rparr>"

section \<open>The process scan\<close>

text \<open>
  the count the scan script reports is read back, whatever other lines the shell printed before
  it, as long as none of them looks like a report.
\<close>

theorem scan_count_roundtrip:
  assumes "n < 2 ^ 63" "list_all (\<lambda>l. CHR 0x0A \<notin> set l \<and> \<not> HasPrefix (TrimSpace l) clientScanMarker) ls"
  shows "parseClientScanCount (concat (map (\<lambda>l. l @ [CHR 0x0A]) ls) @ scan_report n) = Inr (int n)"
proof -
  have "str_split CHR 0x0A (concat (map (\<lambda>l. l @ [CHR 0x0A]) ls) @ scan_report n) =
      ls @ [clientScanMarker @ itoa n, []]"
    using assms(2) by (induction ls) (auto simp: split_report split_append split_single)
  moreover have "parseClientScanCount_lines (ls @ [clientScanMarker @ itoa n, []]) = Inr (int n)"
    using assms by (induction ls) (auto simp: trim_report Atoi_itoa)
  ultimately show ?thesis by (simp add: parseClientScanCount_def)
qed

theorem scan_count_roundtrip_witness:
  "parseClientScanCount (concat (map (\<lambda>l. l @ [CHR 0x0A]) [''sh: warning'']) @ scan_report 2) = Inr 2"
  using scan_count_roundtrip [of 2 "[''sh: warning'']"]
  by (simp add: TrimSpace_def is_space_def HasPrefix_def clientScanMarker_def)

section \<open>One action at a time\<close>


lemma ex_set_state: "(ex_world s al)\<lparr>w_node := set_state s' (ex_node s)\<rparr> = ex_world s' al"
  "w_node (ex_world s al) = ex_node s" "on_state (ex_node s) = s" "w_alive (ex_world s al) = al"
  by (simp_all add: ex_world_def ex_node_def set_state_def)

lemma ex_heal:
  "runs (ex_world Killed []) HealSonicd
     [(ScanClients, ex_world Healing []), (HealDatabase, ex_world Healing [])] None (ex_world Ready [])"
proof -
  let ?h = "ex_world Healing []"
  have "runs ?h (transition Healing Ready Return) [] None (ex_world Ready [])"
    unfolding transition_def transitionFromAny_def
    by (rule runs.locked [OF rtranclp.rtrancl_refl]) (auto simp: ex_set_state intro: runs.return)
  then have "runs ?h (exec HealDatabase (\<lambda>err. case err of Some e \<Rightarrow> forceSetState Killed (Return (Some e))
      | None \<Rightarrow> transition Healing Ready Return)) [(HealDatabase, ?h)] None (ex_world Ready [])"
    unfolding exec_def by (intro runs.call [OF rtranclp.rtrancl_refl, of _ _ Succeeds]) auto
  moreover have "parseClientScanCount (scan_report 0) = Inr 0"
    by (simp add: parseClientScanCount_def split_report trim_report Atoi_itoa)
  ultimately have "runs ?h (requireNoClientRunning (\<lambda>err. case err of
      Some e \<Rightarrow> forceSetState Killed (Return (Some e))
    | None \<Rightarrow> exec HealDatabase (\<lambda>err. case err of Some e \<Rightarrow> forceSetState Killed (Return (Some e))
        | None \<Rightarrow> transition Healing Ready Return)))
      [(ScanClients, ?h), (HealDatabase, ?h)] None (ex_world Ready [])"
    unfolding requireNoClientRunning_def scanClientProcesses_def
    by (intro runs.call [OF rtranclp.rtrancl_refl, of _ _ "Output (scan_report 0)"]) (auto simp: ex_set_state)
  then show ?thesis
    unfolding HealSonicd_def transition_def [of Killed] transitionFromAny_def
    by (intro runs.locked [OF rtranclp.rtrancl_refl]) (simp add: ex_set_state)
qed


text \<open>
  C3: a client is started and the database is healed only while no client process is alive in the
  container, whatever the recorded state says and however the processes came to be there.
\<close>

theorem data_directory_exclusive:
  "runs w (action_prog c ip a) tr r w' \<Longrightarrow> (call, v) \<in> set tr \<Longrightarrow>
     call = HealDatabase \<or> (\<exists>cmd. call = ExecBackground cmd) \<Longrightarrow> w_alive v = []"
  using guarded_sound [OF _ action_guarded] by (auto simp: writes_def)

theorem data_directory_exclusive_witness:
  "w_alive (ex_world Healing []) = []"
  using data_directory_exclusive [of "ex_world Killed []" ex_config "''ip''" AHeal
      "[(ScanClients, ex_world Healing []), (HealDatabase, ex_world Healing [])]" None "ex_world Ready []"
      HealDatabase "ex_world Healing []"] ex_heal by simp

section \<open>Several actions at once\<close>

text \<open>
  under any interleaving of any actions with the background, a transitional state is entered only
  from the state its action claims it from, and the client generation grows by one exactly when a
  start claims a ready node, so that watchers of earlier clients stay retired.
\<close>

theorem concurrent_claims:
  assumes "interleaved\<^sup>*\<^sup>* (w0, map (action_prog c ip) as) (w, ps)" "interleaved (w, ps) (w', ps')"
  shows "edge_ok (w_node w) (w_node w')"
proof -
  have "list_all edges_ok ps"
    using interleaved_edges [OF assms(1)] by (simp add: list_all_iff action_edges)
  with assms(2) show ?thesis using interleaved_edge by blast
qed

theorem concurrent_claims_witness:
  "edge_ok (ex_node Killed) (set_state Healing (ex_node Killed))"
proof -
  have "interleaved (ex_world Killed [], map (action_prog ex_config ''ip'') [AHeal])
      ((ex_world Killed [])\<lparr>w_node := set_state Healing (ex_node Killed)\<rparr>,
       [requireNoClientRunning (\<lambda>err. case err of
            Some e \<Rightarrow> forceSetState Killed (Return (Some e))
          | None \<Rightarrow> exec HealDatabase (\<lambda>err. case err of Some e \<Rightarrow> forceSetState Killed (Return (Some e))
              | None \<Rightarrow> transition Healing Ready Return))])"
    using interleaved.locked [of 0 "[HealSonicd]" _ _ "ex_world Killed []"]
    by (simp add: HealSonicd_def transition_def [of Killed] transitionFromAny_def ex_set_state)
  from concurrent_claims [OF rtranclp.rtrancl_refl this] show ?thesis by (simp add: ex_world_def)
qed

text \<open>
  a forced stop is accepted while a graceful stop is in flight, and when the graceful stop then
  fails to signal the client it puts the node back to Running: the node is claimed to be up after
  it was killed, although only a heal may leave Killed.
\<close>

definition ex_stopping :: prog where
  "ex_stopping = scanClientProcesses (SignalClients ''INT'') (\<lambda>r. case r of
         Inl e \<Rightarrow> forceSetState Running (Return (Some e))
       | Inr signalled \<Rightarrow>
           if signalled = 0 then forceSetState Killed (Return (Some NothingToStop))
           else waitForSonicdExit (\<lambda>err. case err of
               Some e \<Rightarrow> Return (Some e)
             | None \<Rightarrow> transition Stopping Ready Return))"

theorem killed_node_reported_running:
  "\<exists>w1 ps1 w2 ps2.
     interleaved\<^sup>*\<^sup>* (ex_world Running [1], [StopSonicd, ForceStopSonicd]) (w1, ps1) \<and>
     on_state (w_node w1) = Killed \<and>
     interleaved\<^sup>*\<^sup>* (w1, ps1) (w2, ps2) \<and>
     on_state (w_node w2) = Running \<and> w_alive w2 = []"
proof -
  let ?kill = "scanClientProcesses (SignalClients ''KILL'') (\<lambda>r. case r of
         Inl e \<Rightarrow> Return (Some e) | Inr _ \<Rightarrow> waitForSonicdExit Return)"
  let ?k = "ex_world Killed [1]" and ?d = "ex_world Killed []"
  have "interleaved (ex_world Running [1], [StopSonicd, ForceStopSonicd])
      (ex_world Stopping [1], [ex_stopping, ForceStopSonicd])"
    using interleaved.locked [of 0 "[StopSonicd, ForceStopSonicd]" _ _ "ex_world Running [1]"]
    by (simp add: StopSonicd_def transition_def [of Running] transitionFromAny_def ex_set_state ex_stopping_def)
  moreover have "interleaved (ex_world Stopping [1], [ex_stopping, ForceStopSonicd]) (?k, [ex_stopping, ?kill])"
    using interleaved.locked [of 1 "[ex_stopping, ForceStopSonicd]" _ _ "ex_world Stopping [1]"]
    by (simp add: ForceStopSonicd_def transitionFromAny_def ex_set_state)
  moreover have "interleaved (?k, [ex_stopping, ?kill]) (?d, [ex_stopping, ?kill])"
    using interleaved.behind [OF background.dies [of ?k 1], of "[ex_stopping, ?kill]"]
    by (simp add: ex_world_def)
  moreover obtain k where "ex_stopping = Call (SignalClients ''INT'') k"
    and "k Fails = forceSetState Running (Return (Some ExecFailed))"
    by (simp add: ex_stopping_def scanClientProcesses_def)
  then have "interleaved (?d, [ex_stopping, ?kill]) (?d, [forceSetState Running (Return (Some ExecFailed)), ?kill])"
    using interleaved.call [of 0 "[ex_stopping, ?kill]" "SignalClients ''INT''" k ?d Fails ?d] by simp
  moreover have "interleaved (?d, [forceSetState Running (Return (Some ExecFailed)), ?kill])
      (ex_world Running [], [Return (Some ExecFailed), ?kill])"
    using interleaved.locked [of 0 "[forceSetState Running (Return (Some ExecFailed)), ?kill]" _ _ ?d]
    by (simp add: forceSetState_def ex_set_state)
  ultimately show ?thesis
    by (intro exI [of _ ?k] exI [of _ "[ex_stopping, ?kill]"] exI [of _ "ex_world Running []"]
        exI [of _ "[Return (Some ExecFailed), ?kill]"])
       (auto simp: ex_set_state intro: converse_rtranclp_into_rtranclp r_into_rtranclp)
qed

end
