(* ===== verification/Go_Duration.thy ===== *)
theory Go_Duration
  imports Go_Strings Complex_Main
begin

text \<open>
  \<open>time.ParseDuration\<close> of Go's standard library, with its overflow checks. The fraction of a number is
  computed exactly instead of with floats.
\<close>

datatype duration_error = InvalidDuration | MissingUnit | UnknownUnit | DurationOverflow

definition unit_ns :: "string \<Rightarrow> nat option" where
  "unit_ns u =
     (if u = ''ns'' then Some 1
      else if u = ''us'' \<or> u = [CHR 0xC2, CHR 0xB5, CHR ''s''] \<or> u = [CHR 0xCE, CHR 0xBC, CHR ''s''] then Some 1000
      else if u = ''ms'' then Some 1000000
      else if u = ''s'' then Some 1000000000
      else if u = ''m'' then Some 60000000000
      else if u = ''h'' then Some 3600000000000
      else None)"

definition is_num :: "char \<Rightarrow> bool" where
  "is_num c \<longleftrightarrow> c = CHR ''.'' \<or> is_digit c"

text \<open>The digits of a fraction that fit 63 bits, and the power of ten they are scaled by.\<close>

definition fraction_step :: "nat \<times> nat \<times> bool \<Rightarrow> char \<Rightarrow> nat \<times> nat \<times> bool" where
  "fraction_step = (\<lambda>(x, scale, overflow) c.
     if overflow \<or> x > (2 ^ 63 - 1) div 10 \<or> 10 * x + digit_val c > 2 ^ 63 then (x, scale, True)
     else (10 * x + digit_val c, 10 * scale, False))"

definition leadingFraction :: "string \<Rightarrow> nat \<times> nat" where
  "leadingFraction ds = (let (x, scale, _) = foldl fraction_step (0, 1, False) ds in (x, scale))"

lemma length_dropWhile_less: "xs \<noteq> [] \<Longrightarrow> P (hd xs) \<Longrightarrow> length (dropWhile P xs) < length xs"
  by (cases xs) (auto intro: le_imp_less_Suc length_dropWhile_le)

lemma takeWhile_nonempty: "takeWhile P xs \<noteq> [] \<Longrightarrow> xs \<noteq> [] \<and> P (hd xs)"
  by (cases xs) (auto split: if_splits)

text \<open>The loop over the numbers with their units; \<open>d\<close> is the sum so far.\<close>

function duration_loop :: "nat \<Rightarrow> string \<Rightarrow> duration_error + nat" where
  "duration_loop d s =
     (if s = [] then Inr d
      else if \<not> is_num (hd s) then Inl InvalidDuration
      else
        let ip = takeWhile is_digit s;
            s1 = dropWhile is_digit s;
            frac = (s1 \<noteq> [] \<and> hd s1 = CHR ''.'');
            s2 = (if frac then tl s1 else s1);
            fp = (if frac then takeWhile is_digit s2 else []);
            s3 = (if frac then dropWhile is_digit s2 else s1);
            u = takeWhile (\<lambda>c. \<not> is_num c) s3;
            rest = dropWhile (\<lambda>c. \<not> is_num c) s3;
            v = digits_val ip;
            (f, scale) = leadingFraction fp
        in if v > 2 ^ 63 \<or> (ip = [] \<and> fp = []) then Inl InvalidDuration
           else if u = [] then Inl MissingUnit
           else case unit_ns u of
                  None \<Rightarrow> Inl UnknownUnit
                | Some unit \<Rightarrow>
                    let w = v * unit + f * unit div scale
                    in if v > 2 ^ 63 div unit \<or> w > 2 ^ 63 \<or> d + w > 2 ^ 63 then Inl DurationOverflow
                       else duration_loop (d + w) rest)"
  by pat_completeness auto

termination
proof (relation "measure (\<lambda>(d, s). length s)")
  fix d s ip s1 frac s2 fp s3 u rest v x f scale un w
  assume "s1 = dropWhile is_digit s" "s2 = (if frac then tl s1 else s1)"
    "s3 = (if frac then dropWhile is_digit s2 else s1)" "u = takeWhile (\<lambda>c. \<not> is_num c) s3"
    "rest = dropWhile (\<lambda>c. \<not> is_num c) s3" "u \<noteq> []"
  moreover from this have "length rest < length s3"
    using takeWhile_nonempty [of "\<lambda>c. \<not> is_num c" s3] by (simp add: length_dropWhile_less)
  moreover have "length s1 \<le> length s" using \<open>s1 = _\<close> by (simp add: length_dropWhile_le)
  moreover have "length s3 \<le> length s1"
    using \<open>s2 = _\<close> \<open>s3 = _\<close> length_dropWhile_le [of is_digit "tl s1"] by (auto intro: order_trans)
  ultimately show "((d + w, rest), d, s) \<in> measure (\<lambda>(d, s). length s)" by simp
qed simp

declare duration_loop.simps [simp del]

definition ParseDuration :: "string \<Rightarrow> duration_error + duration" where
  "ParseDuration str =
     (let neg = (str \<noteq> [] \<and> hd str = CHR ''-'');
          s = (if str \<noteq> [] \<and> (hd str = CHR ''-'' \<or> hd str = CHR ''+'') then tl str else str)
      in if s = ''0'' then Inr 0
         else if s = [] then Inl InvalidDuration
         else case duration_loop 0 s of
                Inl e \<Rightarrow> Inl e
              | Inr d \<Rightarrow>
                  if neg then Inr (- int d)
                  else if d > 2 ^ 63 - 1 then Inl DurationOverflow
                  else Inr (int d))"

text \<open>Numerals of seconds are read back.\<close>

lemma not_digit_s: "\<not> is_digit CHR ''s''"
  by (simp add: is_digit_def)

lemma takeWhile_digits: "list_all is_digit ds \<Longrightarrow> takeWhile is_digit (ds @ ''s'') = ds \<and> dropWhile is_digit (ds @ ''s'') = ''s''"
  by (induction ds) (auto simp: not_digit_s)

lemma ParseDuration_seconds:
  assumes "n \<le> 9223372036"
  shows "ParseDuration (itoa n @ ''s'') = Inr (int n * 1000000000)"
proof -
  obtain c cs where eq: "itoa n = c # cs" using itoa_digits [of n] by (cases "itoa n") auto
  then have dig: "is_digit c" "list_all is_digit (itoa n)" using itoa_digits [of n] by simp_all
  then have sign: "c \<noteq> CHR ''-''" "c \<noteq> CHR ''+''" using digit_not_sign [of c] by auto
  have unit: "\<not> is_num CHR ''s''" by (simp add: is_num_def is_digit_def)
  have first: "is_num (hd (itoa n @ ''s''))" using dig by (simp add: eq is_num_def)
  have val: "digits_val (c # cs) = n" using itoa_val [of n] by (simp add: eq)
  have "duration_loop 0 (itoa n @ ''s'') = Inr (n * 1000000000)"
    using first takeWhile_digits [OF dig(2)] assms
    by (subst duration_loop.simps)
       (simp add: Let_def val leadingFraction_def unit_ns_def eq unit duration_loop.simps)
  then show ?thesis using sign assms by (simp add: ParseDuration_def eq Let_def)
qed

end
