(* ===== verification/Rules_Patch.thy ===== *)
theory Rules_Patch
  imports Go_Duration
begin

text \<open>
  Patches of the network rules (\<open>genesis/rules_patch.go\<close>): every field is optional, only the given ones
  are applied. A pointer is an option, a duration a number of nanoseconds in 64 bits.
\<close>

record DagPatch =
  dp_MaxParents :: "u64 option"
  dp_MaxFreeParents :: "u64 option"
  dp_MaxExtraData :: "32 word option"

record EmitterPatch =
  em_Interval :: "u64 option"
  em_StallThreshold :: "u64 option"
  em_StalledInterval :: "u64 option"

record EpochsPatch =
  ep_MaxEpochGas :: "u64 option"
  ep_MaxEpochDuration :: "u64 option"

record BlocksPatch =
  bp_MaxBlockGas :: "u64 option"
  bp_MaxEmptyBlockSkipPeriod :: "u64 option"

record GasPatch =
  gp_MaxEventGas :: "u64 option"
  gp_EventGas :: "u64 option"
  gp_ParentGas :: "u64 option"
  gp_ExtraDataGas :: "u64 option"
  gp_BlockVotesBaseGas :: "u64 option"
  gp_BlockVoteGas :: "u64 option"
  gp_EpochVoteGas :: "u64 option"
  gp_MisbehaviourProofGas :: "u64 option"

record GasPowerPatch =
  pw_AllocPerSec :: "u64 option"
  pw_MaxAllocPeriod :: "u64 option"
  pw_StartupAllocPeriod :: "u64 option"
  pw_MinStartupGas :: "u64 option"

record EconomyPatch =
  ec_BlockMissedSlack :: "u64 option"
  ec_Gas :: "GasPatch option"
  ec_MinGasPrice :: "int option"
  ec_MinBaseFee :: "int option"
  ec_ShortGasPower :: "GasPowerPatch option"
  ec_LongGasPower :: "GasPowerPatch option"

record UpgradesPatch =
  up_Berlin :: "bool option"
  up_London :: "bool option"
  up_Llr :: "bool option"
  up_Sonic :: "bool option"
  up_Allegro :: "bool option"
  up_Brio :: "bool option"
  up_SingleProposerBlockFormation :: "bool option"
  up_GasSubsidies :: "bool option"
  up_TransactionBundles :: "bool option"
  up_TransactionPriorities :: "bool option"

record NetworkRulesPatch =
  rp_Dag :: "DagPatch option"
  rp_Emitter :: "EmitterPatch option"
  rp_Epochs :: "EpochsPatch option"
  rp_Blocks :: "BlocksPatch option"
  rp_Economy :: "EconomyPatch option"
  rp_Upgrades :: "UpgradesPatch option"

definition no_patch :: NetworkRulesPatch where
  "no_patch = \<lparr>rp_Dag = None, rp_Emitter = None, rp_Epochs = None, rp_Blocks = None, rp_Economy = None, rp_Upgrades = None\<rparr>"

section \<open>YAML nodes\<close>

text \<open>
  The nodes of \<open>gopkg.in/yaml.v3\<close>, as far as the parsers look at them. The values of a mapping follow
  their keys.
\<close>

datatype ykind = ScalarNode | MappingNode | SequenceNode | OtherNode

datatype ynode = YNode (yn_Kind: ykind) (yn_Tag: string) (yn_Value: string) (yn_Content: "ynode list")

text \<open>\<open>decode_int64\<close> is the decoding of a scalar by the YAML library.\<close>

definition Duration_UnmarshalYAML :: "(ynode \<Rightarrow> int option) \<Rightarrow> ynode \<Rightarrow> u64 option" where
  "Duration_UnmarshalYAML decode_int64 node =
     (case yn_Kind node of
        ScalarNode \<Rightarrow>
          if yn_Tag node = ''!!str'' then
            (case ParseDuration (yn_Value node) of Inl _ \<Rightarrow> None | Inr d \<Rightarrow> Some (word_of_int d))
          else map_option word_of_int (decode_int64 node)
      | _ \<Rightarrow> None)"

text \<open>\<open>big.Int.SetString\<close> in base ten: an optional sign and digits.\<close>

definition big_SetString :: "string \<Rightarrow> int option" where
  "big_SetString s =
     (case s of
        c # cs \<Rightarrow>
          if c = CHR ''-'' then map_option (\<lambda>n. - int n) (parse_nat cs)
          else if c = CHR ''+'' then map_option int (parse_nat cs)
          else map_option int (parse_nat s)
      | [] \<Rightarrow> None)"

definition BigIntValue_UnmarshalYAML :: "ynode \<Rightarrow> int option" where
  "BigIntValue_UnmarshalYAML node = (if yn_Kind node \<noteq> ScalarNode then None else big_SetString (yn_Value node))"

definition BigIntValue_MarshalYAML :: "int \<Rightarrow> string" where
  "BigIntValue_MarshalYAML v = (if v < 0 then CHR ''-'' # itoa (nat (- v)) else itoa (nat v))"

text \<open>\<open>ApplyNetworkRulesPatch\<close> over Sonic's own \<open>UpdateRules\<close>; \<open>Inl\<close> is an error.\<close>

definition ApplyNetworkRulesPatch ::
  "(NetworkRulesPatch \<Rightarrow> 'json option) \<Rightarrow> ('r \<Rightarrow> 'json \<Rightarrow> 'r option) \<Rightarrow> 'r \<Rightarrow> NetworkRulesPatch \<Rightarrow> 'r option" where
  "ApplyNetworkRulesPatch marshal update_rules rules patch =
     (case marshal patch of None \<Rightarrow> None | Some json \<Rightarrow> update_rules rules json)"

definition ValidateNetworkRulesPatch ::
  "(NetworkRulesPatch \<Rightarrow> 'json option) \<Rightarrow> ('r \<Rightarrow> 'json \<Rightarrow> 'r option) \<Rightarrow> 'r \<Rightarrow> NetworkRulesPatch \<Rightarrow> bool" where
  "ValidateNetworkRulesPatch marshal update_rules fake_rules patch \<longleftrightarrow>
     ApplyNetworkRulesPatch marshal update_rules fake_rules patch \<noteq> None"

section \<open>Defaults: parser/defaults.go\<close>

definition DefaultMaxEpochDuration :: u64 where
  "DefaultMaxEpochDuration = 15000000000"

definition ensureDefaultEpochDuration :: "NetworkRulesPatch \<Rightarrow> NetworkRulesPatch" where
  "ensureDefaultEpochDuration patch =
     (let epochs = (case rp_Epochs patch of
            None \<Rightarrow> \<lparr>ep_MaxEpochGas = None, ep_MaxEpochDuration = None\<rparr>
          | Some e \<Rightarrow> e);
          epochs1 = (case ep_MaxEpochDuration epochs of
            None \<Rightarrow> epochs\<lparr>ep_MaxEpochDuration := Some DefaultMaxEpochDuration\<rparr>
          | Some _ \<Rightarrow> epochs)
      in patch\<lparr>rp_Epochs := Some epochs1\<rparr>)"

lemma big_roundtrip: "big_SetString (BigIntValue_MarshalYAML v) = Some v"
proof (cases "v < 0")
  case True
  then show ?thesis by (simp add: BigIntValue_MarshalYAML_def big_SetString_def parse_nat_itoa)
next
  case False
  obtain c cs where eq: "itoa (nat v) = c # cs" using itoa_digits [of "nat v"] by (cases "itoa (nat v)") auto
  then have "is_digit c" using itoa_digits [of "nat v"] by simp
  then show ?thesis
    using False parse_nat_itoa [of "nat v"] digit_not_sign [of c]
    by (simp add: BigIntValue_MarshalYAML_def big_SetString_def eq)
qed

end
