(* ===== verification/Checking_Model.thy ===== *)
theory Checking_Model
  imports Data_Series Rules_Patch
begin

text \<open>
  The checks of \<open>driver/checking\<close>: their configuration, the observation window, and the decision each
  check takes on what it reads from the network and the monitoring data. What the nodes answer and
  whether a wait is cancelled are parameters.
\<close>

section \<open>Configuration: checker.go\<close>

text \<open>The dynamic types a configuration value can have.\<close>

datatype cfg_val =
    VBool bool
  | VInt int
  | VInt64 int
  | VString string
  | VStrings "string list"
  | VList "cfg_val list"
  | VMap
  | VRulesPatch NetworkRulesPatch
  | VFloat

text \<open>A nil configuration is \<open>None\<close>.\<close>

type_synonym CheckerConfig = "(string, cfg_val) gomap option"

definition cfg_get :: "CheckerConfig \<Rightarrow> string \<Rightarrow> cfg_val option" where
  "cfg_get c k = (case c of None \<Rightarrow> None | Some m \<Rightarrow> gm_get m k)"

fun isBool :: "cfg_val \<Rightarrow> bool" where
  "isBool (VBool b) = True" | "isBool _ = False"

fun isPositiveInt :: "cfg_val \<Rightarrow> bool" where
  "isPositiveInt (VInt i) = (i \<ge> 0)" | "isPositiveInt _ = False"

fun isNonNegativeInt64 :: "cfg_val \<Rightarrow> bool" where
  "isNonNegativeInt64 (VInt64 i) = (i \<ge> 0)" | "isNonNegativeInt64 _ = False"

fun isRulesPatch :: "cfg_val \<Rightarrow> bool" where
  "isRulesPatch VMap = True" | "isRulesPatch (VRulesPatch p) = True" | "isRulesPatch _ = False"

definition config_checks :: "(string \<times> (cfg_val \<Rightarrow> bool)) list" where
  "config_checks = [(''failing'', isBool), (''tolerance'', isPositiveInt), (''duration'', isNonNegativeInt64),
     (''ceiling'', isPositiveInt), (''slack'', isPositiveInt), (''rules'', isRulesPatch)]"

text \<open>The keys whose values do not parse; the check fails if there are any.\<close>

definition CheckerConfig_Check :: "CheckerConfig \<Rightarrow> string list" where
  "CheckerConfig_Check c =
     map fst (filter (\<lambda>(key, check). case cfg_get c key of Some v \<Rightarrow> \<not> check v | None \<Rightarrow> False) config_checks)"

text \<open>Type assertions; \<open>None\<close> is the panic of one that fails.\<close>

fun as_int :: "cfg_val \<Rightarrow> int option" where
  "as_int (VInt i) = Some i" | "as_int _ = None"

fun as_int64 :: "cfg_val \<Rightarrow> int option" where
  "as_int64 (VInt64 i) = Some i" | "as_int64 _ = None"

fun as_bool :: "cfg_val \<Rightarrow> bool option" where
  "as_bool (VBool b) = Some b" | "as_bool _ = None"

definition override :: "(cfg_val \<Rightarrow> 'a option) \<Rightarrow> CheckerConfig \<Rightarrow> string \<Rightarrow> 'a \<Rightarrow> 'a option" where
  "override as_t c key dflt = (case cfg_get c key of None \<Rightarrow> Some dflt | Some v \<Rightarrow> as_t v)"

section \<open>Waiting: timing.go\<close>

datatype check_error =
    BadTolerance
  | WindowTooShort
  | Cancelled
  | GasCeilingExceeded int
  | NetworkDown
  | StillProducing
  | HeightRead string
  | InvalidHeight string
  | TooOldBlock string
  | UnexpectedFailures
  | DialFailed string
  | NoReachableNode
  | NetworkTooYoung
  | BlockRead string
  | MissingBlock string
  | HashMismatch
  | FailureExpected
  | NoThrottledNodes
  | UnknownLabel
  | NotObserved
  | NoThrottling
  | RulesMismatch string
  | RulesRead string
  | NotConverged check_error
  | NotActive "int list"
  | SampleDiscarded
  | EventRead
  | NoActiveNodes
  | NoValidators
  | SetRead
  | PatchFailed

definition blockSampleInterval :: duration where
  "blockSampleInterval = 1000000000"

definition defaultToleranceSamples :: int where
  "defaultToleranceSamples = 10"

definition minObservationSamples :: nat where
  "minObservationSamples = 2"

text \<open>Signed 64-bit arithmetic wraps around.\<close>

definition wrap64 :: "int \<Rightarrow> int" where
  "wrap64 x = sint (word_of_int x :: 64 word)"

lemma wrap64_id: "- (2 ^ 63) \<le> x \<Longrightarrow> x < 2 ^ 63 \<Longrightarrow> wrap64 x = x"
  by (simp add: wrap64_def sint_sbintrunc' signed_take_bit_int_eq_self)

definition observationWindow :: "duration \<Rightarrow> int \<Rightarrow> check_error + duration" where
  "observationWindow dur toleranceSamples =
     (if dur \<le> 0 \<and> toleranceSamples \<le> 0 then Inl BadTolerance
      else
        let window = (if dur \<le> 0 then wrap64 (toleranceSamples * blockSampleInterval) else dur)
        in if window < int minObservationSamples * blockSampleInterval then Inl WindowTooShort else Inr window)"

section \<open>Block production: block_gas_rate.go, blocks_rolling.go, blocks_halted.go\<close>

record window_config =
  wc_toleranceSamples :: int
  wc_duration :: duration

definition configure_window :: "CheckerConfig \<Rightarrow> window_config \<Rightarrow> window_config option" where
  "configure_window config c =
     (if config = None then Some c
      else case override as_int config ''tolerance'' (wc_toleranceSamples c) of
             None \<Rightarrow> None
           | Some t \<Rightarrow> (case override as_int64 config ''duration'' (wc_duration c) of
               None \<Rightarrow> None
             | Some d \<Rightarrow> Some \<lparr>wc_toleranceSamples = t, wc_duration = d\<rparr>))"

record blockGasRateChecker =
  gr_ceiling :: rat
  gr_window :: window_config

definition GasRate_Configure :: "CheckerConfig \<Rightarrow> blockGasRateChecker \<Rightarrow> blockGasRateChecker option" where
  "GasRate_Configure config c =
     (if config = None then Some c
      else case cfg_get config ''ceiling'' of
             None \<Rightarrow> map_option (\<lambda>w. c\<lparr>gr_window := w\<rparr>) (configure_window config (gr_window c))
           | Some v \<Rightarrow> (case as_int v of
               None \<Rightarrow> None
             | Some i \<Rightarrow> map_option (\<lambda>w. \<lparr>gr_ceiling = of_int i, gr_window = w\<rparr>) (configure_window config (gr_window c))))"

text \<open>
  The series before and after the observation window; \<open>slept\<close> is whether the wait was not cancelled.
\<close>

definition GasRate_Check ::
  "blockGasRateChecker \<Rightarrow> (int, rat) SyncedSeries \<Rightarrow> bool \<Rightarrow> (int, rat) SyncedSeries \<Rightarrow> check_error option" where
  "GasRate_Check c before slept after =
     (case observationWindow (wc_duration (gr_window c)) (wc_toleranceSamples (gr_window c)) of
        Inl e \<Rightarrow> Some e
      | Inr _ \<Rightarrow>
          let firstBlock = (case Synced_GetLatest before of None \<Rightarrow> 0 | Some head \<Rightarrow> Position head + 1)
          in if \<not> slept then Some Cancelled
             else case Synced_GetLatest after of
                    None \<Rightarrow> None
                  | Some head \<Rightarrow>
                      if Position head < firstBlock then None
                      else case find (\<lambda>p. Value p > gr_ceiling c)
                                  (Synced_GetRange after firstBlock (Position head + 1)) of
                             None \<Rightarrow> None
                           | Some p \<Rightarrow> Some (GasCeilingExceeded (Position p)))"

text \<open>The block heights a node reported, over the time of the monitoring.\<close>

type_synonym height_series = "(u64, u64) SyncedSeries"

definition observed :: "u64 \<Rightarrow> height_series \<Rightarrow> (u64, u64) DataPoint list" where
  "observed start s =
     (case Synced_GetLatest s of None \<Rightarrow> [] | Some l \<Rightarrow> Synced_GetRange s start (Position l + 1))"

definition advanced :: "(u64, u64) DataPoint list \<Rightarrow> bool" where
  "advanced items \<longleftrightarrow> items \<noteq> [] \<and> Value (hd items) < Value (items ! (length items - 1))"

definition Rolling_Check :: "window_config \<Rightarrow> u64 \<Rightarrow> bool \<Rightarrow> height_series list \<Rightarrow> check_error option" where
  "Rolling_Check c start slept nodes =
     (case observationWindow (wc_duration c) (wc_toleranceSamples c) of
        Inl e \<Rightarrow> Some e
      | Inr _ \<Rightarrow>
          if \<not> slept then Some Cancelled
          else if list_ex (\<lambda>s. advanced (observed start s)) nodes then None
          else Some NetworkDown)"

fun increases :: "(u64, u64) DataPoint list \<Rightarrow> bool" where
  "increases (p # q # ps) \<longleftrightarrow> Value q > Value p \<or> increases (q # ps)"
| "increases _ \<longleftrightarrow> False"

definition Halted_Check :: "window_config \<Rightarrow> u64 \<Rightarrow> bool \<Rightarrow> height_series list \<Rightarrow> check_error option" where
  "Halted_Check c start slept nodes =
     (case observationWindow (wc_duration c) (wc_toleranceSamples c) of
        Inl e \<Rightarrow> Some e
      | Inr _ \<Rightarrow>
          if \<not> slept then Some Cancelled
          else if list_ex (\<lambda>s. length (observed start s) \<ge> minObservationSamples \<and> increases (observed start s)) nodes
               then Some StillProducing
          else None)"

section \<open>Convergence polling\<close>

text \<open>
  The loop of the checks that wait for the nodes to converge. Attempt \<open>n\<close> has a result, is followed
  by the question whether the deadline has passed, and by a wait that may be cancelled.
\<close>

record attempt =
  at_result :: "check_error option"
  at_late :: bool
  at_slept :: bool

partial_function (option) poll_check :: "(nat \<Rightarrow> attempt) \<Rightarrow> nat \<Rightarrow> check_error option option" where
  "poll_check att n =
     (case at_result (att n) of
        None \<Rightarrow> Some None
      | Some e \<Rightarrow>
          if at_late (att n) then Some (Some (NotConverged e))
          else if at_slept (att n) then poll_check att (n + 1)
          else Some (Some Cancelled))"

definition timed_check :: "duration \<Rightarrow> (nat \<Rightarrow> attempt) \<Rightarrow> check_error option option" where
  "timed_check timeout att = (if timeout \<le> 0 then Some (at_result (att 0)) else poll_check att 0)"

section \<open>Block heights: block_height.go\<close>

text \<open>\<open>strconv.ParseInt\<close> in base 16, as far as \<open>getBlockHeight\<close> needs it.\<close>

definition hex_val :: "char \<Rightarrow> nat option" where
  "hex_val c =
     (let n = of_char c :: nat
      in if 48 \<le> n \<and> n \<le> 57 then Some (n - 48)
         else if 97 \<le> n \<and> n \<le> 102 then Some (n - 87)
         else if 65 \<le> n \<and> n \<le> 70 then Some (n - 55)
         else None)"

definition parse_hex_digits :: "string \<Rightarrow> nat option" where
  "parse_hex_digits s =
     (if s = [] \<or> list_ex (\<lambda>c. hex_val c = None) s then None
      else Some (foldl (\<lambda>a c. 16 * a + the (hex_val c)) 0 s))"

definition parse_hex :: "string \<Rightarrow> int option" where
  "parse_hex s =
     (let (neg, ds) = (case s of
          c # cs \<Rightarrow> if c = CHR ''-'' then (True, cs) else if c = CHR ''+'' then (False, cs) else (False, s)
        | [] \<Rightarrow> (False, s))
      in case parse_hex_digits ds of
           None \<Rightarrow> None
         | Some n \<Rightarrow>
             let v = (if neg then - int n else int n)
             in if - (2 ^ 63) \<le> v \<and> v < 2 ^ 63 then Some v else None)"

text \<open>The answer to \<open>eth_blockNumber\<close>, \<open>None\<close> if the node cannot be reached or asked.\<close>

definition getBlockHeight :: "string option \<Rightarrow> int option" where
  "getBlockHeight answer = (case answer of None \<Rightarrow> None | Some s \<Rightarrow> parse_hex (TrimPrefix s ''0x''))"

record height_node =
  hn_label :: string
  hn_expectedFailure :: bool
  hn_height :: "int option"

fun height_reads :: "height_node list \<Rightarrow> int \<Rightarrow> check_error + int" where
  "height_reads [] m = Inr m"
| "height_reads (n # ns) m =
     (case hn_height n of
        None \<Rightarrow> Inl (HeightRead (hn_label n))
      | Some h \<Rightarrow> if h < 1 then Inl (InvalidHeight (hn_label n)) else height_reads ns (max m h))"

definition too_old :: "int \<Rightarrow> int \<Rightarrow> height_node \<Rightarrow> bool" where
  "too_old maxHeight slack n \<longleftrightarrow> the (hn_height n) < maxHeight - slack"

definition height_checkOnce :: "int \<Rightarrow> height_node list \<Rightarrow> check_error option" where
  "height_checkOnce slack nodes =
     (case height_reads nodes 0 of
        Inl e \<Rightarrow> Some e
      | Inr maxHeight \<Rightarrow>
          (case find (\<lambda>n. too_old maxHeight slack n \<and> \<not> hn_expectedFailure n) nodes of
             Some n \<Rightarrow> Some (TooOldBlock (hn_label n))
           | None \<Rightarrow>
               let got = map hn_label (filter (\<lambda>n. too_old maxHeight slack n) nodes);
                   want = map hn_label (filter hn_expectedFailure nodes)
               in if set got = set want then None else Some UnexpectedFailures))"

record blockHeightChecker =
  hc_slack :: int
  hc_timeout :: duration

definition Height_Configure :: "CheckerConfig \<Rightarrow> blockHeightChecker \<Rightarrow> blockHeightChecker option" where
  "Height_Configure config c =
     (if config = None then Some c
      else case override as_int config ''slack'' (hc_slack c) of
             None \<Rightarrow> None
           | Some s \<Rightarrow> (case override as_int64 config ''duration'' (hc_timeout c) of
               None \<Rightarrow> None
             | Some t \<Rightarrow> Some \<lparr>hc_slack = s, hc_timeout = t\<rparr>))"

section \<open>Block hashes: blocks_hashes.go\<close>

record blockHashes =
  bh_Hash :: hash
  bh_StateRoot :: hash
  bh_ReceiptsRoot :: hash

text \<open>
  A connection to a node: the height it reports, and its answer for a block, an error, no such
  block, or the hashes.
\<close>

record hash_client =
  hl_height :: "u64 option"
  hl_block :: "u64 \<Rightarrow> unit + blockHashes option"

record hash_node =
  hd_label :: string
  hd_expectedFailure :: bool
  hd_client :: "hash_client option"

definition minComparableBlock :: u64 where
  "minComparableBlock = 2"

definition healthy :: "hash_node \<Rightarrow> bool" where
  "healthy n \<longleftrightarrow> hd_client n \<noteq> None \<and> \<not> hd_expectedFailure n"

fun min_height :: "hash_node list \<Rightarrow> u64 \<Rightarrow> check_error + u64" where
  "min_height [] limit = Inr limit"
| "min_height (n # ns) limit =
     (if \<not> healthy n then min_height ns limit
      else case hl_height (the (hd_client n)) of
             None \<Rightarrow> Inl (HeightRead (hd_label n))
           | Some h \<Rightarrow> min_height ns (if h < limit then h else limit))"

definition commonHeight :: "hash_node list \<Rightarrow> check_error + u64" where
  "commonHeight nodes =
     (case min_height nodes (- 1) of
        Inl e \<Rightarrow> Inl e
      | Inr limit \<Rightarrow>
          if \<not> list_ex healthy nodes then Inl NoReachableNode
          else if limit < minComparableBlock then Inl NetworkTooYoung
          else Inr limit)"

definition compareBlockHashes :: "blockHashes \<Rightarrow> blockHashes \<Rightarrow> bool" where
  "compareBlockHashes r b \<longleftrightarrow>
     bh_StateRoot r = bh_StateRoot b \<and> bh_ReceiptsRoot r = bh_ReceiptsRoot b \<and> bh_Hash r = bh_Hash b"

fun compare_nodes :: "hash_node list \<Rightarrow> u64 \<Rightarrow> blockHashes option \<Rightarrow> check_error + blockHashes" where
  "compare_nodes [] b None = Inl NoReachableNode"
| "compare_nodes [] b (Some r) = Inr r"
| "compare_nodes (n # ns) b reference =
     (if \<not> healthy n then compare_nodes ns b reference
      else case hl_block (the (hd_client n)) b of
             Inl _ \<Rightarrow> Inl (BlockRead (hd_label n))
           | Inr None \<Rightarrow> Inl (MissingBlock (hd_label n))
           | Inr (Some block) \<Rightarrow>
               (case reference of
                  None \<Rightarrow> compare_nodes ns b (Some block)
                | Some r \<Rightarrow> if compareBlockHashes r block then compare_nodes ns b reference else Inl HashMismatch))"

definition compareHealthyNodes :: "hash_node list \<Rightarrow> u64 \<Rightarrow> check_error + blockHashes" where
  "compareHealthyNodes nodes b = compare_nodes nodes b None"

definition disagrees :: "hash_node \<Rightarrow> u64 \<Rightarrow> blockHashes \<Rightarrow> bool" where
  "disagrees n b reference \<longleftrightarrow>
     (case hl_block (the (hd_client n)) b of
        Inr (Some block) \<Rightarrow> \<not> compareBlockHashes reference block
      | _ \<Rightarrow> True)"

definition recordFailingNodes :: "hash_node list \<Rightarrow> u64 \<Rightarrow> blockHashes \<Rightarrow> string list \<Rightarrow> string list" where
  "recordFailingNodes nodes b reference gotFailures =
     fold (\<lambda>n got. if hd_client n = None \<or> \<not> hd_expectedFailure n then got
                    else if hd_label n \<in> set got then got
                    else if disagrees n b reference then hd_label n # got
                    else got) nodes gotFailures"

text \<open>
  The loop over the blocks up to the limit. The counter is a 64-bit word, so the loop does not end if
  the limit is the largest one and no comparison fails.
\<close>

partial_function (option) compare_blocks ::
  "hash_node list \<Rightarrow> u64 \<Rightarrow> u64 \<Rightarrow> string list \<Rightarrow> (check_error + string list) option" where
  "compare_blocks nodes limit b got =
     (if b \<le> limit then
        (case compareHealthyNodes nodes b of
           Inl e \<Rightarrow> Some (Inl e)
         | Inr reference \<Rightarrow> compare_blocks nodes limit (b + 1) (recordFailingNodes nodes b reference got))
      else Some (Inr got))"

definition Hashes_Check :: "hash_node list \<Rightarrow> check_error option option" where
  "Hashes_Check nodes =
     (case find (\<lambda>n. hd_client n = None \<and> \<not> hd_expectedFailure n) nodes of
        Some n \<Rightarrow> Some (Some (DialFailed (hd_label n)))
      | None \<Rightarrow>
          let expected = map hd_label (filter hd_expectedFailure nodes);
              unreachable = map hd_label (filter (\<lambda>n. hd_client n = None) nodes)
          in if card (set expected) = length nodes then Some None
             else case commonHeight nodes of
                    Inl e \<Rightarrow> Some (Some e)
                  | Inr limit \<Rightarrow>
                      (case compare_blocks nodes limit 0 unreachable of
                         None \<Rightarrow> None
                       | Some (Inl e) \<Rightarrow> Some (Some e)
                       | Some (Inr got) \<Rightarrow> Some (if set got = set expected then None else Some UnexpectedFailures)))"

end
