(* ===== verification/Checking_Consensus.thy ===== *)
theory Checking_Consensus
  imports Checking_Model
begin

text \<open>
  The checks on consensus state: emission rates of throttled validators (\<open>event_throttled.go\<close>), the
  network rules in force (\<open>network_rules.go\<close>) and the validator set (\<open>validators_active.go\<close>), and the
  checker that expects another one to fail (\<open>checker.go\<close>). Rates are rational numbers here.
\<close>

section \<open>Expected failures: checker.go\<close>

definition failing_Check :: "check_error option \<Rightarrow> check_error option" where
  "failing_Check result = (if result = None then Some FailureExpected else None)"

text \<open>
  \<open>failingChecker.Configure\<close>: whether the configured checker keeps expecting a failure; \<open>None\<close> is a
  panic of the type assertion.
\<close>

definition failing_Configure :: "CheckerConfig \<Rightarrow> bool option" where
  "failing_Configure config =
     (case cfg_get config ''failing'' of None \<Rightarrow> Some False | Some v \<Rightarrow> as_bool v)"

definition Checks_Check :: "(string, check_error option) gomap \<Rightarrow> check_error list" where
  "Checks_Check results = List.map_filter snd results"

section \<open>Nodes as the checks see them\<close>

record 'c check_node =
  cn_label :: string
  cn_validatorId :: "int option"
  cn_expectedFailure :: bool
  cn_client :: "'c option"

definition dialFirstReachable :: "'c check_node list \<Rightarrow> check_error + 'c" where
  "dialFirstReachable nodes =
     (case find (\<lambda>n. \<not> cn_expectedFailure n \<and> cn_client n \<noteq> None) nodes of
        None \<Rightarrow> Inl NoReachableNode
      | Some n \<Rightarrow> Inr (the (cn_client n)))"

section \<open>Throttled events: event_throttled.go\<close>

fun throttled_of :: "cfg_val \<Rightarrow> string list" where
  "throttled_of (VStrings list) = list"
| "throttled_of (VList list) = List.map_filter (\<lambda>item. case item of VString s \<Rightarrow> Some s | _ \<Rightarrow> None) list"
| "throttled_of _ = []"

definition Throttled_Configure :: "CheckerConfig \<Rightarrow> string list" where
  "Throttled_Configure config =
     (case cfg_get config ''throttledNodes'' of None \<Rightarrow> [] | Some v \<Rightarrow> throttled_of v)"

definition label_ids :: "'c check_node list \<Rightarrow> (u64, string) gomap \<times> (string, u64) gomap" where
  "label_ids nodes = fold (\<lambda>n (labels, byLabel).
     case cn_validatorId n of
       None \<Rightarrow> (labels, byLabel)
     | Some i \<Rightarrow> (gm_set (word_of_int i) (cn_label n) labels, gm_set (cn_label n) (word_of_int i) byLabel)) nodes ([], [])"

fun resolve_all :: "(string, u64) gomap \<Rightarrow> string list \<Rightarrow> u64 list \<Rightarrow> check_error + u64 list" where
  "resolve_all byLabel [] throttled = Inr throttled"
| "resolve_all byLabel (label # ls) throttled =
     (case gm_get byLabel label of
        None \<Rightarrow> Inl UnknownLabel
      | Some i \<Rightarrow> resolve_all byLabel ls (List.insert i throttled))"

definition resolveLabels ::
  "'c check_node list \<Rightarrow> string list \<Rightarrow> check_error + (u64, string) gomap \<times> u64 list" where
  "resolveLabels nodes throttledNodes =
     (let (labels, byLabel) = label_ids nodes
      in case resolve_all byLabel throttledNodes [] of
           Inl e \<Rightarrow> Inl e
         | Inr throttled \<Rightarrow> Inr (labels, throttled))"

record rawEvent =
  re_Creator :: u64
  re_Parents :: "hash list"

text \<open>The answer to \<open>dag_getEvent\<close>: an error, no such event, or the event.\<close>

type_synonym event_source = "hash \<Rightarrow> unit + rawEvent option"

definition count_event :: "u64 \<Rightarrow> (u64, int) gomap \<Rightarrow> (u64, int) gomap" where
  "count_event creator counts =
     gm_set creator ((case gm_get counts creator of None \<Rightarrow> 0 | Some n \<Rightarrow> n) + 1) counts"

partial_function (option) count_events ::
  "event_source \<Rightarrow> (nat \<Rightarrow> bool) \<Rightarrow> nat \<Rightarrow> hash list \<Rightarrow> hash list \<Rightarrow> (u64, int) gomap \<Rightarrow>
     (check_error + (u64, int) gomap) option" where
  "count_events client cancelled n queue visited counts =
     (if queue = [] then Some (Inr counts)
      else if cancelled n then Some (Inl Cancelled)
      else
        let x = last queue; rest = butlast queue
        in if x \<in> set visited then count_events client cancelled (n + 1) rest visited counts
           else case client x of
                  Inl _ \<Rightarrow> Some (Inl EventRead)
                | Inr None \<Rightarrow> count_events client cancelled (n + 1) rest (x # visited) counts
                | Inr (Some ev) \<Rightarrow>
                    count_events client cancelled (n + 1)
                      (rest @ filter (\<lambda>p. p \<notin> set (x # visited)) (re_Parents ev))
                      (x # visited) (count_event (re_Creator ev) counts))"

definition countEventsFromHeads ::
  "event_source \<Rightarrow> (nat \<Rightarrow> bool) \<Rightarrow> hash list \<Rightarrow> (check_error + (u64, int) gomap) option" where
  "countEventsFromHeads client cancelled heads = count_events client cancelled 0 heads [] []"

record dagSnapshot =
  ds_epoch :: u64
  ds_takenAt :: gotime
  ds_counts :: "(u64, int) gomap"

text \<open>What a client answers while a snapshot is taken, and when the heads are asked for.\<close>

record snapshot_answers =
  sa_epoch :: "u64 option"
  sa_now :: gotime
  sa_heads :: "hash list option"
  sa_events :: event_source
  sa_cancelled :: "nat \<Rightarrow> bool"

definition snapshotEpochCounts :: "snapshot_answers \<Rightarrow> (check_error + dagSnapshot) option" where
  "snapshotEpochCounts a =
     (case sa_epoch a of
        None \<Rightarrow> Some (Inl SampleDiscarded)
      | Some epoch \<Rightarrow>
          (case sa_heads a of
             None \<Rightarrow> Some (Inl SampleDiscarded)
           | Some heads \<Rightarrow>
               if heads = [] then Some (Inl SampleDiscarded)
               else
                 (case countEventsFromHeads (sa_events a) (sa_cancelled a) heads of
                    None \<Rightarrow> None
                  | Some (Inl e) \<Rightarrow> Some (Inl e)
                  | Some (Inr counts) \<Rightarrow>
                      Some (if counts = [] then Inl SampleDiscarded
                            else Inr \<lparr>ds_epoch = epoch, ds_takenAt = sa_now a, ds_counts = counts\<rparr>))))"

definition count_of :: "(u64, int) gomap \<Rightarrow> u64 \<Rightarrow> int" where
  "count_of counts i = (case gm_get counts i of None \<Rightarrow> 0 | Some n \<Rightarrow> n)"

definition seconds_of :: "duration \<Rightarrow> rat" where
  "seconds_of d = of_int d / 1000000000"

definition emission_rates :: "dagSnapshot \<Rightarrow> dagSnapshot \<Rightarrow> check_error + (u64, rat) gomap" where
  "emission_rates first second =
     (if ds_epoch first \<noteq> ds_epoch second then Inl SampleDiscarded
      else
        let elapsed = time_sub (ds_takenAt second) (ds_takenAt first)
        in if elapsed \<le> 0 then Inl SampleDiscarded
           else Inr (map (\<lambda>(i, n). (i, of_int (n - count_of (ds_counts first) i) / seconds_of elapsed)) (ds_counts second)))"

text \<open>One attempt: two snapshots with a wait between them, which may be cancelled.\<close>

record sample_run =
  sr_first :: snapshot_answers
  sr_slept :: bool
  sr_second :: snapshot_answers
  sr_ctxDone :: bool
  sr_backoff :: bool

definition sampleEmissionRates :: "sample_run \<Rightarrow> (check_error + (u64, rat) gomap) option" where
  "sampleEmissionRates r =
     (case snapshotEpochCounts (sr_first r) of
        None \<Rightarrow> None
      | Some (Inl e) \<Rightarrow> Some (Inl e)
      | Some (Inr first) \<Rightarrow>
          if \<not> sr_slept r then Some (Inl Cancelled)
          else (case snapshotEpochCounts (sr_second r) of
                  None \<Rightarrow> None
                | Some (Inl e) \<Rightarrow> Some (Inl e)
                | Some (Inr second) \<Rightarrow> Some (emission_rates first second)))"

definition maxSampleAttempts :: nat where
  "maxSampleAttempts = 5"

text \<open>
  The attempts of \<open>collectEmissionRates\<close>, \<open>left\<close> of which remain; attempt \<open>k\<close> is \<open>runs k\<close>. The answer
  after the last failed one names its error.
\<close>

fun sample_attempts ::
  "(nat \<Rightarrow> sample_run) \<Rightarrow> nat \<Rightarrow> nat \<Rightarrow> check_error \<Rightarrow> (check_error + (u64, rat) gomap) option" where
  "sample_attempts runs k 0 lastErr = Some (Inl (NotConverged lastErr))"
| "sample_attempts runs k (Suc left) lastErr =
     (case sampleEmissionRates (runs k) of
        None \<Rightarrow> None
      | Some (Inr rates) \<Rightarrow> Some (Inr rates)
      | Some (Inl e) \<Rightarrow>
          if sr_ctxDone (runs k) then Some (Inl Cancelled)
          else if left > 0 \<and> \<not> sr_backoff (runs k) then Some (Inl Cancelled)
          else sample_attempts runs (k + 1) left e)"

definition collectEmissionRates :: "(nat \<Rightarrow> sample_run) \<Rightarrow> (check_error + (u64, rat) gomap) option" where
  "collectEmissionRates runs = sample_attempts runs 0 maxSampleAttempts SampleDiscarded"

definition minGapRatio :: rat where
  "minGapRatio = 2"

text \<open>The fastest listed and the slowest unlisted rate, \<open>None\<close> before one of the group was seen.\<close>

definition rate_step :: "u64 list \<Rightarrow> u64 \<times> rat \<Rightarrow> rat option \<times> rat option \<Rightarrow> rat option \<times> rat option" where
  "rate_step expected = (\<lambda>(i, r) (maxListed, minUnlisted).
     if i \<in> set expected then
       (case maxListed of
          None \<Rightarrow> (Some r, minUnlisted)
        | Some m \<Rightarrow> (Some (if r > m then r else m), minUnlisted))
     else
       (case minUnlisted of
          None \<Rightarrow> (maxListed, Some r)
        | Some m \<Rightarrow> (maxListed, Some (if r < m then r else m))))"

definition verifyThrottled :: "u64 list \<Rightarrow> (u64, rat) gomap \<Rightarrow> check_error option" where
  "verifyThrottled expected rates =
     (case fold (rate_step expected) rates (None, None) of
        (None, _) \<Rightarrow> Some NotObserved
      | (Some _, None) \<Rightarrow> Some NotObserved
      | (Some maxListed, Some minUnlisted) \<Rightarrow>
          if maxListed = 0 then (if minUnlisted = 0 then Some NoThrottling else None)
          else if minUnlisted / maxListed \<ge> minGapRatio then None
          else Some NoThrottling)"

definition Throttled_Check ::
  "string list \<Rightarrow> 'c check_node list \<Rightarrow> ('c \<Rightarrow> nat \<Rightarrow> sample_run) \<Rightarrow> check_error option option" where
  "Throttled_Check throttledNodes nodes runs =
     (if throttledNodes = [] then Some (Some NoThrottledNodes)
      else if nodes = [] then Some (Some NoActiveNodes)
      else
        case resolveLabels nodes throttledNodes of
          Inl e \<Rightarrow> Some (Some e)
        | Inr (labels, expected) \<Rightarrow>
            (case dialFirstReachable nodes of
               Inl e \<Rightarrow> Some (Some e)
             | Inr client \<Rightarrow>
                 (case collectEmissionRates (runs client) of
                    None \<Rightarrow> None
                  | Some (Inl e) \<Rightarrow> Some (Some e)
                  | Some (Inr rates) \<Rightarrow> Some (verifyThrottled expected rates))))"

section \<open>Network rules: network_rules.go\<close>

text \<open>
  The rules and the application of a patch to them are those of Sonic; \<open>apply_patch\<close> is
  \<open>ApplyNetworkRulesPatch\<close>, \<open>decode\<close> is \<open>decodeNetworkRulesPatch\<close>, which goes through YAML. The
  client of a node is its answer for the latest rules.
\<close>

record 'p networkRulesChecker =
  nr_rulesPatch :: 'p
  nr_configureErr :: "check_error option"
  nr_timeout :: duration

definition Rules_Configure ::
  "(cfg_val \<Rightarrow> check_error + 'p) \<Rightarrow> CheckerConfig \<Rightarrow> 'p networkRulesChecker \<Rightarrow> 'p networkRulesChecker option" where
  "Rules_Configure decode config c =
     (if config = None then Some c
      else case override as_int64 config ''duration'' (nr_timeout c) of
             None \<Rightarrow> None
           | Some t \<Rightarrow>
               let configured = c\<lparr>nr_timeout := t\<rparr>
               in (case cfg_get config ''rules'' of
                     None \<Rightarrow> Some configured
                   | Some rules \<Rightarrow>
                       (case decode rules of
                          Inl e \<Rightarrow> Some (configured\<lparr>nr_configureErr := Some e\<rparr>)
                        | Inr patch \<Rightarrow> Some (configured\<lparr>nr_rulesPatch := patch, nr_configureErr := None\<rparr>))))"

fun rules_nodes ::
  "('r \<Rightarrow> 'p \<Rightarrow> 'r option) \<Rightarrow> 'p \<Rightarrow> 'r option check_node list \<Rightarrow> string list \<Rightarrow> check_error + string list" where
  "rules_nodes apply_patch p [] got = Inr got"
| "rules_nodes apply_patch p (n # ns) got =
     (case cn_client n of
        None \<Rightarrow>
          if cn_expectedFailure n then rules_nodes apply_patch p ns (List.insert (cn_label n) got)
          else Inl (DialFailed (cn_label n))
      | Some None \<Rightarrow>
          if cn_expectedFailure n then rules_nodes apply_patch p ns (List.insert (cn_label n) got)
          else Inl (RulesRead (cn_label n))
      | Some (Some rules) \<Rightarrow>
          (case apply_patch rules p of
             None \<Rightarrow> Inl PatchFailed
           | Some patched \<Rightarrow>
               if rules = patched then rules_nodes apply_patch p ns got
               else if cn_expectedFailure n then rules_nodes apply_patch p ns (List.insert (cn_label n) got)
               else Inl (RulesMismatch (cn_label n))))"

definition rules_checkOnce ::
  "('r \<Rightarrow> 'p \<Rightarrow> 'r option) \<Rightarrow> 'p \<Rightarrow> 'r option check_node list \<Rightarrow> check_error option" where
  "rules_checkOnce apply_patch p nodes =
     (case rules_nodes apply_patch p nodes [] of
        Inl e \<Rightarrow> Some e
      | Inr got \<Rightarrow>
          if set got = set (map cn_label (filter cn_expectedFailure nodes)) then None
          else Some UnexpectedFailures)"

text \<open>An attempt of the polling loop: the nodes as they are at that time, and what the clock says.\<close>

definition Rules_Check ::
  "('r \<Rightarrow> 'p \<Rightarrow> 'r option) \<Rightarrow> 'p \<Rightarrow> 'p networkRulesChecker \<Rightarrow> (nat \<Rightarrow> 'r option check_node list) \<Rightarrow>
     (nat \<Rightarrow> bool \<times> bool) \<Rightarrow> check_error option option" where
  "Rules_Check apply_patch empty_patch c nodes_at clock =
     (case nr_configureErr c of
        Some e \<Rightarrow> Some (Some e)
      | None \<Rightarrow>
          if nr_rulesPatch c = empty_patch then Some None
          else timed_check (nr_timeout c)
                 (\<lambda>n. \<lparr>at_result = rules_checkOnce apply_patch (nr_rulesPatch c) (nodes_at n),
                       at_late = fst (clock n), at_slept = snd (clock n)\<rparr>))"

section \<open>Active validators: validators_active.go\<close>

definition expectedValidatorLabels :: "'c check_node list \<Rightarrow> (int, string) gomap" where
  "expectedValidatorLabels nodes = fold (\<lambda>n labels.
     if cn_expectedFailure n then labels
     else case cn_validatorId n of None \<Rightarrow> labels | Some i \<Rightarrow> gm_set i (cn_label n) labels) nodes []"

definition verifyAllActive :: "(int, string) gomap \<Rightarrow> int list \<Rightarrow> check_error option" where
  "verifyAllActive expected active =
     (let missing = filter (\<lambda>(i, label). i \<notin> set active) expected
      in if missing = [] then None else Some (NotActive (map fst missing)))"

text \<open>The client of a node is its answer for the validator set.\<close>

definition readActiveValidators :: "int list option check_node list \<Rightarrow> check_error + int list" where
  "readActiveValidators nodes =
     (case dialFirstReachable nodes of
        Inl e \<Rightarrow> Inl e
      | Inr None \<Rightarrow> Inl SetRead
      | Inr (Some active) \<Rightarrow> Inr active)"

definition active_attempt :: "(int, string) gomap \<Rightarrow> int list option check_node list \<Rightarrow> check_error option" where
  "active_attempt expected nodes =
     (case readActiveValidators nodes of
        Inl e \<Rightarrow> Some e
      | Inr active \<Rightarrow> verifyAllActive expected active)"

text \<open>
  The loop of \<open>Check\<close>. Its error at the deadline is that of the last attempt. The nodes are those of
  the start; \<open>answers n i\<close> is what the one at position \<open>i\<close> answers at attempt \<open>n\<close>.
\<close>

partial_function (option) active_loop :: "(nat \<Rightarrow> attempt) \<Rightarrow> nat \<Rightarrow> check_error option option" where
  "active_loop att n =
     (case at_result (att n) of
        None \<Rightarrow> Some None
      | Some e \<Rightarrow>
          if at_late (att n) then Some (Some e)
          else if at_slept (att n) then active_loop att (n + 1)
          else Some (Some Cancelled))"

definition nodes_now :: "(nat \<Rightarrow> 'c option) \<Rightarrow> unit check_node list \<Rightarrow> 'c check_node list" where
  "nodes_now answer nodes = map (\<lambda>(i, n). \<lparr>cn_label = cn_label n, cn_validatorId = cn_validatorId n,
     cn_expectedFailure = cn_expectedFailure n, cn_client = answer i\<rparr>) (enumerate 0 nodes)"

definition Active_Check ::
  "unit check_node list \<Rightarrow> (nat \<Rightarrow> nat \<Rightarrow> int list option option) \<Rightarrow> (nat \<Rightarrow> bool \<times> bool) \<Rightarrow>
     check_error option option" where
  "Active_Check nodes answers clock =
     (let expected = expectedValidatorLabels nodes
      in if nodes = [] then Some (Some NoActiveNodes)
         else if expected = [] then Some (Some NoValidators)
         else active_loop
                (\<lambda>n. \<lparr>at_result = active_attempt expected (nodes_now (answers n) nodes),
                      at_late = fst (clock n), at_slept = snd (clock n)\<rparr>) 0)"

end
