(* ===== verification/Checking_Properties.thy ===== *)
theory Checking_Properties
  imports Checking_Consensus
begin

text \<open>
  What a passed check means: exact characterisations of the verdicts over the data a check reads, the
  completeness of the walk that counts events, and the relation between the checks for a rolling and
  for a halted network.
\<close>

section \<open>Observation windows and block production\<close>

text \<open>Also where the multiplication overflows, an accepted window holds two samples.\<close>

lemma observationWindow_sound:
  "observationWindow dur tol = Inr w \<Longrightarrow> 2 * blockSampleInterval \<le> w \<and> (0 < dur \<longrightarrow> w = dur)"
  by (auto simp: observationWindow_def minObservationSamples_def Let_def split: if_splits)

lemma observationWindow_tolerance:
  "2 \<le> tol \<Longrightarrow> tol < 9000000000 \<Longrightarrow> observationWindow 0 tol = Inr (tol * blockSampleInterval)"
  by (simp add: observationWindow_def wrap64_id blockSampleInterval_def minObservationSamples_def)

definition window_accepted :: "window_config \<Rightarrow> bool" where
  "window_accepted c \<longleftrightarrow> (\<exists>w. observationWindow (wc_duration c) (wc_toleranceSamples c) = Inr w)"

lemma increases_iff: "increases ps \<longleftrightarrow> (\<exists>i. Suc i < length ps \<and> Value (ps ! i) < Value (ps ! Suc i))"
proof (induction ps rule: increases.induct)
  case (1 p q ps)
  show ?case
  proof
    assume "increases (p # q # ps)"
    then consider "Value p < Value q" | "increases (q # ps)" by auto
    then show "\<exists>i. Suc i < length (p # q # ps) \<and> Value ((p # q # ps) ! i) < Value ((p # q # ps) ! Suc i)"
    proof cases
      case 1
      then show ?thesis by (intro exI [of _ 0]) simp
    next
      case 2
      with 1 obtain i where "Suc i < length (q # ps)" "Value ((q # ps) ! i) < Value ((q # ps) ! Suc i)" by auto
      then show ?thesis by (intro exI [of _ "Suc i"]) simp
    qed
  next
    assume "\<exists>i. Suc i < length (p # q # ps) \<and> Value ((p # q # ps) ! i) < Value ((p # q # ps) ! Suc i)"
    then obtain i where i: "Suc i < length (p # q # ps)" "Value ((p # q # ps) ! i) < Value ((p # q # ps) ! Suc i)" by blast
    then show "increases (p # q # ps)" using 1 by (cases i) auto
  qed
qed auto

lemma no_increase_le: "\<not> increases (p # ps) \<Longrightarrow> Value ((p # ps) ! length ps) \<le> Value p"
proof (induction ps arbitrary: p)
  case (Cons q ps)
  then have "Value ((q # ps) ! length ps) \<le> Value q" "Value q \<le> Value p" by auto
  then show ?case by simp
qed simp

lemma advanced_increases:
  assumes "advanced ps"
  shows "2 \<le> length ps \<and> increases ps"
proof -
  from assms obtain p qs where ps: "ps = p # qs" by (cases ps) (auto simp: advanced_def)
  with assms have less: "Value p < Value ((p # qs) ! length qs)" by (simp add: advanced_def)
  then have "qs \<noteq> []" by auto
  moreover have "increases (p # qs)" using no_increase_le [of p qs] less by force
  ultimately show ?thesis by (cases qs) (simp_all add: ps)
qed

lemma increases_advanced:
  assumes mono: "sorted (map Value ps)" and inc: "increases ps"
  shows "advanced ps"
proof -
  from inc obtain i where i: "Suc i < length ps" "Value (ps ! i) < Value (ps ! Suc i)" by (auto simp: increases_iff)
  have ne: "ps \<noteq> []" using i by auto
  have "Value (ps ! 0) \<le> Value (ps ! i)" "Value (ps ! Suc i) \<le> Value (ps ! (length ps - 1))"
    using sorted_nth_mono [OF mono, of 0 i] sorted_nth_mono [OF mono, of "Suc i" "length ps - 1"] i ne
    by simp_all
  with i ne show ?thesis by (auto simp: advanced_def hd_conv_nth)
qed

text \<open>
  on the same observations a network cannot pass both the check for rolling blocks and the check
  for halted blocks: where the first passes, the second reports that blocks are still produced. If the
  window is accepted and not interrupted and every node reports heights that never decrease, exactly
  one of the two passes.
\<close>

theorem rolling_excludes_halted:
  "(Rolling_Check c start slept nodes = None \<longrightarrow> Halted_Check c start slept nodes = Some StillProducing) \<and>
   (window_accepted c \<and> slept \<and> (\<forall>s \<in> set nodes. sorted (map Value (observed start s))) \<longrightarrow>
      (Rolling_Check c start slept nodes = None) \<noteq> (Halted_Check c start slept nodes = None))"
proof -
  let ?some = "\<lambda>P. list_ex (\<lambda>s. P (observed start s)) nodes"
  let ?inc = "\<lambda>ps. minObservationSamples \<le> length ps \<and> increases ps"
  have forth: "?some ?inc" if adv: "?some advanced"
  proof -
    from adv obtain s where "s \<in> set nodes" "advanced (observed start s)" by (auto simp: list_ex_iff)
    with advanced_increases [of "observed start s"] show ?thesis
      by (auto simp: list_ex_iff minObservationSamples_def intro!: bexI [of _ s])
  qed
  have rev: "?some advanced" if inc: "?some ?inc" and mono: "\<forall>s \<in> set nodes. sorted (map Value (observed start s))"
  proof -
    from inc obtain s where "s \<in> set nodes" "increases (observed start s)" by (auto simp: list_ex_iff)
    with increases_advanced [of "observed start s"] mono show ?thesis by (auto simp: list_ex_iff)
  qed
  show ?thesis
    by (cases "observationWindow (wc_duration c) (wc_toleranceSamples c)")
       (use forth rev in \<open>auto simp: Rolling_Check_def Halted_Check_def window_accepted_def\<close>)
qed

definition ex_heights :: height_series where
  "ex_heights = [\<lparr>Position = 10, Value = 5\<rparr>, \<lparr>Position = 20, Value = 7\<rparr>]"

lemma ex_heights_observed: "observed 8 ex_heights = ex_heights"
proof -
  have "synced_wf ex_heights" by (simp add: ex_heights_def synced_wf_def)
  then have "Synced_GetRange ex_heights 8 21 = filter (\<lambda>p. 8 \<le> Position p \<and> Position p < 21) ex_heights"
    by (rule Synced_GetRange_filter) simp
  then show ?thesis by (simp add: observed_def Synced_GetLatest_def ex_heights_def)
qed

theorem rolling_excludes_halted_witness:
  "Rolling_Check \<lparr>wc_toleranceSamples = 10, wc_duration = 0\<rparr> 8 True [ex_heights] = None \<and>
   Halted_Check \<lparr>wc_toleranceSamples = 10, wc_duration = 0\<rparr> 8 True [ex_heights] = Some StillProducing"
proof -
  let ?c = "\<lparr>wc_toleranceSamples = 10, wc_duration = 0\<rparr>"
  have "Rolling_Check ?c 8 True [ex_heights] = None"
    by (simp add: Rolling_Check_def observationWindow_tolerance ex_heights_observed) (simp add: ex_heights_def advanced_def)
  then show ?thesis using rolling_excludes_halted [of ?c 8 True "[ex_heights]"] by simp
qed

section \<open>Gas rates and block heights\<close>

lemma find_None_all: "find P xs = None \<longleftrightarrow> (\<forall>x \<in> set xs. \<not> P x)"
  by (auto simp: find_None_iff)

lemma latest_in: "Synced_GetLatest s = Some l \<Longrightarrow> l \<in> set s"
  by (auto simp: Synced_GetLatest_def split: if_splits)

lemma gas_points:
  fixes after :: "(int, 'v) SyncedSeries"
  assumes wf: "synced_wf after" and l: "Synced_GetLatest after = Some head" and le: "first \<le> Position head"
  shows "set (Synced_GetRange after first (Position head + 1)) = {p \<in> set after. first \<le> Position p}"
proof -
  have "Position p < Position head + 1" if "p \<in> set after" for p
    using synced.latest_highest [OF wf l, of p] that by simp
  then show ?thesis using le by (auto simp: Synced_GetRange_filter [OF wf])
qed

text \<open>
  the gas rate check, over an accepted window that was not interrupted, passes exactly if every
  block that was added after the head of the start has a gas rate of at most the ceiling.
\<close>

theorem gas_rate_verdict:
  assumes "window_accepted (gr_window c)" "synced_wf after"
  shows "GasRate_Check c before True after = None \<longleftrightarrow>
    (\<forall>p \<in> set after. (case Synced_GetLatest before of None \<Rightarrow> 0 \<le> Position p
        | Some head \<Rightarrow> Position head < Position p) \<longrightarrow> Value p \<le> gr_ceiling c)"
proof -
  let ?first = "case Synced_GetLatest before of None \<Rightarrow> 0 | Some head \<Rightarrow> Position head + 1"
  have first: "?first \<le> Position p \<longleftrightarrow> (case Synced_GetLatest before of None \<Rightarrow> 0 \<le> Position p
        | Some head \<Rightarrow> Position head < Position p)" for p :: "(int, rat) DataPoint"
    by (auto split: option.split)
  show ?thesis
  proof (cases "Synced_GetLatest after")
    case None
    then have "after = []" by (simp add: Synced_GetLatest_def split: if_splits)
    then show ?thesis using assms(1) None by (auto simp: GasRate_Check_def window_accepted_def)
  next
    case (Some head)
    show ?thesis
    proof (cases "Position head < ?first")
      case True
      have "\<not> ?first \<le> Position p" if "p \<in> set after" for p
        using synced.latest_highest [OF assms(2) Some, of p] that True by simp
      then have "\<forall>p \<in> set after. ?first \<le> Position p \<longrightarrow> Value p \<le> gr_ceiling c" by blast
      then show ?thesis using assms(1) Some True unfolding first by (auto simp: GasRate_Check_def window_accepted_def Let_def)
    next
      case False
      then have "set (Synced_GetRange after ?first (Position head + 1)) = {p \<in> set after. ?first \<le> Position p}"
        using gas_points [OF assms(2) Some] by simp
      then have "find (\<lambda>p. Value p > gr_ceiling c) (Synced_GetRange after ?first (Position head + 1)) = None \<longleftrightarrow>
          (\<forall>p \<in> set after. ?first \<le> Position p \<longrightarrow> Value p \<le> gr_ceiling c)"
        by (auto simp: find_None_all not_less)
      then show ?thesis using assms(1) Some False unfolding first
        by (auto simp: GasRate_Check_def window_accepted_def Let_def split: option.split)
    qed
  qed
qed

theorem gas_rate_verdict_witness:
  "GasRate_Check \<lparr>gr_ceiling = 100, gr_window = \<lparr>wc_toleranceSamples = 10, wc_duration = 0\<rparr>\<rparr>
     [\<lparr>Position = 1, Value = 500\<rparr>] True [\<lparr>Position = 1, Value = 500\<rparr>, \<lparr>Position = 2, Value = 90\<rparr>] = None"
proof -
  have "window_accepted \<lparr>wc_toleranceSamples = 10, wc_duration = 0\<rparr>"
    by (simp add: window_accepted_def observationWindow_tolerance)
  then show ?thesis
    using gas_rate_verdict [of "\<lparr>gr_ceiling = 100, gr_window = \<lparr>wc_toleranceSamples = 10, wc_duration = 0\<rparr>\<rparr>"
        "[\<lparr>Position = 1, Value = 500\<rparr>, \<lparr>Position = 2, Value = 90\<rparr>]" "[\<lparr>Position = 1, Value = 500\<rparr>]"]
    by (simp add: synced_wf_def Synced_GetLatest_def)
qed

text \<open>The heights of all nodes are read and valid, and the result is their maximum.\<close>

lemma height_reads_iff:
  "height_reads nodes m = Inr r \<longleftrightarrow>
     (\<forall>n \<in> set nodes. \<exists>h \<ge> 1. hn_height n = Some h) \<and> r = fold max (map (\<lambda>n. the (hn_height n)) nodes) m"
  by (induction nodes arbitrary: m) (auto split: option.split simp: max.commute)

lemma fold_max_Max: "fold max xs (m :: int) = Max (insert m (set xs))"
  using Max.set_eq_fold [of m xs] by simp

text \<open>
  a single attempt of the block height check passes exactly if every node reports a height of at
  least one and the labels of the nodes that lag behind the highest node by more than the slack are
  those of the nodes expected to fail, no other node lagging.
\<close>

theorem height_verdict:
  "height_checkOnce slack nodes = None \<longleftrightarrow>
     (\<forall>n \<in> set nodes. \<exists>h \<ge> 1. hn_height n = Some h) \<and>
     (let top = Max (insert 0 ((\<lambda>n. the (hn_height n)) ` set nodes));
          lagging = {n \<in> set nodes. the (hn_height n) < top - slack}
      in lagging \<subseteq> {n \<in> set nodes. hn_expectedFailure n} \<and>
         hn_label ` lagging = hn_label ` {n \<in> set nodes. hn_expectedFailure n})"
proof (cases "height_reads nodes 0")
  case (Inl e)
  then have "\<not> (\<forall>n \<in> set nodes. \<exists>h \<ge> 1. hn_height n = Some h)"
    using height_reads_iff [of nodes 0] by (metis Inl_Inr_False)
  then show ?thesis using Inl by (auto simp: height_checkOnce_def)
next
  case (Inr top)
  then have ok: "\<forall>n \<in> set nodes. \<exists>h \<ge> 1. hn_height n = Some h"
    and top: "top = Max (insert 0 ((\<lambda>n. the (hn_height n)) ` set nodes))"
    by (auto simp: height_reads_iff fold_max_Max)
  have "(find (\<lambda>n. too_old top slack n \<and> \<not> hn_expectedFailure n) nodes = None) \<longleftrightarrow>
      {n \<in> set nodes. the (hn_height n) < top - slack} \<subseteq> {n \<in> set nodes. hn_expectedFailure n}"
    by (auto simp: find_None_all too_old_def)
  then show ?thesis using Inr ok
    by (auto simp: height_checkOnce_def too_old_def Let_def simp flip: top split: option.split)
qed

theorem height_verdict_witness:
  "height_checkOnce 5 [\<lparr>hn_label = ''a'', hn_expectedFailure = False, hn_height = Some 20\<rparr>,
     \<lparr>hn_label = ''b'', hn_expectedFailure = True, hn_height = Some 10\<rparr>] = None"
  unfolding height_verdict by (auto simp: Let_def)

text \<open>A configuration that passes its check has the types the checkers assert.\<close>

lemma checked_value:
  "CheckerConfig_Check c = [] \<Longrightarrow> (key, chk) \<in> set config_checks \<Longrightarrow> cfg_get c key = Some v \<Longrightarrow> chk v"
  by (fastforce simp: CheckerConfig_Check_def filter_empty_conv)

lemma checked_types:
  "isPositiveInt v \<Longrightarrow> as_int v \<noteq> None" "isNonNegativeInt64 v \<Longrightarrow> as_int64 v \<noteq> None" "isBool v \<Longrightarrow> as_bool v \<noteq> None"
  by (cases v; simp)+

lemma override_checked:
  assumes "CheckerConfig_Check c = []" "(key, chk) \<in> set config_checks" "\<And>v. chk v \<Longrightarrow> as_t v \<noteq> None"
  shows "\<exists>x. override as_t c key d = Some x"
  using checked_value [OF assms(1,2)] assms(3) by (auto simp: override_def split: option.split)

text \<open>
  a configuration that passes its own check makes no checker panic when it is applied: the type
  assertions of every \<open>Configure\<close> succeed.
\<close>

theorem checked_config_no_panic:
  assumes "CheckerConfig_Check config = []"
  shows "configure_window config w \<noteq> None \<and> GasRate_Configure config g \<noteq> None \<and>
    Height_Configure config h \<noteq> None \<and> Rules_Configure decode config r \<noteq> None \<and> failing_Configure config \<noteq> None"
proof -
  note ov = override_checked [OF assms, unfolded config_checks_def]
  have tol: "\<exists>x. override as_int config ''tolerance'' d = Some x" for d
    by (rule ov [of _ isPositiveInt]) (simp_all add: checked_types)
  have slack: "\<exists>x. override as_int config ''slack'' d = Some x" for d
    by (rule ov [of _ isPositiveInt]) (simp_all add: checked_types)
  have ceil: "\<exists>x. override as_int config ''ceiling'' d = Some x" for d
    by (rule ov [of _ isPositiveInt]) (simp_all add: checked_types)
  have dur: "\<exists>x. override as_int64 config ''duration'' d = Some x" for d
    by (rule ov [of _ isNonNegativeInt64]) (simp_all add: checked_types)
  have fail: "\<exists>x. override as_bool config ''failing'' d = Some x" for d
    by (rule ov [of _ isBool]) (simp_all add: checked_types)
  have win: "\<exists>x. configure_window config w = Some x" for w
    using tol [of "wc_toleranceSamples w"] dur [of "wc_duration w"] by (auto simp: configure_window_def)
  moreover have "GasRate_Configure config g \<noteq> None"
    using win ceil [of 0] by (auto simp: GasRate_Configure_def override_def split: option.splits)
  moreover have "Height_Configure config h \<noteq> None"
    using slack [of "hc_slack h"] dur [of "hc_timeout h"] by (auto simp: Height_Configure_def)
  moreover have "Rules_Configure decode config r \<noteq> None"
    using dur [of "nr_timeout r"] by (auto simp: Rules_Configure_def Let_def split: option.split sum.split)
  moreover have "failing_Configure config \<noteq> None"
    using fail [of False] by (auto simp: failing_Configure_def override_def split: option.splits)
  ultimately show ?thesis by auto
qed

theorem checked_config_no_panic_witness:
  "configure_window (Some [(''tolerance'', VInt 3), (''duration'', VInt64 0)])
     \<lparr>wc_toleranceSamples = 10, wc_duration = 0\<rparr> \<noteq> None \<and>
   CheckerConfig_Check (Some [(''tolerance'', VInt64 3)]) = [''tolerance'']"
proof -
  have "CheckerConfig_Check (Some [(''tolerance'', VInt 3), (''duration'', VInt64 0)]) = []"
    by (simp add: CheckerConfig_Check_def config_checks_def cfg_get_def)
  from checked_config_no_panic [OF this, of "\<lparr>wc_toleranceSamples = 10, wc_duration = 0\<rparr>", THEN conjunct1] show ?thesis
    by (auto simp: CheckerConfig_Check_def config_checks_def cfg_get_def)
qed

section \<open>Block hashes\<close>

lemma compare_nodes_Some:
  "compare_nodes nodes b (Some r) = Inr r' \<Longrightarrow>
     r' = r \<and> (\<forall>n \<in> set nodes. healthy n \<longrightarrow> (\<exists>blk. hl_block (the (hd_client n)) b = Inr (Some blk) \<and> blk = r))"
proof (induction nodes)
  case (Cons n ns)
  then show ?case
    by (cases "hl_block (the (hd_client n)) b")
       (auto split: if_splits option.splits simp: compareBlockHashes_def intro!: blockHashes.equality)
qed simp

text \<open>After a passed comparison every healthy node has the block with the hashes of the reference.\<close>

lemma compareHealthyNodes_agree:
  "compare_nodes nodes b None = Inr r \<Longrightarrow> n \<in> set nodes \<Longrightarrow> healthy n \<Longrightarrow>
     hl_block (the (hd_client n)) b = Inr (Some r)"
proof (induction nodes)
  case (Cons m ns)
  show ?case
  proof (cases "healthy m")
    case True
    then obtain blk where "hl_block (the (hd_client m)) b = Inr (Some blk)" "compare_nodes ns b (Some blk) = Inr r"
      using Cons.prems(1) by (auto split: sum.splits option.splits)
    with compare_nodes_Some [of ns b blk r] Cons.prems show ?thesis by auto
  next
    case False
    with Cons show ?thesis by auto
  qed
qed simp

lemma min_height_le:
  "min_height nodes m = Inr limit \<Longrightarrow>
     limit \<le> m \<and> (\<forall>n \<in> set nodes. healthy n \<longrightarrow> (\<exists>h. hl_height (the (hd_client n)) = Some h \<and> limit \<le> h)) \<and>
     (limit = m \<or> (\<exists>n \<in> set nodes. healthy n \<and> hl_height (the (hd_client n)) = Some limit))"
proof (induction nodes arbitrary: m)
  case (Cons n ns)
  show ?case
  proof (cases "healthy n")
    case True
    then obtain h where h: "hl_height (the (hd_client n)) = Some h" and
        rest: "min_height ns (if h < m then h else m) = Inr limit"
      using Cons.prems by (auto split: option.splits)
    from Cons.IH [OF rest] h True show ?thesis by (auto split: if_splits)
  next
    case False
    with Cons show ?thesis by auto
  qed
qed simp

lemma distance_less: "b \<noteq> limit \<Longrightarrow> unat (limit - (b + 1)) < unat (limit - b)" for b limit :: u64
proof -
  assume "b \<noteq> limit"
  then have "unat (limit - b - 1) < unat (limit - b)" by (intro measure_unat) simp
  then show ?thesis by (simp add: diff_diff_eq)
qed

text \<open>The loop over the blocks ends unless the limit is the largest 64-bit number.\<close>

lemma compare_blocks_returns:
  "limit \<noteq> - 1 \<Longrightarrow> \<exists>r. compare_blocks nodes limit b got = Some r"
proof (induction "unat (limit - b)" arbitrary: b got rule: less_induct)
  case less
  have nxt: "\<exists>r. compare_blocks nodes limit (b + 1) got1 = Some r" if "b \<le> limit" for got1
  proof (cases "b = limit")
    case True
    moreover have "1 + limit \<noteq> 0" using less.prems by (metis add.commute eq_neg_iff_add_eq_0)
    then have "unat (1 + limit) = Suc (unat limit)" by (rule unatSuc)
    ultimately have "\<not> b + 1 \<le> limit" by (simp add: word_le_nat_alt add.commute)
    then show ?thesis by (subst compare_blocks.simps) simp
  next
    case False
    then show ?thesis using less distance_less by blast
  qed
  show ?case
    by (subst compare_blocks.simps) (auto split: sum.split simp: nxt)
qed

lemma compare_blocks_sound:
  assumes "compare_blocks nodes limit b got = Some (Inr got')"
  shows "b \<le> x \<Longrightarrow> x \<le> limit \<Longrightarrow> limit \<noteq> - 1 \<Longrightarrow> \<exists>r. compareHealthyNodes nodes x = Inr r"
  using assms
proof (induction "unat (limit - b)" arbitrary: b got rule: less_induct)
  case less
  have le: "b \<le> limit" using less.prems(1,2) by (rule order_trans)
  then obtain r where r: "compareHealthyNodes nodes b = Inr r"
      and rest: "compare_blocks nodes limit (b + 1) (recordFailingNodes nodes b r got) = Some (Inr got')"
    using less.prems(4) by (subst (asm) compare_blocks.simps) (auto split: sum.splits)
  show ?case
  proof (cases "x = b")
    case True
    then show ?thesis using r by simp
  next
    case False
    then have "b < x" using less.prems(1) by simp
    then have "b + 1 \<le> x" by (rule inc_le)
    have "b \<noteq> limit" using False less.prems(1,2) by auto
    then have "unat (limit - (b + 1)) < unat (limit - b)" by (rule distance_less)
    with less \<open>b + 1 \<le> x\<close> rest show ?thesis by blast
  qed
qed

text \<open>
  C17: if the block hash check passes, every two healthy nodes, that is reachable nodes not expected to
  fail, have the same hash, state root and receipts root for every block up to the lowest height of a
  healthy node.
\<close>

theorem hash_check_sound:
  assumes pass: "Hashes_Check nodes = Some None"
    and n: "n \<in> set nodes" "healthy n" and m: "m \<in> set nodes" "healthy m"
    and b: "\<forall>k \<in> set nodes. healthy k \<longrightarrow> (\<exists>h. hl_height (the (hd_client k)) = Some h \<and> b \<le> h \<and> h \<noteq> - 1)"
  shows "\<exists>r. hl_block (the (hd_client n)) b = Inr (Some r) \<and> hl_block (the (hd_client m)) b = Inr (Some r)"
proof -
  have some: "card (set (map hd_label (filter hd_expectedFailure nodes))) \<noteq> length nodes"
  proof -
    have "card (set (map hd_label (filter hd_expectedFailure nodes))) \<le> length (filter hd_expectedFailure nodes)"
      by (metis card_length length_map)
    also have "\<dots> < length nodes"
      using n by (intro length_filter_less [of n]) (auto simp: healthy_def)
    finally show ?thesis by simp
  qed
  with pass obtain limit got where limit: "commonHeight nodes = Inr limit"
      and run: "\<exists>got0. compare_blocks nodes limit 0 got0 = Some (Inr got)"
    by (auto simp: Hashes_Check_def Let_def split: option.splits sum.splits)
  from limit have "min_height nodes (- 1) = Inr limit"
    by (auto simp: commonHeight_def split: sum.splits if_splits)
  note mh = min_height_le [OF this]
  have "limit \<noteq> - 1 \<and> b \<le> limit"
  proof (cases "limit = - 1")
    case True
    with mh n obtain h where "hl_height (the (hd_client n)) = Some h" "- 1 \<le> h" by auto
    with b n show ?thesis using word_order.extremum_uniqueI [of h] by auto
  next
    case False
    with mh obtain k where "k \<in> set nodes" "healthy k" "hl_height (the (hd_client k)) = Some limit" by auto
    with b show ?thesis by fastforce
  qed
  moreover obtain got0 where "compare_blocks nodes limit 0 got0 = Some (Inr got)" using run by blast
  ultimately obtain r where "compare_nodes nodes b None = Inr r"
    using compare_blocks_sound [of nodes limit 0 got0 got b] by (auto simp: compareHealthyNodes_def)
  then show ?thesis using compareHealthyNodes_agree n m by blast
qed

definition ex_hash_node :: "string \<Rightarrow> hash \<Rightarrow> hash_node" where
  "ex_hash_node l h = \<lparr>hd_label = l, hd_expectedFailure = False,
     hd_client = Some \<lparr>hl_height = Some 2, hl_block = (\<lambda>b. Inr (Some \<lparr>bh_Hash = h, bh_StateRoot = 1, bh_ReceiptsRoot = 2\<rparr>))\<rparr>\<rparr>"

lemma ex_hash_pass: "Hashes_Check [ex_hash_node ''a'' 7, ex_hash_node ''b'' 7] = Some None"
  by (simp add: Hashes_Check_def ex_hash_node_def commonHeight_def healthy_def minComparableBlock_def
        compare_blocks.simps compareHealthyNodes_def compareBlockHashes_def recordFailingNodes_def)

theorem hash_check_sound_witness:
  "\<exists>r. hl_block (the (hd_client (ex_hash_node ''a'' 7))) 1 = Inr (Some r) \<and>
       hl_block (the (hd_client (ex_hash_node ''b'' 7))) 1 = Inr (Some r)"
  by (rule hash_check_sound [OF ex_hash_pass]) (auto simp: ex_hash_node_def healthy_def)

section \<open>Throttled validators\<close>

text \<open>What the loop over the rates keeps: the fastest listed and the slowest unlisted rate.\<close>

definition listed_rates :: "u64 list \<Rightarrow> (u64, rat) gomap \<Rightarrow> rat set" where
  "listed_rates expected rates = snd ` {p \<in> set rates. fst p \<in> set expected}"

definition unlisted_rates :: "u64 list \<Rightarrow> (u64, rat) gomap \<Rightarrow> rat set" where
  "unlisted_rates expected rates = snd ` {p \<in> set rates. fst p \<notin> set expected}"

definition best_of :: "(rat set \<Rightarrow> rat) \<Rightarrow> rat set \<Rightarrow> rat option" where
  "best_of pick S = (if S = {} then None else Some (pick S))"

lemma listed_snoc:
  "listed_rates ex (rs @ [(i, r)]) = (if i \<in> set ex then insert r (listed_rates ex rs) else listed_rates ex rs)"
  "unlisted_rates ex (rs @ [(i, r)]) = (if i \<in> set ex then unlisted_rates ex rs else insert r (unlisted_rates ex rs))"
  by (force simp: listed_rates_def unlisted_rates_def)+

lemma listed_finite [simp]: "finite (listed_rates ex rs)" "finite (unlisted_rates ex rs)"
  by (simp_all add: listed_rates_def unlisted_rates_def)

lemma best_insert:
  "finite S \<Longrightarrow> best_of Max (insert r S) = Some (case best_of Max S of None \<Rightarrow> r | Some m \<Rightarrow> if r > m then r else m)"
  "finite S \<Longrightarrow> best_of Min (insert r S) = Some (case best_of Min S of None \<Rightarrow> r | Some m \<Rightarrow> if r < m then r else m)"
  by (auto simp: best_of_def max_def min_def
        simp del: Max_less_iff Min_gr_iff Max_gr_iff Min_less_iff Max_le_iff Min_ge_iff Max_ge_iff Min_le_iff)

lemma rate_fold:
  "fold (rate_step expected) rates (None, None) =
     (best_of Max (listed_rates expected rates), best_of Min (unlisted_rates expected rates))"
proof (induction rates rule: rev_induct)
  case Nil
  then show ?case by (simp add: best_of_def listed_rates_def unlisted_rates_def)
next
  case (snoc ir rates)
  obtain i r where "ir = (i, r)" by (cases ir)
  then show ?case
    by (simp add: snoc listed_snoc best_insert) (simp add: rate_step_def split: option.split)
qed

text \<open>
  the throttling check accepts measured rates exactly if a listed and an unlisted validator were
  observed, every unlisted one emits, and every unlisted validator emits at least twice as fast as
  every listed one.
\<close>

theorem throttled_verdict:
  assumes nonneg: "\<forall>p \<in> set rates. 0 \<le> snd p"
  shows "verifyThrottled expected rates = None \<longleftrightarrow>
    listed_rates expected rates \<noteq> {} \<and> unlisted_rates expected rates \<noteq> {} \<and>
    (\<forall>u \<in> unlisted_rates expected rates. 0 < u \<and> (\<forall>l \<in> listed_rates expected rates. 2 * l \<le> u))"
proof (cases "listed_rates expected rates = {} \<or> unlisted_rates expected rates = {}")
  case True
  then show ?thesis by (auto simp: verifyThrottled_def rate_fold best_of_def)
next
  case False
  define L U where sets: "L = listed_rates expected rates" "U = unlisted_rates expected rates"
  define top low where ends: "top = Max L" "low = Min U"
  have mx: "top \<in> L" "\<And>l. l \<in> L \<Longrightarrow> l \<le> top" and mn: "low \<in> U" "\<And>u. u \<in> U \<Longrightarrow> low \<le> u"
    using False by (simp_all add: ends sets)
  have pos: "0 \<le> top" "0 \<le> low"
    using mx(1) mn(1) nonneg by (auto simp: sets listed_rates_def unlisted_rates_def)
  have "(\<forall>u \<in> U. 0 < u \<and> (\<forall>l \<in> L. 2 * l \<le> u)) \<longleftrightarrow> 0 < low \<and> 2 * top \<le> low"
    using mx mn by (meson order_less_le_trans order_trans mult_left_mono zero_le_numeral)
  moreover have "verifyThrottled expected rates = None \<longleftrightarrow> 0 < low \<and> 2 * top \<le> low"
    using False pos
    by (auto simp: verifyThrottled_def rate_fold best_of_def minGapRatio_def le_divide_eq simp flip: sets ends)
  ultimately show ?thesis using False by (simp add: sets)
qed

theorem throttled_verdict_witness:
  "verifyThrottled [3] [(1, 10), (3, 4), (2, 8)] = None \<and> unlisted_rates [3] [(1, 10), (3, 4), (2, 8)] \<noteq> {}"
proof -
  have "verifyThrottled [3] [(1, 10), (3, 4), (2, 8)] = None"
    by (simp add: verifyThrottled_def rate_step_def minGapRatio_def)
  then show ?thesis
    using throttled_verdict [of "[(1, 10), (3, 4), (2, 8)]" "[3]"] by auto
qed

section \<open>Counting events\<close>

text \<open>The events that can be reached from some by going to the parents a client names.\<close>

definition event_parents :: "event_source \<Rightarrow> hash \<Rightarrow> hash set" where
  "event_parents client h = (case client h of Inr (Some ev) \<Rightarrow> set (re_Parents ev) | _ \<Rightarrow> {})"

inductive_set event_ancestors :: "event_source \<Rightarrow> hash set \<Rightarrow> hash set" for client H where
  head: "h \<in> H \<Longrightarrow> h \<in> event_ancestors client H"
| parent: "h \<in> event_ancestors client H \<Longrightarrow> p \<in> event_parents client h \<Longrightarrow> p \<in> event_ancestors client H"

definition created_by :: "event_source \<Rightarrow> u64 \<Rightarrow> hash \<Rightarrow> bool" where
  "created_by client c h \<longleftrightarrow> (case client h of Inr (Some ev) \<Rightarrow> re_Creator ev = c | _ \<Rightarrow> False)"

text \<open>
  The invariant of the walk: what was visited or waits is an ancestor of the heads, the heads and the
  parents of what was visited were visited or wait, and the counts are those of the visited events.
\<close>

definition count_inv ::
  "event_source \<Rightarrow> hash set \<Rightarrow> hash list \<Rightarrow> hash list \<Rightarrow> (u64, int) gomap \<Rightarrow> bool" where
  "count_inv client H queue visited counts \<longleftrightarrow>
     set queue \<union> set visited \<subseteq> event_ancestors client H \<and> H \<subseteq> set queue \<union> set visited \<and>
     (\<forall>h \<in> set visited. event_parents client h \<subseteq> set queue \<union> set visited) \<and>
     (\<forall>c. count_of counts c = int (card {h \<in> set visited. created_by client c h}))"

lemma count_of_event: "count_of (count_event c counts) c' = count_of counts c' + of_bool (c' = c)"
  by (auto simp: count_of_def count_event_def gomap_simps)

lemma created_by_insert:
  assumes "x \<notin> set visited"
  shows "card {h \<in> set (x # visited). created_by client c h} =
    card {h \<in> set visited. created_by client c h} + of_bool (created_by client c x)"
proof -
  have "{h \<in> set (x # visited). created_by client c h} =
      (if created_by client c x then insert x {h \<in> set visited. created_by client c h}
       else {h \<in> set visited. created_by client c h})" by auto
  then show ?thesis using assms by simp
qed

lemma queue_set: "queue \<noteq> [] \<Longrightarrow> set queue = insert (last queue) (set (butlast queue))"
  by (metis append_butlast_last_id insert_is_Un list.set(2) empty_set set_append sup_commute)

lemma count_inv_skip:
  "count_inv client H queue visited counts \<Longrightarrow> queue \<noteq> [] \<Longrightarrow> last queue \<in> set visited \<Longrightarrow>
     count_inv client H (butlast queue) visited counts"
  by (auto simp: count_inv_def queue_set)

lemma count_inv_missing:
  assumes inv: "count_inv client H queue visited counts" and ne: "queue \<noteq> []"
    and new: "last queue \<notin> set visited" and none: "client (last queue) = Inr None"
  shows "count_inv client H (butlast queue) (last queue # visited) counts"
proof -
  have "\<not> created_by client c (last queue)" for c using none by (simp add: created_by_def)
  moreover have "event_parents client (last queue) = {}" using none by (simp add: event_parents_def)
  ultimately show ?thesis
    using inv queue_set [OF ne] unfolding count_inv_def created_by_insert [OF new] by auto
qed

lemma count_inv_event:
  assumes inv: "count_inv client H queue visited counts" and ne: "queue \<noteq> []"
    and new: "last queue \<notin> set visited" and ev: "client (last queue) = Inr (Some ev)"
  shows "count_inv client H
    (butlast queue @ filter (\<lambda>p. p \<notin> set (last queue # visited)) (re_Parents ev)) (last queue # visited)
    (count_event (re_Creator ev) counts)"
proof -
  have par: "event_parents client (last queue) = set (re_Parents ev)" using ev by (simp add: event_parents_def)
  have anc: "last queue \<in> event_ancestors client H" using inv queue_set [OF ne] by (auto simp: count_inv_def)
  then have "set (re_Parents ev) \<subseteq> event_ancestors client H"
    using event_ancestors.parent [of "last queue" client H] par by auto
  moreover have "created_by client c (last queue) \<longleftrightarrow> c = re_Creator ev" for c
    using ev by (auto simp: created_by_def)
  ultimately show ?thesis
    using inv queue_set [OF ne] par unfolding count_inv_def created_by_insert [OF new] count_of_event by auto
qed

lemma unvisited_less:
  fixes x :: hash
  assumes "x \<notin> set visited"
  shows "card (- set (x # visited)) < card (- set visited)"
proof -
  have "- set (x # visited) = - set visited - {x}" by auto
  then show ?thesis using assms by (metis Compl_iff card_Diff1_less finite)
qed

text \<open>The result of the walk: exact counts, or an error of a client or the context.\<close>

definition count_outcome ::
  "event_source \<Rightarrow> (nat \<Rightarrow> bool) \<Rightarrow> hash set \<Rightarrow> (check_error + (u64, int) gomap) \<Rightarrow> bool" where
  "count_outcome client cancelled H r \<longleftrightarrow>
     (case r of
        Inl e \<Rightarrow> (e = Cancelled \<and> (\<exists>n. cancelled n)) \<or> (e = EventRead \<and> (\<exists>h \<in> event_ancestors client H. isl (client h)))
      | Inr counts \<Rightarrow> (\<exists>visited. count_inv client H [] visited counts))"

lemma count_events_outcome:
  "count_inv client H queue visited counts \<Longrightarrow>
     \<exists>r. count_events client cancelled n queue visited counts = Some r \<and> count_outcome client cancelled H r"
proof (induction "(card (- set visited), length queue)" arbitrary: n queue visited counts
    rule: wf_induct_rule [OF wf_lex_prod [OF wf_less wf_less]])
  case (1 queue visited n counts)
  let ?x = "last queue" and ?rest = "butlast queue"
  show ?case
  proof (cases "queue = [] \<or> cancelled n")
    case True
    then show ?thesis using "1.prems" by (subst count_events.simps) (auto simp: count_outcome_def)
  next
    case False
    note inv = "1.prems"
    show ?thesis
    proof (cases "?x \<in> set visited")
      case True
      have "\<exists>r. count_events client cancelled (n + 1) ?rest visited counts = Some r \<and> count_outcome client cancelled H r"
        by (rule "1.hyps") (use False count_inv_skip [OF inv _ True] in auto)
      then show ?thesis using False True by (subst count_events.simps) (simp add: Let_def)
    next
      case new: False
      have IH: "\<exists>r. count_events client cancelled (n + 1) q (?x # visited) c = Some r \<and> count_outcome client cancelled H r"
        if "count_inv client H q (?x # visited) c" for q c
        by (rule "1.hyps") (use unvisited_less [OF new] that in auto)
      show ?thesis
      proof (cases "client ?x")
        case (Inl u)
        then have "?x \<in> event_ancestors client H" "isl (client ?x)"
          using inv False queue_set [of queue] by (auto simp: count_inv_def)
        then have "count_outcome client cancelled H (Inl EventRead)" by (auto simp: count_outcome_def)
        then show ?thesis using False new Inl by (subst count_events.simps) (simp add: Let_def)
      next
        case (Inr ans)
        show ?thesis
        proof (cases ans)
          case None
          then show ?thesis using IH [OF count_inv_missing [OF inv _ new]] False new Inr
            by (subst count_events.simps) (simp add: Let_def)
        next
          case (Some ev)
          then show ?thesis using IH [OF count_inv_event [OF inv _ new]] False new Inr
            by (subst count_events.simps) (simp add: Let_def)
        qed
      qed
    qed
  qed
qed

lemma count_inv_done:
  assumes "count_inv client H [] visited counts"
  shows "set visited = event_ancestors client H"
proof -
  have "h \<in> set visited" if "h \<in> event_ancestors client H" for h
    using that by induction (use assms in \<open>auto simp: count_inv_def\<close>)
  then show ?thesis using assms by (auto simp: count_inv_def)
qed

lemma count_inv_counts:
  assumes inv: "count_inv client H [] visited counts"
  shows "count_of counts c = int (card {h \<in> event_ancestors client H. created_by client c h})"
  unfolding count_inv_done [OF inv, symmetric] using inv by (simp add: count_inv_def)

text \<open>
  C18: counting the events from the heads always returns. Its result is the exact number of events of
  every creator among the ancestors of the heads, each counted once, unless the context was cancelled
  or a node failed to answer for one of these events.
\<close>

theorem event_counts_exact:
  "\<exists>r. countEventsFromHeads client cancelled heads = Some r \<and>
     (case r of
        Inl e \<Rightarrow> (e = Cancelled \<and> (\<exists>n. cancelled n)) \<or>
                 (e = EventRead \<and> (\<exists>h \<in> event_ancestors client (set heads). isl (client h)))
      | Inr counts \<Rightarrow>
          (\<forall>c. count_of counts c = int (card {h \<in> event_ancestors client (set heads). created_by client c h})))"
proof -
  have "count_inv client (set heads) heads [] []"
    by (auto simp: count_inv_def count_of_def intro: event_ancestors.head)
  from count_events_outcome [OF this] obtain r where
    "countEventsFromHeads client cancelled heads = Some r" "count_outcome client cancelled (set heads) r"
    by (auto simp: countEventsFromHeads_def)
  moreover from this(2) have "case r of
        Inl e \<Rightarrow> (e = Cancelled \<and> (\<exists>n. cancelled n)) \<or>
                 (e = EventRead \<and> (\<exists>h \<in> event_ancestors client (set heads). isl (client h)))
      | Inr counts \<Rightarrow>
          (\<forall>c. count_of counts c = int (card {h \<in> event_ancestors client (set heads). created_by client c h}))"
    by (cases r) (auto simp: count_outcome_def count_inv_counts)
  ultimately show ?thesis by blast
qed

end
