(* ===== verification/Load_Shaper.thy ===== *)
theory Load_Shaper
  imports Norma_Prelude Complex_Main
begin

text \<open>
  Traffic shapes of \<open>load/shaper\<close>: the constant, slope, wave and self-adjusting shapes, the rate of a
  scenario they are built from (\<open>driver/parser/rate.go\<close>) with its check, and the contract of a shape
  whose number of messages is additive over adjacent intervals. Frequencies are real numbers.
\<close>

section \<open>Rates of a scenario: rate.go\<close>

record Slope =
  sl_Start :: real
  sl_Increment :: real

record Wave =
  wv_Min :: "real option"
  wv_Max :: real
  wv_Period :: real

record Auto =
  au_Increase :: "real option"
  au_Decrease :: "real option"

record Rate =
  rt_Constant :: "real option"
  rt_Slope :: "Slope option"
  rt_Wave :: "Wave option"
  rt_Auto :: "Auto option"

datatype rate_error =
    LoadShapes nat
  | NegativeConstant
  | NegativeStart
  | NegativeMin
  | NegativeMax
  | MinAboveMax
  | BadPeriod
  | BadIncrease
  | BadDecrease
  | UnknownRate

definition Slope_Check :: "Slope \<Rightarrow> rate_error list" where
  "Slope_Check s = (if sl_Start s < 0 then [NegativeStart] else [])"

definition Wave_Check :: "Wave \<Rightarrow> rate_error list" where
  "Wave_Check w =
     (let mn = (case wv_Min w of None \<Rightarrow> 0 | Some m \<Rightarrow> m); mx = wv_Max w
      in (if mn < 0 then [NegativeMin] else []) @ (if mx < 0 then [NegativeMax] else []) @
         (if mn > mx then [MinAboveMax] else []) @ (if wv_Period w \<le> 0 then [BadPeriod] else []))"

definition Auto_Check :: "Auto \<Rightarrow> rate_error list" where
  "Auto_Check a =
     (case au_Increase a of None \<Rightarrow> [] | Some i \<Rightarrow> if i \<le> 0 then [BadIncrease] else []) @
     (case au_Decrease a of None \<Rightarrow> [] | Some d \<Rightarrow> if d < 0 \<or> d > 1 then [BadDecrease] else [])"

definition Rate_Check :: "Rate \<Rightarrow> rate_error list" where
  "Rate_Check r =
     (let cnt = (if rt_Constant r \<noteq> None then 1 else 0) + (if rt_Slope r \<noteq> None then 1 else 0) +
                (if rt_Wave r \<noteq> None then 1 else 0) + (if rt_Auto r \<noteq> None then 1 else 0) :: nat
      in if cnt \<noteq> 1 then [LoadShapes cnt]
         else if (case rt_Constant r of None \<Rightarrow> False | Some c \<Rightarrow> c < 0) then [NegativeConstant]
         else case rt_Slope r of
                Some s \<Rightarrow> Slope_Check s
              | None \<Rightarrow> (case rt_Wave r of
                  Some w \<Rightarrow> Wave_Check w
                | None \<Rightarrow> (case rt_Auto r of Some a \<Rightarrow> Auto_Check a | None \<Rightarrow> [])))"

section \<open>Shapes\<close>

definition seconds :: "duration \<Rightarrow> real" where
  "seconds d = real_of_int d / 1000000000"

record ConstantShaper =
  cs_frequency :: real

record SlopeShaper =
  ss_startFrequency :: real
  ss_incrementFrequency :: real
  ss_startTimeStamp :: gotime

record WaveShaper =
  ws_minFrequency :: real
  ws_maxFrequency :: real
  ws_wavePeriod :: real
  ws_startTimeStamp :: gotime

record autoShaper =
  as_increase :: real
  as_decrease :: real
  as_rate :: real
  as_lastOverflowCheck :: gotime

datatype Shaper =
    Constant ConstantShaper
  | Sloped SlopeShaper
  | Waved WaveShaper
  | Automatic autoShaper

definition ParseRate :: "Rate option \<Rightarrow> rate_error + Shaper" where
  "ParseRate rate =
     (case rate of
        None \<Rightarrow> Inr (Constant \<lparr>cs_frequency = 0\<rparr>)
      | Some r \<Rightarrow>
          (case rt_Constant r of
             Some c \<Rightarrow> Inr (Constant \<lparr>cs_frequency = c\<rparr>)
           | None \<Rightarrow>
          (case rt_Slope r of
             Some s \<Rightarrow> Inr (Sloped \<lparr>ss_startFrequency = sl_Start s, ss_incrementFrequency = sl_Increment s,
                                     ss_startTimeStamp = zero_time\<rparr>)
           | None \<Rightarrow>
          (case rt_Auto r of
             Some a \<Rightarrow> Inr (Automatic \<lparr>as_increase = (case au_Increase a of None \<Rightarrow> 1 | Some i \<Rightarrow> i),
                                        as_decrease = (case au_Decrease a of None \<Rightarrow> 1 / 5 | Some d \<Rightarrow> d),
                                        as_rate = 0, as_lastOverflowCheck = zero_time\<rparr>)
           | None \<Rightarrow>
          (case rt_Wave r of
             Some w \<Rightarrow> Inr (Waved \<lparr>ws_minFrequency = (case wv_Min w of None \<Rightarrow> 0 | Some m \<Rightarrow> m),
                                    ws_maxFrequency = wv_Max w, ws_wavePeriod = wv_Period w,
                                    ws_startTimeStamp = zero_time\<rparr>)
           | None \<Rightarrow> Inl UnknownRate)))))"

fun Shaper_Start :: "gotime \<Rightarrow> Shaper \<Rightarrow> Shaper" where
  "Shaper_Start start (Constant s) = Constant s"
| "Shaper_Start start (Sloped s) = Sloped (s\<lparr>ss_startTimeStamp := start\<rparr>)"
| "Shaper_Start start (Waved s) = Waved (s\<lparr>ws_startTimeStamp := start\<rparr>)"
| "Shaper_Start start (Automatic s) = Automatic (s\<lparr>as_lastOverflowCheck := start\<rparr>)"

definition Constant_GetNum :: "ConstantShaper \<Rightarrow> gotime \<Rightarrow> duration \<Rightarrow> real" where
  "Constant_GetNum s start dur = max (seconds dur * cs_frequency s) 0"

definition Slope_GetNum :: "SlopeShaper \<Rightarrow> gotime \<Rightarrow> duration \<Rightarrow> real" where
  "Slope_GetNum s start dur =
     (let a = seconds (time_sub start (ss_startTimeStamp s));
          b = a + seconds dur;
          d = ss_startFrequency s;
          k = ss_incrementFrequency s
      in if k = 0 then (b - a) * d
         else
           let z = - d / k;
               (a', b') = (if k > 0 then (max z a, max z b) else (min z a, min z b))
           in k / 2 * (b' * b' - a' * a') + d * (b' - a'))"

text \<open>The antiderivative of the frequency of a wave.\<close>

definition wave_integral :: "real \<Rightarrow> real \<Rightarrow> real \<Rightarrow> real \<Rightarrow> real" where
  "wave_integral a b p x = x * (a + b) / 2 + p * (a - b) * sin (2 * pi * x / p) / (4 * pi)"

definition Wave_GetNum :: "WaveShaper \<Rightarrow> gotime \<Rightarrow> duration \<Rightarrow> real" where
  "Wave_GetNum w start dur =
     (let a = ws_minFrequency w; b = ws_maxFrequency w; p = ws_wavePeriod w;
          x = seconds (time_sub start (ws_startTimeStamp w));
          y = x + seconds dur
      in wave_integral a b p y - wave_integral a b p x)"

text \<open>What the load information source answers; \<open>None\<close> is an error, which is logged.\<close>

definition getProcessingGap :: "u64 option \<times> u64 option \<Rightarrow> u64" where
  "getProcessingGap info =
     (case fst info of
        None \<Rightarrow> 0
      | Some sent \<Rightarrow> (case snd info of None \<Rightarrow> 0 | Some received \<Rightarrow> sent - received))"

definition Auto_GetNum ::
  "u64 option \<times> u64 option \<Rightarrow> autoShaper \<Rightarrow> gotime \<Rightarrow> duration \<Rightarrow> real \<times> autoShaper" where
  "Auto_GetNum info s start dur =
     (let s1 = (if time_sub start (as_lastOverflowCheck s) \<ge> 1000000000 then
                  let gap = getProcessingGap info
                  in if real (unat gap) > 2 * as_rate s
                     then s\<lparr>as_lastOverflowCheck := start, as_rate := as_rate s * (1 - as_decrease s)\<rparr>
                     else s\<lparr>as_lastOverflowCheck := start, as_rate := as_rate s + as_increase s\<rparr>
                else s)
      in (as_rate s1 * seconds dur, s1))"

fun GetNumMessagesInInterval ::
  "u64 option \<times> u64 option \<Rightarrow> Shaper \<Rightarrow> gotime \<Rightarrow> duration \<Rightarrow> real \<times> Shaper" where
  "GetNumMessagesInInterval info (Constant s) start dur = (Constant_GetNum s start dur, Constant s)"
| "GetNumMessagesInInterval info (Sloped s) start dur = (Slope_GetNum s start dur, Sloped s)"
| "GetNumMessagesInInterval info (Waved s) start dur = (Wave_GetNum s start dur, Waved s)"
| "GetNumMessagesInInterval info (Automatic s) start dur =
     (let (k, s') = Auto_GetNum info s start dur in (k, Automatic s'))"

section \<open>The contract of a shape\<close>

text \<open>
  A shape that only depends on time has an area function: the number of messages of an interval is the
  difference of its values at the bounds, and it never decreases from the start of the shape on.
\<close>

locale timed_shape =
  fixes msgs :: "'s \<Rightarrow> gotime \<Rightarrow> duration \<Rightarrow> real"
    and area :: "'s \<Rightarrow> real \<Rightarrow> real"
    and started :: "'s \<Rightarrow> gotime \<Rightarrow> bool"
    and valid :: "'s \<Rightarrow> bool"
  assumes msgs_area: "valid s \<Longrightarrow> started s t0 \<Longrightarrow> t0 \<le> t \<Longrightarrow> 0 \<le> d \<Longrightarrow> t + d - t0 \<le> maxDuration \<Longrightarrow>
      msgs s t d = area s (seconds (t + d - t0)) - area s (seconds (t - t0))"
    and area_mono: "valid s \<Longrightarrow> 0 \<le> x \<Longrightarrow> x \<le> y \<Longrightarrow> area s x \<le> area s y"
begin

lemma msgs_nonneg:
  assumes "valid s" "started s t0" "t0 \<le> t" "0 \<le> d" "t + d - t0 \<le> maxDuration"
  shows "0 \<le> msgs s t d"
  using assms area_mono [OF assms(1), of "seconds (t - t0)" "seconds (t + d - t0)"]
  by (simp add: msgs_area seconds_def)

text \<open>Splitting an interval does not change the number of messages.\<close>

lemma msgs_additive:
  assumes "valid s" "started s t0" "t0 \<le> t" "0 \<le> d" "0 \<le> e" "t + d + e - t0 \<le> maxDuration"
  shows "msgs s t (d + e) = msgs s t d + msgs s (t + d) e"
  using assms by (simp add: msgs_area [OF assms(1,2)] algebra_simps)

end

lemma time_sub_exact: "t0 \<le> t \<Longrightarrow> t - t0 \<le> maxDuration \<Longrightarrow> time_sub t t0 = t - t0"
  by (simp add: time_sub_def minDuration_def)

lemma seconds_add: "seconds (x + y) = seconds x + seconds y"
  by (simp add: seconds_def add_divide_distrib)

lemma seconds_shift: "seconds (t - t0) + seconds d = seconds (t + d - t0)"
  by (simp add: seconds_def field_simps)

lemma seconds_nonneg: "0 \<le> d \<Longrightarrow> 0 \<le> seconds d"
  by (simp add: seconds_def)

section \<open>The shapes meet the contract\<close>

interpretation const_shape: timed_shape Constant_GetNum "\<lambda>s x. cs_frequency s * x" "\<lambda>s t0. True" "\<lambda>s. 0 \<le> cs_frequency s"
proof
  show "Constant_GetNum s t d = cs_frequency s * seconds (t + d - t0) - cs_frequency s * seconds (t - t0)"
    if "0 \<le> cs_frequency s" "0 \<le> d" for s t d t0
  proof -
    have "0 \<le> seconds d * cs_frequency s" using that by (simp add: seconds_nonneg)
    moreover have "seconds (t + d - t0) = seconds (t - t0) + seconds d" by (simp add: seconds_shift)
    ultimately show ?thesis by (simp add: Constant_GetNum_def algebra_simps)
  qed
qed (simp add: mult_left_mono)

definition slope_area :: "SlopeShaper \<Rightarrow> real \<Rightarrow> real" where
  "slope_area s x =
     (let d = ss_startFrequency s; k = ss_incrementFrequency s;
          c = (if k = 0 then x else if k > 0 then max (- d / k) x else min (- d / k) x)
      in k / 2 * (c * c) + d * c)"

lemma slope_trapezoid:
  assumes "a \<le> (b :: real)" "0 \<le> k * a + d" "0 \<le> k * b + d"
  shows "k / 2 * (a * a) + d * a \<le> k / 2 * (b * b) + d * b"
proof -
  have "k / 2 * (b * b) + d * b - (k / 2 * (a * a) + d * a) = (b - a) * ((k * a + d) + (k * b + d)) / 2"
    by (simp add: field_simps)
  also have "\<dots> \<ge> 0" using assms by simp
  finally show ?thesis by simp
qed

lemma slope_area_mono:
  assumes "ss_incrementFrequency s = 0 \<longrightarrow> 0 \<le> ss_startFrequency s" "x \<le> y"
  shows "slope_area s x \<le> slope_area s y"
proof -
  let ?d = "ss_startFrequency s" and ?k = "ss_incrementFrequency s"
  consider "?k = 0" | "?k > 0" | "?k < 0" by linarith
  then show ?thesis
  proof cases
    case 1
    then show ?thesis using assms by (simp add: slope_area_def mult_left_mono)
  next
    case 2
    have "0 \<le> ?k * max (- ?d / ?k) u + ?d" for u
      using 2 mult_left_mono [of "- ?d / ?k" "max (- ?d / ?k) u" ?k] by simp
    then show ?thesis
      using 2 slope_trapezoid [of "max (- ?d / ?k) x" "max (- ?d / ?k) y" ?k ?d] max.mono [OF order_refl assms(2)]
      by (simp add: slope_area_def Let_def)
  next
    case 3
    have "0 \<le> ?k * min (- ?d / ?k) u + ?d" for u
      using 3 mult_left_mono_neg [of "min (- ?d / ?k) u" "- ?d / ?k" ?k] by simp
    then show ?thesis
      using 3 slope_trapezoid [of "min (- ?d / ?k) x" "min (- ?d / ?k) y" ?k ?d] min.mono [OF order_refl assms(2)]
      by (simp add: slope_area_def Let_def)
  qed
qed

interpretation slope_shape: timed_shape Slope_GetNum slope_area "\<lambda>s t0. ss_startTimeStamp s = t0"
  "\<lambda>s. ss_incrementFrequency s = 0 \<longrightarrow> 0 \<le> ss_startFrequency s"
proof
  show "Slope_GetNum s t d = slope_area s (seconds (t + d - t0)) - slope_area s (seconds (t - t0))"
    if "ss_startTimeStamp s = t0" "t0 \<le> t" "0 \<le> d" "t + d - t0 \<le> maxDuration" for s t0 t d
  proof -
    have sub: "time_sub t t0 = t - t0" using that by (intro time_sub_exact) auto
    show ?thesis
      unfolding Slope_GetNum_def slope_area_def Let_def that(1) sub seconds_shift by (simp add: algebra_simps)
  qed
qed (rule slope_area_mono)

lemma wave_integral_deriv:
  "p \<noteq> 0 \<Longrightarrow> (wave_integral a b p has_field_derivative ((a + b) / 2 + (a - b) / 2 * cos (2 * pi * x / p))) (at x)"
  unfolding wave_integral_def [abs_def]
  by (auto intro!: derivative_eq_intros simp: field_simps)

lemma wave_frequency_nonneg: "0 \<le> a \<Longrightarrow> a \<le> b \<Longrightarrow> 0 \<le> (a + b) / 2 + (a - b) / 2 * cos (u :: real)"
proof -
  assume ab: "0 \<le> a" "a \<le> b"
  have "(b - a) / 2 * cos u \<le> (b - a) / 2 * 1" using ab by (intro mult_left_mono) auto
  then show ?thesis using ab by (simp add: field_simps)
qed

definition wave_valid :: "WaveShaper \<Rightarrow> bool" where
  "wave_valid w \<longleftrightarrow> 0 < ws_wavePeriod w \<and> 0 \<le> ws_minFrequency w \<and> ws_minFrequency w \<le> ws_maxFrequency w"

lemma wave_area_mono:
  assumes "wave_valid w" "x \<le> y"
  shows "wave_integral (ws_minFrequency w) (ws_maxFrequency w) (ws_wavePeriod w) x \<le>
    wave_integral (ws_minFrequency w) (ws_maxFrequency w) (ws_wavePeriod w) y"
proof (rule DERIV_nonneg_imp_nondecreasing [OF assms(2)])
  fix u
  let ?a = "ws_minFrequency w" and ?b = "ws_maxFrequency w" and ?p = "ws_wavePeriod w"
  have "?p \<noteq> 0" "0 \<le> ?a" "?a \<le> ?b" using assms(1) by (auto simp: wave_valid_def)
  then show "\<exists>y. (wave_integral ?a ?b ?p has_field_derivative y) (at u) \<and> 0 \<le> y"
    using wave_integral_deriv [of ?p ?a ?b u] wave_frequency_nonneg [of ?a ?b "2 * pi * u / ?p"] by blast
qed

interpretation wave_shape: timed_shape Wave_GetNum
  "\<lambda>w. wave_integral (ws_minFrequency w) (ws_maxFrequency w) (ws_wavePeriod w)" "\<lambda>w t0. ws_startTimeStamp w = t0" wave_valid
proof
  show "Wave_GetNum w t d = wave_integral (ws_minFrequency w) (ws_maxFrequency w) (ws_wavePeriod w) (seconds (t + d - t0)) -
      wave_integral (ws_minFrequency w) (ws_maxFrequency w) (ws_wavePeriod w) (seconds (t - t0))"
    if "ws_startTimeStamp w = t0" "t0 \<le> t" "0 \<le> d" "t + d - t0 \<le> maxDuration" for w t0 t d
  proof -
    have "time_sub t t0 = t - t0" using that by (intro time_sub_exact) auto
    then show ?thesis using that(1) by (simp add: Wave_GetNum_def Let_def seconds_shift)
  qed
qed (rule wave_area_mono)

text \<open>All shapes that only depend on time, as the controller sees them.\<close>

fun shape_area :: "Shaper \<Rightarrow> real \<Rightarrow> real" where
  "shape_area (Constant s) x = cs_frequency s * x"
| "shape_area (Sloped s) x = slope_area s x"
| "shape_area (Waved w) x = wave_integral (ws_minFrequency w) (ws_maxFrequency w) (ws_wavePeriod w) x"
| "shape_area (Automatic s) x = 0"

fun shape_started :: "Shaper \<Rightarrow> gotime \<Rightarrow> bool" where
  "shape_started (Sloped s) t0 \<longleftrightarrow> ss_startTimeStamp s = t0"
| "shape_started (Waved w) t0 \<longleftrightarrow> ws_startTimeStamp w = t0"
| "shape_started _ t0 \<longleftrightarrow> True"

fun shape_valid :: "Shaper \<Rightarrow> bool" where
  "shape_valid (Constant s) \<longleftrightarrow> 0 \<le> cs_frequency s"
| "shape_valid (Sloped s) \<longleftrightarrow> (ss_incrementFrequency s = 0 \<longrightarrow> 0 \<le> ss_startFrequency s)"
| "shape_valid (Waved w) \<longleftrightarrow> wave_valid w"
| "shape_valid (Automatic s) \<longleftrightarrow> False"

interpretation shapes: timed_shape "\<lambda>sh t d. fst (GetNumMessagesInInterval info sh t d)" shape_area shape_started shape_valid
proof
  show "fst (GetNumMessagesInInterval info sh t d) = shape_area sh (seconds (t + d - t0)) - shape_area sh (seconds (t - t0))"
    if "shape_valid sh" "shape_started sh t0" "t0 \<le> t" "0 \<le> d" "t + d - t0 \<le> maxDuration" for sh t0 t d
    using that const_shape.msgs_area slope_shape.msgs_area wave_shape.msgs_area by (cases sh) simp_all
  show "shape_area sh x \<le> shape_area sh y" if "shape_valid sh" "0 \<le> x" "x \<le> y" for sh x y
    using that const_shape.area_mono slope_shape.area_mono wave_shape.area_mono by (cases sh) simp_all
qed

text \<open>A rate that passes its check gives a shape that meets the contract, or a self-adjusting one.\<close>

lemma checked_rate_shape:
  assumes "Rate_Check r = []" "rt_Auto r = None"
  shows "\<exists>sh. ParseRate (Some r) = Inr sh \<and> shape_valid (Shaper_Start t0 sh) \<and> shape_started (Shaper_Start t0 sh) t0"
  using assms
  by (auto simp: Rate_Check_def ParseRate_def Slope_Check_def Wave_Check_def wave_valid_def Let_def
      split: option.splits if_splits)

end
