(* ===== verification/Load_Controller.thy ===== *)
theory Load_Controller
  imports Load_Shaper Go_Strings
begin

text \<open>
  The load generator: the controller that triggers the users of an application
  (\<open>load/controller/controller.go\<close>), accounts and nonces (\<open>load/app/account.go\<close>,
  \<open>accounts_circular.go\<close>), the application types (\<open>factory.go\<close>), the mix of applications
  (\<open>mix_app.go\<close>) and the funding of accounts in batches (\<open>context.go\<close>).
\<close>

section \<open>Controller\<close>

text \<open>The inner loop of \<open>Run\<close>: how often the trigger is sent, and what stays pending.\<close>

function drain :: "real \<Rightarrow> nat \<times> real" where
  "drain pending = (if pending > 0 then (let (n, p) = drain (pending - 1) in (n + 1, p)) else (0, pending))"
  by auto
termination
proof (relation "measure (\<lambda>p. nat \<lceil>p\<rceil>)")
  show "(pending - 1, pending) \<in> measure (\<lambda>p. nat \<lceil>p\<rceil>)" if "pending > 0" for pending :: real
  proof -
    have "0 < \<lceil>pending\<rceil>" using that by simp
    then show ?thesis by (simp add: ceiling_diff_one)
  qed
qed simp

declare drain.simps [simp del]

record controller_state =
  ac_shaper :: Shaper
  ac_pending :: real
  ac_lastUpdate :: gotime
  ac_triggered :: nat

text \<open>The start of \<open>Run\<close> and one iteration of its loop at the time \<open>now\<close>.\<close>

definition Run_start :: "gotime \<Rightarrow> Shaper \<Rightarrow> controller_state" where
  "Run_start now sh =
     \<lparr>ac_shaper = Shaper_Start now sh, ac_pending = 0, ac_lastUpdate = now, ac_triggered = 0\<rparr>"

definition Run_iteration :: "u64 option \<times> u64 option \<Rightarrow> gotime \<Rightarrow> controller_state \<Rightarrow> controller_state" where
  "Run_iteration info now st =
     (let (k, sh) = GetNumMessagesInInterval info (ac_shaper st) (ac_lastUpdate st) (time_sub now (ac_lastUpdate st));
          (n, p) = drain (ac_pending st + k)
      in \<lparr>ac_shaper = sh, ac_pending = p, ac_lastUpdate = now, ac_triggered = ac_triggered st + n\<rparr>)"

definition Run_iterations ::
  "(u64 option \<times> u64 option) list \<Rightarrow> gotime list \<Rightarrow> controller_state \<Rightarrow> controller_state" where
  "Run_iterations infos nows st = fold (\<lambda>(info, now). Run_iteration info now) (zip infos nows) st"

definition GetTransactionsSentBy :: "u64 list \<Rightarrow> int \<Rightarrow> u64" where
  "GetTransactionsSentBy users i = (if i < 0 \<or> i \<ge> int (length users) then 0 else users ! nat i)"

definition GetSentTransactions :: "u64 list \<Rightarrow> u64" where
  "GetSentTransactions users = foldl (\<lambda>s i. s + GetTransactionsSentBy users (int i)) 0 [0..<length users]"

text \<open>
  \<open>GetReceivedTransactions\<close>: \<open>dial k\<close> is whether the k-th dialling succeeds, \<open>query k\<close> the answer to the
  k-th query. The result is the answer, if any, and whether a client is connected afterwards.
\<close>

function received_from ::
  "(nat \<Rightarrow> bool) \<Rightarrow> (nat \<Rightarrow> u64 option) \<Rightarrow> nat \<Rightarrow> nat \<Rightarrow> bool \<Rightarrow> u64 option \<times> bool" where
  "received_from dial query k retry online =
     (if \<not> online \<and> \<not> dial k then (None, False)
      else
        let k1 = (if online then k else k + 1)
        in case query retry of
             Some res \<Rightarrow> (Some res, True)
           | None \<Rightarrow>
               if retry \<ge> 5 then (None, True)
               else if \<not> dial k1 then (None, False)
               else received_from dial query (k1 + 1) (retry + 1) True)"
  by pat_completeness auto
termination by (relation "measure (\<lambda>(_, _, _, retry, _). 5 - retry)") auto

declare received_from.simps [simp del]

definition GetReceivedTransactions :: "(nat \<Rightarrow> bool) \<Rightarrow> (nat \<Rightarrow> u64 option) \<Rightarrow> bool \<Rightarrow> u64 option \<times> bool" where
  "GetReceivedTransactions dial query online = received_from dial query 0 0 online"

text \<open>
  \<open>runGeneratorLoop\<close>: for every trigger a transaction is generated, and sent unless that failed.
\<close>

fun runGeneratorLoop :: "('u \<Rightarrow> 'tx option \<times> 'u) \<Rightarrow> nat \<Rightarrow> 'u \<Rightarrow> 'tx list \<times> 'u" where
  "runGeneratorLoop generate 0 u = ([], u)"
| "runGeneratorLoop generate (Suc triggers) u =
     (let (tx, u1) = generate u; (rest, u2) = runGeneratorLoop generate triggers u1
      in ((case tx of None \<Rightarrow> rest | Some t \<Rightarrow> t # rest), u2))"

section \<open>Accounts\<close>

record AccountFactory =
  af_numAccounts :: u64
  af_feederId :: "32 word"
  af_appId :: "32 word"

definition be_bytes :: "nat \<Rightarrow> nat \<Rightarrow> nat list" where
  "be_bytes n v = map (\<lambda>i. v div 256 ^ (n - 1 - i) mod 256) [0..<n]"

text \<open>
  The 32 bytes of the private key of the account with the given number: the number goes to the first
  eight bytes, the feeder and the application to the last eight.
\<close>

definition account_key :: "u64 \<Rightarrow> 32 word \<Rightarrow> 32 word \<Rightarrow> nat list" where
  "account_key n feederId appId =
     be_bytes 8 (unat n) @ replicate 16 0 @ be_bytes 4 (unat feederId) @ be_bytes 4 (unat appId)"

record Account =
  ac_key :: "nat list"
  ac_nonce :: u64

text \<open>
  \<open>CreateAccount\<close>: \<open>to_ecdsa\<close> is whether the bytes are a valid private key, \<open>pending_nonce\<close> the answer
  of the client, if there is one, for the account.
\<close>

definition CreateAccount ::
  "(nat list \<Rightarrow> bool) \<Rightarrow> (nat list \<Rightarrow> u64 option) option \<Rightarrow> AccountFactory \<Rightarrow> Account option \<times> AccountFactory" where
  "CreateAccount to_ecdsa client f =
     (let n = af_numAccounts f + 1;
          f1 = f\<lparr>af_numAccounts := n\<rparr>;
          key = account_key n (af_feederId f) (af_appId f)
      in if \<not> to_ecdsa key then (None, f1)
         else case client of
                None \<Rightarrow> (Some \<lparr>ac_key = key, ac_nonce = 0\<rparr>, f1)
              | Some pending_nonce \<Rightarrow>
                  (case pending_nonce key of
                     None \<Rightarrow> (None, f1)
                   | Some nonce \<Rightarrow> (Some \<lparr>ac_key = key, ac_nonce = nonce\<rparr>, f1)))"

definition getNextNonce :: "Account \<Rightarrow> u64 \<times> Account" where
  "getNextNonce a = (let current = ac_nonce a + 1 in (current - 1, a\<lparr>ac_nonce := current\<rparr>))"

record 'a AccountsCircularPool =
  cp_accounts :: "'a list"
  cp_current :: nat

fun create_accounts ::
  "(nat list \<Rightarrow> bool) \<Rightarrow> (nat list \<Rightarrow> u64 option) option \<Rightarrow> nat \<Rightarrow> AccountFactory \<Rightarrow> Account list option \<times> AccountFactory" where
  "create_accounts to_ecdsa client 0 f = (Some [], f)"
| "create_accounts to_ecdsa client (Suc n) f =
     (case CreateAccount to_ecdsa client f of
        (None, f1) \<Rightarrow> (None, f1)
      | (Some acc, f1) \<Rightarrow>
          (case create_accounts to_ecdsa client n f1 of
             (None, f2) \<Rightarrow> (None, f2)
           | (Some accs, f2) \<Rightarrow> (Some (acc # accs), f2)))"

text \<open>The loop of \<open>GetAccounts\<close>: \<open>n\<close> more accounts from the current position.\<close>

fun choose_accounts :: "nat \<Rightarrow> 'a AccountsCircularPool \<Rightarrow> 'a list \<times> 'a AccountsCircularPool" where
  "choose_accounts 0 c = ([], c)"
| "choose_accounts (Suc n) c =
     (let (rest, c1) = choose_accounts n (c\<lparr>cp_current := (cp_current c + 1) mod length (cp_accounts c)\<rparr>)
      in (cp_accounts c ! cp_current c # rest, c1))"

definition GetAccounts :: "int \<Rightarrow> 'a AccountsCircularPool \<Rightarrow> 'a list option \<times> 'a AccountsCircularPool" where
  "GetAccounts cnt c =
     (if cnt > int (length (cp_accounts c)) then (None, c)
      else let (chosen, c1) = choose_accounts (nat cnt) c in (Some chosen, c1))"

section \<open>Application types and the mix\<close>

definition to_lower :: "string \<Rightarrow> string" where
  "to_lower s = map (\<lambda>c. let n = of_char c :: nat in if 65 \<le> n \<and> n \<le> 90 then char_of (n + 32) else c) s"

definition app_types :: "string list" where
  "app_types = [''erc20'', ''counter'', '''', ''store'', ''uniswap'', ''smartaccount'', ''subsidies'', ''transient'',
     ''selfdestructoldcontract'', ''selfdestructnewcontract'', ''ecdsa'', ''largecontract'', ''allofbundle'',
     ''oneofbundle'', ''subsidizedbundle'', ''failingbundle'', ''duplicatedbundle'', ''bls12add'', ''mix'']"

definition IsSupportedApplicationType :: "string \<Rightarrow> bool" where
  "IsSupportedApplicationType appType \<longleftrightarrow> to_lower appType \<in> set app_types"

definition mixAppTypes :: "(string \<times> int) list" where
  "mixAppTypes = [(''erc20'', 10), (''counter'', 10), (''store'', 10), (''uniswap'', 5), (''smartaccount'', 1),
     (''subsidies'', 1), (''transient'', 1), (''selfdestructoldcontract'', 1), (''selfdestructnewcontract'', 1),
     (''ecdsa'', 2), (''largecontract'', 1), (''allofbundle'', 3), (''oneofbundle'', 3), (''subsidizedbundle'', 3),
     (''failingbundle'', 1), (''duplicatedbundle'', 1)]"

definition mixAppIdOffset :: "32 word" where
  "mixAppIdOffset = 65536"

definition subAppId :: "32 word \<Rightarrow> nat \<Rightarrow> 32 word" where
  "subAppId appId i = mixAppIdOffset + appId * of_nat (length mixAppTypes) + of_nat i"

record 'app MixApplication =
  mx_apps :: "'app list"
  mx_totalWeight :: int
  mx_cumulativeWeights :: "int list"

text \<open>\<open>mk\<close> is \<open>NewApplication\<close> for a type and an identifier of a part of the mix.\<close>

fun mix_from ::
  "(string \<Rightarrow> 32 word \<Rightarrow> 'app option) \<Rightarrow> 32 word \<Rightarrow> nat \<Rightarrow> (string \<times> int) list \<Rightarrow> 'app MixApplication \<Rightarrow>
     'app MixApplication option" where
  "mix_from mk appId i [] m = Some m"
| "mix_from mk appId i ((t, w) # es) m =
     (if w \<le> 0 then None
      else case mk t (subAppId appId i) of
             None \<Rightarrow> None
           | Some a \<Rightarrow>
               mix_from mk appId (i + 1) es
                 \<lparr>mx_apps = mx_apps m @ [a], mx_totalWeight = mx_totalWeight m + w,
                  mx_cumulativeWeights = mx_cumulativeWeights m @ [mx_totalWeight m + w]\<rparr>)"

definition NewMixApplication :: "(string \<Rightarrow> 32 word \<Rightarrow> 'app option) \<Rightarrow> 32 word \<Rightarrow> 'app MixApplication option" where
  "NewMixApplication mk appId =
     mix_from mk appId 0 mixAppTypes \<lparr>mx_apps = [], mx_totalWeight = 0, mx_cumulativeWeights = []\<rparr>"

text \<open>\<open>pickRandomUser\<close> for a random number in \<open>[0, totalWeight)\<close>.\<close>

fun pick_from :: "int \<Rightarrow> nat \<Rightarrow> int list \<Rightarrow> nat option" where
  "pick_from r i [] = None"
| "pick_from r i (c # cs) = (if r < c then Some i else pick_from r (i + 1) cs)"

definition pickRandomUser :: "int \<Rightarrow> 'app MixApplication \<Rightarrow> nat" where
  "pickRandomUser randomNumber m =
     (case pick_from randomNumber 0 (mx_cumulativeWeights m) of
        Some i \<Rightarrow> i
      | None \<Rightarrow> length (mx_cumulativeWeights m) - 1)"

definition Mix_GetReceivedTransactions :: "u64 option list \<Rightarrow> u64 option" where
  "Mix_GetReceivedTransactions counts =
     (if None \<in> set counts then None else Some (foldl (\<lambda>total c. total + the c) 0 counts))"

section \<open>Funding in batches: context.go\<close>

definition batchSize :: nat where
  "batchSize = 32"

function batches :: "'a list \<Rightarrow> 'a list list" where
  "batches accounts = (if accounts = [] then [] else take batchSize accounts # batches (drop batchSize accounts))"
  by auto
termination by (relation "measure length") (auto simp: batchSize_def)

declare batches.simps [simp del]

text \<open>
  What the network answers while accounts are funded: the deployment of the helper contract, the
  options of a transaction with the nonce of the treasury, and for each batch the submission, the next
  nonce and the receipt (\<open>None\<close> if it cannot be read, else whether the transaction succeeded).
\<close>

record fund_env =
  fe_deploy :: bool
  fe_options :: "u64 option"
  fe_distribute :: "nat \<Rightarrow> bool"
  fe_nonce :: "nat \<Rightarrow> u64 option"
  fe_receipt :: "nat \<Rightarrow> bool option"

datatype fund_error = DeployFailed | NoOptions | DistributeFailed | NonceFailed | ReceiptFailed | Reverted

text \<open>A transaction of the funding: nonce, transferred amount, accounts.\<close>

type_synonym 'a fund_tx = "u64 \<times> int \<times> 'a list"

fun fund_batches ::
  "fund_env \<Rightarrow> int \<Rightarrow> nat \<Rightarrow> u64 \<Rightarrow> 'a list list \<Rightarrow> fund_error option \<times> 'a fund_tx list" where
  "fund_batches env amount i nonce [] = (None, [])"
| "fund_batches env amount i nonce (batch # bs) =
     (if \<not> fe_distribute env i then (Some DistributeFailed, [])
      else
        let tx = (nonce, amount * int (length batch), batch)
        in case fe_nonce env i of
             None \<Rightarrow> (Some NonceFailed, [tx])
           | Some nonce' \<Rightarrow>
               (let (e, txs) = fund_batches env amount (i + 1) nonce' bs in (e, tx # txs)))"

fun await_receipts :: "fund_env \<Rightarrow> nat \<Rightarrow> 'a fund_tx list \<Rightarrow> fund_error option" where
  "await_receipts env i [] = None"
| "await_receipts env i (tx # txs) =
     (case fe_receipt env i of
        None \<Rightarrow> Some ReceiptFailed
      | Some ok \<Rightarrow> if ok then await_receipts env (i + 1) txs else Some Reverted)"

text \<open>The error, the transactions that were sent, and whether the helper contract is there afterwards.\<close>

definition FundAccounts ::
  "fund_env \<Rightarrow> bool \<Rightarrow> 'a list \<Rightarrow> int \<Rightarrow> fund_error option \<times> 'a fund_tx list \<times> bool" where
  "FundAccounts env helper accounts amount =
     (if \<not> helper \<and> \<not> fe_deploy env then (Some DeployFailed, [], False)
      else
        case fe_options env of
          None \<Rightarrow> (Some NoOptions, [], True)
        | Some nonce \<Rightarrow>
            (case fund_batches env amount 0 nonce (batches accounts) of
               (Some e, txs) \<Rightarrow> (Some e, txs, True)
             | (None, txs) \<Rightarrow> (await_receipts env 0 txs, txs, True)))"

end
