(* ===== verification/Load_Properties.thy ===== *)
theory Load_Properties
  imports Load_Controller
begin

text \<open>
  The load generator follows its shape exactly however its loop is timed, the self-adjusting shape
  reacts to a processing gap computed with wrap-around, keys and identifiers of applications do not
  collide, and accounts are handed out and funded evenly.
\<close>

section \<open>Pacing\<close>

lemma drain_sum: "drain x = (n, p) \<Longrightarrow> x = real n + p"
proof (induction x arbitrary: n p rule: drain.induct)
  case (1 x)
  show ?case
  proof (cases "0 < x")
    case True
    obtain m q where rec: "drain (x - 1) = (m, q)" by (cases "drain (x - 1)")
    with 1(1) [OF True rec] 1(2) True show ?thesis by (subst (asm) drain.simps) auto
  next
    case False
    then show ?thesis using 1(2) by (subst (asm) drain.simps) simp
  qed
qed

lemma drain_range: "- 1 < x \<Longrightarrow> drain x = (n, p) \<Longrightarrow> - 1 < p \<and> p \<le> 0"
proof (induction x arbitrary: n p rule: drain.induct)
  case (1 x)
  show ?case
  proof (cases "0 < x")
    case True
    obtain m q where rec: "drain (x - 1) = (m, q)" by (cases "drain (x - 1)")
    with 1(1) [OF True _ rec] 1(3) True show ?thesis by (subst (asm) drain.simps) auto
  next
    case False
    then show ?thesis using 1(2,3) by (subst (asm) drain.simps) simp
  qed
qed

text \<open>
  The invariant of the loop: what was triggered and what is pending add up to the area under the shape
  since the start, and less than one message is sent ahead.
\<close>

definition paced :: "Shaper \<Rightarrow> gotime \<Rightarrow> controller_state \<Rightarrow> bool" where
  "paced sh t0 st \<longleftrightarrow>
     ac_shaper st = sh \<and> t0 \<le> ac_lastUpdate st \<and>
     real (ac_triggered st) + ac_pending st = shape_area sh (seconds (ac_lastUpdate st - t0)) - shape_area sh 0 \<and>
     - 1 < ac_pending st \<and> ac_pending st \<le> 0"

lemma static_shape: "shape_valid sh \<Longrightarrow> snd (GetNumMessagesInInterval info sh t d) = sh"
  by (cases sh) simp_all

lemma Run_iteration_paced:
  assumes sh: "shape_valid sh" "shape_started sh t0" and inv: "paced sh t0 st"
    and now: "ac_lastUpdate st \<le> now" "now - t0 \<le> maxDuration"
  shows "paced sh t0 (Run_iteration info now st) \<and> ac_lastUpdate (Run_iteration info now st) = now"
proof -
  let ?t = "ac_lastUpdate st"
  have t0: "t0 \<le> ?t" and shp: "ac_shaper st = sh" using inv by (auto simp: paced_def)
  have sub: "time_sub now ?t = now - ?t" using now t0 by (intro time_sub_exact) auto
  obtain k sh' where get: "GetNumMessagesInInterval info sh ?t (now - ?t) = (k, sh')"
    by (cases "GetNumMessagesInInterval info sh ?t (now - ?t)")
  have sh': "sh' = sh" using static_shape [OF sh(1), of info ?t "now - ?t"] get by simp
  have k: "k = shape_area sh (seconds (now - t0)) - shape_area sh (seconds (?t - t0))"
    using shapes.msgs_area [OF sh t0, of "now - ?t" info] now get by simp
  have nonneg: "0 \<le> k"
    using shapes.msgs_nonneg [OF sh t0, of "now - ?t" info] now get by simp
  obtain n p where d: "drain (ac_pending st + k) = (n, p)" by (cases "drain (ac_pending st + k)")
  have "- 1 < p \<and> p \<le> 0" using drain_range [OF _ d] nonneg inv by (simp add: paced_def)
  moreover have "ac_pending st + k = real n + p" by (rule drain_sum [OF d])
  moreover have "Run_iteration info now st =
      \<lparr>ac_shaper = sh, ac_pending = p, ac_lastUpdate = now, ac_triggered = ac_triggered st + n\<rparr>"
    by (simp add: Run_iteration_def shp sub get d sh')
  ultimately show ?thesis
    using inv t0 now k by (simp add: paced_def)
qed

lemma Run_iterations_paced:
  assumes sh: "shape_valid sh" "shape_started sh t0"
  shows "paced sh t0 st \<Longrightarrow> sorted (ac_lastUpdate st # nows) \<Longrightarrow> (\<forall>t \<in> set nows. t - t0 \<le> maxDuration) \<Longrightarrow>
    length infos = length nows \<Longrightarrow>
    paced sh t0 (Run_iterations infos nows st) \<and>
    ac_lastUpdate (Run_iterations infos nows st) = last (ac_lastUpdate st # nows)"
proof (induction nows arbitrary: st infos)
  case Nil
  then show ?case by (simp add: Run_iterations_def)
next
  case (Cons now nows)
  from Cons.prems(4) obtain info infos' where infos: "infos = info # infos'" "length infos' = length nows"
    by (cases infos) auto
  have "paced sh t0 (Run_iteration info now st)" "ac_lastUpdate (Run_iteration info now st) = now"
    using Run_iteration_paced [OF sh Cons.prems(1), of now info] Cons.prems(2,3) by auto
  with Cons.IH [of "Run_iteration info now st" infos'] Cons.prems infos show ?case
    by (simp add: Run_iterations_def)
qed


definition ex_rate :: Rate where
  "ex_rate = \<lparr>rt_Constant = Some 10, rt_Slope = None, rt_Wave = None, rt_Auto = None\<rparr>"


section \<open>The self-adjusting shape\<close>

text \<open>
  if an application reports more received than sent transactions, which happens when transactions
  are received between the two reads, the processing gap wraps around to a huge number and the shape
  slows down as in an overload, although nothing is outstanding.
\<close>

theorem received_ahead_slows_down:
  assumes "sent < received" "received - sent \<le> 2 ^ 40"
    and "time_sub start (as_lastOverflowCheck s) \<ge> 1000000000" "0 \<le> as_rate s" "as_rate s < 2 ^ 60"
  shows "as_rate (snd (Auto_GetNum (Some sent, Some received) s start dur)) = as_rate s * (1 - as_decrease s)"
proof -
  have lt: "unat sent < unat received" using assms(1) by (simp add: word_less_nat_alt)
  have "unat (received - sent) \<le> 2 ^ 40" using assms(2) by (simp add: word_le_nat_alt)
  then have "unat received - unat sent \<le> 2 ^ 40" using lt by (simp add: unat_sub_if')
  then have "2 ^ 62 \<le> unat (sent - received)" using lt by (simp add: unat_sub_if')
  then have "real (2 ^ 62) \<le> real (unat (sent - received))" by (simp only: of_nat_le_iff)
  then have "2 * as_rate s < real (unat (sent - received))" using assms(5) by simp
  then show ?thesis using assms(3) by (simp add: Auto_GetNum_def getProcessingGap_def Let_def)
qed

theorem received_ahead_slows_down_witness:
  "as_rate (snd (Auto_GetNum (Some 100, Some 101)
     \<lparr>as_increase = 1, as_decrease = 1 / 2, as_rate = 80, as_lastOverflowCheck = 0\<rparr> 2000000000 1000000)) = 40"
  using received_ahead_slows_down [of 100 101 2000000000
      "\<lparr>as_increase = 1, as_decrease = 1 / 2, as_rate = 80, as_lastOverflowCheck = 0\<rparr>" 1000000]
  by (simp add: time_sub_def minDuration_def maxDuration_def)

section \<open>Identifiers and keys\<close>

lemma be_bytes_length [simp]: "length (be_bytes n v) = n"
  by (simp add: be_bytes_def)

lemma be_bytes_Suc: "be_bytes (Suc n) v = be_bytes n (v div 256) @ [v mod 256]"
proof -
  have "v div 256 ^ (n - i) = v div 256 div 256 ^ (n - Suc i)" if "i < n" for i
  proof -
    have "n - i = Suc (n - Suc i)" using that by simp
    then show ?thesis by (simp add: div_mult2_eq)
  qed
  then show ?thesis by (simp add: be_bytes_def)
qed

lemma be_bytes_value: "foldl (\<lambda>a b. 256 * a + b) 0 (be_bytes n v) = v mod 256 ^ n"
proof (induction n arbitrary: v)
  case (Suc n)
  have "256 * (v div 256 mod 256 ^ n) + v mod 256 = v mod 256 ^ Suc n"
    by (simp add: mod_mult2_eq)
  then show ?case by (simp add: be_bytes_Suc Suc)
qed (simp add: be_bytes_def)

lemma be_bytes_inj: "be_bytes n v = be_bytes n w \<Longrightarrow> v < 256 ^ n \<Longrightarrow> w < 256 ^ n \<Longrightarrow> v = w"
  by (metis be_bytes_value mod_less)

lemma account_key_eq:
  "account_key n f a = account_key n' f' a' \<longleftrightarrow> n = n' \<and> f = f' \<and> a = a'"
proof
  assume "account_key n f a = account_key n' f' a'"
  then have eqs: "be_bytes 8 (unat n) = be_bytes 8 (unat n')" "be_bytes 4 (unat f) = be_bytes 4 (unat f')"
      "be_bytes 4 (unat a) = be_bytes 4 (unat a')"
    by (simp_all add: account_key_def)
  have "unat w < 256 ^ 4" for w :: "32 word" by (rule order_less_le_trans [OF unsigned_less]) simp
  moreover have "unat w < 256 ^ 8" for w :: u64 by (rule order_less_le_trans [OF unsigned_less]) simp
  ultimately have "unat n = unat n'" "unat f = unat f'" "unat a = unat a'"
    using eqs [THEN be_bytes_inj] by blast+
  then show "n = n' \<and> f = f' \<and> a = a'" by (auto intro: unsigned_word_eqI)
qed simp

lemma unat_subAppId:
  assumes "appId < 65536" "i < length mixAppTypes"
  shows "unat (subAppId appId i) = 65536 + unat appId * 16 + i"
proof -
  have a: "unat appId < 65536" using assms(1) by (simp add: word_less_nat_alt)
  have i: "i < 16" using assms(2) by (simp add: mixAppTypes_def)
  have len: "length mixAppTypes = 16" by (simp add: mixAppTypes_def)
  have "subAppId appId i = of_nat (65536 + unat appId * 16 + i)"
    by (simp add: subAppId_def mixAppIdOffset_def len)
  then have "unat (subAppId appId i) = (65536 + unat appId * 16 + i) mod 2 ^ 32"
    by (simp only: unat_of_nat) simp
  then show ?thesis using a i by simp
qed

text \<open>
  applications never share accounts: as long as the identifiers given to applications are below
  65536, two accounts have the same private key only if they have the same number and feeder and
  belong to the same application, or to the same part of the same mix.
\<close>

theorem accounts_never_shared:
  assumes "appId < 65536" "appId' < 65536" "i < length mixAppTypes" "j < length mixAppTypes"
  shows "(account_key n f appId = account_key n' f' appId' \<longleftrightarrow> n = n' \<and> f = f' \<and> appId = appId') \<and>
    (account_key n f (subAppId appId i) = account_key n' f' (subAppId appId' j) \<longleftrightarrow>
       n = n' \<and> f = f' \<and> appId = appId' \<and> i = j) \<and>
    account_key n f (subAppId appId i) \<noteq> account_key n' f' appId'"
proof -
  note u = unat_subAppId [OF assms(1,3)] unat_subAppId [OF assms(2,4)]
  have ij: "i < 16" "j < 16" using assms(3,4) by (simp_all add: mixAppTypes_def)
  have "subAppId appId i = subAppId appId' j \<longleftrightarrow> appId = appId' \<and> i = j"
  proof
    assume "subAppId appId i = subAppId appId' j"
    then have "unat appId * 16 + i = unat appId' * 16 + j" using u by simp
    then have "unat appId = unat appId' \<and> i = j" using ij by presburger
    then show "appId = appId' \<and> i = j" by (auto intro: unsigned_word_eqI)
  qed simp
  moreover have "subAppId appId i \<noteq> appId'"
    using u(1) assms(2) by (auto simp: word_less_nat_alt)
  ultimately show ?thesis by (simp add: account_key_eq)
qed

theorem accounts_never_shared_witness:
  "account_key 1 0 (subAppId 3 15) \<noteq> account_key 1 0 (subAppId 4 0) \<and> account_key 1 0 (subAppId 3 0) \<noteq> account_key 1 0 7"
  using accounts_never_shared [of 3 4 15 0 1 0 1 0] accounts_never_shared [of 3 7 0 0 1 0 1 0]
  by (simp add: mixAppTypes_def)

section \<open>Pools and funding\<close>

text \<open>The pool hands out accounts in turn.\<close>

lemma choose_accounts_turn:
  "cp_current c < length (cp_accounts c) \<Longrightarrow>
     choose_accounts n c = (map (\<lambda>k. cp_accounts c ! ((cp_current c + k) mod length (cp_accounts c))) [0..<n],
       c\<lparr>cp_current := (cp_current c + n) mod length (cp_accounts c)\<rparr>)"
proof (induction n arbitrary: c)
  case (Suc n)
  let ?l = "length (cp_accounts c)"
  have "(cp_current c + 1) mod ?l < ?l" using Suc.prems by (intro mod_less_divisor) auto
  then have "choose_accounts n (c\<lparr>cp_current := (cp_current c + 1) mod ?l\<rparr>) =
      (map (\<lambda>k. cp_accounts c ! (((cp_current c + 1) mod ?l + k) mod ?l)) [0..<n],
       c\<lparr>cp_current := ((cp_current c + 1) mod ?l + n) mod ?l\<rparr>)"
    using Suc.IH [of "c\<lparr>cp_current := (cp_current c + 1) mod ?l\<rparr>"] by simp
  then show ?case
    using Suc.prems by (simp add: mod_add_left_eq upt_conv_Cons del: upt_Suc) (simp add: comp_def flip: map_Suc_upt del: upt_Suc)
qed simp

lemma GetAccounts_distinct:
  assumes "distinct (cp_accounts c)" "cp_current c < length (cp_accounts c)" "GetAccounts cnt c = (Some chosen, c')"
  shows "distinct chosen \<and> length chosen = nat cnt"
proof -
  let ?l = "length (cp_accounts c)"
  have cnt: "nat cnt \<le> ?l" and ch: "chosen = map (\<lambda>k. cp_accounts c ! ((cp_current c + k) mod ?l)) [0..<nat cnt]"
    using assms(3) by (auto simp: GetAccounts_def choose_accounts_turn [OF assms(2)] split: if_splits)
  have le: "x = y" if "x \<le> y" "y < nat cnt" "(cp_current c + y) mod ?l = (cp_current c + x) mod ?l" for x y
  proof -
    have "?l dvd (cp_current c + y) - (cp_current c + x)"
      using that(1,3) by (subst mod_eq_dvd_iff_nat [symmetric]) auto
    then show ?thesis using that cnt by (auto dest: dvd_imp_le)
  qed
  have "x = y" if "x < nat cnt" "y < nat cnt" "(cp_current c + x) mod ?l = (cp_current c + y) mod ?l" for x y
    using that le [of x y] le [of y x] by (cases "x \<le> y") auto
  moreover have "z mod ?l < ?l" for z using assms(2) by (intro mod_less_divisor) auto
  ultimately show ?thesis
    using assms(1) by (auto simp: ch distinct_map inj_on_def nth_eq_iff_index_eq)
qed

lemma batches_concat: "concat (batches xs) = xs"
proof (induction xs rule: batches.induct)
  case (1 xs)
  then show ?case by (cases "xs = []") (subst batches.simps, simp)+
qed

lemma batches_size: "b \<in> set (batches xs) \<Longrightarrow> b \<noteq> [] \<and> length b \<le> batchSize"
proof (induction xs rule: batches.induct)
  case (1 xs)
  then show ?case by (cases "xs = []") (subst (asm) (2) batches.simps, auto simp: batchSize_def)+
qed

lemma fund_batches_all:
  "fund_batches env amount i nonce bs = (None, txs) \<Longrightarrow>
     map (snd \<circ> snd) txs = bs \<and> (\<forall>(_, v, b) \<in> set txs. v = amount * int (length b))"
proof (induction bs arbitrary: i nonce txs)
  case (Cons b bs)
  then obtain nonce' where "fe_nonce env i = Some nonce'" by (cases "fe_nonce env i") (auto split: if_splits)
  then obtain rest where "fund_batches env amount (i + 1) nonce' bs = (None, rest)"
      "txs = (nonce, amount * int (length b), b) # rest"
    using Cons.prems by (auto simp: Let_def split: if_splits prod.splits)
  with Cons.IH show ?case by fastforce
qed simp

text \<open>Funding that reports no error has sent every account its amount exactly once, in small batches.\<close>

lemma fund_accounts_complete:
  assumes "FundAccounts env helper accounts amount = (None, txs, h)"
  shows "concat (map (snd \<circ> snd) txs) = accounts \<and>
    (\<forall>(_, v, b) \<in> set txs. v = amount * int (length b) \<and> length b \<le> batchSize)"
proof -
  from assms obtain nonce where run: "fund_batches env amount 0 nonce (batches accounts) = (None, txs)"
    by (auto simp: FundAccounts_def split: if_splits option.splits prod.splits)
  note all = fund_batches_all [OF run]
  have "length b \<le> batchSize" if "(n, v, b) \<in> set txs" for n v b
  proof -
    have "b \<in> set (map (snd \<circ> snd) txs)" using that by force
    then show ?thesis using all batches_size by auto
  qed
  then show ?thesis using all batches_concat [of accounts] by auto
qed

end
