(* ===== verification/Parser_Model.thy ===== *)
theory Parser_Model
  imports Rules_Patch Load_Controller
begin

text \<open>
  Scenarios: the parsing of YAML nodes into steps and checks (\<open>parser/scenario.go\<close>), the names
  (\<open>parser/common.go\<close>) and the semantic check (\<open>parser/check.go\<close>). The YAML library's own decoding of
  plain values, lists and structs is a parameter.
\<close>

section \<open>Functions of steps and checks\<close>

text \<open>A step function is its name; the empty name is none.\<close>

type_synonym StepFunction = string

definition allStepFunctions :: "StepFunction list" where
  "allStepFunctions = [''startNode'', ''stopNode'', ''delegate'', ''undelegate'', ''verifyStakes'', ''updateRules'',
     ''advanceEpoch'', ''waitForEpoch'', ''runApp'', ''stopApp'', ''checks'', ''waitFor'', ''killSonic'', ''healDb'']"

definition allCheckFunctions :: "StepFunction list" where
  "allCheckFunctions = [''blockGasRate'', ''blockHashes'', ''blockHeights'', ''blocksHalted'', ''blocksProduced'',
     ''eventThrottled'', ''networkRules'', ''validatorsActive'']"

definition toStepFunction :: "string \<Rightarrow> StepFunction option" where
  "toStepFunction s = find (\<lambda>fn. fn = s) allStepFunctions"

definition toCheckFunction :: "string \<Rightarrow> StepFunction option" where
  "toCheckFunction s = find (\<lambda>fn. fn = s) allCheckFunctions"

definition allowedParams :: "(StepFunction \<times> string list) list" where
  "allowedParams =
     (''startNode'', [''type'', ''imageName'', ''dataVolume'', ''stake'', ''instances'', ''failing'', ''extraArguments'']) #
     (''runApp'', [''type'', ''users'', ''rate'']) #
     map (\<lambda>fn. (fn, [])) [''stopNode'', ''stopApp'', ''updateRules'', ''delegate'', ''undelegate'', ''verifyStakes'',
       ''advanceEpoch'', ''waitForEpoch'', ''waitFor'', ''checks'', ''killSonic'', ''healDb'']"

definition checkFunctionParams :: "(StepFunction \<times> string list) list" where
  "checkFunctionParams =
     [(''blockGasRate'', [''ceiling'', ''tolerance'', ''duration'', ''failing'']),
      (''blockHashes'', [''failing'']),
      (''blockHeights'', [''tolerance'', ''duration'', ''failing'']),
      (''blocksHalted'', [''tolerance'', ''duration'', ''failing'']),
      (''blocksProduced'', [''tolerance'', ''duration'', ''failing'']),
      (''eventThrottled'', [''throttledNodes'', ''failing'']),
      (''networkRules'', [''rules'', ''duration'', ''failing'']),
      (''validatorsActive'', [''failing''])]"

section \<open>Data\<close>

record CheckSpec =
  ck_Function :: StepFunction
  ck_Ceiling :: "real option"
  ck_Tolerance :: "int option"
  ck_Duration :: "duration option"
  ck_Failing :: bool
  ck_Rules :: NetworkRulesPatch
  ck_ThrottledNodes :: "string list"

definition no_check :: CheckSpec where
  "no_check = \<lparr>ck_Function = [], ck_Ceiling = None, ck_Tolerance = None, ck_Duration = None, ck_Failing = False,
     ck_Rules = no_patch, ck_ThrottledNodes = []\<rparr>"

record DelegateTarget =
  dt_Node :: string
  dt_Stake :: u64
  dt_Delegator :: string

record UndelegateTarget =
  ut_Node :: string
  ut_Stake :: "u64 option"
  ut_Delegator :: string

record Step =
  st_Function :: StepFunction
  st_Identifier :: string
  st_NodeType :: string
  st_ImageName :: string
  st_DataVolume :: string
  st_Stake :: "u64 option"
  st_Instances :: "int option"
  st_Failing :: bool
  st_ExtraArguments :: string
  st_AppType :: string
  st_Users :: "int option"
  st_Rate :: "Rate option"
  st_Rules :: NetworkRulesPatch
  st_SubChecks :: "CheckSpec list"
  st_DelegateTargets :: "DelegateTarget list"
  st_UndelegateTargets :: "UndelegateTarget list"
  st_Duration :: duration

definition no_step :: Step where
  "no_step = \<lparr>st_Function = [], st_Identifier = [], st_NodeType = [], st_ImageName = [], st_DataVolume = [],
     st_Stake = None, st_Instances = None, st_Failing = False, st_ExtraArguments = [], st_AppType = [],
     st_Users = None, st_Rate = None, st_Rules = no_patch, st_SubChecks = [], st_DelegateTargets = [],
     st_UndelegateTargets = [], st_Duration = 0\<rparr>"

record Scenario =
  sc_Name :: string
  sc_Description :: string
  sc_InitialRules :: NetworkRulesPatch
  sc_DisableEndChecks :: bool
  sc_Steps :: "Step list"

datatype parse_error =
    UnknownFunction string
  | WrongKind
  | NoFunction
  | MultipleFunctions string string
  | ParamNotAllowed string
  | BadParam string
  | BadValue string

text \<open>
  What the YAML library decodes without calling back into the parser, and how it decodes a list of
  checks given the decoding of one.
\<close>

record yaml_lib =
  y_string :: "ynode \<Rightarrow> string option"
  y_int :: "ynode \<Rightarrow> int option"
  y_uint64 :: "ynode \<Rightarrow> u64 option"
  y_float :: "ynode \<Rightarrow> real option"
  y_bool :: "ynode \<Rightarrow> bool option"
  y_strings :: "ynode \<Rightarrow> string list option"
  y_rules :: "ynode \<Rightarrow> NetworkRulesPatch option"
  y_rate :: "ynode \<Rightarrow> Rate option"
  y_delegate :: "ynode \<Rightarrow> DelegateTarget option"
  y_undelegate :: "ynode \<Rightarrow> UndelegateTarget option"
  y_checks :: "(ynode \<Rightarrow> parse_error + CheckSpec) \<Rightarrow> ynode list \<Rightarrow> parse_error + CheckSpec list"

section \<open>Parsing\<close>

fun pairs_of :: "'a list \<Rightarrow> ('a \<times> 'a) list" where
  "pairs_of (k # v # rest) = (k, v) # pairs_of rest"
| "pairs_of _ = []"

text \<open>Sequencing of fallible changes over a list.\<close>

fun fold_result :: "('x \<Rightarrow> 's \<Rightarrow> 'e + 's) \<Rightarrow> 'x list \<Rightarrow> 's \<Rightarrow> 'e + 's" where
  "fold_result f [] s = Inr s"
| "fold_result f (x # xs) s = (case f x s of Inl e \<Rightarrow> Inl e | Inr s' \<Rightarrow> fold_result f xs s')"

definition dec :: "string \<Rightarrow> 'a option \<Rightarrow> ('a \<Rightarrow> 's) \<Rightarrow> parse_error + 's" where
  "dec key r k = (case r of None \<Rightarrow> Inl (BadParam key) | Some v \<Rightarrow> Inr (k v))"

definition Check_parseParam :: "yaml_lib \<Rightarrow> ynode \<times> ynode \<Rightarrow> CheckSpec \<Rightarrow> parse_error + CheckSpec" where
  "Check_parseParam lib = (\<lambda>(keyNode, valNode) c.
     let key = yn_Value keyNode
     in if (case map_of checkFunctionParams (ck_Function c) of None \<Rightarrow> True | Some allowed \<Rightarrow> key \<notin> set allowed)
        then Inl (ParamNotAllowed key)
        else if key = ''tolerance'' then dec key (y_int lib valNode) (\<lambda>v. c\<lparr>ck_Tolerance := Some v\<rparr>)
        else if key = ''duration'' then
          (case y_string lib valNode of
             None \<Rightarrow> Inl (BadParam key)
           | Some s \<Rightarrow>
               (case ParseDuration s of
                  Inl _ \<Rightarrow> Inl (BadParam key)
                | Inr d \<Rightarrow> if d < 0 then Inl (BadParam key) else Inr (c\<lparr>ck_Duration := Some d\<rparr>)))
        else if key = ''ceiling'' then dec key (y_float lib valNode) (\<lambda>v. c\<lparr>ck_Ceiling := Some v\<rparr>)
        else if key = ''failing'' then dec key (y_bool lib valNode) (\<lambda>v. c\<lparr>ck_Failing := v\<rparr>)
        else if key = ''rules'' then dec key (y_rules lib valNode) (\<lambda>v. c\<lparr>ck_Rules := v\<rparr>)
        else if key = ''throttledNodes'' then dec key (y_strings lib valNode) (\<lambda>v. c\<lparr>ck_ThrottledNodes := v\<rparr>)
        else Inl (BadParam key))"

definition check_key :: "yaml_lib \<Rightarrow> ynode \<times> ynode \<Rightarrow> CheckSpec \<Rightarrow> parse_error + CheckSpec" where
  "check_key lib = (\<lambda>(keyNode, valNode) c.
     if toCheckFunction (yn_Value keyNode) \<noteq> None then
       (if yn_Kind valNode \<noteq> MappingNode then Inr c
        else fold_result (Check_parseParam lib) (pairs_of (yn_Content valNode)) c)
     else Check_parseParam lib (keyNode, valNode) c)"

definition unmarshalCheckMapping :: "yaml_lib \<Rightarrow> ynode \<Rightarrow> parse_error + CheckSpec" where
  "unmarshalCheckMapping lib node =
     (let ps = pairs_of (yn_Content node)
      in case List.map_filter (\<lambda>(k, v). toCheckFunction (yn_Value k)) ps of
           [] \<Rightarrow> Inl NoFunction
         | fn # _ \<Rightarrow> fold_result (check_key lib) ps (no_check\<lparr>ck_Function := fn\<rparr>))"

definition Check_UnmarshalYAML :: "yaml_lib \<Rightarrow> ynode \<Rightarrow> parse_error + CheckSpec" where
  "Check_UnmarshalYAML lib node =
     (case yn_Kind node of
        ScalarNode \<Rightarrow>
          (case toCheckFunction (yn_Value node) of
             None \<Rightarrow> Inl (UnknownFunction (yn_Value node))
           | Some fn \<Rightarrow> Inr (no_check\<lparr>ck_Function := fn\<rparr>))
      | MappingNode \<Rightarrow> unmarshalCheckMapping lib node
      | _ \<Rightarrow> Inl WrongKind)"

definition present :: "ynode \<Rightarrow> bool" where
  "present val \<longleftrightarrow> yn_Tag val \<noteq> ''!!null'' \<and> yn_Value val \<noteq> []"

fun decode_targets :: "(ynode \<Rightarrow> 't option) \<Rightarrow> string \<Rightarrow> ynode list \<Rightarrow> parse_error + 't list" where
  "decode_targets d fn [] = Inr []"
| "decode_targets d fn (n # ns) =
     (case d n of
        None \<Rightarrow> Inl (BadValue fn)
      | Some t \<Rightarrow> (case decode_targets d fn ns of Inl e \<Rightarrow> Inl e | Inr ts \<Rightarrow> Inr (t # ts)))"

definition parseFunctionValue :: "yaml_lib \<Rightarrow> StepFunction \<Rightarrow> ynode \<Rightarrow> Step \<Rightarrow> parse_error + Step" where
  "parseFunctionValue lib fn val s =
     (if fn = ''updateRules'' then
        (if yn_Kind val = MappingNode then
           (case y_rules lib val of None \<Rightarrow> Inl (BadValue fn) | Some patch \<Rightarrow> Inr (s\<lparr>st_Rules := patch\<rparr>))
         else if present val then Inl (BadValue fn) else Inr s)
      else if fn = ''undelegate'' then
        (case yn_Kind val of
           ScalarNode \<Rightarrow>
             if \<not> present val then Inl (BadValue fn)
             else Inr (s\<lparr>st_UndelegateTargets := [\<lparr>ut_Node = yn_Value val, ut_Stake = None, ut_Delegator = []\<rparr>]\<rparr>)
         | SequenceNode \<Rightarrow>
             (case decode_targets (y_undelegate lib) fn (yn_Content val) of
                Inl e \<Rightarrow> Inl e
              | Inr ts \<Rightarrow> Inr (s\<lparr>st_UndelegateTargets := st_UndelegateTargets s @ ts\<rparr>))
         | _ \<Rightarrow> Inl (BadValue fn))
      else if fn = ''killSonic'' \<or> fn = ''healDb'' then
        Inr (if yn_Kind val = ScalarNode \<and> present val then s\<lparr>st_Identifier := yn_Value val\<rparr> else s)
      else if fn = ''delegate'' then
        (if yn_Kind val \<noteq> SequenceNode then Inl (BadValue fn)
         else case decode_targets (y_delegate lib) fn (yn_Content val) of
                Inl e \<Rightarrow> Inl e
              | Inr ts \<Rightarrow> Inr (s\<lparr>st_DelegateTargets := st_DelegateTargets s @ ts\<rparr>))
      else if fn = ''verifyStakes'' \<or> fn = ''advanceEpoch'' \<or> fn = ''waitForEpoch'' then
        (if yn_Kind val \<noteq> ScalarNode \<or> (present val \<and> yn_Value val \<noteq> ''null'') then Inl (BadValue fn) else Inr s)
      else if fn = ''waitFor'' then
        (if yn_Kind val \<noteq> ScalarNode \<or> yn_Value val = [] then Inl (BadValue fn)
         else case ParseDuration (yn_Value val) of
                Inl _ \<Rightarrow> Inl (BadValue fn)
              | Inr d \<Rightarrow> if d \<le> 0 then Inl (BadValue fn) else Inr (s\<lparr>st_Duration := d\<rparr>))
      else if fn = ''checks'' then
        (if yn_Kind val = SequenceNode then
           (case y_checks lib (Check_UnmarshalYAML lib) (yn_Content val) of
              Inl e \<Rightarrow> Inl e
            | Inr specs \<Rightarrow> Inr (s\<lparr>st_SubChecks := specs\<rparr>))
         else if present val then Inl (BadValue fn) else Inr s)
      else
        Inr (if yn_Kind val = ScalarNode \<and> present val then s\<lparr>st_Identifier := yn_Value val\<rparr> else s))"

definition Step_parseParam :: "yaml_lib \<Rightarrow> string \<Rightarrow> ynode \<Rightarrow> Step \<Rightarrow> parse_error + Step" where
  "Step_parseParam lib key val s =
     (if (case map_of allowedParams (st_Function s) of None \<Rightarrow> True | Some allowed \<Rightarrow> key \<notin> set allowed)
      then Inl (ParamNotAllowed key)
      else if key = ''type'' then
        dec key (y_string lib val)
          (\<lambda>v. if st_Function s = ''runApp'' then s\<lparr>st_AppType := v\<rparr> else s\<lparr>st_NodeType := v\<rparr>)
      else if key = ''imageName'' then dec key (y_string lib val) (\<lambda>v. s\<lparr>st_ImageName := v\<rparr>)
      else if key = ''dataVolume'' then dec key (y_string lib val) (\<lambda>v. s\<lparr>st_DataVolume := v\<rparr>)
      else if key = ''stake'' then dec key (y_uint64 lib val) (\<lambda>v. s\<lparr>st_Stake := Some v\<rparr>)
      else if key = ''instances'' then dec key (y_int lib val) (\<lambda>v. s\<lparr>st_Instances := Some v\<rparr>)
      else if key = ''failing'' then dec key (y_bool lib val) (\<lambda>v. s\<lparr>st_Failing := v\<rparr>)
      else if key = ''extraArguments'' then dec key (y_string lib val) (\<lambda>v. s\<lparr>st_ExtraArguments := v\<rparr>)
      else if key = ''users'' then dec key (y_int lib val) (\<lambda>v. s\<lparr>st_Users := Some v\<rparr>)
      else if key = ''rate'' then dec key (y_rate lib val) (\<lambda>v. s\<lparr>st_Rate := Some v\<rparr>)
      else Inr s)"

text \<open>The first pass over the keys of a step finds its function, the second one its parameters.\<close>

definition find_function :: "yaml_lib \<Rightarrow> ynode \<times> ynode \<Rightarrow> Step \<Rightarrow> parse_error + Step" where
  "find_function lib = (\<lambda>(keyNode, valNode) s.
     case toStepFunction (yn_Value keyNode) of
       None \<Rightarrow> Inr s
     | Some fn \<Rightarrow>
         if st_Function s \<noteq> [] then Inl (MultipleFunctions (st_Function s) fn)
         else parseFunctionValue lib fn valNode (s\<lparr>st_Function := fn\<rparr>))"

definition step_param :: "yaml_lib \<Rightarrow> ynode \<times> ynode \<Rightarrow> Step \<Rightarrow> parse_error + Step" where
  "step_param lib = (\<lambda>(keyNode, valNode) s.
     if toStepFunction (yn_Value keyNode) \<noteq> None then Inr s
     else Step_parseParam lib (yn_Value keyNode) valNode s)"

definition unmarshalMapping :: "yaml_lib \<Rightarrow> ynode \<Rightarrow> parse_error + Step" where
  "unmarshalMapping lib node =
     (let ps = pairs_of (yn_Content node)
      in case fold_result (find_function lib) ps no_step of
           Inl e \<Rightarrow> Inl e
         | Inr s \<Rightarrow> if st_Function s = [] then Inl NoFunction else fold_result (step_param lib) ps s)"

definition Step_UnmarshalYAML :: "yaml_lib \<Rightarrow> ynode \<Rightarrow> parse_error + Step" where
  "Step_UnmarshalYAML lib node =
     (case yn_Kind node of
        ScalarNode \<Rightarrow>
          (case toStepFunction (yn_Value node) of
             None \<Rightarrow> Inl (UnknownFunction (yn_Value node))
           | Some fn \<Rightarrow> Inr (no_step\<lparr>st_Function := fn\<rparr>))
      | MappingNode \<Rightarrow> unmarshalMapping lib node
      | _ \<Rightarrow> Inl WrongKind)"

definition setDefaults :: "Scenario \<Rightarrow> Scenario" where
  "setDefaults s =
     (let s1 = s\<lparr>sc_InitialRules := ensureDefaultEpochDuration (sc_InitialRules s)\<rparr>
      in if sc_DisableEndChecks s1 then s1
         else s1\<lparr>sc_Steps := sc_Steps s1 @
           [no_step\<lparr>st_Function := ''advanceEpoch''\<rparr>, no_step\<lparr>st_Function := ''advanceEpoch''\<rparr>,
            no_step\<lparr>st_Function := ''checks'',
              st_SubChecks := [no_check\<lparr>ck_Function := ''blockHashes''\<rparr>, no_check\<lparr>ck_Function := ''blockHeights''\<rparr>]\<rparr>]\<rparr>)"

text \<open>\<open>decoded\<close> is what the YAML library makes of the input.\<close>

definition Parse :: "parse_error + Scenario \<Rightarrow> parse_error + Scenario" where
  "Parse decoded = (case decoded of Inl e \<Rightarrow> Inl e | Inr s \<Rightarrow> Inr (setDefaults s))"

section \<open>Semantic check: check.go\<close>

definition MatchName :: "string \<Rightarrow> bool" where
  "MatchName s \<longleftrightarrow> s \<noteq> [] \<and>
     list_all (\<lambda>c. let n = of_char c :: nat in
       (65 \<le> n \<and> n \<le> 90) \<or> (97 \<le> n \<and> n \<le> 122) \<or> (48 \<le> n \<and> n \<le> 57) \<or> c = CHR ''-'' \<or> c = CHR ''.'') s"

definition isTypeValid :: "string \<Rightarrow> bool" where
  "isTypeValid t \<longleftrightarrow> t \<in> {''validator'', ''rpc'', ''observer''}"

datatype scenario_error =
    EmptyName
  | EmptyDescription
  | InvalidRules
  | MissingIdentifier
  | BadName string
  | BadType string
  | BadInstances int
  | MissingType
  | UnknownAppType string
  | MissingRate
  | BadRate rate_error
  | BadUsers int
  | NoRules
  | NoTargets
  | BadTarget nat
  | BadDuration duration
  | NoChecks
  | MissingCheckFunction nat
  | InvalidCheckRules nat
  | ShortDuration nat
  | ShortTolerance nat
  | UnknownStep string
  | InStep nat scenario_error

definition check_name :: "string \<Rightarrow> scenario_error list" where
  "check_name s = (if s = [] then [MissingIdentifier] else if MatchName s then [] else [BadName s])"

definition checkStartNode :: "Step \<Rightarrow> scenario_error list" where
  "checkStartNode s =
     check_name (st_Identifier s) @
     (let t = (if st_NodeType s = [] then ''observer'' else st_NodeType s) in if isTypeValid t then [] else [BadType t]) @
     (case st_Instances s of None \<Rightarrow> [] | Some n \<Rightarrow> if n < 1 then [BadInstances n] else [])"

definition checkStopNode :: "Step \<Rightarrow> scenario_error list" where
  "checkStopNode s = check_name (st_Identifier s)"

definition checkRunApp :: "Step \<Rightarrow> scenario_error list" where
  "checkRunApp s =
     check_name (st_Identifier s) @
     (if st_AppType s = [] then [MissingType]
      else if IsSupportedApplicationType (st_AppType s) then [] else [UnknownAppType (st_AppType s)]) @
     (case st_Rate s of None \<Rightarrow> [MissingRate] | Some r \<Rightarrow> map BadRate (Rate_Check r)) @
     (case st_Users s of None \<Rightarrow> [] | Some n \<Rightarrow> if n < 1 then [BadUsers n] else [])"

definition checkStopApp :: "Step \<Rightarrow> scenario_error list" where
  "checkStopApp s = check_name (st_Identifier s)"

text \<open>The JSON of a patch is the empty object exactly if it has no field.\<close>

definition checkUpdateRules :: "Step \<Rightarrow> scenario_error list" where
  "checkUpdateRules s = (if st_Rules s = no_patch then [NoRules] else [])"

definition observationWindowChecks :: "StepFunction list" where
  "observationWindowChecks = [''blockGasRate'', ''blocksHalted'', ''blocksProduced'']"

definition MinObservationSamples :: int where
  "MinObservationSamples = 2"

definition MinObservationDuration :: duration where
  "MinObservationDuration = MinObservationSamples * 1000000000"

definition check_spec :: "(NetworkRulesPatch \<Rightarrow> bool) \<Rightarrow> nat \<Rightarrow> CheckSpec \<Rightarrow> scenario_error list" where
  "check_spec validate i c =
     (if ck_Function c = [] then [MissingCheckFunction i]
      else
        (if ck_Function c = ''networkRules'' \<and> ck_Rules c \<noteq> no_patch \<and> \<not> validate (ck_Rules c)
         then [InvalidCheckRules i] else []) @
        (case ck_Duration c of
           Some d \<Rightarrow>
             if ck_Function c \<in> set observationWindowChecks \<and> d < MinObservationDuration then [ShortDuration i] else []
         | None \<Rightarrow>
             (case ck_Tolerance c of
                None \<Rightarrow> []
              | Some t \<Rightarrow>
                  if ck_Function c \<in> set observationWindowChecks \<and> t < MinObservationSamples
                  then [ShortTolerance i] else [])))"

definition checkSubChecks :: "(NetworkRulesPatch \<Rightarrow> bool) \<Rightarrow> Step \<Rightarrow> scenario_error list" where
  "checkSubChecks validate s =
     (if st_SubChecks s = [] then [NoChecks]
      else concat (map (\<lambda>(i, c). check_spec validate (i + 1) c) (enumerate 0 (st_SubChecks s))))"

definition bad_undelegate :: "UndelegateTarget \<Rightarrow> bool" where
  "bad_undelegate t \<longleftrightarrow> ut_Node t = [] \<or> \<not> MatchName (ut_Node t) \<or> (ut_Delegator t \<noteq> [] \<and> \<not> MatchName (ut_Delegator t))"

definition bad_delegate :: "DelegateTarget \<Rightarrow> bool" where
  "bad_delegate t \<longleftrightarrow>
     dt_Node t = [] \<or> \<not> MatchName (dt_Node t) \<or> dt_Delegator t = [] \<or> \<not> MatchName (dt_Delegator t) \<or> dt_Stake t = 0"

text \<open>The first target that is not acceptable is reported.\<close>

definition check_targets :: "('t \<Rightarrow> bool) \<Rightarrow> 't list \<Rightarrow> scenario_error list" where
  "check_targets bad ts =
     (if ts = [] then [NoTargets]
      else case find (\<lambda>(i, t). bad t) (enumerate 0 ts) of
             None \<Rightarrow> []
           | Some (i, _) \<Rightarrow> [BadTarget (i + 1)])"

definition Step_Check :: "(NetworkRulesPatch \<Rightarrow> bool) \<Rightarrow> Step \<Rightarrow> scenario_error list" where
  "Step_Check validate s =
     (let fn = st_Function s
      in if fn = ''startNode'' then checkStartNode s
         else if fn = ''stopNode'' then checkStopNode s
         else if fn = ''runApp'' then checkRunApp s
         else if fn = ''stopApp'' then checkStopApp s
         else if fn = ''updateRules'' then checkUpdateRules s
         else if fn = ''undelegate'' then check_targets bad_undelegate (st_UndelegateTargets s)
         else if fn = ''delegate'' then check_targets bad_delegate (st_DelegateTargets s)
         else if fn = ''verifyStakes'' then []
         else if fn = ''waitFor'' then (if st_Duration s \<le> 0 then [BadDuration (st_Duration s)] else [])
         else if fn = ''killSonic'' \<or> fn = ''healDb'' then (if st_Identifier s = [] then [MissingIdentifier] else [])
         else if fn = ''advanceEpoch'' \<or> fn = ''waitForEpoch'' then []
         else if fn = ''checks'' then checkSubChecks validate s
         else [UnknownStep fn])"

definition Scenario_Check :: "(NetworkRulesPatch \<Rightarrow> bool) \<Rightarrow> Scenario \<Rightarrow> scenario_error list" where
  "Scenario_Check validate s =
     (if TrimSpace (sc_Name s) = [] then [EmptyName] else []) @
     (if TrimSpace (sc_Description s) = [] then [EmptyDescription] else []) @
     (if validate (sc_InitialRules s) then [] else [InvalidRules]) @
     concat (map (\<lambda>(i, st). map (InStep (i + 1)) (Step_Check validate st)) (enumerate 0 (sc_Steps s)))"

end
