(* ===== verification/Network_Staking.thy ===== *)
theory Network_Staking
  imports Norma_Prelude
begin

text \<open>
  Stake operations against the SFC contract (\<open>driver/network/delegation.go\<close>, \<open>validator.go\<close>) and the
  registry of validators that the executor uses (\<open>driver/executor/validator_registry.go\<close>). The
  contract, the treasury and the connection to a node are parameters.
\<close>

type_synonym privkey = "256 word"

datatype net_error =
    EmptyNetwork
  | Unreachable
  | CallFailed
  | SubmitFailed
  | NoReceipt
  | TxReverted
  | ZeroStake
  | NoStake
  | SealFailed
  | NotJoined "int list"
  | NetCancelled

text \<open>How a submitted transaction ended; \<open>Lost\<close> is one whose receipt could not be read.\<close>

datatype tx_result = NotSubmitted | Lost | Reverted_tx | Successful

text \<open>
  The node behind a connection: the calls of the SFC contract and plain transfers, signed with a key.
  Amounts are in wei.
\<close>

record 'w sfc =
  sfc_Delegate :: "privkey \<Rightarrow> int \<Rightarrow> int \<Rightarrow> 'w \<Rightarrow> tx_result \<times> 'w"
  sfc_Undelegate :: "privkey \<Rightarrow> int \<Rightarrow> int \<Rightarrow> 'w \<Rightarrow> tx_result \<times> 'w"
  sfc_CreateValidator :: "privkey \<Rightarrow> int \<Rightarrow> 'w \<Rightarrow> tx_result \<times> 'w"
  sfc_Transfer :: "privkey \<Rightarrow> address \<Rightarrow> int \<Rightarrow> 'w \<Rightarrow> tx_result \<times> 'w"
  sfc_GetStake :: "address \<Rightarrow> int \<Rightarrow> 'w \<Rightarrow> int option"
  sfc_GetSelfStake :: "int \<Rightarrow> 'w \<Rightarrow> int option"
  sfc_LastValidatorID :: "'w \<Rightarrow> int option"
  sfc_addr :: "privkey \<Rightarrow> address"
  sfc_fakeKey :: "int \<Rightarrow> privkey"

section \<open>Amounts\<close>

definition wei_per_S :: int where
  "wei_per_S = 1000000000000000000"

definition stakeToWei :: "u64 \<Rightarrow> int" where
  "stakeToWei stake = uint stake * wei_per_S"

text \<open>\<open>Quo\<close> truncates towards zero; a result that is no 64-bit number gives zero.\<close>

definition weiToStake :: "int option \<Rightarrow> u64" where
  "weiToStake wei =
     (case wei of
        None \<Rightarrow> 0
      | Some w \<Rightarrow>
          let stake = (if w < 0 then - ((- w) div wei_per_S) else w div wei_per_S)
          in if 0 \<le> stake \<and> stake < 2 ^ 64 then word_of_int stake else 0)"

lemma weiToStake_stakeToWei: "weiToStake (Some (stakeToWei s)) = s"
  using uint_bounded [of s] by (simp add: weiToStake_def stakeToWei_def wei_per_S_def)

section \<open>Calls of the contract\<close>

definition tx_done :: "tx_result \<times> 'w \<Rightarrow> net_error option \<times> 'w" where
  "tx_done = (\<lambda>(r, w). ((case r of
       NotSubmitted \<Rightarrow> Some SubmitFailed
     | Lost \<Rightarrow> Some NoReceipt
     | Reverted_tx \<Rightarrow> Some TxReverted
     | Successful \<Rightarrow> None), w))"

definition DelegateToValidator :: "'w sfc \<Rightarrow> int \<Rightarrow> u64 \<Rightarrow> privkey \<Rightarrow> 'w \<Rightarrow> net_error option \<times> 'w" where
  "DelegateToValidator c validatorId stake delegator w =
     (if stake = 0 then (Some ZeroStake, w)
      else tx_done (sfc_Delegate c delegator validatorId (stakeToWei stake) w))"

definition UndelegateFromValidator :: "'w sfc \<Rightarrow> int \<Rightarrow> u64 \<Rightarrow> privkey \<Rightarrow> 'w \<Rightarrow> net_error option \<times> 'w" where
  "UndelegateFromValidator c validatorId stake delegator w =
     (if stake = 0 then
        (case sfc_GetStake c (sfc_addr c delegator) validatorId w of
           None \<Rightarrow> (Some CallFailed, w)
         | Some stakeWei \<Rightarrow>
             if stakeWei = 0 then (Some NoStake, w)
             else tx_done (sfc_Undelegate c delegator validatorId stakeWei w))
      else tx_done (sfc_Undelegate c delegator validatorId (stakeToWei stake) w))"

definition GetDelegatorStake :: "'w sfc \<Rightarrow> address \<Rightarrow> int \<Rightarrow> 'w \<Rightarrow> net_error + u64" where
  "GetDelegatorStake c delegator validatorId w =
     (case sfc_GetStake c delegator validatorId w of
        None \<Rightarrow> Inl CallFailed
      | Some stakeWei \<Rightarrow> Inr (weiToStake (Some stakeWei)))"

definition FundAccount :: "'w sfc \<Rightarrow> privkey \<Rightarrow> address \<Rightarrow> u64 \<Rightarrow> 'w \<Rightarrow> net_error option \<times> 'w" where
  "FundAccount c source dest amount w = tx_done (sfc_Transfer c source dest (stakeToWei amount) w)"

definition defaultStakePerValidator :: u64 where
  "defaultStakePerValidator = 5000000"

definition RegisterValidatorNode :: "'w sfc \<Rightarrow> u64 \<Rightarrow> 'w \<Rightarrow> (net_error + int) \<times> 'w" where
  "RegisterValidatorNode c stake w =
     (case sfc_LastValidatorID c w of
        None \<Rightarrow> (Inl CallFailed, w)
      | Some lastValId \<Rightarrow>
          let newValId = lastValId + 1;
              stake1 = (if stake = 0 then defaultStakePerValidator else stake);
              (err, w1) = tx_done (sfc_CreateValidator c (sfc_fakeKey c newValId) (stakeToWei stake1) w)
          in ((case err of Some e \<Rightarrow> Inl e | None \<Rightarrow> Inr newValId), w1))"

definition UnregisterValidatorNode :: "'w sfc \<Rightarrow> int \<Rightarrow> u64 \<Rightarrow> 'w \<Rightarrow> net_error option \<times> 'w" where
  "UnregisterValidatorNode c validatorId stake w =
     (if stake = 0 then
        (case sfc_GetSelfStake c validatorId w of
           None \<Rightarrow> (Some CallFailed, w)
         | Some stakeWei \<Rightarrow> tx_done (sfc_Undelegate c (sfc_fakeKey c validatorId) validatorId stakeWei w))
      else tx_done (sfc_Undelegate c (sfc_fakeKey c validatorId) validatorId (stakeToWei stake) w))"

section \<open>The registry of validators\<close>

text \<open>
  What the executor needs of the chain: the operations of \<open>validatorRegistry\<close> other than the activation
  of validators, which goes through the network.
\<close>

record 'w validatorRegistry =
  rg_registerNewValidator :: "u64 \<Rightarrow> 'w \<Rightarrow> (net_error + int) \<times> 'w"
  rg_unregisterValidator :: "int \<Rightarrow> u64 \<Rightarrow> 'w \<Rightarrow> net_error option \<times> 'w"
  rg_delegate :: "int \<Rightarrow> u64 \<Rightarrow> privkey \<Rightarrow> 'w \<Rightarrow> net_error option \<times> 'w"
  rg_undelegateAs :: "int \<Rightarrow> u64 \<Rightarrow> privkey \<Rightarrow> 'w \<Rightarrow> net_error option \<times> 'w"
  rg_fundDelegator :: "address \<Rightarrow> u64 \<Rightarrow> 'w \<Rightarrow> net_error option \<times> 'w"
  rg_getDelegatorStake :: "address \<Rightarrow> int \<Rightarrow> 'w \<Rightarrow> (net_error + u64) \<times> 'w"

text \<open>The implementation dials a random node for every call; \<open>dial\<close> is whether that succeeds.\<close>

definition dialled :: "('w \<Rightarrow> bool \<times> 'w) \<Rightarrow> (net_error \<Rightarrow> 'r) \<Rightarrow> ('w \<Rightarrow> 'r \<times> 'w) \<Rightarrow> 'w \<Rightarrow> 'r \<times> 'w" where
  "dialled dial err call w = (let (ok, w1) = dial w in if ok then call w1 else (err Unreachable, w1))"

definition netBasedValidatorRegistry :: "('w \<Rightarrow> bool \<times> 'w) \<Rightarrow> 'w sfc \<Rightarrow> 'w validatorRegistry" where
  "netBasedValidatorRegistry dial c =
     \<lparr>rg_registerNewValidator = (\<lambda>stake. dialled dial Inl (RegisterValidatorNode c stake)),
      rg_unregisterValidator = (\<lambda>i stake. dialled dial Some (UnregisterValidatorNode c i stake)),
      rg_delegate = (\<lambda>i stake k. dialled dial Some (DelegateToValidator c i stake k)),
      rg_undelegateAs = (\<lambda>i stake k. dialled dial Some (UndelegateFromValidator c i stake k)),
      rg_fundDelegator = (\<lambda>a amount. dialled dial Some (FundAccount c (sfc_fakeKey c 1) a amount)),
      rg_getDelegatorStake = (\<lambda>a i. dialled dial Inl (\<lambda>w. (GetDelegatorStake c a i w, w)))\<rparr>"

definition missingValidators :: "int list \<Rightarrow> int list \<Rightarrow> int list" where
  "missingValidators want active = filter (\<lambda>i. i \<notin> set active) want"

section \<open>The contract of the registry\<close>

text \<open>
  What the SFC contract does to the stakes, \<open>view w a i\<close> being the stake of the account \<open>a\<close> on the
  validator \<open>i\<close> in wei: a successful delegation adds its amount to the stake of the signing account, a
  successful undelegation needs that much stake and removes it, nothing else changes the stake of an
  account other than the signing one, a failed transaction changes no stake, and no account has more
  than \<open>2 ^ 64 - 1\<close> whole tokens on a validator.
\<close>

definition sfc_contract :: "'w sfc \<Rightarrow> ('w \<Rightarrow> address \<Rightarrow> int \<Rightarrow> int) \<Rightarrow> bool" where
  "sfc_contract c view \<longleftrightarrow>
     (\<forall>w a i. 0 \<le> view w a i \<and> view w a i < 2 ^ 64 * wei_per_S) \<and>
     (\<forall>w a i s. sfc_GetStake c a i w = Some s \<longrightarrow> s = view w a i) \<and>
     (\<forall>k i v w w'. sfc_Delegate c k i v w = (Successful, w') \<longrightarrow>
        view w' = (\<lambda>a j. view w a j + (if a = sfc_addr c k \<and> j = i then v else 0))) \<and>
     (\<forall>k i v w w'. sfc_Undelegate c k i v w = (Successful, w') \<longrightarrow>
        v \<le> view w (sfc_addr c k) i \<and>
        view w' = (\<lambda>a j. view w a j - (if a = sfc_addr c k \<and> j = i then v else 0))) \<and>
     (\<forall>k v w w'. sfc_CreateValidator c k v w = (Successful, w') \<longrightarrow>
        (\<forall>a j. a \<noteq> sfc_addr c k \<longrightarrow> view w' a j = view w a j)) \<and>
     (\<forall>k a v w w' r. sfc_Transfer c k a v w = (r, w') \<longrightarrow> view w' = view w)"

text \<open>What the executor relies on, in whole tokens.\<close>

definition registry_contract ::
  "'w validatorRegistry \<Rightarrow> (privkey \<Rightarrow> address) \<Rightarrow> ('w \<Rightarrow> address \<Rightarrow> int \<Rightarrow> int) \<Rightarrow> address set \<Rightarrow> bool" where
  "registry_contract r addr view D \<longleftrightarrow>
     (\<forall>w a i. 0 \<le> view w a i \<and> view w a i < 2 ^ 64 * wei_per_S) \<and>
     (\<forall>i s k w w'. rg_delegate r i s k w = (None, w') \<longrightarrow>
        view w' = (\<lambda>a j. view w a j + (if a = addr k \<and> j = i then stakeToWei s else 0))) \<and>
     (\<forall>i s k w w'. rg_undelegateAs r i s k w = (None, w') \<longrightarrow>
        (let v = (if s = 0 then view w (addr k) i else stakeToWei s)
         in v \<le> view w (addr k) i \<and>
            view w' = (\<lambda>a j. view w a j - (if a = addr k \<and> j = i then v else 0)))) \<and>
     (\<forall>a s w w'. rg_fundDelegator r a s w = (None, w') \<longrightarrow> view w' = view w) \<and>
     (\<forall>s i w w' a j. rg_registerNewValidator r s w = (Inr i, w') \<and> a \<in> D \<longrightarrow> view w' a j = view w a j) \<and>
     (\<forall>i s w w' a j. rg_unregisterValidator r i s w = (None, w') \<and> a \<in> D \<longrightarrow> view w' a j = view w a j) \<and>
     (\<forall>a i w s w'. rg_getDelegatorStake r a i w = (s, w') \<longrightarrow>
        view w' = view w \<and> (\<forall>v. s = Inr v \<longrightarrow> v = weiToStake (Some (view w a i))))"

lemma tx_done_None: "tx_done r = (None, w') \<longleftrightarrow> r = (Successful, w')"
  by (cases r; cases "fst r") (auto simp: tx_done_def split: prod.splits)

text \<open>
  The implementation meets the contract for accounts that are not those of validators, if dialling
  leaves the stakes alone.
\<close>

lemma net_registry_contract:
  assumes c: "sfc_contract c view" and dial: "\<And>w ok w'. dial w = (ok, w') \<Longrightarrow> view w' = view w"
    and D: "\<And>i. sfc_addr c (sfc_fakeKey c i) \<notin> D"
  shows "registry_contract (netBasedValidatorRegistry dial c) (sfc_addr c) view D"
proof -
  let ?r = "netBasedValidatorRegistry dial c"
  have call: "\<exists>w1. view w1 = view w \<and> f w1 = (x, w')"
    if "dialled dial err f w = (x, w')" "x \<noteq> err Unreachable" for err f w x and w'
    using that dial by (auto simp: dialled_def Let_def split: prod.splits if_splits)
  note laws = c [unfolded sfc_contract_def]
  note rest = conjunct2 [OF laws] conjunct2 [OF conjunct2 [OF laws]] conjunct2 [OF conjunct2 [OF conjunct2 [OF laws]]]
  note rest2 = conjunct2 [OF rest(3)]
  have get: "s = view w a i" if "sfc_GetStake c a i w = Some s" for w a i s
    using conjunct1 [OF rest(1)] that by simp
  have transfer: "view w' = view w" if "sfc_Transfer c k a v w = (r, w')" for k a v w r w'
    using conjunct2 [OF rest2] that by (elim allE impE)
  have del: "view w' = (\<lambda>a j. view w a j + (if a = sfc_addr c k \<and> j = i then v else 0))"
    if "sfc_Delegate c k i v w = (Successful, w')" for k i v w w'
    using conjunct1 [OF rest(2)] that by (elim allE impE)
  have und: "v \<le> view w (sfc_addr c k) i \<and> view w' = (\<lambda>a j. view w a j - (if a = sfc_addr c k \<and> j = i then v else 0))"
    if "sfc_Undelegate c k i v w = (Successful, w')" for k i v w w'
    using conjunct1 [OF rest(3)] that by (elim allE impE)
  have create: "\<forall>a j. a \<noteq> sfc_addr c k \<longrightarrow> view w' a j = view w a j"
    if "sfc_CreateValidator c k v w = (Successful, w')" for k v w w'
    using conjunct1 [OF rest2] that by blast
  have A: "view w' = (\<lambda>a j. view w a j + (if a = sfc_addr c k \<and> j = i then stakeToWei s else 0))"
    if run: "rg_delegate ?r i s k w = (None, w')" for i s k w w'
  proof -
    from run call obtain w1 where w1: "view w1 = view w" "DelegateToValidator c i s k w1 = (None, w')"
      by (fastforce simp: netBasedValidatorRegistry_def)
    then have "sfc_Delegate c k i (stakeToWei s) w1 = (Successful, w')"
      by (auto simp: DelegateToValidator_def tx_done_None split: if_splits)
    from del [OF this] show ?thesis unfolding w1(1) .
  qed
  have B: "(let v = (if s = 0 then view w (sfc_addr c k) i else stakeToWei s)
      in v \<le> view w (sfc_addr c k) i \<and> view w' = (\<lambda>a j. view w a j - (if a = sfc_addr c k \<and> j = i then v else 0)))"
    if run: "rg_undelegateAs ?r i s k w = (None, w')" for i s k w w'
  proof -
    from run call obtain w1 where w1: "view w1 = view w" "UndelegateFromValidator c i s k w1 = (None, w')"
      by (fastforce simp: netBasedValidatorRegistry_def)
    then have "sfc_Undelegate c k i (if s = 0 then view w (sfc_addr c k) i else stakeToWei s) w1 = (Successful, w')"
      by (auto simp: UndelegateFromValidator_def tx_done_None split: if_splits option.splits dest!: get)
    from und [OF this] show ?thesis unfolding Let_def w1(1) .
  qed
  have C: "view w' = view w" if run: "rg_fundDelegator ?r a s w = (None, w')" for a s w w'
  proof -
    from run call obtain w1 where w1: "view w1 = view w" "FundAccount c (sfc_fakeKey c 1) a s w1 = (None, w')"
      by (fastforce simp: netBasedValidatorRegistry_def)
    then have "sfc_Transfer c (sfc_fakeKey c 1) a (stakeToWei s) w1 = (Successful, w')"
      by (simp add: FundAccount_def tx_done_None)
    from transfer [OF this] show ?thesis unfolding w1(1) .
  qed
  have E: "view w' a j = view w a j"
    if run: "rg_unregisterValidator ?r i s w = (None, w')" "a \<in> D" for i s w w' a j
  proof -
    from run call obtain w1 where w1: "view w1 = view w" "UnregisterValidatorNode c i s w1 = (None, w')"
      by (fastforce simp: netBasedValidatorRegistry_def)
    then obtain v where "sfc_Undelegate c (sfc_fakeKey c i) i v w1 = (Successful, w')"
      by (auto simp: UnregisterValidatorNode_def tx_done_None split: if_splits option.splits)
    from und [OF this] w1 D [of i] run(2) show ?thesis by auto
  qed
  have G: "view w' a j = view w a j"
    if run: "rg_registerNewValidator ?r s w = (Inr i, w')" "a \<in> D" for i s w w' a j
  proof -
    from run call obtain w1 where w1: "view w1 = view w" "RegisterValidatorNode c s w1 = (Inr i, w')"
      by (fastforce simp: netBasedValidatorRegistry_def)
    then obtain v where "sfc_CreateValidator c (sfc_fakeKey c i) v w1 = (Successful, w')"
      by (auto simp: RegisterValidatorNode_def Let_def tx_done_None split: if_splits option.splits prod.splits)
    with create w1(1) D [of i] run(2) show ?thesis by metis
  qed
  have F: "view w' = view w \<and> (\<forall>v. s = Inr v \<longrightarrow> v = weiToStake (Some (view w a i)))"
    if run: "rg_getDelegatorStake ?r a i w = (s, w')" for a i w s w'
  proof -
    have w': "view w' = view w"
      using run dial by (auto simp: netBasedValidatorRegistry_def dialled_def Let_def split: prod.splits if_splits)
    moreover have "v = weiToStake (Some (view w' a i))" if "s = Inr v" for v
      using run that
      by (auto simp: netBasedValidatorRegistry_def dialled_def Let_def GetDelegatorStake_def
          split: prod.splits if_splits option.splits dest!: get)
    ultimately show ?thesis by simp
  qed
  have R: "0 \<le> view w a i \<and> view w a i < 2 ^ 64 * wei_per_S" for w a i
    using conjunct1 [OF laws] by (elim allE)
  show ?thesis
    unfolding registry_contract_def
  proof (intro conjI allI)
    show "rg_registerNewValidator ?r s w = (Inr i, w') \<and> a \<in> D \<longrightarrow> view w' a j = view w a j" for s i w w' a j
      by (intro impI, elim conjE) (rule G)
    show "rg_unregisterValidator ?r i s w = (None, w') \<and> a \<in> D \<longrightarrow> view w' a j = view w a j" for i s w w' a j
      by (intro impI, elim conjE) (rule E)
    show "rg_getDelegatorStake ?r a i w = (s, w') \<longrightarrow>
        view w' = view w \<and> (\<forall>v. s = Inr v \<longrightarrow> v = weiToStake (Some (view w a i)))" for a i w s w'
      by (rule impI) (rule F)
  qed (use A B C R in blast)+
qed

end
