(* ===== verification/Genesis_Model.thy ===== *)
theory Genesis_Model
  imports Go_Strings Network_Staking "HOL-Library.Product_Lexorder"
begin

text \<open>
  The genesis of a network: the start-up validators and their stakes (\<open>driver/network.go\<close>,
  \<open>driver/validator_stakes.go\<close>, \<open>driver/client_images.go\<close>), the version of a client and the choice of
  the subsidies registry (\<open>genesis/subsidies_registry.go\<close>), and the contents of the genesis file
  (\<open>genesis/genesis.go\<close>).
\<close>

section \<open>Start-up validators\<close>

record Validator =
  vd_Name :: string
  vd_Failing :: bool
  vd_Instances :: int
  vd_ImageName :: string
  vd_Stake :: u64
  vd_ExtraArguments :: string

definition GetNumValidators :: "Validator list \<Rightarrow> int" where
  "GetNumValidators vs = sum_list (map vd_Instances vs)"

definition GetValidatorStakes :: "Validator list \<Rightarrow> u64 list" where
  "GetValidatorStakes vs =
     (if GetNumValidators vs = 0 then []
      else concat (map (\<lambda>v. replicate (nat (max (vd_Instances v) 1)) (if vd_Stake v = 0 then 5000000 else vd_Stake v)) vs))"

definition DefaultClientDockerImageName :: string where
  "DefaultClientDockerImageName = ''sonic:local''"

definition ResolveClientImageName :: "string \<Rightarrow> string" where
  "ResolveClientImageName imageName = (if imageName \<noteq> [] then imageName else DefaultClientDockerImageName)"

definition GetClientImages :: "Validator list \<Rightarrow> string list \<Rightarrow> string list" where
  "GetClientImages validators clientImages = map (\<lambda>v. ResolveClientImageName (vd_ImageName v)) validators @ clientImages"

section \<open>Client versions\<close>

datatype clientVersion =
  ClientVersion (cv_major: int) (cv_minor: int) (cv_patch: int) (cv_preRelease: bool)

definition cmp_Compare :: "int \<Rightarrow> int \<Rightarrow> int" where
  "cmp_Compare a b = (if a < b then -1 else if b < a then 1 else 0)"

fun cmp_Or :: "int list \<Rightarrow> int" where
  "cmp_Or [] = 0"
| "cmp_Or (x # xs) = (if x \<noteq> 0 then x else cmp_Or xs)"

definition isBefore :: "clientVersion \<Rightarrow> clientVersion \<Rightarrow> bool" where
  "isBefore v other =
     (let order = cmp_Or [cmp_Compare (cv_major v) (cv_major other), cmp_Compare (cv_minor v) (cv_minor other),
                          cmp_Compare (cv_patch v) (cv_patch other)]
      in if order \<noteq> 0 then order < 0 else cv_preRelease v \<and> \<not> cv_preRelease other)"

text \<open>The precedence of versions is a linear order.\<close>

definition version_key :: "clientVersion \<Rightarrow> int \<times> int \<times> int \<times> bool" where
  "version_key v = (cv_major v, cv_minor v, cv_patch v, \<not> cv_preRelease v)"

lemma isBefore_key: "isBefore v w \<longleftrightarrow> version_key v < version_key w"
  by (auto simp: isBefore_def version_key_def cmp_Compare_def less_prod_def Let_def)

lemma version_key_inj: "version_key v = version_key w \<longleftrightarrow> v = w"
  by (cases v; cases w) (auto simp: version_key_def)

instantiation clientVersion :: linorder
begin

definition less_eq_clientVersion :: "clientVersion \<Rightarrow> clientVersion \<Rightarrow> bool" where
  "less_eq_clientVersion v w \<longleftrightarrow> version_key v \<le> version_key w"

definition less_clientVersion :: "clientVersion \<Rightarrow> clientVersion \<Rightarrow> bool" where
  "less_clientVersion v w \<longleftrightarrow> isBefore v w"

instance
  by standard (auto simp: less_eq_clientVersion_def less_clientVersion_def isBefore_key version_key_inj [symmetric])

end

definition firstExtendedRegistryVersion :: clientVersion where
  "firstExtendedRegistryVersion = ClientVersion 2 2 0 False"

text \<open>
  A reported version is three numbers and an optional suffix. A number that does not fit 64 bits is the
  largest one that does, which is what \<open>strconv.Atoi\<close> returns beside its error.
\<close>

definition clamp_Atoi :: "string \<Rightarrow> int" where
  "clamp_Atoi ds = min (int (digits_val ds)) (2 ^ 63 - 1)"

definition take_number :: "string \<Rightarrow> (int \<times> string) option" where
  "take_number s = (let ds = takeWhile is_digit s in if ds = [] then None else Some (clamp_Atoi ds, dropWhile is_digit s))"

definition take_dot :: "string \<Rightarrow> string option" where
  "take_dot s = (case s of c # rest \<Rightarrow> if c = CHR ''.'' then Some rest else None | [] \<Rightarrow> None)"

definition re_space :: "char \<Rightarrow> bool" where
  "re_space c \<longleftrightarrow> c \<in> {CHR 0x09, CHR 0x0A, CHR 0x0C, CHR 0x0D, CHR '' ''}"

definition take_suffix :: "string \<Rightarrow> bool option" where
  "take_suffix s =
     (case s of
        [] \<Rightarrow> Some False
      | c # rest \<Rightarrow> if c = CHR ''-'' \<and> rest \<noteq> [] \<and> list_all (\<lambda>x. \<not> re_space x) rest then Some True else None)"

definition parseClientVersion :: "string \<Rightarrow> clientVersion option" where
  "parseClientVersion s =
     Option.bind (take_number s) (\<lambda>(major, s1).
     Option.bind (take_dot s1) (\<lambda>s2.
     Option.bind (take_number s2) (\<lambda>(minor, s3).
     Option.bind (take_dot s3) (\<lambda>s4.
     Option.bind (take_number s4) (\<lambda>(patch, s5).
     Option.bind (take_suffix s5) (\<lambda>pre. Some (ClientVersion major minor patch pre)))))))"

text \<open>The registry to install; the two bytecodes are parameters, \<open>legacyCode\<close> is the decoded one.\<close>

datatype genesis_error = UnreadableVersion string | BadBytecode | GenesisPanic | EncodeFailed

fun legacy_versions :: "string list \<Rightarrow> bool \<Rightarrow> genesis_error + bool" where
  "legacy_versions [] legacy = Inr legacy"
| "legacy_versions (reported # rest) legacy =
     (case parseClientVersion reported of
        None \<Rightarrow> Inl (UnreadableVersion reported)
      | Some version \<Rightarrow> legacy_versions rest (legacy \<or> isBefore version firstExtendedRegistryVersion))"

definition subsidiesRegistryCode :: "'c option \<Rightarrow> 'c \<Rightarrow> string list \<Rightarrow> genesis_error + 'c" where
  "subsidiesRegistryCode legacyCode extendedCode clientVersions =
     (case legacy_versions clientVersions False of
        Inl e \<Rightarrow> Inl e
      | Inr legacy \<Rightarrow>
          if legacy then (case legacyCode of None \<Rightarrow> Inl BadBytecode | Some code \<Rightarrow> Inr code) else Inr extendedCode)"

section \<open>The genesis file\<close>

record 'c genesisAccount =
  ga_Name :: string
  ga_Address :: address
  ga_Code :: "'c option"
  ga_Nonce :: u64
  ga_Balance :: int

record fakeValidator =
  fv_ID :: int
  fv_Address :: address

record Delegation =
  dg_Address :: address
  dg_ValidatorID :: int
  dg_Stake :: int

record ('c, 'r, 't) genesisJson =
  gj_Rules :: 'r
  gj_Accounts :: "'c genesisAccount list"
  gj_Txs :: "'t list"

definition maxValidators :: nat where
  "maxValidators = 100"

definition totalSupply :: int where
  "totalSupply = 1000000000000000 * wei_per_S"

text \<open>
  \<open>infra\<close> are the names, addresses and codes of the infrastructure contracts before the registry,
  \<open>registryAddr\<close> is the address of the registry, \<open>fake\<close> generates the keys of the first validators and
  \<open>txs\<close> the genesis transactions. Slicing and indexing out of range panics, where the generated list is taken
  to have no spare capacity.
\<close>

definition genesis_accounts ::
  "(string \<times> address \<times> 'c) list \<Rightarrow> address \<Rightarrow> 'c \<Rightarrow> fakeValidator list \<Rightarrow> 'c genesisAccount list" where
  "genesis_accounts infra registryAddr registryCode validators =
     map (\<lambda>(n, a, c). \<lparr>ga_Name = n, ga_Address = a, ga_Code = Some c, ga_Nonce = 1, ga_Balance = 0\<rparr>) infra @
     [\<lparr>ga_Name = ''SubsidiesRegistry'', ga_Address = registryAddr, ga_Code = Some registryCode, ga_Nonce = 1, ga_Balance = 0\<rparr>] @
     map (\<lambda>v. \<lparr>ga_Name = ''validator_'' @ itoa (nat (fv_ID v)), ga_Address = fv_Address v, ga_Code = None, ga_Nonce = 0,
                ga_Balance = totalSupply div int (length validators)\<rparr>) validators"

definition genesis_delegations :: "u64 list \<Rightarrow> fakeValidator list \<Rightarrow> Delegation list" where
  "genesis_delegations stakes validators =
     map (\<lambda>(v, stake). \<lparr>dg_Address = fv_Address v, dg_ValidatorID = fv_ID v, dg_Stake = stakeToWei stake\<rparr>) (zip validators stakes)"

definition GenerateJsonGenesis ::
  "(string \<times> address \<times> 'c) list \<Rightarrow> address \<Rightarrow> 'c option \<Rightarrow> 'c \<Rightarrow> (nat \<Rightarrow> fakeValidator list) \<Rightarrow>
     (fakeValidator list \<Rightarrow> Delegation list \<Rightarrow> address \<Rightarrow> 't list) \<Rightarrow>
     u64 list \<Rightarrow> 'r \<Rightarrow> string list \<Rightarrow> genesis_error + ('c, 'r, 't) genesisJson" where
  "GenerateJsonGenesis infra registryAddr legacyCode extendedCode fake txs validatorStakes rules clientVersions =
     (case subsidiesRegistryCode legacyCode extendedCode clientVersions of
        Inl e \<Rightarrow> Inl e
      | Inr registryCode \<Rightarrow>
          let all = fake maxValidators;
              validators = take (length validatorStakes) all
          in if length all < length validatorStakes \<or> validators = [] then Inl GenesisPanic
             else Inr \<lparr>gj_Rules = rules, gj_Accounts = genesis_accounts infra registryAddr registryCode all,
                       gj_Txs = txs validators (genesis_delegations validatorStakes validators) (fv_Address (hd validators))\<rparr>)"

text \<open>
  The balances of the encoded file without their quotes: the regular expression matches the literal key, a
  quote, at least one digit and a quote, from left to right.
\<close>

definition balance_key :: string where
  "balance_key = CHR 0x22 # ''Balance'' @ [CHR 0x22] @ '': ''"

definition quoted_number :: "string \<Rightarrow> (string \<times> string) option" where
  "quoted_number s =
     (case s of
        [] \<Rightarrow> None
      | c # rest \<Rightarrow>
          let ds = takeWhile is_digit rest; rest1 = dropWhile is_digit rest
          in if c = CHR 0x22 \<and> ds \<noteq> [] \<and> rest1 \<noteq> [] \<and> hd rest1 = CHR 0x22 then Some (ds, tl rest1) else None)"

lemma quoted_number_shorter: "quoted_number s = Some (ds, rest) \<Longrightarrow> length rest < length s"
  by (auto simp: quoted_number_def Let_def split: list.splits if_splits)
    (metis length_dropWhile_le length_tl diff_le_self le_imp_less_Suc le_trans)

function encodeBalancesAsNumbers :: "string \<Rightarrow> string" where
  "encodeBalancesAsNumbers [] = []"
| "encodeBalancesAsNumbers (c # s) =
     (if take (length balance_key) (c # s) = balance_key then
        (case quoted_number (drop (length balance_key) (c # s)) of
           None \<Rightarrow> c # encodeBalancesAsNumbers s
         | Some (ds, rest) \<Rightarrow> balance_key @ ds @ encodeBalancesAsNumbers rest)
      else c # encodeBalancesAsNumbers s)"
  by pat_completeness auto
termination
  by (relation "measure length") (auto simp: balance_key_def dest: quoted_number_shorter)

text \<open>A balance loses its quotes, whatever comes after it.\<close>

lemma encode_balance:
  assumes "list_all is_digit ds" "ds \<noteq> []"
  shows "encodeBalancesAsNumbers (balance_key @ [CHR 0x22] @ ds @ [CHR 0x22] @ rest) =
           balance_key @ ds @ encodeBalancesAsNumbers rest"
proof -
  have "quoted_number (CHR 0x22 # ds @ CHR 0x22 # rest) = Some (ds, rest)"
    using assms by (simp add: quoted_number_def takeWhile_append2 dropWhile_append2 list_all_iff is_digit_def)
  then show ?thesis by (simp add: balance_key_def)
qed

end
