(* ===== verification/Executor_Model.thy ===== *)
theory Executor_Model
  imports Parser_Model Checking_Consensus Genesis_Model
begin

text \<open>
  The executor of scenarios (\<open>driver/executor/run.go\<close>): the state of a run, every step function, and the
  loop over the steps. The network, the nodes, the applications and the checkers are a record of
  operations on a world; what they do is a parameter. \<open>None\<close> as the result of an action means that it
  never returns.
\<close>

section \<open>State\<close>

record Node =
  nd_handle :: nat
  nd_label :: string
  nd_validatorId :: "int option"
  nd_isOpera :: bool

record delegatorAccount =
  da_name :: string
  da_privateKey :: privkey
  da_address :: address

type_synonym stakeKey = "string \<times> int"

record runState =
  rs_nodes :: "(string, Node) gomap"
  rs_apps :: "(string, nat) gomap"
  rs_nodeHistory :: "string list"
  rs_validatorIds :: "(string, int) gomap"
  rs_delegators :: "(string, delegatorAccount) gomap"
  rs_expectedStakes :: "(stakeKey, u64) gomap"

record NodeConfig =
  nc_Name :: string
  nc_Failing :: bool
  nc_Image :: string
  nc_Validator :: bool
  nc_ValidatorId :: "int option"
  nc_Cheater :: bool
  nc_DataVolume :: "string option"
  nc_ExtraArguments :: string

record ApplicationConfig =
  acf_Name :: string
  acf_Type :: string
  acf_Rate :: "Rate option"
  acf_Users :: int

datatype exec_error =
    NetErr net_error
  | Aborted
  | NodeNotFound string
  | NotOpera string
  | MultipleInstances string
  | NotValidator string
  | RejoinWithoutId string
  | UnknownDelegatorName string
  | KeyDerivation string
  | SyncTimeout
  | StakeErrors "string list"
  | AppNotFound string
  | CheckerNotFound string
  | UnknownCheckFunction string
  | CheckFailed nat check_error
  | Panic
  | UnknownStepFunction string
  | StepFailed nat exec_error
  | Unstable nat exec_error
  | InvalidScenario

text \<open>
  The operations of the network, its nodes and applications, the clock and the context, and the
  checkers, by name and configuration.
\<close>

record 'w network_ops =
  op_ctxDone :: "'w \<Rightarrow> bool"
  op_now :: "'w \<Rightarrow> gotime"
  op_sleep :: "duration \<Rightarrow> 'w \<Rightarrow> 'w"
  op_DialRandomRpc :: "'w \<Rightarrow> (net_error + nat) \<times> 'w"
  op_DialRpc :: "Node \<Rightarrow> 'w \<Rightarrow> (net_error + nat) \<times> 'w"
  op_BlockNumber :: "nat \<Rightarrow> 'w \<Rightarrow> (net_error + u64) \<times> 'w"
  op_CreateNode :: "NodeConfig \<Rightarrow> 'w \<Rightarrow> (net_error + Node) \<times> 'w"
  op_RemoveNode :: "Node \<Rightarrow> 'w \<Rightarrow> net_error option \<times> 'w"
  op_Stop :: "Node \<Rightarrow> 'w \<Rightarrow> net_error option \<times> 'w"
  op_Cleanup :: "Node \<Rightarrow> 'w \<Rightarrow> net_error option \<times> 'w"
  op_StartSonicd :: "Node \<Rightarrow> 'w \<Rightarrow> net_error option \<times> 'w"
  op_StartSonicdAsObserver :: "Node \<Rightarrow> 'w \<Rightarrow> net_error option \<times> 'w"
  op_WaitForSync :: "Node \<Rightarrow> 'w \<Rightarrow> net_error option \<times> 'w"
  op_ReconnectNode :: "Node \<Rightarrow> 'w \<Rightarrow> net_error option \<times> 'w"
  op_ResumeNode :: "Node \<Rightarrow> 'w \<Rightarrow> 'w"
  op_SuspendNode :: "Node \<Rightarrow> 'w \<Rightarrow> 'w"
  op_ForceStopSonicd :: "Node \<Rightarrow> 'w \<Rightarrow> net_error option \<times> 'w"
  op_HealSonicd :: "Node \<Rightarrow> 'w \<Rightarrow> net_error option \<times> 'w"
  op_CreateApplication :: "ApplicationConfig \<Rightarrow> 'w \<Rightarrow> (net_error + nat) \<times> 'w"
  op_StartApp :: "nat \<Rightarrow> 'w \<Rightarrow> net_error option \<times> 'w"
  op_StopApp :: "nat \<Rightarrow> 'w \<Rightarrow> net_error option \<times> 'w"
  op_ApplyNetworkRules :: "NetworkRulesPatch \<Rightarrow> 'w \<Rightarrow> net_error option \<times> 'w"
  op_AdvanceEpoch :: "'w \<Rightarrow> net_error option \<times> 'w"
  op_WaitForEpochChange :: "'w \<Rightarrow> net_error option \<times> 'w"
  op_GetActiveValidatorIDs :: "nat \<Rightarrow> 'w \<Rightarrow> (net_error + int list) \<times> 'w"
  op_checkers :: "string list option"
  op_Check :: "string \<Rightarrow> CheckerConfig \<Rightarrow> 'w \<Rightarrow> check_error option \<times> 'w"
  op_deriveKey :: "string \<Rightarrow> privkey option"
  op_address :: "privkey \<Rightarrow> address"

section \<open>Actions\<close>

type_synonym ('s, 'a) act = "'s \<Rightarrow> ((exec_error + 'a) \<times> 's) option"

definition ret :: "'a \<Rightarrow> ('s, 'a) act" where
  "ret a s = Some (Inr a, s)"

definition fail :: "exec_error \<Rightarrow> ('s, 'a) act" where
  "fail e s = Some (Inl e, s)"

definition bindA :: "('s, 'a) act \<Rightarrow> ('a \<Rightarrow> ('s, 'b) act) \<Rightarrow> ('s, 'b) act" where
  "bindA m f s =
     (case m s of
        None \<Rightarrow> None
      | Some (r, s') \<Rightarrow> (case r of Inl e \<Rightarrow> Some (Inl e, s') | Inr a \<Rightarrow> f a s'))"

text \<open>Running an action for its effect, whatever its result; and keeping its result as a value.\<close>

definition tryA :: "('s, 'a) act \<Rightarrow> ('s, exec_error + 'a) act" where
  "tryA m s = (case m s of None \<Rightarrow> None | Some (r, s') \<Rightarrow> Some (Inr r, s'))"

definition getS :: "(runState \<times> 'w, runState) act" where
  "getS s = Some (Inr (fst s), s)"

definition modS :: "(runState \<Rightarrow> runState) \<Rightarrow> (runState \<times> 'w, unit) act" where
  "modS f s = Some (Inr (), (f (fst s), snd s))"

definition world :: "('w \<Rightarrow> 'a \<times> 'w) \<Rightarrow> (runState \<times> 'w, 'a) act" where
  "world op s = (let (a, w') = op (snd s) in Some (Inr a, (fst s, w')))"

definition netA :: "('w \<Rightarrow> (net_error + 'a) \<times> 'w) \<Rightarrow> (runState \<times> 'w, 'a) act" where
  "netA op = bindA (world op) (\<lambda>r. case r of Inl e \<Rightarrow> fail (NetErr e) | Inr a \<Rightarrow> ret a)"

definition doA :: "('w \<Rightarrow> net_error option \<times> 'w) \<Rightarrow> (runState \<times> 'w, unit) act" where
  "doA op = bindA (world op) (\<lambda>r. case r of Some e \<Rightarrow> fail (NetErr e) | None \<Rightarrow> ret ())"

fun eachA :: "('x \<Rightarrow> ('s, 'a) act) \<Rightarrow> 'x list \<Rightarrow> ('s, 'a list) act" where
  "eachA f [] = ret []"
| "eachA f (x # xs) = bindA (f x) (\<lambda>a. bindA (eachA f xs) (\<lambda>as. ret (a # as)))"

text \<open>
  A group of goroutines that all run to their end; the error of the group is that of the first one
  that failed. They are taken in the order of the list.
\<close>

definition groupA :: "('x \<Rightarrow> ('s, 'a) act) \<Rightarrow> 'x list \<Rightarrow> ('s, 'a list) act" where
  "groupA f xs = bindA (eachA (\<lambda>x. tryA (f x)) xs) (\<lambda>rs.
     case List.map_filter (\<lambda>r. case r of Inl e \<Rightarrow> Some e | Inr _ \<Rightarrow> None) rs of
       e # _ \<Rightarrow> fail e
     | [] \<Rightarrow> ret (map (\<lambda>r. case r of Inr a \<Rightarrow> a) rs))"

section \<open>Waiting\<close>

definition getNetworkBlockHeight :: "'w network_ops \<Rightarrow> (runState \<times> 'w, u64) act" where
  "getNetworkBlockHeight ops = bindA (netA (op_DialRandomRpc ops)) (\<lambda>client. netA (op_BlockNumber ops client))"

partial_function (option) sync_loop ::
  "'w network_ops \<Rightarrow> nat \<Rightarrow> u64 \<Rightarrow> gotime \<Rightarrow> 'w \<Rightarrow> (exec_error option \<times> 'w) option" where
  "sync_loop ops client target deadline w =
     (if \<not> op_now ops w < deadline then Some (Some SyncTimeout, w)
      else if op_ctxDone ops w then Some (Some Aborted, w)
      else case op_BlockNumber ops client w of
             (r, w1) \<Rightarrow>
               (case r of
                  Inl _ \<Rightarrow> sync_loop ops client target deadline (op_sleep ops 500000000 w1)
                | Inr block \<Rightarrow>
                    if block \<ge> target then Some (None, w1)
                    else sync_loop ops client target deadline (op_sleep ops 200000000 w1)))"

definition loopA :: "('w \<Rightarrow> (exec_error option \<times> 'w) option) \<Rightarrow> (runState \<times> 'w, unit) act" where
  "loopA loop s =
     (case loop (snd s) of
        None \<Rightarrow> None
      | Some (e, w') \<Rightarrow> Some ((case e of Some err \<Rightarrow> Inl err | None \<Rightarrow> Inr ()), (fst s, w')))"

definition waitForNodeSync :: "'w network_ops \<Rightarrow> Node \<Rightarrow> u64 \<Rightarrow> (runState \<times> 'w, unit) act" where
  "waitForNodeSync ops node targetBlock =
     bindA (netA (op_DialRpc ops node)) (\<lambda>client.
       loopA (\<lambda>w. sync_loop ops client targetBlock (op_now ops w + 60000000000) w))"

partial_function (option) production_loop ::
  "'w network_ops \<Rightarrow> nat \<Rightarrow> u64 \<Rightarrow> 'w \<Rightarrow> (exec_error option \<times> 'w) option" where
  "production_loop ops client baseline w =
     (if op_ctxDone ops w then Some (Some Aborted, w)
      else case op_BlockNumber ops client w of
             (r, w1) \<Rightarrow>
               (case r of
                  Inl e \<Rightarrow> Some (Some (NetErr e), w1)
                | Inr block \<Rightarrow>
                    if block > baseline then Some (None, w1)
                    else production_loop ops client baseline (op_sleep ops 100000000 w1)))"

definition waitForBlockProduction :: "'w network_ops \<Rightarrow> (runState \<times> 'w, unit) act" where
  "waitForBlockProduction ops =
     bindA (tryA (netA (op_DialRandomRpc ops))) (\<lambda>r.
       case r of
         Inl _ \<Rightarrow> ret ()
       | Inr client \<Rightarrow>
           bindA (netA (op_BlockNumber ops client)) (\<lambda>baseline. loopA (production_loop ops client baseline)))"

text \<open>
  \<open>ensureValidatorsActive\<close> of the registry. After the seal it polls the validator set until nobody is
  missing, the timeout has passed or the context is done, which ends a wait between two polls.
\<close>

partial_function (option) active_set_loop ::
  "'w network_ops \<Rightarrow> nat \<Rightarrow> int list \<Rightarrow> gotime \<Rightarrow> 'w \<Rightarrow> (exec_error option \<times> 'w) option" where
  "active_set_loop ops client ids deadline w =
     (case op_GetActiveValidatorIDs ops client w of
        (r, w1) \<Rightarrow>
          (if (case r of Inl _ \<Rightarrow> False | Inr active \<Rightarrow> missingValidators ids active = []) then Some (None, w1)
           else if op_now ops w1 > deadline then
             Some (Some (NetErr (case r of Inl e \<Rightarrow> e | Inr active \<Rightarrow> NotJoined (missingValidators ids active))), w1)
           else
             let w2 = op_sleep ops 200000000 w1
             in if op_ctxDone ops w2 then Some (Some Aborted, w2) else active_set_loop ops client ids deadline w2))"

definition ensureValidatorsActive :: "'w network_ops \<Rightarrow> int list \<Rightarrow> (runState \<times> 'w, unit) act" where
  "ensureValidatorsActive ops ids =
     (if ids = [] then ret ()
      else
        bindA (netA (op_DialRandomRpc ops)) (\<lambda>client.
        bindA (world (op_GetActiveValidatorIDs ops client)) (\<lambda>r.
          if (case r of Inl _ \<Rightarrow> False | Inr active \<Rightarrow> missingValidators ids active = []) then ret ()
          else
            bindA (waitForBlockProduction ops) (\<lambda>_.
            bindA (doA (op_AdvanceEpoch ops)) (\<lambda>_.
              loopA (\<lambda>w. active_set_loop ops client ids (op_now ops w + 30000000000) w))))))"

section \<open>Nodes\<close>

definition restartNodeInPlace :: "'w network_ops \<Rightarrow> Step \<Rightarrow> Node \<Rightarrow> (runState \<times> 'w, unit) act" where
  "restartNodeInPlace ops step existing =
     (if \<not> nd_isOpera existing then fail (NotOpera (st_Identifier step))
      else
        bindA (tryA (getNetworkBlockHeight ops)) (\<lambda>r.
        bindA (case r of
                 Inr b \<Rightarrow> ret b
               | Inl e \<Rightarrow> if e = NetErr EmptyNetwork then ret 0 else fail e) (\<lambda>targetBlock.
        bindA (doA (if st_NodeType step = ''validator'' then op_StartSonicd ops existing
                    else op_StartSonicdAsObserver ops existing)) (\<lambda>_.
        bindA (doA (op_WaitForSync ops existing)) (\<lambda>_.
        bindA (doA (op_ReconnectNode ops existing)) (\<lambda>_.
        bindA (world (\<lambda>w. ((), op_ResumeNode ops existing w))) (\<lambda>_.
          if targetBlock > 0 then waitForNodeSync ops existing (targetBlock + 1) else ret ())))))))"

definition instance_name :: "string \<Rightarrow> nat \<Rightarrow> nat \<Rightarrow> string" where
  "instance_name name instances i = (if instances > 1 then name @ ''-'' @ itoa i else name)"

text \<open>
  The identifier of a validator instance, and whether it has to be seen active: a known one is reused,
  a rejoining node without one is an error, any other is registered.
\<close>

definition validator_id ::
  "'w validatorRegistry \<Rightarrow> Step \<Rightarrow> bool \<Rightarrow> string \<Rightarrow> (runState \<times> 'w, int \<times> bool) act" where
  "validator_id registry step isRejoin instanceName =
     bindA getS (\<lambda>st.
       case gm_get (rs_validatorIds st) instanceName of
         Some i \<Rightarrow> ret (i, isRejoin)
       | None \<Rightarrow>
           if isRejoin then fail (RejoinWithoutId instanceName)
           else
             bindA (netA (rg_registerNewValidator registry (case st_Stake step of None \<Rightarrow> 0 | Some s \<Rightarrow> s))) (\<lambda>i.
               ret (i, True)))"

definition add_node :: "string \<times> Node \<times> int option \<Rightarrow> runState \<Rightarrow> runState" where
  "add_node = (\<lambda>(n, node, vid) st.
     let st1 = st\<lparr>rs_nodes := gm_set n node (rs_nodes st), rs_nodeHistory := List.insert n (rs_nodeHistory st)\<rparr>
     in case vid of None \<Rightarrow> st1 | Some i \<Rightarrow> st1\<lparr>rs_validatorIds := gm_set n i (rs_validatorIds st1)\<rparr>)"

definition execStartNode ::
  "'w network_ops \<Rightarrow> 'w validatorRegistry \<Rightarrow> Step \<Rightarrow> (runState \<times> 'w, unit) act" where
  "execStartNode ops registry step =
     (let name = st_Identifier step in
      bindA getS (\<lambda>st.
        case gm_get (rs_nodes st) name of
          Some existing \<Rightarrow> restartNodeInPlace ops step existing
        | None \<Rightarrow>
            let isRejoin = name \<in> set (rs_nodeHistory st);
                isValidator = (st_NodeType step = ''validator'');
                image = (if st_ImageName step = [] then DefaultClientDockerImageName else st_ImageName step);
                instances = (case st_Instances step of None \<Rightarrow> 1 | Some n \<Rightarrow> nat n);
                names = map (instance_name name instances) [0..<instances];
                config = (\<lambda>n vid. \<lparr>nc_Name = n, nc_Failing = st_Failing step, nc_Image = image,
                            nc_Validator = isValidator, nc_ValidatorId = vid, nc_Cheater = False,
                            nc_DataVolume = (if st_DataVolume step = [] then None else Some (st_DataVolume step)),
                            nc_ExtraArguments = st_ExtraArguments step\<rparr>)
            in
              bindA (tryA (getNetworkBlockHeight ops)) (\<lambda>r.
              bindA (if isValidator
                     then bindA (eachA (validator_id registry step isRejoin) names)
                            (\<lambda>ids. ret (map (\<lambda>(i, a). (Some i, a)) ids))
                     else ret (map (\<lambda>_. (None, False)) names)) (\<lambda>ids.
              bindA (groupA (\<lambda>(n, vid, _). netA (op_CreateNode ops (config n vid))) (zip names ids)) (\<lambda>nodes.
              bindA (modS (fold add_node (zip names (zip nodes (map fst ids))))) (\<lambda>_.
              bindA (modS (\<lambda>st. st\<lparr>rs_nodeHistory := List.insert name (rs_nodeHistory st)\<rparr>)) (\<lambda>_.
              bindA (if st_Failing step then ret []
                     else eachA (\<lambda>node. tryA (waitForNodeSync ops node
                            ((case r of Inr b \<Rightarrow> b | Inl _ \<Rightarrow> 0) + 1))) nodes) (\<lambda>_.
                let mustBeActive = List.map_filter (\<lambda>(vid, a). if a then vid else None) ids
                in if mustBeActive \<noteq> [] \<and> \<not> st_Failing step then ensureValidatorsActive ops mustBeActive
                   else ret ()))))))))"

text \<open>The instances of a node that a stop is about: its own name and those with a numeric suffix.\<close>

definition stop_target :: "string \<Rightarrow> string \<Rightarrow> bool" where
  "stop_target base n \<longleftrightarrow>
     n = base \<or> (HasPrefix n (base @ ''-'') \<and> Atoi (drop (length (base @ ''-'')) n) \<noteq> None)"

definition stop_node :: "'w network_ops \<Rightarrow> Node \<Rightarrow> (runState \<times> 'w, unit) act" where
  "stop_node ops node =
     bindA (doA (op_RemoveNode ops node)) (\<lambda>_.
     bindA (doA (op_Stop ops node)) (\<lambda>_. doA (op_Cleanup ops node)))"

definition execStopNode :: "'w network_ops \<Rightarrow> Step \<Rightarrow> (runState \<times> 'w, unit) act" where
  "execStopNode ops step =
     bindA getS (\<lambda>st.
       let targets = filter (\<lambda>(n, _). stop_target (st_Identifier step) n) (rs_nodes st)
       in if targets = [] then fail (NodeNotFound (st_Identifier step))
          else
            bindA (groupA (\<lambda>(_, node). stop_node ops node) targets) (\<lambda>_.
              modS (\<lambda>st. st\<lparr>rs_nodes := fold (\<lambda>(n, _). gm_del n) targets (rs_nodes st)\<rparr>)))"

definition tracked_opera :: "string \<Rightarrow> (runState \<times> 'w, Node) act" where
  "tracked_opera name =
     bindA getS (\<lambda>st.
       case gm_get (rs_nodes st) name of
         None \<Rightarrow> fail (NodeNotFound name)
       | Some n \<Rightarrow> if nd_isOpera n then ret n else fail (NotOpera name))"

definition execKillSonic :: "'w network_ops \<Rightarrow> Step \<Rightarrow> (runState \<times> 'w, unit) act" where
  "execKillSonic ops step =
     bindA (tracked_opera (st_Identifier step)) (\<lambda>n.
     bindA (world (\<lambda>w. ((), op_SuspendNode ops n w))) (\<lambda>_. doA (op_ForceStopSonicd ops n)))"

definition execHealDb :: "'w network_ops \<Rightarrow> Step \<Rightarrow> (runState \<times> 'w, unit) act" where
  "execHealDb ops step = bindA (tracked_opera (st_Identifier step)) (\<lambda>n. doA (op_HealSonicd ops n))"

section \<open>Stakes\<close>

definition hasMultipleInstances :: "runState \<Rightarrow> string \<Rightarrow> bool" where
  "hasMultipleInstances st baseName \<longleftrightarrow>
     (let prefix = baseName @ ''-''
      in length (filter (\<lambda>key. length key > length prefix \<and> take (length prefix) key = prefix) (gm_keys (rs_nodes st))) > 1)"

definition resolveValidatorId :: "string \<Rightarrow> (runState \<times> 'w, int) act" where
  "resolveValidatorId name =
     bindA getS (\<lambda>st.
     bindA (case gm_get (rs_nodes st) name of
              Some node \<Rightarrow> ret node
            | None \<Rightarrow>
                (case gm_get (rs_nodes st) (name @ ''-0'') of
                   None \<Rightarrow> fail (NodeNotFound name)
                 | Some node \<Rightarrow> if hasMultipleInstances st name then fail (MultipleInstances name) else ret node)) (\<lambda>node.
       case nd_validatorId node of None \<Rightarrow> fail (NotValidator name) | Some i \<Rightarrow> ret i))"

definition delegatorGasBudget :: u64 where
  "delegatorGasBudget = 1"

definition getOrCreateDelegator :: "'w network_ops \<Rightarrow> string \<Rightarrow> (runState \<times> 'w, delegatorAccount) act" where
  "getOrCreateDelegator ops name =
     bindA getS (\<lambda>st.
       case gm_get (rs_delegators st) name of
         Some d \<Rightarrow> ret d
       | None \<Rightarrow>
           (case op_deriveKey ops name of
              None \<Rightarrow> fail (KeyDerivation name)
            | Some key \<Rightarrow>
                let d = \<lparr>da_name = name, da_privateKey = key, da_address = op_address ops key\<rparr>
                in bindA (modS (\<lambda>st. st\<lparr>rs_delegators := gm_set name d (rs_delegators st)\<rparr>)) (\<lambda>_. ret d)))"

definition expected_stake :: "runState \<Rightarrow> stakeKey \<Rightarrow> u64" where
  "expected_stake st key = (case gm_get (rs_expectedStakes st) key of None \<Rightarrow> 0 | Some s \<Rightarrow> s)"

definition delegate_target ::
  "'w network_ops \<Rightarrow> 'w validatorRegistry \<Rightarrow> DelegateTarget \<Rightarrow> (runState \<times> 'w, unit) act" where
  "delegate_target ops registry t =
     bindA (resolveValidatorId (dt_Node t)) (\<lambda>i.
     bindA (getOrCreateDelegator ops (dt_Delegator t)) (\<lambda>d.
     bindA (doA (rg_fundDelegator registry (da_address d) (dt_Stake t + delegatorGasBudget))) (\<lambda>_.
     bindA (doA (rg_delegate registry i (dt_Stake t) (da_privateKey d))) (\<lambda>_.
       modS (\<lambda>st. st\<lparr>rs_expectedStakes :=
         gm_set (dt_Delegator t, i) (expected_stake st (dt_Delegator t, i) + dt_Stake t) (rs_expectedStakes st)\<rparr>)))))"

definition execDelegate ::
  "'w network_ops \<Rightarrow> 'w validatorRegistry \<Rightarrow> Step \<Rightarrow> (runState \<times> 'w, unit) act" where
  "execDelegate ops registry step =
     bindA (eachA (delegate_target ops registry) (st_DelegateTargets step)) (\<lambda>_. ret ())"

definition undelegate_target ::
  "'w validatorRegistry \<Rightarrow> UndelegateTarget \<Rightarrow> (runState \<times> 'w, unit) act" where
  "undelegate_target registry t =
     bindA (resolveValidatorId (ut_Node t)) (\<lambda>i.
       let stakeAmount = (case ut_Stake t of None \<Rightarrow> 0 | Some s \<Rightarrow> s) in
       if ut_Delegator t = [] then doA (rg_unregisterValidator registry i stakeAmount)
       else
         bindA getS (\<lambda>st.
           case gm_get (rs_delegators st) (ut_Delegator t) of
             None \<Rightarrow> fail (UnknownDelegatorName (ut_Delegator t))
           | Some d \<Rightarrow>
               let key = (ut_Delegator t, i);
                   effectiveStake = (if stakeAmount = 0 then expected_stake st key else stakeAmount)
               in
                 bindA (doA (rg_undelegateAs registry i stakeAmount (da_privateKey d))) (\<lambda>_.
                   modS (\<lambda>st. case gm_get (rs_expectedStakes st) key of
                       None \<Rightarrow> st
                     | Some remaining \<Rightarrow>
                         st\<lparr>rs_expectedStakes :=
                           gm_set key (remaining - min effectiveStake remaining) (rs_expectedStakes st)\<rparr>))))"

definition execUndelegate :: "'w validatorRegistry \<Rightarrow> Step \<Rightarrow> (runState \<times> 'w, unit) act" where
  "execUndelegate registry step =
     bindA (eachA (undelegate_target registry) (st_UndelegateTargets step)) (\<lambda>_. ret ())"

definition verify_stake ::
  "'w validatorRegistry \<Rightarrow> stakeKey \<times> u64 \<Rightarrow> (runState \<times> 'w, string option) act" where
  "verify_stake registry = (\<lambda>((name, i), expected).
     bindA getS (\<lambda>st.
       case gm_get (rs_delegators st) name of
         None \<Rightarrow> ret (Some name)
       | Some d \<Rightarrow>
           bindA (world (rg_getDelegatorStake registry (da_address d) i)) (\<lambda>r.
             ret (case r of
                    Inl _ \<Rightarrow> Some name
                  | Inr actual \<Rightarrow> if actual \<noteq> expected then Some name else None))))"

definition execVerifyStakes :: "'w validatorRegistry \<Rightarrow> (runState \<times> 'w, unit) act" where
  "execVerifyStakes registry =
     bindA getS (\<lambda>st.
     bindA (eachA (verify_stake registry) (rs_expectedStakes st)) (\<lambda>rs.
       let errs = List.map_filter id rs in if errs = [] then ret () else fail (StakeErrors errs)))"

section \<open>Applications, rules, checks\<close>

definition execRunApp :: "'w network_ops \<Rightarrow> Step \<Rightarrow> (runState \<times> 'w, unit) act" where
  "execRunApp ops step =
     bindA (world (\<lambda>w. (op_ctxDone ops w, w))) (\<lambda>cancelled.
       if cancelled then fail Aborted
       else
         bindA (netA (op_CreateApplication ops
           \<lparr>acf_Name = st_Identifier step, acf_Type = st_AppType step, acf_Rate = st_Rate step,
            acf_Users = (case st_Users step of None \<Rightarrow> 1 | Some n \<Rightarrow> n)\<rparr>)) (\<lambda>app.
         bindA (doA (op_StartApp ops app)) (\<lambda>_.
           modS (\<lambda>st. st\<lparr>rs_apps := gm_set (st_Identifier step) app (rs_apps st)\<rparr>))))"

definition execStopApp :: "'w network_ops \<Rightarrow> Step \<Rightarrow> (runState \<times> 'w, unit) act" where
  "execStopApp ops step =
     bindA getS (\<lambda>st.
       case gm_get (rs_apps st) (st_Identifier step) of
         None \<Rightarrow> fail (AppNotFound (st_Identifier step))
       | Some app \<Rightarrow>
           bindA (doA (op_StopApp ops app)) (\<lambda>_.
             modS (\<lambda>st. st\<lparr>rs_apps := gm_del (st_Identifier step) (rs_apps st)\<rparr>)))"

definition execUpdateRules :: "'w network_ops \<Rightarrow> Step \<Rightarrow> (runState \<times> 'w, unit) act" where
  "execUpdateRules ops step = doA (op_ApplyNetworkRules ops (st_Rules step))"

definition checkFunctionToCheckerName :: "(StepFunction \<times> string) list" where
  "checkFunctionToCheckerName =
     [(''blockGasRate'', ''blockGasRate''), (''blockHashes'', ''blocksHashes''), (''blockHeights'', ''blockHeight''),
      (''blocksHalted'', ''blocksHalted''), (''blocksProduced'', ''blocksRolling''), (''eventThrottled'', ''eventThrottled''),
      (''networkRules'', ''networkRules''), (''validatorsActive'', ''validatorsActive'')]"

definition float_to_int :: "real \<Rightarrow> int" where
  "float_to_int x = (if x < 0 then \<lceil>x\<rceil> else \<lfloor>x\<rfloor>)"

text \<open>The configuration \<open>execCheck\<close> builds from the parameters of a check.\<close>

definition check_config :: "CheckSpec \<Rightarrow> (string, cfg_val) gomap" where
  "check_config spec =
     (if ck_Failing spec then [(''failing'', VBool True)] else []) @
     (case ck_Tolerance spec of
        None \<Rightarrow> []
      | Some t \<Rightarrow> [(if ck_Function spec = ''blockHeights'' then ''slack'' else ''tolerance'', VInt t)]) @
     (case ck_Duration spec of None \<Rightarrow> [] | Some d \<Rightarrow> [(''duration'', VInt64 d)]) @
     (case ck_Ceiling spec of None \<Rightarrow> [] | Some c \<Rightarrow> [(''ceiling'', VInt (float_to_int c))]) @
     (if ck_Rules spec = no_patch then [] else [(''rules'', VRulesPatch (ck_Rules spec))]) @
     (if ck_ThrottledNodes spec = [] then [] else [(''throttledNodes'', VStrings (ck_ThrottledNodes spec))])"

definition execCheck :: "'w network_ops \<Rightarrow> nat \<Rightarrow> string \<Rightarrow> CheckSpec \<Rightarrow> (runState \<times> 'w, unit) act" where
  "execCheck ops i checkerName spec =
     (case op_checkers ops of
        None \<Rightarrow> ret ()
      | Some names \<Rightarrow>
          if checkerName \<notin> set names then fail (CheckerNotFound checkerName)
          else
            let config = check_config spec;
                failing = (if config = [] then Some False else failing_Configure (Some config))
            in case failing of
                 None \<Rightarrow> fail Panic
               | Some f \<Rightarrow>
                   bindA (world (op_Check ops checkerName (if config = [] then None else Some config))) (\<lambda>r.
                     case (if f then failing_Check r else r) of None \<Rightarrow> ret () | Some e \<Rightarrow> fail (CheckFailed i e)))"

definition execChecks :: "'w network_ops \<Rightarrow> Step \<Rightarrow> (runState \<times> 'w, unit) act" where
  "execChecks ops step =
     bindA (eachA (\<lambda>(i, spec).
       case map_of checkFunctionToCheckerName (ck_Function spec) of
         None \<Rightarrow> fail (UnknownCheckFunction (ck_Function spec))
       | Some checkerName \<Rightarrow> execCheck ops (i + 1) checkerName spec) (enumerate 0 (st_SubChecks step))) (\<lambda>_. ret ())"

section \<open>Steps and runs\<close>

text \<open>\<open>waitFor\<close>: the wait is cancelled if the context is done before its end.\<close>

definition execWaitFor :: "'w network_ops \<Rightarrow> Step \<Rightarrow> (runState \<times> 'w, unit) act" where
  "execWaitFor ops step =
     bindA (world (\<lambda>w. let w1 = op_sleep ops (st_Duration step) w in (op_ctxDone ops w1, w1))) (\<lambda>cancelled.
       if cancelled then fail Aborted else ret ())"

definition executeStep ::
  "'w network_ops \<Rightarrow> 'w validatorRegistry \<Rightarrow> Step \<Rightarrow> (runState \<times> 'w, unit) act" where
  "executeStep ops registry step =
     (let fn = st_Function step
      in if fn = ''startNode'' then execStartNode ops registry step
         else if fn = ''stopNode'' then execStopNode ops step
         else if fn = ''killSonic'' then execKillSonic ops step
         else if fn = ''healDb'' then execHealDb ops step
         else if fn = ''delegate'' then execDelegate ops registry step
         else if fn = ''undelegate'' then execUndelegate registry step
         else if fn = ''verifyStakes'' then execVerifyStakes registry
         else if fn = ''runApp'' then execRunApp ops step
         else if fn = ''stopApp'' then execStopApp ops step
         else if fn = ''updateRules'' then execUpdateRules ops step
         else if fn = ''advanceEpoch'' then
           bindA (waitForBlockProduction ops) (\<lambda>_.
           bindA (doA (op_AdvanceEpoch ops)) (\<lambda>_. waitForBlockProduction ops))
         else if fn = ''waitForEpoch'' then doA (op_WaitForEpochChange ops)
         else if fn = ''checks'' then execChecks ops step
         else if fn = ''waitFor'' then execWaitFor ops step
         else fail (UnknownStepFunction fn))"

definition requiresBlockProductionCheck :: "Step \<Rightarrow> bool" where
  "requiresBlockProductionCheck step \<longleftrightarrow>
     (if st_Function step = ''startNode'' then \<not> st_Failing step
      else st_Function step \<in> {''runApp'', ''updateRules'', ''advanceEpoch''})"

record EventExecution =
  ee_Name :: string
  ee_Start :: gotime
  ee_End :: gotime

definition formatStepExecutionName :: "nat \<Rightarrow> Step \<Rightarrow> string" where
  "formatStepExecutionName stepNum step =
     ''step '' @ itoa stepNum @ '': '' @ st_Function step @
     (if st_Identifier step = [] then [] else '' '' @ st_Identifier step)"

text \<open>The loop of \<open>runWithObserver\<close> from step number \<open>i\<close> on, with what was observed so far.\<close>

fun run_steps ::
  "'w network_ops \<Rightarrow> 'w validatorRegistry \<Rightarrow> nat \<Rightarrow> Step list \<Rightarrow> EventExecution list \<Rightarrow> runState \<times> 'w \<Rightarrow>
     (exec_error option \<times> EventExecution list \<times> (runState \<times> 'w)) option" where
  "run_steps ops registry i [] seen s = Some (None, seen, s)"
| "run_steps ops registry i (step # steps) seen s =
     (if op_ctxDone ops (snd s) then Some (Some (StepFailed i Aborted), seen, s)
      else
        let start = op_now ops (snd s)
        in case executeStep ops registry step s of
             None \<Rightarrow> None
           | Some (r, s1) \<Rightarrow>
               let seen1 = seen @ [\<lparr>ee_Name = formatStepExecutionName i step, ee_Start = start, ee_End = op_now ops (snd s1)\<rparr>]
               in case r of
                    Inl e \<Rightarrow> Some (Some (StepFailed i e), seen1, s1)
                  | Inr _ \<Rightarrow>
                      if requiresBlockProductionCheck step then
                        (case waitForBlockProduction ops s1 of
                           None \<Rightarrow> None
                         | Some (Inl e, s2) \<Rightarrow> Some (Some (Unstable i e), seen1, s2)
                         | Some (Inr _, s2) \<Rightarrow> run_steps ops registry (i + 1) steps seen1 s2)
                      else run_steps ops registry (i + 1) steps seen1 s1)"

definition initial_state :: "(string, int) gomap \<Rightarrow> runState" where
  "initial_state genesisValidatorIds =
     \<lparr>rs_nodes = [], rs_apps = [], rs_nodeHistory = [],
      rs_validatorIds = fold (\<lambda>(label, i). gm_set label i) genesisValidatorIds [],
      rs_delegators = [], rs_expectedStakes = []\<rparr>"

text \<open>The context of a run ends with the one it was given, and at the latest ten minutes after the start.\<close>

definition defaultScenarioTimeout :: duration where
  "defaultScenarioTimeout = 600000000000"

definition with_timeout :: "'w network_ops \<Rightarrow> gotime \<Rightarrow> 'w network_ops" where
  "with_timeout ops deadline = ops\<lparr>op_ctxDone := \<lambda>w. op_ctxDone ops w \<or> deadline \<le> op_now ops w\<rparr>"

definition runWithObserver ::
  "(NetworkRulesPatch \<Rightarrow> bool) \<Rightarrow> 'w network_ops \<Rightarrow> 'w validatorRegistry \<Rightarrow> Scenario \<Rightarrow> (string, int) gomap \<Rightarrow> 'w \<Rightarrow>
     (exec_error option \<times> EventExecution list \<times> (runState \<times> 'w)) option" where
  "runWithObserver validate ops registry scenario genesisValidatorIds w =
     (let s = (initial_state genesisValidatorIds, w)
      in if Scenario_Check validate scenario \<noteq> [] then Some (Some InvalidScenario, [], s)
         else run_steps (with_timeout ops (op_now ops w + defaultScenarioTimeout)) registry 1 (sc_Steps scenario) [] s)"

end
