(* ===== verification/Executor_Logic.thy ===== *)
theory Executor_Logic
  imports Executor_Model
begin

text \<open>
  A logic for the actions of the executor: triples with a postcondition for the value and one for the
  error, actions that always return, and the contract \<open>run_invariant\<close> under which every step and every
  run keeps an invariant.
\<close>

section \<open>Triples\<close>

definition triple :: "('s \<Rightarrow> bool) \<Rightarrow> ('s, 'a) act \<Rightarrow> ('a \<Rightarrow> 's \<Rightarrow> bool) \<Rightarrow> ('s \<Rightarrow> bool) \<Rightarrow> bool" where
  "triple P m Q E \<longleftrightarrow>
     (\<forall>s r s'. P s \<longrightarrow> m s = Some (r, s') \<longrightarrow> (case r of Inl _ \<Rightarrow> E s' | Inr a \<Rightarrow> Q a s'))"

abbreviation keeps :: "('s \<Rightarrow> bool) \<Rightarrow> ('s \<Rightarrow> bool) \<Rightarrow> ('s, 'a) act \<Rightarrow> bool" where
  "keeps I E m \<equiv> triple I m (\<lambda>_. I) E"

named_theorems keeps_intros "rules for actions that keep an invariant"

lemma tripleI:
  "(\<And>s e s'. P s \<Longrightarrow> m s = Some (Inl e, s') \<Longrightarrow> E s') \<Longrightarrow>
   (\<And>s a s'. P s \<Longrightarrow> m s = Some (Inr a, s') \<Longrightarrow> Q a s') \<Longrightarrow> triple P m Q E"
  by (simp add: triple_def split: sum.splits)

lemma tripleD_Inr: "triple P m Q E \<Longrightarrow> P s \<Longrightarrow> m s = Some (Inr a, s') \<Longrightarrow> Q a s'"
  by (fastforce simp: triple_def)

lemma tripleD_Inl: "triple P m Q E \<Longrightarrow> P s \<Longrightarrow> m s = Some (Inl e, s') \<Longrightarrow> E s'"
  by (fastforce simp: triple_def)

lemma triple_cases:
  "triple P m Q E \<Longrightarrow> P s \<Longrightarrow> m s = Some (r, s') \<Longrightarrow> case r of Inl _ \<Rightarrow> E s' | Inr a \<Rightarrow> Q a s'"
  by (simp add: triple_def)

lemma triple_conseq:
  "triple P m Q E \<Longrightarrow> (\<And>s. P' s \<Longrightarrow> P s) \<Longrightarrow> (\<And>a s. Q a s \<Longrightarrow> Q' a s) \<Longrightarrow> (\<And>s. E s \<Longrightarrow> E' s) \<Longrightarrow>
     triple P' m Q' E'"
  by (fastforce simp: triple_def split: sum.splits)

lemma triple_ret: "triple (Q a) (ret a) Q E"
  by (simp add: triple_def ret_def)

lemma triple_fail: "triple E (fail e) Q E"
  by (simp add: triple_def fail_def)

lemma triple_bind:
  assumes m: "triple P m Q E" and f: "\<And>a. triple (Q a) (f a) S E"
  shows "triple P (bindA m f) S E"
proof (rule tripleI)
  show "E s'" if "P s" "bindA m f s = Some (Inl e, s')" for s e s'
    using that tripleD_Inl [OF m] tripleD_Inr [OF m] tripleD_Inl [OF f]
    by (fastforce simp: bindA_def split: option.splits prod.splits sum.splits)
  show "S a s'" if "P s" "bindA m f s = Some (Inr a, s')" for s a s'
    using that tripleD_Inr [OF m] tripleD_Inr [OF f]
    by (fastforce simp: bindA_def split: option.splits prod.splits sum.splits)
qed

lemma triple_tryA: "triple P m (\<lambda>_. Q) Q \<Longrightarrow> triple P (tryA m) (\<lambda>_. Q) E"
  by (fastforce simp: triple_def tryA_def split: option.splits prod.splits sum.splits)

lemma triple_getS: "(\<And>st. triple (\<lambda>s. P s \<and> fst s = st) (f st) Q E) \<Longrightarrow> triple P (bindA getS f) Q E"
  by (fastforce simp: triple_def bindA_def getS_def split: option.splits prod.splits sum.splits)

lemma triple_modS: "(\<And>st w. P (st, w) \<Longrightarrow> Q () (f st, w)) \<Longrightarrow> triple P (modS f) Q E"
  by (auto simp: triple_def modS_def)

lemma triple_world: "(\<And>st w a w'. P (st, w) \<Longrightarrow> op w = (a, w') \<Longrightarrow> Q a (st, w')) \<Longrightarrow> triple P (world op) Q E"
  by (auto simp: triple_def world_def split: prod.splits)

lemma triple_netA:
  assumes "\<And>st w a w'. P (st, w) \<Longrightarrow> op w = (Inr a, w') \<Longrightarrow> Q a (st, w')"
    and "\<And>st w e w'. P (st, w) \<Longrightarrow> op w = (Inl e, w') \<Longrightarrow> E (st, w')"
  shows "triple P (netA op) Q E"
  using assms
  by (auto simp: triple_def netA_def bindA_def world_def ret_def fail_def split: prod.splits sum.splits)

lemma triple_doA:
  assumes "\<And>st w w'. P (st, w) \<Longrightarrow> op w = (None, w') \<Longrightarrow> Q () (st, w')"
    and "\<And>st w e w'. P (st, w) \<Longrightarrow> op w = (Some e, w') \<Longrightarrow> E (st, w')"
  shows "triple P (doA op) Q E"
  using assms
  by (auto simp: triple_def doA_def bindA_def world_def ret_def fail_def split: prod.splits option.splits)

lemma triple_loopA:
  assumes "\<And>st w e w'. P (st, w) \<Longrightarrow> loop w = Some (e, w') \<Longrightarrow> Q (st, w')" and "\<And>s. Q s \<Longrightarrow> E s"
  shows "triple P (loopA loop) (\<lambda>_. Q) E"
  using assms by (auto simp: triple_def loopA_def split: prod.splits option.splits)

lemma triple_eachA:
  assumes "\<And>x. x \<in> set xs \<Longrightarrow> keeps I E (f x)"
  shows "keeps I E (eachA f xs)"
  using assms
proof (induction xs)
  case Nil
  show ?case by (simp add: triple_def ret_def)
next
  case (Cons x xs)
  show ?case
    unfolding eachA.simps
    by (rule triple_bind, rule Cons.prems, simp, rule triple_bind, rule Cons.IH, rule Cons.prems, simp, rule triple_ret)
qed

text \<open>The values of the single actions, when each says something of its own that lasts.\<close>

lemma triple_eachA_all2:
  assumes f: "\<And>x. triple I (f x) (\<lambda>a s. I s \<and> V x a) E"
  shows "triple I (eachA f xs) (\<lambda>as s. I s \<and> list_all2 V xs as) E"
proof (induction xs)
  case Nil
  show ?case by (auto simp: triple_def ret_def)
next
  case (Cons x xs)
  have "triple (\<lambda>s. I s \<and> V x a) (bindA (eachA f xs) (\<lambda>as. ret (a # as))) (\<lambda>as s. I s \<and> list_all2 V (x # xs) as) E" for a
  proof (rule triple_bind)
    show "triple (\<lambda>s. I s \<and> V x a) (eachA f xs) (\<lambda>as s. (I s \<and> V x a) \<and> list_all2 V xs as) E"
      using Cons.IH by (fastforce simp: triple_def split: sum.splits)
    show "triple (\<lambda>s. (I s \<and> V x a) \<and> list_all2 V xs as) (ret (a # as)) (\<lambda>as s. I s \<and> list_all2 V (x # xs) as) E" for as
      by (auto simp: triple_def ret_def)
  qed
  then show ?case unfolding eachA.simps by (rule triple_bind [OF f])
qed

lemma triple_groupA:
  assumes "\<And>x. x \<in> set xs \<Longrightarrow> keeps I I (f x)" and "\<And>s. I s \<Longrightarrow> E s"
  shows "keeps I E (groupA f xs)"
  unfolding groupA_def
proof (rule triple_bind [where Q = "\<lambda>_. I"])
  show "keeps I E (eachA (\<lambda>x. tryA (f x)) xs)" by (rule triple_eachA) (rule triple_tryA [OF assms(1)])
  show "keeps I E (case List.map_filter (\<lambda>r. case r of Inl e \<Rightarrow> Some e | Inr _ \<Rightarrow> None) rs of
      e # _ \<Rightarrow> fail e | [] \<Rightarrow> ret (map (\<lambda>r. case r of Inr a \<Rightarrow> a) rs))" for rs
    using assms(2) by (auto simp: triple_def fail_def ret_def split: list.splits)
qed

text \<open>The rules for an invariant, as far as they need no insight.\<close>

lemma keeps_bind [keeps_intros]: "keeps I E m \<Longrightarrow> (\<And>a. keeps I E (f a)) \<Longrightarrow> keeps I E (bindA m f)"
  by (rule triple_bind)

lemma keeps_ret [keeps_intros]: "keeps I E (ret a)"
  by (simp add: triple_def ret_def)

lemma keeps_fail [keeps_intros]: "keeps I I (fail e)"
  by (rule triple_fail)

lemma keeps_getS [keeps_intros]: "keeps I E getS"
  by (simp add: triple_def getS_def)

lemma keeps_tryA [keeps_intros]: "keeps I I m \<Longrightarrow> keeps I E (tryA m)"
  by (rule triple_tryA)

lemma keeps_if [keeps_intros]: "(b \<Longrightarrow> keeps I E m) \<Longrightarrow> (\<not> b \<Longrightarrow> keeps I E n) \<Longrightarrow> keeps I E (if b then m else n)"
  by simp

lemma keeps_option [keeps_intros]:
  "keeps I E m \<Longrightarrow> (\<And>x. keeps I E (f x)) \<Longrightarrow> keeps I E (case v of None \<Rightarrow> m | Some x \<Rightarrow> f x)"
  by (cases v) auto

lemma keeps_sum [keeps_intros]:
  "(\<And>x. keeps I E (f x)) \<Longrightarrow> (\<And>x. keeps I E (g x)) \<Longrightarrow> keeps I E (case v of Inl x \<Rightarrow> f x | Inr x \<Rightarrow> g x)"
  by (cases v) auto

lemma keeps_prod [keeps_intros]: "(\<And>a b. keeps I E (f a b)) \<Longrightarrow> keeps I E (case p of (a, b) \<Rightarrow> f a b)"
  by (cases p) auto

lemma keeps_read [keeps_intros]: "keeps I E (world (\<lambda>w. (f w, w)))"
  by (rule triple_world) simp

lemma keeps_weaken: "keeps I I m \<Longrightarrow> (\<And>s. I s \<Longrightarrow> E s) \<Longrightarrow> keeps I E m"
  by (rule triple_conseq)

section \<open>Actions that return\<close>

definition total :: "('s, 'a) act \<Rightarrow> bool" where
  "total m \<longleftrightarrow> (\<forall>s. m s \<noteq> None)"

named_theorems total_intros "rules for actions that return"

lemma total_ret [total_intros]: "total (ret a)" by (simp add: total_def ret_def)
lemma total_fail [total_intros]: "total (fail e)" by (simp add: total_def fail_def)
lemma total_getS [total_intros]: "total getS" by (simp add: total_def getS_def)
lemma total_modS [total_intros]: "total (modS f)" by (simp add: total_def modS_def)
lemma total_world [total_intros]: "total (world op)" by (simp add: total_def world_def split: prod.splits)

lemma total_bind [total_intros]: "total m \<Longrightarrow> (\<And>a. total (f a)) \<Longrightarrow> total (bindA m f)"
  by (auto simp: total_def bindA_def split: option.splits sum.splits)

lemma total_tryA [total_intros]: "total m \<Longrightarrow> total (tryA m)"
  by (auto simp: total_def tryA_def split: option.splits)

lemma total_netA [total_intros]: "total (netA op)"
  unfolding netA_def by (rule total_bind [OF total_world]) (auto intro: total_intros split: sum.splits)

lemma total_doA [total_intros]: "total (doA op)"
  unfolding doA_def by (rule total_bind [OF total_world]) (auto intro: total_intros split: option.splits)

lemma total_loopA [total_intros]: "(\<And>w. loop w \<noteq> None) \<Longrightarrow> total (loopA loop)"
  by (auto simp: total_def loopA_def split: option.splits)

lemma total_eachA [total_intros]: "(\<And>x. total (f x)) \<Longrightarrow> total (eachA f xs)"
  by (induction xs) (auto intro: total_intros)

lemma total_groupA [total_intros]: "(\<And>x. total (f x)) \<Longrightarrow> total (groupA f xs)"
  unfolding groupA_def by (rule total_bind) (auto intro: total_intros split: list.splits)

end
