(* ===== verification/Executor_Invariants.thy ===== *)
theory Executor_Invariants
  imports Executor_Logic
begin

text \<open>
  The contract \<open>run_invariant\<close>: an invariant of the executor and its world that the operations of the
  network, the stake operations and the bookkeeping keep is kept by every step and every run.
\<close>

section \<open>Operations that change the world within a relation\<close>

definition stays :: "('w \<Rightarrow> 'w \<Rightarrow> bool) \<Rightarrow> ('w \<Rightarrow> 'a \<times> 'w) \<Rightarrow> bool" where
  "stays R op \<longleftrightarrow> (\<forall>w. R w (snd (op w)))"

definition closed_under :: "('w \<Rightarrow> 'w \<Rightarrow> bool) \<Rightarrow> (runState \<times> 'w \<Rightarrow> bool) \<Rightarrow> bool" where
  "closed_under R J \<longleftrightarrow> (\<forall>st w w'. J (st, w) \<longrightarrow> R w w' \<longrightarrow> J (st, w'))"

text \<open>Every operation of the network, the clock and the checkers changes the world within \<open>R\<close>.\<close>

definition quiet :: "'w network_ops \<Rightarrow> ('w \<Rightarrow> 'w \<Rightarrow> bool) \<Rightarrow> bool" where
  "quiet ops R \<longleftrightarrow>
     (\<forall>d w. R w (op_sleep ops d w)) \<and> stays R (op_DialRandomRpc ops) \<and> (\<forall>n. stays R (op_DialRpc ops n)) \<and>
     (\<forall>c. stays R (op_BlockNumber ops c)) \<and> (\<forall>c. stays R (op_CreateNode ops c)) \<and>
     (\<forall>n. stays R (op_RemoveNode ops n)) \<and> (\<forall>n. stays R (op_Stop ops n)) \<and> (\<forall>n. stays R (op_Cleanup ops n)) \<and>
     (\<forall>n. stays R (op_StartSonicd ops n)) \<and> (\<forall>n. stays R (op_StartSonicdAsObserver ops n)) \<and>
     (\<forall>n. stays R (op_WaitForSync ops n)) \<and> (\<forall>n. stays R (op_ReconnectNode ops n)) \<and>
     (\<forall>n w. R w (op_ResumeNode ops n w)) \<and> (\<forall>n w. R w (op_SuspendNode ops n w)) \<and>
     (\<forall>n. stays R (op_ForceStopSonicd ops n)) \<and> (\<forall>n. stays R (op_HealSonicd ops n)) \<and>
     (\<forall>c. stays R (op_CreateApplication ops c)) \<and> (\<forall>a. stays R (op_StartApp ops a)) \<and>
     (\<forall>a. stays R (op_StopApp ops a)) \<and> (\<forall>p. stays R (op_ApplyNetworkRules ops p)) \<and>
     stays R (op_AdvanceEpoch ops) \<and> stays R (op_WaitForEpochChange ops) \<and>
     (\<forall>c. stays R (op_GetActiveValidatorIDs ops c)) \<and> (\<forall>n c. stays R (op_Check ops n c))"

lemma quiet_with_timeout [simp]: "quiet (with_timeout ops t) R \<longleftrightarrow> quiet ops R"
  by (simp add: quiet_def with_timeout_def)

lemma closed_underD: "closed_under R J \<Longrightarrow> J (st, w) \<Longrightarrow> R w w' \<Longrightarrow> J (st, w')"
  by (auto simp: closed_under_def)

lemma closed_under_here: "closed_under R J \<Longrightarrow> closed_under R (\<lambda>s. J s \<and> fst s = st)"
  by (auto simp: closed_under_def)

lemma stays_step: "closed_under R J \<Longrightarrow> stays R op \<Longrightarrow> J (st, w) \<Longrightarrow> op w = (a, w') \<Longrightarrow> J (st, w')"
  unfolding stays_def by (drule spec [of _ w]) (simp add: closed_underD)

section \<open>Loops\<close>

lemma quiet_sleep: "quiet ops R \<Longrightarrow> closed_under R J \<Longrightarrow> J (st, w) \<Longrightarrow> J (st, op_sleep ops d w)"
  by (auto simp: quiet_def closed_under_def)

lemma quiet_poll:
  "quiet ops R \<Longrightarrow> closed_under R J \<Longrightarrow> op_BlockNumber ops c w = (r, w') \<Longrightarrow> J (st, w) \<Longrightarrow> J (st, w')"
  "quiet ops R \<Longrightarrow> closed_under R J \<Longrightarrow> op_GetActiveValidatorIDs ops c w = (a, w') \<Longrightarrow> J (st, w) \<Longrightarrow> J (st, w')"
  unfolding quiet_def by (elim conjE, rule stays_step, assumption, erule spec, assumption, assumption)+

lemma sync_loop_keeps:
  assumes "sync_loop ops client target deadline w = Some r"
  shows "quiet ops R \<longrightarrow> closed_under R J \<longrightarrow> J (st, w) \<longrightarrow> J (st, snd r)"
  using assms
  by (rule sync_loop.raw_induct [rotated])
     (auto split: if_splits prod.splits sum.splits; metis quiet_sleep quiet_poll)

lemma production_loop_keeps:
  assumes "production_loop ops client baseline w = Some r"
  shows "quiet ops R \<longrightarrow> closed_under R J \<longrightarrow> J (st, w) \<longrightarrow> J (st, snd r)"
  using assms
  by (rule production_loop.raw_induct [rotated])
     (auto split: if_splits prod.splits sum.splits; metis quiet_sleep quiet_poll)

lemma active_set_loop_keeps:
  assumes "active_set_loop ops client ids deadline w = Some r"
  shows "quiet ops R \<longrightarrow> closed_under R J \<longrightarrow> J (st, w) \<longrightarrow> J (st, snd r)"
  using assms
  by (rule active_set_loop.raw_induct [rotated])
     (auto simp: Let_def split: if_splits prod.splits sum.splits; metis quiet_sleep quiet_poll)

section \<open>Clients of quiet operations\<close>

locale quiet_ops =
  fixes ops :: "'w network_ops" and R :: "'w \<Rightarrow> 'w \<Rightarrow> bool"
  assumes quiet: "quiet ops R"
begin

lemma stays_ops [simp]:
  "stays R (op_DialRandomRpc ops)" "stays R (op_DialRpc ops n)" "stays R (op_BlockNumber ops c)"
  "stays R (op_CreateNode ops cfg)" "stays R (op_RemoveNode ops n)" "stays R (op_Stop ops n)"
  "stays R (op_Cleanup ops n)" "stays R (op_StartSonicd ops n)" "stays R (op_StartSonicdAsObserver ops n)"
  "stays R (op_WaitForSync ops n)" "stays R (op_ReconnectNode ops n)" "stays R (op_ForceStopSonicd ops n)"
  "stays R (op_HealSonicd ops n)" "stays R (op_CreateApplication ops acfg)" "stays R (op_StartApp ops a)"
  "stays R (op_StopApp ops a)" "stays R (op_ApplyNetworkRules ops p)" "stays R (op_AdvanceEpoch ops)"
  "stays R (op_WaitForEpochChange ops)" "stays R (op_GetActiveValidatorIDs ops c)" "stays R (op_Check ops k cc)"
  using quiet by (simp_all add: quiet_def)

lemma stays_notices [simp]:
  "stays R (\<lambda>w. ((), op_ResumeNode ops n w))" "stays R (\<lambda>w. ((), op_SuspendNode ops n w))"
  using quiet by (simp_all add: quiet_def stays_def)

lemma stays_sleep: "R w (op_sleep ops d w)"
  using quiet by (simp add: quiet_def)

lemma keeps_world: "closed_under R J \<Longrightarrow> stays R op \<Longrightarrow> keeps J E (world op)"
  by (rule triple_world) (rule stays_step)

lemma keeps_netA: "closed_under R J \<Longrightarrow> stays R op \<Longrightarrow> keeps J J (netA op)"
  by (rule triple_netA) (rule stays_step, assumption+)+

lemma keeps_doA: "closed_under R J \<Longrightarrow> stays R op \<Longrightarrow> keeps J J (doA op)"
  by (rule triple_doA) (rule stays_step, assumption+)+

lemmas quiet_keeps = keeps_intros keeps_world keeps_netA keeps_doA

lemma loops_keep:
  "closed_under R J \<Longrightarrow> J (st, w) \<Longrightarrow> sync_loop ops c t d w = Some (e, w') \<Longrightarrow> J (st, w')"
  "closed_under R J \<Longrightarrow> J (st, w) \<Longrightarrow> production_loop ops c t w = Some (e, w') \<Longrightarrow> J (st, w')"
  "closed_under R J \<Longrightarrow> J (st, w) \<Longrightarrow> active_set_loop ops c ids d w = Some (e, w') \<Longrightarrow> J (st, w')"
  using sync_loop_keeps production_loop_keeps active_set_loop_keeps quiet by fastforce+

lemma getNetworkBlockHeight_keeps: "closed_under R J \<Longrightarrow> keeps J J (getNetworkBlockHeight ops)"
  unfolding getNetworkBlockHeight_def by (intro quiet_keeps) simp_all

lemma waitForNodeSync_keeps: "closed_under R J \<Longrightarrow> keeps J J (waitForNodeSync ops node t)"
  unfolding waitForNodeSync_def
  by (intro quiet_keeps triple_loopA) (auto dest: loops_keep)

lemma waitForBlockProduction_keeps: "closed_under R J \<Longrightarrow> keeps J J (waitForBlockProduction ops)"
  unfolding waitForBlockProduction_def
  by (intro quiet_keeps triple_loopA) (auto dest: loops_keep)

lemma ensureValidatorsActive_keeps: "closed_under R J \<Longrightarrow> keeps J J (ensureValidatorsActive ops ids)"
  unfolding ensureValidatorsActive_def
  by (intro quiet_keeps triple_loopA waitForBlockProduction_keeps)
     (auto dest: loops_keep)

lemma restartNodeInPlace_keeps: "closed_under R J \<Longrightarrow> keeps J J (restartNodeInPlace ops step existing)"
  unfolding restartNodeInPlace_def
  by (intro quiet_keeps getNetworkBlockHeight_keeps waitForNodeSync_keeps) simp_all

lemma stop_node_keeps: "closed_under R J \<Longrightarrow> keeps J J (stop_node ops node)"
  unfolding stop_node_def by (intro quiet_keeps) simp_all

end

section \<open>Invariants of the stake operations\<close>

text \<open>The change of the bookkeeping by an undelegation of \<open>amount\<close>, zero being everything.\<close>

definition take_stake :: "stakeKey \<Rightarrow> u64 \<Rightarrow> runState \<Rightarrow> runState" where
  "take_stake key amount st =
     (case gm_get (rs_expectedStakes st) key of
        None \<Rightarrow> st
      | Some remaining \<Rightarrow>
          st\<lparr>rs_expectedStakes := gm_set key
            (remaining - min (if amount = 0 then expected_stake st key else amount) remaining) (rs_expectedStakes st)\<rparr>)"

definition add_stake :: "stakeKey \<Rightarrow> u64 \<Rightarrow> runState \<Rightarrow> runState" where
  "add_stake key amount st =
     st\<lparr>rs_expectedStakes := gm_set key (expected_stake st key + amount) (rs_expectedStakes st)\<rparr>"

definition new_delegator :: "'w network_ops \<Rightarrow> string \<Rightarrow> privkey \<Rightarrow> runState \<Rightarrow> runState" where
  "new_delegator ops name key st =
     st\<lparr>rs_delegators := gm_set name
       \<lparr>da_name = name, da_privateKey = key, da_address = op_address ops key\<rparr> (rs_delegators st)\<rparr>"

locale stake_invariant =
  fixes ops :: "'w network_ops" and registry :: "'w validatorRegistry" and I E :: "runState \<times> 'w \<Rightarrow> bool"
  assumes weaker: "I x \<Longrightarrow> E x"
    and created: "I (st, w) \<Longrightarrow> gm_get (rs_delegators st) n = None \<Longrightarrow> op_deriveKey ops n = Some key \<Longrightarrow>
        I (new_delegator ops n key st, w)"
    and funded: "I (st, w) \<Longrightarrow> rg_fundDelegator registry a v w = (None, w') \<Longrightarrow> I (st, w')"
    and not_funded: "I (st, w) \<Longrightarrow> rg_fundDelegator registry a v w = (Some e, w') \<Longrightarrow> E (st, w')"
    and delegated: "I (st, w) \<Longrightarrow> gm_get (rs_delegators st) n = Some d \<Longrightarrow>
        rg_delegate registry i v (da_privateKey d) w = (None, w') \<Longrightarrow> I (add_stake (n, i) v st, w')"
    and not_delegated: "I (st, w) \<Longrightarrow> rg_delegate registry i v k w = (Some e, w') \<Longrightarrow> E (st, w')"
    and undelegated: "I (st, w) \<Longrightarrow> gm_get (rs_delegators st) n = Some d \<Longrightarrow>
        rg_undelegateAs registry i v (da_privateKey d) w = (None, w') \<Longrightarrow> I (take_stake (n, i) v st, w')"
    and not_undelegated: "I (st, w) \<Longrightarrow> rg_undelegateAs registry i v k w = (Some e, w') \<Longrightarrow> E (st, w')"
    and unregistered: "I (st, w) \<Longrightarrow> rg_unregisterValidator registry i v w = (None, w') \<Longrightarrow> I (st, w')"
    and not_unregistered: "I (st, w) \<Longrightarrow> rg_unregisterValidator registry i v w = (Some e, w') \<Longrightarrow> E (st, w')"
    and stake_read: "I (st, w) \<Longrightarrow> rg_getDelegatorStake registry a i w = (r, w') \<Longrightarrow> I (st, w')"
begin

lemma keepsE: "keeps I I m \<Longrightarrow> keeps I E m"
  by (rule keeps_weaken) (auto intro: weaker)

lemma failE: "keeps I E (fail e)"
  by (rule keepsE) (rule keeps_fail)

lemma resolveValidatorId_keeps: "keeps I E (resolveValidatorId n)"
  unfolding resolveValidatorId_def by (intro keeps_intros failE)

lemma getOrCreateDelegator_spec:
  "triple I (getOrCreateDelegator ops n) (\<lambda>d s. I s \<and> gm_get (rs_delegators (fst s)) n = Some d) E"
  by (auto simp: triple_def getOrCreateDelegator_def bindA_def getS_def modS_def ret_def fail_def Let_def
      weaker gm.get_put created [unfolded new_delegator_def] split: option.splits)

lemma delegate_target_keeps: "keeps I E (delegate_target ops registry t)"
proof -
  let ?n = "dt_Delegator t"
  let ?known = "\<lambda>d s. I s \<and> gm_get (rs_delegators (fst s)) ?n = Some d"
  have fund: "triple (?known d) (doA (rg_fundDelegator registry (da_address d) v)) (\<lambda>_. ?known d) E" for d v
    by (rule triple_doA) (auto intro: funded not_funded)
  have del: "triple (?known d) (doA (rg_delegate registry i (dt_Stake t) (da_privateKey d)))
      (\<lambda>_ s. I (add_stake (?n, i) (dt_Stake t) (fst s), snd s)) E" for d i
    by (rule triple_doA) (auto intro: delegated not_delegated)
  show ?thesis
    unfolding delegate_target_def
    by (rule triple_bind [OF resolveValidatorId_keeps], rule triple_bind [OF getOrCreateDelegator_spec],
        rule triple_bind [OF fund], rule triple_bind [OF del], rule triple_modS) (simp add: add_stake_def)
qed

lemma undelegate_target_keeps: "keeps I E (undelegate_target registry t)"
proof -
  let ?n = "ut_Delegator t"
  have known: "triple (\<lambda>s. I s \<and> fst s = st)
      (bindA (doA (rg_undelegateAs registry i v (da_privateKey d))) (\<lambda>_. modS f)) (\<lambda>_. I) E"
    if "gm_get (rs_delegators st) ?n = Some d" "f st = take_stake (?n, i) v st" for st i v d f
  proof (rule triple_bind)
    show "triple (\<lambda>s. I s \<and> fst s = st) (doA (rg_undelegateAs registry i v (da_privateKey d)))
        (\<lambda>_ s. fst s = st \<and> I (take_stake (?n, i) v st, snd s)) E"
      using that(1) by (intro triple_doA) (auto intro: undelegated not_undelegated)
    show "triple (\<lambda>s. fst s = st \<and> I (take_stake (?n, i) v st, snd s)) (modS f) (\<lambda>_. I) E"
      by (rule triple_modS) (auto simp: that(2))
  qed
  show ?thesis
    unfolding undelegate_target_def Let_def
    apply (rule triple_bind [OF resolveValidatorId_keeps], rule keeps_if)
     apply (rule triple_doA, erule (1) unregistered, erule (1) not_unregistered)
    apply (rule triple_getS)
    apply (split option.split, intro conjI allI impI)
     apply (rule triple_conseq [OF failE], simp, assumption, assumption)
    apply (erule known)
    apply (simp only: take_stake_def)
    done
qed

lemma verify_stake_keeps: "keeps I E (verify_stake registry kv)"
  unfolding verify_stake_def by (cases kv, cases "fst kv") (auto intro!: keeps_intros triple_world elim: stake_read)

end

section \<open>Invariants of a run\<close>

text \<open>
  \<open>I\<close> is the invariant and \<open>E\<close> what is left of it when a step fails. \<open>R\<close> is what the operations of the
  network may do to the world.
\<close>

locale run_invariant = quiet_ops ops R + stake_invariant ops registry I E
  for ops :: "'w network_ops" and R :: "'w \<Rightarrow> 'w \<Rightarrow> bool" and registry :: "'w validatorRegistry"
    and I E :: "runState \<times> 'w \<Rightarrow> bool" +
  assumes closed: "closed_under R I"
    and started: "I (st, w) \<Longrightarrow>
        (\<And>n node i. (n, node, Some i) \<in> set xs \<Longrightarrow> gm_get (rs_validatorIds st) n \<in> {None, Some i}) \<Longrightarrow>
        I (fold add_node xs st, w)"
    and remembered: "I (st, w) \<Longrightarrow> I (st\<lparr>rs_nodeHistory := List.insert n (rs_nodeHistory st)\<rparr>, w)"
    and stopped: "I (st, w) \<Longrightarrow> I (st\<lparr>rs_nodes := fold (\<lambda>(n, _ :: Node). gm_del n) ts (rs_nodes st)\<rparr>, w)"
    and app_started: "I (st, w) \<Longrightarrow> I (st\<lparr>rs_apps := gm_set n app (rs_apps st)\<rparr>, w)"
    and app_stopped: "I (st, w) \<Longrightarrow> I (st\<lparr>rs_apps := gm_del n (rs_apps st)\<rparr>, w)"
    and registered: "I (st, w) \<Longrightarrow> rg_registerNewValidator registry s w = (Inr i, w') \<Longrightarrow> I (st, w')"
    and not_registered: "I (st, w) \<Longrightarrow> rg_registerNewValidator registry s w = (Inl e, w') \<Longrightarrow> E (st, w')"
begin

lemma registration_keeps:
  "keeps (\<lambda>s. I s \<and> fst s = st) E (netA (rg_registerNewValidator registry s))"
  by (rule triple_netA) (auto intro: registered not_registered)

lemma validator_id_spec:
  "triple (\<lambda>s. I s \<and> fst s = st) (validator_id registry step b n)
     (\<lambda>(i, _) s. (I s \<and> fst s = st) \<and> gm_get (rs_validatorIds st) n \<in> {None, Some i}) E"
  unfolding validator_id_def
proof (rule triple_getS)
  fix st'
  show "triple (\<lambda>s. (I s \<and> fst s = st) \<and> fst s = st') (case gm_get (rs_validatorIds st') n of
      Some i \<Rightarrow> ret (i, b)
    | None \<Rightarrow> if b then fail (RejoinWithoutId n)
        else bindA (netA (rg_registerNewValidator registry (case st_Stake step of None \<Rightarrow> 0 | Some s \<Rightarrow> s))) (\<lambda>i. ret (i, True)))
    (\<lambda>(i, _) s. (I s \<and> fst s = st) \<and> gm_get (rs_validatorIds st) n \<in> {None, Some i}) E"
  proof (cases "st' = st \<and> gm_get (rs_validatorIds st') n = None \<and> \<not> b")
    case True
    have reg: "triple (\<lambda>s. I s \<and> fst s = st)
        (bindA (netA (rg_registerNewValidator registry v)) (\<lambda>i. ret (i, True))) (\<lambda>_ s. I s \<and> fst s = st) E" for v
      by (rule triple_bind [OF registration_keeps]) (rule keeps_ret)
    from True show ?thesis
      by (elim conjE, hypsubst, simp only: option.case if_False) (rule triple_conseq [OF reg], auto)
  next
    case False
    then show ?thesis
      by (auto simp: triple_def ret_def fail_def weaker split: option.splits)
  qed
qed

lemma validator_ids_spec:
  "triple (\<lambda>s. I s \<and> fst s = st)
     (if b then bindA (eachA (validator_id registry step rejoin) names) (\<lambda>ids. ret (map (\<lambda>(i, a). (Some i, a)) ids))
      else ret (map (\<lambda>_. (None, False)) names))
     (\<lambda>ids s. (I s \<and> fst s = st) \<and>
        list_all2 (\<lambda>n (v, _). case v of None \<Rightarrow> True | Some i \<Rightarrow> gm_get (rs_validatorIds st) n \<in> {None, Some i}) names ids) E"
proof (cases b)
  case True
  let ?V = "\<lambda>n (i, _ :: bool). gm_get (rs_validatorIds st) n \<in> {None, Some i}"
  have "triple (\<lambda>s. I s \<and> fst s = st) (eachA (validator_id registry step rejoin) names)
      (\<lambda>ids s. (I s \<and> fst s = st) \<and> list_all2 ?V names ids) E"
    by (rule triple_eachA_all2, rule triple_conseq [OF validator_id_spec]) auto
  then show ?thesis
    unfolding if_P [OF True]
    by (rule triple_bind) (auto simp: triple_def ret_def list_all2_conv_all_nth split: prod.splits)
qed (auto simp: triple_def ret_def list_all2_conv_all_nth)

lemma add_nodes_keeps:
  "triple (\<lambda>s. (I s \<and> fst s = st) \<and>
        list_all2 (\<lambda>n (v, _). case v of None \<Rightarrow> True | Some i \<Rightarrow> gm_get (rs_validatorIds st) n \<in> {None, Some i}) names ids)
     (modS (fold add_node (zip names (zip nodes (map fst ids))))) (\<lambda>_. I) E"
proof (rule triple_modS, elim conjE)
  fix st' w
  assume I: "I (st', w)" "fst (st', w) = st"
    and ids: "list_all2 (\<lambda>n (v, _). case v of None \<Rightarrow> True | Some i \<Rightarrow> gm_get (rs_validatorIds st) n \<in> {None, Some i}) names ids"
  show "I (fold add_node (zip names (zip nodes (map fst ids))) st', w)"
  proof (rule started [OF I(1)])
    fix n node i
    assume "(n, node, Some i) \<in> set (zip names (zip nodes (map fst ids)))"
    then obtain k where "k < length names" "k < length ids" "names ! k = n" "fst (ids ! k) = Some i"
      by (auto simp: in_set_zip)
    with list_all2_nthD [OF ids, of k] I(2) show "gm_get (rs_validatorIds st') n \<in> {None, Some i}"
      by (auto split: prod.splits)
  qed
qed

lemma execStartNode_keeps: "keeps I E (execStartNode ops registry step)"
  unfolding execStartNode_def Let_def
proof (rule triple_getS, goal_cases)
  case (1 st)
  note here = closed_under_here [OF closed, of st]
  show ?case
  proof (cases "gm_get (rs_nodes st) (st_Identifier step)")
    case (Some existing)
    then show ?thesis
      by simp (rule triple_conseq [OF restartNodeInPlace_keeps [OF closed]], auto intro: weaker)
  next
    case None
    have created: "closed_under R (\<lambda>s. (I s \<and> fst s = st) \<and> X)" for X
      using closed by (auto simp: closed_under_def)
    show ?thesis
      unfolding None option.case
      apply (rule triple_bind [where Q = "\<lambda>_ s. I s \<and> fst s = st"])
       apply (rule triple_tryA, rule getNetworkBlockHeight_keeps [OF here])
      apply (rule triple_bind [OF validator_ids_spec])
      apply (rule triple_bind [OF triple_groupA])
        apply (simp only: split_beta, intro keeps_netA created stays_ops)
       apply (simp add: weaker)
      apply (rule triple_bind [OF add_nodes_keeps])
      apply (rule triple_bind [where Q = "\<lambda>_. I"], rule triple_modS, erule remembered)
      apply (intro keeps_intros triple_eachA waitForNodeSync_keeps closed keepsE ensureValidatorsActive_keeps)
      done
  qed
qed

lemma execStopNode_keeps: "keeps I E (execStopNode ops step)"
  unfolding execStopNode_def Let_def
  by (intro keeps_intros triple_groupA failE triple_modS stop_node_keeps closed weaker stopped)

lemma tracked_opera_keeps: "keeps I I (tracked_opera name)"
  unfolding tracked_opera_def by (intro keeps_intros)

lemma execKillSonic_keeps: "keeps I E (execKillSonic ops step)"
  unfolding execKillSonic_def by (intro keepsE quiet_keeps tracked_opera_keeps closed) simp_all

lemma execHealDb_keeps: "keeps I E (execHealDb ops step)"
  unfolding execHealDb_def by (intro keepsE quiet_keeps tracked_opera_keeps closed) simp_all

lemma execDelegate_keeps: "keeps I E (execDelegate ops registry step)"
  unfolding execDelegate_def by (intro keeps_intros triple_eachA delegate_target_keeps)

lemma execUndelegate_keeps: "keeps I E (execUndelegate registry step)"
  unfolding execUndelegate_def by (intro keeps_intros triple_eachA undelegate_target_keeps)

lemma execVerifyStakes_keeps: "keeps I E (execVerifyStakes registry)"
  unfolding execVerifyStakes_def Let_def by (intro keeps_intros triple_eachA verify_stake_keeps failE)

lemma execRunApp_keeps: "keeps I E (execRunApp ops step)"
  unfolding execRunApp_def
  by (intro keepsE quiet_keeps triple_modS closed stays_ops app_started)

lemma execStopApp_keeps: "keeps I E (execStopApp ops step)"
  unfolding execStopApp_def by (intro keepsE quiet_keeps triple_modS closed stays_ops app_stopped)

lemma execUpdateRules_keeps: "keeps I E (execUpdateRules ops step)"
  unfolding execUpdateRules_def by (intro keepsE keeps_doA closed stays_ops)

lemma execChecks_keeps: "keeps I E (execChecks ops step)"
  unfolding execChecks_def execCheck_def Let_def
  by (intro keepsE quiet_keeps triple_eachA closed stays_ops)

lemma execWaitFor_keeps: "keeps I E (execWaitFor ops step)"
  unfolding execWaitFor_def Let_def
  by (intro keepsE quiet_keeps closed) (simp add: stays_def stays_sleep)

lemmas step_keeps = execStartNode_keeps execStopNode_keeps execKillSonic_keeps execHealDb_keeps
  execDelegate_keeps execUndelegate_keeps execVerifyStakes_keeps execRunApp_keeps execStopApp_keeps
  execUpdateRules_keeps execChecks_keeps execWaitFor_keeps

lemma executeStep_keeps: "keeps I E (executeStep ops registry step)"
  unfolding executeStep_def Let_def
  by (intro keeps_if step_keeps failE keepsE keeps_bind keeps_doA waitForBlockProduction_keeps closed stays_ops)

lemma run_steps_keeps:
  "run_steps ops registry i steps seen s = Some (e, seen', s') \<Longrightarrow> I s \<Longrightarrow> if e = None then I s' else E s'"
proof (induction steps arbitrary: i seen s e seen' s')
  case (Cons step steps)
  show ?case
  proof (cases "op_ctxDone ops (snd s)")
    case True
    with Cons.prems show ?thesis by (auto simp: weaker)
  next
    case False
    with Cons.prems(1) obtain r s1 where step: "executeStep ops registry step s = Some (r, s1)"
      by (auto simp: Let_def split: option.splits)
    note out = triple_cases [OF executeStep_keeps Cons.prems(2) step]
    show ?thesis
    proof (cases "isl r \<or> \<not> requiresBlockProductionCheck step")
      case True
      with False Cons.prems(1) step out Cons.IH show ?thesis
        by (auto simp: Let_def split: sum.splits)
    next
      case stable: False
      with False Cons.prems(1) step obtain r2 s2 where wait: "waitForBlockProduction ops s1 = Some (r2, s2)"
        by (auto simp: Let_def split: option.splits sum.splits)
      from stable out have "I s1" by (auto split: sum.splits)
      note out2 = triple_cases [OF waitForBlockProduction_keeps [OF closed] this wait]
      from False stable Cons.prems(1) step wait out2 Cons.IH show ?thesis
        by (auto simp: Let_def weaker split: sum.splits)
    qed
  qed
qed simp

end

end
