(* ===== verification/Executor_Example.thy ===== *)
theory Executor_Example
  imports Executor_Model
begin

text \<open>
  A small network on which the hypotheses about the parameters of the executor hold: a ledger of
  stakes, a clock and a chain that grows by one block with every query of its height.
\<close>

record ledger =
  lg_now :: gotime
  lg_block :: u64
  lg_last :: int
  lg_stakes :: "(address \<times> int, u64) gomap"

definition lg_stake :: "ledger \<Rightarrow> address \<Rightarrow> int \<Rightarrow> u64" where
  "lg_stake w a i = (case gm_get (lg_stakes w) (a, i) of None \<Rightarrow> 0 | Some s \<Rightarrow> s)"

definition lg_view :: "ledger \<Rightarrow> address \<Rightarrow> int \<Rightarrow> int" where
  "lg_view w a i = stakeToWei (lg_stake w a i)"

definition lg_add :: "address \<Rightarrow> int \<Rightarrow> int \<Rightarrow> ledger \<Rightarrow> tx_result \<times> ledger" where
  "lg_add a i v w =
     (let x = uint (lg_stake w a i) + v div wei_per_S
      in if v mod wei_per_S = 0 \<and> 0 \<le> x \<and> x < 2 ^ 64
         then (Successful, w\<lparr>lg_stakes := gm_set (a, i) (word_of_int x) (lg_stakes w)\<rparr>)
         else (Reverted_tx, w))"

definition lg_sfc :: "ledger sfc" where
  "lg_sfc =
     \<lparr>sfc_Delegate = (\<lambda>k i v. lg_add (ucast k) i v),
      sfc_Undelegate = (\<lambda>k i v. lg_add (ucast k) i (- v)),
      sfc_CreateValidator = (\<lambda>k v w. (Successful, w\<lparr>lg_last := lg_last w + 1\<rparr>)),
      sfc_Transfer = (\<lambda>k a v w. (Successful, w)),
      sfc_GetStake = (\<lambda>a i w. Some (lg_view w a i)),
      sfc_GetSelfStake = (\<lambda>i w. Some 0),
      sfc_LastValidatorID = (\<lambda>w. Some (lg_last w)),
      sfc_addr = ucast,
      sfc_fakeKey = (\<lambda>_. 0)\<rparr>"

definition lg_registry :: "ledger validatorRegistry" where
  "lg_registry = netBasedValidatorRegistry (\<lambda>w. (True, w)) lg_sfc"

definition lg_ops :: "ledger network_ops" where
  "lg_ops =
     \<lparr>op_ctxDone = (\<lambda>_. False), op_now = lg_now,
      op_sleep = (\<lambda>d w. w\<lparr>lg_now := lg_now w + max 0 d\<rparr>),
      op_DialRandomRpc = (\<lambda>w. (Inr 0, w)), op_DialRpc = (\<lambda>n w. (Inr 0, w)),
      op_BlockNumber = (\<lambda>c w. (Inr (lg_block w), w\<lparr>lg_block := lg_block w + 1\<rparr>)),
      op_CreateNode = (\<lambda>cfg w. (Inr \<lparr>nd_handle = 0, nd_label = nc_Name cfg, nd_validatorId = nc_ValidatorId cfg,
                                     nd_isOpera = True\<rparr>, w)),
      op_RemoveNode = (\<lambda>n w. (None, w)), op_Stop = (\<lambda>n w. (None, w)), op_Cleanup = (\<lambda>n w. (None, w)),
      op_StartSonicd = (\<lambda>n w. (None, w)), op_StartSonicdAsObserver = (\<lambda>n w. (None, w)),
      op_WaitForSync = (\<lambda>n w. (None, w)), op_ReconnectNode = (\<lambda>n w. (None, w)),
      op_ResumeNode = (\<lambda>n w. w), op_SuspendNode = (\<lambda>n w. w), op_ForceStopSonicd = (\<lambda>n w. (None, w)),
      op_HealSonicd = (\<lambda>n w. (None, w)), op_CreateApplication = (\<lambda>c w. (Inr 0, w)),
      op_StartApp = (\<lambda>a w. (None, w)), op_StopApp = (\<lambda>a w. (None, w)),
      op_ApplyNetworkRules = (\<lambda>p w. (None, w)), op_AdvanceEpoch = (\<lambda>w. (None, w)),
      op_WaitForEpochChange = (\<lambda>w. (None, w)),
      op_GetActiveValidatorIDs = (\<lambda>c w. (Inr [1..lg_last w], w)),
      op_checkers = None, op_Check = (\<lambda>n c w. (None, w)),
      op_deriveKey = (\<lambda>n. if n = ''alice'' then Some 7 else if n = ''bob'' then Some 8 else None),
      op_address = ucast\<rparr>"

definition lg_start :: ledger where
  "lg_start = \<lparr>lg_now = 0, lg_block = 1, lg_last = 0, lg_stakes = []\<rparr>"

definition lg_scenario :: Scenario where
  "lg_scenario =
     \<lparr>sc_Name = ''stakes'', sc_Description = ''delegation'', sc_InitialRules = no_patch, sc_DisableEndChecks = True,
      sc_Steps =
        [no_step\<lparr>st_Function := ''startNode'', st_Identifier := ''v'', st_NodeType := ''validator''\<rparr>,
         no_step\<lparr>st_Function := ''delegate'', st_DelegateTargets :=
           [\<lparr>dt_Node = ''v'', dt_Stake = 5, dt_Delegator = ''alice''\<rparr>, \<lparr>dt_Node = ''v'', dt_Stake = 3, dt_Delegator = ''bob''\<rparr>]\<rparr>,
         no_step\<lparr>st_Function := ''waitFor'', st_Duration := 1000000000\<rparr>,
         no_step\<lparr>st_Function := ''undelegate'', st_UndelegateTargets :=
           [\<lparr>ut_Node = ''v'', ut_Stake = Some 2, ut_Delegator = ''alice''\<rparr>,
            \<lparr>ut_Node = ''v'', ut_Stake = None, ut_Delegator = ''bob''\<rparr>]\<rparr>,
         no_step\<lparr>st_Function := ''verifyStakes''\<rparr>]\<rparr>"

definition lg_run :: "(exec_error option \<times> EventExecution list \<times> (runState \<times> ledger)) option" where
  "lg_run = runWithObserver (\<lambda>_. True) lg_ops lg_registry lg_scenario [] lg_start"

declare sync_loop.simps [code] production_loop.simps [code] active_set_loop.simps [code]

lemma lg_run_result:
  "(case lg_run of
      None \<Rightarrow> False
    | Some (e, seen, st, w) \<Rightarrow>
        e = None \<and> map ee_Start seen = [0, 0, 0, 1000000000, 1000000000] \<and>
        rs_expectedStakes st = [((''alice'', 1), 3), ((''bob'', 1), 0)] \<and> rs_validatorIds st = [(''v'', 1)] \<and>
        lg_stakes w = [((7, 1), 3), ((8, 1), 0)])"
  by code_simp

end
