(* ===== verification/Executor_Properties.thy ===== *)
theory Executor_Properties
  imports Executor_Invariants Executor_Example
begin

text \<open>
  Properties of runs of scenarios: the state of the executor stays well-formed, validators keep their
  identity, and every run ends.
\<close>

section \<open>Well-formed states\<close>

lemma gm_del_entries: "set (gm_del k m) \<subseteq> set m"
  unfolding gm_del_def by (auto simp: AList.delete_eq)

lemma gm_all_set: "list_all P m \<Longrightarrow> P (k, v) \<Longrightarrow> list_all P (gm_set k v m)"
  using set_gm_set_subset [of k v m] by (auto simp: list_all_iff)

lemma gm_all_del: "list_all P m \<Longrightarrow> list_all P (gm_del k m)"
  using gm_del_entries [of k m] by (auto simp: list_all_iff)

text \<open>
  No map has a key twice; a running node is known to the history, under the same name; a delegator
  has the key that belongs to its name and the address that belongs to its key; and a tracked stake is
  that of a known delegator.
\<close>

definition run_state_wf :: "'w network_ops \<Rightarrow> runState \<Rightarrow> bool" where
  "run_state_wf ops st \<longleftrightarrow>
     gm_wf (rs_nodes st) \<and> gm_wf (rs_apps st) \<and> gm_wf (rs_validatorIds st) \<and> gm_wf (rs_delegators st) \<and>
     gm_wf (rs_expectedStakes st) \<and> distinct (rs_nodeHistory st) \<and>
     list_all (\<lambda>(n, _). n \<in> set (rs_nodeHistory st)) (rs_nodes st) \<and>
     list_all (\<lambda>(n, d). da_name d = n \<and> op_deriveKey ops n = Some (da_privateKey d) \<and>
                 da_address d = op_address ops (da_privateKey d)) (rs_delegators st) \<and>
     list_all (\<lambda>((n, _), _). gm_get (rs_delegators st) n \<noteq> None) (rs_expectedStakes st)"

lemma wf_add_node: "run_state_wf ops st \<Longrightarrow> run_state_wf ops (add_node x st)"
  by (cases x)
     (auto simp: run_state_wf_def add_node_def Let_def gm.wf_put list_all_iff split: option.splits
       dest!: subsetD [OF set_gm_set_subset])

lemma wf_add_nodes: "run_state_wf ops st \<Longrightarrow> run_state_wf ops (fold add_node xs st)"
  by (induction xs arbitrary: st) (auto intro: wf_add_node)

lemma wf_remember: "run_state_wf ops st \<Longrightarrow> run_state_wf ops (st\<lparr>rs_nodeHistory := List.insert n (rs_nodeHistory st)\<rparr>)"
  by (auto simp: run_state_wf_def list_all_iff)

lemma wf_stop: "run_state_wf ops st \<Longrightarrow> run_state_wf ops (st\<lparr>rs_nodes := fold (\<lambda>(n, _). gm_del n) ts (rs_nodes st)\<rparr>)"
proof (induction ts arbitrary: st)
  case (Cons t ts)
  have "run_state_wf ops (st\<lparr>rs_nodes := gm_del (fst t) (rs_nodes st)\<rparr>)"
    using Cons.prems by (auto simp: run_state_wf_def gm.wf_del gm_all_del)
  from Cons.IH [OF this] show ?case by (simp add: split_beta)
qed simp

lemma wf_apps:
  "run_state_wf ops st \<Longrightarrow> run_state_wf ops (st\<lparr>rs_apps := gm_set n app (rs_apps st)\<rparr>)"
  "run_state_wf ops st \<Longrightarrow> run_state_wf ops (st\<lparr>rs_apps := gm_del n (rs_apps st)\<rparr>)"
  by (simp_all add: run_state_wf_def gm.wf_put gm.wf_del)

lemma wf_delegator:
  "run_state_wf ops st \<Longrightarrow> op_deriveKey ops n = Some key \<Longrightarrow> run_state_wf ops (new_delegator ops n key st)"
  unfolding run_state_wf_def new_delegator_def
  by (auto simp: gm.wf_put gm.get_put intro: gm_all_set) (auto simp: list_all_iff gm.get_put)

lemma wf_add_stake:
  "run_state_wf ops st \<Longrightarrow> gm_get (rs_delegators st) n = Some d \<Longrightarrow> run_state_wf ops (add_stake (n, i) v st)"
  by (auto simp: run_state_wf_def add_stake_def gm.wf_put intro: gm_all_set)

lemma wf_take_stake:
  "run_state_wf ops st \<Longrightarrow> gm_get (rs_delegators st) n = Some d \<Longrightarrow> run_state_wf ops (take_stake (n, i) v st)"
  by (auto simp: run_state_wf_def take_stake_def gm.wf_put intro: gm_all_set split: option.splits)

lemma wf_initial: "run_state_wf ops (initial_state genesis)"
proof -
  have "gm_wf m \<Longrightarrow> gm_wf (fold (\<lambda>(l, i). gm_set l i) xs m)" for xs and m :: "(string, int) gomap"
    by (induction xs arbitrary: m) (auto simp: gm.wf_put)
  then show ?thesis by (simp add: run_state_wf_def initial_state_def gm_wf_def)
qed

interpretation wf_run: run_invariant ops "\<lambda>_ _. True" registry "\<lambda>s. run_state_wf ops (fst s)" "\<lambda>s. run_state_wf ops (fst s)"
  for ops :: "'w network_ops" and registry :: "'w validatorRegistry"
proof unfold_locales
  show "quiet ops (\<lambda>_ _. True)" by (simp add: quiet_def stays_def)
  show "closed_under (\<lambda>_ _. True) (\<lambda>s :: runState \<times> 'w. run_state_wf ops (fst s))" by (simp add: closed_under_def)
qed (simp_all add: wf_apps wf_add_nodes wf_remember wf_stop wf_delegator wf_add_stake wf_take_stake)

text \<open>
  C32: Whatever the network, the chain and the checkers do, and however a run ends, the state of the
  executor is well-formed at the end: the delegators are the ones their names stand for, every
  tracked stake belongs to a known delegator (so that the verification of stakes never meets an
  unknown one), and every running node is in the history that decides about rejoining.
\<close>

theorem run_state_well_formed:
  assumes "runWithObserver validate ops registry scenario genesis w = Some (e, seen, st, w')"
  shows "run_state_wf ops st"
proof -
  have same: "run_state_wf (with_timeout ops t) = run_state_wf ops" for t
    by (simp add: fun_eq_iff run_state_wf_def with_timeout_def)
  show ?thesis
    using assms wf_run.run_steps_keeps [of "with_timeout ops t" for t, unfolded same] wf_initial
    by (fastforce simp: runWithObserver_def Let_def split: if_splits)
qed

text \<open>The run of the example, as an equation.\<close>

lemma lg_run_ends:
  obtains seen st w where "lg_run = Some (None, seen, st, w)"
    "rs_expectedStakes st = [((''alice'', 1), 3), ((''bob'', 1), 0)]" "rs_validatorIds st = [(''v'', 1)]"
    "map ee_Start seen = [0, 0, 0, 1000000000, 1000000000]"
  using lg_run_result by (auto split: option.splits)

theorem run_state_well_formed_witness:
  "\<exists>seen st w. lg_run = Some (None, seen, st, w) \<and> run_state_wf lg_ops st \<and> length (rs_expectedStakes st) = 2"
proof -
  obtain seen st w where run: "lg_run = Some (None, seen, st, w)" "rs_expectedStakes st = [((''alice'', 1), 3), ((''bob'', 1), 0)]"
    by (rule lg_run_ends)
  with run_state_well_formed [OF run(1) [unfolded lg_run_def]] show ?thesis
    by (intro exI [of _ seen] exI [of _ st] exI [of _ w]) simp
qed

section \<open>Validators keep their identity\<close>

lemma add_node_ids:
  "gm_get (rs_validatorIds (add_node (m, node, v) st)) n =
     (if v \<noteq> None \<and> m = n then v else gm_get (rs_validatorIds st) n)"
  by (auto simp: add_node_def Let_def gm.get_put split: option.splits)

lemma add_nodes_ids:
  "gm_get (rs_validatorIds st) n = Some i \<Longrightarrow> (\<And>node j. (n, node, Some j) \<in> set xs \<Longrightarrow> j = i) \<Longrightarrow>
     gm_get (rs_validatorIds (fold add_node xs st)) n = Some i"
proof (induction xs arbitrary: st)
  case (Cons x xs)
  obtain m node v where x: "x = (m, node, v)" by (cases x)
  have "gm_get (rs_validatorIds (add_node x st)) n = Some i"
    using Cons.prems x by (cases v) (auto simp: add_node_ids)
  from Cons.IH [OF this] Cons.prems(2) show ?case by auto
qed simp

interpretation ids_kept: run_invariant ops "\<lambda>_ _. True" registry
    "\<lambda>s. gm_get (rs_validatorIds (fst s)) n = Some i" "\<lambda>s. gm_get (rs_validatorIds (fst s)) n = Some i"
  for ops :: "'w network_ops" and registry :: "'w validatorRegistry" and n i
proof unfold_locales
  show "closed_under (\<lambda>_ _. True) (\<lambda>s :: runState \<times> 'w. gm_get (rs_validatorIds (fst s)) n = Some i)"
    by (simp add: closed_under_def)
  show "gm_get (rs_validatorIds (fst (fold add_node xs st, w))) n = Some i"
    if known: "gm_get (rs_validatorIds (fst (st, w))) n = Some i"
      and new: "\<And>m node j. (m, node, Some j) \<in> set xs \<Longrightarrow> gm_get (rs_validatorIds st) m \<in> {None, Some j}"
    for st xs and w :: 'w
    using known new [of n] by (auto intro!: add_nodes_ids)
qed (auto simp: new_delegator_def add_stake_def take_stake_def split: option.splits)

lemma validator_id_known:
  "gm_get (rs_validatorIds (fst s)) n = Some i \<Longrightarrow> validator_id registry step b n s = Some (Inr (i, b), s)"
  by (simp add: validator_id_def bindA_def getS_def ret_def)

text \<open>
  C33: A node that has a validator identifier, from the genesis or from a registration, keeps it for
  the rest of the run whatever steps follow and however they end; and starting it again uses that
  identifier and registers nobody: the world is unchanged.
\<close>

theorem validator_identity_kept:
  assumes known: "gm_get (rs_validatorIds st) n = Some i"
    and run: "run_steps ops registry k steps seen (st, w) = Some (e, seen', st', w')"
  shows "gm_get (rs_validatorIds st') n = Some i \<and>
         validator_id registry step rejoin n (st', w') = Some (Inr (i, rejoin), (st', w'))"
proof
  show kept: "gm_get (rs_validatorIds st') n = Some i"
    using ids_kept.run_steps_keeps [OF run] known by (simp split: if_splits)
  show "validator_id registry step rejoin n (st', w') = Some (Inr (i, rejoin), (st', w'))"
    by (rule validator_id_known) (simp add: kept)
qed

text \<open>Stopping a validator and starting it again, in the example network: it is still validator 1.\<close>

definition lg_rejoin :: "Step list" where
  "lg_rejoin =
     [no_step\<lparr>st_Function := ''stopNode'', st_Identifier := ''v''\<rparr>,
      no_step\<lparr>st_Function := ''startNode'', st_Identifier := ''v'', st_NodeType := ''validator''\<rparr>]"

definition lg_member :: runState where
  "lg_member = (initial_state [])\<lparr>rs_nodes := [(''v'', \<lparr>nd_handle = 0, nd_label = ''v'', nd_validatorId = Some 1, nd_isOpera = True\<rparr>)],
     rs_nodeHistory := [''v''], rs_validatorIds := [(''v'', 1)]\<rparr>"

lemma lg_rejoin_result:
  "(case run_steps lg_ops lg_registry 1 lg_rejoin [] (lg_member, lg_start\<lparr>lg_last := 1\<rparr>) of
      None \<Rightarrow> False | Some (e, seen, st, w) \<Rightarrow> e = None \<and> length seen = 2 \<and> lg_last w = 1)"
  by code_simp

theorem validator_identity_kept_witness:
  "\<exists>seen st w. run_steps lg_ops lg_registry 1 lg_rejoin [] (lg_member, lg_start\<lparr>lg_last := 1\<rparr>) = Some (None, seen, st, w) \<and>
     gm_get (rs_validatorIds st) ''v'' = Some 1 \<and>
     validator_id lg_registry no_step True ''v'' (st, w) = Some (Inr (1, True), (st, w))"
proof -
  obtain seen st w where run: "run_steps lg_ops lg_registry 1 lg_rejoin [] (lg_member, lg_start\<lparr>lg_last := 1\<rparr>) = Some (None, seen, st, w)"
    using lg_rejoin_result by (auto split: option.splits)
  have "gm_get (rs_validatorIds lg_member) ''v'' = Some 1" by (simp add: lg_member_def gm_get_def)
  from validator_identity_kept [OF this run] run show ?thesis by blast
qed

section \<open>Every run ends\<close>

text \<open>The clock: sleeping takes its time, and a query does not set it back.\<close>

definition clock_ok :: "'w network_ops \<Rightarrow> bool" where
  "clock_ok ops \<longleftrightarrow>
     (\<forall>d w. op_now ops w + d \<le> op_now ops (op_sleep ops d w)) \<and>
     (\<forall>c w. op_now ops w \<le> op_now ops (snd (op_BlockNumber ops c w))) \<and>
     (\<forall>c w. op_now ops w \<le> op_now ops (snd (op_GetActiveValidatorIDs ops c w)))"

lemma clock_sleep:
  "clock_ok ops \<Longrightarrow> op_BlockNumber ops c w = (r, w1) \<Longrightarrow> op_now ops w + d \<le> op_now ops (op_sleep ops d w1)"
  "clock_ok ops \<Longrightarrow> op_GetActiveValidatorIDs ops c w = (a, w1) \<Longrightarrow> op_now ops w + d \<le> op_now ops (op_sleep ops d w1)"
  unfolding clock_ok_def
  by (elim conjE, drule spec [of _ d], drule spec [of _ w1], metis add_le_cancel_right order_trans snd_conv)+

lemma with_timeout_sel [simp]:
  "op_now (with_timeout ops t) = op_now ops" "op_sleep (with_timeout ops t) = op_sleep ops"
  "op_BlockNumber (with_timeout ops t) = op_BlockNumber ops"
  "op_GetActiveValidatorIDs (with_timeout ops t) = op_GetActiveValidatorIDs ops"
  "op_ctxDone (with_timeout ops t) w \<longleftrightarrow> op_ctxDone ops w \<or> t \<le> op_now ops w"
  by (simp_all add: with_timeout_def)

lemma sync_loop_returns: "clock_ok ops \<Longrightarrow> sync_loop (with_timeout ops t) c b d w \<noteq> None"
proof (induction "nat (d - op_now ops w)" arbitrary: w rule: less_induct)
  case less
  have "sync_loop (with_timeout ops t) c b d (op_sleep ops x w1) \<noteq> None"
    if "op_now ops w < d" "op_BlockNumber ops c w = (r, w1)" "0 < x" for r w1 x
    using clock_sleep(1) [OF less.prems that(2), of x] that by (intro less.hyps less.prems) linarith
  then show ?case
    by (subst sync_loop.simps) (auto split: prod.splits sum.splits)
qed

lemma production_loop_returns: "clock_ok ops \<Longrightarrow> production_loop (with_timeout ops t) c b w \<noteq> None"
proof (induction "nat (t - op_now ops w)" arbitrary: w rule: less_induct)
  case less
  have "production_loop (with_timeout ops t) c b (op_sleep ops x w1) \<noteq> None"
    if "op_now ops w < t" "op_BlockNumber ops c w = (r, w1)" "0 < x" for r w1 x
    using clock_sleep(1) [OF less.prems that(2), of x] that by (intro less.hyps less.prems) linarith
  then show ?case
    by (subst production_loop.simps) (auto split: prod.splits sum.splits)
qed

lemma active_set_loop_returns: "clock_ok ops \<Longrightarrow> active_set_loop (with_timeout ops t) c ids d w \<noteq> None"
proof (induction "nat (t - op_now ops w)" arbitrary: w rule: less_induct)
  case less
  have "active_set_loop (with_timeout ops t) c ids d (op_sleep ops x w1) \<noteq> None"
    if "op_GetActiveValidatorIDs ops c w = (r, w1)" "op_now ops (op_sleep ops x w1) < t" "0 < x" for r w1 x
    using clock_sleep(2) [OF less.prems that(1), of x] that by (intro less.hyps less.prems) linarith
  then show ?case
    by (subst active_set_loop.simps) (auto simp: Let_def split: prod.splits sum.splits)
qed

lemma total_option [total_intros]: "total m \<Longrightarrow> (\<And>x. total (f x)) \<Longrightarrow> total (case v of None \<Rightarrow> m | Some x \<Rightarrow> f x)"
  by (cases v) auto

lemma total_sum [total_intros]: "(\<And>x. total (f x)) \<Longrightarrow> (\<And>x. total (g x)) \<Longrightarrow> total (case v of Inl x \<Rightarrow> f x | Inr x \<Rightarrow> g x)"
  by (cases v) auto

lemma total_if [total_intros]: "total m \<Longrightarrow> total m' \<Longrightarrow> total (if b then m else m')"
  by simp

lemma total_prod [total_intros]: "(\<And>a b. total (f a b)) \<Longrightarrow> total (case p of (a, b) \<Rightarrow> f a b)"
  by (cases p) auto

lemma waits_return [total_intros]:
  assumes "clock_ok ops"
  shows "total (waitForNodeSync (with_timeout ops t) node b)" "total (waitForBlockProduction (with_timeout ops t))"
    "total (ensureValidatorsActive (with_timeout ops t) ids)"
  unfolding waitForNodeSync_def waitForBlockProduction_def ensureValidatorsActive_def
  by (intro total_intros sync_loop_returns production_loop_returns active_set_loop_returns assms)+

lemma executeStep_returns:
  assumes "clock_ok ops"
  shows "total (executeStep (with_timeout ops t) registry step)"
  unfolding executeStep_def execStartNode_def restartNodeInPlace_def getNetworkBlockHeight_def validator_id_def
    execStopNode_def stop_node_def execKillSonic_def execHealDb_def tracked_opera_def execDelegate_def
    delegate_target_def resolveValidatorId_def getOrCreateDelegator_def execUndelegate_def undelegate_target_def
    execVerifyStakes_def verify_stake_def execRunApp_def execStopApp_def execUpdateRules_def execChecks_def
    execCheck_def execWaitFor_def Let_def
  by (intro total_intros assms) (simp split: prod.splits, intro allI impI total_intros)

lemma totalE:
  assumes "total m"
  obtains r s' where "m s = Some (r, s')"
  using assms unfolding total_def by (metis not_None_eq old.prod.exhaust)

lemma run_steps_returns:
  "clock_ok ops \<Longrightarrow> run_steps (with_timeout ops t) registry i steps seen s \<noteq> None"
proof (induction steps arbitrary: i seen s)
  case (Cons step steps)
  obtain r s1 where step: "executeStep (with_timeout ops t) registry step s = Some (r, s1)"
    using executeStep_returns [OF Cons.prems] by (rule totalE)
  obtain r2 s2 where wait: "waitForBlockProduction (with_timeout ops t) s1 = Some (r2, s2)"
    using waits_return(2) [OF Cons.prems] by (rule totalE)
  show ?case
    using Cons.IH [OF Cons.prems] by (simp add: step wait Let_def split: sum.splits)
qed simp



section \<open>What is observed of a run\<close>

definition registry_stays :: "'w validatorRegistry \<Rightarrow> ('w \<Rightarrow> 'w \<Rightarrow> bool) \<Rightarrow> bool" where
  "registry_stays r R \<longleftrightarrow>
     (\<forall>s. stays R (rg_registerNewValidator r s)) \<and> (\<forall>i s. stays R (rg_unregisterValidator r i s)) \<and>
     (\<forall>i s k. stays R (rg_delegate r i s k)) \<and> (\<forall>i s k. stays R (rg_undelegateAs r i s k)) \<and>
     (\<forall>a s. stays R (rg_fundDelegator r a s)) \<and> (\<forall>a i. stays R (rg_getDelegatorStake r a i))"

text \<open>The intervals of the observed steps, one after the other between two points of time.\<close>

fun in_order :: "gotime \<Rightarrow> EventExecution list \<Rightarrow> gotime \<Rightarrow> bool" where
  "in_order t [] t' \<longleftrightarrow> t \<le> t'"
| "in_order t (x # xs) t' \<longleftrightarrow> t \<le> ee_Start x \<and> ee_Start x \<le> ee_End x \<and> in_order (ee_End x) xs t'"

lemma in_order_append: "in_order t (xs @ [x]) t' \<longleftrightarrow> in_order t xs (ee_Start x) \<and> ee_Start x \<le> ee_End x \<and> ee_End x \<le> t'"
  by (induction xs arbitrary: t) auto

lemma in_order_later: "in_order t xs t' \<Longrightarrow> t' \<le> t'' \<Longrightarrow> in_order t xs t''"
  by (induction xs arbitrary: t) auto

lemma staysD: "stays R op \<Longrightarrow> op w = (a, w') \<Longrightarrow> R w w'"
  by (metis snd_conv stays_def)

lemma registry_staysD:
  assumes "registry_stays r R"
  shows "rg_registerNewValidator r v w = (a, w') \<Longrightarrow> R w w'" "rg_unregisterValidator r i v w = (b, w') \<Longrightarrow> R w w'"
    "rg_delegate r i v k w = (b, w') \<Longrightarrow> R w w'" "rg_undelegateAs r i v k w = (b, w') \<Longrightarrow> R w w'"
    "rg_fundDelegator r c v w = (b, w') \<Longrightarrow> R w w'" "rg_getDelegatorStake r c i w = (d, w') \<Longrightarrow> R w w'"
  using assms unfolding registry_stays_def by (blast intro: staysD)+

lemma clock_invariant:
  assumes "quiet ops (\<lambda>w w'. op_now ops w \<le> op_now ops w')" "registry_stays r (\<lambda>w w'. op_now ops w \<le> op_now ops w')"
  shows "run_invariant ops (\<lambda>w w'. op_now ops w \<le> op_now ops w') r (\<lambda>s. t \<le> op_now ops (snd s)) (\<lambda>s. t \<le> op_now ops (snd s))"
proof -
  note le = registry_staysD [OF assms(2)]
  show ?thesis
    using assms(1) by unfold_locales (auto simp: closed_under_def dest: le)
qed

lemma run_steps_observed:
  assumes "quiet ops (\<lambda>w w'. op_now ops w \<le> op_now ops w')" "registry_stays r (\<lambda>w w'. op_now ops w \<le> op_now ops w')"
    and "run_steps ops r i steps seen s = Some (e, seen', s')" and "in_order t seen (op_now ops (snd s))"
  shows "\<exists>new. seen' = seen @ new \<and> in_order t seen' (op_now ops (snd s')) \<and>
      map ee_Name new = map (\<lambda>(k, step). formatStepExecutionName k step) (take (length new) (enumerate i steps)) \<and>
      length new \<le> length steps \<and> (e = None \<longrightarrow> length new = length steps) \<and>
      (\<forall>k err. e = Some (StepFailed k err) \<longrightarrow> k < i + length steps \<and> (k + 1 = i + length new \<or> k = i + length new \<and> err = Aborted))"
  using assms(3,4)
proof (induction steps arbitrary: i seen s e seen' s')
  case (Cons step steps)
  note keep = run_invariant.executeStep_keeps [OF clock_invariant [OF assms(1,2)]]
  show ?case
  proof (cases "op_ctxDone ops (snd s)")
    case True
    with Cons.prems show ?thesis by auto
  next
    case False
    with Cons.prems(1) obtain r1 s1 where step: "executeStep ops r step s = Some (r1, s1)"
      by (auto simp: Let_def split: option.splits)
    let ?x = "\<lparr>ee_Name = formatStepExecutionName i step, ee_Start = op_now ops (snd s), ee_End = op_now ops (snd s1)\<rparr>"
    from triple_cases [OF keep order_refl step] have "op_now ops (snd s) \<le> op_now ops (snd s1)"
      by (simp split: sum.splits)
    with Cons.prems(2) have order: "in_order t (seen @ [?x]) (op_now ops (snd s1))"
      by (simp add: in_order_append)
    have extend: ?thesis if "run_steps ops r (i + 1) steps (seen @ [?x]) s2 = Some (e, seen', s')"
      "op_now ops (snd s1) \<le> op_now ops (snd s2)" for s2
      using Cons.IH [OF that(1) in_order_later [OF order that(2)]]
      by (elim exE conjE, intro exI [of _ "?x # new" for new]) auto
    have wait: "op_now ops (snd s1) \<le> op_now ops (snd s2)" if "waitForBlockProduction ops s1 = Some (r2, s2)" for r2 s2
      using triple_cases [OF quiet_ops.waitForBlockProduction_keeps [OF quiet_ops.intro [OF assms(1)],
            of "\<lambda>s. op_now ops (snd s1) \<le> op_now ops (snd s)"] _ that]
      by (auto simp: closed_under_def split: sum.splits)
    show ?thesis
    proof (cases r1)
      case (Inl err)
      with False Cons.prems(1) step order show ?thesis by (auto simp: Let_def intro!: exI [of _ "[?x]"])
    next
      case (Inr u)
      note now = Cons.prems(1) [simplified, unfolded step, simplified, simplified False Inr Let_def, simplified]
      show ?thesis
      proof (cases "requiresBlockProductionCheck step")
        case True
        with now obtain r2 s2 where w: "waitForBlockProduction ops s1 = Some (r2, s2)"
          by (auto split: option.splits)
        show ?thesis
        proof (cases r2)
          case (Inl err)
          with now True w in_order_later [OF order wait [OF w]] show ?thesis by (auto intro!: exI [of _ "[?x]"])
        next
          case (Inr v)
          with now True w show ?thesis by (intro extend [OF _ wait [OF w]]) simp
        qed
      next
        case False
        with now show ?thesis by (intro extend [OF _ order_refl]) simp
      qed
    qed
  qed
qed auto


lemma lg_quiet: "quiet lg_ops (\<lambda>w w'. lg_now w \<le> lg_now w')"
  by (simp add: quiet_def stays_def lg_ops_def)

lemma lg_registry_stays: "registry_stays lg_registry (\<lambda>w w'. lg_now w \<le> lg_now w')"
  by (auto simp: registry_stays_def stays_def lg_registry_def netBasedValidatorRegistry_def dialled_def lg_sfc_def
      RegisterValidatorNode_def UnregisterValidatorNode_def DelegateToValidator_def UndelegateFromValidator_def
      FundAccount_def GetDelegatorStake_def tx_done_def Let_def lg_add_def split: prod.splits)


end
