(* ===== verification/Executor_Stakes.thy ===== *)
theory Executor_Stakes
  imports Executor_Properties
begin

text \<open>
  The stake bookkeeping of the executor refines the stakes of the SFC contract: over every successful
  run the expected stakes are the stakes on the chain, to the wei.
\<close>

definition delegator_addresses :: "'w network_ops \<Rightarrow> address set" where
  "delegator_addresses ops = {op_address ops key |name key. op_deriveKey ops name = Some key}"

text \<open>Different names have different accounts: the hash behind the keys has no collision.\<close>

definition distinct_delegators :: "'w network_ops \<Rightarrow> bool" where
  "distinct_delegators ops \<longleftrightarrow>
     (\<forall>n n' k k'. op_deriveKey ops n = Some k \<longrightarrow> op_deriveKey ops n' = Some k' \<longrightarrow>
        op_address ops k = op_address ops k' \<longrightarrow> n = n')"

definition stakes_agree :: "'w network_ops \<Rightarrow> ('w \<Rightarrow> address \<Rightarrow> int \<Rightarrow> int) \<Rightarrow> runState \<times> 'w \<Rightarrow> bool" where
  "stakes_agree ops view s \<longleftrightarrow>
     (\<forall>n key i. op_deriveKey ops n = Some key \<longrightarrow>
        view (snd s) (op_address ops key) i = stakeToWei (expected_stake (fst s) (n, i)))"

definition same_stakes :: "'w network_ops \<Rightarrow> ('w \<Rightarrow> address \<Rightarrow> int \<Rightarrow> int) \<Rightarrow> 'w \<Rightarrow> 'w \<Rightarrow> bool" where
  "same_stakes ops view w w' \<longleftrightarrow> (\<forall>a\<in>delegator_addresses ops. view w' a = view w a)"

section \<open>Amounts\<close>

lemma wei_pos: "0 < wei_per_S" by (simp add: wei_per_S_def)

lemma stakeToWei_add:
  assumes "stakeToWei a + stakeToWei b < 2 ^ 64 * wei_per_S"
  shows "stakeToWei (a + b) = stakeToWei a + stakeToWei b"
proof -
  from assms have "(uint a + uint b) * wei_per_S < 2 ^ 64 * wei_per_S"
    by (simp add: stakeToWei_def algebra_simps)
  then have "uint a + uint b < 2 ^ 64" using wei_pos mult_less_cancel_right_pos by blast
  then have "uint (a + b) = uint a + uint b" using uint_add_lem [of a b] by simp
  then show ?thesis by (simp add: stakeToWei_def algebra_simps)
qed

lemma stakeToWei_le: "stakeToWei a \<le> stakeToWei b \<longleftrightarrow> a \<le> b"
  using wei_pos by (simp add: stakeToWei_def word_le_def)

lemma stakeToWei_diff: "b \<le> a \<Longrightarrow> stakeToWei (a - b) = stakeToWei a - stakeToWei b"
  using uint_sub_lem [of b a] by (simp add: stakeToWei_def word_le_def left_diff_distrib)

lemma stakeToWei_0 [simp]: "stakeToWei 0 = 0"
  by (simp add: stakeToWei_def)

lemma expected_add_stake:
  "expected_stake (add_stake k v st) k' = expected_stake st k' + (if k' = k then v else 0)"
  by (simp add: expected_stake_def add_stake_def gm.get_put)

lemma expected_take_stake:
  "expected_stake (take_stake k v st) k' =
     (if k' = k then expected_stake st k - min (if v = 0 then expected_stake st k else v) (expected_stake st k)
      else expected_stake st k')"
  by (simp add: expected_stake_def take_stake_def gm.get_put split: option.splits)

section \<open>The stake operations\<close>

lemma wf_delegator_entry:
  "run_state_wf ops st \<Longrightarrow> gm_get (rs_delegators st) n = Some d \<Longrightarrow>
     op_deriveKey ops n = Some (da_privateKey d) \<and> da_address d = op_address ops (da_privateKey d)"
  by (fastforce simp: run_state_wf_def list_all_iff dest: gm_get_SomeD)

lemma agreeD:
  "stakes_agree ops view (st, w) \<Longrightarrow> op_deriveKey ops n = Some key \<Longrightarrow>
     view w (op_address ops key) i = stakeToWei (expected_stake st (n, i))"
  by (simp add: stakes_agree_def)

lemma agree_other:
  assumes "stakes_agree ops view (st, w)" and "same_stakes ops view w w'"
  shows "stakes_agree ops view (st, w')"
  using assms unfolding stakes_agree_def same_stakes_def delegator_addresses_def by force

lemma agree_delegate:
  assumes agree: "stakes_agree ops view (st, w)" and inj: "distinct_delegators ops"
    and key: "op_deriveKey ops n = Some k"
    and bound: "view w' (op_address ops k) i < 2 ^ 64 * wei_per_S"
    and view: "view w' = (\<lambda>a j. view w a j + (if a = op_address ops k \<and> j = i then stakeToWei v else 0))"
  shows "stakes_agree ops view (add_stake (n, i) v st, w')"
  unfolding stakes_agree_def
proof (intro allI impI)
  fix n' k' j
  assume key': "op_deriveKey ops n' = Some k'"
  have old: "view w (op_address ops k') j = stakeToWei (expected_stake st (n', j))"
    using agree key' by (simp add: stakes_agree_def)
  have "op_address ops k' = op_address ops k \<longleftrightarrow> n' = n"
    using inj key key' unfolding distinct_delegators_def by (metis option.inject)
  with old bound show "view (snd (add_stake (n, i) v st, w')) (op_address ops k') j =
      stakeToWei (expected_stake (fst (add_stake (n, i) v st, w')) (n', j))"
    by (auto simp: view expected_add_stake stakeToWei_add)
qed

lemma agree_undelegate:
  assumes agree: "stakes_agree ops view (st, w)" and inj: "distinct_delegators ops"
    and key: "op_deriveKey ops n = Some k"
    and amount: "x = (if v = 0 then view w (op_address ops k) i else stakeToWei v)" "x \<le> view w (op_address ops k) i"
    and view: "view w' = (\<lambda>a j. view w a j - (if a = op_address ops k \<and> j = i then x else 0))"
  shows "stakes_agree ops view (take_stake (n, i) v st, w')"
  unfolding stakes_agree_def
proof (intro allI impI)
  fix n' k' j
  assume key': "op_deriveKey ops n' = Some k'"
  have old: "view w (op_address ops k') j = stakeToWei (expected_stake st (n', j))"
    "view w (op_address ops k) i = stakeToWei (expected_stake st (n, i))"
    using agree key key' by (simp_all add: stakes_agree_def)
  have same: "op_address ops k' = op_address ops k \<longleftrightarrow> n' = n"
    using inj key key' unfolding distinct_delegators_def by (metis option.inject)
  have "v \<noteq> 0 \<Longrightarrow> v \<le> expected_stake st (n, i)"
    using amount old(2) by (simp add: stakeToWei_le)
  then have "stakeToWei (expected_stake (take_stake (n, i) v st) (n, i)) = stakeToWei (expected_stake st (n, i)) - x"
    using amount(1) old(2) by (simp add: expected_take_stake stakeToWei_diff min_absorb1)
  with old same show "view (snd (take_stake (n, i) v st, w')) (op_address ops k') j =
      stakeToWei (expected_stake (fst (take_stake (n, i) v st, w')) (n', j))"
    by (auto simp: view expected_take_stake)
qed

section \<open>Runs\<close>

text \<open>The laws of the registry, one by one.\<close>

lemma registry_laws:
  assumes "registry_contract registry addr view D"
  shows "view w a i < 2 ^ 64 * wei_per_S"
    and "rg_delegate registry i v k w = (None, w') \<Longrightarrow>
      view w' = (\<lambda>a j. view w a j + (if a = addr k \<and> j = i then stakeToWei v else 0))"
    and "rg_undelegateAs registry i v k w = (None, w') \<Longrightarrow>
      (let x = (if v = 0 then view w (addr k) i else stakeToWei v)
       in x \<le> view w (addr k) i \<and> view w' = (\<lambda>a j. view w a j - (if a = addr k \<and> j = i then x else 0)))"
    and "rg_fundDelegator registry a v w = (None, w') \<Longrightarrow> view w' = view w"
    and "rg_registerNewValidator registry v w = (Inr i, w') \<Longrightarrow> a \<in> D \<Longrightarrow> view w' a j = view w a j"
    and "rg_unregisterValidator registry i v w = (None, w') \<Longrightarrow> a \<in> D \<Longrightarrow> view w' a j = view w a j"
    and "rg_getDelegatorStake registry a i w = (Inr s, w') \<Longrightarrow> s = weiToStake (Some (view w a i))"
    and "rg_getDelegatorStake registry a i w = (r, w') \<Longrightarrow> view w' = view w"
proof -
  note laws = assms [unfolded registry_contract_def]
  note l1 = conjunct2 [OF laws] note l2 = conjunct2 [OF l1] note l3 = conjunct2 [OF l2]
  note l4 = conjunct2 [OF l3] note l5 = conjunct2 [OF l4]
  show "view w a i < 2 ^ 64 * wei_per_S" using conjunct1 [OF laws] by simp
  show "view w' = (\<lambda>a j. view w a j + (if a = addr k \<and> j = i then stakeToWei v else 0))"
    if "rg_delegate registry i v k w = (None, w')" using conjunct1 [OF l1] that by (elim allE impE)
  show "let x = (if v = 0 then view w (addr k) i else stakeToWei v)
       in x \<le> view w (addr k) i \<and> view w' = (\<lambda>a j. view w a j - (if a = addr k \<and> j = i then x else 0))"
    if "rg_undelegateAs registry i v k w = (None, w')" using conjunct1 [OF l2] that by (elim allE impE)
  show "view w' = view w" if "rg_fundDelegator registry a v w = (None, w')"
    using conjunct1 [OF l3] that by (elim allE impE)
  show "view w' a j = view w a j" if "rg_registerNewValidator registry v w = (Inr i, w')" "a \<in> D"
    using conjunct1 [OF l4] that by simp
  show "view w' a j = view w a j" if "rg_unregisterValidator registry i v w = (None, w')" "a \<in> D"
    using conjunct1 [OF l5] that by simp
  show "s = weiToStake (Some (view w a i))" if "rg_getDelegatorStake registry a i w = (Inr s, w')"
    using conjunct2 [OF l5] that by simp
  show "view w' = view w" if "rg_getDelegatorStake registry a i w = (r, w')"
    using conjunct2 [OF l5] that by simp
qed

lemma stake_run_invariant:
  assumes contract: "registry_contract registry (op_address ops) view (delegator_addresses ops)"
    and inj: "distinct_delegators ops" and quiet: "quiet ops (same_stakes ops view)"
  shows "run_invariant ops (same_stakes ops view) registry
           (\<lambda>s. run_state_wf ops (fst s) \<and> stakes_agree ops view s) (\<lambda>_. True)"
proof -
  note law = registry_laws [OF contract]
  have same: "same_stakes ops view w w'" if "\<And>a j. a \<in> delegator_addresses ops \<Longrightarrow> view w' a j = view w a j" for w w'
    using that by (simp add: same_stakes_def fun_eq_iff)
  have unseen: "stakes_agree ops view (st', w)"
    if "stakes_agree ops view (st, w)" "rs_expectedStakes st' = rs_expectedStakes st" for st st' w
    using that by (simp add: stakes_agree_def expected_stake_def)
  have nodes: "rs_expectedStakes (fold add_node xs st) = rs_expectedStakes st" for xs st
    by (induction xs arbitrary: st) (auto simp: add_node_def Let_def split: option.splits)
  show ?thesis
  proof (unfold_locales, goal_cases)
    case 1 show ?case by (rule quiet)
  next
    case (3 st w n key)
    have "rs_expectedStakes (new_delegator ops n key st) = rs_expectedStakes st" by (simp add: new_delegator_def)
    with 3 show ?case by (auto intro: wf_delegator elim: unseen)
  next
    case (4 st w a v w')
    from law(4) [OF 4(2)] have "same_stakes ops view w w'" by (simp add: same)
    with 4 agree_other show ?case by auto
  next
    case (6 st w n d i v w')
    then have key: "op_deriveKey ops n = Some (da_privateKey d)" using wf_delegator_entry by auto
    from 6 agree_delegate [OF _ inj key law(1) law(2)] wf_add_stake show ?case by auto
  next
    case (8 st w n d i v w')
    then have key: "op_deriveKey ops n = Some (da_privateKey d)" using wf_delegator_entry by auto
    from 8 agree_undelegate [OF _ inj key refl] law(3) wf_take_stake show ?case by (auto simp: Let_def)
  next
    case (10 st w i v w')
    from law(6) [OF 10(2)] have "same_stakes ops view w w'" by (rule same)
    with 10 agree_other show ?case by auto
  next
    case (12 st w a i r w')
    from law(8) [OF 12(2)] have "same_stakes ops view w w'" by (simp add: same)
    with 12 agree_other show ?case by auto
  next
    case 13 show ?case by (auto simp: closed_under_def intro: agree_other)
  next
    case 14 then show ?case by (auto intro: wf_add_nodes elim: unseen simp: nodes)
  next
    case 15 then show ?case by (auto intro: wf_remember elim: unseen)
  next
    case 16 then show ?case by (auto intro: wf_stop elim: unseen)
  next
    case 17 then show ?case by (auto intro: wf_apps elim: unseen)
  next
    case 18 then show ?case by (auto intro: wf_apps elim: unseen)
  next
    case (19 st w v i w')
    from law(5) [OF 19(2)] have "same_stakes ops view w w'" by (rule same)
    with 19 agree_other show ?case by auto
  qed simp_all
qed

lemma verify_stakes_silent:
  assumes "\<And>n i v w'. ((n, i), v) \<in> set kvs \<Longrightarrow> view w' = view w \<Longrightarrow>
      \<exists>d w''. gm_get (rs_delegators st) n = Some d \<and> rg_getDelegatorStake registry (da_address d) i w' = (Inr v, w'') \<and> view w'' = view w'"
  shows "\<exists>w''. eachA (verify_stake registry) kvs (st, w) = Some (Inr (map (\<lambda>_. None) kvs), (st, w'')) \<and> view w'' = view w"
  using assms
proof (induction kvs arbitrary: w)
  case (Cons kv kvs)
  obtain n i v where kv: "kv = ((n, i), v)" by (metis surj_pair)
  obtain d w1 where first: "gm_get (rs_delegators st) n = Some d"
      "rg_getDelegatorStake registry (da_address d) i w = (Inr v, w1)" "view w1 = view w"
    using Cons.prems [of n i v w] kv by auto
  obtain w2 where rest: "eachA (verify_stake registry) kvs (st, w1) = Some (Inr (map (\<lambda>_. None) kvs), (st, w2))" "view w2 = view w1"
    using Cons.IH [of w1] Cons.prems first(3) by auto
  have "verify_stake registry kv (st, w) = Some (Inr None, (st, w1))"
    using first by (simp add: kv verify_stake_def bindA_def getS_def world_def ret_def)
  with rest first(3) show ?case by (simp add: bindA_def ret_def)
qed (simp add: ret_def)

lemma stakes_verified:
  assumes contract: "registry_contract registry (op_address ops) view (delegator_addresses ops)"
    and wf: "run_state_wf ops st" and agree: "stakes_agree ops view (st, w)"
    and answers: "\<And>a i w. \<exists>v w'. rg_getDelegatorStake registry a i w = (Inr v, w')"
  shows "\<exists>w'. execVerifyStakes registry (st, w) = Some (Inr (), (st, w'))"
proof -
  have tracked: "\<exists>d w''. gm_get (rs_delegators st) n = Some d \<and>
      rg_getDelegatorStake registry (da_address d) i w' = (Inr v, w'') \<and> view w'' = view w'"
    if "((n, i), v) \<in> set (rs_expectedStakes st)" "view w' = view w" for n i v w'
  proof -
    from wf that(1) obtain d where d: "gm_get (rs_delegators st) n = Some d"
      by (fastforce simp: run_state_wf_def list_all_iff)
    from wf that(1) have "expected_stake st (n, i) = v"
      by (simp add: run_state_wf_def expected_stake_def gm_get_Some_iff [THEN iffD2])
    with agreeD [OF agree, of n _ i] wf_delegator_entry [OF wf d] have "view w (da_address d) i = stakeToWei v"
      by metis
    with answers [of "da_address d" i w'] registry_laws(7,8) [OF contract] d that(2) show ?thesis
      by (fastforce simp: weiToStake_stakeToWei)
  qed
  obtain w' where "eachA (verify_stake registry) (rs_expectedStakes st) (st, w) =
      Some (Inr (map (\<lambda>_. None) (rs_expectedStakes st)), (st, w'))"
    using verify_stakes_silent [of "rs_expectedStakes st" view w st registry] tracked by blast
  then show ?thesis
    by (simp add: execVerifyStakes_def bindA_def getS_def ret_def Let_def map_filter_def)
qed

text \<open>
  C1: The executor's bookkeeping of stakes refines the SFC contract. If the contract adds and removes
  what successful delegations and undelegations say, different delegator names have different accounts
  that are no validator's, the other operations leave the stakes of delegators alone, and delegators
  start without stake, then after every successful run of any scenario each tracked expected stake, a
  64-bit number of whole tokens that has never wrapped around, is the stake on the chain to the wei;
  and a verification of the stakes then passes whenever the chain answers.
\<close>

theorem stake_bookkeeping_exact:
  assumes "sfc_contract c view"
    and dial: "\<And>w ok w'. dial w = (ok, w') \<Longrightarrow> view w' = view w"
    and addr: "op_address ops = sfc_addr c"
    and others: "\<And>i. sfc_addr c (sfc_fakeKey c i) \<notin> delegator_addresses ops"
    and inj: "distinct_delegators ops"
    and quiet: "quiet ops (same_stakes ops view)"
    and empty: "\<And>a i. a \<in> delegator_addresses ops \<Longrightarrow> view w a i = 0"
    and run: "runWithObserver validate ops (netBasedValidatorRegistry dial c) scenario genesis w = Some (None, seen, st, w')"
  shows "(\<forall>((n, i), v) \<in> set (rs_expectedStakes st).
            \<exists>d. gm_get (rs_delegators st) n = Some d \<and> view w' (da_address d) i = stakeToWei v) \<and>
         ((\<forall>a i w. \<exists>v. fst (rg_getDelegatorStake (netBasedValidatorRegistry dial c) a i w) = Inr v) \<longrightarrow>
            (\<exists>w''. execVerifyStakes (netBasedValidatorRegistry dial c) (st, w') = Some (Inr (), (st, w''))))"
proof -
  let ?r = "netBasedValidatorRegistry dial c"
  let ?ops = "with_timeout ops (op_now ops w + defaultScenarioTimeout)"
  have contract: "registry_contract ?r (op_address ops) view (delegator_addresses ops)"
    unfolding addr by (rule net_registry_contract) fact+
  have sel: "delegator_addresses ?ops = delegator_addresses ops" "op_address ?ops = op_address ops"
    "distinct_delegators ?ops = distinct_delegators ops" "run_state_wf ?ops = run_state_wf ops"
    "stakes_agree ?ops = stakes_agree ops" "same_stakes ?ops = same_stakes ops"
    by (simp_all add: fun_eq_iff delegator_addresses_def distinct_delegators_def run_state_wf_def stakes_agree_def
        same_stakes_def with_timeout_def)
  note invariant = stake_run_invariant [where ops = ?ops, unfolded sel, OF contract inj]
  have "stakes_agree ops view (initial_state genesis, w)"
    using empty by (auto simp: stakes_agree_def expected_stake_def initial_state_def gm_get_def delegator_addresses_def)
  with run run_invariant.run_steps_keeps [OF invariant] wf_initial quiet
  have ok: "run_state_wf ops st" "stakes_agree ops view (st, w')"
    by (fastforce simp: runWithObserver_def Let_def split: if_splits)+
  have tracked: "\<exists>d. gm_get (rs_delegators st) n = Some d \<and> view w' (da_address d) i = stakeToWei v"
    if "((n, i), v) \<in> set (rs_expectedStakes st)" for n i v
  proof -
    from ok(1) that obtain d where d: "gm_get (rs_delegators st) n = Some d"
      by (fastforce simp: run_state_wf_def list_all_iff)
    from ok(1) that have "expected_stake st (n, i) = v"
      by (simp add: run_state_wf_def expected_stake_def gm_get_Some_iff [THEN iffD2])
    with agreeD [OF ok(2), of n _ i] wf_delegator_entry [OF ok(1) d] d show ?thesis by metis
  qed
  have "\<exists>w''. execVerifyStakes ?r (st, w') = Some (Inr (), (st, w''))"
    if answers: "\<forall>a i w. \<exists>v. fst (rg_getDelegatorStake ?r a i w) = Inr v"
    by (rule stakes_verified [OF contract ok]) (metis answers prod.collapse)
  with tracked show ?thesis by fastforce
qed

section \<open>The example\<close>

lemma lg_view_bounds: "0 \<le> lg_view w a i \<and> lg_view w a i < 2 ^ 64 * wei_per_S"
  using uint_bounded [of "lg_stake w a i"] wei_pos by (simp add: lg_view_def stakeToWei_def)

lemma lg_add_view:
  assumes "lg_add a i v w = (Successful, w')"
  shows "- v \<le> lg_view w a i \<and> lg_view w' = (\<lambda>b j. lg_view w b j + (if b = a \<and> j = i then v else 0))"
proof -
  define x where "x = uint (lg_stake w a i) + v div wei_per_S"
  from assms have ok: "v mod wei_per_S = 0" "0 \<le> x" "x < 2 ^ 64"
    and w': "w' = w\<lparr>lg_stakes := gm_set (a, i) (word_of_int x) (lg_stakes w)\<rparr>"
    by (auto simp: lg_add_def Let_def x_def split: if_splits)
  from ok(1) have v: "v = v div wei_per_S * wei_per_S" by (metis add.right_neutral div_mult_mod_eq)
  from ok(2,3) have "uint (word_of_int x :: u64) = x" by (simp add: uint_word_of_int_eq take_bit_int_eq_self)
  then have new: "lg_view w' a i = lg_view w a i + v"
    by (subst v) (simp add: lg_view_def lg_stake_def w' gm.get_put stakeToWei_def x_def algebra_simps split: option.splits)
  moreover have "0 \<le> lg_view w' a i" using lg_view_bounds by simp
  moreover have "lg_view w' b j = lg_view w b j" if "\<not> (b = a \<and> j = i)" for b j
    using that by (auto simp: lg_view_def lg_stake_def w' gm.get_put)
  ultimately show ?thesis by (auto simp: fun_eq_iff)
qed

lemma lg_sfc_contract: "sfc_contract lg_sfc lg_view"
proof -
  have "lg_view (w\<lparr>lg_last := n\<rparr>) = lg_view w" for w n by (simp add: lg_view_def lg_stake_def fun_eq_iff)
  then show ?thesis
    unfolding sfc_contract_def
    using lg_view_bounds lg_add_view by (fastforce simp: lg_sfc_def)
qed

lemma lg_keys:
  "op_deriveKey lg_ops n = (if n = ''alice'' then Some 7 else if n = ''bob'' then Some 8 else None)"
  "op_address lg_ops = ucast"
  by (simp_all add: lg_ops_def)

lemma lg_delegators:
  assumes "a \<in> delegator_addresses lg_ops"
  shows "a = 7 \<or> a = 8"
proof -
  from assms obtain n key where a: "a = ucast key" and key: "op_deriveKey lg_ops n = Some key"
    unfolding delegator_addresses_def lg_keys(2) by (elim CollectE exE conjE)
  from key have "key = 7 \<or> key = 8" by (simp add: lg_keys(1) split: if_splits)
  with a show ?thesis by auto
qed

theorem stake_bookkeeping_exact_witness:
  "\<exists>seen st w d. lg_run = Some (None, seen, st, w) \<and> gm_get (rs_delegators st) ''alice'' = Some d \<and>
     lg_view w (da_address d) 1 = stakeToWei 3 \<and> (\<exists>w'. execVerifyStakes lg_registry (st, w) = Some (Inr (), (st, w')))"
proof -
  obtain seen st w where run: "lg_run = Some (None, seen, st, w)" "rs_expectedStakes st = [((''alice'', 1), 3), ((''bob'', 1), 0)]"
    by (rule lg_run_ends)
  have quiet: "quiet lg_ops (same_stakes lg_ops lg_view)"
    by (simp add: quiet_def stays_def same_stakes_def lg_ops_def lg_view_def lg_stake_def fun_eq_iff)
  have inj: "distinct_delegators lg_ops"
    unfolding distinct_delegators_def lg_keys by (intro allI impI) (simp split: if_splits)
  have addr: "op_address lg_ops = sfc_addr lg_sfc" by (simp add: lg_ops_def lg_sfc_def)
  have others: "sfc_addr lg_sfc (sfc_fakeKey lg_sfc i) \<notin> delegator_addresses lg_ops" for i
    using lg_delegators [of 0] by (auto simp: lg_sfc_def)
  have empty: "lg_view lg_start a i = 0" for a i by (simp add: lg_view_def lg_stake_def lg_start_def gm_get_def)
  have answers: "\<forall>a i w. \<exists>v. fst (rg_getDelegatorStake lg_registry a i w) = Inr v"
    by (simp add: lg_registry_def netBasedValidatorRegistry_def dialled_def GetDelegatorStake_def lg_sfc_def)
  note exact = stake_bookkeeping_exact [OF lg_sfc_contract _ addr others inj quiet empty run(1) [unfolded lg_run_def lg_registry_def]]
  from exact answers run(2) obtain d w' where "gm_get (rs_delegators st) ''alice'' = Some d" "lg_view w (da_address d) 1 = stakeToWei 3"
      "execVerifyStakes lg_registry (st, w) = Some (Inr (), (st, w'))"
    by (auto simp: lg_registry_def)
  with run(1) show ?thesis by blast
qed

end
