(* ===== verification/Scenario_Properties.thy ===== *)
theory Scenario_Properties
  imports Executor_Model
begin

text \<open>
  The semantic check of a scenario against what the executor makes of it and what the checkers accept.
\<close>

section \<open>The configuration of a check\<close>

lemma check_config_get:
  "cfg_get (Some (check_config c)) ''tolerance'' =
     (if ck_Function c = ''blockHeights'' then None else map_option VInt (ck_Tolerance c))"
  "cfg_get (Some (check_config c)) ''duration'' = map_option VInt64 (ck_Duration c)"
  "cfg_get (Some (check_config c)) ''ceiling'' = map_option (\<lambda>x. VInt (float_to_int x)) (ck_Ceiling c)"
  "cfg_get (Some (check_config c)) ''failing'' = (if ck_Failing c then Some (VBool True) else None)"
  by (auto simp: check_config_def cfg_get_def gm_get_def map_add_def split: option.splits)

text \<open>
  The window an observation check waits for: its duration, or its tolerance in samples of a second, or
  ten samples.
\<close>

definition requested_window :: "CheckSpec \<Rightarrow> duration" where
  "requested_window c =
     (case ck_Duration c of
        Some d \<Rightarrow> d
      | None \<Rightarrow> (case ck_Tolerance c of Some t \<Rightarrow> t * 1000000000 | None \<Rightarrow> 10000000000))"

definition exec_config :: "CheckSpec \<Rightarrow> CheckerConfig" where
  "exec_config c = (if check_config c = [] then None else Some (check_config c))"

abbreviation default_window :: window_config where
  "default_window \<equiv> \<lparr>wc_toleranceSamples = defaultToleranceSamples, wc_duration = 0\<rparr>"

lemma configured_window:
  assumes "ck_Function c \<noteq> ''blockHeights''"
  shows "configure_window (exec_config c) default_window =
           Some \<lparr>wc_toleranceSamples = (case ck_Tolerance c of None \<Rightarrow> 10 | Some t \<Rightarrow> t),
                 wc_duration = (case ck_Duration c of None \<Rightarrow> 0 | Some d \<Rightarrow> d)\<rparr>"
proof (cases "check_config c = []")
  case True
  with assms have "ck_Tolerance c = None" "ck_Duration c = None"
    by (auto simp: check_config_def split: option.splits)
  with True show ?thesis by (simp add: exec_config_def configure_window_def defaultToleranceSamples_def)
next
  case False
  with assms show ?thesis
    by (auto simp: exec_config_def configure_window_def override_def check_config_get defaultToleranceSamples_def
        split: option.splits)
qed

lemma sample_window:
  "2 \<le> t \<Longrightarrow> t \<le> 9223372036 \<Longrightarrow> wrap64 (t * 1000000000) = t * 1000000000"
  by (rule wrap64_id) simp_all

text \<open>
  A scenario that passes the semantic check never starts an observation check that is bound to
  fail: for each of the checks on gas rate, halted and produced blocks, the configuration that the
  executor builds is one the checker takes without a panic, and the observation window it then asks
  for is accepted and is the duration the scenario gave, or its tolerance in samples of a second, or
  the default of ten. The tolerance may be up to \<open>9223372036\<close> samples; above, the product overflows.
\<close>

theorem validated_window_accepted:
  assumes valid: "check_spec validate i c = []" and f: "ck_Function c \<in> set observationWindowChecks"
    and tolerance: "\<And>t. ck_Tolerance c = Some t \<Longrightarrow> t \<le> 9223372036"
  shows "\<exists>wc. configure_window (exec_config c) default_window = Some wc \<and>
           (\<forall>ceil. \<exists>g. GasRate_Configure (exec_config c) \<lparr>gr_ceiling = ceil, gr_window = default_window\<rparr> = Some g \<and>
              gr_window g = wc) \<and>
           observationWindow (wc_duration wc) (wc_toleranceSamples wc) = Inr (requested_window c)"
proof -
  from f have fn: "ck_Function c \<noteq> ''blockHeights''" "ck_Function c \<noteq> []"
    by (auto simp: observationWindowChecks_def)
  let ?wc = "\<lparr>wc_toleranceSamples = (case ck_Tolerance c of None \<Rightarrow> 10 | Some t \<Rightarrow> t),
                 wc_duration = (case ck_Duration c of None \<Rightarrow> 0 | Some d \<Rightarrow> d)\<rparr>"
  have window: "observationWindow (wc_duration ?wc) (wc_toleranceSamples ?wc) = Inr (requested_window c)"
    using valid f fn tolerance sample_window sample_window [of 10]
    by (auto simp: check_spec_def observationWindow_def requested_window_def blockSampleInterval_def
        minObservationSamples_def MinObservationDuration_def MinObservationSamples_def Let_def
        split: option.splits if_splits)
  have "\<exists>g. GasRate_Configure (exec_config c) \<lparr>gr_ceiling = ceil, gr_window = default_window\<rparr> = Some g \<and> gr_window g = ?wc" for ceil
    using configured_window [OF fn(1)]
    by (auto simp: GasRate_Configure_def exec_config_def check_config_get configure_window_def split: option.splits if_splits)
  with configured_window [OF fn(1)] window show ?thesis by auto
qed

theorem validated_window_accepted_witness:
  "check_spec (\<lambda>_. True) 1 (no_check\<lparr>ck_Function := ''blocksProduced'', ck_Tolerance := Some 2, ck_Failing := True\<rparr>) = [] \<and>
   (\<exists>wc. configure_window (exec_config (no_check\<lparr>ck_Function := ''blocksProduced'', ck_Tolerance := Some 2, ck_Failing := True\<rparr>)) default_window = Some wc \<and>
      observationWindow (wc_duration wc) (wc_toleranceSamples wc) = Inr 2000000000)"
proof -
  let ?c = "no_check\<lparr>ck_Function := ''blocksProduced'', ck_Tolerance := Some 2, ck_Failing := True\<rparr>"
  have "check_spec (\<lambda>_. True) 1 ?c = []" by code_simp
  moreover have "ck_Function ?c \<in> set observationWindowChecks" by code_simp
  moreover have "requested_window ?c = 2000000000" by (simp add: requested_window_def no_check_def)
  ultimately show ?thesis
    using validated_window_accepted [of "\<lambda>_. True" 1 ?c] by (fastforce simp: no_check_def)
qed

end
