(* ===== verification/Genesis_Properties.thy ===== *)
theory Genesis_Properties
  imports Executor_Properties
begin

text \<open>
  From a scenario to its genesis: the bootstrap validators of \<open>driver/norma/run.go\<close>, and that the genesis
  file, the identifiers handed to the executor and the execution of the first step fit together.
\<close>

section \<open>Bootstrap validators\<close>

datatype bootstrap_error = NoSteps | FirstNotStartNode string | FirstNotValidator string

definition extractBootstrapValidators :: "Scenario \<Rightarrow> bootstrap_error + (Validator list \<times> (string, int) gomap)" where
  "extractBootstrapValidators scenario =
     (case sc_Steps scenario of
        [] \<Rightarrow> Inl NoSteps
      | step # _ \<Rightarrow>
          if st_Function step \<noteq> ''startNode'' then Inl (FirstNotStartNode (st_Function step))
          else if st_NodeType step \<noteq> ''validator'' then Inl (FirstNotValidator (st_NodeType step))
          else
            let instances = (case st_Instances step of None \<Rightarrow> 1 | Some n \<Rightarrow> n);
                stake = (case st_Stake step of None \<Rightarrow> 0 | Some s \<Rightarrow> s)
            in Inr ([\<lparr>vd_Name = st_Identifier step, vd_Failing = False, vd_Instances = instances,
                      vd_ImageName = ResolveClientImageName (st_ImageName step), vd_Stake = stake, vd_ExtraArguments = []\<rparr>],
                    fold (\<lambda>j. gm_set (instance_name (st_Identifier step) (nat instances) j) (int j + 1)) [0..<nat instances] []))"

definition collectClientImages :: "Scenario \<Rightarrow> string list" where
  "collectClientImages scenario =
     map (\<lambda>step. ResolveClientImageName (st_ImageName step)) (filter (\<lambda>step. st_Function step = ''startNode'') (sc_Steps scenario))"

section \<open>Names and identifiers\<close>

lemma itoa_inj: "itoa i = itoa j \<Longrightarrow> i = j"
  by (metis itoa_val)

lemma instance_name_inj: "i < n \<Longrightarrow> j < n \<Longrightarrow> instance_name name n i = instance_name name n j \<Longrightarrow> i = j"
  by (auto simp: instance_name_def itoa_inj split: if_splits)

lemma fold_gm_set_get:
  "distinct (map f xs) \<Longrightarrow> x \<in> set xs \<Longrightarrow> gm_get (fold (\<lambda>x. gm_set (f x) (g x)) xs m) (f x) = Some (g x)"
proof (induction xs arbitrary: m)
  case (Cons y ys)
  have other: "gm_get (fold (\<lambda>x. gm_set (f x) (g x)) ys m) k = gm_get m k" if "k \<notin> f ` set ys" for k m
    using that by (induction ys arbitrary: m) (auto simp: gm.get_put)
  from Cons show ?case
    by (cases "x = y") (auto simp: other gm.get_put)
qed simp

lemma initial_ids: "gm_wf m \<Longrightarrow> gm_get (rs_validatorIds (initial_state m)) k = gm_get m k"
proof -
  have "gm_wf xs \<Longrightarrow> gm_get (fold (\<lambda>(l, i). gm_set l i) xs acc) k = (case gm_get xs k of Some i \<Rightarrow> Some i | None \<Rightarrow> gm_get acc k)"
    for xs and acc :: "(string, int) gomap"
  proof (induction xs arbitrary: acc)
    case (Cons x xs)
    obtain a b where x: "x = (a, b)" by (cases x)
    with Cons.prems have "gm_wf xs" "map_of xs a = None" by (auto simp: gm_wf_def map_of_eq_None_iff)
    then show ?case using Cons.IH by (simp add: x gm_get_def [of "_ # _"] gm_get_def [of xs] gm.get_put split: option.splits)
  qed (simp add: gm_get_def)
  moreover assume "gm_wf m"
  ultimately show ?thesis by (simp add: initial_state_def gm_get_def [of "[]"] split: option.splits)
qed

lemma fold_gm_set_wf: "gm_wf m \<Longrightarrow> gm_wf (fold (\<lambda>x. gm_set (f x) (g x)) xs m)"
  by (induction xs arbitrary: m) (auto simp: gm.wf_put)

section \<open>The first step needs no registration\<close>

lemma eachA_pure:
  "(\<And>x. x \<in> set xs \<Longrightarrow> f (h x) s = Some (Inr (g x), s)) \<Longrightarrow> eachA f (map h xs) s = Some (Inr (map g xs), s)"
  by (induction xs) (simp_all add: ret_def bindA_def)

lemma bootstrap_ids:
  assumes boot: "extractBootstrapValidators scenario = Inr (validators, ids)" and steps: "sc_Steps scenario = step # rest"
    and j: "j < nat n" and n: "n = (case st_Instances step of None \<Rightarrow> 1 | Some k \<Rightarrow> k)"
  shows "gm_get (rs_validatorIds (initial_state ids)) (instance_name (st_Identifier step) (nat n) j) = Some (int j + 1)"
proof -
  from boot steps n have ids: "ids = fold (\<lambda>j. gm_set (instance_name (st_Identifier step) (nat n) j) (int j + 1)) [0..<nat n] []"
    by (simp add: extractBootstrapValidators_def Let_def split: if_splits)
  have "distinct (map (instance_name (st_Identifier step) (nat n)) [0..<nat n])"
    by (auto simp: distinct_map inj_on_def intro: instance_name_inj)
  with j show ?thesis
    by (subst initial_ids) (auto simp: ids gm_wf_def [of "[]"] intro: fold_gm_set_get fold_gm_set_wf)
qed


text \<open>Three bootstrap validators with a stake of seven tokens each.\<close>

definition ex_bootstrap :: Scenario where
  "ex_bootstrap =
     \<lparr>sc_Name = ''boot'', sc_Description = ''three validators'', sc_InitialRules = no_patch, sc_DisableEndChecks = True,
      sc_Steps = [no_step\<lparr>st_Function := ''startNode'', st_Identifier := ''v'', st_NodeType := ''validator'',
        st_Instances := Some 3, st_Stake := Some 7\<rparr>]\<rparr>"

lemma ex_bootstrap_valid:
  "Scenario_Check (\<lambda>_. True) ex_bootstrap = []"
  "extractBootstrapValidators ex_bootstrap =
     Inr ([\<lparr>vd_Name = ''v'', vd_Failing = False, vd_Instances = 3, vd_ImageName = ''sonic:local'', vd_Stake = 7,
            vd_ExtraArguments = []\<rparr>], [(''v-0'', 1), (''v-1'', 2), (''v-2'', 3)])"
  by code_simp+


section \<open>The registry suits the oldest client\<close>

definition print_version :: "nat \<Rightarrow> nat \<Rightarrow> nat \<Rightarrow> string \<Rightarrow> string" where
  "print_version major minor patch suffix = itoa major @ ''.'' @ itoa minor @ ''.'' @ itoa patch @ suffix"

lemma take_number_itoa:
  assumes "n < 2 ^ 63" and "rest = [] \<or> \<not> is_digit (hd rest)"
  shows "take_number (itoa n @ rest) = Some (int n, rest)"
proof -
  have "takeWhile is_digit (itoa n @ rest) = itoa n \<and> dropWhile is_digit (itoa n @ rest) = rest"
    using itoa_digits [of n] assms(2) by (cases rest) (auto simp: list_all_iff takeWhile_append dropWhile_append)
  with itoa_digits [of n] assms(1) show ?thesis by (simp add: take_number_def clamp_Atoi_def itoa_val)
qed

lemma parse_print_version:
  assumes "a < 2 ^ 63" "b < 2 ^ 63" "c < 2 ^ 63" "take_suffix suffix = Some pre"
  shows "parseClientVersion (print_version a b c suffix) = Some (ClientVersion (int a) (int b) (int c) pre)"
proof -
  have "suffix = [] \<or> \<not> is_digit (hd suffix)"
    using assms(4) by (auto simp: take_suffix_def is_digit_def split: list.splits if_splits)
  with assms show ?thesis
    by (simp add: parseClientVersion_def print_version_def take_number_itoa take_dot_def is_digit_def)
qed

lemma legacy_versions_iff:
  "legacy_versions vs legacy = Inr r \<longleftrightarrow>
     (\<forall>v\<in>set vs. parseClientVersion v \<noteq> None) \<and>
     (r \<longleftrightarrow> legacy \<or> (\<exists>v\<in>set vs. the (parseClientVersion v) < firstExtendedRegistryVersion))"
  by (induction vs arbitrary: legacy) (auto simp: less_clientVersion_def split: option.splits)

text \<open>
  The genesis of a network installs the subsidies registry that its oldest client understands:
  if all reported versions can be read, it is the legacy one exactly if the least of them, in the
  order of releases in which a pre-release precedes its release, is before 2.2.0; and a version printed
  as the client does is read back as the numbers it was printed from.
\<close>

theorem registry_suits_oldest:
  assumes readable: "map parseClientVersion reported = map Some versions" and some: "versions \<noteq> []"
  shows "subsidiesRegistryCode (Some legacy) extended reported =
           Inr (if Min (set versions) < ClientVersion 2 2 0 False then legacy else extended) \<and>
         (\<forall>a b c suffix pre. a < 2 ^ 63 \<and> b < 2 ^ 63 \<and> c < 2 ^ 63 \<and> take_suffix suffix = Some pre \<longrightarrow>
            parseClientVersion (print_version a b c suffix) = Some (ClientVersion (int a) (int b) (int c) pre))"
proof
  have vs: "versions = map (the \<circ> parseClientVersion) reported" "\<forall>v\<in>set reported. parseClientVersion v \<noteq> None"
    using readable by (induction reported arbitrary: versions) (auto simp: Cons_eq_map_conv map_eq_Cons_conv)
  have "Min (set versions) < ClientVersion 2 2 0 False \<longleftrightarrow> (\<exists>v\<in>set versions. v < ClientVersion 2 2 0 False)"
    using some by (simp add: Min_less_iff)
  then have "legacy_versions reported False = Inr (Min (set versions) < ClientVersion 2 2 0 False)"
    using vs by (simp add: legacy_versions_iff firstExtendedRegistryVersion_def)
  then show "subsidiesRegistryCode (Some legacy) extended reported =
      Inr (if Min (set versions) < ClientVersion 2 2 0 False then legacy else extended)"
    by (simp add: subsidiesRegistryCode_def)
qed (use parse_print_version in blast)

theorem registry_suits_oldest_witness:
  "map parseClientVersion [''2.3.1'', ''2.2.0-rc.1''] = map Some [ClientVersion 2 3 1 False, ClientVersion 2 2 0 True] \<and>
   subsidiesRegistryCode (Some ''legacy'') ''extended'' [''2.3.1'', ''2.2.0-rc.1''] = Inr ''legacy'' \<and>
   parseClientVersion (print_version 2 2 0 ''-rc.1'') = Some (ClientVersion (int 2) (int 2) (int 0) True)"
proof -
  have read: "map parseClientVersion [''2.3.1'', ''2.2.0-rc.1''] = map Some [ClientVersion 2 3 1 False, ClientVersion 2 2 0 True]"
    by code_simp
  have "Min (set [ClientVersion 2 3 1 False, ClientVersion 2 2 0 True]) < ClientVersion 2 2 0 False" by code_simp
  moreover have "take_suffix ''-rc.1'' = Some True" by code_simp
  ultimately show ?thesis
    using registry_suits_oldest [OF read, of "''legacy''" "''extended''"] read by simp
qed

section \<open>The number of validators\<close>

text \<open>
  The genesis can be generated exactly for one to a hundred validators, if their keys are generated as
  asked for: the semantic check of a scenario has no upper bound, and one more validator panics.
\<close>

lemma genesis_validators_bounded:
  assumes fake: "\<And>n. length (fake n) = n" and code: "subsidiesRegistryCode lc ec versions = Inr c"
  shows "(\<exists>g. GenerateJsonGenesis infra ra lc ec fake txs stakes rules versions = Inr g) \<longleftrightarrow>
           1 \<le> length stakes \<and> length stakes \<le> 100"
  using fake [of maxValidators]
  by (auto simp: GenerateJsonGenesis_def code maxValidators_def Let_def take_eq_Nil Suc_le_eq)

lemma genesis_delegation:
  assumes fake: "\<And>n. map fv_ID (fake n) = map (\<lambda>k. int k + 1) [0..<n]" and j: "j < length stakes" "length stakes \<le> 100"
  shows "dg_ValidatorID (genesis_delegations stakes (take (length stakes) (fake maxValidators)) ! j) = int j + 1 \<and>
         dg_Stake (genesis_delegations stakes (take (length stakes) (fake maxValidators)) ! j) = stakeToWei (stakes ! j)"
proof -
  have len: "length (fake maxValidators) = 100" using arg_cong [OF fake, of length] by (simp add: maxValidators_def)
  have "fv_ID (fake maxValidators ! j) = int j + 1"
    using arg_cong [OF fake [of maxValidators], of "\<lambda>l. l ! j"] j len by (simp add: maxValidators_def)
  with j len show ?thesis by (simp add: genesis_delegations_def)
qed

end
