(* ===== verification/Network_Local.thy ===== *)
theory Network_Local
  imports Executor_Model
begin

text \<open>
  Retries (\<open>driver/network/retry.go\<close>), epochs (\<open>driver/network/epoch.go\<close>), rules (\<open>driver/network/rules.go\<close>)
  and the local network (\<open>driver/network/local/local.go\<close>): its registry of nodes with the suspended ones,
  the applications, the listeners, and the choice of a node to talk to. Containers, nodes and
  connections are operations on a world. Go's iteration over a map is in the order of the list.
\<close>

section \<open>Retries\<close>

definition DefaultRetryAttempts :: nat where
  "DefaultRetryAttempts = 180"

datatype retry_error = RetryCancelled | PermanentError string | TransientError string

fun is_permanent :: "retry_error \<Rightarrow> bool" where
  "is_permanent (PermanentError _) = True" | "is_permanent _ = False"

text \<open>
  \<open>attempt\<close> is one call of the function with its value and error, \<open>stop\<close> whether the context is done, and
  \<open>sleep\<close> the wait between two attempts, which the context ends early.
\<close>

fun retry_loop ::
  "('w \<Rightarrow> bool) \<Rightarrow> ('w \<Rightarrow> 'w) \<Rightarrow> ('w \<Rightarrow> ('a \<times> retry_error option) \<times> 'w) \<Rightarrow> nat \<Rightarrow> 'a \<Rightarrow> retry_error option \<Rightarrow> 'w \<Rightarrow>
     ('a \<times> retry_error option) \<times> 'w" where
  "retry_loop stop sleep attempt 0 out err w = ((out, err), w)"
| "retry_loop stop sleep attempt (Suc n) out err w =
     (if stop w then ((out, Some RetryCancelled), w)
      else
        let ((out1, err1), w1) = attempt w
        in case err1 of
             None \<Rightarrow> ((out1, None), w1)
           | Some e \<Rightarrow>
               if is_permanent e then ((out1, Some e), w1)
               else
                 let w2 = sleep w1
                 in if stop w2 then ((out1, Some RetryCancelled), w2)
                    else retry_loop stop sleep attempt n out1 (Some e) w2)"

definition RetryReturn ::
  "('w \<Rightarrow> bool) \<Rightarrow> nat \<Rightarrow> ('w \<Rightarrow> 'w) \<Rightarrow> ('w \<Rightarrow> ('a \<times> retry_error option) \<times> 'w) \<Rightarrow> 'a \<Rightarrow> 'w \<Rightarrow> ('a \<times> retry_error option) \<times> 'w" where
  "RetryReturn stop numAttempts sleep attempt zero w = retry_loop stop sleep attempt numAttempts zero None w"

definition Retry ::
  "('w \<Rightarrow> bool) \<Rightarrow> nat \<Rightarrow> ('w \<Rightarrow> 'w) \<Rightarrow> ('w \<Rightarrow> retry_error option \<times> 'w) \<Rightarrow> 'w \<Rightarrow> retry_error option \<times> 'w" where
  "Retry stop numAttempts sleep attempt w =
     (let ((_, err), w1) = RetryReturn stop numAttempts sleep (\<lambda>w. let (e, w1) = attempt w in (((), e), w1)) () w in (err, w1))"

lemma retry_loop_success:
  "retry_loop stop sleep attempt n out err w = ((out', None), w') \<Longrightarrow>
     (n = 0 \<and> err = None \<and> out' = out \<and> w' = w) \<or> (\<exists>w0. \<not> stop w0 \<and> attempt w0 = ((out', None), w'))"
proof (induction n arbitrary: out err w)
  case (Suc n)
  then show ?case by (auto simp: Let_def split: prod.splits if_splits option.splits)
qed simp

section \<open>Epochs and rules\<close>

record 'w epoch_ops =
  ep_now :: "'w \<Rightarrow> gotime"
  ep_ctxDone :: "'w \<Rightarrow> bool"
  ep_sleep :: "duration \<Rightarrow> 'w \<Rightarrow> 'w"
  ep_currentEpoch :: "'w \<Rightarrow> u64 option \<times> 'w"
  ep_AdvanceEpochs :: "int \<Rightarrow> 'w \<Rightarrow> tx_result \<times> 'w"
  ep_logSummary :: "'w \<Rightarrow> 'w"

datatype epoch_error = EpochRead | EpochTx net_error | EpochAborted | EpochTimeout

text \<open>Waiting until the epoch satisfies a condition, for at most a minute from \<open>start\<close> on.\<close>

partial_function (option) epoch_loop ::
  "'w epoch_ops \<Rightarrow> (u64 \<Rightarrow> bool) \<Rightarrow> gotime \<Rightarrow> 'w \<Rightarrow> (epoch_error option \<times> 'w) option" where
  "epoch_loop ops reached start w =
     (if \<not> ep_now ops w - start < 60000000000 then Some (Some EpochTimeout, w)
      else if ep_ctxDone ops w then Some (Some EpochAborted, w)
      else case ep_currentEpoch ops w of
             (r, w1) \<Rightarrow>
               (case r of
                  None \<Rightarrow> Some (Some EpochRead, w1)
                | Some newEpoch \<Rightarrow>
                    if reached newEpoch then Some (None, ep_logSummary ops w1)
                    else
                      let w2 = ep_sleep ops 100000000 w1
                      in if ep_ctxDone ops w2 then Some (Some EpochAborted, w2) else epoch_loop ops reached start w2))"

definition AdvanceEpoch :: "'w epoch_ops \<Rightarrow> int \<Rightarrow> 'w \<Rightarrow> (epoch_error option \<times> 'w) option" where
  "AdvanceEpoch ops epochIncrement w =
     (case ep_currentEpoch ops w of
        (None, w1) \<Rightarrow> Some (Some EpochRead, w1)
      | (Some currentEpoch, w1) \<Rightarrow>
          (case tx_done (ep_AdvanceEpochs ops epochIncrement w1) of
             (Some e, w2) \<Rightarrow> Some (Some (EpochTx e), w2)
           | (None, w2) \<Rightarrow>
               epoch_loop ops (\<lambda>newEpoch. currentEpoch + word_of_int epochIncrement \<le> newEpoch) (ep_now ops w2) w2))"

definition WaitForEpochChange :: "'w epoch_ops \<Rightarrow> 'w \<Rightarrow> (epoch_error option \<times> 'w) option" where
  "WaitForEpochChange ops w =
     (case ep_currentEpoch ops w of
        (None, w1) \<Rightarrow> Some (Some EpochRead, w1)
      | (Some currentEpoch, w1) \<Rightarrow> epoch_loop ops (\<lambda>newEpoch. currentEpoch < newEpoch) (ep_now ops w1) w1)"

lemma epoch_loop_returns:
  assumes "\<And>d w. ep_now ops w + d \<le> ep_now ops (ep_sleep ops d w)"
    and "\<And>w r w'. ep_currentEpoch ops w = (r, w') \<Longrightarrow> ep_now ops w \<le> ep_now ops w'"
  shows "epoch_loop ops reached start w \<noteq> None"
proof (induction "nat (start + 60000000000 - ep_now ops w)" arbitrary: w rule: less_induct)
  case less
  have "epoch_loop ops reached start (ep_sleep ops 100000000 w1) \<noteq> None"
    if "ep_now ops w - start < 60000000000" "ep_currentEpoch ops w = (r, w1)" for r w1
    using that assms(1) [of w1 100000000] assms(2) [OF that(2)] by (intro less) linarith
  then show ?case
    by (subst epoch_loop.simps) (auto simp: Let_def split: prod.splits option.splits)
qed

text \<open>\<open>ApplyNetworkRules\<close>: \<open>marshal\<close> is the JSON encoding of the patch, \<open>update\<close> the transaction.\<close>

definition ApplyNetworkRules ::
  "(NetworkRulesPatch \<Rightarrow> 'j option) \<Rightarrow> ('j \<Rightarrow> 'w \<Rightarrow> tx_result \<times> 'w) \<Rightarrow> NetworkRulesPatch \<Rightarrow> 'w \<Rightarrow> net_error option \<times> 'w" where
  "ApplyNetworkRules marshal update rules w =
     (case marshal rules of None \<Rightarrow> (Some CallFailed, w) | Some patchJSON \<Rightarrow> tx_done (update patchJSON w))"

section \<open>The local network\<close>

text \<open>A node is the identity of its object; its identifier is its enode, which a restart may change.\<close>

type_synonym opera_node = nat

record opera_config =
  oc_Label :: string
  oc_Failing :: bool
  oc_Image :: string
  oc_ValidatorId :: "int option"
  oc_GenesisJsonPath :: "string option"
  oc_MountDataDir :: "string option"
  oc_ExtraArguments :: string
  oc_NetworkBootstrap :: bool
  oc_LogsDir :: string

record LocalNetwork =
  ln_OutputDir :: string
  ln_nodes :: "(string, opera_node) gomap"
  ln_suspended :: "opera_node list"
  ln_bootstrapped :: bool
  ln_apps :: "nat list"
  ln_nextAppId :: "32 word"
  ln_listeners :: "nat list"
  ln_appContext :: bool
  ln_genesisTmpDir :: string
  ln_genesisJsonPath :: string

record 'w host_ops =
  ho_start :: "opera_config \<Rightarrow> 'w \<Rightarrow> opera_node option \<times> 'w"
  ho_GetNodeID :: "opera_node \<Rightarrow> 'w \<Rightarrow> string option \<times> 'w"
  ho_AddPeer :: "opera_node \<Rightarrow> string \<Rightarrow> 'w \<Rightarrow> bool \<times> 'w"
  ho_RemovePeer :: "opera_node \<Rightarrow> string \<Rightarrow> 'w \<Rightarrow> bool \<times> 'w"
  ho_IsRunning :: "opera_node \<Rightarrow> 'w \<Rightarrow> bool"
  ho_IsExpectedFailure :: "opera_node \<Rightarrow> bool"
  ho_DialRpc :: "opera_node \<Rightarrow> 'w \<Rightarrow> nat option \<times> 'w"
  ho_probe :: "nat \<Rightarrow> 'w \<Rightarrow> bool \<times> 'w"
  ho_perm :: "nat \<Rightarrow> 'w \<Rightarrow> nat list \<times> 'w"
  ho_Stop :: "opera_node \<Rightarrow> 'w \<Rightarrow> bool \<times> 'w"
  ho_Cleanup :: "opera_node \<Rightarrow> 'w \<Rightarrow> bool \<times> 'w"
  ho_AfterNodeCreation :: "nat \<Rightarrow> opera_node \<Rightarrow> 'w \<Rightarrow> 'w"
  ho_BeforeNodeRemoval :: "nat \<Rightarrow> opera_node \<Rightarrow> 'w \<Rightarrow> 'w"
  ho_AfterApplicationCreation :: "nat \<Rightarrow> nat \<Rightarrow> 'w \<Rightarrow> 'w"
  ho_NewContext :: "'w \<Rightarrow> bool \<times> 'w"
  ho_NewApplication :: "string \<Rightarrow> 32 word \<Rightarrow> 'w \<Rightarrow> nat option \<times> 'w"
  ho_NewAppController :: "ApplicationConfig \<Rightarrow> nat \<Rightarrow> Shaper \<Rightarrow> 'w \<Rightarrow> nat option \<times> 'w"
  ho_StopApp :: "nat \<Rightarrow> 'w \<Rightarrow> bool \<times> 'w"
  ho_closeContext :: "'w \<Rightarrow> 'w"
  ho_cleanupNetwork :: "'w \<Rightarrow> bool \<times> 'w"
  ho_closePool :: "'w \<Rightarrow> bool \<times> 'w"
  ho_removeAll :: "string \<Rightarrow> 'w \<Rightarrow> bool \<times> 'w"

datatype local_error =
    NodeIdFailed
  | NoReachablePeer
  | StartFailed
  | RemovePeerFailed
  | LocalEmptyNetwork
  | NoReachableRpc nat
  | ContextFailed
  | AppFailed
  | BadRateConfig
  | ControllerFailed
  | StopAppFailed nat
  | StopNodeFailed opera_node
  | CleanupNodeFailed opera_node
  | CleanupNetworkFailed
  | ClosePoolFailed
  | RemoveGenesisFailed
  | DockerFailed
  | VersionsFailed
  | TempDirFailed
  | RulesFailed
  | GenesisFailed

subsection \<open>Nodes\<close>

text \<open>Offering the new node to one that is registered; suspended ones are skipped.\<close>

definition offer_peer ::
  "'w host_ops \<Rightarrow> opera_node list \<Rightarrow> string \<Rightarrow> opera_node \<Rightarrow> nat \<times> nat \<times> 'w \<Rightarrow> nat \<times> nat \<times> 'w" where
  "offer_peer h suspended i other = (\<lambda>(attempted, succeeded, w).
     if other \<in> set suspended then (attempted, succeeded, w)
     else let (ok, w1) = ho_AddPeer h other i w in (attempted + 1, (if ok then succeeded + 1 else succeeded), w1))"

definition addNodeIntoNetwork ::
  "'w host_ops \<Rightarrow> opera_node \<Rightarrow> LocalNetwork \<times> 'w \<Rightarrow> local_error option \<times> (LocalNetwork \<times> 'w)" where
  "addNodeIntoNetwork h node = (\<lambda>(n, w).
     case ho_GetNodeID h node w of
       (None, w1) \<Rightarrow> (Some NodeIdFailed, (n, w1))
     | (Some i, w1) \<Rightarrow>
         let (attempted, succeeded, w2) = fold (offer_peer h (ln_suspended n) i) (map snd (ln_nodes n)) (0, 0, w1)
         in if attempted > 0 \<and> succeeded = 0 then (Some NoReachablePeer, (n, w2))
            else (None, (n\<lparr>ln_nodes := gm_set i node (ln_nodes n), ln_bootstrapped := True\<rparr>, w2)))"

definition drop_entry :: "opera_node \<Rightarrow> (string, opera_node) gomap \<Rightarrow> (string, opera_node) gomap" where
  "drop_entry node m = (case find (\<lambda>(_, x). x = node) m of None \<Rightarrow> m | Some (i, _) \<Rightarrow> gm_del i m)"

definition ReconnectNode ::
  "'w host_ops \<Rightarrow> opera_node \<Rightarrow> LocalNetwork \<times> 'w \<Rightarrow> local_error option \<times> (LocalNetwork \<times> 'w)" where
  "ReconnectNode h node = (\<lambda>(n, w). addNodeIntoNetwork h node (n\<lparr>ln_nodes := drop_entry node (ln_nodes n)\<rparr>, w))"

definition createNode ::
  "'w host_ops \<Rightarrow> opera_config \<Rightarrow> LocalNetwork \<times> 'w \<Rightarrow> (local_error + opera_node) \<times> (LocalNetwork \<times> 'w)" where
  "createNode h cfg = (\<lambda>(n, w).
     case ho_start h (cfg\<lparr>oc_NetworkBootstrap := \<not> ln_bootstrapped n, oc_LogsDir := ln_OutputDir n\<rparr>) w of
       (None, w1) \<Rightarrow> (Inl StartFailed, (n, w1))
     | (Some node, w1) \<Rightarrow>
         (case addNodeIntoNetwork h node (n, w1) of
            (Some e, s) \<Rightarrow> (Inl e, s)
          | (None, (n2, w2)) \<Rightarrow> (Inr node, (n2, fold (\<lambda>l. ho_AfterNodeCreation h l node) (ln_listeners n2) w2))))"

definition node_config :: "LocalNetwork \<Rightarrow> NodeConfig \<Rightarrow> bool \<Rightarrow> opera_config" where
  "node_config n config cheater =
     \<lparr>oc_Label = (if cheater then ''cheater-'' @ nc_Name config else nc_Name config), oc_Failing = nc_Failing config,
      oc_Image = nc_Image config, oc_ValidatorId = nc_ValidatorId config,
      oc_GenesisJsonPath = (if cheater then None else Some (ln_genesisJsonPath n)),
      oc_MountDataDir = (if cheater then None else map_option (\<lambda>v. ln_OutputDir n @ ''/'' @ v) (nc_DataVolume config)),
      oc_ExtraArguments = nc_ExtraArguments config, oc_NetworkBootstrap = False, oc_LogsDir = []\<rparr>"

definition CreateNode ::
  "'w host_ops \<Rightarrow> NodeConfig \<Rightarrow> LocalNetwork \<times> 'w \<Rightarrow> (local_error + opera_node) \<times> (LocalNetwork \<times> 'w)" where
  "CreateNode h config s =
     (if nc_Cheater config then
        (case createNode h (node_config (fst s) config True) s of
           (Inl e, s1) \<Rightarrow> (Inl e, s1)
         | (Inr _, s1) \<Rightarrow> createNode h (node_config (fst s1) config False) s1)
      else createNode h (node_config (fst s) config False) s)"

text \<open>The start-up validators, with their identifiers from one on.\<close>

definition genesis_configs :: "LocalNetwork \<Rightarrow> Validator list \<Rightarrow> opera_config list" where
  "genesis_configs n validators =
     map (\<lambda>(idx, v, j).
        \<lparr>oc_Label = (if vd_Name v = [] then ''validator'' else vd_Name v) @ ''-'' @ itoa j, oc_Failing = vd_Failing v,
         oc_Image = vd_ImageName v, oc_ValidatorId = Some (int idx + 1), oc_GenesisJsonPath = Some (ln_genesisJsonPath n),
         oc_MountDataDir = None, oc_ExtraArguments = vd_ExtraArguments v, oc_NetworkBootstrap = False, oc_LogsDir = []\<rparr>)
       (enumerate 0 (concat (map (\<lambda>v. map (\<lambda>j. (v, j)) [0..<nat (vd_Instances v)]) validators)))"

fun start_all ::
  "'w host_ops \<Rightarrow> opera_config list \<Rightarrow> LocalNetwork \<times> 'w \<Rightarrow> local_error option \<times> (LocalNetwork \<times> 'w)" where
  "start_all h [] s = (None, s)"
| "start_all h (c # cs) s = (case createNode h c s of (Inl e, s1) \<Rightarrow> (Some e, s1) | (Inr _, s1) \<Rightarrow> start_all h cs s1)"

definition startGenesisValidators ::
  "'w host_ops \<Rightarrow> Validator list \<Rightarrow> LocalNetwork \<times> 'w \<Rightarrow> local_error option \<times> (LocalNetwork \<times> 'w)" where
  "startGenesisValidators h validators s = start_all h (genesis_configs (fst s) validators) s"

fun remove_peers ::
  "'w host_ops \<Rightarrow> opera_node list \<Rightarrow> string \<Rightarrow> opera_node list \<Rightarrow> 'w \<Rightarrow> local_error option \<times> 'w" where
  "remove_peers h suspended i [] w = (None, w)"
| "remove_peers h suspended i (other # others) w =
     (if other \<in> set suspended then remove_peers h suspended i others w
      else let (ok, w1) = ho_RemovePeer h other i w
           in if ok then remove_peers h suspended i others w1 else (Some RemovePeerFailed, w1))"

definition RemoveNode ::
  "'w host_ops \<Rightarrow> opera_node \<Rightarrow> LocalNetwork \<times> 'w \<Rightarrow> local_error option \<times> (LocalNetwork \<times> 'w)" where
  "RemoveNode h node = (\<lambda>(n, w).
     let w1 = fold (\<lambda>l. ho_BeforeNodeRemoval h l node) (ln_listeners n) w
     in case ho_GetNodeID h node w1 of
          (None, w2) \<Rightarrow> (Some NodeIdFailed, (n, w2))
        | (Some i, w2) \<Rightarrow>
            let n1 = n\<lparr>ln_nodes := gm_del i (ln_nodes n), ln_suspended := removeAll node (ln_suspended n)\<rparr>;
                (e, w3) = remove_peers h (ln_suspended n1) i (map snd (ln_nodes n1)) w2
            in (e, (n1, w3)))"

definition SuspendNode :: "'w host_ops \<Rightarrow> opera_node \<Rightarrow> LocalNetwork \<times> 'w \<Rightarrow> LocalNetwork \<times> 'w" where
  "SuspendNode h node = (\<lambda>(n, w).
     (n\<lparr>ln_suspended := List.insert node (ln_suspended n)\<rparr>, fold (\<lambda>l. ho_BeforeNodeRemoval h l node) (ln_listeners n) w))"

definition ResumeNode :: "'w host_ops \<Rightarrow> opera_node \<Rightarrow> LocalNetwork \<times> 'w \<Rightarrow> LocalNetwork \<times> 'w" where
  "ResumeNode h node = (\<lambda>(n, w).
     (n\<lparr>ln_suspended := removeAll node (ln_suspended n)\<rparr>, fold (\<lambda>l. ho_AfterNodeCreation h l node) (ln_listeners n) w))"

subsection \<open>Talking to a node\<close>

definition GetActiveNodes :: "'w host_ops \<Rightarrow> LocalNetwork \<times> 'w \<Rightarrow> opera_node list" where
  "GetActiveNodes h = (\<lambda>(n, w). filter (\<lambda>x. ho_IsRunning h x w) (map snd (ln_nodes n)))"

fun dial_first :: "'w host_ops \<Rightarrow> opera_node list \<Rightarrow> 'w \<Rightarrow> nat option \<times> 'w" where
  "dial_first h [] w = (None, w)"
| "dial_first h (x # xs) w =
     (case ho_DialRpc h x w of
        (None, w1) \<Rightarrow> dial_first h xs w1
      | (Some client, w1) \<Rightarrow>
          let (ok, w2) = ho_probe h client w1 in if ok then (Some client, w2) else dial_first h xs w2)"

definition preferred_nodes :: "'w host_ops \<Rightarrow> opera_node list \<Rightarrow> opera_node list" where
  "preferred_nodes h nodes =
     (let reliable = filter (\<lambda>x. \<not> ho_IsExpectedFailure h x) nodes in if reliable = [] then nodes else reliable)"

definition DialRandomRpc :: "'w host_ops \<Rightarrow> LocalNetwork \<times> 'w \<Rightarrow> (local_error + nat) \<times> 'w" where
  "DialRandomRpc h s =
     (let nodes = GetActiveNodes h s
      in if nodes = [] then (Inl LocalEmptyNetwork, snd s)
         else
           let reliable = preferred_nodes h nodes;
               (perm, w1) = ho_perm h (length reliable) (snd s);
               (r, w2) = dial_first h (map ((!) reliable) perm) w1
           in ((case r of None \<Rightarrow> Inl (NoReachableRpc (length reliable)) | Some client \<Rightarrow> Inr client), w2))"

subsection \<open>Applications and listeners\<close>

definition ensureAppContext :: "'w host_ops \<Rightarrow> LocalNetwork \<times> 'w \<Rightarrow> local_error option \<times> (LocalNetwork \<times> 'w)" where
  "ensureAppContext h = (\<lambda>(n, w).
     if ln_appContext n then (None, (n, w))
     else let (ok, w1) = ho_NewContext h w
          in if ok then (None, (n\<lparr>ln_appContext := True\<rparr>, w1)) else (Some ContextFailed, (n, w1)))"

text \<open>The operations on the chain, through a node that is dialled for the purpose.\<close>

definition net_ApplyNetworkRules ::
  "'w host_ops \<Rightarrow> (NetworkRulesPatch \<Rightarrow> 'j option) \<Rightarrow> (nat \<Rightarrow> 'j \<Rightarrow> 'w \<Rightarrow> tx_result \<times> 'w) \<Rightarrow> NetworkRulesPatch \<Rightarrow>
     LocalNetwork \<times> 'w \<Rightarrow> (local_error + net_error option) \<times> 'w" where
  "net_ApplyNetworkRules h marshal update rules s =
     (case DialRandomRpc h s of
        (Inl e, w1) \<Rightarrow> (Inl e, w1)
      | (Inr client, w1) \<Rightarrow> (let (r, w2) = ApplyNetworkRules marshal (update client) rules w1 in (Inr r, w2)))"

definition net_AdvanceEpoch ::
  "'w host_ops \<Rightarrow> (nat \<Rightarrow> 'w epoch_ops) \<Rightarrow> int \<Rightarrow> LocalNetwork \<times> 'w \<Rightarrow> ((local_error + epoch_error option) \<times> 'w) option" where
  "net_AdvanceEpoch h ops epochIncrement s =
     (case DialRandomRpc h s of
        (Inl e, w1) \<Rightarrow> Some (Inl e, w1)
      | (Inr client, w1) \<Rightarrow> map_option (\<lambda>(r, w2). (Inr r, w2)) (AdvanceEpoch (ops client) epochIncrement w1))"

definition net_WaitForEpochChange ::
  "'w host_ops \<Rightarrow> (nat \<Rightarrow> 'w epoch_ops) \<Rightarrow> LocalNetwork \<times> 'w \<Rightarrow> ((local_error + epoch_error option) \<times> 'w) option" where
  "net_WaitForEpochChange h ops s =
     (case DialRandomRpc h s of
        (Inl e, w1) \<Rightarrow> Some (Inl e, w1)
      | (Inr client, w1) \<Rightarrow> map_option (\<lambda>(r, w2). (Inr r, w2)) (WaitForEpochChange (ops client) w1))"

definition CreateApplication ::
  "'w host_ops \<Rightarrow> ApplicationConfig \<Rightarrow> LocalNetwork \<times> 'w \<Rightarrow> (local_error + nat) \<times> (LocalNetwork \<times> 'w)" where
  "CreateApplication h config s =
     (case ensureAppContext h s of
        (Some e, s1) \<Rightarrow> (Inl e, s1)
      | (None, (n1, w1)) \<Rightarrow>
          (case DialRandomRpc h (n1, w1) of
             (Inl e, w2) \<Rightarrow> (Inl e, (n1, w2))
           | (Inr _, w2) \<Rightarrow>
               let appId = ln_nextAppId n1 + 1; n2 = n1\<lparr>ln_nextAppId := appId\<rparr>
               in case ho_NewApplication h (acf_Type config) appId w2 of
                    (None, w3) \<Rightarrow> (Inl AppFailed, (n2, w3))
                  | (Some application, w3) \<Rightarrow>
                      (case ParseRate (acf_Rate config) of
                         Inl _ \<Rightarrow> (Inl BadRateConfig, (n2, w3))
                       | Inr sh \<Rightarrow>
                           (case ho_NewAppController h config application sh w3 of
                              (None, w4) \<Rightarrow> (Inl ControllerFailed, (n2, w4))
                            | (Some app, w4) \<Rightarrow>
                                (Inr app, (n2\<lparr>ln_apps := ln_apps n2 @ [app]\<rparr>,
                                           fold (\<lambda>l. ho_AfterApplicationCreation h l app) (ln_listeners n2) w4))))))"

definition RegisterListener :: "nat \<Rightarrow> LocalNetwork \<Rightarrow> LocalNetwork" where
  "RegisterListener l n = n\<lparr>ln_listeners := List.insert l (ln_listeners n)\<rparr>"

definition UnregisterListener :: "nat \<Rightarrow> LocalNetwork \<Rightarrow> LocalNetwork" where
  "UnregisterListener l n = n\<lparr>ln_listeners := removeAll l (ln_listeners n)\<rparr>"

subsection \<open>Shutdown\<close>

text \<open>Doing something for every element, collecting the failures.\<close>

fun all_of :: "('x \<Rightarrow> 'w \<Rightarrow> local_error list \<times> 'w) \<Rightarrow> 'x list \<Rightarrow> 'w \<Rightarrow> local_error list \<times> 'w" where
  "all_of f [] w = ([], w)"
| "all_of f (x # xs) w = (let (es, w1) = f x w; (es2, w2) = all_of f xs w1 in (es @ es2, w2))"

definition try_op :: "local_error \<Rightarrow> ('w \<Rightarrow> bool \<times> 'w) \<Rightarrow> 'w \<Rightarrow> local_error list \<times> 'w" where
  "try_op e op w = (let (ok, w1) = op w in (if ok then [] else [e], w1))"

definition shutdown_node :: "'w host_ops \<Rightarrow> opera_node \<Rightarrow> 'w \<Rightarrow> local_error list \<times> 'w" where
  "shutdown_node h node w =
     (let (e1, w1) = try_op (StopNodeFailed node) (ho_Stop h node) w;
          (e2, w2) = try_op (CleanupNodeFailed node) (ho_Cleanup h node) w1
      in (e1 @ e2, w2))"

definition Shutdown :: "'w host_ops \<Rightarrow> LocalNetwork \<times> 'w \<Rightarrow> local_error list \<times> (LocalNetwork \<times> 'w)" where
  "Shutdown h = (\<lambda>(n, w).
     let (e1, w1) = all_of (\<lambda>a. try_op (StopAppFailed a) (ho_StopApp h a)) (ln_apps n) w;
         w2 = (if ln_appContext n then ho_closeContext h w1 else w1);
         (e2, w3) = all_of (shutdown_node h) (map snd (ln_nodes n)) w2;
         (e3, w4) = try_op CleanupNetworkFailed (ho_cleanupNetwork h) w3;
         (e4, w5) = try_op ClosePoolFailed (ho_closePool h) w4;
         (e5, w6) = (if ln_genesisTmpDir n \<noteq> [] then try_op RemoveGenesisFailed (ho_removeAll h (ln_genesisTmpDir n)) w5 else ([], w5))
     in (e1 @ e2 @ e3 @ e4 @ e5,
         (n\<lparr>ln_apps := [], ln_nodes := [], ln_genesisTmpDir := [],
             ln_genesisJsonPath := (if ln_genesisTmpDir n \<noteq> [] then [] else ln_genesisJsonPath n)\<rparr>, w6)))"

subsection \<open>Setting up\<close>

text \<open>
  What the setup needs of its surroundings: the Docker bridge, the versions the clients of the images
  report, a temporary directory, the rules of a fake network with a patch applied
  (\<open>opera.FakeNetRules\<close>, \<open>genesis.ApplyNetworkRulesPatch\<close>), and the generated genesis with the file it is written to.
\<close>

record ('r, 'g, 'w) setup_ops =
  so_bridge :: "'w \<Rightarrow> bool \<times> 'w"
  so_ClientVersions :: "string list \<Rightarrow> 'w \<Rightarrow> string list option \<times> 'w"
  so_MkdirTemp :: "'w \<Rightarrow> string option \<times> 'w"
  so_rules :: "NetworkRulesPatch \<Rightarrow> 'r option"
  so_generate :: "u64 list \<Rightarrow> 'r \<Rightarrow> string list \<Rightarrow> genesis_error + 'g"
  so_write :: "string \<Rightarrow> 'g \<Rightarrow> 'w \<Rightarrow> bool \<times> 'w"

record setup_config =
  sc_Validators :: "Validator list"
  sc_ClientImages :: "string list"
  sc_NetworkRules :: NetworkRulesPatch
  sc_OutputDir :: string

definition prepareGenesis ::
  "'w host_ops \<Rightarrow> ('r, 'g, 'w) setup_ops \<Rightarrow> setup_config \<Rightarrow> LocalNetwork \<times> 'w \<Rightarrow> local_error list \<times> (LocalNetwork \<times> 'w)" where
  "prepareGenesis h so cfg = (\<lambda>(n, w).
     case so_ClientVersions so (GetClientImages (sc_Validators cfg) (sc_ClientImages cfg)) w of
       (None, w1) \<Rightarrow> ([VersionsFailed], (n, w1))
     | (Some clientVersions, w1) \<Rightarrow>
         (case so_MkdirTemp so w1 of
            (None, w2) \<Rightarrow> ([TempDirFailed], (n, w2))
          | (Some tmpDir, w2) \<Rightarrow>
              let give_up = (\<lambda>e w. let (es, w') = try_op RemoveGenesisFailed (ho_removeAll h tmpDir) w in (e # es, (n, w')))
              in case so_rules so (sc_NetworkRules cfg) of
                   None \<Rightarrow> give_up RulesFailed w2
                 | Some rules \<Rightarrow>
                     (case so_generate so (GetValidatorStakes (sc_Validators cfg)) rules clientVersions of
                        Inl _ \<Rightarrow> give_up GenesisFailed w2
                      | Inr g \<Rightarrow>
                          let genesisPath = tmpDir @ ''/genesis.json''; (ok, w3) = so_write so genesisPath g w2
                          in if ok then ([], (n\<lparr>ln_genesisTmpDir := tmpDir, ln_genesisJsonPath := genesisPath\<rparr>, w3))
                             else give_up GenesisFailed w3)))"

text \<open>\<open>pool\<close> is the worker pool's handle as a listener.\<close>

definition empty_network :: "setup_config \<Rightarrow> LocalNetwork" where
  "empty_network cfg =
     \<lparr>ln_OutputDir = sc_OutputDir cfg, ln_nodes = [], ln_suspended = [], ln_bootstrapped = False, ln_apps = [], ln_nextAppId = 0,
      ln_listeners = [], ln_appContext = False, ln_genesisTmpDir = [], ln_genesisJsonPath = []\<rparr>"

definition NewLocalNetwork ::
  "'w host_ops \<Rightarrow> ('r, 'g, 'w) setup_ops \<Rightarrow> nat \<Rightarrow> setup_config \<Rightarrow> 'w \<Rightarrow> (local_error list + LocalNetwork) \<times> 'w" where
  "NewLocalNetwork h so pool cfg w =
     (case so_bridge so w of
        (False, w1) \<Rightarrow> (Inl [DockerFailed], w1)
      | (True, w1) \<Rightarrow>
          (case prepareGenesis h so cfg (empty_network cfg, w1) of
             ([], (n, w2)) \<Rightarrow> (Inr (RegisterListener pool n), w2)
           | (e # es, s) \<Rightarrow> (let (es2, (_, w3)) = Shutdown h s in (Inl (e # es @ es2), w3))))"

definition NewLocalLegacyNetwork ::
  "'w host_ops \<Rightarrow> ('r, 'g, 'w) setup_ops \<Rightarrow> nat \<Rightarrow> setup_config \<Rightarrow> 'w \<Rightarrow> (local_error list + LocalNetwork) \<times> 'w" where
  "NewLocalLegacyNetwork h so pool cfg w =
     (case NewLocalNetwork h so pool cfg w of
        (Inl e, w1) \<Rightarrow> (Inl e, w1)
      | (Inr n, w1) \<Rightarrow>
          (case startGenesisValidators h (sc_Validators cfg) (n, w1) of
             (Some e, s) \<Rightarrow> (let (es, (_, w2)) = Shutdown h s in (Inl (e # es), w2))
           | (None, s) \<Rightarrow>
               (case ensureAppContext h s of
                  (Some e, s1) \<Rightarrow> (let (es, (_, w2)) = Shutdown h s1 in (Inl (e # es), w2))
                | (None, (n1, w1)) \<Rightarrow> (Inr n1, w1))))"

end
