(* ===== verification/Network_Properties.thy ===== *)
theory Network_Properties
  imports Network_Local
begin

text \<open>Properties of the local network: which node is talked to, which ones are left alone, and who is a member.\<close>

section \<open>Talking to a node\<close>

text \<open>A node that answers whenever it is asked.\<close>

definition answering :: "'w host_ops \<Rightarrow> opera_node \<Rightarrow> bool" where
  "answering h x \<longleftrightarrow> (\<forall>w. \<exists>client w1. ho_DialRpc h x w = (Some client, w1) \<and> fst (ho_probe h client w1))"

lemma dial_first_sound:
  "dial_first h xs w = (Some client, w') \<Longrightarrow>
     \<exists>x\<in>set xs. \<exists>w0 w1. ho_DialRpc h x w0 = (Some client, w1) \<and> ho_probe h client w1 = (True, w')"
  by (induction xs arbitrary: w) (auto simp: Let_def split: prod.splits option.splits if_splits)

lemma dial_first_complete:
  assumes "x \<in> set xs" "answering h x"
  shows "fst (dial_first h xs w) \<noteq> None"
  using assms(1)
proof (induction xs arbitrary: w)
  case (Cons y ys)
  show ?case
  proof (cases "y = x")
    case True
    from assms(2) obtain client w1 where "ho_DialRpc h x w = (Some client, w1)" "fst (ho_probe h client w1)"
      unfolding answering_def by metis
    with True show ?thesis by (cases "ho_probe h client w1") (simp add: Let_def)
  next
    case False
    with Cons show ?thesis by (auto simp: Let_def split: prod.splits option.splits)
  qed
qed simp

text \<open>
  Dialling a random node reports an empty network exactly if no registered node is running. Otherwise
  it only considers the running nodes that are not expected to fail, or all running ones if there is
  no such node; a client it returns belongs to one of them and answered the probe; and it returns
  a client whenever one of them answers, whatever the order they are tried in.
\<close>

theorem dial_random_rpc:
  assumes perm: "\<And>k w. set (fst (ho_perm h k w)) = {..<k}" and dial: "DialRandomRpc h s = (r, w')"
  shows "(r = Inl LocalEmptyNetwork \<longleftrightarrow> GetActiveNodes h s = []) \<and>
         (\<forall>client. r = Inr client \<longrightarrow>
            (\<exists>x\<in>set (preferred_nodes h (GetActiveNodes h s)).
               \<exists>w0 w1. ho_DialRpc h x w0 = (Some client, w1) \<and> ho_probe h client w1 = (True, w'))) \<and>
         ((\<exists>x\<in>set (preferred_nodes h (GetActiveNodes h s)). answering h x) \<longrightarrow> (\<exists>client. r = Inr client))"
proof (cases "GetActiveNodes h s = []")
  case True
  with dial show ?thesis by (auto simp: DialRandomRpc_def preferred_nodes_def)
next
  case False
  let ?nodes = "preferred_nodes h (GetActiveNodes h s)"
  obtain p w1 where p: "ho_perm h (length ?nodes) (snd s) = (p, w1)" by (meson surj_pair)
  obtain c w2 where d: "dial_first h (map ((!) ?nodes) p) w1 = (c, w2)" by (meson surj_pair)
  from dial False p d have r: "r = (case c of None \<Rightarrow> Inl (NoReachableRpc (length ?nodes)) | Some client \<Rightarrow> Inr client)" "w' = w2"
    by (auto simp: DialRandomRpc_def Let_def)
  have "set p = {..<length ?nodes}" using perm [of "length ?nodes" "snd s"] p by simp
  then have all: "set (map ((!) ?nodes) p) = set ?nodes" by (simp add: nth_image lessThan_atLeast0)
  have complete: "\<exists>client. r = Inr client" if "x \<in> set ?nodes" "answering h x" for x
    using dial_first_complete [of x "map ((!) ?nodes) p" h w1] that all d r by (auto split: option.splits)
  have sound: "\<exists>x\<in>set ?nodes. \<exists>w0 w1. ho_DialRpc h x w0 = (Some client, w1) \<and> ho_probe h client w1 = (True, w')"
    if "r = Inr client" for client
    using dial_first_sound [of h "map ((!) ?nodes) p" w1 client w2] that all d r by (auto split: option.splits)
  from False r(1) complete sound show ?thesis by (auto split: option.splits)
qed

text \<open>
  An example: a host on which every operation works and counts, nodes are numbered from ten on, and a
  client is its node. Node eleven is expected to fail.
\<close>

definition demo_host :: "nat host_ops" where
  "demo_host =
     \<lparr>ho_start = (\<lambda>c w. (Some (10 + w), w + 1)), ho_GetNodeID = (\<lambda>x w. (Some (itoa x), w)), ho_AddPeer = (\<lambda>x i w. (True, w + 1)),
      ho_RemovePeer = (\<lambda>x i w. (True, w + 1)), ho_IsRunning = (\<lambda>x w. True), ho_IsExpectedFailure = (\<lambda>x. x = 11),
      ho_DialRpc = (\<lambda>x w. (Some x, w + 1)), ho_probe = (\<lambda>c w. (c \<noteq> 10, w)), ho_perm = (\<lambda>k w. ([0..<k], w)),
      ho_Stop = (\<lambda>x w. (True, w)), ho_Cleanup = (\<lambda>x w. (True, w)), ho_AfterNodeCreation = (\<lambda>l x w. w),
      ho_BeforeNodeRemoval = (\<lambda>l x w. w), ho_AfterApplicationCreation = (\<lambda>l a w. w), ho_NewContext = (\<lambda>w. (True, w)),
      ho_NewApplication = (\<lambda>t i w. (Some 0, w)), ho_NewAppController = (\<lambda>c a s w. (Some 0, w)), ho_StopApp = (\<lambda>a w. (True, w)),
      ho_closeContext = (\<lambda>w. w), ho_cleanupNetwork = (\<lambda>w. (True, w)), ho_closePool = (\<lambda>w. (True, w)),
      ho_removeAll = (\<lambda>d w. (True, w))\<rparr>"

definition demo_network :: "opera_node list \<Rightarrow> LocalNetwork" where
  "demo_network xs =
     \<lparr>ln_OutputDir = ''out'', ln_nodes = map (\<lambda>x. (itoa x, x)) xs, ln_suspended = [], ln_bootstrapped = True, ln_apps = [],
      ln_nextAppId = 0, ln_listeners = [], ln_appContext = False, ln_genesisTmpDir = ''tmp'', ln_genesisJsonPath = ''tmp/genesis.json''\<rparr>"

text \<open>Node ten does not answer the probe and node eleven is expected to fail: node twelve is chosen.\<close>

theorem dial_random_rpc_witness:
  "DialRandomRpc demo_host (demo_network [10, 11, 12], 0) = (Inr 12, 2) \<and>
   (\<exists>x. x \<in> set [10, 12] \<and> (\<exists>w0 w1. ho_DialRpc demo_host x w0 = (Some 12, w1) \<and> ho_probe demo_host 12 w1 = (True, 2)))"
proof -
  have perm: "set (fst (ho_perm demo_host k w)) = {..<k}" for k w
    by (simp add: demo_host_def lessThan_atLeast0)
  have dial: "DialRandomRpc demo_host (demo_network [10, 11, 12], 0) = (Inr 12, 2)"
    and nodes: "preferred_nodes demo_host (GetActiveNodes demo_host (demo_network [10, 11, 12], 0)) = [10, 12]"
    by code_simp+
  show ?thesis using dial_random_rpc [OF perm dial] dial unfolding nodes by blast
qed

section \<open>Suspended nodes are left alone\<close>

lemma fold_offer_cong:
  "(\<And>x. x \<notin> set sus \<Longrightarrow> f x = ho_AddPeer h x) \<Longrightarrow>
     fold (offer_peer (h\<lparr>ho_AddPeer := f\<rparr>) sus i) xs = fold (offer_peer h sus i) xs"
  by (rule ext, rule List.fold_cong [OF refl refl]) (auto simp: offer_peer_def fun_eq_iff)

lemma remove_peers_cong:
  "(\<And>x. x \<notin> set sus \<Longrightarrow> f x = ho_RemovePeer h x) \<Longrightarrow>
     remove_peers (h\<lparr>ho_RemovePeer := f\<rparr>) sus i xs w = remove_peers h sus i xs w"
  by (induction xs arbitrary: w) (auto split: prod.splits)

text \<open>However a suspended node would react to a change of its peers, the network behaves the same: it is not asked.\<close>

lemma suspended_not_asked:
  assumes "\<And>x. x \<notin> set (ln_suspended n) \<Longrightarrow> f x = ho_AddPeer h x"
  shows "addNodeIntoNetwork (h\<lparr>ho_AddPeer := f\<rparr>) node (n, w) = addNodeIntoNetwork h node (n, w)"
  by (simp add: addNodeIntoNetwork_def fold_offer_cong [OF assms] cong: option.case_cong)

lemma suspended_not_told:
  assumes "\<And>x. x \<notin> set (ln_suspended n) \<or> x = node \<Longrightarrow> f x = ho_RemovePeer h x"
  shows "RemoveNode (h\<lparr>ho_RemovePeer := f\<rparr>) node (n, w) = RemoveNode h node (n, w)"
proof -
  have "remove_peers (h\<lparr>ho_RemovePeer := f\<rparr>) (removeAll node (ln_suspended n)) i xs = remove_peers h (removeAll node (ln_suspended n)) i xs" for i xs
    using assms by (intro ext remove_peers_cong) auto
  then show ?thesis by (auto simp: RemoveNode_def Let_def split: prod.split option.split)
qed

section \<open>Members\<close>

text \<open>The registry has an identifier once, and a network with a node has been bootstrapped.\<close>

definition members_ok :: "LocalNetwork \<Rightarrow> bool" where
  "members_ok n \<longleftrightarrow> gm_wf (ln_nodes n) \<and> (ln_nodes n \<noteq> [] \<longrightarrow> ln_bootstrapped n)"

inductive net_step :: "'w host_ops \<Rightarrow> LocalNetwork \<times> 'w \<Rightarrow> LocalNetwork \<times> 'w \<Rightarrow> bool" for h where
  create: "CreateNode h cfg s = (r, s') \<Longrightarrow> net_step h s s'"
| remove: "RemoveNode h node s = (r, s') \<Longrightarrow> net_step h s s'"
| reconnect: "ReconnectNode h node s = (r, s') \<Longrightarrow> net_step h s s'"
| suspend: "net_step h s (SuspendNode h node s)"
| resume: "net_step h s (ResumeNode h node s)"
| app: "CreateApplication h acfg s = (r, s') \<Longrightarrow> net_step h s s'"
| dial: "DialRandomRpc h s = (r, w') \<Longrightarrow> net_step h s (fst s, w')"
| listen: "net_step h s (RegisterListener l (fst s), snd s)"
| unlisten: "net_step h s (UnregisterListener l (fst s), snd s)"

text \<open>What a step does to the registry: nodes may join and leave, and the bootstrap is never forgotten.\<close>

definition members_step :: "LocalNetwork \<Rightarrow> LocalNetwork \<Rightarrow> bool" where
  "members_step n n' \<longleftrightarrow> (members_ok n \<longrightarrow> members_ok n') \<and> (ln_bootstrapped n \<longrightarrow> ln_bootstrapped n')"

lemma members_step_refl: "members_step n n"
  by (simp add: members_step_def)

lemma members_step_trans: "members_step a b \<Longrightarrow> members_step b c \<Longrightarrow> members_step a c"
  by (simp add: members_step_def)

lemma members_same:
  "ln_nodes n' = ln_nodes n \<Longrightarrow> ln_bootstrapped n' = ln_bootstrapped n \<Longrightarrow> members_step n n'"
  by (simp add: members_step_def members_ok_def)

lemma gm_wf_single [simp]: "gm_wf [(k, v)]"
  by (simp add: gm_wf_def)

lemma addNode_members: "addNodeIntoNetwork h node s = (r, s') \<Longrightarrow> members_step (fst s) (fst s')"
  by (auto simp: addNodeIntoNetwork_def Let_def members_step_def members_ok_def gm.wf_put gm_wf_single
      split: prod.splits option.splits if_splits)

lemma gm_del_Nil_iff: "gm_del k m \<noteq> [] \<Longrightarrow> m \<noteq> []"
  by (auto simp: gm_del_def)

lemma drop_members: "members_step n (n\<lparr>ln_nodes := drop_entry node (ln_nodes n)\<rparr>)"
  by (auto simp: members_step_def members_ok_def drop_entry_def gm.wf_del split: option.splits dest: gm_del_Nil_iff)

lemma createNode_members: "createNode h c s = (r, s') \<Longrightarrow> members_step (fst s) (fst s')"
  by (cases s) (auto simp: createNode_def members_step_refl split: prod.splits option.splits dest: addNode_members)

lemma net_step_members: "net_step h s s' \<Longrightarrow> members_step (fst s) (fst s')"
proof (induction rule: net_step.induct)
  case (create cfg s r s')
  then show ?case
    by (auto simp: CreateNode_def split: if_splits prod.splits sum.splits
        dest!: createNode_members intro: members_step_trans)
next
  case (remove node s r s')
  then show ?case
    by (cases s) (auto simp: RemoveNode_def Let_def members_step_def members_ok_def gm.wf_del
        split: prod.splits option.splits dest: gm_del_Nil_iff)
next
  case (reconnect node s r s')
  then show ?case
    by (cases s) (auto simp: ReconnectNode_def dest!: addNode_members intro: members_step_trans [OF drop_members])
next
  case (app acfg s r s')
  then show ?case
    by (cases s) (auto simp: CreateApplication_def ensureAppContext_def Let_def intro!: members_same
        split: prod.splits option.splits sum.splits if_splits)
qed (auto simp: SuspendNode_def ResumeNode_def RegisterListener_def UnregisterListener_def members_step_refl
    intro!: members_same split: prod.splits)

lemma run_members: "(net_step h)\<^sup>*\<^sup>* s s' \<Longrightarrow> members_step (fst s) (fst s')"
  by (induction rule: rtranclp_induct) (auto intro: members_step_refl members_step_trans net_step_members)

text \<open>How a node would start as the first one of a new chain is of no matter to a network with a history.\<close>

lemma createNode_joins:
  assumes "ln_bootstrapped n" and "\<And>c. \<not> oc_NetworkBootstrap c \<Longrightarrow> f c = ho_start h c"
  shows "createNode (h\<lparr>ho_start := f\<rparr>) c (n, w) = createNode h c (n, w)"
proof -
  have "offer_peer (h\<lparr>ho_start := f\<rparr>) = offer_peer h"
    by (simp add: offer_peer_def fun_eq_iff)
  then have "addNodeIntoNetwork (h\<lparr>ho_start := f\<rparr>) = addNodeIntoNetwork h"
    by (intro ext) (simp add: addNodeIntoNetwork_def split: prod.split option.split)
  with assms show ?thesis by (simp add: createNode_def split: prod.split option.split)
qed

lemma CreateNode_joins:
  assumes n: "ln_bootstrapped n" and f: "\<And>c. \<not> oc_NetworkBootstrap c \<Longrightarrow> f c = ho_start h c"
  shows "CreateNode (h\<lparr>ho_start := f\<rparr>) cfg (n, w) = CreateNode h cfg (n, w)"
proof -
  have "createNode (h\<lparr>ho_start := f\<rparr>) c s1 = createNode h c s1"
    if "createNode h c0 (n, w) = (r, s1)" for c c0 r s1
    using createNode_members [OF that] n createNode_joins [OF _ f] by (cases s1) (simp add: members_step_def)
  then show ?thesis
    by (auto simp: CreateNode_def createNode_joins [OF n f] split: prod.split sum.split)
qed

definition demo_node :: NodeConfig where
  "demo_node =
     \<lparr>nc_Name = ''node'', nc_Failing = False, nc_Image = [], nc_Validator = False, nc_ValidatorId = None, nc_Cheater = False, nc_DataVolume = None,
      nc_ExtraArguments = []\<rparr>"



end
