(* ===== verification/Network_Pool.thy ===== *)
theory Network_Pool
  imports Norma_Prelude
begin

text \<open>
  The worker pool that submits the generated transactions (\<open>driver/network/rpc/rpc_pool.go\<close>). Its
  goroutines are the steps of a relation: workers that dial, receive from the shared channel, submit
  and stop, senders, and one caller at a time of the operations that create and close workers.
\<close>

section \<open>State\<close>

text \<open>
  A worker dials, waits for a transaction or for its context, submits one, or has left its loop, which
  closes its \<open>done\<close> channel. \<open>'t\<close> is a transaction with its source.
\<close>

datatype 't phase = Dialing | Waiting | Submitting 't | Exited

record 't worker =
  wk_phase :: "'t phase"
  wk_cancelled :: bool

text \<open>
  Workers are numbered in the order of their creation, a group is a list of numbers. The caller is in
  no operation, waits in \<open>BeforeNodeRemoval\<close> for workers, or waits in \<open>Close\<close> for workers with groups left to
  close. The last three components record what happened: the transactions accepted by
  \<open>SendTransaction\<close>, the submissions with their success, and the calls of the observers.
\<close>

datatype control = Idle | Removing "nat list" | Closing "nat list" "nat list list"

record 't RpcWorkerPool =
  pl_txs :: "'t list"
  pl_txsClosed :: bool
  pl_groups :: "(nat, nat list) gomap"
  pl_workers :: "'t worker list"
  pl_cancelled :: bool
  pl_observers :: "nat list"
  pl_control :: control
  pl_accepted :: "'t list"
  pl_submitted :: "('t \<times> bool) list"
  pl_reports :: "(nat \<times> 't \<times> bool) list"

definition txs_capacity :: nat where
  "txs_capacity = 100"

definition workers_per_node :: nat where
  "workers_per_node = 150"

definition NewRpcWorkerPool :: "'t RpcWorkerPool" where
  "NewRpcWorkerPool =
     \<lparr>pl_txs = [], pl_txsClosed = False, pl_groups = [], pl_workers = [], pl_cancelled = False, pl_observers = [],
      pl_control = Idle, pl_accepted = [], pl_submitted = [], pl_reports = []\<rparr>"

section \<open>Senders and observers\<close>

text \<open>A send on the channel succeeds, blocks while the buffer is full, and panics once the channel is closed.\<close>

datatype 't send_result = Sent "'t RpcWorkerPool" | SendBlocks | SendPanics

definition SendTransaction :: "'t \<Rightarrow> 't RpcWorkerPool \<Rightarrow> 't send_result" where
  "SendTransaction t p =
     (if pl_txsClosed p then SendPanics
      else if txs_capacity \<le> length (pl_txs p) then SendBlocks
      else Sent (p\<lparr>pl_txs := pl_txs p @ [t], pl_accepted := pl_accepted p @ [t]\<rparr>))"

definition RegisterObserver :: "nat \<Rightarrow> 't RpcWorkerPool \<Rightarrow> 't RpcWorkerPool" where
  "RegisterObserver ob p = p\<lparr>pl_observers := pl_observers p @ [ob]\<rparr>"

definition notify :: "'t \<Rightarrow> bool \<Rightarrow> 't RpcWorkerPool \<Rightarrow> 't RpcWorkerPool" where
  "notify t ok p = p\<lparr>pl_reports := pl_reports p @ map (\<lambda>ob. (ob, t, ok)) (pl_observers p)\<rparr>"

section \<open>Nodes come and go\<close>

definition newWorker :: "'t worker" where
  "newWorker = \<lparr>wk_phase = Dialing, wk_cancelled = False\<rparr>"

text \<open>\<open>url_ok\<close> is whether the node has an address for its RPC service.\<close>

definition AfterNodeCreation :: "bool \<Rightarrow> nat \<Rightarrow> 't RpcWorkerPool \<Rightarrow> 't RpcWorkerPool" where
  "AfterNodeCreation url_ok newNode p =
     (if pl_cancelled p then p
      else if \<not> url_ok then p
      else
        let k = length (pl_workers p)
        in p\<lparr>pl_groups := gm_set newNode [k..<k + workers_per_node] (pl_groups p),
             pl_workers := pl_workers p @ replicate workers_per_node newWorker\<rparr>)"

text \<open>
  Closing a group cancels its workers and waits for those among them that were not cancelled before: \<open>close\<close>
  of a worker returns at once if its context is cancelled.
\<close>

definition cancel_worker :: "'t worker \<Rightarrow> 't worker" where
  "cancel_worker w = w\<lparr>wk_cancelled := True\<rparr>"

definition cancel_group :: "nat list \<Rightarrow> 't worker list \<Rightarrow> 't worker list" where
  "cancel_group g ws = map (\<lambda>(i, w). if i \<in> set g then cancel_worker w else w) (enumerate 0 ws)"

definition awaited :: "nat list \<Rightarrow> 't worker list \<Rightarrow> nat list" where
  "awaited g ws = filter (\<lambda>i. \<not> wk_cancelled (ws ! i)) g"

definition all_exited :: "nat list \<Rightarrow> 't worker list \<Rightarrow> bool" where
  "all_exited g ws \<longleftrightarrow> list_all (\<lambda>i. wk_phase (ws ! i) = Exited) g"

text \<open>The method is called on the group of the node, also on a missing one, whose pointer is nil: \<open>None\<close> is that panic.\<close>

definition BeforeNodeRemoval :: "nat \<Rightarrow> 't RpcWorkerPool \<Rightarrow> 't RpcWorkerPool option" where
  "BeforeNodeRemoval node p =
     (case gm_get (pl_groups p) node of
        None \<Rightarrow> None
      | Some g \<Rightarrow> Some (p\<lparr>pl_workers := cancel_group g (pl_workers p), pl_control := Removing (awaited g (pl_workers p))\<rparr>))"

definition removal_returns :: "'t RpcWorkerPool \<Rightarrow> 't RpcWorkerPool option" where
  "removal_returns p =
     (case pl_control p of
        Removing ws \<Rightarrow> if all_exited ws (pl_workers p) then Some (p\<lparr>pl_control := Idle\<rparr>) else None
      | _ \<Rightarrow> None)"

section \<open>Closing the pool\<close>

text \<open>The groups are closed one after the other, then the channel is; a cancelled pool returns at once.\<close>

definition Close :: "'t RpcWorkerPool \<Rightarrow> 't RpcWorkerPool" where
  "Close p = (if pl_cancelled p then p else p\<lparr>pl_cancelled := True, pl_control := Closing [] (map snd (pl_groups p))\<rparr>)"

definition close_next :: "'t RpcWorkerPool \<Rightarrow> 't RpcWorkerPool option" where
  "close_next p =
     (case pl_control p of
        Closing ws gs \<Rightarrow>
          if \<not> all_exited ws (pl_workers p) then None
          else (case gs of
                  [] \<Rightarrow> Some (p\<lparr>pl_txsClosed := True, pl_control := Idle\<rparr>)
                | g # gs' \<Rightarrow>
                    Some (p\<lparr>pl_workers := cancel_group g (pl_workers p), pl_control := Closing (awaited g (pl_workers p)) gs'\<rparr>))
      | _ \<Rightarrow> None)"

section \<open>Workers\<close>

definition enter_phase :: "nat \<Rightarrow> 't phase \<Rightarrow> 't RpcWorkerPool \<Rightarrow> 't RpcWorkerPool" where
  "enter_phase i ph p = p\<lparr>pl_workers := (pl_workers p)[i := (pl_workers p ! i)\<lparr>wk_phase := ph\<rparr>]\<rparr>"

text \<open>
  What a worker does next, \<open>None\<close> if it does not do it in its phase. \<open>Connect\<close> is the end of the dialling
  loop, \<open>Receive\<close> and \<open>Stop\<close> the branches of the select statement, \<open>Submit\<close> the call of the client with the
  notification that follows it. Receiving from a closed and empty channel gives a nil
  transaction, which the client dereferences: \<open>reads_nil\<close>.
\<close>

datatype action = Connect bool | Receive | Submit bool | Stop

definition runRpcSenderLoop :: "nat \<Rightarrow> action \<Rightarrow> 't RpcWorkerPool \<Rightarrow> 't RpcWorkerPool option" where
  "runRpcSenderLoop i a p =
     (if length (pl_workers p) \<le> i then None
      else case (wk_phase (pl_workers p ! i), a) of
             (Dialing, Connect ok) \<Rightarrow> Some (enter_phase i (if ok then Waiting else Exited) p)
           | (Waiting, Receive) \<Rightarrow>
               (case pl_txs p of
                  [] \<Rightarrow> None
                | t # ts \<Rightarrow> Some (enter_phase i (Submitting t) (p\<lparr>pl_txs := ts\<rparr>)))
           | (Submitting t, Submit ok) \<Rightarrow>
               Some (notify t ok (enter_phase i Waiting (p\<lparr>pl_submitted := pl_submitted p @ [(t, ok)]\<rparr>)))
           | (Waiting, Stop) \<Rightarrow> if wk_cancelled (pl_workers p ! i) then Some (enter_phase i Exited p) else None
           | _ \<Rightarrow> None)"

definition reads_nil :: "nat \<Rightarrow> 't RpcWorkerPool \<Rightarrow> bool" where
  "reads_nil i p \<longleftrightarrow> i < length (pl_workers p) \<and> wk_phase (pl_workers p ! i) = Waiting \<and> pl_txsClosed p \<and> pl_txs p = []"

section \<open>The pool in motion\<close>

text \<open>
  The listener's methods are called under the mutex of the network, so one at a time. The cancellation of
  the surrounding context may come at any moment.
\<close>

inductive pool_step :: "'t RpcWorkerPool \<Rightarrow> 't RpcWorkerPool \<Rightarrow> bool" where
  send: "SendTransaction t p = Sent p' \<Longrightarrow> pool_step p p'"
| register: "pool_step p (RegisterObserver ob p)"
| create: "pl_control p = Idle \<Longrightarrow> pool_step p (AfterNodeCreation url_ok node p)"
| remove: "pl_control p = Idle \<Longrightarrow> BeforeNodeRemoval node p = Some p' \<Longrightarrow> pool_step p p'"
| removed: "removal_returns p = Some p' \<Longrightarrow> pool_step p p'"
| close: "pl_control p = Idle \<Longrightarrow> pool_step p (Close p)"
| closing: "close_next p = Some p' \<Longrightarrow> pool_step p p'"
| work: "runRpcSenderLoop i a p = Some p' \<Longrightarrow> pool_step p p'"
| interrupt: "pool_step p (p\<lparr>pl_cancelled := True\<rparr>)"

inductive_cases pool_stepE: "pool_step p p'"

end
