(* ===== verification/Network_Pool_Properties.thy ===== *)
theory Network_Pool_Properties
  imports Network_Pool "HOL-Library.Multiset"
begin

text \<open>
  Properties of the worker pool: no transaction is lost or submitted twice, all are reported, and the
  channel is only closed when no worker is left that could read from it.
\<close>

section \<open>Conservation\<close>

definition held :: "'t worker \<Rightarrow> 't multiset" where
  "held w = (case wk_phase w of Submitting t \<Rightarrow> {#t#} | _ \<Rightarrow> {#})"

definition in_flight :: "'t worker list \<Rightarrow> 't multiset" where
  "in_flight ws = sum_list (map held ws)"

lemma in_flight_update:
  "i < length ws \<Longrightarrow> in_flight (ws[i := w]) + held (ws ! i) = in_flight ws + held w"
  by (induction ws arbitrary: i) (auto simp: in_flight_def split: nat.splits simp: ac_simps)

lemma length_cancel_group [simp]: "length (cancel_group g ws) = length ws"
  by (simp add: cancel_group_def)

lemma nth_cancel_group:
  "i < length ws \<Longrightarrow> cancel_group g ws ! i = (if i \<in> set g then cancel_worker (ws ! i) else ws ! i)"
  by (simp add: cancel_group_def nth_enumerate_eq)

lemma held_cancel_worker [simp]: "held (cancel_worker w) = held w"
  by (simp add: held_def cancel_worker_def)

lemma in_flight_cancel_group [simp]: "in_flight (cancel_group g ws) = in_flight ws"
proof -
  have "map held (cancel_group g ws) = map held ws" by (rule nth_equalityI) (simp_all add: nth_cancel_group)
  then show ?thesis by (simp add: in_flight_def)
qed

lemma in_flight_created [simp]: "in_flight (ws @ replicate n newWorker) = in_flight ws"
  by (induction n) (simp_all add: in_flight_def held_def newWorker_def)

lemmas step_defs = SendTransaction_def RegisterObserver_def AfterNodeCreation_def BeforeNodeRemoval_def removal_returns_def
  Close_def close_next_def

definition conserved :: "'t RpcWorkerPool \<Rightarrow> bool" where
  "conserved p \<longleftrightarrow>
     mset (pl_accepted p) = mset (pl_txs p) + in_flight (pl_workers p) + mset (map fst (pl_submitted p)) \<and>
     length (pl_txs p) \<le> txs_capacity"

lemma held_enter_phase:
  "i < length (pl_workers p) \<Longrightarrow>
     in_flight (pl_workers (enter_phase i ph p)) + held (pl_workers p ! i) =
     in_flight (pl_workers p) + (case ph of Submitting t \<Rightarrow> {#t#} | _ \<Rightarrow> {#})"
  using in_flight_update [of i "pl_workers p" "(pl_workers p ! i)\<lparr>wk_phase := ph\<rparr>"]
  by (simp add: enter_phase_def held_def)

lemma enter_phase_frame [simp]:
  "pl_txs (enter_phase i ph p) = pl_txs p" "pl_accepted (enter_phase i ph p) = pl_accepted p"
  "pl_submitted (enter_phase i ph p) = pl_submitted p" "pl_observers (enter_phase i ph p) = pl_observers p"
  "pl_reports (enter_phase i ph p) = pl_reports p" "pl_control (enter_phase i ph p) = pl_control p"
  "pl_groups (enter_phase i ph p) = pl_groups p" "pl_cancelled (enter_phase i ph p) = pl_cancelled p"
  "pl_txsClosed (enter_phase i ph p) = pl_txsClosed p" "length (pl_workers (enter_phase i ph p)) = length (pl_workers p)"
  by (simp_all add: enter_phase_def)

lemma notify_frame [simp]:
  "pl_txs (notify t ok p) = pl_txs p" "pl_accepted (notify t ok p) = pl_accepted p"
  "pl_submitted (notify t ok p) = pl_submitted p" "pl_observers (notify t ok p) = pl_observers p"
  "pl_workers (notify t ok p) = pl_workers p" "pl_control (notify t ok p) = pl_control p"
  "pl_groups (notify t ok p) = pl_groups p" "pl_cancelled (notify t ok p) = pl_cancelled p"
  "pl_txsClosed (notify t ok p) = pl_txsClosed p"
  by (simp_all add: notify_def)

lemma work_cases:
  assumes "runRpcSenderLoop i a p = Some p'"
  obtains (connect) ph where "i < length (pl_workers p)" "wk_phase (pl_workers p ! i) = Dialing"
      "ph = Waiting \<or> ph = Exited" "p' = enter_phase i ph p"
  | (receive) t ts where "i < length (pl_workers p)" "wk_phase (pl_workers p ! i) = Waiting" "pl_txs p = t # ts"
      "p' = enter_phase i (Submitting t) (p\<lparr>pl_txs := ts\<rparr>)"
  | (submit) t ok where "i < length (pl_workers p)" "wk_phase (pl_workers p ! i) = Submitting t"
      "p' = notify t ok (enter_phase i Waiting (p\<lparr>pl_submitted := pl_submitted p @ [(t, ok)]\<rparr>))"
  | (stop) "i < length (pl_workers p)" "wk_phase (pl_workers p ! i) = Waiting" "wk_cancelled (pl_workers p ! i)"
      "p' = enter_phase i Exited p"
  using assms
  by (auto simp: runRpcSenderLoop_def split: if_splits phase.splits action.splits list.splits)

lemma work_conserves: "runRpcSenderLoop i a p = Some p' \<Longrightarrow> conserved p \<Longrightarrow> conserved p'"
proof (erule work_cases, goal_cases)
  case (1 ph)
  with held_enter_phase [of i p ph] show ?case by (auto simp: conserved_def held_def)
next
  case (2 t ts)
  with held_enter_phase [of i "p\<lparr>pl_txs := ts\<rparr>" "Submitting t"] show ?case
    by (auto simp: conserved_def held_def)
next
  case (3 t ok)
  with held_enter_phase [of i "p\<lparr>pl_submitted := pl_submitted p @ [(t, ok)]\<rparr>" Waiting] show ?case
    by (auto simp: conserved_def held_def)
next
  case 4
  with held_enter_phase [of i p Exited] show ?case by (auto simp: conserved_def held_def)
qed

lemma step_conserves: "pool_step p p' \<Longrightarrow> conserved p \<Longrightarrow> conserved p'"
proof (induction rule: pool_step.induct)
  case (work i a p p')
  then show ?case by (rule work_conserves)
qed (auto simp: step_defs conserved_def Let_def split: if_splits option.splits control.splits list.splits)

section \<open>Reports\<close>

definition reports_of :: "nat \<Rightarrow> 't RpcWorkerPool \<Rightarrow> ('t \<times> bool) list" where
  "reports_of ob p = map snd (filter (\<lambda>r. fst r = ob) (pl_reports p))"

lemma filter_observers: "filter (\<lambda>r. fst r = ob) (map (\<lambda>ob. (ob, x)) obs) = replicate (count_list obs ob) (ob, x)"
  by (induction obs) auto

text \<open>What a step does for an observer: it is registered again at most, and told of what is submitted as often as it is registered.\<close>

lemma step_reports:
  "pool_step p p' \<Longrightarrow>
     count_list (pl_observers p) ob \<le> count_list (pl_observers p') ob \<and>
     (\<exists>ts. pl_submitted p' = pl_submitted p @ ts \<and>
           reports_of ob p' = reports_of ob p @ concat (map (replicate (count_list (pl_observers p) ob)) ts))"
proof (induction rule: pool_step.induct)
  case (work i a p p')
  then show ?case
    by (cases rule: work_cases) (auto simp: reports_of_def notify_def filter_observers)
qed (auto simp: step_defs reports_of_def Let_def split: if_splits option.splits control.splits list.splits)

lemma run_reports:
  assumes "pool_step\<^sup>*\<^sup>* p p'" "1 \<le> count_list (pl_observers p) ob" "count_list (pl_observers p') ob = 1"
    and "reports_of ob p = pl_submitted p"
  shows "reports_of ob p' = pl_submitted p'"
proof -
  have "1 \<le> count_list (pl_observers q) ob \<and> (count_list (pl_observers q) ob = 1 \<longrightarrow> reports_of ob q = pl_submitted q)"
    if "pool_step\<^sup>*\<^sup>* p q" for q
    using that
  proof (induction rule: rtranclp_induct)
    case (step y z)
    have "concat (map (replicate (Suc 0)) ts) = ts" for ts :: "('a \<times> bool) list" by (induction ts) auto
    with step_reports [OF step.hyps(2), of ob] step.IH show ?case by (auto simp: numeral_eq_Suc)
  qed (use assms in auto)
  with assms show ?thesis by blast
qed


text \<open>An example: a node with its workers, one of which submits the only transaction.\<close>

fun act_all :: "(nat \<times> action) list \<Rightarrow> 't RpcWorkerPool \<Rightarrow> 't RpcWorkerPool option" where
  "act_all [] p = Some p"
| "act_all ((i, a) # acts) p = (case runRpcSenderLoop i a p of None \<Rightarrow> None | Some p' \<Rightarrow> act_all acts p')"

lemma act_all_run: "act_all acts p = Some p' \<Longrightarrow> pool_step\<^sup>*\<^sup>* p p'"
  by (induction acts p rule: act_all.induct)
    (auto split: option.splits intro: converse_rtranclp_into_rtranclp pool_step.work)

definition demo_open :: "nat RpcWorkerPool" where
  "demo_open = AfterNodeCreation True 1 (RegisterObserver 7 NewRpcWorkerPool)"

definition demo_sent :: "nat RpcWorkerPool" where
  "demo_sent = demo_open\<lparr>pl_txs := [5], pl_accepted := [5]\<rparr>"

definition demo_submitted :: "nat RpcWorkerPool" where
  "demo_submitted = the (act_all [(0, Connect True), (0, Receive), (0, Submit True)] demo_sent)"

lemmas demo_defs = demo_sent_def demo_open_def AfterNodeCreation_def RegisterObserver_def NewRpcWorkerPool_def Let_def
  workers_per_node_def newWorker_def runRpcSenderLoop_def enter_phase_def nth_list_update notify_def


section \<open>Closing\<close>

text \<open>The workers the caller waits for, and the groups it still has to close.\<close>

fun waits_for :: "control \<Rightarrow> nat list" where
  "waits_for Idle = []" | "waits_for (Removing ws) = ws" | "waits_for (Closing ws gs) = ws"

fun to_close :: "control \<Rightarrow> nat list list" where
  "to_close (Closing ws gs) = gs" | "to_close _ = []"

fun is_closing :: "control \<Rightarrow> bool" where
  "is_closing (Closing ws gs) = True" | "is_closing _ = False"

abbreviation cancelled_at :: "'t RpcWorkerPool \<Rightarrow> nat \<Rightarrow> bool" where
  "cancelled_at p i \<equiv> wk_cancelled (pl_workers p ! i)"

abbreviation exited_at :: "'t RpcWorkerPool \<Rightarrow> nat \<Rightarrow> bool" where
  "exited_at p i \<equiv> wk_phase (pl_workers p ! i) = Exited"

text \<open>The groups hold workers that exist, and the caller waits for workers it has cancelled.\<close>

definition groups_ok :: "'t RpcWorkerPool \<Rightarrow> bool" where
  "groups_ok p \<longleftrightarrow>
     (\<forall>g\<in>snd ` set (pl_groups p) \<union> set (to_close (pl_control p)). \<forall>i\<in>set g. i < length (pl_workers p)) \<and>
     (\<forall>i\<in>set (waits_for (pl_control p)). i < length (pl_workers p) \<and> cancelled_at p i)"

text \<open>No worker is forgotten: one that is not cancelled is in the group of a node.\<close>

definition orderly :: "'t RpcWorkerPool \<Rightarrow> bool" where
  "orderly p \<longleftrightarrow> (\<forall>i<length (pl_workers p). \<not> cancelled_at p i \<longrightarrow> (\<exists>g\<in>snd ` set (pl_groups p). i \<in> set g))"

definition closing_ok :: "'t RpcWorkerPool \<Rightarrow> bool" where
  "closing_ok p \<longleftrightarrow>
     (\<forall>i<length (pl_workers p). cancelled_at p i \<longrightarrow> exited_at p i \<or> i \<in> set (waits_for (pl_control p))) \<and>
     (is_closing (pl_control p) \<longrightarrow>
        pl_cancelled p \<and> (\<forall>i<length (pl_workers p). \<not> cancelled_at p i \<longrightarrow> (\<exists>g\<in>set (to_close (pl_control p)). i \<in> set g))) \<and>
     (pl_txsClosed p \<longrightarrow> pl_cancelled p \<and> (\<forall>i<length (pl_workers p). cancelled_at p i \<and> exited_at p i))"

lemma cancelled_after_group:
  "i < length ws \<Longrightarrow> wk_cancelled (cancel_group g ws ! i) \<longleftrightarrow> i \<in> set g \<or> wk_cancelled (ws ! i)"
  "i < length ws \<Longrightarrow> wk_phase (cancel_group g ws ! i) = wk_phase (ws ! i)"
  by (simp_all add: nth_cancel_group cancel_worker_def)

lemma set_awaited [simp]: "i \<in> set (awaited g ws) \<longleftrightarrow> i \<in> set g \<and> \<not> wk_cancelled (ws ! i)"
  by (auto simp: awaited_def)

lemma enter_phase_nth:
  "i < length (pl_workers p) \<Longrightarrow>
     pl_workers (enter_phase i ph p) ! j = (if j = i then (pl_workers p ! i)\<lparr>wk_phase := ph\<rparr> else pl_workers p ! j)"
  by (simp add: enter_phase_def nth_list_update)

lemma gm_get_in_groups: "gm_get m k = Some v \<Longrightarrow> v \<in> snd ` set m"
  by (force simp: gm_get_def dest: map_of_SomeD)

lemma work_keeps:
  assumes "runRpcSenderLoop i a p = Some p'"
  shows "length (pl_workers p') = length (pl_workers p) \<and> pl_groups p' = pl_groups p \<and> pl_control p' = pl_control p \<and>
         pl_cancelled p' = pl_cancelled p \<and> pl_txsClosed p' = pl_txsClosed p \<and>
         (\<forall>j. cancelled_at p' j = cancelled_at p j \<and> (exited_at p j \<longrightarrow> exited_at p' j))"
  by (rule work_cases [OF assms]) (simp_all add: enter_phase_nth)

lemma groups_step:
  assumes "pool_step p p'" "groups_ok p"
  shows "groups_ok p'"
  using assms
proof (induction rule: pool_step.induct)
  case (create p url_ok node)
  then show ?case using set_gm_set_subset [of node _ "pl_groups p"] by (fastforce simp: groups_ok_def AfterNodeCreation_def Let_def)
next
  case (remove p node p')
  then show ?case
    by (auto simp: groups_ok_def BeforeNodeRemoval_def cancelled_after_group split: option.splits dest!: gm_get_in_groups)
next
  case (closing p p')
  then show ?case
    by (auto simp: groups_ok_def ball_Un close_next_def cancelled_after_group split: control.splits if_splits list.splits)
next
  case (work i a p p')
  with work_keeps [OF work.hyps] show ?case by (simp add: groups_ok_def)
qed (auto simp: groups_ok_def ball_Un step_defs split: if_splits control.splits)

lemma closing_step:
  assumes "pool_step p p'" "groups_ok p" "orderly p" "closing_ok p"
  shows "closing_ok p'"
  using assms
proof (induction rule: pool_step.induct)
  case (create p url_ok node)
  then show ?case
    by (auto simp: closing_ok_def AfterNodeCreation_def Let_def nth_append newWorker_def)
next
  case (remove p node p')
  then show ?case
    by (auto simp: closing_ok_def groups_ok_def BeforeNodeRemoval_def cancelled_after_group split: option.splits)
next
  case (closing p p')
  then show ?case
    by (fastforce simp: closing_ok_def groups_ok_def close_next_def cancelled_after_group all_exited_def list_all_iff
        split: control.splits if_splits list.splits)
next
  case (work i a p p')
  with work_keeps [OF work.hyps] show ?case by (simp add: closing_ok_def) blast
next
  case (removed p p')
  then show ?case
    by (auto simp: closing_ok_def removal_returns_def all_exited_def list_all_iff split: control.splits if_splits)
next
  case (close p)
  then show ?case by (force simp: closing_ok_def orderly_def Close_def)
qed (auto simp: closing_ok_def step_defs split: if_splits)

text \<open>A node that is announced keeps the pool orderly unless it replaces a group with workers that are not cancelled.\<close>

lemma set_gm_set_other: "kv \<in> set m \<Longrightarrow> fst kv \<noteq> k \<Longrightarrow> kv \<in> set (gm_set k v m)"
  by (induction m) (auto simp: gm_set_Cons)

lemma created_orderly:
  assumes "orderly p" "gm_wf (pl_groups p)"
    and retired: "\<And>g i. gm_get (pl_groups p) node = Some g \<Longrightarrow> i \<in> set g \<Longrightarrow> cancelled_at p i"
  shows "orderly (AfterNodeCreation url_ok node p)"
proof -
  let ?k = "length (pl_workers p)"
  let ?m = "gm_set node [?k..<?k + workers_per_node] (pl_groups p)"
  have old: "\<exists>g\<in>snd ` set ?m. i \<in> set g" if i: "i < ?k" "\<not> cancelled_at p i" for i
  proof -
    from assms(1) i obtain x g where g: "(x, g) \<in> set (pl_groups p)" "i \<in> set g" by (auto simp: orderly_def)
    with retired [of g i] i(2) assms(2) have "x \<noteq> node" by (auto simp: gm_get_def gm_wf_def)
    with g set_gm_set_other [of "(x, g)" "pl_groups p" node] show ?thesis by force
  qed
  have new: "[?k..<?k + workers_per_node] \<in> snd ` set ?m" by (rule gm_get_in_groups [of _ node]) (simp add: gm.get_put)
  then have "\<exists>g\<in>snd ` set ?m. i \<in> set g" if "?k \<le> i" "i < ?k + workers_per_node" for i
    using that by (intro bexI [OF _ new]) simp
  with old assms(1) show ?thesis
    by (auto simp: AfterNodeCreation_def Let_def orderly_def nth_append not_less)
qed

text \<open>Nothing else can make a pool disorderly.\<close>

lemma step_orderly:
  assumes "pool_step p p'" "orderly p" "length (pl_workers p') = length (pl_workers p)"
  shows "orderly p'"
  using assms
proof (induction rule: pool_step.induct)
  case (work i a p p')
  with work_keeps [OF work.hyps] show ?case by (simp add: orderly_def)
qed (auto simp: orderly_def step_defs Let_def workers_per_node_def cancelled_after_group split: if_splits option.splits control.splits list.splits)

text \<open>
  If no group with active workers is replaced, the channel is closed only when every worker has left
  its loop: no worker ever reads from the closed channel, and the accepted transactions are the submitted ones
  with those that were still queued.
\<close>

definition orderly_step :: "'t RpcWorkerPool \<Rightarrow> 't RpcWorkerPool \<Rightarrow> bool" where
  "orderly_step p p' \<longleftrightarrow> pool_step p p' \<and> orderly p'"

lemma orderly_run:
  assumes "orderly_step\<^sup>*\<^sup>* NewRpcWorkerPool p"
  shows "conserved p \<and> groups_ok p \<and> orderly p \<and> closing_ok p"
  using assms
proof (induction rule: rtranclp_induct)
  case base
  show ?case
    by (simp add: conserved_def groups_ok_def orderly_def closing_ok_def NewRpcWorkerPool_def in_flight_def)
next
  case (step p p')
  then show ?case
    by (simp add: orderly_step_def step_conserves [of p p'] groups_step [of p p'] closing_step [of p p'])
qed

lemma none_in_flight:
  "\<forall>w\<in>set ws. wk_phase w = Exited \<Longrightarrow> in_flight ws = {#}"
  by (induction ws) (simp_all add: in_flight_def held_def)

theorem closed_pool_quiet:
  assumes run: "orderly_step\<^sup>*\<^sup>* NewRpcWorkerPool p" and closed: "pl_txsClosed p"
  shows "\<not> reads_nil i p \<and> mset (pl_accepted p) = mset (pl_txs p) + mset (map fst (pl_submitted p))"
proof -
  from orderly_run [OF run] closed have "\<forall>i<length (pl_workers p). exited_at p i" by (simp add: closing_ok_def)
  then have "\<not> reads_nil i p" "in_flight (pl_workers p) = {#}"
    by (auto simp: reads_nil_def in_set_conv_nth intro!: none_in_flight)
  with orderly_run [OF run] show ?thesis by (simp add: conserved_def)
qed

definition demo_closed :: "nat RpcWorkerPool" where
  "demo_closed = NewRpcWorkerPool\<lparr>pl_txs := [5], pl_accepted := [5], pl_cancelled := True, pl_txsClosed := True\<rparr>"

text \<open>A pool without nodes is closed with a transaction in its queue.\<close>

theorem closed_pool_quiet_witness:
  "\<not> reads_nil 0 demo_closed \<and>
   mset (pl_accepted demo_closed) = mset (pl_txs demo_closed) + mset (map fst (pl_submitted demo_closed))"
proof -
  let ?p = "NewRpcWorkerPool\<lparr>pl_txs := [5], pl_accepted := [5::nat]\<rparr>"
  have orderly: "orderly p" if "pl_workers p = []" for p :: "nat RpcWorkerPool" using that by (simp add: orderly_def)
  have "SendTransaction 5 NewRpcWorkerPool = Sent ?p" by (simp add: SendTransaction_def NewRpcWorkerPool_def txs_capacity_def)
  then have "orderly_step NewRpcWorkerPool ?p"
    by (simp add: orderly_step_def orderly pool_step.send) (simp add: orderly NewRpcWorkerPool_def)
  moreover have "pool_step ?p (Close ?p)" by (rule pool_step.close) (simp add: NewRpcWorkerPool_def)
  then have "orderly_step ?p (Close ?p)" by (simp add: orderly_step_def) (simp add: orderly NewRpcWorkerPool_def Close_def)
  moreover have "close_next (Close ?p) = Some demo_closed"
    by (simp add: close_next_def Close_def NewRpcWorkerPool_def demo_closed_def all_exited_def)
  then have "orderly_step (Close ?p) demo_closed"
    by (simp add: orderly_step_def pool_step.closing) (simp add: orderly NewRpcWorkerPool_def demo_closed_def)
  ultimately have "orderly_step\<^sup>*\<^sup>* NewRpcWorkerPool demo_closed"
    by (intro converse_rtranclp_into_rtranclp [of orderly_step NewRpcWorkerPool ?p] converse_rtranclp_into_rtranclp [of orderly_step ?p "Close ?p"] r_into_rtranclp)
  then show ?thesis by (rule closed_pool_quiet) (simp add: demo_closed_def)
qed

section \<open>Closing ends\<close>

text \<open>A cancelled worker can leave its loop on its own, whatever it is doing, and disturbs no other.\<close>

definition work_step :: "'t RpcWorkerPool \<Rightarrow> 't RpcWorkerPool \<Rightarrow> bool" where
  "work_step p p' \<longleftrightarrow> (\<exists>i a. runRpcSenderLoop i a p = Some p')"

lemma waiting_leaves:
  assumes "i < length (pl_workers p)" "cancelled_at p i" "wk_phase (pl_workers p ! i) = Waiting"
  shows "work_step p (enter_phase i Exited p)"
  unfolding work_step_def by (intro exI [of _ i] exI [of _ Stop]) (use assms in \<open>simp add: runRpcSenderLoop_def\<close>)

lemma cancelled_leaves:
  assumes i: "i < length (pl_workers p)" "cancelled_at p i"
  shows "\<exists>p'. work_step\<^sup>*\<^sup>* p p' \<and> exited_at p' i"
proof (cases "wk_phase (pl_workers p ! i)")
  case Dialing
  have "work_step p (enter_phase i Exited p)"
    unfolding work_step_def by (intro exI [of _ i] exI [of _ "Connect False"]) (use i Dialing in \<open>simp add: runRpcSenderLoop_def\<close>)
  with i show ?thesis by (intro exI [of _ "enter_phase i Exited p"]) (auto simp: enter_phase_nth)
next
  case Waiting
  with waiting_leaves [OF i] i show ?thesis by (intro exI [of _ "enter_phase i Exited p"]) (auto simp: enter_phase_nth)
next
  case (Submitting t)
  let ?q = "notify t True (enter_phase i Waiting (p\<lparr>pl_submitted := pl_submitted p @ [(t, True)]\<rparr>))"
  have "work_step p ?q"
    unfolding work_step_def by (intro exI [of _ i] exI [of _ "Submit True"]) (use i Submitting in \<open>simp add: runRpcSenderLoop_def\<close>)
  moreover have "work_step ?q (enter_phase i Exited ?q)"
    by (rule waiting_leaves) (use i in \<open>simp_all add: enter_phase_nth\<close>)
  ultimately have "work_step\<^sup>*\<^sup>* p (enter_phase i Exited ?q)" by simp
  with i show ?thesis by (intro exI [of _ "enter_phase i Exited ?q"]) (simp add: enter_phase_nth)
qed (use i in auto)

text \<open>What the workers do leaves the caller, the cancellations and the workers that have exited as they are.\<close>

lemma work_run_keeps:
  "work_step\<^sup>*\<^sup>* p p' \<Longrightarrow>
     length (pl_workers p') = length (pl_workers p) \<and> pl_groups p' = pl_groups p \<and> pl_control p' = pl_control p \<and>
     pl_cancelled p' = pl_cancelled p \<and> pl_txsClosed p' = pl_txsClosed p \<and>
     (\<forall>j. cancelled_at p' j = cancelled_at p j \<and> (exited_at p j \<longrightarrow> exited_at p' j))"
  by (induction rule: rtranclp_induct) (auto simp: work_step_def dest!: work_keeps)

lemma group_leaves:
  "(\<And>i. i \<in> set g \<Longrightarrow> i < length (pl_workers p) \<and> cancelled_at p i) \<Longrightarrow>
     \<exists>p'. work_step\<^sup>*\<^sup>* p p' \<and> all_exited g (pl_workers p')"
proof (induction g arbitrary: p)
  case Nil
  show ?case by (auto simp: all_exited_def)
next
  case (Cons i g)
  from Cons.prems [of i] cancelled_leaves obtain q where q: "work_step\<^sup>*\<^sup>* p q" "exited_at q i" by fastforce
  note kept = work_run_keeps [OF q(1)]
  from Cons.prems kept have "\<And>j. j \<in> set g \<Longrightarrow> j < length (pl_workers q) \<and> cancelled_at q j" by simp
  then obtain r where r: "work_step\<^sup>*\<^sup>* q r" "all_exited g (pl_workers r)" using Cons.IH by blast
  from q r work_run_keeps [OF r(1)] show ?case
    by (intro exI [of _ r]) (auto simp: all_exited_def)
qed

lemma work_is_step: "work_step\<^sup>*\<^sup>* p p' \<Longrightarrow> pool_step\<^sup>*\<^sup>* p p'"
  by (induction rule: rtranclp_induct) (auto simp: work_step_def intro: rtranclp.rtrancl_into_rtrancl pool_step.work)

lemma pool_run_groups: "pool_step\<^sup>*\<^sup>* p p' \<Longrightarrow> groups_ok p \<Longrightarrow> groups_ok p'"
  by (induction rule: rtranclp_induct) (auto intro: groups_step)

text \<open>
  C34: Closing the pool can always be completed: in every state of a pool that is being closed, whatever the
  workers are doing, the steps of the workers and of the closing caller alone lead to a
  state in which the channel is closed and the caller has returned.
\<close>

theorem close_completes:
  assumes "pool_step\<^sup>*\<^sup>* NewRpcWorkerPool p" "pl_control p = Closing ws gs"
  shows "\<exists>p'. (\<lambda>q q'. work_step q q' \<or> close_next q = Some q')\<^sup>*\<^sup>* p p' \<and> pl_txsClosed p' \<and> pl_control p' = Idle"
proof -
  let ?R = "\<lambda>q q'. work_step q q' \<or> close_next q = Some q'"
  have ready: "\<exists>q. ?R\<^sup>*\<^sup>* p q \<and> groups_ok q \<and> all_exited ws (pl_workers q) \<and> pl_control q = Closing ws gs"
    if "groups_ok p" "pl_control p = Closing ws gs" for p :: "'a RpcWorkerPool" and ws gs
  proof -
    from that group_leaves [of ws p] obtain q where q: "work_step\<^sup>*\<^sup>* p q" "all_exited ws (pl_workers q)"
      by (auto simp: groups_ok_def)
    from q(1) have "?R\<^sup>*\<^sup>* p q" by (rule mono_rtranclp [rule_format, rotated]) blast
    with q that work_run_keeps [OF q(1)] pool_run_groups [OF work_is_step [OF q(1)]] show ?thesis by auto
  qed
  have "\<exists>p'. ?R\<^sup>*\<^sup>* p p' \<and> pl_txsClosed p' \<and> pl_control p' = Idle" if "groups_ok p" "pl_control p = Closing ws gs" for p :: "'a RpcWorkerPool" and ws
    using that
  proof (induction gs arbitrary: p ws)
    case Nil
    from ready [OF Nil] obtain q where q: "?R\<^sup>*\<^sup>* p q" "all_exited ws (pl_workers q)" "pl_control q = Closing ws []" by blast
    then have "close_next q = Some (q\<lparr>pl_txsClosed := True, pl_control := Idle\<rparr>)" by (simp add: close_next_def)
    with q(1) show ?case by (intro exI [of _ "q\<lparr>pl_txsClosed := True, pl_control := Idle\<rparr>"]) (auto intro: rtranclp.rtrancl_into_rtrancl)
  next
    case (Cons g gs)
    from ready [OF Cons.prems] obtain q where q: "?R\<^sup>*\<^sup>* p q" "groups_ok q" "all_exited ws (pl_workers q)" "pl_control q = Closing ws (g # gs)"
      by blast
    then obtain r where r: "close_next q = Some r" "pl_control r = Closing (awaited g (pl_workers q)) gs" by (simp add: close_next_def)
    from Cons.IH [OF groups_step [OF pool_step.closing [OF r(1)] q(2)] r(2)] obtain p'
      where p': "?R\<^sup>*\<^sup>* r p'" "pl_txsClosed p'" "pl_control p' = Idle" by blast
    from r(1) have "?R q r" by simp
    from q(1) this p'(1) have "?R\<^sup>*\<^sup>* p p'" by (rule rtranclp_trans [OF rtranclp.rtrancl_into_rtrancl])
    with p' show ?case by blast
  qed
  moreover have "groups_ok p"
    using pool_run_groups [OF assms(1)] by (simp add: groups_ok_def NewRpcWorkerPool_def)
  ultimately show ?thesis using assms(2) by blast
qed

theorem close_completes_witness:
  "pl_control (Close demo_open) = Closing [] [[0..<150]] \<and>
   (\<exists>p'. (\<lambda>q q'. work_step q q' \<or> close_next q = Some q')\<^sup>*\<^sup>* (Close demo_open) p' \<and> pl_txsClosed p' \<and> pl_control p' = Idle)"
proof -
  have "pool_step\<^sup>*\<^sup>* NewRpcWorkerPool demo_open"
    unfolding demo_open_def
    by (rule rtranclp.rtrancl_into_rtrancl [OF r_into_rtranclp [of pool_step, OF pool_step.register]], rule pool_step.create)
      (simp add: RegisterObserver_def NewRpcWorkerPool_def)
  then have "pool_step\<^sup>*\<^sup>* NewRpcWorkerPool (Close demo_open)"
    by (rule rtranclp.rtrancl_into_rtrancl, intro pool_step.close)
      (simp add: demo_open_def AfterNodeCreation_def RegisterObserver_def NewRpcWorkerPool_def Let_def)
  moreover have control: "pl_control (Close demo_open) = Closing [] [[0..<150]]"
    by (simp add: Close_def demo_open_def AfterNodeCreation_def RegisterObserver_def NewRpcWorkerPool_def Let_def workers_per_node_def)
  ultimately show ?thesis using close_completes [of "Close demo_open" "[]" "[[0..<150]]"] by blast
qed

end
