(* ===== verification/Monitor_Logs.thy ===== *)
theory Monitor_Logs
  imports Go_Duration Complex_Main
begin

text \<open>
  What the monitoring reads from the nodes: the blocks in a client's log (\<open>driver/monitoring/logreader.go\<close>)
  and the metrics in the text format of Prometheus (\<open>driver/monitoring/promlogreader.go\<close>). Numbers with a
  fraction and the dates of a log are read by the standard library with parameters \<open>parse_float\<close> and \<open>parse_time\<close>.
\<close>

section \<open>Searching\<close>

text \<open>
  A regular expression of the log reader is a key, which ends in an equals sign, followed by a run that is
  described by the longest match from a position on. The leftmost position with a match counts.
\<close>

fun find_key :: "string \<Rightarrow> (string \<Rightarrow> string option) \<Rightarrow> string \<Rightarrow> string option" where
  "find_key key run [] = None"
| "find_key key run (c # s) =
     (case (if HasPrefix (c # s) key then run (drop (length key) (c # s)) else None) of
        None \<Rightarrow> find_key key run s
      | Some v \<Rightarrow> Some v)"

definition re_S :: "char \<Rightarrow> bool" where
  "re_S c \<longleftrightarrow> c \<notin> {CHR 0x09, CHR 0x0A, CHR 0x0C, CHR 0x0D, CHR '' ''}"

definition run_S :: "string \<Rightarrow> string option" where
  "run_S s = Some (takeWhile re_S s)"

definition run_digits :: "string \<Rightarrow> string option" where
  "run_digits s = Some (takeWhile is_digit s)"

definition run_digits1 :: "string \<Rightarrow> string option" where
  "run_digits1 s = (let ds = takeWhile is_digit s in if ds = [] then None else Some ds)"

definition run_rate :: "string \<Rightarrow> string option" where
  "run_rate s =
     (case run_digits1 s of
        None \<Rightarrow> None
      | Some ds \<Rightarrow>
          (case dropWhile is_digit s of
             c # rest \<Rightarrow> Some (if c = CHR ''.'' then ds @ [c] @ takeWhile is_digit rest else ds)
           | [] \<Rightarrow> Some ds))"

text \<open>The timestamp: from a bracket to the last closing one before white space; empty if there is none.\<close>

fun find_brackets :: "string \<Rightarrow> string" where
  "find_brackets [] = []"
| "find_brackets (c # s) =
     (let run = takeWhile re_S s; upto = rev (dropWhile (\<lambda>x. x \<noteq> CHR '']'') (rev run))
      in if c = CHR ''['' \<and> upto \<noteq> [] then c # upto else find_brackets s)"

definition Contains :: "string \<Rightarrow> string \<Rightarrow> bool" where
  "Contains s sub \<longleftrightarrow> list_ex (\<lambda>i. HasPrefix (drop i s) sub) [0..<Suc (length s)]"

definition Trim :: "char \<Rightarrow> string \<Rightarrow> string" where
  "Trim q s = rev (dropWhile (\<lambda>c. c = q) (rev (dropWhile (\<lambda>c. c = q) s)))"

section \<open>Blocks\<close>

record Block =
  bl_Height :: int
  bl_Time :: gotime
  bl_Txs :: int
  bl_GasUsed :: int
  bl_ProcessingTime :: duration
  bl_GasBaseFee :: int
  bl_GasRate :: real

text \<open>Indexing past the end of a split string panics.\<close>

datatype log_error = LogPanic | LogError

definition attribute :: "string \<Rightarrow> (string \<Rightarrow> string option) \<Rightarrow> string \<Rightarrow> log_error + string" where
  "attribute key run line =
     (case str_split CHR ''='' (case find_key key run line of None \<Rightarrow> [] | Some v \<Rightarrow> key @ v) of
        _ # v # _ \<Rightarrow> Inr v
      | _ \<Rightarrow> Inl LogPanic)"

definition or_error :: "'a option \<Rightarrow> log_error + 'a" where
  "or_error x = (case x of None \<Rightarrow> Inl LogError | Some v \<Rightarrow> Inr v)"

definition bind_log :: "log_error + 'a \<Rightarrow> ('a \<Rightarrow> log_error + 'b) \<Rightarrow> log_error + 'b" where
  "bind_log x f = (case x of Inl e \<Rightarrow> Inl e | Inr v \<Rightarrow> f v)"

definition parseBlock :: "(string \<Rightarrow> gotime option) \<Rightarrow> (string \<Rightarrow> real option) \<Rightarrow> string \<Rightarrow> log_error + Block" where
  "parseBlock parse_time parse_float line =
     bind_log (attribute ''index='' run_digits line) (\<lambda>blockNumberStr.
     bind_log (attribute ''gas_used='' run_S line) (\<lambda>gasUsed0.
     bind_log (attribute ''gas_rate='' run_rate line) (\<lambda>gasRateStr.
     bind_log (attribute ''base_fee='' run_digits1 line) (\<lambda>baseFeeStr.
     bind_log (attribute ''txs='' run_digits1 line) (\<lambda>txsStr.
     bind_log (attribute ''t='' run_S line) (\<lambda>processingTime0.
     bind_log (or_error (Atoi blockNumberStr)) (\<lambda>blockNumber.
     bind_log (or_error (parse_time (find_brackets line))) (\<lambda>timestamp.
     bind_log (or_error (Atoi txsStr)) (\<lambda>txs.
     bind_log (or_error (Atoi (filter (\<lambda>c. c \<noteq> CHR '','') gasUsed0))) (\<lambda>gasUsed.
     bind_log (or_error (parse_float gasRateStr)) (\<lambda>gasRate.
     bind_log (or_error (Atoi baseFeeStr)) (\<lambda>baseFeeUsed.
     case ParseDuration (Trim CHR 0x22 processingTime0) of
       Inl _ \<Rightarrow> Inl LogError
     | Inr processingTime \<Rightarrow>
         Inr \<lparr>bl_Height = blockNumber, bl_Time = timestamp, bl_Txs = txs, bl_GasUsed = gasUsed,
              bl_ProcessingTime = processingTime, bl_GasBaseFee = baseFeeUsed, bl_GasRate = gasRate\<rparr>))))))))))))"

text \<open>The blocks sent before the reader ends, and how it ends; \<open>parse\<close> is \<open>parseBlock\<close> and \<open>failed\<close> an error of the scanner.\<close>

fun readBlocks :: "(string \<Rightarrow> log_error + Block) \<Rightarrow> bool \<Rightarrow> string list \<Rightarrow> Block list \<times> log_error option" where
  "readBlocks parse failed [] = ([], if failed then Some LogError else None)"
| "readBlocks parse failed (line # lines) =
     (if Contains line ''New block'' then
        (case parse line of
           Inl e \<Rightarrow> ([], Some e)
         | Inr block \<Rightarrow> let (blocks, e) = readBlocks parse failed lines in (block # blocks, e))
      else readBlocks parse failed lines)"

section \<open>Metrics\<close>

record PrometheusLogValue =
  pv_Name :: string
  pv_Quantile :: string
  pv_metricType :: string
  pv_value :: real

definition isBlacklistedValue :: "string list \<Rightarrow> bool" where
  "isBlacklistedValue tokens \<longleftrightarrow> length tokens = 3 \<and> tokens ! 0 = ''chain_info''"

definition quantile_open :: string where
  "quantile_open = ''{quantile='' @ [CHR 0x22]"

definition matches_quantile :: "string \<Rightarrow> bool" where
  "matches_quantile s \<longleftrightarrow>
     list_ex (\<lambda>i. HasPrefix (drop i s) quantile_open \<and> Contains (drop (i + length quantile_open) s) [CHR 0x22, CHR ''}'']) [0..<length s]"

text \<open>\<open>Inr None\<close> is a value to skip.\<close>

definition fillValue ::
  "(string \<Rightarrow> real option) \<Rightarrow> string list \<Rightarrow> PrometheusLogValue \<Rightarrow> log_error + PrometheusLogValue option" where
  "fillValue parse_float tokens dest =
     (if isBlacklistedValue tokens then Inr None
      else
        let (dest1, valueStr) =
              (if length tokens \<ge> 3 \<and> matches_quantile (tokens ! 1)
               then (dest\<lparr>pv_Quantile := str_split CHR 0x22 (tokens ! 1) ! 1\<rparr>, tokens ! 2)
               else (dest, tokens ! 1))
        in case parse_float valueStr of
             None \<Rightarrow> Inl LogError
           | Some v \<Rightarrow> Inr (Some (dest1\<lparr>pv_value := v\<rparr>)))"

text \<open>
  One line after the other with the metric it belongs to, the values so far and the number of
  lines that could not be read. \<open>None\<close> is a panic.
\<close>

fun parse_lines ::
  "(string \<Rightarrow> real option) \<Rightarrow> string list \<Rightarrow> string \<times> string \<Rightarrow> PrometheusLogValue list \<times> nat \<Rightarrow>
     (PrometheusLogValue list \<times> nat) option" where
  "parse_lines parse_float [] cur acc = Some acc"
| "parse_lines parse_float (line # lines) (currentName, nextType) (res, errs) =
     (let tokens = str_split CHR '' '' line
      in if length tokens \<ge> 2 then
           if tokens ! 1 = ''TYPE'' then
             if length tokens \<ge> 4 then parse_lines parse_float lines (tokens ! 2, tokens ! 3) (res, errs) else None
           else if tokens ! 0 = currentName then
             (case fillValue parse_float tokens \<lparr>pv_Name = currentName, pv_Quantile = [], pv_metricType = nextType, pv_value = 0\<rparr> of
                Inl _ \<Rightarrow> parse_lines parse_float lines (currentName, nextType) (res, Suc errs)
              | Inr None \<Rightarrow> parse_lines parse_float lines (currentName, nextType) (res, errs)
              | Inr (Some val) \<Rightarrow> parse_lines parse_float lines (currentName, nextType) (res @ [val], errs))
           else parse_lines parse_float lines (currentName, nextType) (res, Suc errs)
         else parse_lines parse_float lines (currentName, nextType) (res, errs))"

definition ParsePrometheusLogReader ::
  "(string \<Rightarrow> real option) \<Rightarrow> string list \<Rightarrow> (PrometheusLogValue list \<times> nat) option" where
  "ParsePrometheusLogReader parse_float lines = parse_lines parse_float lines ([], []) ([], 0)"

end
