(* ===== verification/Monitor_Logs_Properties.thy ===== *)
theory Monitor_Logs_Properties
  imports Monitor_Logs
begin

text \<open>What the clients print is read back, from the logs and from the metrics.\<close>

section \<open>Attributes\<close>

lemma HasPrefix_iff: "HasPrefix s p \<longleftrightarrow> (\<exists>t. s = p @ t)"
  unfolding HasPrefix_def by (metis append_take_drop_id append_eq_conv_conj)

lemma prefix_at_equals:
  assumes "CHR ''='' \<notin> set q" "CHR ''='' \<notin> set k"
  shows "HasPrefix (q @ CHR ''='' # rest) (k @ ''='') \<longleftrightarrow> q = k"
proof
  assume "HasPrefix (q @ CHR ''='' # rest) (k @ ''='')"
  then obtain t where "q @ CHR ''='' # rest = k @ CHR ''='' # t" by (auto simp: HasPrefix_iff)
  then have "takeWhile (\<lambda>c. c \<noteq> CHR ''='') (q @ CHR ''='' # rest) = takeWhile (\<lambda>c. c \<noteq> CHR ''='') (k @ CHR ''='' # t)"
    by simp
  moreover have "takeWhile (\<lambda>c. c \<noteq> CHR ''='') (x @ CHR ''='' # y) = x" if "CHR ''='' \<notin> set x" for x y
    using that by (induction x) auto
  ultimately show "q = k" using assms by simp
qed (simp add: HasPrefix_iff)

lemma HasSuffix_Cons: "HasSuffix (c # s) k \<longleftrightarrow> c # s = k \<or> HasSuffix s k"
proof (cases "length k \<le> length s")
  case True
  then have "length (c # s) - length k = Suc (length s - length k)" by simp
  with True show ?thesis by (auto simp: HasSuffix_def)
next
  case False
  then show ?thesis by (auto simp: HasSuffix_def)
qed

text \<open>Between two equals signs, a key is found exactly if the text ends in it.\<close>

lemma find_key_equals:
  assumes "CHR ''='' \<notin> set p" "CHR ''='' \<notin> set k" "k \<noteq> []"
  shows "find_key (k @ ''='') run (p @ CHR ''='' # rest) =
           (case (if HasSuffix p k then run rest else None) of None \<Rightarrow> find_key (k @ ''='') run rest | Some v \<Rightarrow> Some v)"
  using assms(1)
proof (induction p)
  case Nil
  from assms(2,3) prefix_at_equals [of "[]" k rest] show ?case by (simp add: HasSuffix_def)
next
  case (Cons c p)
  then have p: "CHR ''='' \<notin> set p" "CHR ''='' \<notin> set (c # p)" by auto
  note step = prefix_at_equals [OF p(2) assms(2), of rest]
  show ?case
  proof (cases "c # p = k")
    case True
    then have "\<not> HasSuffix p k" by (auto simp: HasSuffix_def)
    with step Cons.IH [OF p(1)] show ?thesis
      unfolding True [symmetric] by (simp add: HasSuffix_Cons split: option.split)
  next
    case False
    with step Cons.IH [OF p(1)] show ?thesis by (simp add: HasSuffix_Cons)
  qed
qed

lemma attribute_value:
  assumes "find_key (k @ ''='') run line = Some v" "CHR ''='' \<notin> set k" "CHR ''='' \<notin> set v"
  shows "attribute (k @ ''='') run line = Inr v"
  using assms by (simp add: attribute_def split_append split_single)

text \<open>A text as the parts that equals signs separate, each with the word it ends in.\<close>

fun glue :: "(string \<times> string) list \<Rightarrow> string \<Rightarrow> string" where
  "glue [] s = s"
| "glue ((x, word) # ps) s = x @ word @ CHR ''='' # glue ps s"

definition may_end :: "string \<Rightarrow> string \<Rightarrow> bool" where
  "may_end word k \<longleftrightarrow> (if length k \<le> length word then HasSuffix word k else HasSuffix k word)"

lemma may_end: "HasSuffix (x @ word) k \<Longrightarrow> may_end word k"
proof -
  assume "HasSuffix (x @ word) k"
  then obtain y where "x @ word = y @ k" unfolding HasSuffix_def by (metis append_take_drop_id)
  then show ?thesis by (auto simp: may_end_def HasSuffix_def append_eq_append_conv2)
qed

lemma find_key_glue:
  assumes "CHR ''='' \<notin> set k" "k \<noteq> []"
    and "list_all (\<lambda>(x, word). CHR ''='' \<notin> set (x @ word) \<and> \<not> may_end word k) pre"
    and "CHR ''='' \<notin> set (x @ word)" "length k \<le> length word" "HasSuffix word k" "run (glue post s) = Some v"
  shows "find_key (k @ ''='') run (glue (pre @ (x, word) # post) s) = Some v"
  using assms(3)
proof (induction pre)
  case Nil
  from assms(5,6) have "HasSuffix (x @ word) k" by (simp add: HasSuffix_def)
  with find_key_equals [of "x @ word" k run "glue post s"] assms show ?case by simp
next
  case (Cons q pre)
  obtain y w where q: "q = (y, w)" by (cases q)
  with Cons.prems may_end [of y w k] have "\<not> HasSuffix (y @ w) k" "CHR ''='' \<notin> set (y @ w)" by auto
  with find_key_equals [of "y @ w" k run "glue (pre @ (x, word) # post) s"] Cons assms(1,2) show ?case by (simp add: q)
qed

section \<open>Lines\<close>

text \<open>A line as the client prints it for a block.\<close>

record logged_block =
  lb_time :: string
  lb_index :: nat
  lb_id :: string
  lb_gas :: string
  lb_fee :: nat
  lb_rate :: "nat \<times> string"
  lb_txs :: nat
  lb_skipped :: string
  lb_age :: string
  lb_duration :: string

definition rate_text :: "nat \<times> string \<Rightarrow> string" where
  "rate_text r = itoa (fst r) @ ''.'' @ snd r"

definition client_line :: "logged_block \<Rightarrow> string" where
  "client_line b =
     ''INFO ['' @ lb_time b @ ''] New block index='' @ itoa (lb_index b) @ '' id='' @ lb_id b @ '' gas_used='' @ lb_gas b @
     '' base_fee='' @ itoa (lb_fee b) @ '' gas_rate='' @ rate_text (lb_rate b) @ '' txs='' @ itoa (lb_txs b) @ ''/'' @ lb_skipped b @
     '' age='' @ lb_age b @ '' t='' @ lb_duration b"

definition plain :: "string \<Rightarrow> bool" where
  "plain s \<longleftrightarrow> list_all (\<lambda>c. re_S c \<and> c \<noteq> CHR ''='' \<and> c \<noteq> CHR 0x22) s"

lemma plainD: "plain s \<Longrightarrow> CHR ''='' \<notin> set s \<and> list_all re_S s \<and> CHR 0x22 \<notin> set s"
  by (auto simp: plain_def list_all_iff)

lemma digit_facts: "is_digit c \<Longrightarrow> c \<noteq> CHR ''='' \<and> re_S c"
  by (auto simp: is_digit_def re_S_def)

lemma itoa_no_equals [simp]: "CHR ''='' \<notin> set (itoa n)"
  using itoa_digits [of n] digit_facts by (auto simp: list_all_iff)

lemma takeWhile_space: "list_all P s \<Longrightarrow> \<not> P c \<Longrightarrow> takeWhile P (s @ c # t) = s"
  by (induction s) auto

lemma dropWhile_space: "list_all P s \<Longrightarrow> \<not> P c \<Longrightarrow> dropWhile P (s @ c # t) = c # t"
  by (induction s) auto

lemma not_classes [simp]: "\<not> re_S CHR '' ''" "\<not> is_digit CHR '' ''" "\<not> is_digit CHR ''.''" "\<not> is_digit CHR ''/''" "re_S CHR '']''"
  by (simp_all add: re_S_def is_digit_def)

lemma runs_to_space:
  "run_digits (itoa n @ CHR '' '' # t) = Some (itoa n)"
  "run_digits1 (itoa n @ CHR '' '' # t) = Some (itoa n)"
  "run_digits1 (itoa n @ CHR ''/'' # t) = Some (itoa n)"
  "list_all re_S s \<Longrightarrow> run_S (s @ CHR '' '' # t) = Some s"
  "list_all re_S s \<Longrightarrow> run_S s = Some s"
  "list_all is_digit ds \<Longrightarrow> run_rate (itoa n @ CHR ''.'' # ds @ CHR '' '' # t) = Some (itoa n @ CHR ''.'' # ds)"
  using itoa_digits [of n]
  by (simp_all add: run_digits_def run_digits1_def run_S_def run_rate_def takeWhile_space dropWhile_space takeWhile_eq_all_conv list_all_iff)

lemma find_timestamp: "list_all re_S ts \<Longrightarrow> find_brackets (''INFO ['' @ ts @ CHR '']'' # CHR '' '' # rest) = CHR ''['' # ts @ '']''"
  using takeWhile_space [of re_S "ts @ '']''" "CHR '' ''" rest] by simp

definition line_parts :: "logged_block \<Rightarrow> (string \<times> string) list" where
  "line_parts b =
     [(''INFO ['' @ lb_time b @ ''] New block '', ''index''), (itoa (lb_index b), '' id''), (lb_id b, '' gas_used''), (lb_gas b, '' base_fee''),
      (itoa (lb_fee b), '' gas_rate''), (rate_text (lb_rate b), '' txs''), (itoa (lb_txs b) @ ''/'' @ lb_skipped b, '' age''),
      (lb_age b, '' t'')]"

lemma client_line_parts: "client_line b = glue (line_parts b) (lb_duration b)"
  by (simp add: client_line_def line_parts_def)

text \<open>The texts a client prints are plain, and the numbers are as large as the reader can represent.\<close>

definition printable :: "logged_block \<Rightarrow> bool" where
  "printable b \<longleftrightarrow>
     plain (lb_time b) \<and> plain (lb_id b) \<and> plain (lb_gas b) \<and> plain (lb_skipped b) \<and> plain (lb_age b) \<and> plain (lb_duration b) \<and>
     list_all is_digit (snd (lb_rate b)) \<and> lb_index b < 2 ^ 63 \<and> lb_fee b < 2 ^ 63 \<and> lb_txs b < 2 ^ 63"

lemma digits_no_equals: "list_all is_digit ds \<Longrightarrow> CHR ''='' \<notin> set ds"
  using digit_facts by (auto simp: list_all_iff)

lemma printable_parts: "printable b \<Longrightarrow> list_all (\<lambda>(x, word). CHR ''='' \<notin> set (x @ word)) (line_parts b)"
  by (auto simp: printable_def line_parts_def rate_text_def dest!: plainD digits_no_equals)

lemma attribute_at:
  assumes "printable b" "CHR ''='' \<notin> set k" "k \<noteq> []" "i < length (line_parts b)"
    and "list_all (\<lambda>(x, word). \<not> may_end word k) (take i (line_parts b))"
    and "length k \<le> length (snd (line_parts b ! i))" "HasSuffix (snd (line_parts b ! i)) k"
    and "run (glue (drop (Suc i) (line_parts b)) (lb_duration b)) = Some v" "CHR ''='' \<notin> set v"
  shows "attribute (k @ ''='') run (client_line b) = Inr v"
proof (rule attribute_value)
  obtain x word where at: "line_parts b ! i = (x, word)" by (cases "line_parts b ! i")
  then have parts: "line_parts b = take i (line_parts b) @ (x, word) # drop (Suc i) (line_parts b)"
    using assms(4) by (metis id_take_nth_drop)
  have here: "CHR ''='' \<notin> set (x @ word)"
    using printable_parts [OF assms(1)] nth_mem [OF assms(4)] at by (force simp: list_all_iff)
  have "find_key (k @ ''='') run (glue (take i (line_parts b) @ (x, word) # drop (Suc i) (line_parts b)) (lb_duration b)) = Some v"
    using printable_parts [OF assms(1)] assms at here
    by (intro find_key_glue) (auto simp: list_all_iff split_beta dest: in_set_takeD nth_mem)
  then show "find_key (k @ ''='') run (client_line b) = Some v"
    using parts by (simp add: client_line_parts)
qed (use assms in auto)

lemmas at_simps = line_parts_def may_end_def HasSuffix_def rate_text_def runs_to_space

lemma line_attributes:
  assumes b: "printable b"
  shows "attribute ''index='' run_digits (client_line b) = Inr (itoa (lb_index b))"
    and "attribute ''gas_used='' run_S (client_line b) = Inr (lb_gas b)"
    and "attribute ''gas_rate='' run_rate (client_line b) = Inr (rate_text (lb_rate b))"
    and "attribute ''base_fee='' run_digits1 (client_line b) = Inr (itoa (lb_fee b))"
    and "attribute ''txs='' run_digits1 (client_line b) = Inr (itoa (lb_txs b))"
    and "attribute ''t='' run_S (client_line b) = Inr (lb_duration b)"
proof -
  from b have texts: "list_all re_S (lb_gas b)" "CHR ''='' \<notin> set (lb_gas b)" "list_all re_S (lb_duration b)" "CHR ''='' \<notin> set (lb_duration b)"
    "list_all is_digit (snd (lb_rate b))" "CHR ''='' \<notin> set (snd (lb_rate b))"
    by (auto simp: printable_def dest!: plainD digits_no_equals)
  note at = attribute_at [OF b]
  show "attribute ''index='' run_digits (client_line b) = Inr (itoa (lb_index b))"
    using at [of "''index''" 0 run_digits "itoa (lb_index b)"] by (simp add: at_simps)
  show "attribute ''gas_used='' run_S (client_line b) = Inr (lb_gas b)"
    using at [of "''gas_used''" 2 run_S "lb_gas b"] texts by (simp add: at_simps)
  show "attribute ''gas_rate='' run_rate (client_line b) = Inr (rate_text (lb_rate b))"
    using at [of "''gas_rate''" 4 run_rate "rate_text (lb_rate b)"] texts by (simp add: at_simps)
  show "attribute ''base_fee='' run_digits1 (client_line b) = Inr (itoa (lb_fee b))"
    using at [of "''base_fee''" 3 run_digits1 "itoa (lb_fee b)"] by (simp add: at_simps)
  show "attribute ''txs='' run_digits1 (client_line b) = Inr (itoa (lb_txs b))"
    using at [of "''txs''" 5 run_digits1 "itoa (lb_txs b)"] by (simp add: at_simps)
  show "attribute ''t='' run_S (client_line b) = Inr (lb_duration b)"
    using at [of "''t''" 7 run_S "lb_duration b"] texts by (simp add: at_simps)
qed

lemma Trim_plain: "plain s \<Longrightarrow> Trim CHR 0x22 s = s"
proof -
  assume "plain s"
  then have "dropWhile (\<lambda>c. c = CHR 0x22) s = s" "dropWhile (\<lambda>c. c = CHR 0x22) (rev s) = rev s"
    by (auto dest!: plainD intro!: dropWhile_hd) (metis hd_in_set set_rev empty_iff list.set(1) rev.simps(1) rev_rev_ident)+
  then show ?thesis by (simp add: Trim_def)
qed

text \<open>What a block is expected to be read as; \<open>None\<close> if a text of it is no number.\<close>

definition read_back :: "(string \<Rightarrow> gotime option) \<Rightarrow> (string \<Rightarrow> real option) \<Rightarrow> logged_block \<Rightarrow> Block option" where
  "read_back parse_time parse_float b =
     (case (parse_time (CHR ''['' # lb_time b @ '']''), Atoi (filter (\<lambda>c. c \<noteq> CHR '','') (lb_gas b)),
            parse_float (rate_text (lb_rate b)), ParseDuration (lb_duration b)) of
        (Some t, Some g, Some r, Inr d) \<Rightarrow>
          Some \<lparr>bl_Height = int (lb_index b), bl_Time = t, bl_Txs = int (lb_txs b), bl_GasUsed = g,
                bl_ProcessingTime = d, bl_GasBaseFee = int (lb_fee b), bl_GasRate = r\<rparr>
      | _ \<Rightarrow> None)"

lemma client_line_time: "printable b \<Longrightarrow> find_brackets (client_line b) = CHR ''['' # lb_time b @ '']''"
  using find_timestamp [of "lb_time b"] by (simp add: client_line_def printable_def plainD)

lemma parse_client_line:
  assumes "printable b"
  shows "parseBlock parse_time parse_float (client_line b) = or_error (read_back parse_time parse_float b)"
proof -
  from assms have "Trim CHR 0x22 (lb_duration b) = lb_duration b" "lb_index b < 2 ^ 63" "lb_fee b < 2 ^ 63" "lb_txs b < 2 ^ 63"
    by (simp_all add: printable_def Trim_plain)
  then show ?thesis
    by (simp add: parseBlock_def line_attributes [OF assms] client_line_time [OF assms] bind_log_def or_error_def Atoi_itoa
        read_back_def split: option.split sum.split)
qed

lemma client_line_marked: "Contains (client_line b) ''New block''"
proof -
  have "client_line b = (''INFO ['' @ lb_time b @ ''] '') @ ''New block'' @ drop (length (''INFO ['' @ lb_time b @ ''] New block'')) (client_line b)"
    by (simp add: client_line_def)
  then have "HasPrefix (drop (length (''INFO ['' @ lb_time b @ ''] '')) (client_line b)) ''New block''"
    by (metis HasPrefix_append append_eq_conv_conj)
  moreover have "length (''INFO ['' @ lb_time b @ ''] '') < Suc (length (client_line b))" by (simp add: client_line_def)
  ultimately show ?thesis unfolding Contains_def list_ex_iff by (metis atLeastLessThan_iff set_upt zero_le)
qed

text \<open>
  C39: A log is read back: the blocks that a client prints, between any lines that announce none, are
  reported in their order with the numbers they were printed from, and the reader ends without an
  error, whatever the identifiers, ages and skipped transactions on the lines.
\<close>

theorem log_read_back:
  assumes other: "\<And>l. Inl l \<in> set entries \<Longrightarrow> \<not> Contains l ''New block''"
    and printed: "\<And>b. Inr b \<in> set entries \<Longrightarrow> printable b \<and> read_back parse_time parse_float b \<noteq> None"
  shows "readBlocks (parseBlock parse_time parse_float) False (map (case_sum id client_line) entries) =
           (map (the \<circ> read_back parse_time parse_float) (concat (map (case_sum (\<lambda>_. []) (\<lambda>b. [b])) entries)), None)"
  using assms
proof (induction entries)
  case (Cons e entries)
  then have IH: "readBlocks (parseBlock parse_time parse_float) False (map (case_sum id client_line) entries) =
           (map (the \<circ> read_back parse_time parse_float) (concat (map (case_sum (\<lambda>_. []) (\<lambda>b. [b])) entries)), None)"
    by (meson list.set_intros(2))
  show ?case
  proof (cases e)
    case (Inl l)
    with Cons.prems(1) [of l] IH show ?thesis by simp
  next
    case (Inr b)
    with Cons.prems(2) [of b] obtain r where "printable b" "read_back parse_time parse_float b = Some r" by auto
    with Inr IH show ?thesis by (simp add: client_line_marked parse_client_line or_error_def)
  qed
qed simp

text \<open>A line like the one of the comment in the source, after a line about something else.\<close>

definition demo_logged :: logged_block where
  "demo_logged =
     \<lparr>lb_time = ''05-04|09:34:15.537'', lb_index = 3, lb_id = ''3:1:3d6fb6'', lb_gas = ''117,867'', lb_fee = 123, lb_rate = (1, ''23''), lb_txs = 1,
      lb_skipped = ''0'', lb_age = ''343.255ms'', lb_duration = ''2s''\<rparr>"

definition demo_time :: "string \<Rightarrow> gotime option" where
  "demo_time s = (if s = ''[05-04|09:34:15.537]'' then Some 1683192855 else None)"

definition demo_float :: "string \<Rightarrow> real option" where
  "demo_float s = (if s = ''1.23'' then Some (123 / 100) else None)"

theorem log_read_back_witness:
  "client_line demo_logged =
     ''INFO [05-04|09:34:15.537] New block index=3 id=3:1:3d6fb6 gas_used=117,867 base_fee=123 gas_rate=1.23 txs=1/0 age=343.255ms t=2s'' \<and>
   readBlocks (parseBlock demo_time demo_float) False [''INFO [05-04|09:34:15.001] New epoch index=2'', client_line demo_logged] =
     ([\<lparr>bl_Height = 3, bl_Time = 1683192855, bl_Txs = 1, bl_GasUsed = 117867, bl_ProcessingTime = 2000000000, bl_GasBaseFee = 123,
        bl_GasRate = 123 / 100\<rparr>], None)"
proof -
  have line: "client_line demo_logged =
     ''INFO [05-04|09:34:15.537] New block index=3 id=3:1:3d6fb6 gas_used=117,867 base_fee=123 gas_rate=1.23 txs=1/0 age=343.255ms t=2s''"
    by code_simp
  have other: "\<not> Contains ''INFO [05-04|09:34:15.001] New epoch index=2'' ''New block''" by code_simp
  have printable: "printable demo_logged" by (simp add: printable_def plain_def demo_logged_def re_S_def is_digit_def)
  have two: "itoa 2 = ''2''" by code_simp
  have "rate_text (lb_rate demo_logged) = ''1.23''" by code_simp
  moreover have "ParseDuration (lb_duration demo_logged) = Inr 2000000000"
    using ParseDuration_seconds [of 2] by (simp add: two demo_logged_def)
  moreover have "Atoi (filter (\<lambda>c. c \<noteq> CHR '','') (lb_gas demo_logged)) = Some 117867"
    by (simp add: demo_logged_def Atoi_def parse_nat_def digits_val_def digit_val_def is_digit_def)
  ultimately have texts: "rate_text (lb_rate demo_logged) = ''1.23''" "ParseDuration (lb_duration demo_logged) = Inr 2000000000"
    "Atoi (filter (\<lambda>c. c \<noteq> CHR '','') (lb_gas demo_logged)) = Some 117867" by simp_all
  have read: "read_back demo_time demo_float demo_logged =
    Some \<lparr>bl_Height = 3, bl_Time = 1683192855, bl_Txs = 1, bl_GasUsed = 117867, bl_ProcessingTime = 2000000000, bl_GasBaseFee = 123,
        bl_GasRate = 123 / 100\<rparr>"
    by (simp add: read_back_def texts demo_time_def demo_float_def) (simp add: demo_logged_def)
  show ?thesis
    using log_read_back [of "[Inl ''INFO [05-04|09:34:15.001] New epoch index=2'', Inr demo_logged]" demo_time demo_float] line other printable read
    by simp
qed

section \<open>Metrics\<close>

text \<open>A metric as it is exposed: its name and type, and its values with an optional quantile.\<close>

record metric =
  mt_name :: string
  mt_type :: string
  mt_values :: "(string option \<times> string) list"

definition quantile_text :: "string \<Rightarrow> string" where
  "quantile_text q = quantile_open @ q @ [CHR 0x22, CHR ''}'']"

definition value_line :: "string \<Rightarrow> string option \<times> string \<Rightarrow> string" where
  "value_line name v =
     name @ '' '' @ (case fst v of None \<Rightarrow> [] | Some q \<Rightarrow> quantile_text q @ '' '') @ snd v"

definition metric_lines :: "metric \<Rightarrow> string list" where
  "metric_lines m = (''# TYPE '' @ mt_name m @ '' '' @ mt_type m) # map (value_line (mt_name m)) (mt_values m) @ [[]]"

definition metric_values :: "(string \<Rightarrow> real option) \<Rightarrow> metric \<Rightarrow> PrometheusLogValue list" where
  "metric_values parse_float m =
     map (\<lambda>(q, v). \<lparr>pv_Name = mt_name m, pv_Quantile = (case q of None \<Rightarrow> [] | Some q \<Rightarrow> q), pv_metricType = mt_type m,
                    pv_value = the (parse_float v)\<rparr>) (mt_values m)"

definition spaceless :: "string \<Rightarrow> bool" where
  "spaceless s \<longleftrightarrow> CHR '' '' \<notin> set s"

definition exposed :: "(string \<Rightarrow> real option) \<Rightarrow> metric \<Rightarrow> bool" where
  "exposed parse_float m \<longleftrightarrow>
     spaceless (mt_name m) \<and> spaceless (mt_type m) \<and> mt_name m \<noteq> ''chain_info'' \<and>
     (\<forall>(q, v)\<in>set (mt_values m). spaceless v \<and> v \<noteq> ''TYPE'' \<and> parse_float v \<noteq> None \<and>
        (case q of None \<Rightarrow> True | Some q \<Rightarrow> spaceless q \<and> CHR 0x22 \<notin> set q))"

lemma value_tokens:
  assumes "spaceless name" "spaceless v" "\<And>q. qo = Some q \<Longrightarrow> spaceless q"
  shows "str_split CHR '' '' (value_line name (qo, v)) = [name] @ (case qo of None \<Rightarrow> [] | Some q \<Rightarrow> [quantile_text q]) @ [v]"
proof (cases qo)
  case None
  with assms split_append [of "CHR '' ''" name v] show ?thesis by (simp add: value_line_def spaceless_def split_single)
next
  case (Some q)
  then have "CHR '' '' \<notin> set (quantile_text q)" using assms(3) by (auto simp: quantile_text_def quantile_open_def spaceless_def)
  with Some assms split_append [of "CHR '' ''" name "quantile_text q @ CHR '' '' # v"] split_append [of "CHR '' ''" "quantile_text q" v]
  show ?thesis by (simp add: value_line_def spaceless_def split_single)
qed

lemma matches_quantile_text: "matches_quantile (quantile_text q)"
proof -
  have "Contains (q @ [CHR 0x22, CHR ''}'']) [CHR 0x22, CHR ''}'']"
    unfolding Contains_def list_ex_iff by (rule bexI [of _ "length q"]) (simp_all add: HasPrefix_def)
  then show ?thesis
    unfolding matches_quantile_def list_ex_iff
    by (intro bexI [of _ 0]) (simp_all add: quantile_text_def HasPrefix_def quantile_open_def)
qed

lemma quantile_of_text: "CHR 0x22 \<notin> set q \<Longrightarrow> str_split CHR 0x22 (quantile_text q) ! 1 = q"
  using split_append [of "CHR 0x22" "''{quantile=''" "q @ [CHR 0x22, CHR ''}'']"] split_append [of "CHR 0x22" q "''}''"]
  by (simp add: quantile_text_def quantile_open_def split_single)

lemma fill_exposed:
  assumes "name \<noteq> ''chain_info''" "parse_float v = Some x" "\<And>q. qo = Some q \<Longrightarrow> CHR 0x22 \<notin> set q"
  shows "fillValue parse_float ([name] @ (case qo of None \<Rightarrow> [] | Some q \<Rightarrow> [quantile_text q]) @ [v])
           \<lparr>pv_Name = name, pv_Quantile = [], pv_metricType = ty, pv_value = 0\<rparr> =
         Inr (Some \<lparr>pv_Name = name, pv_Quantile = (case qo of None \<Rightarrow> [] | Some q \<Rightarrow> q), pv_metricType = ty, pv_value = x\<rparr>)"
  using assms quantile_of_text
  by (cases qo) (simp_all add: fillValue_def isBlacklistedValue_def matches_quantile_text numeral_2_eq_2)

lemma parse_value:
  assumes name: "spaceless name" "name \<noteq> ''chain_info''" and v: "spaceless v" "v \<noteq> ''TYPE''" "parse_float v = Some x"
    and q: "\<And>q. qo = Some q \<Longrightarrow> spaceless q \<and> CHR 0x22 \<notin> set q"
  shows "parse_lines parse_float (value_line name (qo, v) # lines) (name, ty) (res, errs) =
         parse_lines parse_float lines (name, ty)
           (res @ [\<lparr>pv_Name = name, pv_Quantile = (case qo of None \<Rightarrow> [] | Some q \<Rightarrow> q), pv_metricType = ty, pv_value = x\<rparr>], errs)"
proof -
  let ?tokens = "[name] @ (case qo of None \<Rightarrow> [] | Some q \<Rightarrow> [quantile_text q]) @ [v]"
  have tokens: "str_split CHR '' '' (value_line name (qo, v)) = ?tokens"
    using name v q by (intro value_tokens) auto
  moreover have "?tokens ! 1 \<noteq> ''TYPE''" "?tokens ! 0 = name" "length ?tokens \<ge> 2"
    using v by (cases qo; simp add: quantile_text_def quantile_open_def)+
  ultimately show ?thesis
    using fill_exposed [of name parse_float v x qo ty] name v q by (simp add: Let_def)
qed

lemma parse_values:
  assumes "exposed parse_float \<lparr>mt_name = name, mt_type = ty, mt_values = vs\<rparr>"
  shows "parse_lines parse_float (map (value_line name) vs @ lines) (name, ty) (res, errs) =
         parse_lines parse_float lines (name, ty)
           (res @ metric_values parse_float \<lparr>mt_name = name, mt_type = ty, mt_values = vs\<rparr>, errs)"
  using assms
proof (induction vs arbitrary: res)
  case (Cons w vs)
  obtain qo v where w: "w = (qo, v)" by (cases w)
  with Cons.prems obtain x where x: "parse_float v = Some x" by (auto simp: exposed_def)
  have vs: "exposed parse_float \<lparr>mt_name = name, mt_type = ty, mt_values = vs\<rparr>" using Cons.prems by (simp add: exposed_def)
  from Cons.prems w have "spaceless name" "name \<noteq> ''chain_info''" "spaceless v" "v \<noteq> ''TYPE''"
    "\<And>q. qo = Some q \<Longrightarrow> spaceless q \<and> CHR 0x22 \<notin> set q" by (auto simp: exposed_def)
  from parse_value [where qo = qo and v = v and parse_float = parse_float, OF this(1-4) x this(5)] Cons.IH [OF vs] show ?case
    by (simp add: w metric_values_def x)
qed (simp add: metric_values_def)

lemma parse_metric:
  assumes "exposed parse_float m"
  shows "parse_lines parse_float (metric_lines m @ lines) cur (res, errs) =
         parse_lines parse_float lines (mt_name m, mt_type m) (res @ metric_values parse_float m, errs)"
proof -
  have head: "str_split CHR '' '' (''# TYPE '' @ mt_name m @ '' '' @ mt_type m) = [''#'', ''TYPE'', mt_name m, mt_type m]"
    using assms split_append [of "CHR '' ''" "mt_name m" "mt_type m"] by (simp add: exposed_def spaceless_def split_single)
  have m: "m = \<lparr>mt_name = mt_name m, mt_type = mt_type m, mt_values = mt_values m\<rparr>" by simp
  have "parse_lines parse_float ((''# TYPE '' @ mt_name m @ '' '' @ mt_type m) # rest) cur (res, errs) =
        parse_lines parse_float rest (mt_name m, mt_type m) (res, errs)" for rest
    by (cases cur) (simp only: parse_lines.simps head, simp add: numeral_2_eq_2 numeral_3_eq_3)
  moreover have "parse_lines parse_float ([] # rest) c (r, k) = parse_lines parse_float rest c (r, k)" for rest c r k
    by (cases c) simp
  ultimately show ?thesis
    using parse_values [of parse_float "mt_name m" "mt_type m" "mt_values m" "[] # lines" res errs] assms m
    by (simp add: metric_lines_def)
qed

text \<open>
  Metrics in the text format are read back: of every metric with its type, whatever its values and quantiles,
  exactly the values are returned, in their order and with no error.
\<close>

theorem metrics_read_back:
  assumes "\<And>m. m \<in> set ms \<Longrightarrow> exposed parse_float m"
  shows "ParsePrometheusLogReader parse_float (concat (map metric_lines ms)) =
           Some (concat (map (metric_values parse_float) ms), 0)"
proof -
  have "parse_lines parse_float (concat (map metric_lines ms)) cur (res, errs) =
        Some (res @ concat (map (metric_values parse_float) ms), errs)" for cur res errs
    using assms
  proof (induction ms arbitrary: cur res)
    case (Cons m ms)
    then show ?case using parse_metric [of parse_float m] by simp
  qed simp
  then show ?thesis by (simp add: ParsePrometheusLogReader_def)
qed

definition demo_metric :: metric where
  "demo_metric = \<lparr>mt_name = ''fee'', mt_type = ''summary'', mt_values = [(None, ''1.23''), (Some ''0.5'', ''1.23'')]\<rparr>"

theorem metrics_read_back_witness:
  "ParsePrometheusLogReader demo_float
     [''# TYPE fee summary'', ''fee 1.23'', ''fee {quantile='' @ [CHR 0x22] @ ''0.5'' @ [CHR 0x22] @ ''} 1.23'', []] =
   Some ([\<lparr>pv_Name = ''fee'', pv_Quantile = [], pv_metricType = ''summary'', pv_value = 123 / 100\<rparr>,
          \<lparr>pv_Name = ''fee'', pv_Quantile = ''0.5'', pv_metricType = ''summary'', pv_value = 123 / 100\<rparr>], 0)"
proof -
  have "demo_float ''1.23'' \<noteq> None" unfolding demo_float_def by (simp only: if_True simp_thms option.distinct)
  then have "exposed demo_float demo_metric" by (simp add: exposed_def demo_metric_def spaceless_def)
  then show ?thesis
    using metrics_read_back [of "[demo_metric]" demo_float]
    by (simp add: demo_metric_def metric_lines_def metric_values_def value_line_def quantile_text_def quantile_open_def demo_float_def)
qed

end
