(* ===== verification/Monitor_Sources.thy ===== *)
theory Monitor_Sources
  imports Monitor_Logs Data_Series
begin

text \<open>
  The way of a block from the logs of the nodes to the series of the monitoring: the dispatcher
  (\<open>driver/monitoring/node_log_provider.go\<close>), the metrics of the network (\<open>driver/monitoring/network/block_metrics.go\<close>) and of the nodes
  (\<open>driver/monitoring/node/block_metrics.go\<close>, \<open>transactions_throughput.go\<close>) with the tracking of nodes that catch up
  (\<open>syncing_tracker.go\<close>). An error that is logged is a result of the operation.
\<close>

section \<open>Network metrics\<close>

text \<open>\<open>getBlockProperty\<close> is the property of a block that the metric records.\<close>

record 'v BlockNetworkMetricSource =
  bn_series :: "(int, 'v) SyncedSeries"
  bn_lastBlock :: int

definition newBlockNetworkMetricsSource :: "'v BlockNetworkMetricSource" where
  "newBlockNetworkMetricsSource = \<lparr>bn_series = [], bn_lastBlock = -1\<rparr>"

definition Network_OnBlock ::
  "(Block \<Rightarrow> 'v) \<Rightarrow> Block \<Rightarrow> 'v BlockNetworkMetricSource \<Rightarrow> bool \<times> 'v BlockNetworkMetricSource" where
  "Network_OnBlock getBlockProperty block s =
     (if bl_Height block > bn_lastBlock s then
        let (err, ser) = Synced_Append (bl_Height block) (getBlockProperty block) (bn_series s)
        in (err \<noteq> None, \<lparr>bn_series = ser, bn_lastBlock = bl_Height block\<rparr>)
      else (False, s))"

definition number_of_transactions :: "Block \<Rightarrow> int" where
  "number_of_transactions b = bl_Txs b"

definition gas_used :: "Block \<Rightarrow> int" where
  "gas_used b = bl_GasUsed b"

definition gas_base_fee :: "Block \<Rightarrow> int" where
  "gas_base_fee b = bl_GasBaseFee b"

definition gas_rate :: "Block \<Rightarrow> real" where
  "gas_rate b = bl_GasRate b"

section \<open>Nodes that catch up\<close>

type_synonym syncingTracker = "(string, bool) gomap"

definition markNodeAsSyncing :: "string \<Rightarrow> syncingTracker \<Rightarrow> syncingTracker" where
  "markNodeAsSyncing node t = (if gm_get t node = None then gm_set node True t else t)"

definition markNodeAsSynced :: "string \<Rightarrow> syncingTracker \<Rightarrow> syncingTracker" where
  "markNodeAsSynced node t = gm_set node False t"

definition OnNodeRestart :: "string \<Rightarrow> syncingTracker \<Rightarrow> syncingTracker" where
  "OnNodeRestart node t = gm_set node True t"

definition isNodeSyncing :: "string \<Rightarrow> syncingTracker \<Rightarrow> bool" where
  "isNodeSyncing node t = (case gm_get t node of None \<Rightarrow> True | Some syncing \<Rightarrow> syncing)"

definition shouldSuppressAppendConflict :: "string \<Rightarrow> append_error \<Rightarrow> syncingTracker \<Rightarrow> bool" where
  "shouldSuppressAppendConflict node err t = (case err of ErrOutOfOrderAppend \<Rightarrow> isNodeSyncing node t)"

section \<open>Node metrics\<close>

record 'v BlockNodeMetricSource =
  bs_data :: "(string, int, 'v) SeriesSource"
  bs_syncing :: syncingTracker

definition newBlockNodeMetricsSource :: "'v BlockNodeMetricSource" where
  "newBlockNodeMetricsSource = \<lparr>bs_data = [], bs_syncing = []\<rparr>"

text \<open>Appending to the series of a node, and what becomes of an error.\<close>

definition append_block :: "string \<Rightarrow> int \<Rightarrow> 'v \<Rightarrow> 'v BlockNodeMetricSource \<Rightarrow> bool \<times> 'v BlockNodeMetricSource" where
  "append_block node height v s =
     (let data = GetOrAddSubject node (bs_data s);
          ser = (case gm_get data node of None \<Rightarrow> [] | Some x \<Rightarrow> x)
      in case Synced_Append height v ser of
           (None, ser1) \<Rightarrow> (False, \<lparr>bs_data = gm_set node ser1 data, bs_syncing = markNodeAsSynced node (bs_syncing s)\<rparr>)
         | (Some err, _) \<Rightarrow> (\<not> shouldSuppressAppendConflict node err (bs_syncing s), s\<lparr>bs_data := data\<rparr>))"

definition Node_OnBlock ::
  "(Block \<Rightarrow> 'v) \<Rightarrow> string \<Rightarrow> Block \<Rightarrow> 'v BlockNodeMetricSource \<Rightarrow> bool \<times> 'v BlockNodeMetricSource" where
  "Node_OnBlock getBlockProperty node block s =
     append_block node (bl_Height block) (getBlockProperty block) (s\<lparr>bs_syncing := markNodeAsSyncing node (bs_syncing s)\<rparr>)"

definition Source_OnNodeRestart :: "string \<Rightarrow> 'v BlockNodeMetricSource \<Rightarrow> 'v BlockNodeMetricSource" where
  "Source_OnNodeRestart node s = s\<lparr>bs_syncing := OnNodeRestart node (bs_syncing s)\<rparr>"

text \<open>The throughput: transactions per second since the previous block of the node; floats are real numbers.\<close>

record ThroughputSource =
  tp_source :: "real BlockNodeMetricSource"
  tp_lastTimes :: "(string, gotime) gomap"

definition Throughput_OnBlock :: "string \<Rightarrow> Block \<Rightarrow> ThroughputSource \<Rightarrow> bool \<times> ThroughputSource" where
  "Throughput_OnBlock node block s =
     (let src = (tp_source s)\<lparr>bs_syncing := markNodeAsSyncing node (bs_syncing (tp_source s))\<rparr>;
          s1 = s\<lparr>tp_source := src, tp_lastTimes := gm_set node (bl_Time block) (tp_lastTimes s)\<rparr>
      in case gm_get (tp_lastTimes s) node of
           None \<Rightarrow> (False, s1\<lparr>tp_source := src\<lparr>bs_data := GetOrAddSubject node (bs_data src)\<rparr>\<rparr>)
         | Some prevTime \<Rightarrow>
             let timeDiff = time_sub (bl_Time block) prevTime
             in if timeDiff \<noteq> 0 then
                  let (logged, src1) = append_block node (bl_Height block) (real_of_int (bl_Txs block) * 1000000000 / real_of_int timeDiff) src
                  in (logged, s1\<lparr>tp_source := src1\<rparr>)
                else (False, s1))"

section \<open>The dispatcher\<close>

text \<open>
  Per label the node object whose stream is consumed, if any. A reader is a goroutine of
  \<open>startDispatcher\<close>, with the label and the object it reads. \<open>'o\<close> are node objects; what the listeners are told of
  restarts and blocks is recorded in order. A listener that takes no interest in restarts ignores them.
\<close>

datatype 'o report = Restarted nat string | Reported nat string Block

record 'o NodeLogDispatcher =
  nd_listeners :: "nat list"
  nd_nodes :: "(string, 'o option) gomap"
  nd_readers :: "(string \<times> 'o) list"
  nd_reports :: "'o report list"

definition NewNodeLogDispatcher :: "'o NodeLogDispatcher" where
  "NewNodeLogDispatcher = \<lparr>nd_listeners = [], nd_nodes = [], nd_readers = [], nd_reports = []\<rparr>"

definition RegisterLogListener :: "nat \<Rightarrow> 'o NodeLogDispatcher \<Rightarrow> 'o NodeLogDispatcher" where
  "RegisterLogListener l d = d\<lparr>nd_listeners := List.insert l (nd_listeners d)\<rparr>"

definition UnregisterLogListener :: "nat \<Rightarrow> 'o NodeLogDispatcher \<Rightarrow> 'o NodeLogDispatcher" where
  "UnregisterLogListener l d = d\<lparr>nd_listeners := removeAll l (nd_listeners d)\<rparr>"

definition notifyNodeRestart :: "string \<Rightarrow> 'o NodeLogDispatcher \<Rightarrow> 'o NodeLogDispatcher" where
  "notifyNodeRestart node d = d\<lparr>nd_reports := nd_reports d @ map (\<lambda>l. Restarted l node) (nd_listeners d)\<rparr>"

text \<open>\<open>label\<close> is the label of a node object and \<open>stream_ok\<close> whether its log can be streamed.\<close>

definition Dispatcher_AfterNodeCreation :: "('o \<Rightarrow> string) \<Rightarrow> bool \<Rightarrow> 'o \<Rightarrow> 'o NodeLogDispatcher \<Rightarrow> 'o NodeLogDispatcher" where
  "Dispatcher_AfterNodeCreation label stream_ok node d =
     (let nodeId = label node;
          known = gm_get (nd_nodes d) nodeId;
          d1 = (if known = None then d\<lparr>nd_nodes := gm_set nodeId None (nd_nodes d)\<rparr> else d);
          d2 = (if known \<noteq> None then notifyNodeRestart nodeId d1 else d1)
      in if known = Some (Some node) then d2
         else if \<not> stream_ok then d2
         else d2\<lparr>nd_nodes := gm_set nodeId (Some node) (nd_nodes d2), nd_readers := nd_readers d2 @ [(nodeId, node)]\<rparr>)"

definition Dispatcher_BeforeNodeRemoval :: "('o \<Rightarrow> string) \<Rightarrow> 'o \<Rightarrow> 'o NodeLogDispatcher \<Rightarrow> 'o NodeLogDispatcher" where
  "Dispatcher_BeforeNodeRemoval label node d = notifyNodeRestart (label node) d"

text \<open>A reader hands a block of its channel to all listeners, and gives up its claim at the end of the stream.\<close>

definition reader_block :: "nat \<Rightarrow> Block \<Rightarrow> 'o NodeLogDispatcher \<Rightarrow> 'o NodeLogDispatcher option" where
  "reader_block i block d =
     (if i < length (nd_readers d) then
        Some (d\<lparr>nd_reports := nd_reports d @ map (\<lambda>l. Reported l (fst (nd_readers d ! i)) block) (nd_listeners d)\<rparr>)
      else None)"

definition reader_ends :: "nat \<Rightarrow> 'o NodeLogDispatcher \<Rightarrow> 'o NodeLogDispatcher option" where
  "reader_ends i d =
     (if i < length (nd_readers d) then
        let (nodeId, source) = nd_readers d ! i;
            nodes = (if gm_get (nd_nodes d) nodeId = Some (Some source) then gm_set nodeId None (nd_nodes d) else nd_nodes d)
        in Some (d\<lparr>nd_nodes := nodes, nd_readers := take i (nd_readers d) @ drop (Suc i) (nd_readers d)\<rparr>)
      else None)"

inductive dispatch_step :: "('o \<Rightarrow> string) \<Rightarrow> 'o NodeLogDispatcher \<Rightarrow> 'o NodeLogDispatcher \<Rightarrow> bool" for label where
  register: "dispatch_step label d (RegisterLogListener l d)"
| unregister: "dispatch_step label d (UnregisterLogListener l d)"
| created: "dispatch_step label d (Dispatcher_AfterNodeCreation label stream_ok node d)"
| removal: "dispatch_step label d (Dispatcher_BeforeNodeRemoval label node d)"
| block: "reader_block i b d = Some d' \<Longrightarrow> dispatch_step label d d'"
| ended: "reader_ends i d = Some d' \<Longrightarrow> dispatch_step label d d'"

end
