(* ===== verification/Monitor_Properties.thy ===== *)
theory Monitor_Properties
  imports Monitor_Sources
begin

text \<open>Properties of the monitoring of blocks: what ends up in the series, which errors are reported, and that no block is reported twice.\<close>

section \<open>Network metrics\<close>

definition network_run :: "(Block \<Rightarrow> 'v) \<Rightarrow> Block list \<Rightarrow> bool \<times> 'v BlockNetworkMetricSource" where
  "network_run f bs =
     fold (\<lambda>b (logged, s). let (e, s1) = Network_OnBlock f b s in (logged \<or> e, s1)) bs (False, newBlockNetworkMetricsSource)"

text \<open>A block that is higher than all that were reported before it.\<close>

definition is_record :: "Block list \<Rightarrow> nat \<Rightarrow> bool" where
  "is_record bs i \<longleftrightarrow> 0 \<le> bl_Height (bs ! i) \<and> (\<forall>j<i. bl_Height (bs ! j) < bl_Height (bs ! i))"

definition records :: "Block list \<Rightarrow> Block list" where
  "records bs = map ((!) bs) (filter (is_record bs) [0..<length bs])"

definition highest :: "Block list \<Rightarrow> int" where
  "highest bs = foldl max (-1) (map bl_Height bs)"

lemma highest_snoc [simp]: "highest (bs @ [b]) = max (highest bs) (bl_Height b)"
  by (simp add: highest_def)

lemma highest_less: "highest bs < h \<longleftrightarrow> 0 \<le> h \<and> (\<forall>j<length bs. bl_Height (bs ! j) < h)"
proof (induction bs rule: rev_induct)
  case Nil
  show ?case by (auto simp: highest_def)
next
  case (snoc b bs)
  then show ?case by (auto simp: nth_append less_Suc_eq all_conj_distrib)
qed

lemma records_snoc: "records (bs @ [b]) = records bs @ (if highest bs < bl_Height b then [b] else [])"
proof -
  have "filter (is_record (bs @ [b])) [0..<length bs] = filter (is_record bs) [0..<length bs]"
    by (rule filter_cong) (auto simp: is_record_def nth_append)
  moreover have "map ((!) (bs @ [b])) (filter (is_record bs) [0..<length bs]) = map ((!) bs) (filter (is_record bs) [0..<length bs])"
    by (auto simp: nth_append)
  moreover have "is_record (bs @ [b]) (length bs) \<longleftrightarrow> highest bs < bl_Height b"
    by (auto simp: is_record_def highest_less nth_append)
  ultimately show ?thesis by (simp add: records_def)
qed

lemma records_below: "b \<in> set (records bs) \<Longrightarrow> bl_Height b \<le> highest bs"
  by (induction bs rule: rev_induct) (auto simp: records_snoc records_def [of "[]"] split: if_splits)

text \<open>
  C38: However the nodes report blocks, repeatedly, late or out of order, the series of a network metric
  holds exactly the blocks that were higher than all reported before them, each once, in the order of
  their heights and with the property of the report that came first; no append ever fails.
\<close>

theorem network_series_records:
  "network_run f bs =
     (False, \<lparr>bn_series = map (\<lambda>b. \<lparr>Position = bl_Height b, Value = f b\<rparr>) (records bs), bn_lastBlock = highest bs\<rparr>)"
proof (induction bs rule: rev_induct)
  case Nil
  show ?case by (simp add: network_run_def newBlockNetworkMetricsSource_def records_def highest_def)
next
  case (snoc b bs)
  have "network_run f (bs @ [b]) =
      (let (e, s1) = Network_OnBlock f b (snd (network_run f bs)) in (fst (network_run f bs) \<or> e, s1))"
    by (simp add: network_run_def split_beta)
  moreover have "Synced_Append (bl_Height b) v (map (\<lambda>b. \<lparr>Position = bl_Height b, Value = f b\<rparr>) (records bs)) =
      (None, map (\<lambda>b. \<lparr>Position = bl_Height b, Value = f b\<rparr>) (records bs) @ [\<lparr>Position = bl_Height b, Value = v\<rparr>])"
    if "highest bs < bl_Height b" for v
    using that records_below [of "records bs ! (length (records bs) - 1)" bs] by (auto simp: Synced_Append_def)
  ultimately show ?case
    using snoc by (auto simp: Network_OnBlock_def records_snoc)
qed

section \<open>Node metrics\<close>

definition node_run ::
  "(Block \<Rightarrow> 'v) \<Rightarrow> string \<Rightarrow> Block list \<Rightarrow> 'v BlockNodeMetricSource \<Rightarrow> bool \<times> 'v BlockNodeMetricSource" where
  "node_run f node bs s = fold (\<lambda>b (logged, s). let (e, s1) = Node_OnBlock f node b s in (logged \<or> e, s1)) bs (False, s)"

lemma gm_set_same: "gm_get m k = Some v \<Longrightarrow> gm_set k v m = m"
  by (induction m) (auto split: if_splits)

text \<open>A node whose series has a block, as one report leaves it.\<close>

lemma OnBlock_known:
  assumes xs: "gm_get (bs_data s) node = Some xs" "xs \<noteq> []" and known: "gm_get (bs_syncing s) node = Some syncing"
  shows "Node_OnBlock f node b s =
    (if bl_Height b \<le> Position (last xs) then (\<not> syncing, s)
     else (False, \<lparr>bs_data = gm_set node (xs @ [\<lparr>Position = bl_Height b, Value = f b\<rparr>]) (bs_data s),
                  bs_syncing = gm_set node False (bs_syncing s)\<rparr>))"
  using assms
  by (auto simp: Node_OnBlock_def append_block_def markNodeAsSyncing_def GetOrAddSubject_def Synced_Append_def last_conv_nth
      shouldSuppressAppendConflict_def isNodeSyncing_def markNodeAsSynced_def Let_def)

text \<open>
  A client that restarts replays blocks it has reported before. All reports up to the last recorded block
  leave the series of the node as it is and no error is logged; the first new block is recorded; and from then on
  a report that is out of order is logged as an error again.
\<close>

theorem replay_after_restart:
  assumes xs: "Source_GetData node (bs_data s) = Some xs" "xs \<noteq> []"
    and replay: "\<And>b. b \<in> set replay \<Longrightarrow> bl_Height b \<le> Position (last xs)"
    and new: "Position (last xs) < bl_Height b" and late: "bl_Height b' \<le> bl_Height b"
    and r1: "node_run f node replay (Source_OnNodeRestart node s) = (logged1, s1)"
    and r2: "Node_OnBlock f node b s1 = (logged2, s2)"
  shows "\<not> logged1 \<and> bs_data s1 = bs_data s \<and>
         \<not> logged2 \<and> Source_GetData node (bs_data s2) = Some (xs @ [\<lparr>Position = bl_Height b, Value = f b\<rparr>]) \<and>
         fst (Node_OnBlock f node b' s2)"
proof -
  let ?s = "Source_OnNodeRestart node s"
  have data: "gm_get (bs_data ?s) node = Some xs" and sync: "gm_get (bs_syncing ?s) node = Some True"
    using xs by (simp_all add: Source_GetData_def Source_OnNodeRestart_def OnNodeRestart_def gm.get_put)
  have "node_run f node bs ?s = (False, ?s)" if "set bs \<subseteq> set replay" for bs
    using that
  proof (induction bs rule: rev_induct)
    case (snoc c bs)
    with replay [of c] OnBlock_known [OF data xs(2) sync, of f c] show ?case
      by (auto simp: node_run_def)
  qed (simp add: node_run_def)
  with r1 have s1: "s1 = ?s" "\<not> logged1" by auto
  from OnBlock_known [OF data xs(2) sync, of f b] new r2 s1
  have s2: "\<not> logged2" "s2 = \<lparr>bs_data = gm_set node (xs @ [\<lparr>Position = bl_Height b, Value = f b\<rparr>]) (bs_data ?s),
                  bs_syncing = gm_set node False (bs_syncing ?s)\<rparr>" by auto
  with OnBlock_known [of s2 node "xs @ [\<lparr>Position = bl_Height b, Value = f b\<rparr>]" False f b'] late
  have "fst (Node_OnBlock f node b' s2)" by (simp add: gm.get_put)
  with s1 s2 show ?thesis by (simp add: Source_GetData_def gm.get_put Source_OnNodeRestart_def)
qed

text \<open>Block five is recorded, the client restarts and reports blocks four to six, and then six again.\<close>

definition demo_block :: "int \<Rightarrow> Block" where
  "demo_block h =
     \<lparr>bl_Height = h, bl_Time = 0, bl_Txs = 10 * h, bl_GasUsed = 0, bl_ProcessingTime = 0, bl_GasBaseFee = 0, bl_GasRate = 0\<rparr>"

definition demo_source :: "int BlockNodeMetricSource" where
  "demo_source = \<lparr>bs_data = [(''a'', [\<lparr>Position = 5, Value = 50\<rparr>])], bs_syncing = [(''a'', False)]\<rparr>"

definition demo_replayed :: "bool \<times> int BlockNodeMetricSource" where
  "demo_replayed = node_run number_of_transactions ''a'' [demo_block 4, demo_block 5] (Source_OnNodeRestart ''a'' demo_source)"

definition demo_continued :: "bool \<times> int BlockNodeMetricSource" where
  "demo_continued = Node_OnBlock number_of_transactions ''a'' (demo_block 6) (snd demo_replayed)"

theorem replay_after_restart_witness:
  "\<not> fst demo_replayed \<and> bs_data (snd demo_replayed) = bs_data demo_source \<and> \<not> fst demo_continued \<and>
   Source_GetData ''a'' (bs_data (snd demo_continued)) = Some [\<lparr>Position = 5, Value = 50\<rparr>, \<lparr>Position = 6, Value = 60\<rparr>] \<and>
   fst (Node_OnBlock number_of_transactions ''a'' (demo_block 6) (snd demo_continued))"
proof -
  have xs: "Source_GetData ''a'' (bs_data demo_source) = Some [\<lparr>Position = 5, Value = 50\<rparr>]"
    by (simp add: demo_source_def Source_GetData_def)
  have replay: "bl_Height b \<le> Position (last [\<lparr>Position = 5, Value = 50 :: int\<rparr>])" if "b \<in> set [demo_block 4, demo_block 5]" for b
    using that by (auto simp: demo_block_def)
  have new: "Position (last [\<lparr>Position = 5, Value = 50 :: int\<rparr>]) < bl_Height (demo_block 6)" by (simp add: demo_block_def)
  have runs: "node_run number_of_transactions ''a'' [demo_block 4, demo_block 5] (Source_OnNodeRestart ''a'' demo_source) =
      (fst demo_replayed, snd demo_replayed)"
    "Node_OnBlock number_of_transactions ''a'' (demo_block 6) (snd demo_replayed) = (fst demo_continued, snd demo_continued)"
    by (simp_all add: demo_replayed_def demo_continued_def)
  show ?thesis
    using replay_after_restart [OF xs _ replay new order.refl runs]
    by (simp add: number_of_transactions_def) (simp add: demo_block_def)
qed

section \<open>The dispatcher\<close>

text \<open>A claim on a label is by the object with this label, and a reader works under its claim.\<close>

definition claims_ok :: "('o \<Rightarrow> string) \<Rightarrow> 'o NodeLogDispatcher \<Rightarrow> bool" where
  "claims_ok label d \<longleftrightarrow>
     gm_wf (nd_nodes d) \<and> distinct (map fst (nd_readers d)) \<and>
     (\<forall>l x. gm_get (nd_nodes d) l = Some (Some x) \<longrightarrow> label x = l) \<and>
     (\<forall>(l, x)\<in>set (nd_readers d). gm_get (nd_nodes d) l = Some (Some x))"

lemma claimsD:
  assumes "claims_ok label d"
  shows "gm_wf (nd_nodes d)" "distinct (map fst (nd_readers d))"
    "gm_get (nd_nodes d) l = Some (Some x) \<Longrightarrow> label x = l"
    "(l, x) \<in> set (nd_readers d) \<Longrightarrow> gm_get (nd_nodes d) l = Some (Some x)"
  using assms unfolding claims_ok_def by blast+

lemma claimsI:
  assumes "gm_wf (nd_nodes d)" "distinct (map fst (nd_readers d))"
    "\<And>l x. gm_get (nd_nodes d) l = Some (Some x) \<Longrightarrow> label x = l"
    "\<And>l x. (l, x) \<in> set (nd_readers d) \<Longrightarrow> gm_get (nd_nodes d) l = Some (Some x)"
  shows "claims_ok label d"
  using assms unfolding claims_ok_def by blast

lemma claims_same:
  "nd_nodes d' = nd_nodes d \<Longrightarrow> nd_readers d' = nd_readers d \<Longrightarrow> claims_ok label d \<Longrightarrow> claims_ok label d'"
  by (simp add: claims_ok_def)

lemma distinct_remove_nth:
  assumes "distinct (map f xs)" "i < length xs"
  shows "distinct (map f (take i xs @ drop (Suc i) xs)) \<and> f (xs ! i) \<notin> set (map f (take i xs @ drop (Suc i) xs))"
proof -
  have "map f xs = map f (take i xs) @ f (xs ! i) # map f (drop (Suc i) xs)"
    using assms(2) by (metis id_take_nth_drop list.simps(9) map_append)
  with assms(1) have "distinct (map f (take i xs) @ f (xs ! i) # map f (drop (Suc i) xs))" by simp
  then show ?thesis by (auto simp: take_map drop_map)
qed

lemma reader_ends_claims:
  assumes "reader_ends i d = Some d'" "claims_ok label d"
  shows "claims_ok label d'"
proof -
  from assms(1) have i: "i < length (nd_readers d)" by (auto simp: reader_ends_def split: if_splits)
  obtain l x where at: "nd_readers d ! i = (l, x)" by (cases "nd_readers d ! i")
  let ?rest = "take i (nd_readers d) @ drop (Suc i) (nd_readers d)"
  have sub: "set ?rest \<subseteq> set (nd_readers d)" by (auto dest: in_set_takeD in_set_dropD)
  from claimsD(2) [OF assms(2)] i have rest: "distinct (map fst ?rest)" "l \<notin> set (map fst ?rest)"
    using distinct_remove_nth [of fst "nd_readers d" i] at by simp_all
  have "gm_get (nd_nodes d) l = Some (Some x)" using claimsD(4) [OF assms(2)] nth_mem [OF i] at by simp
  with assms(1) i at have d': "d' = d\<lparr>nd_nodes := gm_set l None (nd_nodes d), nd_readers := ?rest\<rparr>"
    by (simp add: reader_ends_def)
  show ?thesis
  proof (rule claimsI)
    fix k y
    show "gm_get (nd_nodes d') k = Some (Some y)" if "(k, y) \<in> set (nd_readers d')"
    proof -
      from that rest(2) d' have "k \<noteq> l" by force
      moreover have "(k, y) \<in> set (nd_readers d)" using that sub d' by auto
      ultimately show ?thesis using claimsD(4) [OF assms(2), of k y] d' by (simp add: gm.get_put)
    qed
    show "label y = k" if "gm_get (nd_nodes d') k = Some (Some y)"
      using that claimsD(3) [OF assms(2), of k y] d' by (simp add: gm.get_put split: if_splits)
  qed (use claimsD(1) [OF assms(2)] rest(1) d' in \<open>simp_all add: gm.wf_put\<close>)
qed

lemma new_reader_claims:
  assumes ok: "claims_ok label d" and fresh: "label node \<notin> fst ` set (nd_readers d)"
    and nodes: "nd_nodes d' = gm_set (label node) (Some node) (nd_nodes d)" and readers: "nd_readers d' = nd_readers d @ [(label node, node)]"
  shows "claims_ok label d'"
proof (rule claimsI)
  fix k y
  show "gm_get (nd_nodes d') k = Some (Some y)" if "(k, y) \<in> set (nd_readers d')"
    using that claimsD(4) [OF ok, of k y] fresh nodes readers by (force simp: gm.get_put)
  show "label y = k" if "gm_get (nd_nodes d') k = Some (Some y)"
    using that claimsD(3) [OF ok, of k y] nodes by (simp add: gm.get_put split: if_splits)
qed (use claimsD(1,2) [OF ok] fresh nodes readers in \<open>simp_all add: gm.wf_put\<close>)

lemma known_claims:
  assumes ok: "claims_ok label d" and unknown: "gm_get (nd_nodes d) l = None"
  shows "claims_ok label (d\<lparr>nd_nodes := gm_set l None (nd_nodes d)\<rparr>)"
proof (rule claimsI)
  fix k y
  show "gm_get (nd_nodes (d\<lparr>nd_nodes := gm_set l None (nd_nodes d)\<rparr>)) k = Some (Some y)"
    if "(k, y) \<in> set (nd_readers (d\<lparr>nd_nodes := gm_set l None (nd_nodes d)\<rparr>))"
    using that claimsD(4) [OF ok, of k y] unknown by (auto simp: gm.get_put)
  show "label y = k" if "gm_get (nd_nodes (d\<lparr>nd_nodes := gm_set l None (nd_nodes d)\<rparr>)) k = Some (Some y)"
    using that claimsD(3) [OF ok, of k y] by (simp add: gm.get_put split: if_splits)
qed (use claimsD(1,2) [OF ok] in \<open>simp_all add: gm.wf_put\<close>)

lemma created_claims:
  assumes inj: "inj label" and ok: "claims_ok label d"
  shows "claims_ok label (Dispatcher_AfterNodeCreation label stream_ok node d)"
proof -
  let ?known = "gm_get (nd_nodes d) (label node)"
  define d1 where "d1 = (if ?known = None then d\<lparr>nd_nodes := gm_set (label node) None (nd_nodes d)\<rparr> else d)"
  define d2 where "d2 = (if ?known \<noteq> None then notifyNodeRestart (label node) d1 else d1)"
  have "claims_ok label d1" using known_claims [OF ok] ok by (simp add: d1_def)
  then have ok2: "claims_ok label d2" by (rule claims_same [rotated 2]) (simp_all add: d2_def notifyNodeRestart_def)
  have "claims_ok label (d2\<lparr>nd_nodes := gm_set (label node) (Some node) (nd_nodes d2), nd_readers := nd_readers d2 @ [(label node, node)]\<rparr>)"
    if "?known \<noteq> Some (Some node)"
  proof (rule new_reader_claims [OF ok2])
    show "label node \<notin> fst ` set (nd_readers d2)"
    proof
      assume "label node \<in> fst ` set (nd_readers d2)"
      then obtain y where "(label node, y) \<in> set (nd_readers d)" by (auto simp: d2_def d1_def notifyNodeRestart_def split: if_splits)
      then have y: "?known = Some (Some y)" by (rule claimsD(4) [OF ok])
      then have "label y = label node" by (rule claimsD(3) [OF ok])
      with inj y that show False by (simp add: inj_eq)
    qed
  qed simp_all
  with ok2 show ?thesis
    unfolding Dispatcher_AfterNodeCreation_def Let_def d1_def [symmetric] d2_def [symmetric] by simp
qed

lemma step_claims:
  assumes "dispatch_step label d d'" "inj label" "claims_ok label d"
  shows "claims_ok label d'"
  using assms
proof (induction rule: dispatch_step.induct)
  case (created d stream_ok node)
  then show ?case by (rule created_claims)
next
  case (ended i d d')
  from ended.hyps ended.prems(2) show ?case by (rule reader_ends_claims)
qed (erule claims_same [rotated 2]; auto simp: RegisterLogListener_def UnregisterLogListener_def Dispatcher_BeforeNodeRemoval_def
    notifyNodeRestart_def reader_block_def split: if_splits)+

text \<open>
  As long as a label belongs to one node object, the log of a node has at most one reader at any time,
  however often the node is restarted in place, its stream ends or cannot be opened; so a block
  that the log has once is reported to a listener once.
\<close>

theorem one_reader_per_node:
  assumes run: "(dispatch_step label)\<^sup>*\<^sup>* NewNodeLogDispatcher d" and inj: "inj label"
  shows "distinct (map fst (nd_readers d)) \<and>
         (\<forall>i j. i < length (nd_readers d) \<and> j < length (nd_readers d) \<and> snd (nd_readers d ! i) = snd (nd_readers d ! j) \<longrightarrow> i = j)"
proof -
  have ok: "claims_ok label d"
    using run
  proof (induction rule: rtranclp_induct)
    case base
    show ?case by (simp add: claims_ok_def NewNodeLogDispatcher_def)
  next
    case (step d d')
    from step_claims [OF step.hyps(2) inj step.IH] show ?case .
  qed
  have "i = j" if "i < length (nd_readers d)" "j < length (nd_readers d)" "snd (nd_readers d ! i) = snd (nd_readers d ! j)" for i j
  proof -
    have "fst (nd_readers d ! k) = label (snd (nd_readers d ! k))" if "k < length (nd_readers d)" for k
      using claimsD(3,4) [OF ok] nth_mem [OF that] by (metis prod.collapse)
    with that have "map fst (nd_readers d) ! i = map fst (nd_readers d) ! j" by simp
    with that claimsD(2) [OF ok] show ?thesis by (simp only: nth_eq_iff_index_eq length_map)
  qed
  with claimsD(2) [OF ok] show ?thesis by blast
qed

text \<open>Two nodes, named after themselves, the first of which restarts in place.\<close>

definition demo_dispatched :: "string NodeLogDispatcher" where
  "demo_dispatched =
     Dispatcher_AfterNodeCreation (\<lambda>x. x) True ''a''
       (Dispatcher_AfterNodeCreation (\<lambda>x. x) True ''b'' (Dispatcher_AfterNodeCreation (\<lambda>x. x) True ''a'' NewNodeLogDispatcher))"

theorem one_reader_per_node_witness:
  "nd_readers demo_dispatched = [(''a'', ''a''), (''b'', ''b'')] \<and> distinct (map fst (nd_readers demo_dispatched))"
proof -
  have "(dispatch_step (\<lambda>x. x))\<^sup>*\<^sup>* NewNodeLogDispatcher demo_dispatched"
    unfolding demo_dispatched_def
    by (rule rtranclp.rtrancl_into_rtrancl, rule rtranclp.rtrancl_into_rtrancl, rule r_into_rtranclp) (rule dispatch_step.created)+
  moreover have "inj (\<lambda>x::string. x)" by simp
  moreover have "nd_readers demo_dispatched = [(''a'', ''a''), (''b'', ''b'')]" by code_simp
  ultimately show ?thesis using one_reader_per_node [of "\<lambda>x. x" demo_dispatched] by blast
qed

end
