(* ===== verification/Load_Contracts.thy ===== *)
theory Load_Contracts
  imports Load_Controller "HOL-Library.Monad_Syntax"
begin

text \<open>
  The contracts the load applications deploy (\<open>load/contracts/*.sol\<close>): each contract as the state it
  stores and one function per method. \<open>None\<close> is a revert, which leaves the state of the caller
  untouched. Unsigned arithmetic is on 256-bit words and checked, as in the compiler versions the
  pragmas ask for; signed numbers are integers with the bounds of \<open>int256\<close>. Events are not modelled.
\<close>

type_synonym u256 = "256 word"

section \<open>Checked arithmetic\<close>

definition uint_sub :: "u256 \<Rightarrow> u256 \<Rightarrow> u256 option" where
  "uint_sub a b = (if b \<le> a then Some (a - b) else None)"

definition uint_add :: "u256 \<Rightarrow> u256 \<Rightarrow> u256 option" where
  "uint_add a b = (if uint a + uint b < 2 ^ 256 then Some (a + b) else None)"

definition uint_mul :: "u256 \<Rightarrow> u256 \<Rightarrow> u256 option" where
  "uint_mul a b = (if uint a * uint b < 2 ^ 256 then Some (a * b) else None)"

definition int_add :: "int \<Rightarrow> int \<Rightarrow> int option" where
  "int_add a b = (if - (2 ^ 255) \<le> a + b \<and> a + b < 2 ^ 255 then Some (a + b) else None)"

section \<open>Counters\<close>

text \<open>\<open>Counter.sol\<close>: the state is the private field \<open>count\<close>, which starts at 1.\<close>

definition Counter_new :: int where
  "Counter_new = 1"

definition Counter_incrementCounter :: "int \<Rightarrow> int option" where
  "Counter_incrementCounter c = int_add c 1"

definition Counter_getCount :: "int \<Rightarrow> int" where
  "Counter_getCount c = c - 1"

text \<open>
  \<open>TransientCounter.sol\<close>: the modifier \<open>nonReentrant\<close> reads and sets a transient flag, which is clear at
  the start of every transaction.
\<close>

definition Transient_incrementCounter :: "bool \<times> int \<Rightarrow> (bool \<times> int) option" where
  "Transient_incrementCounter s =
     (let (locked, c) = s
      in if locked then Some (locked, c)
         else map_option (\<lambda>c1. (True, c1)) (int_add c 1))"

definition Transient_incrementCounterTwice :: "int \<Rightarrow> int option" where
  "Transient_incrementCounterTwice c =
     do { s \<leftarrow> Transient_incrementCounter (False, c);
          s' \<leftarrow> Transient_incrementCounter s;
          Some (snd s') }"

text \<open>
  \<open>EcdsaCounter.sol\<close>: \<open>verify\<close> is the answer of the precompiled contract for a digest, a signature and
  the public key fixed at the deployment.
\<close>

definition Ecdsa_incrementCounter ::
  "(nat list \<Rightarrow> nat list \<Rightarrow> nat list \<Rightarrow> bool) \<Rightarrow> nat list \<Rightarrow> nat list \<Rightarrow> nat list \<Rightarrow> int \<Rightarrow> int option" where
  "Ecdsa_incrementCounter verify hash r s c = (if verify hash r s then int_add c 1 else None)"

text \<open>
  \<open>ProbabilisticFailing.sol\<close>: \<open>keccak\<close> is the hash of the sender, the count, the time of the block and
  the seed, as a number.
\<close>

definition Failing_incrementCounter ::
  "(address \<Rightarrow> int \<Rightarrow> u64 \<Rightarrow> 32 word \<Rightarrow> nat) \<Rightarrow> address \<Rightarrow> u64 \<Rightarrow> 8 word \<Rightarrow> 32 word \<Rightarrow> int \<Rightarrow> int option" where
  "Failing_incrementCounter keccak sender timestamp failureProbability seed c =
     (if keccak sender c timestamp seed mod 100 < unat failureProbability then None else int_add c 1)"

text \<open>\<open>LargeContract.sol\<close>: the constructor adds to the counter it is given.\<close>

definition LargeContract_constructor :: "int \<Rightarrow> int option" where
  "LargeContract_constructor c = Counter_incrementCounter c"

section \<open>Store\<close>

record Store =
  st_count :: int
  st_data :: "address \<Rightarrow> int \<Rightarrow> int"

definition Store_new :: Store where
  "Store_new = \<lparr>st_count = 0, st_data = (\<lambda>_ _. 0)\<rparr>"

definition Store_put :: "address \<Rightarrow> int \<Rightarrow> int \<Rightarrow> Store \<Rightarrow> Store option" where
  "Store_put sender key v s =
     do { c \<leftarrow> int_add (st_count s) 1;
          Some (s\<lparr>st_data := (st_data s)(sender := (st_data s sender)(key := v)), st_count := c\<rparr>) }"

function fill_loop :: "int \<Rightarrow> int \<Rightarrow> int \<Rightarrow> (int \<Rightarrow> int) \<Rightarrow> int \<Rightarrow> int" where
  "fill_loop key to v d = (if key < to then fill_loop (key + 1) to v (d(key := v)) else d)"
  by auto
termination by (relation "measure (\<lambda>(key, to, _, _). nat (to - key))") auto

declare fill_loop.simps [simp del]

definition Store_fill :: "address \<Rightarrow> int \<Rightarrow> int \<Rightarrow> int \<Rightarrow> Store \<Rightarrow> Store option" where
  "Store_fill sender from to v s =
     do { c \<leftarrow> int_add (st_count s) 1;
          Some (s\<lparr>st_data := (st_data s)(sender := fill_loop from to v (st_data s sender)), st_count := c\<rparr>) }"

definition Store_get :: "address \<Rightarrow> int \<Rightarrow> Store \<Rightarrow> int" where
  "Store_get sender key s = st_data s sender key"

section \<open>Tokens\<close>

record ERC20 =
  totalSupply :: u256
  balanceOf :: "address \<Rightarrow> u256"
  allowance :: "address \<Rightarrow> address \<Rightarrow> u256"
  token_owner :: address
  token_whitelist :: "address \<Rightarrow> bool"

definition ERC20_new :: "address \<Rightarrow> ERC20" where
  "ERC20_new sender =
     \<lparr>totalSupply = 0, balanceOf = (\<lambda>_. 0), allowance = (\<lambda>_ _. 0), token_owner = sender,
      token_whitelist = (\<lambda>_. False)\<rparr>"

text \<open>The two updates of balances that \<open>transfer\<close> and \<open>transferFrom\<close> end with.\<close>

definition move_balance :: "address \<Rightarrow> address \<Rightarrow> u256 \<Rightarrow> (address \<Rightarrow> u256) \<Rightarrow> (address \<Rightarrow> u256) option" where
  "move_balance sender recipient amount bal =
     do { b \<leftarrow> uint_sub (bal sender) amount;
          let bal1 = bal(sender := b);
          r \<leftarrow> uint_add (bal1 recipient) amount;
          Some (bal1(recipient := r)) }"

definition ERC20_transfer :: "address \<Rightarrow> address \<Rightarrow> u256 \<Rightarrow> ERC20 \<Rightarrow> ERC20 option" where
  "ERC20_transfer sender recipient amount s =
     do { bal \<leftarrow> move_balance sender recipient amount (balanceOf s);
          Some (s\<lparr>balanceOf := bal\<rparr>) }"

definition ERC20_approve :: "address \<Rightarrow> address \<Rightarrow> u256 \<Rightarrow> ERC20 \<Rightarrow> ERC20 option" where
  "ERC20_approve sender spender amount s =
     Some (s\<lparr>allowance := (allowance s)(sender := (allowance s sender)(spender := amount))\<rparr>)"

definition ERC20_transferFrom :: "address \<Rightarrow> address \<Rightarrow> address \<Rightarrow> u256 \<Rightarrow> ERC20 \<Rightarrow> ERC20 option" where
  "ERC20_transferFrom caller sender recipient amount s =
     do { s1 \<leftarrow> (if token_whitelist s caller then Some s
                 else do { a \<leftarrow> uint_sub (allowance s sender caller) amount;
                           Some (s\<lparr>allowance := (allowance s)(sender := (allowance s sender)(caller := a))\<rparr>) });
          bal \<leftarrow> move_balance sender recipient amount (balanceOf s1);
          Some (s1\<lparr>balanceOf := bal\<rparr>) }"

definition ERC20_whitelistSpender :: "address \<Rightarrow> address \<Rightarrow> ERC20 \<Rightarrow> ERC20 option" where
  "ERC20_whitelistSpender caller spender s =
     (if caller = token_owner s then Some (s\<lparr>token_whitelist := (token_whitelist s)(spender := True)\<rparr>) else None)"

definition ERC20_mint :: "address \<Rightarrow> u256 \<Rightarrow> ERC20 \<Rightarrow> ERC20 option" where
  "ERC20_mint recipient amount s =
     do { b \<leftarrow> uint_add (balanceOf s recipient) amount;
          t \<leftarrow> uint_add (totalSupply s) amount;
          Some (s\<lparr>balanceOf := (balanceOf s)(recipient := b), totalSupply := t\<rparr>) }"

fun mint_loop :: "address list \<Rightarrow> u256 \<Rightarrow> (address \<Rightarrow> u256) \<Rightarrow> (address \<Rightarrow> u256) option" where
  "mint_loop [] amount bal = Some bal"
| "mint_loop (r # rs) amount bal =
     do { b \<leftarrow> uint_add (bal r) amount; mint_loop rs amount (bal(r := b)) }"

definition ERC20_mintForAll :: "address list \<Rightarrow> u256 \<Rightarrow> ERC20 \<Rightarrow> ERC20 option" where
  "ERC20_mintForAll recipients amount s =
     do { bal \<leftarrow> mint_loop recipients amount (balanceOf s);
          m \<leftarrow> uint_mul amount (of_nat (length recipients));
          t \<leftarrow> uint_add (totalSupply s) m;
          Some (s\<lparr>balanceOf := bal, totalSupply := t\<rparr>) }"

section \<open>Contracts that destroy themselves\<close>

text \<open>
  \<open>SelfDestructNewContract.sol\<close>: the state is the balance of the factory. The payment arrives, goes to
  the child, and comes back when the child destroys itself.
\<close>

definition New_deployAndDestruct :: "int \<Rightarrow> int \<Rightarrow> int option" where
  "New_deployAndDestruct paid balance =
     (if paid \<noteq> 1 then None
      else let own = balance + paid; child = paid; own1 = own - child in Some (own1 + child))"

text \<open>
  \<open>SelfDestructOldContract.sol\<close>: the balances of the factory and of the contract it has constructed. A
  call destroys the constructed contract, which pays its balance to the factory, and constructs a new
  one with the payment.
\<close>

definition Old_constructor :: "int \<Rightarrow> int \<times> int" where
  "Old_constructor paid = (0, paid)"

definition Old_destructAndDeploy :: "int \<Rightarrow> int \<times> int \<Rightarrow> (int \<times> int) option" where
  "Old_destructAndDeploy paid s =
     (let (balance, child) = s
      in if paid \<noteq> 1 then None
         else let own = balance + paid; own1 = own + child in Some (own1 - paid, paid))"

section \<open>Helper\<close>

text \<open>
  \<open>Helper.sol\<close>: \<open>distribute\<close> pays the same share to every receiver; without receivers the division
  reverts. \<open>accepts\<close> is whether a receiver takes the payment.
\<close>

definition Helper_distribute ::
  "(address \<Rightarrow> bool) \<Rightarrow> int \<Rightarrow> address list \<Rightarrow> (address \<Rightarrow> int) \<Rightarrow> (address \<Rightarrow> int) option" where
  "Helper_distribute accepts paid receivers bal =
     (if receivers = [] then None
      else let amount = paid div int (length receivers)
           in if list_all accepts receivers then Some (fold (\<lambda>r b. b(r := b r + amount)) receivers bal) else None)"

section \<open>Laws\<close>

lemma uint_add_Some: "uint_add a b = Some c \<longleftrightarrow> uint a + uint b < 2 ^ 256 \<and> c = a + b"
  by (auto simp: uint_add_def)

lemma uint_sub_Some: "uint_sub a b = Some c \<longleftrightarrow> b \<le> a \<and> c = a - b"
  by (auto simp: uint_sub_def)

lemma uint_plus_exact: "uint (a::u256) + uint b < 2 ^ 256 \<Longrightarrow> uint (a + b) = uint a + uint b"
  by (simp add: uint_word_ariths)

lemma uint_minus_exact: "(b::u256) \<le> a \<Longrightarrow> uint (a - b) = uint a - uint b"
  by (simp add: uint_minus_simple_alt word_le_def uint_sub_lem)

lemma fill_loop_apply: "fill_loop key to v d k = (if key \<le> k \<and> k < to then v else d k)"
proof (induction key to v d rule: fill_loop.induct)
  case (1 key to v d)
  show ?case
  proof (cases "key < to")
    case True
    then have "fill_loop key to v d k = fill_loop (key + 1) to v (d(key := v)) k" by (subst fill_loop.simps) simp
    also have "\<dots> = (if key + 1 \<le> k \<and> k < to then v else (d(key := v)) k)" by (rule 1 [OF True])
    finally show ?thesis using True by auto
  next
    case False
    then show ?thesis by (subst fill_loop.simps) simp
  qed
qed

text \<open>What a transfer does to the balances, as unbounded numbers.\<close>

lemma move_balance_Some:
  assumes "move_balance x y a bal = Some bal'"
  shows "uint (bal' k) = uint (bal k) - (if k = x then uint a else 0) + (if k = y then uint a else 0)"
    and "uint a \<le> uint (bal x)"
  using assms by (auto simp: move_balance_def uint_sub_Some uint_add_Some uint_plus_exact uint_minus_exact word_le_def
      split: Option.bind_split_asm)

lemma move_balance_ok:
  assumes "a \<le> bal x" "uint (bal y) + uint a < 2 ^ 256"
  obtains bal' where "move_balance x y a bal = Some bal'"
proof (cases "x = y")
  case True
  have "uint (bal x - a) + uint a < 2 ^ 256"
    using assms uint_lt2p [of "bal x"] by (simp add: uint_minus_exact)
  with True assms that show thesis by (auto simp: move_balance_def uint_sub_def uint_add_def)
next
  case False
  with assms that show thesis by (auto simp: move_balance_def uint_sub_def uint_add_def)
qed

text \<open>Tokens are conserved: the balances of a set of holders change by what crosses its border.\<close>

lemma move_balance_sum:
  assumes "move_balance x y a bal = Some bal'" "finite A"
  shows "(\<Sum>k\<in>A. uint (bal' k)) =
     (\<Sum>k\<in>A. uint (bal k)) - (if x \<in> A then uint a else 0) + (if y \<in> A then uint a else 0)"
  using assms by (simp add: move_balance_Some(1) [OF assms(1)] sum.distrib sum_subtractf)

lemma mint_loop_Some:
  assumes "mint_loop rs a bal = Some bal'"
  shows "uint (bal' k) = uint (bal k) + int (count_list rs k) * uint a"
  using assms by (induction rs arbitrary: bal)
    (auto simp: uint_add_Some uint_plus_exact algebra_simps split: Option.bind_split_asm)

end
