(* ===== verification/Load_Apps.thy ===== *)
theory Load_Apps
  imports Load_Contracts
begin

text \<open>
  The load applications (\<open>load/app\<close>): the context they run in (\<open>context.go\<close>), the creation of signed
  transactions (\<open>helpers.go\<close>), and the users of every application whose transactions carry the nonces
  of the user's own account. Call data are identified with the method and the arguments that \<open>Pack\<close>
  encodes; whether packing and signing succeed is a parameter, as the libraries that do it are. The
  type of the signature is not modelled: a transaction carries the key it is signed with.
\<close>

section \<open>Context\<close>

datatype ctx_error =
    NilContext | DialFailed | NoChainID | NoGasPrice | NoNonce | NoTransactor
  | OperationFailed | NoReceipt | TransactionReverted

record 'r appContext =
  ax_treasury :: Account
  ax_helper :: bool
  ax_networkRules :: 'r

definition NewContext :: "bool \<Rightarrow> bool \<Rightarrow> Account \<Rightarrow> 'r \<Rightarrow> ctx_error + 'r appContext" where
  "NewContext ctx dial treasury networkRules =
     (if \<not> ctx then Inl NilContext
      else if \<not> dial then Inl DialFailed
      else Inr \<lparr>ax_treasury = treasury, ax_helper = False, ax_networkRules = networkRules\<rparr>)"

text \<open>What the client answers while the options of a transaction are collected.\<close>

record client_answers =
  ca_chainID :: "int option"
  ca_gasPrice :: "int option"
  ca_pendingNonce :: "u64 option"
  ca_transactor :: bool

record TransactOpts =
  to_key :: "nat list"
  to_chainID :: int
  to_GasPrice :: int
  to_Nonce :: int
  to_Value :: "int option"

definition GetTransactOptions :: "client_answers \<Rightarrow> Account \<Rightarrow> ctx_error + TransactOpts" where
  "GetTransactOptions c account =
     (case ca_chainID c of None \<Rightarrow> Inl NoChainID | Some chainId \<Rightarrow>
      case ca_gasPrice c of None \<Rightarrow> Inl NoGasPrice | Some gasPrice \<Rightarrow>
      case ca_pendingNonce c of None \<Rightarrow> Inl NoNonce | Some nonce \<Rightarrow>
      if \<not> ca_transactor c then Inl NoTransactor
      else Inr \<lparr>to_key = ac_key account, to_chainID = chainId, to_GasPrice = gasPrice * 2, to_Nonce = sint nonce,
                to_Value = None\<rparr>)"

record Receipt =
  rc_status :: bool
  rc_contractAddress :: address

text \<open>
  \<open>Run\<close> returns the receipt also when the transaction was reverted. \<open>receipt\<close> is what waiting for the
  receipt of a transaction gives.
\<close>

definition Run ::
  "client_answers \<Rightarrow> Account \<Rightarrow> (TransactOpts \<Rightarrow> 'tx option) \<Rightarrow> ('tx \<Rightarrow> Receipt option) \<Rightarrow>
     Receipt option \<times> ctx_error option" where
  "Run c treasury operation receipt =
     (case GetTransactOptions c treasury of Inl e \<Rightarrow> (None, Some e) | Inr txOpts \<Rightarrow>
      case operation txOpts of None \<Rightarrow> (None, Some OperationFailed) | Some tx \<Rightarrow>
      case receipt tx of None \<Rightarrow> (None, Some NoReceipt) | Some r \<Rightarrow>
      if \<not> rc_status r then (Some r, Some TransactionReverted) else (Some r, None))"

text \<open>
  The two deployments: \<open>deploy\<close> submits the creation and returns the transaction and the binding of
  the contract.
\<close>

definition await_deployment ::
  "('tx \<times> 'c) option \<Rightarrow> ('tx \<Rightarrow> Receipt option) \<Rightarrow> ctx_error + 'c \<times> Receipt" where
  "await_deployment deployed receipt =
     (case deployed of None \<Rightarrow> Inl OperationFailed | Some (tx, contract) \<Rightarrow>
      case receipt tx of None \<Rightarrow> Inl NoReceipt | Some r \<Rightarrow>
      if \<not> rc_status r then Inl TransactionReverted else Inr (contract, r))"

definition DeployContract ::
  "client_answers \<Rightarrow> Account \<Rightarrow> (TransactOpts \<Rightarrow> ('tx \<times> 'c) option) \<Rightarrow> ('tx \<Rightarrow> Receipt option) \<Rightarrow>
     ctx_error + 'c \<times> Receipt" where
  "DeployContract c treasury deploy receipt =
     (case GetTransactOptions c treasury of Inl e \<Rightarrow> Inl e
      | Inr transactOptions \<Rightarrow> await_deployment (deploy transactOptions) receipt)"

definition DeployContractWithValue ::
  "client_answers \<Rightarrow> Account \<Rightarrow> (TransactOpts \<Rightarrow> ('tx \<times> 'c) option) \<Rightarrow> ('tx \<Rightarrow> Receipt option) \<Rightarrow> int \<Rightarrow>
     ctx_error + 'c \<times> Receipt" where
  "DeployContractWithValue c treasury deploy receipt v =
     (case GetTransactOptions c treasury of Inl e \<Rightarrow> Inl e
      | Inr transactOptions \<Rightarrow> await_deployment (deploy (transactOptions\<lparr>to_Value := Some v\<rparr>)) receipt)"

section \<open>Transactions\<close>

text \<open>
  The arguments of calls, and call data: a call of a method, the creation of a contract with the
  arguments of its constructor, and plain bytes.
\<close>

datatype abi_arg =
    AAddress address
  | AInt int
  | ABytes "nat list"
  | AAddresses "address list"
  | ACalls "(address \<times> int \<times> calldata) list"
  | AOperations "(address \<times> calldata) list"
and calldata =
    Call string "abi_arg list"
  | Create "abi_arg list"
  | Bytes "nat list"

record DynamicFeeTx =
  tx_nonce :: u64
  tx_gas :: u64
  tx_gasFeeCap :: int
  tx_gasTipCap :: int
  tx_to :: "address option"
  tx_value :: int
  tx_data :: calldata

record SetCodeAuthorization =
  au_key :: "nat list"
  au_address :: address
  au_nonce :: u64

text \<open>The steps of a bundle, and the plan that runs all of them or one of them.\<close>

record BuilderStep =
  bs_key :: "nat list"
  bs_tx :: DynamicFeeTx

datatype Plan = AllOf "BuilderStep list" | OneOf "BuilderStep list"

record Bundle =
  bu_plan :: Plan
  bu_earliest :: u64

record Envelope =
  en_key :: "nat list"
  en_gas :: u64
  en_data :: Bundle

text \<open>
  A signed transaction: an ordinary one, one that sets the code of accounts, one a contract binding
  built from its options, and an envelope to the bundle processor.
\<close>

datatype Transaction =
    SignedTx "nat list" DynamicFeeTx
  | SignedSetCodeTx "nat list" DynamicFeeTx "SetCodeAuthorization list"
  | BoundTx TransactOpts u64 calldata
  | EnvelopeTx Envelope

text \<open>
  What the libraries answer: whether call data can be packed, whether a transaction, an authorization
  or the envelope of a bundle can be signed, the address of a key, and, for bundles, the gas of an envelope.
\<close>

record app_env =
  ev_pack :: "calldata \<Rightarrow> bool"
  ev_sign :: "nat list \<Rightarrow> DynamicFeeTx \<Rightarrow> bool"
  ev_signAuth :: "SetCodeAuthorization \<Rightarrow> bool"
  ev_transactor :: "nat list \<Rightarrow> bool"
  ev_bound :: "TransactOpts \<Rightarrow> bool"
  ev_address :: "nat list \<Rightarrow> address"
  ev_envelopeGas :: "Bundle \<Rightarrow> u64"

datatype app_error =
    PackFailed | SignFailed | RandomFailed | NotEnoughAccounts | TransactorFailed | NonceFailedFor string | BlockNumberFailed

definition gasFeeCap :: int where
  "gasFeeCap = 1000000000000"

definition gasTipCap :: int where
  "gasTipCap = 0"

text \<open>The nonce is taken from the account before the transaction is signed.\<close>

definition createTx ::
  "app_env \<Rightarrow> Account \<Rightarrow> address \<Rightarrow> int \<Rightarrow> calldata \<Rightarrow> u64 \<Rightarrow> (app_error + Transaction) \<times> Account" where
  "createTx env from toAddress v data gasLimit =
     (let (nonce, from1) = getNextNonce from;
          tx = \<lparr>tx_nonce = nonce, tx_gas = gasLimit, tx_gasFeeCap = gasFeeCap, tx_gasTipCap = gasTipCap,
                tx_to = Some toAddress, tx_value = v, tx_data = data\<rparr>
      in (if ev_sign env (ac_key from) tx then Inr (SignedTx (ac_key from) tx) else Inl SignFailed, from1))"

definition createDeployTx ::
  "app_env \<Rightarrow> Account \<Rightarrow> int \<Rightarrow> calldata \<Rightarrow> u64 \<Rightarrow> (app_error + Transaction) \<times> Account" where
  "createDeployTx env from v data gasLimit =
     (let (nonce, from1) = getNextNonce from;
          tx = \<lparr>tx_nonce = nonce, tx_gas = gasLimit, tx_gasFeeCap = 1000000000000, tx_gasTipCap = 0,
                tx_to = None, tx_value = v, tx_data = data\<rparr>
      in (if ev_sign env (ac_key from) tx then Inr (SignedTx (ac_key from) tx) else Inl SignFailed, from1))"

text \<open>
  The authorizations of \<open>createSetCodeTx\<close>: every account gives its next nonce; the loop stops at the
  first signature that fails, with the nonces taken so far.
\<close>

fun authorize ::
  "app_env \<Rightarrow> address \<Rightarrow> Account list \<Rightarrow> (app_error + SetCodeAuthorization list) \<times> Account list" where
  "authorize env codeAddr [] = (Inr [], [])"
| "authorize env codeAddr (a # as) =
     (let (nonce, a1) = getNextNonce a;
          auth = \<lparr>au_key = ac_key a, au_address = codeAddr, au_nonce = nonce\<rparr>
      in if \<not> ev_signAuth env auth then (Inl SignFailed, a1 # as)
         else let (r, as1) = authorize env codeAddr as in (map_sum id ((#) auth) r, a1 # as1))"

definition createSetCodeTx ::
  "app_env \<Rightarrow> Account \<Rightarrow> address \<Rightarrow> int \<Rightarrow> calldata \<Rightarrow> u64 \<Rightarrow> Account list \<Rightarrow> address \<Rightarrow>
     (app_error + Transaction) \<times> Account \<times> Account list" where
  "createSetCodeTx env from toAddress v data gasLimit authAccounts codeAddr =
     (case authorize env codeAddr authAccounts of
        (Inl e, as) \<Rightarrow> (Inl e, from, as)
      | (Inr authList, as) \<Rightarrow>
          (let (nonce, from1) = getNextNonce from;
               tx = \<lparr>tx_nonce = nonce, tx_gas = gasLimit, tx_gasFeeCap = 1000000000000, tx_gasTipCap = 0,
                     tx_to = Some toAddress, tx_value = v, tx_data = data\<rparr>
           in (if ev_sign env (ac_key from) tx then Inr (SignedSetCodeTx (ac_key from) tx authList) else Inl SignFailed,
               from1, as)))"

definition reverseAddresses :: "address list \<Rightarrow> address list" where
  "reverseAddresses inp = map (\<lambda>i. inp ! (length inp - 1 - i)) [0..<length inp]"

section \<open>Users\<close>

text \<open>
  The fields all users of a contract have. The users of the counter, the store, the transient counter,
  the self-destructing contracts and the BLS precompile have no others.
\<close>

record ContractUser =
  cu_sender :: Account
  cu_contract :: address
  cu_sentTxs :: u64

text \<open>The end of \<open>GenerateTx\<close>: a transaction that could be created is counted as sent.\<close>

definition counted :: "(app_error + Transaction) \<times> Account \<Rightarrow> 'a ContractUser_scheme \<Rightarrow> (app_error + Transaction) \<times> 'a ContractUser_scheme" where
  "counted created g =
     (let (r, sender) = created; g1 = g\<lparr>cu_sender := sender\<rparr>
      in (r, case r of Inl _ \<Rightarrow> g1 | Inr _ \<Rightarrow> g1\<lparr>cu_sentTxs := cu_sentTxs g1 + 1\<rparr>))"

definition GetSentTransactions_user :: "'a ContractUser_scheme \<Rightarrow> u64" where
  "GetSentTransactions_user g = cu_sentTxs g"

definition Counter_GenerateTx :: "app_env \<Rightarrow> ContractUser \<Rightarrow> (app_error + Transaction) \<times> ContractUser" where
  "Counter_GenerateTx env g =
     (let data = Call ''incrementCounter'' []
      in if \<not> ev_pack env data then (Inl PackFailed, g)
         else counted (createTx env (cu_sender g) (cu_contract g) 0 data 28036) g)"

definition updateSize :: int where
  "updateSize = 260"

text \<open>The values of a fill are 64-bit integers of Go, computed with wrap-around.\<close>

definition store_val :: "u64 \<Rightarrow> int" where
  "store_val sent = sint (sent + 1)"

definition store_from :: "u64 \<Rightarrow> int" where
  "store_from sent = sint ((sent + 1) * word_of_int updateSize)"

definition store_to :: "u64 \<Rightarrow> int" where
  "store_to sent = sint ((sent + 1) * word_of_int updateSize + word_of_int updateSize)"

definition Store_GenerateTx :: "app_env \<Rightarrow> ContractUser \<Rightarrow> (app_error + Transaction) \<times> ContractUser" where
  "Store_GenerateTx env g =
     (let sent = cu_sentTxs g;
          data = Call ''fill'' [AInt (store_from sent), AInt (store_to sent), AInt (store_val sent)]
      in if \<not> ev_pack env data then (Inl PackFailed, g)
         else counted (createTx env (cu_sender g) (cu_contract g) 0 data (52000 + 25000 * 260)) g)"

record ERC20User = ContractUser +
  eu_recipients :: "address list"

text \<open>\<open>r\<close> is the random number below the number of recipients.\<close>

definition ERC20_GenerateTx :: "app_env \<Rightarrow> nat \<Rightarrow> ERC20User \<Rightarrow> (app_error + Transaction) \<times> ERC20User" where
  "ERC20_GenerateTx env r g =
     (let recipient = eu_recipients g ! r;
          data = Call ''transfer'' [AAddress recipient, AInt 1]
      in if \<not> ev_pack env data then (Inl PackFailed, g)
         else counted (createTx env (cu_sender g) (cu_contract g) 0 data 52000) g)"

definition TokensInChain :: nat where
  "TokensInChain = 4"

definition PairsInChain :: nat where
  "PairsInChain = TokensInChain - 1"

definition AmountSwapped :: int where
  "AmountSwapped = 100"

text \<open>The contract of a Uniswap user is the router.\<close>

record UniswapUser = ContractUser +
  uu_tokensAddresses :: "address list"
  uu_pairsAddresses :: "address list"
  uu_tokensAddressesReversed :: "address list"
  uu_pairsAddressesReversed :: "address list"

definition Uniswap_GenerateTx :: "app_env \<Rightarrow> nat \<Rightarrow> UniswapUser \<Rightarrow> (app_error + Transaction) \<times> UniswapUser" where
  "Uniswap_GenerateTx env r g =
     (let data = (if r = 0
                  then Call ''swapExactTokensForTokens''
                         [AInt AmountSwapped, AAddresses (uu_tokensAddresses g), AAddresses (uu_pairsAddresses g)]
                  else Call ''swapExactTokensForTokens''
                         [AInt AmountSwapped, AAddresses (uu_tokensAddressesReversed g), AAddresses (uu_pairsAddressesReversed g)])
      in if \<not> ev_pack env data then (Inl PackFailed, g)
         else counted (createTx env (cu_sender g) (cu_contract g) 0 data (160000 + of_nat (TokensInChain - 2) * 95000)) g)"

record EcdsaUser = ContractUser +
  ecu_privateKey :: "nat list"

definition bigIntTo32Bytes :: "nat \<Rightarrow> nat list option" where
  "bigIntTo32Bytes v = (if v < 256 ^ 32 then Some (be_bytes 32 v) else None)"

text \<open>
  \<open>hash\<close> is the random digest, if one can be read, and \<open>p256\<close> the signature with the private key, if
  signing succeeds. Numbers that do not fit 32 bytes panic: \<open>None\<close>.
\<close>

definition Ecdsa_GenerateTx ::
  "app_env \<Rightarrow> nat list option \<Rightarrow> (nat list \<Rightarrow> nat list \<Rightarrow> (nat \<times> nat) option) \<Rightarrow> EcdsaUser \<Rightarrow>
     ((app_error + Transaction) \<times> EcdsaUser) option" where
  "Ecdsa_GenerateTx env hash p256 g =
     (case hash of None \<Rightarrow> Some (Inl RandomFailed, g) | Some hashBytes \<Rightarrow>
      case p256 (ecu_privateKey g) hashBytes of None \<Rightarrow> Some (Inl SignFailed, g) | Some (sigR, sigS) \<Rightarrow>
      do { r \<leftarrow> bigIntTo32Bytes sigR;
           s \<leftarrow> bigIntTo32Bytes sigS;
           let data = Call ''incrementCounter'' [ABytes hashBytes, ABytes r, ABytes s];
           Some (if \<not> ev_pack env data then (Inl PackFailed, g)
                 else counted (createTx env (cu_sender g) (cu_contract g) 0 data 50000) g) })"

text \<open>The contract of a user that deploys large contracts is the counter; \<open>initCodePrefix\<close> is fixed.\<close>

definition LargeContract_GenerateTx :: "app_env \<Rightarrow> ContractUser \<Rightarrow> (app_error + Transaction) \<times> ContractUser" where
  "LargeContract_GenerateTx env g =
     (let data = Create [AAddress (cu_contract g), AInt (uint (cu_sentTxs g))]
      in if \<not> ev_pack env data then (Inl PackFailed, g)
         else counted (createDeployTx env (cu_sender g) 0 data 12000000) g)"

definition Transient_GenerateTx :: "app_env \<Rightarrow> ContractUser \<Rightarrow> (app_error + Transaction) \<times> ContractUser" where
  "Transient_GenerateTx env g =
     (let data = Call ''incrementCounterTwice'' []
      in if \<not> ev_pack env data then (Inl PackFailed, g)
         else counted (createTx env (cu_sender g) (cu_contract g) 0 data 60000) g)"

definition oneWei :: int where
  "oneWei = 1"

definition SelfDestructOld_GenerateTx :: "app_env \<Rightarrow> ContractUser \<Rightarrow> (app_error + Transaction) \<times> ContractUser" where
  "SelfDestructOld_GenerateTx env g =
     (let data = Call ''destructAndDeploy'' []
      in if \<not> ev_pack env data then (Inl PackFailed, g)
         else counted (createTx env (cu_sender g) (cu_contract g) oneWei data 100000) g)"

definition SelfDestructNew_GenerateTx :: "app_env \<Rightarrow> ContractUser \<Rightarrow> (app_error + Transaction) \<times> ContractUser" where
  "SelfDestructNew_GenerateTx env g =
     (let data = Call ''deployAndDestruct'' []
      in if \<not> ev_pack env data then (Inl PackFailed, g)
         else counted (createTx env (cu_sender g) (cu_contract g) oneWei data 100000) g)"

text \<open>The fixed input of the precompiled contract, two points of four coordinates, is not spelled out.\<close>

definition Bls12Add_GenerateTx :: "nat list \<Rightarrow> app_env \<Rightarrow> ContractUser \<Rightarrow> (app_error + Transaction) \<times> ContractUser" where
  "Bls12Add_GenerateTx points env g = counted (createTx env (cu_sender g) (cu_contract g) 0 (Bytes points) 45000) g"

text \<open>
  The user of a subsidised counter: the transaction is built by the binding from options with gas
  price zero. Both the transactor and the binding may fail, the binding after the nonce is taken.
\<close>

definition Subsidies_GenerateTx :: "app_env \<Rightarrow> int \<Rightarrow> ContractUser \<Rightarrow> (app_error + Transaction) \<times> ContractUser" where
  "Subsidies_GenerateTx env chainID u =
     (let key = ac_key (cu_sender u)
      in if \<not> ev_transactor env key then (Inl TransactorFailed, u)
         else
           let (nonce, sender1) = getNextNonce (cu_sender u);
               opts = \<lparr>to_key = key, to_chainID = chainID, to_GasPrice = 0, to_Nonce = sint nonce, to_Value = Some 0\<rparr>
           in counted (if ev_bound env opts then Inr (BoundTx opts 28036 (Call ''incrementCounter'' [])) else Inl SignFailed,
                       sender1) u)"

text \<open>
  The user of smart accounts; its contract is the entry point. The pool holds the accounts, so that
  the nonces it gives out are those of the pool: \<open>put_accounts\<close> writes back the chosen accounts.
\<close>

record SmartAccountUser = ContractUser +
  su_counterAddr :: address
  su_codeAddr :: address
  su_accountsCircular :: "Account AccountsCircularPool"

fun put_accounts :: "nat \<Rightarrow> Account list \<Rightarrow> Account list \<Rightarrow> Account list" where
  "put_accounts i [] accs = accs"
| "put_accounts i (a # as) accs = put_accounts ((i + 1) mod length accs) as (accs[i := a])"

definition SmartAccount_GenerateTx ::
  "app_env \<Rightarrow> SmartAccountUser \<Rightarrow> (app_error + Transaction) \<times> SmartAccountUser" where
  "SmartAccount_GenerateTx env g =
     (let pool = su_accountsCircular g
      in case GetAccounts 3 pool of
           (None, _) \<Rightarrow> (Inl NotEnoughAccounts, g)
         | (Some authAccounts, pool1) \<Rightarrow>
             (let g1 = g\<lparr>su_accountsCircular := pool1\<rparr>;
                  dataIncrement = Call ''incrementCounter'' [];
                  accountData = Call ''execute'' [ACalls [(su_counterAddr g, 0, dataIncrement)]];
                  entryPointData = Call ''handleOps''
                    [AOperations [(ev_address env (ac_key (hd authAccounts)), accountData)]]
              in if \<not> (ev_pack env dataIncrement \<and> ev_pack env accountData \<and> ev_pack env entryPointData)
                 then (Inl PackFailed, g1)
                 else
                   let (r, sender1, auths1) =
                         createSetCodeTx env (cu_sender g) (cu_contract g) 0 entryPointData 200000 authAccounts (su_codeAddr g)
                   in counted (r, sender1)
                        (g1\<lparr>su_accountsCircular :=
                             pool1\<lparr>cp_accounts := put_accounts (cp_current pool) auths1 (cp_accounts pool)\<rparr>\<rparr>)))"

end
