(* ===== verification/Load_Bundles.thy ===== *)
theory Load_Bundles
  imports Load_Apps
begin

text \<open>
  The applications that send bundles of transactions: \<open>allofbundle_app.go\<close>, \<open>oneofbundle_app.go\<close>,
  \<open>duplicatedbundle_app.go\<close>, \<open>failingbundle_app.go\<close> and \<open>subsidizedbundle_app.go\<close>. The nonces of the steps
  are asked from the chain on every call. The builder of the bundle library is identified with what it
  is given: the envelope carries the plan, whose steps are signed with the keys they name.
\<close>

text \<open>What the client answers on a call: pending nonces of keys, the number of the current block.\<close>

record chain_view =
  cv_pendingNonce :: "nat list \<Rightarrow> u64 option"
  cv_blockNumber :: "u64 option"

definition Step :: "nat list \<Rightarrow> u64 \<Rightarrow> u64 \<Rightarrow> int \<Rightarrow> address \<Rightarrow> int \<Rightarrow> calldata \<Rightarrow> BuilderStep" where
  "Step key nonce gas feeCap to v data =
     \<lparr>bs_key = key,
      bs_tx = \<lparr>tx_nonce = nonce, tx_gas = gas, tx_gasFeeCap = feeCap, tx_gasTipCap = gasTipCap, tx_to = Some to,
               tx_value = v, tx_data = data\<rparr>\<rparr>"

text \<open>\<open>key\<close> is the key the envelope is signed with.\<close>

definition Build :: "app_env \<Rightarrow> nat list \<Rightarrow> Plan \<Rightarrow> u64 \<Rightarrow> Envelope" where
  "Build env key plan earliest =
     (let b = \<lparr>bu_plan = plan, bu_earliest = earliest\<rparr> in \<lparr>en_key = key, en_gas = ev_envelopeGas env b, en_data = b\<rparr>)"

section \<open>Bundles of which every step runs\<close>

record AllOfBundleUser =
  ao_erc20Address :: address
  ao_approver :: Account
  ao_spender :: Account
  ao_sentTxs :: u64

definition allof_plan :: "app_env \<Rightarrow> AllOfBundleUser \<Rightarrow> u64 \<Rightarrow> u64 \<Rightarrow> Plan" where
  "allof_plan env u nonceApprover nonceSpender =
     (let approver = ac_key (ao_approver u); spender = ac_key (ao_spender u)
      in AllOf
           [Step approver nonceApprover 70000 gasFeeCap (ao_erc20Address u) 0
              (Call ''approve'' [AAddress (ev_address env spender), AInt 1]),
            Step spender nonceSpender 90000 gasFeeCap (ao_erc20Address u) 0
              (Call ''transferFrom'' [AAddress (ev_address env approver), AAddress (ev_address env spender), AInt 1])])"

definition AllOfBundle_GenerateTx ::
  "app_env \<Rightarrow> chain_view \<Rightarrow> nat list \<Rightarrow> AllOfBundleUser \<Rightarrow> (app_error + Transaction) \<times> AllOfBundleUser" where
  "AllOfBundle_GenerateTx env cv key u =
     (let approver = ac_key (ao_approver u); spender = ac_key (ao_spender u);
          approveData = Call ''approve'' [AAddress (ev_address env spender), AInt 1];
          transferData = Call ''transferFrom'' [AAddress (ev_address env approver), AAddress (ev_address env spender), AInt 1]
      in if \<not> ev_pack env approveData \<or> \<not> ev_pack env transferData then (Inl PackFailed, u) else
      case cv_pendingNonce cv approver of None \<Rightarrow> (Inl (NonceFailedFor ''approver''), u) | Some nonceApprover \<Rightarrow>
      case cv_pendingNonce cv spender of None \<Rightarrow> (Inl (NonceFailedFor ''spender''), u) | Some nonceSpender \<Rightarrow>
      case cv_blockNumber cv of None \<Rightarrow> (Inl BlockNumberFailed, u) | Some currentBlock \<Rightarrow>
        (Inr (EnvelopeTx (Build env key (allof_plan env u nonceApprover nonceSpender) currentBlock)),
         u\<lparr>ao_sentTxs := ao_sentTxs u + 1\<rparr>))"

section \<open>Bundles of which one step runs\<close>

record OneOfBundleUser =
  oo_erc20Address :: address
  oo_sender :: Account
  oo_targetAddress :: address
  oo_sentTxs :: u64

definition overBalanceAmount :: int where
  "overBalanceAmount = 2000000 * 1000000000000000000"

text \<open>
  The step that fails consumes a nonce when it runs, which it does only if it comes first.
\<close>

definition oneof_plan :: "OneOfBundleUser \<Rightarrow> bool \<Rightarrow> u64 \<Rightarrow> Plan" where
  "oneof_plan u successfulFirst nonce =
     (let sender = ac_key (oo_sender u);
          successful = Call ''transfer'' [AAddress (oo_targetAddress u), AInt 1];
          failing = Call ''transfer'' [AAddress (oo_targetAddress u), AInt overBalanceAmount]
      in OneOf
           (if successfulFirst
            then [Step sender nonce 70000 gasFeeCap (oo_erc20Address u) 0 successful,
                  Step sender nonce 70000 gasFeeCap (oo_erc20Address u) 0 failing]
            else [Step sender nonce 70000 gasFeeCap (oo_erc20Address u) 0 failing,
                  Step sender (nonce + 1) 70000 gasFeeCap (oo_erc20Address u) 0 successful]))"

definition OneOfBundle_GenerateTx ::
  "app_env \<Rightarrow> chain_view \<Rightarrow> nat list \<Rightarrow> bool \<Rightarrow> OneOfBundleUser \<Rightarrow> (app_error + Transaction) \<times> OneOfBundleUser" where
  "OneOfBundle_GenerateTx env cv key successfulFirst u =
     (if \<not> ev_pack env (Call ''transfer'' [AAddress (oo_targetAddress u), AInt 1])
         \<or> \<not> ev_pack env (Call ''transfer'' [AAddress (oo_targetAddress u), AInt overBalanceAmount])
      then (Inl PackFailed, u) else
      case cv_blockNumber cv of None \<Rightarrow> (Inl BlockNumberFailed, u) | Some currentBlock \<Rightarrow>
      case cv_pendingNonce cv (ac_key (oo_sender u)) of None \<Rightarrow> (Inl (NonceFailedFor ''sender''), u) | Some nonce \<Rightarrow>
        (Inr (EnvelopeTx (Build env key (oneof_plan u successfulFirst nonce) currentBlock)), u\<lparr>oo_sentTxs := oo_sentTxs u + 1\<rparr>))"

section \<open>Bundles that are sent twice\<close>

definition duplicatedBundleThreshold :: int where
  "duplicatedBundleThreshold = 2"

record DuplicatedBundleUser =
  db_erc20Address :: address
  db_senderA :: Account
  db_senderB :: Account
  db_targetAddress :: address
  db_sentTxs :: u64
  db_usedCount :: int
  db_savedEnvelope :: "Envelope option"

definition duplicated_plan :: "app_env \<Rightarrow> DuplicatedBundleUser \<Rightarrow> bool \<Rightarrow> u64 \<Rightarrow> u64 \<Rightarrow> Plan" where
  "duplicated_plan env u oneOf nonceA nonceB =
     (let keyA = ac_key (db_senderA u); keyB = ac_key (db_senderB u);
          toTarget = Call ''transfer'' [AAddress (db_targetAddress u), AInt 1];
          toB = Call ''transfer'' [AAddress (ev_address env keyB), AInt 1]
      in if oneOf
         then OneOf [Step keyA nonceA 70000 gasFeeCap (db_erc20Address u) 0 toTarget,
                     Step keyB nonceB 70000 gasFeeCap (db_erc20Address u) 0 toTarget]
         else AllOf [Step keyA nonceA 70000 gasFeeCap (db_erc20Address u) 0 toB,
                     Step keyB nonceB 70000 gasFeeCap (db_erc20Address u) 0 toTarget])"

definition generateNewBundleTx ::
  "app_env \<Rightarrow> chain_view \<Rightarrow> nat list \<Rightarrow> bool \<Rightarrow> DuplicatedBundleUser \<Rightarrow> app_error + Envelope" where
  "generateNewBundleTx env cv key oneOf u =
     (case cv_blockNumber cv of None \<Rightarrow> Inl BlockNumberFailed | Some currentBlock \<Rightarrow>
      if \<not> ev_pack env (Call ''transfer'' [AAddress (db_targetAddress u), AInt 1])
         \<or> \<not> ev_pack env (Call ''transfer'' [AAddress (ev_address env (ac_key (db_senderB u))), AInt 1])
      then Inl PackFailed else
      case cv_pendingNonce cv (ac_key (db_senderA u)) of None \<Rightarrow> Inl (NonceFailedFor ''senderA'') | Some nonceA \<Rightarrow>
      case cv_pendingNonce cv (ac_key (db_senderB u)) of None \<Rightarrow> Inl (NonceFailedFor ''senderB'') | Some nonceB \<Rightarrow>
        Inr (Build env key (duplicated_plan env u oneOf nonceA nonceB) currentBlock))"

text \<open>
  The new envelope takes data and gas of the old one. \<open>key\<close> is the fresh key, if one could be generated,
  and \<open>signs\<close> whether it can sign.
\<close>

definition generateNewEnvelopeForExistingBundle ::
  "nat list option \<Rightarrow> bool \<Rightarrow> Envelope \<Rightarrow> app_error + Envelope" where
  "generateNewEnvelopeForExistingBundle key signs oldBundle =
     (case key of None \<Rightarrow> Inl RandomFailed | Some bundlerKey \<Rightarrow>
      if \<not> signs then Inl SignFailed
      else Inr \<lparr>en_key = bundlerKey, en_gas = en_gas oldBundle, en_data = en_data oldBundle\<rparr>)"

text \<open>\<open>key\<close> is the key of a new bundle's envelope, \<open>fresh\<close> and \<open>signs\<close> are those of a duplicate.\<close>

definition DuplicatedBundle_GenerateTx ::
  "app_env \<Rightarrow> chain_view \<Rightarrow> nat list \<Rightarrow> nat list option \<Rightarrow> bool \<Rightarrow> bool \<Rightarrow> DuplicatedBundleUser \<Rightarrow>
     (app_error + Transaction) \<times> DuplicatedBundleUser" where
  "DuplicatedBundle_GenerateTx env cv key fresh signs oneOf u =
     (if db_savedEnvelope u = None \<or> db_usedCount u \<ge> duplicatedBundleThreshold then
        (case generateNewBundleTx env cv key oneOf u of
           Inl e \<Rightarrow> (Inl e, u)
         | Inr tx \<Rightarrow>
             (Inr (EnvelopeTx tx), u\<lparr>db_savedEnvelope := Some tx, db_sentTxs := db_sentTxs u + 1, db_usedCount := 1\<rparr>))
      else
        (case generateNewEnvelopeForExistingBundle fresh signs (the (db_savedEnvelope u)) of
           Inl e \<Rightarrow> (Inl e, u)
         | Inr tx \<Rightarrow> (Inr (EnvelopeTx tx), u\<lparr>db_usedCount := db_usedCount u + 1\<rparr>)))"

section \<open>Bundles that may fail\<close>

definition allOfFailureProbability :: "8 word" where
  "allOfFailureProbability = 5"

definition oneOfFailureProbability :: "8 word" where
  "oneOfFailureProbability = 30"

record FailingBundleUser =
  fb_contractAddress :: address
  fb_senderA :: Account
  fb_senderB :: Account
  fb_sentTxs :: u64

definition failing_plan :: "FailingBundleUser \<Rightarrow> bool \<Rightarrow> 32 word \<Rightarrow> u64 \<Rightarrow> u64 \<Rightarrow> Plan" where
  "failing_plan u useAllOf seed nonceA nonceB =
     (let probability = (if useAllOf then allOfFailureProbability else oneOfFailureProbability);
          callData = Call ''incrementCounter'' [AInt (uint probability), AInt (uint seed)];
          steps = [Step (ac_key (fb_senderA u)) nonceA 30000 gasFeeCap (fb_contractAddress u) 0 callData,
                   Step (ac_key (fb_senderB u)) nonceB 30000 gasFeeCap (fb_contractAddress u) 0 callData]
      in if useAllOf then AllOf steps else OneOf steps)"

text \<open>\<open>nanos\<close> is the nanosecond of the clock, which seeds the contract.\<close>

definition FailingBundle_GenerateTx ::
  "app_env \<Rightarrow> chain_view \<Rightarrow> nat list \<Rightarrow> bool \<Rightarrow> int \<Rightarrow> FailingBundleUser \<Rightarrow> (app_error + Transaction) \<times> FailingBundleUser" where
  "FailingBundle_GenerateTx env cv key useAllOf nanos u =
     (let probability = (if useAllOf then allOfFailureProbability else oneOfFailureProbability);
          seed = word_of_int nanos :: 32 word
      in if \<not> ev_pack env (Call ''incrementCounter'' [AInt (uint probability), AInt (uint seed)]) then (Inl PackFailed, u) else
      case cv_pendingNonce cv (ac_key (fb_senderA u)) of None \<Rightarrow> (Inl (NonceFailedFor ''senderA''), u) | Some nonceA \<Rightarrow>
      case cv_pendingNonce cv (ac_key (fb_senderB u)) of None \<Rightarrow> (Inl (NonceFailedFor ''senderB''), u) | Some nonceB \<Rightarrow>
      case cv_blockNumber cv of None \<Rightarrow> (Inl BlockNumberFailed, u) | Some currentBlock \<Rightarrow>
        (Inr (EnvelopeTx (Build env key (failing_plan u useAllOf seed nonceA nonceB) currentBlock)), u\<lparr>fb_sentTxs := fb_sentTxs u + 1\<rparr>))"

section \<open>Bundles whose approval is sponsored\<close>

record SubsidizedBundleUser =
  sb_erc20Address :: address
  sb_registryAddress :: address
  sb_user :: Account
  sb_sponsor :: Account
  sb_approvalFundId :: "nat list"
  sb_sentTxs :: u64

definition approveGasLimit :: u64 where
  "approveGasLimit = 70000"

definition sponsoredValue :: int where
  "sponsoredValue = uint approveGasLimit * gasFeeCap"

definition subsidized_plan :: "app_env \<Rightarrow> SubsidizedBundleUser \<Rightarrow> u64 \<Rightarrow> u64 \<Rightarrow> Plan" where
  "subsidized_plan env u nonceSponsor nonceUser =
     (let user = ac_key (sb_user u); sponsor = ac_key (sb_sponsor u)
      in AllOf
           [Step sponsor nonceSponsor 90000 gasFeeCap (sb_registryAddress u) sponsoredValue
              (Call ''sponsor'' [ABytes (sb_approvalFundId u)]),
            Step user nonceUser approveGasLimit 0 (sb_erc20Address u) 0
              (Call ''approve'' [AAddress (ev_address env sponsor), AInt 1]),
            Step sponsor (nonceSponsor + 1) 90000 gasFeeCap (sb_erc20Address u) 0
              (Call ''transferFrom'' [AAddress (ev_address env user), AAddress (ev_address env sponsor), AInt 1])])"

definition SubsidizedBundle_GenerateTx ::
  "app_env \<Rightarrow> chain_view \<Rightarrow> nat list \<Rightarrow> SubsidizedBundleUser \<Rightarrow> (app_error + Transaction) \<times> SubsidizedBundleUser" where
  "SubsidizedBundle_GenerateTx env cv key u =
     (let user = ac_key (sb_user u); sponsor = ac_key (sb_sponsor u)
      in if \<not> ev_pack env (Call ''sponsor'' [ABytes (sb_approvalFundId u)])
            \<or> \<not> ev_pack env (Call ''approve'' [AAddress (ev_address env sponsor), AInt 1])
            \<or> \<not> ev_pack env (Call ''transferFrom'' [AAddress (ev_address env user), AAddress (ev_address env sponsor), AInt 1])
         then (Inl PackFailed, u) else
      case cv_blockNumber cv of None \<Rightarrow> (Inl BlockNumberFailed, u) | Some currentBlock \<Rightarrow>
      case cv_pendingNonce cv sponsor of None \<Rightarrow> (Inl (NonceFailedFor ''sponsor''), u) | Some nonceSponsor \<Rightarrow>
      case cv_pendingNonce cv user of None \<Rightarrow> (Inl (NonceFailedFor ''user''), u) | Some nonceUser \<Rightarrow>
        (Inr (EnvelopeTx (Build env key (subsidized_plan env u nonceSponsor nonceUser) currentBlock)),
         u\<lparr>sb_sentTxs := sb_sentTxs u + 1\<rparr>))"

end
