(* ===== verification/Load_Setup.thy ===== *)
theory Load_Setup
  imports Load_Bundles
begin

text \<open>
  Applications of the load generator: how each one is deployed (\<open>New...Application\<close>), how its users are
  created and funded (\<open>CreateUsers\<close>), and how it counts what the chain has received
  (\<open>GetReceivedTransactions\<close>). The answers of the network are parameters. Parsing the ABI of a contract
  and binding to an address do no input or output and succeed on the generated bindings, so that their
  error branches are part of the answer to the query they precede.
\<close>

section \<open>The network during the setup\<close>

text \<open>The transactions the treasury, or the sponsor of a fund, sends to set an application up.\<close>

datatype setup_op =
    Deploy string
  | Mint address address int
  | MintForAll address "address list" int
  | Initialize address address address
  | WhitelistSpender address address
  | Sponsor "nat list"

type_synonym setup_tx = "TransactOpts \<times> setup_op"

text \<open>
  The client of the context: the chain identifier, the answers to the k-th request of options, whether
  a transaction is accepted and with which address of a new contract, its receipt, accounts and
  addresses, the funding, and the funds of the subsidies registry.
\<close>

record net_env =
  ne_chainID :: "int option"
  ne_client :: "nat \<Rightarrow> client_answers"
  ne_submit :: "setup_tx \<Rightarrow> address option"
  ne_receipt :: "setup_tx \<Rightarrow> Receipt option"
  ne_ecdsa :: "nat list \<Rightarrow> bool"
  ne_nonce :: "nat list \<Rightarrow> u64 option"
  ne_address :: "nat list \<Rightarrow> address"
  ne_fund :: fund_env
  ne_helper :: bool
  ne_fundId :: "address \<Rightarrow> nat list option"
  ne_approvalFundId :: "address \<Rightarrow> address \<Rightarrow> calldata \<Rightarrow> nat list option"

datatype setup_error =
    ContextError ctx_error | FundingError fund_error | NoAccount | NoChain | DeploymentFailed
  | NoRecipients | KeyFailed | NoFundId | SetupReverted nat | NotPacked | UnknownApplication string

definition submit :: "net_env \<Rightarrow> setup_op \<Rightarrow> TransactOpts \<Rightarrow> (setup_tx \<times> address) option" where
  "submit env op opts = map_option (Pair (opts, op)) (ne_submit env (opts, op))"

definition NewAccountFactory :: "32 word \<Rightarrow> 32 word \<Rightarrow> AccountFactory" where
  "NewAccountFactory feederId appId = \<lparr>af_numAccounts = 0, af_feederId = feederId, af_appId = appId\<rparr>"

definition create_account :: "net_env \<Rightarrow> AccountFactory \<Rightarrow> Account option \<times> AccountFactory" where
  "create_account env f = CreateAccount (ne_ecdsa env) (Some (ne_nonce env)) f"

definition NewAccountsCircularPool ::
  "net_env \<Rightarrow> AccountFactory \<Rightarrow> nat \<Rightarrow> Account AccountsCircularPool option \<times> AccountFactory" where
  "NewAccountsCircularPool env f n =
     (let (accs, f1) = create_accounts (ne_ecdsa env) (Some (ne_nonce env)) n f
      in (map_option (\<lambda>as. \<lparr>cp_accounts = as, cp_current = 0\<rparr>) accs, f1))"

section \<open>Deployment\<close>

record ContractApplication =
  ap_contractAddress :: address
  ap_accountFactory :: AccountFactory

text \<open>
  The counter, the store, the transient counter, the contracts that destroy themselves and the large
  contracts are set up alike: chain identifier, deployment, account factory.
\<close>

definition deploy_application ::
  "net_env \<Rightarrow> Account \<Rightarrow> string \<Rightarrow> int option \<Rightarrow> 32 word \<Rightarrow> 32 word \<Rightarrow> setup_error + ContractApplication" where
  "deploy_application env treasury name v feederId appId =
     (case ne_chainID env of None \<Rightarrow> Inl NoChain | Some chainId \<Rightarrow>
      case (case v of
              None \<Rightarrow> DeployContract (ne_client env 0) treasury (submit env (Deploy name)) (ne_receipt env)
            | Some v \<Rightarrow> DeployContractWithValue (ne_client env 0) treasury (submit env (Deploy name)) (ne_receipt env) v) of
        Inl e \<Rightarrow> Inl (ContextError e)
      | Inr (_, receipt) \<Rightarrow>
          Inr \<lparr>ap_contractAddress = rc_contractAddress receipt, ap_accountFactory = NewAccountFactory feederId appId\<rparr>)"

definition NewCounterApplication :: "net_env \<Rightarrow> Account \<Rightarrow> 32 word \<Rightarrow> 32 word \<Rightarrow> setup_error + ContractApplication" where
  "NewCounterApplication env treasury = deploy_application env treasury ''Counter'' None"

definition NewStoreApplication :: "net_env \<Rightarrow> Account \<Rightarrow> 32 word \<Rightarrow> 32 word \<Rightarrow> setup_error + ContractApplication" where
  "NewStoreApplication env treasury = deploy_application env treasury ''Store'' None"

definition NewTransientApplication :: "net_env \<Rightarrow> Account \<Rightarrow> 32 word \<Rightarrow> 32 word \<Rightarrow> setup_error + ContractApplication" where
  "NewTransientApplication env treasury = deploy_application env treasury ''TransientCounter'' None"

definition NewLargeContractApplication :: "net_env \<Rightarrow> Account \<Rightarrow> 32 word \<Rightarrow> 32 word \<Rightarrow> setup_error + ContractApplication" where
  "NewLargeContractApplication env treasury = deploy_application env treasury ''Counter'' None"

definition NewSelfDestructNewContractApplication ::
  "net_env \<Rightarrow> Account \<Rightarrow> 32 word \<Rightarrow> 32 word \<Rightarrow> setup_error + ContractApplication" where
  "NewSelfDestructNewContractApplication env treasury = deploy_application env treasury ''SelfDestructNewContractFactory'' None"

definition NewSelfDestructOldContractApplication ::
  "net_env \<Rightarrow> Account \<Rightarrow> 32 word \<Rightarrow> 32 word \<Rightarrow> setup_error + ContractApplication" where
  "NewSelfDestructOldContractApplication env treasury =
     deploy_application env treasury ''SelfDestructOldContractFactory'' (Some 1)"

record EcdsaApplication = ContractApplication +
  ea_privateKey :: "nat list"

text \<open>\<open>key\<close> is the generated key, if one could be generated.\<close>

definition NewEcdsaApplication ::
  "net_env \<Rightarrow> Account \<Rightarrow> nat list option \<Rightarrow> 32 word \<Rightarrow> 32 word \<Rightarrow> setup_error + EcdsaApplication" where
  "NewEcdsaApplication env treasury key feederId appId =
     (case ne_chainID env of None \<Rightarrow> Inl NoChain | Some chainId \<Rightarrow>
      case key of None \<Rightarrow> Inl KeyFailed | Some privateKey \<Rightarrow>
      case DeployContract (ne_client env 0) treasury (submit env (Deploy ''EcdsaCounter'')) (ne_receipt env) of
        Inl e \<Rightarrow> Inl (ContextError e)
      | Inr (_, receipt) \<Rightarrow>
          Inr \<lparr>ap_contractAddress = rc_contractAddress receipt, ap_accountFactory = NewAccountFactory feederId appId,
               ea_privateKey = privateKey\<rparr>)"

record Bls12AddApplication = ContractApplication +
  ba_userAddresses :: "address list"

definition NewBls12AddApplication :: "net_env \<Rightarrow> 32 word \<Rightarrow> 32 word \<Rightarrow> setup_error + Bls12AddApplication" where
  "NewBls12AddApplication env feederId appId =
     (case ne_chainID env of None \<Rightarrow> Inl NoChain | Some chainId \<Rightarrow>
        Inr \<lparr>ap_contractAddress = 0x0b, ap_accountFactory = NewAccountFactory feederId appId, ba_userAddresses = []\<rparr>)"

text \<open>
  The deployments through a binding: the address of the new contract is known when the transaction is
  accepted. Those of tokens for bundles also check the status of the receipt.
\<close>

definition deploy_token :: "net_env \<Rightarrow> Account \<Rightarrow> string \<Rightarrow> setup_error + address \<times> setup_tx" where
  "deploy_token env treasury name =
     (case GetTransactOptions (ne_client env 0) treasury of Inl e \<Rightarrow> Inl (ContextError e) | Inr txOpts \<Rightarrow>
      case submit env (Deploy name) txOpts of None \<Rightarrow> Inl DeploymentFailed | Some (tx, a) \<Rightarrow> Inr (a, tx))"

definition deployed_well :: "net_env \<Rightarrow> setup_tx \<Rightarrow> bool" where
  "deployed_well env tx = (case ne_receipt env tx of None \<Rightarrow> False | Some r \<Rightarrow> rc_status r)"

record ERC20Application = ContractApplication +
  eap_recipients :: "address list"

text \<open>The recipients are a hundred random addresses; reading random bytes may fail.\<close>

definition generateRecipientsAddresses :: "(nat \<Rightarrow> address option) \<Rightarrow> address list option" where
  "generateRecipientsAddresses random = those (map random [0..<100])"

definition NewERC20Application ::
  "net_env \<Rightarrow> Account \<Rightarrow> (nat \<Rightarrow> address option) \<Rightarrow> 32 word \<Rightarrow> 32 word \<Rightarrow> setup_error + ERC20Application" where
  "NewERC20Application env treasury random feederId appId =
     (case deploy_token env treasury ''ERC20'' of Inl e \<Rightarrow> Inl e | Inr (contractAddress, tx) \<Rightarrow>
      case generateRecipientsAddresses random of None \<Rightarrow> Inl NoRecipients | Some recipients \<Rightarrow>
      case ne_receipt env tx of None \<Rightarrow> Inl (ContextError NoReceipt) | Some _ \<Rightarrow>
        Inr \<lparr>ap_contractAddress = contractAddress, ap_accountFactory = NewAccountFactory feederId appId,
             eap_recipients = recipients\<rparr>)"

record AllOfBundleApplication = ContractApplication +
  aob_spenderAddresses :: "address list"

definition NewAllOfBundleApplication ::
  "net_env \<Rightarrow> Account \<Rightarrow> 32 word \<Rightarrow> 32 word \<Rightarrow> setup_error + AllOfBundleApplication" where
  "NewAllOfBundleApplication env treasury feederId appId =
     (case deploy_token env treasury ''ERC20'' of Inl e \<Rightarrow> Inl e | Inr (erc20Address, tx) \<Rightarrow>
      if \<not> deployed_well env tx then Inl DeploymentFailed
      else Inr \<lparr>ap_contractAddress = erc20Address, ap_accountFactory = NewAccountFactory feederId appId,
                aob_spenderAddresses = []\<rparr>)"

record TargetBundleApplication = ContractApplication +
  tba_targetAddress :: address

text \<open>
  The applications of bundles with one running step and of duplicated bundles also create the account
  that receives the tokens.
\<close>

definition target_application ::
  "net_env \<Rightarrow> Account \<Rightarrow> 32 word \<Rightarrow> 32 word \<Rightarrow> setup_error + TargetBundleApplication" where
  "target_application env treasury feederId appId =
     (case deploy_token env treasury ''ERC20'' of Inl e \<Rightarrow> Inl e | Inr (erc20Address, tx) \<Rightarrow>
      if \<not> deployed_well env tx then Inl DeploymentFailed
      else case create_account env (NewAccountFactory feederId appId) of
             (None, _) \<Rightarrow> Inl NoAccount
           | (Some target, f) \<Rightarrow>
               Inr \<lparr>ap_contractAddress = erc20Address, ap_accountFactory = f,
                    tba_targetAddress = ne_address env (ac_key target)\<rparr>)"

definition NewOneOfBundleApplication ::
  "net_env \<Rightarrow> Account \<Rightarrow> 32 word \<Rightarrow> 32 word \<Rightarrow> setup_error + TargetBundleApplication" where
  "NewOneOfBundleApplication env treasury feederId appId = target_application env treasury feederId appId"

definition NewDuplicatedBundleApplication ::
  "net_env \<Rightarrow> Account \<Rightarrow> 32 word \<Rightarrow> 32 word \<Rightarrow> setup_error + TargetBundleApplication" where
  "NewDuplicatedBundleApplication env treasury feederId appId = target_application env treasury feederId appId"

definition NewFailingBundleApplication ::
  "net_env \<Rightarrow> Account \<Rightarrow> 32 word \<Rightarrow> 32 word \<Rightarrow> setup_error + ContractApplication" where
  "NewFailingBundleApplication env treasury feederId appId =
     (case deploy_token env treasury ''ProbabilisticFailing'' of Inl e \<Rightarrow> Inl e | Inr (contractAddress, tx) \<Rightarrow>
      if \<not> deployed_well env tx then Inl DeploymentFailed
      else Inr \<lparr>ap_contractAddress = contractAddress, ap_accountFactory = NewAccountFactory feederId appId\<rparr>)"

record SubsidizedBundleApplication = ContractApplication +
  sba_registryAddress :: address
  sba_sponsorAddresses :: "address list"

text \<open>\<open>registry\<close> is the address of the subsidies registry.\<close>

definition NewSubsidizedBundleApplication ::
  "net_env \<Rightarrow> Account \<Rightarrow> address \<Rightarrow> 32 word \<Rightarrow> 32 word \<Rightarrow> setup_error + SubsidizedBundleApplication" where
  "NewSubsidizedBundleApplication env treasury registry feederId appId =
     (case deploy_token env treasury ''ERC20'' of Inl e \<Rightarrow> Inl e | Inr (erc20Address, tx) \<Rightarrow>
      if \<not> deployed_well env tx then Inl DeploymentFailed
      else Inr \<lparr>ap_contractAddress = erc20Address, ap_accountFactory = NewAccountFactory feederId appId,
                sba_registryAddress = registry, sba_sponsorAddresses = []\<rparr>)"

text \<open>
  The subsidised counter: a sponsor is created and funded, the counter deployed, and the whole balance
  of the sponsor, less the gas of this transaction, is given to the fund of the counter.
\<close>

definition subsidiesFund :: int where
  "subsidiesFund = 10000 * 1000000000000000000"

definition NewSubsidiesApplication ::
  "net_env \<Rightarrow> Account \<Rightarrow> 32 word \<Rightarrow> 32 word \<Rightarrow> setup_error + ContractApplication" where
  "NewSubsidiesApplication env treasury feederId appId =
     (case ne_chainID env of None \<Rightarrow> Inl NoChain | Some chainId \<Rightarrow>
      case create_account env (NewAccountFactory feederId appId) of (None, _) \<Rightarrow> Inl NoAccount | (Some sponsorAccount, f) \<Rightarrow>
      case FundAccounts (ne_fund env) (ne_helper env) [ne_address env (ac_key sponsorAccount)] subsidiesFund of
        (Some e, _) \<Rightarrow> Inl (FundingError e) | (None, _) \<Rightarrow>
      case DeployContract (ne_client env 0) treasury (submit env (Deploy ''Counter'')) (ne_receipt env) of
        Inl e \<Rightarrow> Inl (ContextError e) | Inr (_, receipt) \<Rightarrow>
      case ne_fundId env (rc_contractAddress receipt) of None \<Rightarrow> Inl NoFundId | Some fundId \<Rightarrow>
      case GetTransactOptions (ne_client env 1) sponsorAccount of Inl e \<Rightarrow> Inl (ContextError e) | Inr opts \<Rightarrow>
      case submit env (Sponsor fundId) (opts\<lparr>to_Value := Some (subsidiesFund - to_GasPrice opts * 150000)\<rparr>) of
        None \<Rightarrow> Inl (ContextError OperationFailed) | Some (tx, _) \<Rightarrow>
      if \<not> deployed_well env tx then Inl (ContextError TransactionReverted)
      else Inr \<lparr>ap_contractAddress = rc_contractAddress receipt, ap_accountFactory = f\<rparr>)"

section \<open>Applications of several contracts\<close>

text \<open>
  A sequence of transactions of the treasury with consecutive nonces: each operation gets the options
  of the one before with the nonce increased. The result is the transactions with the addresses of
  the new contracts, or \<open>None\<close> if one is not accepted.
\<close>

fun submit_all :: "net_env \<Rightarrow> TransactOpts \<Rightarrow> setup_op list \<Rightarrow> (setup_tx \<times> address) list option" where
  "submit_all env opts [] = Some []"
| "submit_all env opts (op # ops) =
     do { t \<leftarrow> submit env op opts;
          ts \<leftarrow> submit_all env (opts\<lparr>to_Nonce := to_Nonce opts + 1\<rparr>) ops;
          Some (t # ts) }"

text \<open>Waiting for the receipts: the first that is missing or reverted, with its step.\<close>

fun await_all :: "net_env \<Rightarrow> nat \<Rightarrow> (setup_tx \<times> address) list \<Rightarrow> setup_error option" where
  "await_all env i [] = None"
| "await_all env i ((tx, _) # ts) =
     (case ne_receipt env tx of
        None \<Rightarrow> Some (ContextError NoReceipt)
      | Some r \<Rightarrow> if \<not> rc_status r then Some (SetupReverted i) else await_all env (i + 1) ts)"

definition WorkerInitialBalance :: int where
  "WorkerInitialBalance = 1000000000 * 1000000000000000000"

definition PairLiquidity :: int where
  "PairLiquidity = 1000000000000000 * 1000000000000000000"

record UniswapApplication = ContractApplication +
  ua_tokensAddresses :: "address list"
  ua_pairsAddresses :: "address list"

definition uniswap_deployments :: "setup_op list" where
  "uniswap_deployments = Deploy ''UniswapRouter'' # replicate TokensInChain (Deploy ''ERC20'') @ replicate PairsInChain (Deploy ''UniswapV2Pair'')"

definition pair_setup :: "address list \<Rightarrow> address list \<Rightarrow> nat \<Rightarrow> setup_op list" where
  "pair_setup tokens pairs i =
     (let tokenA = tokens ! i; tokenB = tokens ! (i + 1); pair = pairs ! i;
          (a, b) = (if tokenA > tokenB then (tokenB, tokenA) else (tokenA, tokenB))
      in [Mint tokenA pair PairLiquidity, Mint tokenB pair PairLiquidity, Initialize pair a b])"

definition uniswap_configuration :: "address \<Rightarrow> address list \<Rightarrow> address list \<Rightarrow> setup_op list" where
  "uniswap_configuration router tokens pairs =
     concat (map (pair_setup tokens pairs) [0..<PairsInChain]) @ map (\<lambda>t. WhitelistSpender t router) tokens"

definition NewUniswapApplication ::
  "net_env \<Rightarrow> Account \<Rightarrow> 32 word \<Rightarrow> 32 word \<Rightarrow> setup_error + UniswapApplication" where
  "NewUniswapApplication env treasury feederId appId =
     (case GetTransactOptions (ne_client env 0) treasury of Inl e \<Rightarrow> Inl (ContextError e) | Inr txOpts \<Rightarrow>
      case submit_all env txOpts uniswap_deployments of None \<Rightarrow> Inl DeploymentFailed | Some deployments \<Rightarrow>
      case await_all env 0 deployments of Some e \<Rightarrow> Inl e | None \<Rightarrow>
        (let addresses = map snd deployments; router = hd addresses;
             tokens = take TokensInChain (tl addresses); pairs = drop TokensInChain (tl addresses)
         in case submit_all env (txOpts\<lparr>to_Nonce := to_Nonce txOpts + int (length deployments)\<rparr>)
                   (uniswap_configuration router tokens pairs) of
              None \<Rightarrow> Inl DeploymentFailed
            | Some configSteps \<Rightarrow>
                (case await_all env 0 configSteps of
                   Some e \<Rightarrow> Inl e
                 | None \<Rightarrow> Inr \<lparr>ap_contractAddress = router, ap_accountFactory = NewAccountFactory feederId appId,
                               ua_tokensAddresses = tokens, ua_pairsAddresses = pairs\<rparr>)))"

record SmartAccountApplication = ContractApplication +
  sa_counterAddress :: address
  sa_smartAccountImplAddress :: address

definition NewSmartAccountApplication ::
  "net_env \<Rightarrow> Account \<Rightarrow> 32 word \<Rightarrow> 32 word \<Rightarrow> setup_error + SmartAccountApplication" where
  "NewSmartAccountApplication env treasury feederId appId =
     (case GetTransactOptions (ne_client env 0) treasury of Inl e \<Rightarrow> Inl (ContextError e) | Inr txOpts \<Rightarrow>
      case submit_all env txOpts [Deploy ''SmartAccount'', Deploy ''EntryPoint'', Deploy ''Counter''] of
        None \<Rightarrow> Inl DeploymentFailed | Some deployments \<Rightarrow>
      case await_all env 0 deployments of Some e \<Rightarrow> Inl e | None \<Rightarrow>
        Inr \<lparr>ap_contractAddress = snd (deployments ! 1), ap_accountFactory = NewAccountFactory feederId appId,
             sa_counterAddress = snd (deployments ! 2), sa_smartAccountImplAddress = snd (deployments ! 0)\<rparr>)"

section \<open>Applications by name\<close>

datatype Application =
    TokenApp ERC20Application
  | CounterApp ContractApplication
  | StoreApp ContractApplication
  | SwapApp UniswapApplication
  | PoolApp SmartAccountApplication
  | SubsidiesApp ContractApplication
  | TransientApp ContractApplication
  | SelfDestructOldApp ContractApplication
  | SelfDestructNewApp ContractApplication
  | SignatureApp EcdsaApplication
  | LargeContractApp ContractApplication
  | AllOfApp AllOfBundleApplication
  | OneOfApp TargetBundleApplication
  | SubsidizedApp SubsidizedBundleApplication
  | FailingApp ContractApplication
  | DuplicatedApp TargetBundleApplication
  | Bls12AddApp Bls12AddApplication

text \<open>
  \<open>NewApplication\<close> and \<open>getFactory\<close> for single applications: \<open>random\<close>, \<open>key\<close> and \<open>registry\<close> are the draws
  and the address some of them need. The mix is \<open>NewMixApplication\<close> over this function.
\<close>

definition NewApplication ::
  "net_env \<Rightarrow> Account \<Rightarrow> (nat \<Rightarrow> address option) \<Rightarrow> nat list option \<Rightarrow> address \<Rightarrow> 32 word \<Rightarrow> string \<Rightarrow> 32 word \<Rightarrow>
     setup_error + Application" where
  "NewApplication env treasury random key registry feederId appType appId =
     (let t = to_lower appType
      in if t = ''erc20'' then map_sum id TokenApp (NewERC20Application env treasury random feederId appId)
         else if t = ''counter'' \<or> t = '''' then map_sum id CounterApp (NewCounterApplication env treasury feederId appId)
         else if t = ''store'' then map_sum id StoreApp (NewStoreApplication env treasury feederId appId)
         else if t = ''uniswap'' then map_sum id SwapApp (NewUniswapApplication env treasury feederId appId)
         else if t = ''smartaccount'' then map_sum id PoolApp (NewSmartAccountApplication env treasury feederId appId)
         else if t = ''subsidies'' then map_sum id SubsidiesApp (NewSubsidiesApplication env treasury feederId appId)
         else if t = ''transient'' then map_sum id TransientApp (NewTransientApplication env treasury feederId appId)
         else if t = ''selfdestructoldcontract''
         then map_sum id SelfDestructOldApp (NewSelfDestructOldContractApplication env treasury feederId appId)
         else if t = ''selfdestructnewcontract''
         then map_sum id SelfDestructNewApp (NewSelfDestructNewContractApplication env treasury feederId appId)
         else if t = ''ecdsa'' then map_sum id SignatureApp (NewEcdsaApplication env treasury key feederId appId)
         else if t = ''largecontract'' then map_sum id LargeContractApp (NewLargeContractApplication env treasury feederId appId)
         else if t = ''allofbundle'' then map_sum id AllOfApp (NewAllOfBundleApplication env treasury feederId appId)
         else if t = ''oneofbundle'' then map_sum id OneOfApp (NewOneOfBundleApplication env treasury feederId appId)
         else if t = ''subsidizedbundle''
         then map_sum id SubsidizedApp (NewSubsidizedBundleApplication env treasury registry feederId appId)
         else if t = ''failingbundle'' then map_sum id FailingApp (NewFailingBundleApplication env treasury feederId appId)
         else if t = ''duplicatedbundle'' then map_sum id DuplicatedApp (NewDuplicatedBundleApplication env treasury feederId appId)
         else if t = ''bls12add'' then map_sum id Bls12AddApp (NewBls12AddApplication env feederId appId)
         else Inl (UnknownApplication appType))"

text \<open>A type without an application is one the scenario check rejects, or the mix.\<close>

lemma unknown_application:
  "\<not> IsSupportedApplicationType appType \<Longrightarrow>
     NewApplication env treasury random key registry feederId appType appId = Inl (UnknownApplication appType)"
  by (simp add: IsSupportedApplicationType_def app_types_def NewApplication_def Let_def)

section \<open>Users\<close>

definition fundsPerUser :: int where
  "fundsPerUser = 1000 * 1000000000000000000"

text \<open>
  The result of \<open>CreateUsers\<close>: the users, the error, the application with its account factory, and what
  the treasury has sent: the transactions that fund accounts and the minting of tokens.
\<close>

record ('u, 'a) created =
  cr_users :: "'u list"
  cr_error :: "setup_error option"
  cr_app :: 'a
  cr_funding :: "address fund_tx list"
  cr_minted :: "(address \<times> address list \<times> int) list"

definition not_created :: "setup_error \<Rightarrow> 'a \<Rightarrow> ('u, 'a) created" where
  "not_created e app = \<lparr>cr_users = [], cr_error = Some e, cr_app = app, cr_funding = [], cr_minted = []\<rparr>"

definition addresses :: "net_env \<Rightarrow> Account list \<Rightarrow> address list" where
  "addresses env accs = map (\<lambda>a. ne_address env (ac_key a)) accs"

text \<open>
  One account per user, funded by the treasury. These applications return the users also when the
  funding has failed, together with the error.
\<close>

definition create_funded ::
  "net_env \<Rightarrow> nat \<Rightarrow> (Account \<Rightarrow> 'u) \<Rightarrow> 'a ContractApplication_scheme \<Rightarrow> ('u, 'a ContractApplication_scheme) created" where
  "create_funded env numUsers user app =
     (let (accs, f) = create_accounts (ne_ecdsa env) (Some (ne_nonce env)) numUsers (ap_accountFactory app);
          app1 = app\<lparr>ap_accountFactory := f\<rparr>
      in case accs of
           None \<Rightarrow> not_created NoAccount app1
         | Some as \<Rightarrow>
             (let (e, txs, _) = FundAccounts (ne_fund env) (ne_helper env) (addresses env as) fundsPerUser
              in \<lparr>cr_users = map user as, cr_error = map_option FundingError e, cr_app = app1, cr_funding = txs,
                  cr_minted = []\<rparr>))"

definition contract_user :: "address \<Rightarrow> Account \<Rightarrow> ContractUser" where
  "contract_user contract a = \<lparr>cu_sender = a, cu_contract = contract, cu_sentTxs = 0\<rparr>"

text \<open>The counter, the store, the transient counter, the self-destructing and the large contracts.\<close>

definition Counter_CreateUsers :: "net_env \<Rightarrow> ContractApplication \<Rightarrow> nat \<Rightarrow> (ContractUser, ContractApplication) created" where
  "Counter_CreateUsers env f numUsers = create_funded env numUsers (contract_user (ap_contractAddress f)) f"

definition Store_CreateUsers :: "net_env \<Rightarrow> ContractApplication \<Rightarrow> nat \<Rightarrow> (ContractUser, ContractApplication) created" where
  "Store_CreateUsers env f numUsers = create_funded env numUsers (contract_user (ap_contractAddress f)) f"

definition Transient_CreateUsers :: "net_env \<Rightarrow> ContractApplication \<Rightarrow> nat \<Rightarrow> (ContractUser, ContractApplication) created" where
  "Transient_CreateUsers env f numUsers = create_funded env numUsers (contract_user (ap_contractAddress f)) f"

definition SelfDestructNew_CreateUsers ::
  "net_env \<Rightarrow> ContractApplication \<Rightarrow> nat \<Rightarrow> (ContractUser, ContractApplication) created" where
  "SelfDestructNew_CreateUsers env f numUsers = create_funded env numUsers (contract_user (ap_contractAddress f)) f"

definition SelfDestructOld_CreateUsers ::
  "net_env \<Rightarrow> ContractApplication \<Rightarrow> nat \<Rightarrow> (ContractUser, ContractApplication) created" where
  "SelfDestructOld_CreateUsers env f numUsers = create_funded env numUsers (contract_user (ap_contractAddress f)) f"

definition LargeContract_CreateUsers ::
  "net_env \<Rightarrow> ContractApplication \<Rightarrow> nat \<Rightarrow> (ContractUser, ContractApplication) created" where
  "LargeContract_CreateUsers env f numUsers = create_funded env numUsers (contract_user (ap_contractAddress f)) f"

definition Ecdsa_CreateUsers :: "net_env \<Rightarrow> EcdsaApplication \<Rightarrow> nat \<Rightarrow> (EcdsaUser, EcdsaApplication) created" where
  "Ecdsa_CreateUsers env f numUsers =
     create_funded env numUsers
       (\<lambda>a. \<lparr>cu_sender = a, cu_contract = ap_contractAddress f, cu_sentTxs = 0, ecu_privateKey = ea_privateKey f\<rparr>) f"

text \<open>
  The users of the BLS precompile; their addresses are remembered once funding was tried. The error of
  an account leaves them as they are.
\<close>

definition Bls12Add_CreateUsers :: "net_env \<Rightarrow> Bls12AddApplication \<Rightarrow> nat \<Rightarrow> (ContractUser, Bls12AddApplication) created" where
  "Bls12Add_CreateUsers env f numUsers =
     (let c = create_funded env numUsers (contract_user (ap_contractAddress f)) f
      in if cr_error c = Some NoAccount then c
         else c\<lparr>cr_app := (cr_app c)\<lparr>ba_userAddresses := ba_userAddresses f @ addresses env (map cu_sender (cr_users c))\<rparr>\<rparr>)"

text \<open>The users of the subsidised counter get no funds.\<close>

definition Subsidies_CreateUsers :: "net_env \<Rightarrow> ContractApplication \<Rightarrow> nat \<Rightarrow> (ContractUser, ContractApplication) created" where
  "Subsidies_CreateUsers env f numUsers =
     (let (accs, f1) = create_accounts (ne_ecdsa env) (Some (ne_nonce env)) numUsers (ap_accountFactory f);
          app1 = f\<lparr>ap_accountFactory := f1\<rparr>
      in case accs of
           None \<Rightarrow> not_created NoAccount app1
         | Some as \<Rightarrow>
             \<lparr>cr_users = map (contract_user (ap_contractAddress f)) as, cr_error = None, cr_app = app1, cr_funding = [],
              cr_minted = []\<rparr>)"

text \<open>
  Minting tokens for all holders with \<open>Run\<close>, after the funding of \<open>funded\<close> has succeeded. No users are
  returned with an error. \<open>mints\<close> lists the tokens.
\<close>

fun mint_all :: "net_env \<Rightarrow> Account \<Rightarrow> nat \<Rightarrow> (address \<times> address list \<times> int) list \<Rightarrow> ctx_error option" where
  "mint_all env treasury k [] = None"
| "mint_all env treasury k ((token, holders, amount) # ms) =
     (case Run (ne_client env k) treasury (\<lambda>opts. map_option fst (submit env (MintForAll token holders amount) opts)) (ne_receipt env) of
        (_, Some e) \<Rightarrow> Some e
      | (_, None) \<Rightarrow> mint_all env treasury (k + 1) ms)"

definition fund_and_mint ::
  "net_env \<Rightarrow> Account \<Rightarrow> address list \<Rightarrow> int \<Rightarrow> (address \<times> address list \<times> int) list \<Rightarrow> 'u list \<Rightarrow> 'a \<Rightarrow> ('u, 'a) created" where
  "fund_and_mint env treasury funded funds mints users app =
     (case FundAccounts (ne_fund env) (ne_helper env) funded funds of
        (Some e, txs, _) \<Rightarrow> (not_created (FundingError e) app)\<lparr>cr_funding := txs\<rparr>
      | (None, txs, _) \<Rightarrow>
          (case mint_all env treasury 0 mints of
             Some e \<Rightarrow> (not_created (ContextError e) app)\<lparr>cr_funding := txs\<rparr>
           | None \<Rightarrow> \<lparr>cr_users = users, cr_error = None, cr_app = app, cr_funding = txs, cr_minted = mints\<rparr>))"

definition ERC20_CreateUsers ::
  "net_env \<Rightarrow> Account \<Rightarrow> ERC20Application \<Rightarrow> nat \<Rightarrow> (ERC20User, ERC20Application) created" where
  "ERC20_CreateUsers env treasury f numUsers =
     (let (accs, f1) = create_accounts (ne_ecdsa env) (Some (ne_nonce env)) numUsers (ap_accountFactory f);
          app1 = f\<lparr>ap_accountFactory := f1\<rparr>
      in case accs of
           None \<Rightarrow> not_created NoAccount app1
         | Some as \<Rightarrow>
             fund_and_mint env treasury (addresses env as) fundsPerUser
               [(ap_contractAddress f, addresses env as, 1000000000000000000)]
               (map (\<lambda>a. \<lparr>cu_sender = a, cu_contract = ap_contractAddress f, cu_sentTxs = 0, eu_recipients = eap_recipients f\<rparr>) as)
               app1)"

definition Uniswap_CreateUsers ::
  "net_env \<Rightarrow> Account \<Rightarrow> UniswapApplication \<Rightarrow> nat \<Rightarrow> (UniswapUser, UniswapApplication) created" where
  "Uniswap_CreateUsers env treasury f numUsers =
     (let (accs, f1) = create_accounts (ne_ecdsa env) (Some (ne_nonce env)) numUsers (ap_accountFactory f);
          app1 = f\<lparr>ap_accountFactory := f1\<rparr>
      in case accs of
           None \<Rightarrow> not_created NoAccount app1
         | Some as \<Rightarrow>
             fund_and_mint env treasury (addresses env as) fundsPerUser
               [(ua_tokensAddresses f ! 0, addresses env as, WorkerInitialBalance),
                (ua_tokensAddresses f ! (TokensInChain - 1), addresses env as, WorkerInitialBalance)]
               (map (\<lambda>a. \<lparr>cu_sender = a, cu_contract = ap_contractAddress f, cu_sentTxs = 0,
                          uu_tokensAddresses = ua_tokensAddresses f, uu_pairsAddresses = ua_pairsAddresses f,
                          uu_tokensAddressesReversed = reverseAddresses (ua_tokensAddresses f),
                          uu_pairsAddressesReversed = reverseAddresses (ua_pairsAddresses f)\<rparr>) as)
               app1)"

text \<open>A user of smart accounts has an account of its own and a pool of a thousand.\<close>

fun create_pooled :: "net_env \<Rightarrow> nat \<Rightarrow> AccountFactory \<Rightarrow> (Account \<times> Account AccountsCircularPool) list option \<times> AccountFactory" where
  "create_pooled env 0 f = (Some [], f)"
| "create_pooled env (Suc n) f =
     (case create_account env f of (None, f1) \<Rightarrow> (None, f1) | (Some worker, f1) \<Rightarrow>
      case NewAccountsCircularPool env f1 1000 of (None, f2) \<Rightarrow> (None, f2) | (Some pool, f2) \<Rightarrow>
      case create_pooled env n f2 of (us, f3) \<Rightarrow> (map_option ((#) (worker, pool)) us, f3))"

definition SmartAccount_CreateUsers ::
  "net_env \<Rightarrow> Account \<Rightarrow> SmartAccountApplication \<Rightarrow> nat \<Rightarrow> (SmartAccountUser, SmartAccountApplication) created" where
  "SmartAccount_CreateUsers env treasury f numUsers =
     (let (accs, f1) = create_pooled env numUsers (ap_accountFactory f);
          app1 = f\<lparr>ap_accountFactory := f1\<rparr>
      in case accs of
           None \<Rightarrow> not_created NoAccount app1
         | Some ps \<Rightarrow>
             fund_and_mint env treasury (addresses env (map fst ps)) fundsPerUser []
               (map (\<lambda>(a, pool). \<lparr>cu_sender = a, cu_contract = ap_contractAddress f, cu_sentTxs = 0,
                                 su_counterAddr = sa_counterAddress f, su_codeAddr = sa_smartAccountImplAddress f,
                                 su_accountsCircular = pool\<rparr>) ps)
               app1)"

section \<open>Users of bundles\<close>

definition tokenAmount :: int where
  "tokenAmount = 1000000 * 1000000000000000000"

text \<open>Two accounts per user, created one after the other.\<close>

fun create_pairs :: "net_env \<Rightarrow> nat \<Rightarrow> AccountFactory \<Rightarrow> (Account \<times> Account) list option \<times> AccountFactory" where
  "create_pairs env 0 f = (Some [], f)"
| "create_pairs env (Suc n) f =
     (case create_account env f of (None, f1) \<Rightarrow> (None, f1) | (Some a, f1) \<Rightarrow>
      case create_account env f1 of (None, f2) \<Rightarrow> (None, f2) | (Some b, f2) \<Rightarrow>
      case create_pairs env n f2 of (ps, f3) \<Rightarrow> (map_option ((#) (a, b)) ps, f3))"

definition AllOfBundle_CreateUsers ::
  "net_env \<Rightarrow> Account \<Rightarrow> AllOfBundleApplication \<Rightarrow> nat \<Rightarrow> (AllOfBundleUser, AllOfBundleApplication) created" where
  "AllOfBundle_CreateUsers env treasury a numUsers =
     (let (accs, f1) = create_pairs env numUsers (ap_accountFactory a);
          app1 = a\<lparr>ap_accountFactory := f1\<rparr>
      in case accs of
           None \<Rightarrow> not_created NoAccount app1
         | Some ps \<Rightarrow>
             (let approvers = addresses env (map fst ps); spenders = addresses env (map snd ps);
                  c = fund_and_mint env treasury (approvers @ spenders) fundsPerUser
                        [(ap_contractAddress a, approvers, tokenAmount)]
                        (map (\<lambda>(x, y). \<lparr>ao_erc20Address = ap_contractAddress a, ao_approver = x, ao_spender = y,
                                         ao_sentTxs = 0\<rparr>) ps)
                        app1
              in if cr_error c \<noteq> None then c
                 else c\<lparr>cr_app := app1\<lparr>aob_spenderAddresses := aob_spenderAddresses a @ spenders\<rparr>\<rparr>))"

definition OneOfBundle_CreateUsers ::
  "net_env \<Rightarrow> Account \<Rightarrow> TargetBundleApplication \<Rightarrow> nat \<Rightarrow> (OneOfBundleUser, TargetBundleApplication) created" where
  "OneOfBundle_CreateUsers env treasury a numUsers =
     (let (accs, f1) = create_accounts (ne_ecdsa env) (Some (ne_nonce env)) numUsers (ap_accountFactory a);
          app1 = a\<lparr>ap_accountFactory := f1\<rparr>
      in case accs of
           None \<Rightarrow> not_created NoAccount app1
         | Some as \<Rightarrow>
             fund_and_mint env treasury (addresses env as) fundsPerUser [(ap_contractAddress a, addresses env as, tokenAmount)]
               (map (\<lambda>x. \<lparr>oo_erc20Address = ap_contractAddress a, oo_sender = x, oo_targetAddress = tba_targetAddress a,
                          oo_sentTxs = 0\<rparr>) as)
               app1)"

definition DuplicatedBundle_CreateUsers ::
  "net_env \<Rightarrow> Account \<Rightarrow> TargetBundleApplication \<Rightarrow> nat \<Rightarrow> (DuplicatedBundleUser, TargetBundleApplication) created" where
  "DuplicatedBundle_CreateUsers env treasury a numUsers =
     (let (accs, f1) = create_pairs env numUsers (ap_accountFactory a);
          app1 = a\<lparr>ap_accountFactory := f1\<rparr>
      in case accs of
           None \<Rightarrow> not_created NoAccount app1
         | Some ps \<Rightarrow>
             (let allAddresses = addresses env (map fst ps) @ addresses env (map snd ps)
              in fund_and_mint env treasury allAddresses fundsPerUser [(ap_contractAddress a, allAddresses, tokenAmount)]
                   (map (\<lambda>(x, y). \<lparr>db_erc20Address = ap_contractAddress a, db_senderA = x, db_senderB = y,
                                    db_targetAddress = tba_targetAddress a, db_sentTxs = 0, db_usedCount = 0,
                                    db_savedEnvelope = None\<rparr>) ps)
                   app1))"

definition FailingBundle_CreateUsers ::
  "net_env \<Rightarrow> Account \<Rightarrow> ContractApplication \<Rightarrow> nat \<Rightarrow> (FailingBundleUser, ContractApplication) created" where
  "FailingBundle_CreateUsers env treasury a numUsers =
     (let (accs, f1) = create_pairs env numUsers (ap_accountFactory a);
          app1 = a\<lparr>ap_accountFactory := f1\<rparr>
      in case accs of
           None \<Rightarrow> not_created NoAccount app1
         | Some ps \<Rightarrow>
             fund_and_mint env treasury (addresses env (concat (map (\<lambda>(x, y). [x, y]) ps))) fundsPerUser []
               (map (\<lambda>(x, y). \<lparr>fb_contractAddress = ap_contractAddress a, fb_senderA = x, fb_senderB = y, fb_sentTxs = 0\<rparr>) ps)
               app1)"

text \<open>
  The pairs of a sponsored bundle need the identifier of a fund each, which is asked from the registry
  while the accounts are created; \<open>pack\<close> is whether call data can be packed.
\<close>

fun create_sponsored ::
  "net_env \<Rightarrow> (calldata \<Rightarrow> bool) \<Rightarrow> address \<Rightarrow> nat \<Rightarrow> AccountFactory \<Rightarrow>
     (setup_error + (Account \<times> Account \<times> nat list) list) \<times> AccountFactory" where
  "create_sponsored env pack erc20 0 f = (Inr [], f)"
| "create_sponsored env pack erc20 (Suc n) f =
     (case create_account env f of (None, f1) \<Rightarrow> (Inl NoAccount, f1) | (Some user, f1) \<Rightarrow>
      case create_account env f1 of (None, f2) \<Rightarrow> (Inl NoAccount, f2) | (Some sponsor, f2) \<Rightarrow>
        (let data = Call ''approve'' [AAddress (ne_address env (ac_key sponsor)), AInt 1]
         in if \<not> pack data then (Inl NotPacked, f2) else
            case ne_approvalFundId env (ne_address env (ac_key user)) erc20 data of
              None \<Rightarrow> (Inl NoFundId, f2)
            | Some fundId \<Rightarrow>
                (case create_sponsored env pack erc20 n f2 of (ps, f3) \<Rightarrow> (map_sum id ((#) (user, sponsor, fundId)) ps, f3))))"

definition fundsPerSponsor :: int where
  "fundsPerSponsor = 100000 * 1000000000000000000"

definition SubsidizedBundle_CreateUsers ::
  "net_env \<Rightarrow> (calldata \<Rightarrow> bool) \<Rightarrow> Account \<Rightarrow> SubsidizedBundleApplication \<Rightarrow> nat \<Rightarrow>
     (SubsidizedBundleUser, SubsidizedBundleApplication) created" where
  "SubsidizedBundle_CreateUsers env pack treasury a numUsers =
     (let (accs, f1) = create_sponsored env pack (ap_contractAddress a) numUsers (ap_accountFactory a);
          app1 = a\<lparr>ap_accountFactory := f1\<rparr>
      in case accs of
           Inl e \<Rightarrow> not_created e app1
         | Inr ps \<Rightarrow>
             (let users = addresses env (map fst ps); sponsors = addresses env (map (fst \<circ> snd) ps);
                  c = fund_and_mint env treasury sponsors fundsPerSponsor [(ap_contractAddress a, users, tokenAmount)]
                        (map (\<lambda>(x, y, i). \<lparr>sb_erc20Address = ap_contractAddress a, sb_registryAddress = sba_registryAddress a,
                                            sb_user = x, sb_sponsor = y, sb_approvalFundId = i, sb_sentTxs = 0\<rparr>) ps)
                        app1
              in if cr_error c \<noteq> None then c
                 else c\<lparr>cr_app := app1\<lparr>sba_sponsorAddresses := sba_sponsorAddresses a @ sponsors\<rparr>\<rparr>))"

section \<open>Received transactions\<close>

text \<open>\<open>Uint64\<close> of a big number: the low 64 bits of its magnitude.\<close>

definition big_Uint64 :: "int \<Rightarrow> u64" where
  "big_Uint64 x = word_of_int \<bar>x\<bar>"

text \<open>Applications with a counter return it; \<open>getCount\<close> is the answer of the contract.\<close>

definition received_count :: "int option \<Rightarrow> u64 option" where
  "received_count getCount = map_option big_Uint64 getCount"

definition Counter_GetReceivedTransactions :: "int option \<Rightarrow> u64 option" where
  "Counter_GetReceivedTransactions getCount = received_count getCount"

definition Store_GetReceivedTransactions :: "int option \<Rightarrow> u64 option" where
  "Store_GetReceivedTransactions getCount = received_count getCount"

definition Uniswap_GetReceivedTransactions :: "int option \<Rightarrow> u64 option" where
  "Uniswap_GetReceivedTransactions getCount = received_count getCount"

definition SmartAccount_GetReceivedTransactions :: "int option \<Rightarrow> u64 option" where
  "SmartAccount_GetReceivedTransactions getCount = received_count getCount"

definition Subsidies_GetReceivedTransactions :: "int option \<Rightarrow> u64 option" where
  "Subsidies_GetReceivedTransactions getCount = received_count getCount"

definition Transient_GetReceivedTransactions :: "int option \<Rightarrow> u64 option" where
  "Transient_GetReceivedTransactions getCount = received_count getCount"

definition Ecdsa_GetReceivedTransactions :: "int option \<Rightarrow> u64 option" where
  "Ecdsa_GetReceivedTransactions getCount = received_count getCount"

definition LargeContract_GetReceivedTransactions :: "int option \<Rightarrow> u64 option" where
  "LargeContract_GetReceivedTransactions getCount = received_count getCount"

definition SelfDestructNew_GetReceivedTransactions :: "int option \<Rightarrow> u64 option" where
  "SelfDestructNew_GetReceivedTransactions getCount = received_count getCount"

definition SelfDestructOld_GetReceivedTransactions :: "int option \<Rightarrow> u64 option" where
  "SelfDestructOld_GetReceivedTransactions getCount = received_count getCount"

text \<open>Applications with tokens add up balances, with wrap-around; the first query that fails ends the loop.\<close>

fun received_balances :: "(address \<Rightarrow> u256 option) \<Rightarrow> address list \<Rightarrow> u64 \<Rightarrow> u64 option" where
  "received_balances balance [] t = Some t"
| "received_balances balance (a # as) t =
     (case balance a of None \<Rightarrow> None | Some b \<Rightarrow> received_balances balance as (t + big_Uint64 (uint b)))"

definition ERC20_GetReceivedTransactions :: "(address \<Rightarrow> u256 option) \<Rightarrow> ERC20Application \<Rightarrow> u64 option" where
  "ERC20_GetReceivedTransactions balance f = received_balances balance (eap_recipients f) 0"

definition AllOfBundle_GetReceivedTransactions :: "(address \<Rightarrow> u256 option) \<Rightarrow> AllOfBundleApplication \<Rightarrow> u64 option" where
  "AllOfBundle_GetReceivedTransactions balance a = received_balances balance (aob_spenderAddresses a) 0"

definition SubsidizedBundle_GetReceivedTransactions ::
  "(address \<Rightarrow> u256 option) \<Rightarrow> SubsidizedBundleApplication \<Rightarrow> u64 option" where
  "SubsidizedBundle_GetReceivedTransactions balance a = received_balances balance (sba_sponsorAddresses a) 0"

definition OneOfBundle_GetReceivedTransactions :: "(address \<Rightarrow> u256 option) \<Rightarrow> TargetBundleApplication \<Rightarrow> u64 option" where
  "OneOfBundle_GetReceivedTransactions balance a = map_option (\<lambda>b. big_Uint64 (uint b)) (balance (tba_targetAddress a))"

definition DuplicatedBundle_GetReceivedTransactions :: "(address \<Rightarrow> u256 option) \<Rightarrow> TargetBundleApplication \<Rightarrow> u64 option" where
  "DuplicatedBundle_GetReceivedTransactions balance a = map_option (\<lambda>b. big_Uint64 (uint b)) (balance (tba_targetAddress a))"

definition FailingBundle_GetReceivedTransactions :: "int option \<Rightarrow> u64 option" where
  "FailingBundle_GetReceivedTransactions getCount =
     (case getCount of None \<Rightarrow> None | Some c \<Rightarrow> if c < 0 then Some 0 else Some (big_Uint64 c))"

fun received_nonces :: "(address \<Rightarrow> u64 option) \<Rightarrow> address list \<Rightarrow> u64 \<Rightarrow> u64 option" where
  "received_nonces nonceAt [] t = Some t"
| "received_nonces nonceAt (a # as) t =
     (case nonceAt a of None \<Rightarrow> None | Some nonce \<Rightarrow> received_nonces nonceAt as (t + nonce))"

definition Bls12Add_GetReceivedTransactions :: "(address \<Rightarrow> u64 option) \<Rightarrow> Bls12AddApplication \<Rightarrow> u64 option" where
  "Bls12Add_GetReceivedTransactions nonceAt app = received_nonces nonceAt (ba_userAddresses app) 0"

end
