(* ===== verification/Load_Users.thy ===== *)
theory Load_Users
  imports Load_Setup
begin

text \<open>
  The interface \<open>User\<close> of \<open>load/app/app.go\<close> with all its implementations, the user of the mix, and what the
  generator loop does with a user. Every call of \<open>GenerateTx\<close> has a \<open>draw\<close>: the random choices, the clock
  and the answers of the libraries and of the chain during the call.
\<close>

section \<open>Users of all applications\<close>

record draw =
  dr_env :: app_env
  dr_view :: chain_view
  dr_random :: nat
  dr_chainID :: int
  dr_points :: "nat list"
  dr_hash :: "nat list option"
  dr_p256 :: "nat list \<Rightarrow> nat list \<Rightarrow> (nat \<times> nat) option"
  dr_key :: "nat list"
  dr_fresh :: "nat list option"
  dr_signs :: bool
  dr_nanos :: int

datatype User =
    CounterUser ContractUser
  | StoreUser ContractUser
  | TransientUser ContractUser
  | SelfDestructOldUser ContractUser
  | SelfDestructNewUser ContractUser
  | LargeContractUser ContractUser
  | Bls12AddUser ContractUser
  | SubsidiesUser ContractUser
  | TokenUser ERC20User
  | SwapUser UniswapUser
  | SignatureUser EcdsaUser
  | PoolUser SmartAccountUser
  | AllOfUser AllOfBundleUser
  | OneOfUser OneOfBundleUser
  | DuplicatedUser DuplicatedBundleUser
  | FailingUser FailingBundleUser
  | SubsidizedUser SubsidizedBundleUser

text \<open>The dispatch of the interface. \<open>None\<close> is the panic of a signature that does not fit its bytes.\<close>

fun GenerateTx :: "draw \<Rightarrow> User \<Rightarrow> ((app_error + Transaction) \<times> User) option" where
  "GenerateTx d (CounterUser g) = Some (map_prod id CounterUser (Counter_GenerateTx (dr_env d) g))"
| "GenerateTx d (StoreUser g) = Some (map_prod id StoreUser (Store_GenerateTx (dr_env d) g))"
| "GenerateTx d (TransientUser g) = Some (map_prod id TransientUser (Transient_GenerateTx (dr_env d) g))"
| "GenerateTx d (SelfDestructOldUser g) = Some (map_prod id SelfDestructOldUser (SelfDestructOld_GenerateTx (dr_env d) g))"
| "GenerateTx d (SelfDestructNewUser g) = Some (map_prod id SelfDestructNewUser (SelfDestructNew_GenerateTx (dr_env d) g))"
| "GenerateTx d (LargeContractUser g) = Some (map_prod id LargeContractUser (LargeContract_GenerateTx (dr_env d) g))"
| "GenerateTx d (Bls12AddUser g) = Some (map_prod id Bls12AddUser (Bls12Add_GenerateTx (dr_points d) (dr_env d) g))"
| "GenerateTx d (SubsidiesUser g) = Some (map_prod id SubsidiesUser (Subsidies_GenerateTx (dr_env d) (dr_chainID d) g))"
| "GenerateTx d (TokenUser g) =
     Some (map_prod id TokenUser (ERC20_GenerateTx (dr_env d) (dr_random d mod length (eu_recipients g)) g))"
| "GenerateTx d (SwapUser g) = Some (map_prod id SwapUser (Uniswap_GenerateTx (dr_env d) (dr_random d mod 2) g))"
| "GenerateTx d (SignatureUser g) = map_option (map_prod id SignatureUser) (Ecdsa_GenerateTx (dr_env d) (dr_hash d) (dr_p256 d) g)"
| "GenerateTx d (PoolUser g) = Some (map_prod id PoolUser (SmartAccount_GenerateTx (dr_env d) g))"
| "GenerateTx d (AllOfUser u) = Some (map_prod id AllOfUser (AllOfBundle_GenerateTx (dr_env d) (dr_view d) (dr_key d) u))"
| "GenerateTx d (OneOfUser u) =
     Some (map_prod id OneOfUser (OneOfBundle_GenerateTx (dr_env d) (dr_view d) (dr_key d) (dr_random d mod 2 = 0) u))"
| "GenerateTx d (DuplicatedUser u) =
     Some (map_prod id DuplicatedUser
       (DuplicatedBundle_GenerateTx (dr_env d) (dr_view d) (dr_key d) (dr_fresh d) (dr_signs d) (dr_random d mod 2 = 0) u))"
| "GenerateTx d (FailingUser u) =
     Some (map_prod id FailingUser (FailingBundle_GenerateTx (dr_env d) (dr_view d) (dr_key d) (dr_random d mod 2 = 0) (dr_nanos d) u))"
| "GenerateTx d (SubsidizedUser u) =
     Some (map_prod id SubsidizedUser (SubsidizedBundle_GenerateTx (dr_env d) (dr_view d) (dr_key d) u))"

fun GetSentTransactions_of :: "User \<Rightarrow> u64" where
  "GetSentTransactions_of (CounterUser g) = GetSentTransactions_user g"
| "GetSentTransactions_of (StoreUser g) = GetSentTransactions_user g"
| "GetSentTransactions_of (TransientUser g) = GetSentTransactions_user g"
| "GetSentTransactions_of (SelfDestructOldUser g) = GetSentTransactions_user g"
| "GetSentTransactions_of (SelfDestructNewUser g) = GetSentTransactions_user g"
| "GetSentTransactions_of (LargeContractUser g) = GetSentTransactions_user g"
| "GetSentTransactions_of (Bls12AddUser g) = GetSentTransactions_user g"
| "GetSentTransactions_of (SubsidiesUser g) = GetSentTransactions_user g"
| "GetSentTransactions_of (TokenUser g) = GetSentTransactions_user g"
| "GetSentTransactions_of (SwapUser g) = GetSentTransactions_user g"
| "GetSentTransactions_of (SignatureUser g) = GetSentTransactions_user g"
| "GetSentTransactions_of (PoolUser g) = GetSentTransactions_user g"
| "GetSentTransactions_of (AllOfUser u) = ao_sentTxs u"
| "GetSentTransactions_of (OneOfUser u) = oo_sentTxs u"
| "GetSentTransactions_of (DuplicatedUser u) = db_sentTxs u"
| "GetSentTransactions_of (FailingUser u) = fb_sentTxs u"
| "GetSentTransactions_of (SubsidizedUser u) = sb_sentTxs u"

text \<open>
  \<open>GetReceivedTransactions\<close> of the application a user belongs to, for the applications that ask a
  contract for its count.
\<close>

fun counted_by_app :: "User \<Rightarrow> int option \<Rightarrow> u64 option" where
  "counted_by_app (CounterUser _) q = Counter_GetReceivedTransactions q"
| "counted_by_app (StoreUser _) q = Store_GetReceivedTransactions q"
| "counted_by_app (TransientUser _) q = Transient_GetReceivedTransactions q"
| "counted_by_app (SelfDestructOldUser _) q = SelfDestructOld_GetReceivedTransactions q"
| "counted_by_app (SelfDestructNewUser _) q = SelfDestructNew_GetReceivedTransactions q"
| "counted_by_app (LargeContractUser _) q = LargeContract_GetReceivedTransactions q"
| "counted_by_app (SubsidiesUser _) q = Subsidies_GetReceivedTransactions q"
| "counted_by_app (SwapUser _) q = Uniswap_GetReceivedTransactions q"
| "counted_by_app (SignatureUser _) q = Ecdsa_GetReceivedTransactions q"
| "counted_by_app (PoolUser _) q = SmartAccount_GetReceivedTransactions q"
| "counted_by_app (FailingUser _) q = FailingBundle_GetReceivedTransactions q"
| "counted_by_app _ q = None"

lemmas received_count_defs =
  Counter_GetReceivedTransactions_def Store_GetReceivedTransactions_def Transient_GetReceivedTransactions_def
  SelfDestructOld_GetReceivedTransactions_def SelfDestructNew_GetReceivedTransactions_def
  LargeContract_GetReceivedTransactions_def Subsidies_GetReceivedTransactions_def Uniswap_GetReceivedTransactions_def
  Ecdsa_GetReceivedTransactions_def SmartAccount_GetReceivedTransactions_def received_count_def

section \<open>The mix\<close>

record MixUser =
  mu_users :: "User list"
  mu_totalWeight :: int
  mu_cumulativeWeights :: "int list"
  mu_sentTxs :: u64

text \<open>
  \<open>r\<close> is the random number below the total weight. The error of the chosen user is returned; what the
  call changed in it stays.
\<close>

definition Mix_GenerateTx :: "int \<Rightarrow> draw \<Rightarrow> MixUser \<Rightarrow> ((app_error + Transaction) \<times> MixUser) option" where
  "Mix_GenerateTx r d u =
     (let chosen = pickRandomUser r
            \<lparr>mx_apps = mu_users u, mx_totalWeight = mu_totalWeight u, mx_cumulativeWeights = mu_cumulativeWeights u\<rparr>
      in map_option
           (\<lambda>(tx, w). let u1 = u\<lparr>mu_users := (mu_users u)[chosen := w]\<rparr>
                      in (tx, case tx of Inl _ \<Rightarrow> u1 | Inr _ \<Rightarrow> u1\<lparr>mu_sentTxs := mu_sentTxs u1 + 1\<rparr>))
           (GenerateTx d (mu_users u ! chosen)))"

text \<open>
  \<open>CreateUsers\<close> of the mix: \<open>create i\<close> is what creating the users of the i-th part returns. The users
  with the same number of all parts make one user of the mix.
\<close>

definition Mix_CreateUsers ::
  "(nat \<Rightarrow> (setup_error + User list)) \<Rightarrow> 'app MixApplication \<Rightarrow> nat \<Rightarrow> setup_error + MixUser list" where
  "Mix_CreateUsers create m numUsers =
     (case find (\<lambda>i. isl (create i)) [0..<length (mx_apps m)] of
        Some i \<Rightarrow> Inl (projl (create i))
      | None \<Rightarrow>
          Inr (map (\<lambda>userIndex.
                 \<lparr>mu_users = map (\<lambda>i. projr (create i) ! userIndex) [0..<length (mx_apps m)],
                  mu_totalWeight = mx_totalWeight m, mu_cumulativeWeights = mx_cumulativeWeights m, mu_sentTxs = 0\<rparr>)
               [0..<numUsers]))"

section \<open>Runs of a user\<close>

text \<open>
  A client of the interface calls \<open>generate\<close> again and again; the run stops at a panic. The laws are
  about one call: \<open>counts t\<close> says which transactions the user counts as sent.
\<close>

fun runs :: "('d \<Rightarrow> 'u \<Rightarrow> ('r \<times> 'u) option) \<Rightarrow> 'd list \<Rightarrow> 'u \<Rightarrow> ('r list \<times> 'u) option" where
  "runs generate [] u = Some ([], u)"
| "runs generate (d # ds) u =
     (case generate d u of
        None \<Rightarrow> None
      | Some (r, u1) \<Rightarrow> map_option (map_prod ((#) r) id) (runs generate ds u1))"

definition generated :: "('e + 't) list \<Rightarrow> 't list" where
  "generated rs = map projr (filter (\<lambda>r. \<not> isl r) rs)"

lemma generated_simps [simp]:
  "generated [] = []" "generated (Inr t # rs) = t # generated rs" "generated (Inl e # rs) = generated rs"
  by (simp_all add: generated_def)

locale counting_user =
  fixes generate :: "'d \<Rightarrow> 'u \<Rightarrow> (('e + 't) \<times> 'u) option"
    and sent :: "'u \<Rightarrow> u64"
    and ok :: "'u \<Rightarrow> bool"
  assumes counts: "ok u \<Longrightarrow> generate d u = Some (Inr t, u') \<Longrightarrow> sent u' = sent u + 1"
    and errors: "ok u \<Longrightarrow> generate d u = Some (Inl e, u') \<Longrightarrow> sent u' = sent u"
    and keeps: "ok u \<Longrightarrow> generate d u = Some (r, u') \<Longrightarrow> ok u'"
begin

lemma runs_sent:
  "ok u \<Longrightarrow> runs generate ds u = Some (rs, u') \<Longrightarrow> sent u' = sent u + of_nat (length (generated rs)) \<and> ok u'"
proof (induction ds arbitrary: u rs)
  case (Cons d ds)
  from Cons.prems(2) obtain r u1 rs1 where call: "generate d u = Some (r, u1)"
    and rest: "runs generate ds u1 = Some (rs1, u')" and rs: "rs = r # rs1"
    by (auto split: option.splits prod.splits)
  from keeps [OF Cons.prems(1) call] rest have ih: "sent u' = sent u1 + of_nat (length (generated rs1)) \<and> ok u'"
    by (rule Cons.IH)
  show ?case
  proof (cases r)
    case (Inl e)
    with call ih rs errors [OF Cons.prems(1)] show ?thesis by simp
  next
    case (Inr t)
    with call have "sent u1 = sent u + 1" using counts [OF Cons.prems(1)] by simp
    with Inr ih rs show ?thesis by simp
  qed
qed simp

end

text \<open>
  Users whose transactions carry the nonces of their own account: a transaction takes the next nonce,
  and a failed call takes at most one.
\<close>

locale own_nonce_user = counting_user generate sent ok
  for generate :: "'d \<Rightarrow> 'u \<Rightarrow> (('e + 't) \<times> 'u) option" and sent and ok +
  fixes account :: "'u \<Rightarrow> Account"
    and nonce :: "'t \<Rightarrow> u64"
    and signer :: "'t \<Rightarrow> nat list"
  assumes takes: "ok u \<Longrightarrow> generate d u = Some (Inr t, u') \<Longrightarrow>
      nonce t = ac_nonce (account u) \<and> signer t = ac_key (account u) \<and>
      account u' = (account u)\<lparr>ac_nonce := ac_nonce (account u) + 1\<rparr>"
    and fails: "ok u \<Longrightarrow> generate d u = Some (Inl e, u') \<Longrightarrow>
      account u' = account u \<or> account u' = (account u)\<lparr>ac_nonce := ac_nonce (account u) + 1\<rparr>"
begin

lemma runs_nonces:
  "ok u \<Longrightarrow> runs generate ds u = Some (map Inr ts, u') \<Longrightarrow>
     map nonce ts = map (\<lambda>i. ac_nonce (account u) + of_nat i) [0..<length ts] \<and>
     (\<forall>t\<in>set ts. signer t = ac_key (account u))"
proof (induction ds arbitrary: u ts)
  case (Cons d ds)
  from Cons.prems(2) obtain t u1 ts1 where call: "generate d u = Some (Inr t, u1)"
    and rest: "runs generate ds u1 = Some (map Inr ts1, u')" and ts: "ts = t # ts1"
    by (auto simp: map_eq_Cons_conv Cons_eq_map_conv split: option.splits prod.splits)
  have step: "nonce t = ac_nonce (account u)" "signer t = ac_key (account u)"
      "ac_nonce (account u1) = ac_nonce (account u) + 1" "ac_key (account u1) = ac_key (account u)"
    using takes [OF Cons.prems(1) call] by simp_all
  have ih: "map nonce ts1 = map (\<lambda>i. ac_nonce (account u1) + of_nat i) [0..<length ts1]"
      "\<forall>t\<in>set ts1. signer t = ac_key (account u1)"
    using Cons.IH [OF keeps [OF Cons.prems(1) call] rest] by auto
  have "map (\<lambda>i. ac_nonce (account u) + of_nat i) [0..<length ts] =
      ac_nonce (account u) # map (\<lambda>i. ac_nonce (account u1) + of_nat i) [0..<length ts1]"
    unfolding ts length_Cons map_upt_Suc by (simp add: step ac_simps)
  with ih step ts show ?case by simp
qed simp

end

section \<open>The users keep the contract\<close>

text \<open>The account that signs, the nonce and the key of a transaction that is no envelope.\<close>

fun user_account :: "User \<Rightarrow> Account" where
  "user_account (CounterUser g) = cu_sender g"
| "user_account (StoreUser g) = cu_sender g"
| "user_account (TransientUser g) = cu_sender g"
| "user_account (SelfDestructOldUser g) = cu_sender g"
| "user_account (SelfDestructNewUser g) = cu_sender g"
| "user_account (LargeContractUser g) = cu_sender g"
| "user_account (Bls12AddUser g) = cu_sender g"
| "user_account (SubsidiesUser g) = cu_sender g"
| "user_account (TokenUser g) = cu_sender g"
| "user_account (SwapUser g) = cu_sender g"
| "user_account (SignatureUser g) = cu_sender g"
| "user_account (PoolUser g) = cu_sender g"
| "user_account (AllOfUser u) = ao_approver u"
| "user_account (OneOfUser u) = oo_sender u"
| "user_account (DuplicatedUser u) = db_senderA u"
| "user_account (FailingUser u) = fb_senderA u"
| "user_account (SubsidizedUser u) = sb_sponsor u"

fun sends_bundles :: "User \<Rightarrow> bool" where
  "sends_bundles (AllOfUser _) = True"
| "sends_bundles (OneOfUser _) = True"
| "sends_bundles (DuplicatedUser _) = True"
| "sends_bundles (FailingUser _) = True"
| "sends_bundles (SubsidizedUser _) = True"
| "sends_bundles _ = False"

fun transaction_nonce :: "Transaction \<Rightarrow> u64" where
  "transaction_nonce (SignedTx _ tx) = tx_nonce tx"
| "transaction_nonce (SignedSetCodeTx _ tx _) = tx_nonce tx"
| "transaction_nonce (BoundTx opts _ _) = word_of_int (to_Nonce opts)"
| "transaction_nonce (EnvelopeTx _) = 0"

fun transaction_signer :: "Transaction \<Rightarrow> nat list" where
  "transaction_signer (SignedTx k _) = k"
| "transaction_signer (SignedSetCodeTx k _ _) = k"
| "transaction_signer (BoundTx opts _ _) = to_key opts"
| "transaction_signer (EnvelopeTx e) = en_key e"

lemma createSetCodeTx_Inr:
  assumes "createSetCodeTx env a to v data gas auths code = (Inr t, a', as)"
  shows "transaction_nonce t = ac_nonce a" "transaction_signer t = ac_key a" "a' = a\<lparr>ac_nonce := ac_nonce a + 1\<rparr>"
  using assms by (auto simp: createSetCodeTx_def getNextNonce_def Let_def split: if_splits prod.splits sum.splits)

lemma createSetCodeTx_Inl:
  assumes "createSetCodeTx env a to v data gas auths code = (Inl e, a', as)"
  shows "a' = a \<or> a' = a\<lparr>ac_nonce := ac_nonce a + 1\<rparr>"
  using assms by (auto simp: createSetCodeTx_def getNextNonce_def Let_def split: if_splits prod.splits sum.splits)

text \<open>What one call does to a user of a contract: the shape all of them share.\<close>

definition user_step :: "u64 \<Rightarrow> Account \<Rightarrow> (app_error + Transaction) \<Rightarrow> u64 \<Rightarrow> Account \<Rightarrow> bool" where
  "user_step sent a r sent' a' \<longleftrightarrow>
     (case r of
        Inr t \<Rightarrow> sent' = sent + 1 \<and> transaction_nonce t = ac_nonce a \<and> transaction_signer t = ac_key a \<and>
          a' = a\<lparr>ac_nonce := ac_nonce a + 1\<rparr>
      | Inl e \<Rightarrow> sent' = sent \<and> (a' = a \<or> a' = a\<lparr>ac_nonce := ac_nonce a + 1\<rparr>))"

definition call_law :: "'a ContractUser_scheme \<Rightarrow> (app_error + Transaction) \<times> 'a ContractUser_scheme \<Rightarrow> bool" where
  "call_law g out \<longleftrightarrow>
     user_step (cu_sentTxs g) (cu_sender g) (fst out) (cu_sentTxs (snd out)) (cu_sender (snd out))"

lemma call_law_error [simp]: "call_law g (Inl e, g)"
  by (simp add: call_law_def user_step_def)

lemma call_law_createTx [simp]: "call_law g (counted (createTx env (cu_sender g) to v data gas) g)"
  by (auto simp: call_law_def user_step_def counted_def createTx_def getNextNonce_def Let_def)

lemma call_law_createDeployTx [simp]: "call_law g (counted (createDeployTx env (cu_sender g) v data gas) g)"
  by (auto simp: call_law_def user_step_def counted_def createDeployTx_def getNextNonce_def Let_def)

lemmas plain_user_defs =
  Counter_GenerateTx_def Store_GenerateTx_def Transient_GenerateTx_def SelfDestructOld_GenerateTx_def
  SelfDestructNew_GenerateTx_def LargeContract_GenerateTx_def Bls12Add_GenerateTx_def

lemma plain_call_laws:
  "call_law g (Counter_GenerateTx env g)"
  "call_law g (Store_GenerateTx env g)"
  "call_law g (Transient_GenerateTx env g)"
  "call_law g (SelfDestructOld_GenerateTx env g)"
  "call_law g (SelfDestructNew_GenerateTx env g)"
  "call_law g (LargeContract_GenerateTx env g)"
  "call_law g (Bls12Add_GenerateTx points env g)"
  by (simp_all add: plain_user_defs Let_def)

lemma Subsidies_call_law: "call_law g (Subsidies_GenerateTx env chainID g)"
  by (auto simp: Subsidies_GenerateTx_def call_law_def user_step_def counted_def getNextNonce_def Let_def)

lemma ERC20_call_law: "call_law g (ERC20_GenerateTx env r g)"
  by (simp add: ERC20_GenerateTx_def Let_def)

lemma Uniswap_call_law: "call_law g (Uniswap_GenerateTx env r g)"
  by (simp add: Uniswap_GenerateTx_def Let_def)

lemma Ecdsa_call_law: "Ecdsa_GenerateTx env hash p256 g = Some out \<Longrightarrow> call_law g out"
  by (auto simp: Ecdsa_GenerateTx_def Let_def split: option.splits prod.splits if_splits Option.bind_split_asm)

lemma SmartAccount_call_law: "call_law g (SmartAccount_GenerateTx env g)"
proof (cases "GetAccounts 3 (su_accountsCircular g)")
  case (Pair accs pool1)
  show ?thesis
  proof (cases accs)
    case None
    with Pair show ?thesis by (simp add: SmartAccount_GenerateTx_def Let_def)
  next
    case (Some as)
    have shape: "call_law g (counted (r, a') (g\<lparr>su_accountsCircular := p\<rparr>))"
      if "createSetCodeTx env (cu_sender g) to v data gas as' code = (r, a', bs)" for r a' bs p to v data gas as' code
      using createSetCodeTx_Inr [of env "cu_sender g"] createSetCodeTx_Inl [of env "cu_sender g"] that
      by (cases r) (auto simp: call_law_def user_step_def counted_def Let_def)
    have err: "call_law g (Inl e, g\<lparr>su_accountsCircular := p\<rparr>)" for e p by (simp add: call_law_def user_step_def)
    from Pair Some show ?thesis by (auto simp: SmartAccount_GenerateTx_def Let_def err split: prod.splits intro: shape)
  qed
qed

text \<open>The users of bundles count every envelope, but the duplicated bundle only the first of each plan.\<close>

lemma bundle_sent:
  "AllOfBundle_GenerateTx env cv key a = (r, a') \<Longrightarrow> ao_sentTxs a' = ao_sentTxs a + (if isl r then 0 else 1)"
  "OneOfBundle_GenerateTx env cv key first b = (r, b') \<Longrightarrow> oo_sentTxs b' = oo_sentTxs b + (if isl r then 0 else 1)"
  "FailingBundle_GenerateTx env cv key first nanos c = (r, c') \<Longrightarrow> fb_sentTxs c' = fb_sentTxs c + (if isl r then 0 else 1)"
  "SubsidizedBundle_GenerateTx env cv key d = (r, d') \<Longrightarrow> sb_sentTxs d' = sb_sentTxs d + (if isl r then 0 else 1)"
  by (auto simp: AllOfBundle_GenerateTx_def OneOfBundle_GenerateTx_def FailingBundle_GenerateTx_def
      SubsidizedBundle_GenerateTx_def Let_def split: if_splits option.splits)

fun duplicates :: "User \<Rightarrow> bool" where
  "duplicates (DuplicatedUser _) = True"
| "duplicates _ = False"

lemmas user_call_laws =
  plain_call_laws Subsidies_call_law ERC20_call_law Uniswap_call_law SmartAccount_call_law

lemma call_lawD:
  "call_law g out \<Longrightarrow> out = (r, g') \<Longrightarrow> user_step (cu_sentTxs g) (cu_sender g) r (cu_sentTxs g') (cu_sender g')"
  by (auto simp: call_law_def)

lemma GenerateTx_law:
  assumes "GenerateTx d u = Some (r, u')" "\<not> sends_bundles u"
  shows "user_step (GetSentTransactions_of u) (user_account u) r (GetSentTransactions_of u') (user_account u') \<and>
    \<not> sends_bundles u'"
  using assms
  by (cases u) (auto simp: GetSentTransactions_user_def map_prod_def split: prod.splits
      dest: user_call_laws [THEN call_lawD] Ecdsa_call_law [THEN call_lawD])

interpretation lu: own_nonce_user GenerateTx GetSentTransactions_of "\<lambda>u. \<not> sends_bundles u" user_account
    transaction_nonce transaction_signer
  by unfold_locales (auto dest: GenerateTx_law simp: user_step_def)

lemma GenerateTx_sent:
  assumes "GenerateTx d u = Some (r, u')" "\<not> duplicates u"
  shows "GetSentTransactions_of u' = GetSentTransactions_of u + (if isl r then 0 else 1) \<and> \<not> duplicates u'"
proof (cases "sends_bundles u")
  case True
  with assms show ?thesis
    by (cases u) (auto simp: map_prod_def dest: bundle_sent split: prod.splits)
next
  case False
  have "\<not> duplicates u'" using assms by (cases u) (auto simp: map_prod_def split: prod.splits)
  with GenerateTx_law [OF assms(1) False] show ?thesis by (auto simp: user_step_def split: sum.splits)
qed

interpretation cu: counting_user GenerateTx GetSentTransactions_of "\<lambda>u. \<not> duplicates u"
  by unfold_locales (auto dest: GenerateTx_sent)

text \<open>The user of the mix counts whatever its parts generate.\<close>

interpretation mu: counting_user "\<lambda>(r, d). Mix_GenerateTx r d" mu_sentTxs "\<lambda>_. True"
  by unfold_locales (auto simp: Mix_GenerateTx_def Let_def split: prod.splits sum.splits option.splits)

end
