(* ===== verification/Load_Execution.thy ===== *)
theory Load_Execution
  imports Load_Users
begin

text \<open>
  What the transactions of the load applications do on the chain: calls of the deployed contracts, and
  the counts the applications read back. A transaction either changes the state of the contract it is
  sent to or reverts; nonces and fees of ordinary transactions are not followed here.
\<close>

section \<open>Contracts that count\<close>

text \<open>The last two carry what the contract is deployed with: the check of signatures, and the hash.\<close>

datatype Contract =
    CounterC int
  | TransientC int
  | StoreC Store
  | NewFactoryC int
  | OldFactoryC "int \<times> int"
  | EcdsaC "nat list \<Rightarrow> nat list \<Rightarrow> nat list \<Rightarrow> bool" int

text \<open>A call with a payment reverts unless the method is payable.\<close>

fun call_contract :: "address \<Rightarrow> int \<Rightarrow> calldata \<Rightarrow> Contract \<Rightarrow> Contract option" where
  "call_contract sender paid (Call m args) (CounterC c) =
     (if paid = 0 \<and> m = ''incrementCounter'' \<and> args = [] then map_option CounterC (Counter_incrementCounter c) else None)"
| "call_contract sender paid (Call m args) (TransientC c) =
     (if paid = 0 \<and> m = ''incrementCounterTwice'' \<and> args = [] then map_option TransientC (Transient_incrementCounterTwice c)
      else None)"
| "call_contract sender paid (Call m args) (StoreC s) =
     (case args of
        [AInt from, AInt to, AInt v] \<Rightarrow>
          if paid = 0 \<and> m = ''fill'' then map_option StoreC (Store_fill sender from to v s) else None
      | _ \<Rightarrow> None)"
| "call_contract sender paid (Call m args) (NewFactoryC b) =
     (if m = ''deployAndDestruct'' \<and> args = [] then map_option NewFactoryC (New_deployAndDestruct paid b) else None)"
| "call_contract sender paid (Call m args) (OldFactoryC s) =
     (if m = ''destructAndDeploy'' \<and> args = [] then map_option OldFactoryC (Old_destructAndDeploy paid s) else None)"
| "call_contract sender paid (Call m args) (EcdsaC verify c) =
     (case args of
        [ABytes h, ABytes r, ABytes s] \<Rightarrow>
          if paid = 0 \<and> m = ''incrementCounter'' then map_option (EcdsaC verify) (Ecdsa_incrementCounter verify h r s c) else None
      | _ \<Rightarrow> None)"
| "call_contract sender paid _ c = None"

text \<open>The creation of a large contract calls the counter it is given.\<close>

fun create_with :: "address \<Rightarrow> calldata \<Rightarrow> Contract \<Rightarrow> Contract option" where
  "create_with self (Create [AAddress counter, AInt _]) (CounterC c) =
     (if counter = self then map_option CounterC (LargeContract_constructor c) else None)"
| "create_with self _ _ = None"

fun execute :: "(nat list \<Rightarrow> address) \<Rightarrow> address \<Rightarrow> Transaction \<Rightarrow> Contract \<Rightarrow> Contract option" where
  "execute addr self (SignedTx key tx) c =
     (case tx_to tx of
        Some to \<Rightarrow> if to = self then call_contract (addr key) (tx_value tx) (tx_data tx) c else None
      | None \<Rightarrow> create_with self (tx_data tx) c)"
| "execute addr self (BoundTx opts gas data) c = call_contract (addr (to_key opts)) (the (to_Value opts)) data c"
| "execute addr self _ c = None"

fun execute_all :: "(nat list \<Rightarrow> address) \<Rightarrow> address \<Rightarrow> Transaction list \<Rightarrow> Contract \<Rightarrow> Contract option" where
  "execute_all addr self [] c = Some c"
| "execute_all addr self (t # ts) c = do { c1 \<leftarrow> execute addr self t c; execute_all addr self ts c1 }"

text \<open>\<open>getCount\<close> of each contract.\<close>

fun contract_count :: "Contract \<Rightarrow> int" where
  "contract_count (CounterC c) = Counter_getCount c"
| "contract_count (TransientC c) = c - 1"
| "contract_count (StoreC s) = st_count s"
| "contract_count (NewFactoryC b) = b"
| "contract_count (OldFactoryC s) = fst s"
| "contract_count (EcdsaC _ c) = c - 1"

text \<open>
  Which users belong to which contract. The factory of old contracts has always a constructed contract
  with one wei; the signatures of a user have to be valid for the contract.
\<close>

definition attached :: "draw \<Rightarrow> address \<Rightarrow> User \<Rightarrow> Contract \<Rightarrow> bool" where
  "attached d self u c =
     (case u of
        CounterUser g \<Rightarrow> (case c of CounterC _ \<Rightarrow> cu_contract g = self | _ \<Rightarrow> False)
      | SubsidiesUser g \<Rightarrow> (case c of CounterC _ \<Rightarrow> True | _ \<Rightarrow> False)
      | LargeContractUser g \<Rightarrow> (case c of CounterC _ \<Rightarrow> cu_contract g = self | _ \<Rightarrow> False)
      | TransientUser g \<Rightarrow> (case c of TransientC _ \<Rightarrow> cu_contract g = self | _ \<Rightarrow> False)
      | StoreUser g \<Rightarrow> (case c of StoreC _ \<Rightarrow> cu_contract g = self | _ \<Rightarrow> False)
      | SelfDestructNewUser g \<Rightarrow> (case c of NewFactoryC _ \<Rightarrow> cu_contract g = self | _ \<Rightarrow> False)
      | SelfDestructOldUser g \<Rightarrow> (case c of OldFactoryC s \<Rightarrow> cu_contract g = self \<and> snd s = 1 | _ \<Rightarrow> False)
      | SignatureUser g \<Rightarrow>
          (case c of
             EcdsaC verify _ \<Rightarrow>
               cu_contract g = self \<and>
               (\<forall>h r s. dr_p256 d (ecu_privateKey g) h = Some (r, s) \<longrightarrow> verify h (be_bytes 32 r) (be_bytes 32 s))
           | _ \<Rightarrow> False)
      | _ \<Rightarrow> False)"

declare attached_def [simp]

text \<open>The contracts of a kind: a call keeps it, and what belongs to it still does.\<close>

fun same_kind :: "Contract \<Rightarrow> Contract \<Rightarrow> bool" where
  "same_kind (CounterC _) (CounterC _) = True"
| "same_kind (TransientC _) (TransientC _) = True"
| "same_kind (StoreC _) (StoreC _) = True"
| "same_kind (NewFactoryC _) (NewFactoryC _) = True"
| "same_kind (OldFactoryC s) (OldFactoryC t) = (snd s = snd t)"
| "same_kind (EcdsaC v _) (EcdsaC w _) = (v = w)"
| "same_kind _ _ = False"

lemma attached_counted: "attached d self u c \<Longrightarrow> counted_by_app u q = received_count q"
  by (cases u; cases c) (auto simp: received_count_defs)

lemma same_kind_attached: "same_kind c c' \<Longrightarrow> attached d self u c \<longleftrightarrow> attached d self u c'"
  by (cases u; cases c; cases c') auto

lemma same_kind_trans: "same_kind a b \<Longrightarrow> same_kind b c \<Longrightarrow> same_kind a c"
  by (cases a; cases b; cases c) auto

lemma same_kind_refl [simp]: "same_kind a a"
  by (cases a) auto

text \<open>A transaction that a user of the contract generates is executed and counted once.\<close>

lemma execute_generated:
  assumes gen: "GenerateTx d u = Some (Inr t, u')" and att: "attached d self u c"
    and range: "0 \<le> contract_count c" "contract_count c < 2 ^ 64"
  shows "\<exists>c'. execute addr self t c = Some c' \<and> contract_count c' = contract_count c + 1 \<and> same_kind c c'"
  using att gen range
  by (cases u; cases c) (auto simp: map_prod_def plain_user_defs Let_def counted_def createTx_def createDeployTx_def
      Subsidies_GenerateTx_def getNextNonce_def Counter_incrementCounter_def Counter_getCount_def int_add_def
      Transient_incrementCounterTwice_def Transient_incrementCounter_def Store_fill_def LargeContract_constructor_def
      New_deployAndDestruct_def Old_destructAndDeploy_def oneWei_def Ecdsa_GenerateTx_def Ecdsa_incrementCounter_def
      bigIntTo32Bytes_def split: if_splits prod.splits option.splits Option.bind_split_asm)

lemma GenerateTx_attached:
  assumes "GenerateTx d' u = Some (r, u')" "attached d self u c"
  shows "attached d self u' c"
  using assms
  by (cases u; cases c) (auto simp: map_prod_def plain_user_defs Let_def counted_def createTx_def createDeployTx_def
      Subsidies_GenerateTx_def getNextNonce_def Ecdsa_GenerateTx_def
      split: if_splits prod.splits option.splits sum.splits Option.bind_split_asm)

definition produced :: "address \<Rightarrow> Contract \<Rightarrow> Transaction \<Rightarrow> bool" where
  "produced self c t \<longleftrightarrow> (\<exists>d u u'. attached d self u c \<and> GenerateTx d u = Some (Inr t, u'))"

lemma runs_produced:
  "runs GenerateTx ds u = Some (rs, u') \<Longrightarrow> (\<And>d. d \<in> set ds \<Longrightarrow> attached d self u c) \<Longrightarrow> t \<in> set (generated rs) \<Longrightarrow>
     produced self c t"
proof (induction ds arbitrary: u rs)
  case (Cons d ds)
  from Cons.prems(1) obtain r u1 rs1 where call: "GenerateTx d u = Some (r, u1)"
    and rest: "runs GenerateTx ds u1 = Some (rs1, u')" and rs: "rs = r # rs1"
    by (auto split: option.splits prod.splits)
  have att: "attached d' self u1 c" if "d' \<in> set ds" for d'
    using GenerateTx_attached [OF call] Cons.prems(2) that by simp
  show ?case
  proof (cases "t \<in> set (generated rs1)")
    case True
    then show ?thesis using Cons.IH [OF rest att] by blast
  next
    case False
    with Cons.prems(3) rs have "r = Inr t" by (cases r) auto
    with call Cons.prems(2) show ?thesis by (auto simp: produced_def)
  qed
qed simp

lemma execute_all_produced:
  "\<forall>t\<in>set ts. produced self c t \<Longrightarrow> 0 \<le> contract_count c \<Longrightarrow> contract_count c + int (length ts) \<le> 2 ^ 64 \<Longrightarrow>
     \<exists>c'. execute_all addr self ts c = Some c' \<and> contract_count c' = contract_count c + int (length ts) \<and> same_kind c c'"
proof (induction ts arbitrary: c)
  case (Cons t ts)
  from Cons.prems(1) obtain d u u' where t: "attached d self u c" "GenerateTx d u = Some (Inr t, u')"
    by (auto simp: produced_def)
  from Cons.prems(3) have "contract_count c < 2 ^ 64" by simp
  from execute_generated [OF t(2,1) Cons.prems(2) this] obtain c1 where c1:
    "execute addr self t c = Some c1" "contract_count c1 = contract_count c + 1" "same_kind c c1" by blast
  have "\<forall>t\<in>set ts. produced self c1 t"
    using Cons.prems(1) same_kind_attached [OF c1(3)] by (auto simp: produced_def)
  from Cons.IH [OF this] c1 Cons.prems(2,3) obtain c2 where
    "execute_all addr self ts c1 = Some c2" "contract_count c2 = contract_count c1 + int (length ts)" "same_kind c1 c2"
    by auto
  with c1 show ?case by (auto intro: same_kind_trans)
qed simp

section \<open>Tokens\<close>

text \<open>Transfers of the token application, executed on the token.\<close>

fun execute_transfer :: "(nat list \<Rightarrow> address) \<Rightarrow> address \<Rightarrow> Transaction \<Rightarrow> ERC20 \<Rightarrow> ERC20 option" where
  "execute_transfer addr self (SignedTx key tx) s =
     (if tx_to tx \<noteq> Some self \<or> tx_value tx \<noteq> 0 then None
      else case tx_data tx of
             Call m [AAddress recipient, AInt amount] \<Rightarrow>
               if m = ''transfer'' then ERC20_transfer (addr key) recipient (word_of_int amount) s else None
           | _ \<Rightarrow> None)"
| "execute_transfer addr self _ s = None"

fun execute_transfers :: "(nat list \<Rightarrow> address) \<Rightarrow> address \<Rightarrow> Transaction list \<Rightarrow> ERC20 \<Rightarrow> ERC20 option" where
  "execute_transfers addr self [] s = Some s"
| "execute_transfers addr self (t # ts) s = do { s1 \<leftarrow> execute_transfer addr self t s; execute_transfers addr self ts s1 }"

definition tokens_of :: "address list \<Rightarrow> ERC20 \<Rightarrow> int" where
  "tokens_of as s = (\<Sum>a\<in>set as. uint (balanceOf s a))"

text \<open>Adding up 64-bit parts of the balances of different holders is the sum, with wrap-around.\<close>

lemma received_balances_eq:
  "distinct as \<Longrightarrow> received_balances (\<lambda>a. Some (balanceOf s a)) as t = Some (t + word_of_int (tokens_of as s))"
  by (induction as arbitrary: t) (auto simp: tokens_of_def big_Uint64_def algebra_simps)

text \<open>
  A transfer of the application: from the account of a user, which is no recipient, to one of the
  recipients.
\<close>

definition token_transfer :: "(nat list \<Rightarrow> address) \<Rightarrow> address \<Rightarrow> address list \<Rightarrow> Transaction \<Rightarrow> bool" where
  "token_transfer addr self recipients t \<longleftrightarrow>
     (\<exists>d g u'. GenerateTx d (TokenUser g) = Some (Inr t, u') \<and> cu_contract g = self \<and> eu_recipients g = recipients \<and>
        addr (ac_key (cu_sender g)) \<notin> set recipients)"

definition sender_of :: "(nat list \<Rightarrow> address) \<Rightarrow> Transaction \<Rightarrow> address" where
  "sender_of addr t = addr (transaction_signer t)"

lemma token_transferD:
  assumes "token_transfer addr self recipients t" "recipients \<noteq> []"
  obtains r where "r \<in> set recipients" "sender_of addr t \<notin> set recipients"
    "execute_transfer addr self t s = ERC20_transfer (sender_of addr t) r 1 s"
proof -
  from assms(1) obtain d g u' where g: "GenerateTx d (TokenUser g) = Some (Inr t, u')" "cu_contract g = self"
    "eu_recipients g = recipients" "addr (ac_key (cu_sender g)) \<notin> set recipients" by (auto simp: token_transfer_def)
  have "recipients ! (dr_random d mod length recipients) \<in> set recipients" using assms(2) by simp
  with g show thesis
    by (intro that) (auto simp: map_prod_def ERC20_GenerateTx_def Let_def counted_def createTx_def getNextNonce_def sender_of_def
        split: if_splits)
qed

text \<open>
  Every sender can pay for its transfers and no recipient overflows: all are executed, and the
  recipients have one token more for each.
\<close>

lemma execute_transfers_all:
  "\<forall>t\<in>set ts. token_transfer addr self recipients t \<Longrightarrow> recipients \<noteq> [] \<Longrightarrow>
   (\<And>a. int (count_list (map (sender_of addr) ts) a) \<le> uint (balanceOf s a)) \<Longrightarrow>
   (\<And>r. r \<in> set recipients \<Longrightarrow> uint (balanceOf s r) + int (length ts) < 2 ^ 256) \<Longrightarrow>
   \<exists>s'. execute_transfers addr self ts s = Some s' \<and> tokens_of recipients s' = tokens_of recipients s + int (length ts)"
proof (induction ts arbitrary: s)
  case (Cons t ts)
  from Cons.prems(1) have "token_transfer addr self recipients t" by simp
  from token_transferD [OF this Cons.prems(2)] obtain r where r: "r \<in> set recipients" "sender_of addr t \<notin> set recipients"
    "execute_transfer addr self t s = ERC20_transfer (sender_of addr t) r 1 s" by blast
  let ?x = "sender_of addr t"
  have pay: "(1::u256) \<le> balanceOf s ?x"
    using Cons.prems(3) [of ?x] by (simp add: word_le_def)
  have room: "uint (balanceOf s r) + uint (1::u256) < 2 ^ 256" using Cons.prems(4) [OF r(1)] by simp
  from move_balance_ok [OF pay room] obtain bal where bal: "move_balance ?x r 1 (balanceOf s) = Some bal" .
  let ?s = "s\<lparr>balanceOf := bal\<rparr>"
  have step: "execute_transfer addr self t s = Some ?s" by (simp add: r(3) ERC20_transfer_def bal)
  have moved: "uint (bal k) = uint (balanceOf s k) - (if k = ?x then 1 else 0) + (if k = r then 1 else 0)" for k
    using move_balance_Some(1) [OF bal, of k] by simp
  have "tokens_of recipients ?s = tokens_of recipients s + 1"
    using move_balance_sum [OF bal, of "set recipients"] r by (simp add: tokens_of_def)
  moreover have "\<exists>s'. execute_transfers addr self ts ?s = Some s' \<and> tokens_of recipients s' = tokens_of recipients ?s + int (length ts)"
  proof (rule Cons.IH)
    show "int (count_list (map (sender_of addr) ts) a) \<le> uint (balanceOf ?s a)" for a
      using Cons.prems(3) [of a] moved [of a] by (auto split: if_splits)
    show "uint (balanceOf ?s q) + int (length ts) < 2 ^ 256" if "q \<in> set recipients" for q
      using Cons.prems(4) [OF that] moved [of q] by (auto split: if_splits)
  qed (use Cons.prems in auto)
  ultimately show ?case using step by auto
qed simp

end
