(* ===== verification/Load_Bundle_Runs.thy ===== *)
theory Load_Bundle_Runs
  imports Load_Execution
begin

text \<open>
  Bundles on the chain. A step of a bundle is a transaction with the next nonce of its account; it runs
  on the token, or on a contract whose code is not here (\<open>other\<close> tells whether that call succeeds). What
  the bundle processor of the client does with a plan is a parameter with the documented rules:
  of \<open>AllOf\<close> every step runs or none, of \<open>OneOf\<close> the first that succeeds, and no plan runs twice.
\<close>

section \<open>Steps and plans\<close>

record token_chain =
  tc_nonce :: "address \<Rightarrow> u64"
  tc_token :: ERC20
  tc_done :: "Bundle list"

fun token_call :: "address \<Rightarrow> calldata \<Rightarrow> ERC20 \<Rightarrow> ERC20 option" where
  "token_call sender (Call m args) s =
     (case args of
        [AAddress a, AInt n] \<Rightarrow>
          if m = ''transfer'' then ERC20_transfer sender a (word_of_int n) s
          else if m = ''approve'' then ERC20_approve sender a (word_of_int n) s else None
      | [AAddress a, AAddress b, AInt n] \<Rightarrow>
          if m = ''transferFrom'' then ERC20_transferFrom sender a b (word_of_int n) s else None
      | _ \<Rightarrow> None)"
| "token_call sender _ s = None"

text \<open>
  \<open>None\<close>: the nonce is not the next one and the transaction cannot be part of a block. Otherwise the
  nonce is consumed, and the token changes unless the call reverts.
\<close>

definition run_step ::
  "(nat list \<Rightarrow> address) \<Rightarrow> address \<Rightarrow> (BuilderStep \<Rightarrow> bool) \<Rightarrow> BuilderStep \<Rightarrow> token_chain \<Rightarrow> (bool \<times> token_chain) option" where
  "run_step addr token other st ch =
     (let x = addr (bs_key st); tx = bs_tx st; ch1 = ch\<lparr>tc_nonce := (tc_nonce ch)(x := tc_nonce ch x + 1)\<rparr>
      in if tx_nonce tx \<noteq> tc_nonce ch x then None
         else if tx_to tx = Some token
         then (case token_call x (tx_data tx) (tc_token ch) of
                 None \<Rightarrow> Some (False, ch1)
               | Some s \<Rightarrow> Some (True, ch1\<lparr>tc_token := s\<rparr>))
         else Some (other st, ch1))"

fun run_all ::
  "(nat list \<Rightarrow> address) \<Rightarrow> address \<Rightarrow> (BuilderStep \<Rightarrow> bool) \<Rightarrow> BuilderStep list \<Rightarrow> token_chain \<Rightarrow> token_chain option" where
  "run_all addr token other [] ch = Some ch"
| "run_all addr token other (st # sts) ch =
     (case run_step addr token other st ch of
        Some (True, ch1) \<Rightarrow> run_all addr token other sts ch1
      | _ \<Rightarrow> None)"

fun run_first ::
  "(nat list \<Rightarrow> address) \<Rightarrow> address \<Rightarrow> (BuilderStep \<Rightarrow> bool) \<Rightarrow> BuilderStep list \<Rightarrow> token_chain \<Rightarrow> token_chain option" where
  "run_first addr token other [] ch = None"
| "run_first addr token other (st # sts) ch =
     (case run_step addr token other st ch of
        None \<Rightarrow> run_first addr token other sts ch
      | Some (True, ch1) \<Rightarrow> Some ch1
      | Some (False, ch1) \<Rightarrow> run_first addr token other sts ch1)"

text \<open>
  The rules of the processor. A plan of \<open>OneOf\<close> without a successful step is left open.
\<close>

definition bundle_processor ::
  "(nat list \<Rightarrow> address) \<Rightarrow> address \<Rightarrow> (BuilderStep \<Rightarrow> bool) \<Rightarrow> (Bundle \<Rightarrow> token_chain \<Rightarrow> token_chain) \<Rightarrow> bool" where
  "bundle_processor addr token other process \<longleftrightarrow>
     (\<forall>b ch. b \<in> set (tc_done ch) \<longrightarrow> process b ch = ch) \<and>
     (\<forall>b ch. b \<notin> set (tc_done ch) \<longrightarrow>
        (case bu_plan b of
           AllOf steps \<Rightarrow>
             (case run_all addr token other steps ch of
                Some ch' \<Rightarrow> process b ch = ch'\<lparr>tc_done := b # tc_done ch'\<rparr>
              | None \<Rightarrow> process b ch = ch)
         | OneOf steps \<Rightarrow>
             (case run_first addr token other steps ch of
                Some ch' \<Rightarrow> process b ch = ch'\<lparr>tc_done := b # tc_done ch'\<rparr>
              | None \<Rightarrow> True)))"

text \<open>Processing an envelope; other transactions do not concern the token here.\<close>

fun process_tx :: "(Bundle \<Rightarrow> token_chain \<Rightarrow> token_chain) \<Rightarrow> Transaction \<Rightarrow> token_chain \<Rightarrow> token_chain" where
  "process_tx process (EnvelopeTx e) ch = process (en_data e) ch"
| "process_tx process _ ch = ch"

section \<open>One token per plan\<close>

text \<open>The balances after one token went from \<open>x\<close> to \<open>y\<close>, everything else being kept.\<close>

definition one_moved :: "address \<Rightarrow> address \<Rightarrow> ERC20 \<Rightarrow> ERC20 \<Rightarrow> bool" where
  "one_moved x y s s' \<longleftrightarrow>
     (\<forall>k. uint (balanceOf s' k) = uint (balanceOf s k) - (if k = x then 1 else 0) + (if k = y then 1 else 0)) \<and>
     token_whitelist s' = token_whitelist s"

definition can_pay :: "address \<Rightarrow> address \<Rightarrow> ERC20 \<Rightarrow> bool" where
  "can_pay x y s \<longleftrightarrow> 1 \<le> uint (balanceOf s x) \<and> uint (balanceOf s y) + 1 < 2 ^ 256"

lemma transfer_one:
  assumes "can_pay x y s"
  obtains s' where "ERC20_transfer x y 1 s = Some s'" "one_moved x y s s'" "allowance s' = allowance s"
proof -
  from assms have "(1::u256) \<le> balanceOf s x" "uint (balanceOf s y) + uint (1::u256) < 2 ^ 256"
    by (simp_all add: can_pay_def word_le_def)
  from move_balance_ok [OF this] obtain bal where bal: "move_balance x y 1 (balanceOf s) = Some bal" .
  show thesis
  proof (rule that)
    show "ERC20_transfer x y 1 s = Some (s\<lparr>balanceOf := bal\<rparr>)" by (simp add: ERC20_transfer_def bal)
    show "one_moved x y s (s\<lparr>balanceOf := bal\<rparr>)" using move_balance_Some(1) [OF bal] by (simp add: one_moved_def)
  qed simp
qed

text \<open>Approving one token and claiming it: the token moves and the allowance is used up.\<close>

lemma approve_and_claim:
  assumes "can_pay x y s" "\<not> token_whitelist s y"
  obtains s1 s2 where "ERC20_approve x y 1 s = Some s1" "ERC20_transferFrom y x y 1 s1 = Some s2"
    "one_moved x y s s2" "allowance s2 x y = 0"
proof -
  let ?s1 = "s\<lparr>allowance := (allowance s)(x := (allowance s x)(y := 1))\<rparr>"
  let ?s2 = "?s1\<lparr>allowance := (allowance ?s1)(x := (allowance ?s1 x)(y := 0))\<rparr>"
  from assms(1) have "(1::u256) \<le> balanceOf s x" "uint (balanceOf s y) + uint (1::u256) < 2 ^ 256"
    by (simp_all add: can_pay_def word_le_def)
  from move_balance_ok [OF this] obtain bal where bal: "move_balance x y 1 (balanceOf s) = Some bal" .
  show thesis
  proof (rule that)
    show "ERC20_approve x y 1 s = Some ?s1" by (simp add: ERC20_approve_def)
    show "ERC20_transferFrom y x y 1 ?s1 = Some (?s2\<lparr>balanceOf := bal\<rparr>)"
      using assms(2) bal by (simp add: ERC20_transferFrom_def uint_sub_def)
    show "one_moved x y s (?s2\<lparr>balanceOf := bal\<rparr>)" using move_balance_Some(1) [OF bal] by (simp add: one_moved_def)
  qed simp
qed

text \<open>A transfer of more than the balance reverts.\<close>

lemma transfer_too_much: "balanceOf s x < a \<Longrightarrow> ERC20_transfer x y a s = None"
  by (auto simp: ERC20_transfer_def move_balance_def uint_sub_def dest: leD)

section \<open>The plans of the applications\<close>

text \<open>Who pays and who receives the token of a plan, and whose nonce the first step uses.\<close>

fun payer :: "(nat list \<Rightarrow> address) \<Rightarrow> User \<Rightarrow> address" where
  "payer addr (AllOfUser u) = addr (ac_key (ao_approver u))"
| "payer addr (OneOfUser u) = addr (ac_key (oo_sender u))"
| "payer addr (DuplicatedUser u) = addr (ac_key (db_senderA u))"
| "payer addr (SubsidizedUser u) = addr (ac_key (sb_user u))"
| "payer addr _ = 0"

fun payee :: "(nat list \<Rightarrow> address) \<Rightarrow> User \<Rightarrow> address" where
  "payee addr (AllOfUser u) = addr (ac_key (ao_spender u))"
| "payee addr (OneOfUser u) = oo_targetAddress u"
| "payee addr (DuplicatedUser u) = db_targetAddress u"
| "payee addr (SubsidizedUser u) = addr (ac_key (sb_sponsor u))"
| "payee addr _ = 0"

fun user_token :: "User \<Rightarrow> address" where
  "user_token (AllOfUser u) = ao_erc20Address u"
| "user_token (OneOfUser u) = oo_erc20Address u"
| "user_token (DuplicatedUser u) = db_erc20Address u"
| "user_token (SubsidizedUser u) = sb_erc20Address u"
| "user_token _ = 0"

abbreviation lead :: "User \<Rightarrow> nat list" where
  "lead u \<equiv> ac_key (user_account u)"

fun plan_steps :: "Plan \<Rightarrow> BuilderStep list" where
  "plan_steps (AllOf sts) = sts"
| "plan_steps (OneOf sts) = sts"

text \<open>What every executed plan does.\<close>

definition advanced :: "(nat list \<Rightarrow> address) \<Rightarrow> User \<Rightarrow> Bundle \<Rightarrow> token_chain \<Rightarrow> token_chain \<Rightarrow> bool" where
  "advanced addr u b ch ch' \<longleftrightarrow>
     one_moved (payer addr u) (payee addr u) (tc_token ch) (tc_token ch') \<and> tc_done ch' = b # tc_done ch \<and>
     tc_nonce ch' (addr (lead u)) - tc_nonce ch (addr (lead u)) \<in> {1, 2} \<and>
     (\<exists>st sts. plan_steps (bu_plan b) = st # sts \<and> bs_key st = lead u \<and> tx_nonce (bs_tx st) = tc_nonce ch (addr (lead u)))"

lemma processed_all:
  assumes "bundle_processor addr token other process" "bu_plan b = AllOf sts" "b \<notin> set (tc_done ch)"
    "run_all addr token other sts ch = Some ch'"
  shows "process b ch = ch'\<lparr>tc_done := b # tc_done ch'\<rparr>"
  using conjunct2 [OF assms(1) [unfolded bundle_processor_def], THEN spec, THEN spec, of b ch] assms(2-4) by simp

lemma processed_first:
  assumes "bundle_processor addr token other process" "bu_plan b = OneOf sts" "b \<notin> set (tc_done ch)"
    "run_first addr token other sts ch = Some ch'"
  shows "process b ch = ch'\<lparr>tc_done := b # tc_done ch'\<rparr>"
  using conjunct2 [OF assms(1) [unfolded bundle_processor_def], THEN spec, THEN spec, of b ch] assms(2-4) by simp

lemma processed_before:
  "bundle_processor addr token other process \<Longrightarrow> b \<in> set (tc_done ch) \<Longrightarrow> process b ch = ch"
  by (simp add: bundle_processor_def)

lemmas step_simps = run_step_def Step_def Let_def

lemma allof_advances:
  assumes proc: "bundle_processor addr (ao_erc20Address u) other process"
    and env: "ev_address env = addr"
    and pays: "can_pay (payer addr (AllOfUser u)) (payee addr (AllOfUser u)) (tc_token ch)"
    and wl: "\<not> token_whitelist (tc_token ch) (payee addr (AllOfUser u))"
    and ne: "payer addr (AllOfUser u) \<noteq> payee addr (AllOfUser u)"
    and b: "bu_plan b = allof_plan env u (tc_nonce ch (payer addr (AllOfUser u))) (tc_nonce ch (payee addr (AllOfUser u)))"
      "b \<notin> set (tc_done ch)"
  shows "advanced addr (AllOfUser u) b ch (process b ch) \<and>
    allowance (tc_token (process b ch)) (payer addr (AllOfUser u)) (payee addr (AllOfUser u)) = 0"
proof -
  let ?x = "payer addr (AllOfUser u)" and ?y = "payee addr (AllOfUser u)"
  from approve_and_claim [OF pays wl] obtain s1 s2 where s: "ERC20_approve ?x ?y 1 (tc_token ch) = Some s1"
    "ERC20_transferFrom ?y ?x ?y 1 s1 = Some s2" "one_moved ?x ?y (tc_token ch) s2" "allowance s2 ?x ?y = 0" .
  let ?n = "(tc_nonce ch)(?x := tc_nonce ch ?x + 1, ?y := tc_nonce ch ?y + 1)"
  obtain sts where sts: "bu_plan b = AllOf sts"
    "run_all addr (ao_erc20Address u) other sts ch = Some (ch\<lparr>tc_nonce := ?n, tc_token := s2\<rparr>)"
    using b(1) s(1,2) ne by (simp add: allof_plan_def step_simps env)
  have "process b ch = ch\<lparr>tc_nonce := ?n, tc_token := s2, tc_done := b # tc_done ch\<rparr>"
    using processed_all [OF proc sts(1) b(2) sts(2)] by simp
  then show ?thesis using s(3,4) ne b(1) by (simp add: advanced_def allof_plan_def Step_def Let_def)
qed

text \<open>
  Either order of the two transfers moves one token: the one that asks for too much reverts if it comes
  first, and is not tried otherwise.
\<close>

lemma oneof_advances:
  assumes proc: "bundle_processor addr (oo_erc20Address u) other process"
    and pays: "can_pay (payer addr (OneOfUser u)) (payee addr (OneOfUser u)) (tc_token ch)"
    and over: "uint (balanceOf (tc_token ch) (payer addr (OneOfUser u))) < overBalanceAmount"
    and b: "bu_plan b = oneof_plan u first (tc_nonce ch (payer addr (OneOfUser u)))" "b \<notin> set (tc_done ch)"
  shows "advanced addr (OneOfUser u) b ch (process b ch)"
proof -
  let ?x = "payer addr (OneOfUser u)" and ?y = "payee addr (OneOfUser u)" and ?token = "oo_erc20Address u"
  from transfer_one [OF pays] obtain s where s: "ERC20_transfer ?x ?y 1 (tc_token ch) = Some s" "one_moved ?x ?y (tc_token ch) s"
    by blast
  have "balanceOf (tc_token ch) ?x < word_of_int overBalanceAmount"
    using over by (simp add: word_less_def overBalanceAmount_def uint_word_of_int)
  then have none: "ERC20_transfer ?x ?y (word_of_int overBalanceAmount) (tc_token ch) = None" by (rule transfer_too_much)
  let ?n = "if first then 1 else 2 :: u64"
  obtain sts where sts: "bu_plan b = OneOf sts"
    "run_first addr ?token other sts ch = Some (ch\<lparr>tc_nonce := (tc_nonce ch)(?x := tc_nonce ch ?x + ?n), tc_token := s\<rparr>)"
    using b(1) s(1) none by (cases first) (simp_all add: oneof_plan_def step_simps add.assoc)
  have "process b ch = ch\<lparr>tc_nonce := (tc_nonce ch)(?x := tc_nonce ch ?x + ?n), tc_token := s, tc_done := b # tc_done ch\<rparr>"
    using processed_first [OF proc sts(1) b(2) sts(2)] by simp
  then show ?thesis using s(2) b(1) by (cases first) (simp_all add: advanced_def oneof_plan_def Step_def Let_def)
qed

text \<open>
  The plans that are sent twice: one token arrives at the target, directly or by way of the second
  sender.
\<close>

lemma duplicated_advances:
  assumes proc: "bundle_processor addr (db_erc20Address u) other process"
    and env: "ev_address env = addr"
    and pays: "can_pay (payer addr (DuplicatedUser u)) (payee addr (DuplicatedUser u)) (tc_token ch)"
    and room: "uint (balanceOf (tc_token ch) (addr (ac_key (db_senderB u)))) + 1 < 2 ^ 256"
    and ne: "addr (ac_key (db_senderB u)) \<noteq> payer addr (DuplicatedUser u)"
      "addr (ac_key (db_senderB u)) \<noteq> payee addr (DuplicatedUser u)"
      "payer addr (DuplicatedUser u) \<noteq> payee addr (DuplicatedUser u)"
    and b: "bu_plan b = duplicated_plan env u oneOf (tc_nonce ch (payer addr (DuplicatedUser u)))
        (tc_nonce ch (addr (ac_key (db_senderB u))))" "b \<notin> set (tc_done ch)"
  shows "advanced addr (DuplicatedUser u) b ch (process b ch)"
proof -
  let ?x = "payer addr (DuplicatedUser u)" and ?y = "payee addr (DuplicatedUser u)" and ?z = "addr (ac_key (db_senderB u))"
  let ?token = "db_erc20Address u"
  show ?thesis
  proof (cases oneOf)
    case True
    from transfer_one [OF pays] obtain s where s: "ERC20_transfer ?x ?y 1 (tc_token ch) = Some s" "one_moved ?x ?y (tc_token ch) s"
      by blast
    obtain sts where sts: "bu_plan b = OneOf sts"
      "run_first addr ?token other sts ch = Some (ch\<lparr>tc_nonce := (tc_nonce ch)(?x := tc_nonce ch ?x + 1), tc_token := s\<rparr>)"
      using b(1) s(1) True by (simp add: duplicated_plan_def step_simps env)
    from processed_first [OF proc sts(1) b(2) sts(2)] s(2) b(1) True show ?thesis
      by (simp add: advanced_def duplicated_plan_def Step_def Let_def)
  next
    case False
    from pays room have "can_pay ?x ?z (tc_token ch)" by (simp add: can_pay_def)
    from transfer_one [OF this] obtain s1 where s1: "ERC20_transfer ?x ?z 1 (tc_token ch) = Some s1" "one_moved ?x ?z (tc_token ch) s1"
      by blast
    have "can_pay ?z ?y s1" using s1(2) pays ne by (simp add: can_pay_def one_moved_def)
    from transfer_one [OF this] obtain s2 where s2: "ERC20_transfer ?z ?y 1 s1 = Some s2" "one_moved ?z ?y s1 s2" by blast
    have moved: "one_moved ?x ?y (tc_token ch) s2" using s1(2) s2(2) by (simp add: one_moved_def)
    let ?n = "(tc_nonce ch)(?x := tc_nonce ch ?x + 1, ?z := tc_nonce ch ?z + 1)"
    obtain sts where sts: "bu_plan b = AllOf sts"
      "run_all addr ?token other sts ch = Some (ch\<lparr>tc_nonce := ?n, tc_token := s2\<rparr>)"
      using b(1) s1(1) s2(1) ne False by (simp add: duplicated_plan_def step_simps env)
    from processed_all [OF proc sts(1) b(2) sts(2)] moved b(1) False ne show ?thesis
      by (simp add: advanced_def duplicated_plan_def Step_def Let_def)
  qed
qed

text \<open>The sponsored approval: the payment to the registry has to succeed, which is code of the client.\<close>

lemma subsidized_advances:
  assumes proc: "bundle_processor addr (sb_erc20Address u) other process"
    and env: "ev_address env = addr"
    and reg: "sb_registryAddress u \<noteq> sb_erc20Address u" "\<And>st. tx_to (bs_tx st) = Some (sb_registryAddress u) \<Longrightarrow> other st"
    and pays: "can_pay (payer addr (SubsidizedUser u)) (payee addr (SubsidizedUser u)) (tc_token ch)"
    and wl: "\<not> token_whitelist (tc_token ch) (payee addr (SubsidizedUser u))"
    and ne: "payer addr (SubsidizedUser u) \<noteq> payee addr (SubsidizedUser u)"
    and b: "bu_plan b = subsidized_plan env u (tc_nonce ch (payee addr (SubsidizedUser u))) (tc_nonce ch (payer addr (SubsidizedUser u)))"
      "b \<notin> set (tc_done ch)"
  shows "advanced addr (SubsidizedUser u) b ch (process b ch)"
proof -
  let ?x = "payer addr (SubsidizedUser u)" and ?y = "payee addr (SubsidizedUser u)"
  from approve_and_claim [OF pays wl] obtain s1 s2 where s: "ERC20_approve ?x ?y 1 (tc_token ch) = Some s1"
    "ERC20_transferFrom ?y ?x ?y 1 s1 = Some s2" "one_moved ?x ?y (tc_token ch) s2" .
  let ?n = "(tc_nonce ch)(?x := tc_nonce ch ?x + 1, ?y := 2 + tc_nonce ch ?y)"
  obtain sts where sts: "bu_plan b = AllOf sts"
    "run_all addr (sb_erc20Address u) other sts ch = Some (ch\<lparr>tc_nonce := ?n, tc_token := s2\<rparr>)"
    using b(1) s(1,2) ne reg by (simp add: subsidized_plan_def step_simps env fun_upd_twist)
  from processed_all [OF proc sts(1) b(2) sts(2)] s(3) b(1) ne show ?thesis
    by (simp add: advanced_def subsidized_plan_def Step_def Let_def)
qed

section \<open>Rounds\<close>

text \<open>
  A run in which every bundle is processed before the next is generated, as the tests of the
  applications do it. A call that fails sends nothing.
\<close>

fun rounds :: "('d \<Rightarrow> 'c \<Rightarrow> 'u \<Rightarrow> (('e + 't) \<times> 'u) option) \<Rightarrow> ('t \<Rightarrow> 'c \<Rightarrow> 'c) \<Rightarrow> 'd list \<Rightarrow> 'u \<Rightarrow> 'c \<Rightarrow> ('u \<times> 'c) option" where
  "rounds gen proc [] u c = Some (u, c)"
| "rounds gen proc (d # ds) u c =
     (case gen d c u of
        None \<Rightarrow> None
      | Some (Inl _, u1) \<Rightarrow> rounds gen proc ds u1 c
      | Some (Inr t, u1) \<Rightarrow> rounds gen proc ds u1 (proc t c))"

text \<open>
  The contract of an application whose chain counts what its user counts, while the means of the user
  last for \<open>k\<close> more rounds.
\<close>

locale accounted_rounds =
  fixes gen :: "'d \<Rightarrow> 'c \<Rightarrow> 'u \<Rightarrow> (('e + 't) \<times> 'u) option"
    and proc :: "'t \<Rightarrow> 'c \<Rightarrow> 'c"
    and sent :: "'u \<Rightarrow> u64"
    and recv :: "'u \<Rightarrow> 'c \<Rightarrow> u64"
    and inv :: "nat \<Rightarrow> 'u \<Rightarrow> 'c \<Rightarrow> bool"
  assumes total_gen: "inv (Suc k) u c \<Longrightarrow> gen d c u \<noteq> None"
    and fail_step: "inv (Suc k) u c \<Longrightarrow> gen d c u = Some (Inl e, u') \<Longrightarrow> sent u' = sent u \<and> recv u' c = recv u c \<and> inv k u' c"
    and send_step: "inv (Suc k) u c \<Longrightarrow> gen d c u = Some (Inr t, u') \<Longrightarrow>
      recv u' (proc t c) - recv u c = sent u' - sent u \<and> inv k u' (proc t c)"
begin

lemma rounds_accounted:
  "inv (length ds) u c \<Longrightarrow> \<exists>u' c'. rounds gen proc ds u c = Some (u', c') \<and> recv u' c' - recv u c = sent u' - sent u"
proof (induction ds arbitrary: u c)
  case (Cons d ds)
  from Cons.prems have inv: "inv (Suc (length ds)) u c" by simp
  obtain r u1 where call: "gen d c u = Some (r, u1)" using total_gen [OF inv, of d] by auto
  show ?case
  proof (cases r)
    case (Inl e)
    with fail_step [OF inv] call have "sent u1 = sent u" "recv u1 c = recv u c" "inv (length ds) u1 c" by auto
    with Cons.IH [of u1 c] call Inl show ?thesis by simp
  next
    case (Inr t)
    with send_step [OF inv] call have step: "recv u1 (proc t c) - recv u c = sent u1 - sent u" "inv (length ds) u1 (proc t c)"
      by auto
    from Cons.IH [OF step(2)] obtain u' c' where rest: "rounds gen proc ds u1 (proc t c) = Some (u', c')"
      "recv u' c' - recv u1 (proc t c) = sent u' - sent u1" by blast
    have "recv u' c' - recv u c = (recv u' c' - recv u1 (proc t c)) + (recv u1 (proc t c) - recv u c)" by simp
    also have "\<dots> = sent u' - sent u" using rest(2) step(1) by simp
    finally show ?thesis using call Inr rest(1) by auto
  qed
qed simp

end

text \<open>The answers of the chain to a call: the draw decides whether a query is answered, the chain what.\<close>

definition answered :: "(nat list \<Rightarrow> address) \<Rightarrow> token_chain \<Rightarrow> draw \<Rightarrow> draw" where
  "answered addr ch d =
     d\<lparr>dr_env := (dr_env d)\<lparr>ev_address := addr\<rparr>,
       dr_view := (dr_view d)\<lparr>cv_pendingNonce :=
         (\<lambda>k. map_option (\<lambda>_. tc_nonce ch (addr k)) (cv_pendingNonce (dr_view d) k))\<rparr>\<rparr>"

definition GenerateTx_on :: "(nat list \<Rightarrow> address) \<Rightarrow> draw \<Rightarrow> token_chain \<Rightarrow> User \<Rightarrow> ((app_error + Transaction) \<times> User) option" where
  "GenerateTx_on addr d ch u = GenerateTx (answered addr ch d) u"

text \<open>
  The means of a user for \<open>k\<close> more bundles: tokens of the payer, room at the payee and in the nonces;
  the plans that were executed used nonces the first account has left behind.
\<close>

definition solvent :: "(nat list \<Rightarrow> address) \<Rightarrow> nat \<Rightarrow> User \<Rightarrow> token_chain \<Rightarrow> bool" where
  "solvent addr k u ch \<longleftrightarrow>
     payer addr u \<noteq> payee addr u \<and>
     int k \<le> uint (balanceOf (tc_token ch) (payer addr u)) \<and>
     uint (balanceOf (tc_token ch) (payee addr u)) + int k < 2 ^ 64 \<and>
     unat (tc_nonce ch (addr (lead u))) + 2 * k < 2 ^ 64 \<and>
     (\<forall>b\<in>set (tc_done ch). \<forall>st sts. plan_steps (bu_plan b) = st # sts \<longrightarrow> bs_key st = lead u \<longrightarrow>
        tx_nonce (bs_tx st) < tc_nonce ch (addr (lead u)))"

text \<open>What each kind of user needs besides.\<close>

fun equipped :: "(nat list \<Rightarrow> address) \<Rightarrow> (BuilderStep \<Rightarrow> bool) \<Rightarrow> User \<Rightarrow> token_chain \<Rightarrow> bool" where
  "equipped addr other (AllOfUser u) ch = (\<not> token_whitelist (tc_token ch) (addr (ac_key (ao_spender u))))"
| "equipped addr other (OneOfUser u) ch =
     (uint (balanceOf (tc_token ch) (addr (ac_key (oo_sender u)))) < overBalanceAmount)"
| "equipped addr other (DuplicatedUser u) ch =
     (let z = addr (ac_key (db_senderB u))
      in z \<noteq> addr (ac_key (db_senderA u)) \<and> z \<noteq> db_targetAddress u \<and> uint (balanceOf (tc_token ch) z) + 1 < 2 ^ 256 \<and>
         (\<forall>e. db_savedEnvelope u = Some e \<longrightarrow> db_usedCount u < duplicatedBundleThreshold \<longrightarrow> en_data e \<in> set (tc_done ch)))"
| "equipped addr other (SubsidizedUser u) ch =
     (\<not> token_whitelist (tc_token ch) (addr (ac_key (sb_sponsor u))) \<and> sb_registryAddress u \<noteq> sb_erc20Address u \<and>
      (\<forall>st. tx_to (bs_tx st) = Some (sb_registryAddress u) \<longrightarrow> other st))"
| "equipped addr other _ ch = False"

lemma solvent_can_pay: "solvent addr (Suc k) u ch \<Longrightarrow> can_pay (payer addr u) (payee addr u) (tc_token ch)"
  by (simp add: solvent_def can_pay_def)

lemma solvent_fresh:
  assumes "solvent addr k u ch" "plan_steps (bu_plan b) = st # sts" "bs_key st = lead u"
    "tx_nonce (bs_tx st) = tc_nonce ch (addr (lead u))"
  shows "b \<notin> set (tc_done ch)"
  using assms by (auto simp: solvent_def)

lemma solvent_mono: "solvent addr (Suc k) u ch \<Longrightarrow> solvent addr k u ch"
  by (auto simp: solvent_def)

lemma nonce_advances:
  fixes n m :: u64
  assumes "m - n \<in> {1, 2}" "unat n + 2 * Suc k < 2 ^ 64"
  shows "n < m" "unat m + 2 * k < 2 ^ 64"
proof -
  obtain j where j: "j \<in> {1, 2}" "m = n + of_nat j" using assms(1) by (metis add_diff_cancel_left' diff_add_cancel
        insert_iff of_nat_1 of_nat_numeral singletonD)
  then have "unat n + j < 2 ^ 64" using assms(2) by auto
  then have "unat m = unat n + j" using j by (simp add: unat_word_ariths unat_of_nat)
  with j assms(2) show "n < m" "unat m + 2 * k < 2 ^ 64" by (auto simp: word_less_nat_alt)
qed

lemma solvent_advanced:
  assumes "solvent addr (Suc k) u ch" "advanced addr u b ch ch'"
  shows "solvent addr k u ch'"
proof -
  let ?l = "addr (lead u)"
  from assms(2) have nonce: "tc_nonce ch' ?l - tc_nonce ch ?l \<in> {1, 2}" by (simp add: advanced_def)
  from assms(1) have room: "unat (tc_nonce ch ?l) + 2 * Suc k < 2 ^ 64" by (simp add: solvent_def)
  note adv = nonce_advances [OF nonce room]
  have "tx_nonce (bs_tx st) < tc_nonce ch' ?l"
    if "c \<in> set (tc_done ch')" "plan_steps (bu_plan c) = st # sts" "bs_key st = lead u" for c st sts
    using that assms adv(1) by (auto simp: advanced_def solvent_def intro: order.strict_trans)
  with assms adv(2) show ?thesis by (auto simp: solvent_def advanced_def one_moved_def)
qed

definition tokens_received :: "(nat list \<Rightarrow> address) \<Rightarrow> User \<Rightarrow> token_chain \<Rightarrow> u64" where
  "tokens_received addr u ch = big_Uint64 (uint (balanceOf (tc_token ch) (payee addr u)))"

lemma advanced_received:
  "payer addr u \<noteq> payee addr u \<Longrightarrow> advanced addr u b ch ch' \<Longrightarrow> tokens_received addr u ch' = tokens_received addr u ch + 1"
  by (simp add: tokens_received_def advanced_def one_moved_def big_Uint64_def)

text \<open>The client answers with the nonces of the chain.\<close>

definition sees :: "(nat list \<Rightarrow> address) \<Rightarrow> token_chain \<Rightarrow> chain_view \<Rightarrow> bool" where
  "sees addr ch cv \<longleftrightarrow> (\<forall>k n. cv_pendingNonce cv k = Some n \<longrightarrow> n = tc_nonce ch (addr k))"

text \<open>The plan of a new bundle, with the nonces of the chain, and what the call changes in the user.\<close>

lemma AllOf_new:
  assumes "AllOfBundle_GenerateTx env cv key u = (Inr t, u')"
    "sees addr ch cv"
  obtains e where "t = EnvelopeTx e" "u' = u\<lparr>ao_sentTxs := ao_sentTxs u + 1\<rparr>"
    "bu_plan (en_data e) = allof_plan env u (tc_nonce ch (addr (ac_key (ao_approver u)))) (tc_nonce ch (addr (ac_key (ao_spender u))))"
  using assms by (auto simp: sees_def AllOfBundle_GenerateTx_def Build_def Let_def split: if_splits option.splits)

lemma OneOf_new:
  assumes "OneOfBundle_GenerateTx env cv key first u = (Inr t, u')"
    "sees addr ch cv"
  obtains e where "t = EnvelopeTx e" "u' = u\<lparr>oo_sentTxs := oo_sentTxs u + 1\<rparr>"
    "bu_plan (en_data e) = oneof_plan u first (tc_nonce ch (addr (ac_key (oo_sender u))))"
  using assms by (auto simp: sees_def OneOfBundle_GenerateTx_def Build_def Let_def split: if_splits option.splits)

lemma Subsidized_new:
  assumes "SubsidizedBundle_GenerateTx env cv key u = (Inr t, u')"
    "sees addr ch cv"
  obtains e where "t = EnvelopeTx e" "u' = u\<lparr>sb_sentTxs := sb_sentTxs u + 1\<rparr>"
    "bu_plan (en_data e) = subsidized_plan env u (tc_nonce ch (addr (ac_key (sb_sponsor u)))) (tc_nonce ch (addr (ac_key (sb_user u))))"
  using assms by (auto simp: sees_def SubsidizedBundle_GenerateTx_def Build_def Let_def split: if_splits option.splits)

text \<open>A duplicated bundle is new, or carries the plan of the one before.\<close>

lemma Duplicated_cases:
  assumes "DuplicatedBundle_GenerateTx env cv key fresh signs oneOf u = (Inr t, u')"
    "sees addr ch cv"
  obtains (new) e where "t = EnvelopeTx e"
      "u' = u\<lparr>db_savedEnvelope := Some e, db_sentTxs := db_sentTxs u + 1, db_usedCount := 1\<rparr>"
      "bu_plan (en_data e) = duplicated_plan env u oneOf (tc_nonce ch (addr (ac_key (db_senderA u))))
         (tc_nonce ch (addr (ac_key (db_senderB u))))"
    | (again) e saved where "t = EnvelopeTx e" "u' = u\<lparr>db_usedCount := db_usedCount u + 1\<rparr>" "db_savedEnvelope u = Some saved"
      "db_usedCount u < duplicatedBundleThreshold" "en_data e = en_data saved"
  using assms by (auto simp: sees_def DuplicatedBundle_GenerateTx_def generateNewBundleTx_def generateNewEnvelopeForExistingBundle_def
      Build_def Let_def split: if_splits option.splits)

lemma answered_sees: "sees addr ch (dr_view (answered addr ch d))"
  by (auto simp: answered_def sees_def)

lemma answered_address [simp]: "ev_address (dr_env (answered addr ch d)) = addr"
  by (simp add: answered_def)

text \<open>The first step of a plan is of the leading account, at its next nonce.\<close>

lemma plan_leads:
  "plan_steps (allof_plan env u n m) = st # sts \<Longrightarrow> bs_key st = ac_key (ao_approver u) \<and> tx_nonce (bs_tx st) = n"
  "plan_steps (oneof_plan v first n) = st # sts \<Longrightarrow> bs_key st = ac_key (oo_sender v) \<and> tx_nonce (bs_tx st) = n"
  "plan_steps (duplicated_plan env w one n m) = st # sts \<Longrightarrow> bs_key st = ac_key (db_senderA w) \<and> tx_nonce (bs_tx st) = n"
  "plan_steps (subsidized_plan env x n m) = st # sts \<Longrightarrow> bs_key st = ac_key (sb_sponsor x) \<and> tx_nonce (bs_tx st) = n"
  by (auto simp: allof_plan_def oneof_plan_def duplicated_plan_def subsidized_plan_def Step_def Let_def split: if_splits)

lemma plan_nonempty:
  "\<exists>st sts. plan_steps (allof_plan env u n m) = st # sts"
  "\<exists>st sts. plan_steps (oneof_plan v first n) = st # sts"
  "\<exists>st sts. plan_steps (duplicated_plan env w one n m) = st # sts"
  "\<exists>st sts. plan_steps (subsidized_plan env x n m) = st # sts"
  by (auto simp: allof_plan_def oneof_plan_def duplicated_plan_def subsidized_plan_def Let_def)

text \<open>A new bundle of a user with means is executed: the token moves and the means last for the others.\<close>

definition sent_once :: "(nat list \<Rightarrow> address) \<Rightarrow> (BuilderStep \<Rightarrow> bool) \<Rightarrow> nat \<Rightarrow> User \<Rightarrow> User \<Rightarrow> token_chain \<Rightarrow> token_chain \<Rightarrow> bool" where
  "sent_once addr other k u u' ch ch' \<longleftrightarrow>
     tokens_received addr u' ch' - tokens_received addr u ch = GetSentTransactions_of u' - GetSentTransactions_of u \<and>
     solvent addr k u' ch' \<and> equipped addr other u' ch' \<and> user_token u' = user_token u"

lemma advanced_sent_once:
  assumes "solvent addr (Suc k) u ch" "advanced addr u b ch ch'"
    and "payer addr u' = payer addr u" "payee addr u' = payee addr u" "lead u' = lead u" "user_token u' = user_token u"
    and "GetSentTransactions_of u' = GetSentTransactions_of u + 1" "equipped addr other u' ch'"
  shows "sent_once addr other k u u' ch ch'"
proof -
  have "solvent addr k u' ch'" using solvent_advanced [OF assms(1,2)] assms(3-5) by (simp add: solvent_def)
  moreover have "tokens_received addr u' ch' = tokens_received addr u ch + 1"
    using advanced_received [OF _ assms(2)] assms(1,4) by (simp add: solvent_def tokens_received_def)
  ultimately show ?thesis using assms by (simp add: sent_once_def)
qed

lemma sent_once_AllOf:
  assumes proc: "bundle_processor addr (ao_erc20Address u) other process"
    and inv: "solvent addr (Suc k) (AllOfUser u) ch" "equipped addr other (AllOfUser u) ch"
    and call: "AllOfBundle_GenerateTx env cv key u = (Inr t, u')" "ev_address env = addr"
      "sees addr ch cv"
  shows "sent_once addr other k (AllOfUser u) (AllOfUser u') ch (process_tx process t ch)"
proof -
  from AllOf_new [OF call(1,3)] obtain e where e: "t = EnvelopeTx e" "u' = u\<lparr>ao_sentTxs := ao_sentTxs u + 1\<rparr>"
    "bu_plan (en_data e) = allof_plan env u (tc_nonce ch (payer addr (AllOfUser u))) (tc_nonce ch (payee addr (AllOfUser u)))"
    by auto
  obtain st sts where st: "plan_steps (bu_plan (en_data e)) = st # sts" using plan_nonempty(1) e(3) by metis
  have fresh: "en_data e \<notin> set (tc_done ch)"
    using solvent_fresh [OF inv(1) st] plan_leads(1) [OF st [unfolded e(3)]] by simp
  have adv: "advanced addr (AllOfUser u) (en_data e) ch (process (en_data e) ch)"
    using conjunct1 [OF allof_advances [OF proc call(2) solvent_can_pay [OF inv(1)] _ _ e(3) fresh]] inv
    by (simp add: solvent_def)
  show ?thesis
    using inv adv e by (intro advanced_sent_once [OF inv(1), of "en_data e"]) (auto simp: advanced_def one_moved_def)
qed

lemma sent_once_OneOf:
  assumes proc: "bundle_processor addr (oo_erc20Address u) other process"
    and inv: "solvent addr (Suc k) (OneOfUser u) ch" "equipped addr other (OneOfUser u) ch"
    and call: "OneOfBundle_GenerateTx env cv key first u = (Inr t, u')"
      "sees addr ch cv"
  shows "sent_once addr other k (OneOfUser u) (OneOfUser u') ch (process_tx process t ch)"
proof -
  from OneOf_new [OF call] obtain e where e: "t = EnvelopeTx e" "u' = u\<lparr>oo_sentTxs := oo_sentTxs u + 1\<rparr>"
    "bu_plan (en_data e) = oneof_plan u first (tc_nonce ch (payer addr (OneOfUser u)))"
    by auto
  obtain st sts where st: "plan_steps (bu_plan (en_data e)) = st # sts" using plan_nonempty(2) e(3) by metis
  have fresh: "en_data e \<notin> set (tc_done ch)"
    using solvent_fresh [OF inv(1) st] plan_leads(2) [OF st [unfolded e(3)]] by simp
  have adv: "advanced addr (OneOfUser u) (en_data e) ch (process (en_data e) ch)"
    using oneof_advances [OF proc solvent_can_pay [OF inv(1)] _ e(3) fresh] inv(2) by simp
  show ?thesis
    using inv adv e by (intro advanced_sent_once [OF inv(1), of "en_data e"]) (auto simp: advanced_def one_moved_def solvent_def)
qed

lemma sent_once_Subsidized:
  assumes proc: "bundle_processor addr (sb_erc20Address u) other process"
    and inv: "solvent addr (Suc k) (SubsidizedUser u) ch" "equipped addr other (SubsidizedUser u) ch"
    and call: "SubsidizedBundle_GenerateTx env cv key u = (Inr t, u')" "ev_address env = addr"
      "sees addr ch cv"
  shows "sent_once addr other k (SubsidizedUser u) (SubsidizedUser u') ch (process_tx process t ch)"
proof -
  from Subsidized_new [OF call(1,3)] obtain e where e: "t = EnvelopeTx e" "u' = u\<lparr>sb_sentTxs := sb_sentTxs u + 1\<rparr>"
    "bu_plan (en_data e) = subsidized_plan env u (tc_nonce ch (payee addr (SubsidizedUser u))) (tc_nonce ch (payer addr (SubsidizedUser u)))"
    by auto
  obtain st sts where st: "plan_steps (bu_plan (en_data e)) = st # sts" using plan_nonempty(4) e(3) by metis
  have fresh: "en_data e \<notin> set (tc_done ch)"
    using solvent_fresh [OF inv(1) st] plan_leads(4) [OF st [unfolded e(3)]] by simp
  have adv: "advanced addr (SubsidizedUser u) (en_data e) ch (process (en_data e) ch)"
    using subsidized_advances [OF proc call(2) _ _ solvent_can_pay [OF inv(1)] _ _ e(3) fresh] inv
    by (simp add: solvent_def)
  show ?thesis
    using inv adv e by (intro advanced_sent_once [OF inv(1), of "en_data e"]) (auto simp: advanced_def one_moved_def)
qed

lemma sent_once_Duplicated:
  assumes proc: "bundle_processor addr (db_erc20Address u) other process"
    and inv: "solvent addr (Suc k) (DuplicatedUser u) ch" "equipped addr other (DuplicatedUser u) ch"
    and call: "DuplicatedBundle_GenerateTx env cv key fresh signs oneOf u = (Inr t, u')" "ev_address env = addr"
      "sees addr ch cv"
  shows "sent_once addr other k (DuplicatedUser u) (DuplicatedUser u') ch (process_tx process t ch)"
  using call(1,3)
proof (cases rule: Duplicated_cases)
  case (new e)
  then have plan: "bu_plan (en_data e) = duplicated_plan env u oneOf (tc_nonce ch (payer addr (DuplicatedUser u)))
      (tc_nonce ch (addr (ac_key (db_senderB u))))" by simp
  obtain st sts where st: "plan_steps (bu_plan (en_data e)) = st # sts" using plan_nonempty(3) plan by metis
  have fresh: "en_data e \<notin> set (tc_done ch)"
    using solvent_fresh [OF inv(1) st] plan_leads(3) [OF st [unfolded plan]] by simp
  have adv: "advanced addr (DuplicatedUser u) (en_data e) ch (process (en_data e) ch)"
    using duplicated_advances [OF proc call(2) solvent_can_pay [OF inv(1)] _ _ _ _ plan fresh] inv
    by (simp add: solvent_def Let_def)
  show ?thesis
    using inv adv new by (intro advanced_sent_once [OF inv(1), of "en_data e"]) (auto simp: advanced_def one_moved_def Let_def)
next
  case (again e saved)
  with inv(2) have "en_data e \<in> set (tc_done ch)" by (simp add: Let_def)
  then have "process_tx process t ch = ch" using processed_before [OF proc] again(1) by simp
  with again inv solvent_mono [OF inv(1)] show ?thesis
    by (auto simp: sent_once_def Let_def solvent_def tokens_received_def duplicatedBundleThreshold_def)
qed

definition bundle_means ::
  "(nat list \<Rightarrow> address) \<Rightarrow> address \<Rightarrow> (BuilderStep \<Rightarrow> bool) \<Rightarrow> (Bundle \<Rightarrow> token_chain \<Rightarrow> token_chain) \<Rightarrow>
     nat \<Rightarrow> User \<Rightarrow> token_chain \<Rightarrow> bool" where
  "bundle_means addr token other process k u ch \<longleftrightarrow>
     bundle_processor addr token other process \<and> user_token u = token \<and> solvent addr k u ch \<and> equipped addr other u ch"

lemma bundle_call_fails:
  assumes "GenerateTx d u = Some (Inl e, u')" "equipped addr other u ch"
  shows "u' = u"
  using assms
  by (cases u) (auto simp: map_prod_def AllOfBundle_GenerateTx_def OneOfBundle_GenerateTx_def DuplicatedBundle_GenerateTx_def
      SubsidizedBundle_GenerateTx_def Let_def split: prod.splits if_splits option.splits sum.splits)

lemma bundle_call_sends:
  assumes "bundle_means addr token other process (Suc k) u ch" "GenerateTx_on addr d ch u = Some (Inr t, u')"
  shows "sent_once addr other k u u' ch (process_tx process t ch)"
proof -
  note sees = answered_sees [of addr ch d]
  from assms have proc: "bundle_processor addr (user_token u) other process"
    and inv: "solvent addr (Suc k) u ch" "equipped addr other u ch"
    and call: "GenerateTx (answered addr ch d) u = Some (Inr t, u')"
    by (auto simp: bundle_means_def GenerateTx_on_def)
  show ?thesis
  proof (cases u)
    case (AllOfUser x)
    with call obtain x' where "AllOfBundle_GenerateTx (dr_env (answered addr ch d)) (dr_view (answered addr ch d)) (dr_key (answered addr ch d)) x = (Inr t, x')"
      "u' = AllOfUser x'" by (auto simp: map_prod_def split: prod.splits)
    with AllOfUser proc inv sees show ?thesis by (auto intro: sent_once_AllOf)
  next
    case (OneOfUser x)
    with call obtain x' where "OneOfBundle_GenerateTx (dr_env (answered addr ch d)) (dr_view (answered addr ch d)) (dr_key (answered addr ch d))
        (dr_random (answered addr ch d) mod 2 = 0) x = (Inr t, x')" "u' = OneOfUser x'" by (auto simp: map_prod_def split: prod.splits)
    with OneOfUser proc inv sees show ?thesis by (auto intro: sent_once_OneOf)
  next
    case (DuplicatedUser x)
    with call obtain x' where "DuplicatedBundle_GenerateTx (dr_env (answered addr ch d)) (dr_view (answered addr ch d)) (dr_key (answered addr ch d))
        (dr_fresh (answered addr ch d)) (dr_signs (answered addr ch d)) (dr_random (answered addr ch d) mod 2 = 0) x = (Inr t, x')"
      "u' = DuplicatedUser x'" by (auto simp: map_prod_def split: prod.splits)
    with proc inv sees show ?thesis
      unfolding DuplicatedUser by (auto intro: sent_once_Duplicated simp del: equipped.simps)
  next
    case (SubsidizedUser x)
    with call obtain x' where "SubsidizedBundle_GenerateTx (dr_env (answered addr ch d)) (dr_view (answered addr ch d)) (dr_key (answered addr ch d)) x = (Inr t, x')"
      "u' = SubsidizedUser x'" by (auto simp: map_prod_def split: prod.splits)
    with proc inv sees show ?thesis
      unfolding SubsidizedUser by (auto intro: sent_once_Subsidized simp del: equipped.simps)
  qed (use inv in auto)
qed

interpretation br: accounted_rounds "GenerateTx_on addr" "process_tx process" GetSentTransactions_of "tokens_received addr"
    "bundle_means addr token other process" for addr token other process
proof unfold_locales
  fix k u ch d
  assume inv: "bundle_means addr token other process (Suc k) u ch"
  show "GenerateTx_on addr d ch u \<noteq> None"
    using inv by (cases u) (simp_all add: bundle_means_def GenerateTx_on_def)
  show "GetSentTransactions_of u' = GetSentTransactions_of u \<and> tokens_received addr u' ch = tokens_received addr u ch \<and>
      bundle_means addr token other process k u' ch" if "GenerateTx_on addr d ch u = Some (Inl e, u')" for e u'
    using inv that bundle_call_fails [of "answered addr ch d" u e u' addr other ch]
    by (auto simp: bundle_means_def GenerateTx_on_def intro: solvent_mono)
  show "tokens_received addr u' (process_tx process t ch) - tokens_received addr u ch =
      GetSentTransactions_of u' - GetSentTransactions_of u \<and>
      bundle_means addr token other process k u' (process_tx process t ch)"
    if "GenerateTx_on addr d ch u = Some (Inr t, u')" for t u'
    using inv bundle_call_sends [OF inv that] by (auto simp: bundle_means_def sent_once_def)
qed

section \<open>A processor that keeps the rules\<close>

definition reference_process ::
  "(nat list \<Rightarrow> address) \<Rightarrow> address \<Rightarrow> (BuilderStep \<Rightarrow> bool) \<Rightarrow> Bundle \<Rightarrow> token_chain \<Rightarrow> token_chain" where
  "reference_process addr token other b ch =
     (if b \<in> set (tc_done ch) then ch
      else case (case bu_plan b of AllOf sts \<Rightarrow> run_all addr token other sts ch | OneOf sts \<Rightarrow> run_first addr token other sts ch) of
             Some ch' \<Rightarrow> ch'\<lparr>tc_done := b # tc_done ch'\<rparr>
           | None \<Rightarrow> ch)"

lemma reference_process_ok: "bundle_processor addr token other (reference_process addr token other)"
  unfolding bundle_processor_def reference_process_def by (simp split: Plan.split option.split)

end
