(* ===== verification/Load_Apps_Properties.thy ===== *)
theory Load_Apps_Properties
  imports Load_Bundle_Runs
begin

text \<open>
  The load applications measure what they send: nonces without gaps, one transaction counted per
  transaction generated, and counts on the chain that agree with the counts of the users, for
  contracts that count, for tokens, and for bundles. The exceptions are stated as well.
\<close>

section \<open>A small network for the examples\<close>

definition example_env :: app_env where
  "example_env =
     \<lparr>ev_pack = (\<lambda>_. True), ev_sign = (\<lambda>_ _. True), ev_signAuth = (\<lambda>_. True), ev_transactor = (\<lambda>_. True),
      ev_bound = (\<lambda>_. True), ev_address = (\<lambda>k. of_nat (hd k)), ev_envelopeGas = (\<lambda>_. 300000)\<rparr>"

definition example_draw :: "nat \<Rightarrow> draw" where
  "example_draw r =
     \<lparr>dr_env = example_env, dr_view = \<lparr>cv_pendingNonce = (\<lambda>_. Some 0), cv_blockNumber = Some 7\<rparr>, dr_random = r,
      dr_chainID = 250, dr_points = [], dr_hash = None, dr_p256 = (\<lambda>_ _. None), dr_key = [99], dr_fresh = Some [98],
      dr_signs = True, dr_nanos = 5\<rparr>"

definition example_account :: "nat \<Rightarrow> u64 \<Rightarrow> Account" where
  "example_account k n = \<lparr>ac_key = [k], ac_nonce = n\<rparr>"

lemmas example_defs = example_env_def example_draw_def example_account_def

section \<open>Nonces and counts\<close>



section \<open>Contracts that count\<close>

lemma sum_generated_sent:
  assumes "\<And>i. i < n \<Longrightarrow> runs GenerateTx (ds i) (u i) = Some (rs i, u' i)"
    and "\<And>i d. i < n \<Longrightarrow> d \<in> set (ds i) \<Longrightarrow> attached d self (u i) c"
    and "\<And>i. i < n \<Longrightarrow> GetSentTransactions_of (u i) = 0"
  shows "(\<Sum>i<n. GetSentTransactions_of (u' i)) = (\<Sum>i<n. of_nat (length (generated (rs i))))"
proof (rule sum.cong [OF refl])
  fix i assume "i \<in> {..<n}"
  then have i: "i < n" by simp
  show "GetSentTransactions_of (u' i) = of_nat (length (generated (rs i)))"
  proof (cases "ds i")
    case Nil
    with assms(1,3) [OF i] show ?thesis by auto
  next
    case (Cons d ds')
    with assms(2) [OF i, of d] have "attached d self (u i) c" by simp
    then have "\<not> duplicates (u i)" by (cases "u i"; cases c) auto
    from cu.runs_sent [OF this assms(1) [OF i]] assms(3) [OF i] show ?thesis by simp
  qed
qed



section \<open>Tokens\<close>

text \<open>
  The token application. After the tokens were minted for its users, every transfer they generate
  is executed as long as no user sends more than it was given, in any order, and adding up the
  balances of the recipients gives the number of transfers, although each balance is cut to 64 bits.
\<close>

theorem token_transfers_received:
  assumes mint: "ERC20_mintForAll holders 1000000000000000000 (ERC20_new owner) = Some s"
    and transfers: "\<forall>t\<in>set ts. token_transfer addr self (eap_recipients app) t \<and> sender_of addr t \<in> set holders"
    and recipients: "eap_recipients app \<noteq> []" "distinct (eap_recipients app)" "set (eap_recipients app) \<inter> set holders = {}"
    and bound: "length ts \<le> 1000000000000000000"
  shows "\<exists>s'. execute_transfers addr self ts s = Some s' \<and>
    ERC20_GetReceivedTransactions (\<lambda>a. Some (balanceOf s' a)) app = Some (of_nat (length ts))"
proof -
  let ?r = "eap_recipients app"
  have loop: "mint_loop holders 1000000000000000000 (\<lambda>_. 0) = Some (balanceOf s)"
    using mint by (auto simp: ERC20_mintForAll_def ERC20_new_def split: Option.bind_split_asm)
  have bal: "uint (balanceOf s k) = int (count_list holders k) * 1000000000000000000" for k
    using mint_loop_Some [OF loop, of k] by simp
  have held: "1000000000000000000 \<le> uint (balanceOf s k)" if "k \<in> set holders" for k
  proof -
    from that have "count_list holders k \<noteq> 0" by (simp add: count_list_0_iff)
    then have "1 \<le> int (count_list holders k)" by linarith
    then show ?thesis unfolding bal by linarith
  qed
  have none: "uint (balanceOf s k) = 0" if "k \<in> set ?r" for k
    using that recipients(3) by (auto simp: bal count_list_0_iff)
  have sent: "int (count_list (map (sender_of addr) ts) a) \<le> uint (balanceOf s a)" for a
  proof (cases "a \<in> set (map (sender_of addr) ts)")
    case True
    with transfers have "a \<in> set holders" by auto
    then show ?thesis using held [of a] bound count_le_length [of "map (sender_of addr) ts" a] by simp
  next
    case False
    then show ?thesis by (simp add: count_list_0_iff [THEN iffD2])
  qed
  have "\<exists>s'. execute_transfers addr self ts s = Some s' \<and> tokens_of ?r s' = tokens_of ?r s + int (length ts)"
    by (rule execute_transfers_all) (use transfers recipients(1) sent none bound in auto)
  moreover have "tokens_of ?r s = 0" by (simp add: tokens_of_def none)
  ultimately show ?thesis
    by (auto simp: ERC20_GetReceivedTransactions_def received_balances_eq [OF recipients(2)])
qed

lemma token_call_example:
  "\<exists>t. GenerateTx (example_draw r) (TokenUser \<lparr>cu_sender = example_account 1 n, cu_contract = 42, cu_sentTxs = k, eu_recipients = [8, 9]\<rparr>) =
     Some (Inr t, TokenUser \<lparr>cu_sender = example_account 1 (n + 1), cu_contract = 42, cu_sentTxs = k + 1, eu_recipients = [8, 9]\<rparr>) \<and>
     token_transfer (\<lambda>_. 7) 42 [8, 9] t \<and> sender_of (\<lambda>_. 7) t = 7"
proof -
  let ?g = "\<lparr>cu_sender = example_account 1 n, cu_contract = 42, cu_sentTxs = k, eu_recipients = [8, 9]\<rparr>"
  obtain t where t: "GenerateTx (example_draw r) (TokenUser ?g) =
      Some (Inr t, TokenUser \<lparr>cu_sender = example_account 1 (n + 1), cu_contract = 42, cu_sentTxs = k + 1, eu_recipients = [8, 9]\<rparr>)"
    by (simp add: ERC20_GenerateTx_def example_defs createTx_def getNextNonce_def counted_def Let_def)
  have "token_transfer (\<lambda>_. 7) 42 [8, 9] t"
    unfolding token_transfer_def by (intro exI [of _ "example_draw r"] exI [of _ ?g] exI conjI, rule t) simp_all
  with t show ?thesis by (auto simp: sender_of_def)
qed

theorem token_transfers_received_witness:
  "\<exists>t1 t2 s s'. GenerateTx (example_draw 3) (TokenUser \<lparr>cu_sender = example_account 1 0, cu_contract = 42, cu_sentTxs = 0, eu_recipients = [8, 9]\<rparr>) =
       Some (Inr t1, TokenUser \<lparr>cu_sender = example_account 1 1, cu_contract = 42, cu_sentTxs = 1, eu_recipients = [8, 9]\<rparr>) \<and>
     ERC20_mintForAll [7, 6] 1000000000000000000 (ERC20_new 5) = Some s \<and> execute_transfers (\<lambda>_. 7) 42 [t1, t2] s = Some s' \<and>
     ERC20_GetReceivedTransactions (\<lambda>a. Some (balanceOf s' a))
       \<lparr>ap_contractAddress = 42, ap_accountFactory = NewAccountFactory 1 1, eap_recipients = [8, 9]\<rparr> = Some 2"
proof -
  obtain t1 t2 where t: "GenerateTx (example_draw 3) (TokenUser \<lparr>cu_sender = example_account 1 0, cu_contract = 42, cu_sentTxs = 0, eu_recipients = [8, 9]\<rparr>) =
       Some (Inr t1, TokenUser \<lparr>cu_sender = example_account 1 1, cu_contract = 42, cu_sentTxs = 1, eu_recipients = [8, 9]\<rparr>)"
      "token_transfer (\<lambda>_. 7) 42 [8, 9] t1" "sender_of (\<lambda>_. 7) t1 = 7"
      "token_transfer (\<lambda>_. 7) 42 [8, 9] t2" "sender_of (\<lambda>_. 7) t2 = 7"
    using token_call_example [of 3 0 0] token_call_example [of 4 1 1] by auto
  obtain s where s: "ERC20_mintForAll [7, 6] 1000000000000000000 (ERC20_new 5) = Some s"
    by (simp add: ERC20_mintForAll_def ERC20_new_def uint_add_def uint_mul_def)
  from token_transfers_received [OF s, of "[t1, t2]" "\<lambda>_. 7" 42
      "\<lparr>ap_contractAddress = 42, ap_accountFactory = NewAccountFactory 1 1, eap_recipients = [8, 9]\<rparr>"] t s
  show ?thesis by auto
qed

section \<open>Stored cells\<close>

lemma store_bounds:
  assumes "m * 260 + 520 < 2 ^ 63"
  shows "store_val (of_nat m) = int m + 1" "store_from (of_nat m) = 260 * (int m + 1)" "store_to (of_nat m) = 260 * (int m + 2)"
proof -
  have "int m * 260 + 520 < 2 ^ 63" using assms unfolding of_nat_less_iff [symmetric, where 'a = int] by simp
  then have small: "sint (word_of_int k :: u64) = k" if "0 \<le> k" "k \<le> 260 * (int m + 2)" for k
    using that by (simp add: signed_of_int signed_take_bit_int_eq_self)
  have "of_nat m + 1 = (word_of_int (int m + 1) :: u64)" by simp
  then show "store_val (of_nat m) = int m + 1" unfolding store_val_def using small [of "int m + 1"] by simp
  have "(of_nat m + 1) * word_of_int updateSize = (word_of_int (260 * (int m + 1)) :: u64)"
    by (simp add: updateSize_def algebra_simps)
  then show "store_from (of_nat m) = 260 * (int m + 1)" unfolding store_from_def using small [of "260 * (int m + 1)"] by simp
  have "(of_nat m + 1) * word_of_int updateSize + word_of_int updateSize = (word_of_int (260 * (int m + 2)) :: u64)"
    by (simp add: updateSize_def algebra_simps)
  then show "store_to (of_nat m) = 260 * (int m + 2)" unfolding store_to_def using small [of "260 * (int m + 2)"] by simp
qed

text \<open>What the fills of a user have left in the store after \<open>m\<close> of them.\<close>

definition filled :: "address \<Rightarrow> nat \<Rightarrow> Store \<Rightarrow> bool" where
  "filled a m s \<longleftrightarrow>
     (\<forall>key. st_data s a key = (if 260 \<le> key \<and> key < 260 * (int m + 1) then key div 260 else 0)) \<and> st_count s = int m"

lemma fill_next:
  assumes "filled a m s" "m * 260 + 520 < 2 ^ 63"
  shows "\<exists>s'. Store_fill a (store_from (of_nat m)) (store_to (of_nat m)) (store_val (of_nat m)) s = Some s' \<and> filled a (Suc m) s'"
proof -
  have "int m * 260 + 520 < 2 ^ 63" using assms(2) unfolding of_nat_less_iff [symmetric, where 'a = int] by simp
  then have room: "int_add (st_count s) 1 = Some (int m + 1)"
    using assms(1) by (simp add: int_add_def filled_def)
  have "fill_loop (260 * (int m + 1)) (260 * (int m + 2)) (int m + 1) (st_data s a) key =
      (if 260 \<le> key \<and> key < 260 * (int (Suc m) + 1) then key div 260 else 0)" for key
    using assms(1) by (auto simp: fill_loop_apply filled_def)
  with room show ?thesis by (simp add: Store_fill_def store_bounds [OF assms(2)] filled_def)
qed

lemma store_run:
  "runs GenerateTx ds (StoreUser g) = Some (map Inr ts, u') \<Longrightarrow> cu_sentTxs g = of_nat m \<Longrightarrow> cu_contract g = self \<Longrightarrow>
   filled (addr (ac_key (cu_sender g))) m s \<Longrightarrow> (m + length ts) * 260 + 520 < 2 ^ 63 \<Longrightarrow>
   \<exists>s'. execute_all addr self ts (StoreC s) = Some (StoreC s') \<and> filled (addr (ac_key (cu_sender g))) (m + length ts) s'"
proof (induction ds arbitrary: g m s ts)
  case (Cons d ds)
  let ?a = "addr (ac_key (cu_sender g))"
  from Cons.prems(1) obtain t g1 ts1 where call: "Store_GenerateTx (dr_env d) g = (Inr t, g1)"
    and rest: "runs GenerateTx ds (StoreUser g1) = Some (map Inr ts1, u')" and ts: "ts = t # ts1"
    by (auto simp: map_prod_def map_eq_Cons_conv Cons_eq_map_conv split: option.splits prod.splits)
  have g1: "cu_sentTxs g1 = of_nat (Suc m)" "cu_contract g1 = self" "ac_key (cu_sender g1) = ac_key (cu_sender g)"
    and t: "execute addr self t (StoreC s) =
      map_option StoreC (Store_fill ?a (store_from (of_nat m)) (store_to (of_nat m)) (store_val (of_nat m)) s)"
    using call Cons.prems(2,3)
    by (auto simp: Store_GenerateTx_def Let_def counted_def createTx_def getNextNonce_def split: if_splits)
  from Cons.prems(5) ts have "m * 260 + 520 < 2 ^ 63" by simp
  from fill_next [OF Cons.prems(4) this] t obtain s1 where s1: "execute addr self t (StoreC s) = Some (StoreC s1)"
    "filled ?a (Suc m) s1" by auto
  from Cons.IH [OF rest g1(1,2)] g1(3) s1(2) Cons.prems(5) ts obtain s' where
    "execute_all addr self ts1 (StoreC s1) = Some (StoreC s')" "filled ?a (Suc m + length ts1) s'" by auto
  with s1(1) ts show ?case by auto
qed simp

text \<open>
  The store application. Its transactions fill cells that no other transaction of the user touches:
  after \<open>n\<close> of them the cells of the user from 260 on hold the numbers of the fills, 260 cells for each,
  and nothing else is written.
\<close>

theorem store_fills_fresh_cells:
  assumes "runs GenerateTx ds (StoreUser (contract_user self a)) = Some (map Inr ts, u')" "length ts * 260 + 520 < 2 ^ 63"
  shows "\<exists>s. execute_all addr self ts (StoreC Store_new) = Some (StoreC s) \<and>
    (\<forall>key. Store_get (addr (ac_key a)) key s = (if 260 \<le> key \<and> key < 260 * (int (length ts) + 1) then key div 260 else 0))"
proof -
  have "filled (addr (ac_key (cu_sender (contract_user self a)))) 0 Store_new"
    by (auto simp: filled_def Store_new_def)
  from store_run [where addr = addr and m = 0 and s = Store_new, OF assms(1) _ _ this] assms(2) show ?thesis
    by (auto simp: contract_user_def filled_def Store_get_def)
qed

theorem store_fills_fresh_cells_witness:
  "\<exists>ts u' s. runs GenerateTx [example_draw 0, example_draw 0] (StoreUser (contract_user 42 (example_account 1 0))) = Some (map Inr ts, u') \<and>
     execute_all (\<lambda>_. 7) 42 ts (StoreC Store_new) = Some (StoreC s) \<and> Store_get 7 300 s = 1 \<and> Store_get 7 779 s = 2 \<and>
     Store_get 7 780 s = 0"
proof -
  obtain ts u' where run: "runs GenerateTx [example_draw 0, example_draw 0] (StoreUser (contract_user 42 (example_account 1 0))) = Some (map Inr ts, u')"
    "length ts = 2"
    by (simp add: Store_GenerateTx_def example_defs contract_user_def createTx_def getNextNonce_def counted_def Let_def
        map_eq_Cons_conv Cons_eq_map_conv)
  with store_fills_fresh_cells [OF run(1), of "\<lambda>_. 7"] show ?thesis by auto
qed

section \<open>Bundles\<close>

text \<open>
  C7: The applications of bundles. If every bundle is processed before the next one is generated, and as
  long as the means of the user last, the tokens its payee receives are the bundles it has counted:
  those with two steps in either order, those with an approval and a claim, those paid by a sponsor,
  and those that are sent twice under different envelopes.
\<close>

theorem bundles_received_equals_sent:
  assumes "bundle_means addr token other process (length ds) u ch"
  shows "\<exists>u' ch'. rounds (GenerateTx_on addr) (process_tx process) ds u ch = Some (u', ch') \<and>
    tokens_received addr u' ch' - tokens_received addr u ch = GetSentTransactions_of u' - GetSentTransactions_of u"
  using assms by (rule br.rounds_accounted)

definition example_chain :: token_chain where
  "example_chain =
     \<lparr>tc_nonce = (\<lambda>_. 0), tc_token = (ERC20_new 5)\<lparr>balanceOf := (\<lambda>a. if a = 1 then 1000 else 0)\<rparr>, tc_done = []\<rparr>"

definition example_bundler :: User where
  "example_bundler =
     DuplicatedUser \<lparr>db_erc20Address = 42, db_senderA = example_account 1 0, db_senderB = example_account 2 0,
       db_targetAddress = 3, db_sentTxs = 0, db_usedCount = 0, db_savedEnvelope = None\<rparr>"

theorem bundles_received_equals_sent_witness:
  "\<exists>u' ch'. rounds (GenerateTx_on (\<lambda>k. of_nat (hd k))) (process_tx (reference_process (\<lambda>k. of_nat (hd k)) 42 (\<lambda>_. True)))
       [example_draw 0, example_draw 0, example_draw 1] example_bundler example_chain = Some (u', ch') \<and>
     tokens_received (\<lambda>k. of_nat (hd k)) u' ch' - tokens_received (\<lambda>k. of_nat (hd k)) example_bundler example_chain =
       GetSentTransactions_of u' - GetSentTransactions_of example_bundler"
proof (rule bundles_received_equals_sent)
  show "bundle_means (\<lambda>k. of_nat (hd k)) 42 (\<lambda>_. True) (reference_process (\<lambda>k. of_nat (hd k)) 42 (\<lambda>_. True))
      (length [example_draw 0, example_draw 0, example_draw 1]) example_bundler example_chain"
    by (simp add: bundle_means_def reference_process_ok solvent_def example_chain_def example_bundler_def
        example_account_def ERC20_new_def)
qed

text \<open>
  The application of failing bundles counts differently: a bundle whose two steps both have to
  succeed is counted as one transaction sent, but adds two to what the application reads back, so that
  more is received than was sent.
\<close>

theorem failing_bundle_received_twice:
  assumes "FailingBundle_GenerateTx env cv key True nanos u = (Inr t, u')"
    and "\<And>a c. \<not> keccak a c timestamp (word_of_int nanos) mod 100 < unat allOfFailureProbability"
    and "0 \<le> Counter_getCount c" "Counter_getCount c < 2 ^ 63"
  shows "\<exists>e x y c1 c2. t = EnvelopeTx e \<and> plan_steps (bu_plan (en_data e)) = [x, y] \<and> bu_plan (en_data e) = AllOf [x, y] \<and>
    Failing_incrementCounter keccak (addr (bs_key x)) timestamp allOfFailureProbability (word_of_int nanos) c = Some c1 \<and>
    Failing_incrementCounter keccak (addr (bs_key y)) timestamp allOfFailureProbability (word_of_int nanos) c1 = Some c2 \<and>
    FailingBundle_GetReceivedTransactions (Some (Counter_getCount c2)) =
      Some (word_of_int (Counter_getCount c) + 2) \<and> fb_sentTxs u' = fb_sentTxs u + 1"
proof -
  have run: "Failing_incrementCounter keccak a timestamp allOfFailureProbability (word_of_int nanos) b = Some (b + 1)"
    if "0 \<le> b" "b \<le> 2 ^ 63 + 1" for a b
    using assms(2) that by (simp add: Failing_incrementCounter_def int_add_def)
  have two: "Failing_incrementCounter keccak a timestamp allOfFailureProbability (word_of_int nanos) c = Some (c + 1)"
    "Failing_incrementCounter keccak a timestamp allOfFailureProbability (word_of_int nanos) (c + 1) = Some (c + 2)" for a
    using run [of c] run [of "c + 1"] assms(3,4) by (simp_all add: Counter_getCount_def)
  have count: "FailingBundle_GetReceivedTransactions (Some (Counter_getCount (c + 2))) = Some (word_of_int (Counter_getCount c) + 2)"
    using assms(3) by (simp add: FailingBundle_GetReceivedTransactions_def Counter_getCount_def big_Uint64_def)
  from assms(1) show ?thesis
    by (auto simp: FailingBundle_GenerateTx_def failing_plan_def Build_def Let_def two count split: if_splits option.splits)
qed

theorem failing_bundle_received_twice_witness:
  "\<exists>e u' x y c1 c2. FailingBundle_GenerateTx example_env (dr_view (example_draw 0)) [9] True 5
       \<lparr>fb_contractAddress = 42, fb_senderA = example_account 1 0, fb_senderB = example_account 2 0, fb_sentTxs = 0\<rparr> = (Inr (EnvelopeTx e), u') \<and>
     bu_plan (en_data e) = AllOf [x, y] \<and>
     Failing_incrementCounter (\<lambda>_ _ _ _. 50) 1 0 allOfFailureProbability 5 1 = Some c1 \<and>
     Failing_incrementCounter (\<lambda>_ _ _ _. 50) 1 0 allOfFailureProbability 5 c1 = Some c2 \<and>
     FailingBundle_GetReceivedTransactions (Some (Counter_getCount c2)) = Some 2 \<and> fb_sentTxs u' = 1"
proof -
  let ?u = "\<lparr>fb_contractAddress = 42, fb_senderA = example_account 1 0, fb_senderB = example_account 2 0, fb_sentTxs = 0\<rparr>"
  obtain t u' where run: "FailingBundle_GenerateTx example_env (dr_view (example_draw 0)) [9] True 5 ?u = (Inr t, u')"
    by (simp add: FailingBundle_GenerateTx_def example_defs Let_def)
  from failing_bundle_received_twice [OF run, of "\<lambda>_ _ _ _. 50" 0 1 "\<lambda>_. 1"] run show ?thesis
    by (auto simp: allOfFailureProbability_def Counter_getCount_def)
qed

section \<open>The mix\<close>

text \<open>A call that sends the plan of the call before once more.\<close>

fun resends :: "User \<Rightarrow> bool" where
  "resends (DuplicatedUser u) = (db_savedEnvelope u \<noteq> None \<and> db_usedCount u < duplicatedBundleThreshold)"
| "resends _ = False"

definition chosen_user :: "int \<Rightarrow> MixUser \<Rightarrow> nat" where
  "chosen_user r u = pickRandomUser r
     \<lparr>mx_apps = mu_users u, mx_totalWeight = mu_totalWeight u, mx_cumulativeWeights = mu_cumulativeWeights u\<rparr>"

definition parts_sent :: "MixUser \<Rightarrow> u64" where
  "parts_sent u = sum_list (map GetSentTransactions_of (mu_users u))"

text \<open>How many transactions of a run repeat a plan.\<close>

fun resent :: "(int \<times> draw) list \<Rightarrow> MixUser \<Rightarrow> nat" where
  "resent [] u = 0"
| "resent ((r, d) # ds) u =
     (case Mix_GenerateTx r d u of
        None \<Rightarrow> 0
      | Some (t, u1) \<Rightarrow> (if \<not> isl t \<and> resends (mu_users u ! chosen_user r u) then 1 else 0) + resent ds u1)"

lemma GenerateTx_sent_all:
  assumes "GenerateTx d u = Some (r, u')"
  shows "GetSentTransactions_of u' = GetSentTransactions_of u + (if isl r \<or> resends u then 0 else 1)"
proof (cases "duplicates u")
  case True
  with assms show ?thesis
    by (cases u) (auto simp: map_prod_def DuplicatedBundle_GenerateTx_def split: prod.splits sum.splits if_splits)
next
  case False
  then have "\<not> resends u" by (cases u) auto
  with GenerateTx_sent [OF assms False] show ?thesis by simp
qed

lemma pick_from_less: "pick_from r i cs = Some j \<Longrightarrow> j < i + length cs"
  by (induction cs arbitrary: i) (fastforce split: if_splits)+

lemma chosen_user_less: "mu_cumulativeWeights u \<noteq> [] \<Longrightarrow> chosen_user r u < length (mu_cumulativeWeights u)"
  by (auto simp: chosen_user_def pickRandomUser_def dest: pick_from_less split: option.splits)

lemma sum_list_update_word:
  fixes f :: "'a \<Rightarrow> u64"
  shows "i < length xs \<Longrightarrow> sum_list (map f (xs[i := x])) = sum_list (map f xs) + (f x - f (xs ! i))"
  by (induction xs arbitrary: i) (auto simp: algebra_simps split: nat.splits)

lemma Mix_step:
  assumes call: "Mix_GenerateTx r d u = Some (t, u1)" and wf: "length (mu_cumulativeWeights u) = length (mu_users u)" "mu_users u \<noteq> []"
  shows "mu_sentTxs u1 - mu_sentTxs u = (parts_sent u1 - parts_sent u) + (if \<not> isl t \<and> resends (mu_users u ! chosen_user r u) then 1 else 0) \<and>
    length (mu_cumulativeWeights u1) = length (mu_users u1) \<and> mu_users u1 \<noteq> []"
proof -
  let ?i = "chosen_user r u"
  from call obtain w where w: "GenerateTx d (mu_users u ! ?i) = Some (t, w)"
    "mu_users u1 = (mu_users u)[?i := w]" "mu_cumulativeWeights u1 = mu_cumulativeWeights u"
    "mu_sentTxs u1 = mu_sentTxs u + (if isl t then 0 else 1)"
    by (cases t) (auto simp: Mix_GenerateTx_def chosen_user_def Let_def)
  from wf have "mu_cumulativeWeights u \<noteq> []" by auto
  then have "?i < length (mu_users u)" using chosen_user_less [of u r] wf(1) by simp
  then have "parts_sent u1 = parts_sent u + (GetSentTransactions_of w - GetSentTransactions_of (mu_users u ! ?i))"
    by (simp add: parts_sent_def w sum_list_update_word)
  with w wf GenerateTx_sent_all [OF w(1)] show ?thesis by auto
qed

text \<open>
  The user of the mix counts every transaction its parts generate, also the second envelope of a
  duplicated bundle, which the part does not count and which cannot be executed again: the mix counts
  as sent what its parts have counted and, besides, every repeated plan.
\<close>

theorem mix_counts_repeated_plans:
  assumes "runs (\<lambda>(r, d). Mix_GenerateTx r d) ds u = Some (rs, u')"
    and "length (mu_cumulativeWeights u) = length (mu_users u)" "mu_users u \<noteq> []"
  shows "mu_sentTxs u' = mu_sentTxs u + of_nat (length (generated rs)) \<and>
    mu_sentTxs u' - mu_sentTxs u = (parts_sent u' - parts_sent u) + of_nat (resent ds u)"
proof -
  have "mu_sentTxs u' - mu_sentTxs u = (parts_sent u' - parts_sent u) + of_nat (resent ds u)"
    using assms
  proof (induction ds arbitrary: u rs)
    case (Cons rd ds)
    obtain r d where rd: "rd = (r, d)" by (cases rd)
    from Cons.prems(1) rd obtain t u1 rs1 where call: "Mix_GenerateTx r d u = Some (t, u1)"
      and rest: "runs (\<lambda>(r, d). Mix_GenerateTx r d) ds u1 = Some (rs1, u')"
      by (auto split: option.splits prod.splits)
    note step = Mix_step [OF call Cons.prems(2,3)]
    let ?x = "if \<not> isl t \<and> resends (mu_users u ! chosen_user r u) then 1 else 0"
    from Cons.IH [OF rest] step have ih: "mu_sentTxs u' - mu_sentTxs u1 = (parts_sent u' - parts_sent u1) + of_nat (resent ds u1)" by simp
    have "mu_sentTxs u' - mu_sentTxs u = (mu_sentTxs u' - mu_sentTxs u1) + (mu_sentTxs u1 - mu_sentTxs u)" by simp
    also have "\<dots> = ((parts_sent u' - parts_sent u1) + of_nat (resent ds u1)) + ((parts_sent u1 - parts_sent u) + ?x)"
      using ih step by simp
    also have "\<dots> = (parts_sent u' - parts_sent u) + of_nat (resent (rd # ds) u)"
      using rd call by (simp add: algebra_simps)
    finally show ?case .
  qed simp
  with mu.runs_sent [OF TrueI assms(1)] show ?thesis by simp
qed

theorem mix_counts_repeated_plans_witness:
  "\<exists>rs u'. runs (\<lambda>(r, d). Mix_GenerateTx r d) [(0, example_draw 0), (0, example_draw 0)]
       \<lparr>mu_users = [DuplicatedUser \<lparr>db_erc20Address = 42, db_senderA = example_account 1 0, db_senderB = example_account 2 0,
          db_targetAddress = 3, db_sentTxs = 0, db_usedCount = 0, db_savedEnvelope = None\<rparr>], mu_totalWeight = 1, mu_cumulativeWeights = [1],
        mu_sentTxs = 0\<rparr> = Some (rs, u') \<and> mu_sentTxs u' = 2 \<and> parts_sent u' = 1"
proof -
  let ?u = "\<lparr>mu_users = [DuplicatedUser \<lparr>db_erc20Address = 42, db_senderA = example_account 1 0, db_senderB = example_account 2 0,
      db_targetAddress = 3, db_sentTxs = 0, db_usedCount = 0, db_savedEnvelope = None\<rparr>], mu_totalWeight = 1, mu_cumulativeWeights = [1],
      mu_sentTxs = 0\<rparr>"
  let ?ds = "[(0, example_draw 0), (0, example_draw 0)]"
  note defs = Mix_GenerateTx_def pickRandomUser_def chosen_user_def DuplicatedBundle_GenerateTx_def generateNewBundleTx_def
    generateNewEnvelopeForExistingBundle_def duplicatedBundleThreshold_def example_defs Let_def
  obtain rs u' where run: "runs (\<lambda>(r, d). Mix_GenerateTx r d) ?ds ?u = Some (rs, u')" "length (generated rs) = 2"
    by (simp add: defs)
  have "resent ?ds ?u = 1" by (simp add: defs)
  with mix_counts_repeated_plans [OF run(1)] run show ?thesis by (auto simp: parts_sent_def algebra_simps)
qed

end
