(* ===== verification/Go_Outcome.thy ===== *)
theory Go_Outcome
  imports Main
begin

text \<open>
  Operations that return, panic or block, and runs of events that such operations handle.
\<close>

section \<open>Outcomes\<close>

text \<open>An operation returns, panics, or cannot go on in this state.\<close>

datatype go_panic = CloseOfClosed | CloseOfNil | SendOnClosed | NilDereference | UnsupportedType | FailedAssertion

datatype 'a outcome = Ret 'a | Panic go_panic | Blocked

primrec bind_outcome :: "'a outcome \<Rightarrow> ('a \<Rightarrow> 'b outcome) \<Rightarrow> 'b outcome" where
  "bind_outcome (Ret x) f = f x"
| "bind_outcome (Panic p) f = Panic p"
| "bind_outcome Blocked f = Blocked"

fun run_events :: "('e \<Rightarrow> 'st \<Rightarrow> 'st outcome) \<Rightarrow> 'e list \<Rightarrow> 'st \<Rightarrow> 'st outcome" where
  "run_events feed [] st = Ret st"
| "run_events feed (e # es) st = bind_outcome (feed e st) (run_events feed es)"

lemma bind_outcome_Ret: "bind_outcome m f = Ret y \<longleftrightarrow> (\<exists>x. m = Ret x \<and> f x = Ret y)"
  by (cases m) auto

lemma run_events_append: "run_events feed (es @ fs) st = bind_outcome (run_events feed es st) (run_events feed fs)"
proof (induction es arbitrary: st)
  case (Cons e es)
  then show ?case by (cases "feed e st") auto
qed simp

end
