(* ===== verification/Monitor_Periodic.thy ===== *)
theory Monitor_Periodic
  imports Txmon_Series Monitor_Sources Go_Outcome
begin

text \<open>
  Sources that sample: the periodic source (\<open>driver/monitoring/utils/periodic_source.go\<close>) with its variants per node,
  application and user, the number of nodes, the stakes of the validators and the sources of Prometheus metrics. What they have
  in common, that events append samples to series, is the locale \<open>sampled_source\<close>.
\<close>

section \<open>Appending samples\<close>

definition append_all :: "('k :: linorder \<times> 'v) list \<Rightarrow> ('k, 'v) SyncedSeries \<Rightarrow> ('k, 'v) SyncedSeries" where
  "append_all ps s = fold (\<lambda>(p, v) s. snd (Synced_Append p v s)) ps s"

definition sample_points :: "('k \<times> 'v) list \<Rightarrow> ('k, 'v) SyncedSeries" where
  "sample_points ps = map (\<lambda>(p, v). \<lparr>Position = p, Value = v\<rparr>) ps"

lemma append_all_Nil [simp]: "append_all [] s = s"
  by (simp add: append_all_def)

lemma append_all_Cons [simp]: "append_all ((p, v) # ps) s = append_all ps (snd (Synced_Append p v s))"
  by (simp add: append_all_def)

lemma append_all_append: "append_all (ps @ qs) s = append_all qs (append_all ps s)"
  by (simp add: append_all_def)

lemma append_all_wf: "synced_wf s \<Longrightarrow> synced_wf (append_all ps s)"
  by (induction ps arbitrary: s) (auto simp: Synced_Append_wf)

lemma append_all_increasing:
  assumes "sorted_wrt (<) (map Position s @ map fst ps)"
  shows "append_all ps s = s @ sample_points ps"
  using assms
proof (induction ps arbitrary: s)
  case (Cons pv ps)
  obtain p v where pv: "pv = (p, v)" by (cases pv)
  have "Position (s ! (length s - 1)) < p" if "s \<noteq> []"
    using Cons.prems that by (auto simp: pv sorted_wrt_append)
  then have step: "snd (Synced_Append p v s) = s @ [\<lparr>Position = p, Value = v\<rparr>]"
    by (auto simp: Synced_Append_def)
  have "append_all ps (s @ [\<lparr>Position = p, Value = v\<rparr>]) = (s @ [\<lparr>Position = p, Value = v\<rparr>]) @ sample_points ps"
    using Cons.prems by (intro Cons.IH) (simp add: pv)
  then show ?case by (simp add: pv step sample_points_def)
qed (simp add: sample_points_def)

text \<open>
  A source whose events feed samples to the series of its subjects: \<open>points\<close> is the series of a subject, empty if there is
  none, and \<open>samples\<close> what an event contributes to it.
\<close>

locale sampled_source =
  fixes feed :: "'e \<Rightarrow> 'st \<Rightarrow> 'st outcome"
    and points :: "'st \<Rightarrow> 's \<Rightarrow> (u64, 'v) SyncedSeries"
    and samples :: "'s \<Rightarrow> 'e \<Rightarrow> (u64 \<times> 'v) list"
  assumes feed_points: "feed e st = Ret st' \<Longrightarrow> points st' x = append_all (samples x e) (points st x)"
begin

lemma run_points:
  "run_events feed es st = Ret st' \<Longrightarrow> points st' x = append_all (concat (map (samples x) es)) (points st x)"
  by (induction es arbitrary: st) (auto simp: bind_outcome_Ret feed_points append_all_append)

lemma run_wf: "run_events feed es st = Ret st' \<Longrightarrow> synced_wf (points st x) \<Longrightarrow> synced_wf (points st' x)"
  by (simp add: run_points append_all_wf)

text \<open>Samples at increasing times are all kept, in order.\<close>

lemma run_records:
  assumes "run_events feed es st = Ret st'" "points st x = []"
    and "sorted_wrt (<) (map fst (concat (map (samples x) es)))"
  shows "points st' x = sample_points (concat (map (samples x) es))"
  using assms by (simp add: run_points append_all_increasing)

end

text \<open>The series of a subject in a source of series, and appending to it.\<close>

definition series_of :: "('s, 'k, 'v) SeriesSource \<Rightarrow> 's \<Rightarrow> ('k, 'v) SyncedSeries" where
  "series_of d x = (case Source_GetData x d of None \<Rightarrow> [] | Some s \<Rightarrow> s)"

definition append_to :: "'s \<Rightarrow> 'k :: linorder \<Rightarrow> 'v \<Rightarrow> ('s, 'k, 'v) SeriesSource \<Rightarrow> append_error option \<times> ('s, 'k, 'v) SeriesSource" where
  "append_to x p v d =
     (let d1 = GetOrAddSubject x d; (err, ser) = Synced_Append p v (series_of d1 x) in (err, gm_set x ser d1))"

lemma series_of_set [simp]: "series_of (gm_set x s d) y = (if x = y then s else series_of d y)"
  by (auto simp: series_of_def Source_GetData_def gomap_simps)

lemma series_of_add [simp]: "series_of (GetOrAddSubject x d) y = series_of d y"
  by (auto simp: series_of_def Source_GetData_def GetOrAddSubject_def gomap_simps)

lemma append_to_series: "series_of (snd (append_to x p v d)) y = (if x = y then snd (Synced_Append p v (series_of d x)) else series_of d y)"
  by (simp add: append_to_def Let_def split_beta)

section \<open>The periodic source\<close>

text \<open>
  A process collects the readings of one sensor: whether the sensor is there, whether its stop channel is closed, in which case
  the goroutine has ended, and the errors it has met so far. \<open>Stop\<close> closes the channel and waits for these errors, which
  \<open>Done\<close> sends; a tick that the goroutine takes before it notices comes before the operation that stops it.
\<close>

datatype 'v reading = ReadOk 'v | ReadEmptyNetwork | ReadError string

datatype periodic_error = SensorFailed string | AppendFailed append_error

record process =
  pr_sensor :: bool
  pr_stopped :: bool
  pr_errs :: "periodic_error list"

definition process_Stop :: "process \<Rightarrow> (periodic_error list \<times> process) outcome" where
  "process_Stop p = (if pr_stopped p then Panic CloseOfClosed else Ret (pr_errs p, p\<lparr>pr_stopped := True\<rparr>))"

record ('s, 'v) PeriodicDataSource =
  pd_series :: "('s, u64, 'v) SeriesSource"
  pd_subjects :: "('s, process) gomap"

definition NewPeriodicDataSource :: "('s, 'v) PeriodicDataSource" where
  "NewPeriodicDataSource = \<lparr>pd_series = [], pd_subjects = []\<rparr>"

fun stop_all :: "('s, process) gomap \<Rightarrow> (periodic_error list \<times> ('s, process) gomap) outcome" where
  "stop_all [] = Ret ([], [])"
| "stop_all ((x, p) # m) =
     bind_outcome (process_Stop p) (\<lambda>(errs, p1). bind_outcome (stop_all m) (\<lambda>(errs1, m1). Ret (errs @ errs1, (x, p1) # m1)))"

definition Periodic_Shutdown :: "('s, 'v) PeriodicDataSource \<Rightarrow> (periodic_error list \<times> ('s, 'v) PeriodicDataSource) outcome" where
  "Periodic_Shutdown s = bind_outcome (stop_all (pd_subjects s)) (\<lambda>(errs, m). Ret (errs, s\<lparr>pd_subjects := m\<rparr>))"

definition AddSubject :: "'s \<Rightarrow> bool \<Rightarrow> ('s, 'v) PeriodicDataSource \<Rightarrow> ('s, 'v) PeriodicDataSource outcome" where
  "AddSubject subject sensor s =
     bind_outcome
       (case gm_get (pd_subjects s) subject of None \<Rightarrow> Ret () | Some running \<Rightarrow> bind_outcome (process_Stop running) (\<lambda>_. Ret ()))
       (\<lambda>_. Ret (s\<lparr>pd_series := GetOrAddSubject subject (pd_series s),
                   pd_subjects := gm_set subject \<lparr>pr_sensor = sensor, pr_stopped = False, pr_errs = []\<rparr> (pd_subjects s)\<rparr>))"

definition RemoveSubject :: "'s \<Rightarrow> ('s, 'v) PeriodicDataSource \<Rightarrow> (periodic_error list \<times> ('s, 'v) PeriodicDataSource) outcome" where
  "RemoveSubject subject s =
     (case gm_get (pd_subjects s) subject of
        Some p \<Rightarrow> bind_outcome (process_Stop p) (\<lambda>(errs, _). Ret (errs, s\<lparr>pd_subjects := gm_del subject (pd_subjects s)\<rparr>))
      | None \<Rightarrow> Ret ([], s))"

text \<open>One tick of the goroutine of a subject, with what its sensor reads.\<close>

definition collect :: "'s \<Rightarrow> gotime \<Rightarrow> 'v reading \<Rightarrow> ('s, 'v) PeriodicDataSource \<Rightarrow> ('s, 'v) PeriodicDataSource outcome" where
  "collect subject now answer s =
     (case gm_get (pd_subjects s) subject of
        None \<Rightarrow> Blocked
      | Some p \<Rightarrow>
          if pr_stopped p then Blocked
          else if \<not> pr_sensor p then Panic NilDereference
          else
            let fail = (\<lambda>err. Ret (s\<lparr>pd_subjects := gm_set subject (p\<lparr>pr_errs := pr_errs p @ [err]\<rparr>) (pd_subjects s)\<rparr>))
            in case answer of
                 ReadError err \<Rightarrow> fail (SensorFailed err)
               | ReadEmptyNetwork \<Rightarrow> Ret s
               | ReadOk v \<Rightarrow>
                   (case Synced_Append (NewTime now) v (series_of (pd_series s) subject) of
                      (None, ser) \<Rightarrow> Ret (s\<lparr>pd_series := gm_set subject ser (pd_series s)\<rparr>)
                    | (Some err, _) \<Rightarrow> fail (AppendFailed err)))"

section \<open>Sources per node, application and user\<close>

text \<open>\<open>created\<close> is whether the factory returns a sensor.\<close>

definition periodicNode_AfterNodeCreation ::
  "string \<Rightarrow> bool \<Rightarrow> (string, 'v) PeriodicDataSource \<Rightarrow> (string, 'v) PeriodicDataSource outcome" where
  "periodicNode_AfterNodeCreation label created s = AddSubject label created s"

definition periodicNode_BeforeNodeRemoval ::
  "string \<Rightarrow> (string, 'v) PeriodicDataSource \<Rightarrow> (periodic_error list \<times> (string, 'v) PeriodicDataSource) outcome" where
  "periodicNode_BeforeNodeRemoval label s = RemoveSubject label s"

fun newPeriodicNodeDataSource ::
  "(string \<times> bool) list \<Rightarrow> (string, 'v) PeriodicDataSource \<Rightarrow> (string, 'v) PeriodicDataSource outcome" where
  "newPeriodicNodeDataSource [] s = Ret s"
| "newPeriodicNodeDataSource ((label, created) # active) s =
     bind_outcome (periodicNode_AfterNodeCreation label created s) (newPeriodicNodeDataSource active)"

definition periodicApp_AfterApplicationCreation ::
  "string \<Rightarrow> bool \<Rightarrow> (string, 'v) PeriodicDataSource \<Rightarrow> (string, 'v) PeriodicDataSource outcome" where
  "periodicApp_AfterApplicationCreation label created s = (if created then AddSubject label True s else Ret s)"

fun newPeriodicAppDataSource ::
  "(string \<times> bool) list \<Rightarrow> (string, 'v) PeriodicDataSource \<Rightarrow> (string, 'v) PeriodicDataSource outcome" where
  "newPeriodicAppDataSource [] s = Ret s"
| "newPeriodicAppDataSource ((label, created) # active) s =
     bind_outcome (periodicApp_AfterApplicationCreation label created s) (newPeriodicAppDataSource active)"

fun add_users ::
  "string \<Rightarrow> (nat \<Rightarrow> bool) \<Rightarrow> nat list \<Rightarrow> (string \<times> nat, 'v) PeriodicDataSource \<Rightarrow> (string \<times> nat, 'v) PeriodicDataSource outcome" where
  "add_users label created [] s = Ret s"
| "add_users label created (i # is) s =
     (if created i then bind_outcome (AddSubject (label, i) True s) (add_users label created is) else Ret s)"

definition periodicUser_AfterApplicationCreation ::
  "string \<Rightarrow> nat \<Rightarrow> (nat \<Rightarrow> bool) \<Rightarrow> (string \<times> nat, 'v) PeriodicDataSource \<Rightarrow> (string \<times> nat, 'v) PeriodicDataSource outcome" where
  "periodicUser_AfterApplicationCreation label users created s = add_users label created [0..<users] s"

fun newPeriodicUserDataSource ::
  "(string \<times> nat \<times> (nat \<Rightarrow> bool)) list \<Rightarrow> (string \<times> nat, 'v) PeriodicDataSource \<Rightarrow> (string \<times> nat, 'v) PeriodicDataSource outcome" where
  "newPeriodicUserDataSource [] s = Ret s"
| "newPeriodicUserDataSource ((label, users, created) # active) s =
     bind_outcome (periodicUser_AfterApplicationCreation label users created s) (newPeriodicUserDataSource active)"

section \<open>Sensors\<close>

text \<open>\<open>%d\<close> of \<open>fmt\<close>.\<close>

definition fmt_d :: "int \<Rightarrow> string" where
  "fmt_d n = (if n < 0 then ''-'' @ itoa (nat (- n)) else itoa (nat n))"

text \<open>
  The counts of transactions and the progress of a node. The answer of \<open>eth_getBlockByNumber\<close> is a map of fields;
  the type assertion on a field that is missing panics. \<open>parse\<close> is \<open>strconv.ParseUint\<close> with base 0.
\<close>

definition sentTransactionsSensor_ReadValue :: "string + u64 \<Rightarrow> int reading" where
  "sentTransactionsSensor_ReadValue answer = (case answer of Inl err \<Rightarrow> ReadError err | Inr n \<Rightarrow> ReadOk (sint n))"

definition receivedTransactionsSensor_ReadValue :: "string + u64 \<Rightarrow> int reading" where
  "receivedTransactionsSensor_ReadValue answer = (case answer of Inl err \<Rightarrow> ReadError err | Inr n \<Rightarrow> ReadOk (sint n))"

record BlockStatus =
  bst_Epoch :: u64
  bst_BlockHeight :: u64

definition blockProgressSensor_ReadValue ::
  "(string \<Rightarrow> u64 option) \<Rightarrow> string + (string, string) gomap \<Rightarrow> BlockStatus reading outcome" where
  "blockProgressSensor_ReadValue parse answer =
     (case answer of
        Inl err \<Rightarrow> Ret (ReadError err)
      | Inr raw \<Rightarrow>
          (case gm_get raw ''epoch'' of
             None \<Rightarrow> Panic FailedAssertion
           | Some e \<Rightarrow>
               (case parse e of
                  None \<Rightarrow> Ret (ReadError ''invalid syntax'')
                | Some epoch \<Rightarrow>
                    (case gm_get raw ''number'' of
                       None \<Rightarrow> Panic FailedAssertion
                     | Some n \<Rightarrow>
                         (case parse n of
                            None \<Rightarrow> Ret (ReadError ''invalid syntax'')
                          | Some number \<Rightarrow> Ret (ReadOk \<lparr>bst_Epoch = epoch, bst_BlockHeight = number\<rparr>))))))"

text \<open>
  A profile of a node: fetched from its debug service, here with the answers of the service as arguments, and written to a numbered file. The number is
  taken before the file is written.
\<close>

definition GetPprofData :: "string + string \<Rightarrow> (string \<Rightarrow> string + nat \<times> string) \<Rightarrow> int \<Rightarrow> string + string" where
  "GetPprofData service get seconds =
     (case service of
        Inl err \<Rightarrow> Inl (''node does not offer the pprof service: '' @ err)
      | Inr url \<Rightarrow>
          (case get (url @ ''/debug/pprof/profile?seconds='' @ fmt_d seconds) of
             Inl err \<Rightarrow> Inl err
           | Inr (status, body) \<Rightarrow> if status \<noteq> 200 then Inl ''failed to fetch result'' else Inr body))"

definition pad6 :: "string \<Rightarrow> string" where
  "pad6 s = replicate (6 - length s) (CHR ''0'') @ s"

record cpuProfileSensor =
  cp_label :: string
  cp_seconds :: int
  cp_outputDir :: string
  cp_numProfiles :: nat

definition cpuProfileSensor_ReadValue ::
  "string + string \<Rightarrow> (string \<Rightarrow> string + nat \<times> string) \<Rightarrow> (string \<Rightarrow> bool) \<Rightarrow> (string \<Rightarrow> string \<Rightarrow> bool) \<Rightarrow>
     cpuProfileSensor \<Rightarrow> string reading \<times> cpuProfileSensor" where
  "cpuProfileSensor_ReadValue service get mkdir write_file s =
     (case GetPprofData service get (cp_seconds s) of
        Inl err \<Rightarrow> (ReadError err, s)
      | Inr data \<Rightarrow>
          (let dir = cp_outputDir s @ ''/cpu_profiles/'' @ cp_label s
           in if \<not> mkdir dir then (ReadError ''mkdir'', s)
              else
                let filename = dir @ ''/'' @ pad6 (itoa (cp_numProfiles s)) @ ''.prof'';
                    s1 = s\<lparr>cp_numProfiles := cp_numProfiles s + 1\<rparr>
                in if write_file filename data then (ReadOk filename, s1) else (ReadError ''write'', s1)))"

section \<open>One tracker per monitor\<close>

text \<open>
  \<open>transactions/shared.go\<close>: the tracker of a monitor is created with its observers when it is first asked for, and stopped once. Monitors are numbers; the
  observers that were started for a tracker are counted.
\<close>

record trackerInstance =
  ti_tracker :: Tracker
  ti_observers :: nat
  ti_stopped :: bool

type_synonym trackers = "(nat, trackerInstance) gomap"

definition tracker_of :: "nat \<Rightarrow> trackers \<Rightarrow> Tracker \<times> trackers" where
  "tracker_of monitor ts =
     (case gm_get ts monitor of
        Some inst \<Rightarrow> (ti_tracker inst, ts)
      | None \<Rightarrow> (NewTracker, gm_set monitor \<lparr>ti_tracker = NewTracker, ti_observers = 3, ti_stopped = False\<rparr> ts))"

definition stopTracker :: "nat \<Rightarrow> trackers \<Rightarrow> trackers" where
  "stopTracker monitor ts =
     (case gm_get ts monitor of
        None \<Rightarrow> ts
      | Some inst \<Rightarrow> if ti_stopped inst then ts else gm_set monitor (inst\<lparr>ti_stopped := True\<rparr>) ts)"

text \<open>However many metrics share the tracker, its observers are started once, and its data stay after it is stopped.\<close>

lemma tracker_shared: "tracker_of monitor (snd (tracker_of monitor ts)) = tracker_of monitor ts"
  by (auto simp: tracker_of_def gomap_simps split: option.splits)

lemma stopped_tracker_kept:
  "fst (tracker_of monitor (stopTracker monitor (snd (tracker_of monitor ts)))) = fst (tracker_of monitor ts) \<and>
   stopTracker monitor (stopTracker monitor ts) = stopTracker monitor ts"
  by (auto simp: tracker_of_def stopTracker_def gomap_simps split: option.splits)

section \<open>Sources of their own\<close>

text \<open>The number of nodes; an append that fails is logged. The loop ends when the stop channel is closed.\<close>

record numNodesSource =
  nn_series :: "(unit, u64, int) SeriesSource"
  nn_stopped :: bool

definition newNumNodesSource :: numNodesSource where
  "newNumNodesSource = \<lparr>nn_series = GetOrAddSubject () [], nn_stopped = False\<rparr>"

definition numNodes_tick :: "gotime \<Rightarrow> nat \<Rightarrow> numNodesSource \<Rightarrow> numNodesSource outcome" where
  "numNodes_tick now nodes s =
     (if nn_stopped s then Blocked
      else Ret (s\<lparr>nn_series := snd (append_to () (NewTime now) (int nodes) (nn_series s))\<rparr>))"

definition numNodes_Shutdown :: "numNodesSource \<Rightarrow> numNodesSource outcome" where
  "numNodes_Shutdown s = (if nn_stopped s then Panic CloseOfClosed else Ret (s\<lparr>nn_stopped := True\<rparr>))"

text \<open>
  The stakes of the validators. The answers of the contract are arguments; the last identifier is read as a signed
  64-bit number.
\<close>

datatype fetch_error = FetchEmptyNetwork | FetchFailed string

fun fetch_each :: "(int \<Rightarrow> string + int) \<Rightarrow> int list \<Rightarrow> (int, string) gomap \<Rightarrow> fetch_error + (int, string) gomap" where
  "fetch_each received [] stakes = Inr stakes"
| "fetch_each received (validatorID # ids) stakes =
     (case received validatorID of
        Inl err \<Rightarrow> Inl (FetchFailed err)
      | Inr stake \<Rightarrow> fetch_each received ids (gm_set validatorID (fmt_d stake) stakes))"

definition fetchValidatorStakes ::
  "fetch_error + unit \<Rightarrow> string + unit \<Rightarrow> string + int \<Rightarrow> string + int \<Rightarrow> (int \<Rightarrow> int \<Rightarrow> string + int) \<Rightarrow>
     fetch_error + (int, string) gomap" where
  "fetchValidatorStakes dialed bound lastValidatorID currentEpoch received =
     (case dialed of
        Inl FetchEmptyNetwork \<Rightarrow> Inr []
      | Inl (FetchFailed err) \<Rightarrow> Inl (FetchFailed err)
      | Inr _ \<Rightarrow>
          (case bound of
             Inl err \<Rightarrow> Inl (FetchFailed err)
           | Inr _ \<Rightarrow>
               (case lastValidatorID of
                  Inl err \<Rightarrow> Inl (FetchFailed err)
                | Inr lastID \<Rightarrow>
                    (case currentEpoch of
                       Inl err \<Rightarrow> Inl (FetchFailed err)
                     | Inr epoch \<Rightarrow> fetch_each (received epoch) [1..sint (word_of_int lastID :: u64)] []))))"

record validatorStakeSource =
  vs_series :: "(string, u64, string) SeriesSource"
  vs_stopped :: bool

definition newValidatorStakeSource :: validatorStakeSource where
  "newValidatorStakeSource = \<lparr>vs_series = [], vs_stopped = False\<rparr>"

definition validator_subject :: "int \<Rightarrow> string" where
  "validator_subject validatorID = ''validator-'' @ fmt_d validatorID"

definition validatorStake_tick ::
  "gotime \<Rightarrow> fetch_error + (int, string) gomap \<Rightarrow> validatorStakeSource \<Rightarrow> validatorStakeSource outcome" where
  "validatorStake_tick now answer s =
     (if vs_stopped s then Blocked
      else case answer of
             Inl _ \<Rightarrow> Ret s
           | Inr stakes \<Rightarrow>
               Ret (s\<lparr>vs_series := fold (\<lambda>(validatorID, stake) d. snd (append_to (validator_subject validatorID) (NewTime now) stake d))
                                    stakes (vs_series s)\<rparr>))"

definition validatorStake_Shutdown :: "validatorStakeSource \<Rightarrow> validatorStakeSource outcome" where
  "validatorStake_Shutdown s = (if vs_stopped s then Panic CloseOfClosed else Ret (s\<lparr>vs_stopped := True\<rparr>))"

text \<open>A source of a Prometheus metric takes what its listener is told.\<close>

definition PromLogSource_OnLog ::
  "string \<Rightarrow> u64 \<Rightarrow> real \<Rightarrow> (string, u64, real) SeriesSource \<Rightarrow> append_error option \<times> (string, u64, real) SeriesSource" where
  "PromLogSource_OnLog node time v d = append_to node time v d"

text \<open>
  The epochs are read off the series of block statuses when they are exported: the zero time, the points before the latest one and
  that one. \<open>GetData\<close> never has any.
\<close>

definition nodeEpochStatus_GetData :: "string \<Rightarrow> (u64, int) SyncedSeries option" where
  "nodeEpochStatus_GetData node = None"

definition nodeEpochStatus_GetSubjects :: "(string, u64, BlockStatus) SeriesSource \<Rightarrow> string list" where
  "nodeEpochStatus_GetSubjects statuses = Source_GetSubjects statuses"

definition nodeEpochStatus_ForEachRecord :: "(string, u64, BlockStatus) SeriesSource \<Rightarrow> (string \<times> u64 \<times> string) list" where
  "nodeEpochStatus_ForEachRecord statuses =
     concat (map (\<lambda>subject. case Source_GetData subject statuses of
         None \<Rightarrow> []
       | Some ser \<Rightarrow> map (\<lambda>point. (subject, Position point, itoa (unat (bst_Epoch (Value point))))) (series_records 0 ser))
       (nodeEpochStatus_GetSubjects statuses))"

section \<open>What is sampled\<close>

datatype ('s, 'v) periodic_event = SubjectAdded 's bool | SubjectRemoved 's | Ticked 's gotime "'v reading" | SourceShutdown

definition periodic_feed :: "('s, 'v) periodic_event \<Rightarrow> ('s, 'v) PeriodicDataSource \<Rightarrow> ('s, 'v) PeriodicDataSource outcome" where
  "periodic_feed e s =
     (case e of
        SubjectAdded x sensor \<Rightarrow> AddSubject x sensor s
      | SubjectRemoved x \<Rightarrow> bind_outcome (RemoveSubject x s) (\<lambda>(_, s1). Ret s1)
      | Ticked x now answer \<Rightarrow> collect x now answer s
      | SourceShutdown \<Rightarrow> bind_outcome (Periodic_Shutdown s) (\<lambda>(_, s1). Ret s1))"

definition periodic_samples :: "'s \<Rightarrow> ('s, 'v) periodic_event \<Rightarrow> (u64 \<times> 'v) list" where
  "periodic_samples x e =
     (case e of Ticked y now (ReadOk v) \<Rightarrow> if y = x then [(NewTime now, v)] else [] | _ \<Rightarrow> [])"

lemma bind_pair_Ret: "bind_outcome m (\<lambda>(a, b). Ret (f a b)) = Ret y \<longleftrightarrow> (\<exists>a b. m = Ret (a, b) \<and> y = f a b)"
  by (cases m) auto

lemma AddSubject_series: "AddSubject x sensor s = Ret s' \<Longrightarrow> pd_series s' = GetOrAddSubject x (pd_series s)"
  by (auto simp: AddSubject_def bind_outcome_Ret)

lemma RemoveSubject_series: "RemoveSubject x s = Ret (errs, s') \<Longrightarrow> pd_series s' = pd_series s"
  by (auto simp: RemoveSubject_def bind_outcome_Ret split: option.splits)

lemma Periodic_Shutdown_series: "Periodic_Shutdown s = Ret (errs, s') \<Longrightarrow> pd_series s' = pd_series s"
  by (auto simp: Periodic_Shutdown_def bind_outcome_Ret)

lemma collect_series:
  assumes "collect x now answer s = Ret s'"
  shows "series_of (pd_series s') y = append_all (periodic_samples y (Ticked x now answer)) (series_of (pd_series s) y)"
proof (cases "Synced_Append (NewTime now) (case answer of ReadOk v \<Rightarrow> v) (series_of (pd_series s) x)")
  case (Pair err ser)
  then have "snd (Synced_Append (NewTime now) (case answer of ReadOk v \<Rightarrow> v) (series_of (pd_series s) x)) = ser" by simp
  with Pair assms show ?thesis
    by (cases answer; cases err)
       (auto simp: collect_def periodic_samples_def Synced_Append_def split: option.splits if_splits)
qed

interpretation pd: sampled_source periodic_feed "\<lambda>s. series_of (pd_series s)" periodic_samples
proof
  show "series_of (pd_series st') x = append_all (periodic_samples x e) (series_of (pd_series st) x)"
    if "periodic_feed e st = Ret st'" for e :: "('a, 'b) periodic_event" and st st' x
    using that
    by (cases e)
       (auto simp: periodic_feed_def bind_pair_Ret collect_series periodic_samples_def
         dest!: AddSubject_series RemoveSubject_series Periodic_Shutdown_series)
qed

text \<open>The other sources; no event but a tick feeds their series, and \<open>None\<close> is the shutdown.\<close>

definition numNodes_feed :: "(gotime \<times> nat) option \<Rightarrow> numNodesSource \<Rightarrow> numNodesSource outcome" where
  "numNodes_feed e s = (case e of Some (now, nodes) \<Rightarrow> numNodes_tick now nodes s | None \<Rightarrow> numNodes_Shutdown s)"

interpretation nn: sampled_source numNodes_feed "\<lambda>s. series_of (nn_series s)"
  "\<lambda>_ e. case e of Some (now, nodes) \<Rightarrow> [(NewTime now, int nodes)] | None \<Rightarrow> []"
  by unfold_locales
     (auto simp: numNodes_feed_def numNodes_tick_def numNodes_Shutdown_def append_to_series split: option.splits if_splits)

definition validatorStake_feed ::
  "(gotime \<times> (fetch_error + (int, string) gomap)) option \<Rightarrow> validatorStakeSource \<Rightarrow> validatorStakeSource outcome" where
  "validatorStake_feed e s = (case e of Some (now, answer) \<Rightarrow> validatorStake_tick now answer s | None \<Rightarrow> validatorStake_Shutdown s)"

definition stake_samples :: "string \<Rightarrow> (gotime \<times> (fetch_error + (int, string) gomap)) option \<Rightarrow> (u64 \<times> string) list" where
  "stake_samples x e =
     (case e of
        Some (now, Inr stakes) \<Rightarrow> map (\<lambda>(_, stake). (NewTime now, stake)) (filter (\<lambda>(i, _). validator_subject i = x) stakes)
      | _ \<Rightarrow> [])"

lemma fold_append_to_series:
  "series_of (fold (\<lambda>(i, v) d. snd (append_to (f i) p v d)) ivs d) x =
     append_all (map (\<lambda>(_, v). (p, v)) (filter (\<lambda>(i, _). f i = x) ivs)) (series_of d x)"
  by (induction ivs arbitrary: d) (auto simp: append_to_series)

interpretation vs: sampled_source validatorStake_feed "\<lambda>s. series_of (vs_series s)" stake_samples
  by unfold_locales
     (auto simp: validatorStake_feed_def validatorStake_tick_def validatorStake_Shutdown_def stake_samples_def fold_append_to_series
       split: option.splits if_splits sum.splits)

definition prom_feed :: "string \<times> u64 \<times> real \<Rightarrow> (string, u64, real) SeriesSource \<Rightarrow> (string, u64, real) SeriesSource outcome" where
  "prom_feed e d = (case e of (node, time, v) \<Rightarrow> Ret (snd (PromLogSource_OnLog node time v d)))"

interpretation ps: sampled_source prom_feed series_of "\<lambda>x (node, time, v). if node = x then [(time, v)] else []"
  by unfold_locales (auto simp: prom_feed_def PromLogSource_OnLog_def append_to_series)

section \<open>Processes of a periodic source\<close>

text \<open>Which subjects have a series and a process, and that the processes are alive while the source is.\<close>

definition added :: "('s, 'v) periodic_event list \<Rightarrow> 's set" where
  "added evs = {x. \<exists>sensor. SubjectAdded x sensor \<in> set evs}"

definition failures :: "'s \<Rightarrow> ('s, 'v) periodic_event list \<Rightarrow> string list" where
  "failures x evs =
     fold (\<lambda>e errs. case e of
         SubjectAdded y _ \<Rightarrow> if y = x then [] else errs
       | Ticked y _ (ReadError err) \<Rightarrow> if y = x then errs @ [err] else errs
       | _ \<Rightarrow> errs) evs []"

definition subjects_known :: "('s, 'v) periodic_event list \<Rightarrow> ('s, 'v) PeriodicDataSource \<Rightarrow> bool" where
  "subjects_known evs s \<longleftrightarrow>
     gm_wf (pd_subjects s) \<and> (\<forall>x. gm_get (pd_series s) x \<noteq> None \<longleftrightarrow> x \<in> added evs) \<and>
     (\<forall>x. gm_get (pd_subjects s) x \<noteq> None \<longrightarrow> x \<in> added evs)"

lemma stop_all_keys: "stop_all m = Ret (errs, m') \<Longrightarrow> map fst m' = map fst m"
  by (induction m arbitrary: errs m' rule: stop_all.induct) (auto simp: bind_outcome_Ret)

lemma stop_all_get:
  "stop_all m = Ret (errs, m') \<Longrightarrow> gm_get m' x = map_option (\<lambda>p. p\<lparr>pr_stopped := True\<rparr>) (gm_get m x)"
  by (induction m arbitrary: errs m' rule: stop_all.induct) (auto simp: bind_outcome_Ret process_Stop_def split: if_splits)

lemma added_snoc [simp]:
  "added (evs @ [e]) = (case e of SubjectAdded x _ \<Rightarrow> insert x (added evs) | _ \<Rightarrow> added evs)"
  by (auto simp: added_def split: periodic_event.splits)

lemma feed_subjects_known:
  assumes "subjects_known evs s" "periodic_feed e s = Ret s'"
  shows "subjects_known (evs @ [e]) s'"
proof (cases e)
  case (SubjectAdded x sensor)
  with assms show ?thesis
    by (auto simp: periodic_feed_def AddSubject_def bind_outcome_Ret subjects_known_def GetOrAddSubject_def gomap_simps split: if_splits)
next
  case (SubjectRemoved x)
  with assms show ?thesis
    by (auto simp: periodic_feed_def RemoveSubject_def bind_outcome_Ret subjects_known_def gomap_simps split: option.splits if_splits)
next
  case (Ticked x now answer)
  with assms show ?thesis
    by (auto simp: periodic_feed_def collect_def subjects_known_def gomap_simps
        split: option.splits if_splits reading.splits prod.splits)
next
  case SourceShutdown
  with assms show ?thesis
    by (auto simp: periodic_feed_def Periodic_Shutdown_def bind_outcome_Ret subjects_known_def gm_wf_def stop_all_get
        dest: stop_all_keys)
qed

lemma run_subjects_known: "run_events periodic_feed evs NewPeriodicDataSource = Ret s \<Longrightarrow> subjects_known evs s"
proof (induction evs arbitrary: s rule: rev_induct)
  case Nil
  then show ?case by (auto simp: subjects_known_def NewPeriodicDataSource_def added_def)
next
  case (snoc e evs)
  then show ?case by (auto simp: run_events_append bind_outcome_Ret intro: feed_subjects_known)
qed

lemma failures_snoc [simp]:
  "failures x (evs @ [e]) =
     (case e of
        SubjectAdded y _ \<Rightarrow> if y = x then [] else failures x evs
      | Ticked y _ (ReadError err) \<Rightarrow> if y = x then failures x evs @ [err] else failures x evs
      | _ \<Rightarrow> failures x evs)"
  unfolding failures_def by simp

definition errs_exact :: "('s, 'v) periodic_event list \<Rightarrow> ('s, 'v) PeriodicDataSource \<Rightarrow> bool" where
  "errs_exact evs s \<longleftrightarrow> (\<forall>x p. gm_get (pd_subjects s) x = Some p \<longrightarrow> pr_errs p = map SensorFailed (failures x evs))"

lemma later_sample_accepted: "\<forall>q \<in> set ps. fst q < p \<Longrightarrow> fst (Synced_Append p v (sample_points ps)) = None"
proof -
  assume later: "\<forall>q \<in> set ps. fst q < p"
  have "Position (sample_points ps ! (length ps - 1)) < p" if "ps \<noteq> []"
  proof -
    have "ps ! (length ps - 1) \<in> set ps" using that by simp
    then show ?thesis using later that by (auto simp: sample_points_def split_beta)
  qed
  then show ?thesis by (auto simp: Synced_Append_def sample_points_def)
qed

text \<open>A reading at a later time than all before it is appended.\<close>

lemma later_sample_appended:
  assumes "run_events periodic_feed evs NewPeriodicDataSource = Ret s"
    and "sorted_wrt (<) (map fst (concat (map (periodic_samples x) (evs @ [Ticked x now (ReadOk v)]))))"
  shows "fst (Synced_Append (NewTime now) v (series_of (pd_series s) x)) = None"
proof -
  let ?ps = "concat (map (periodic_samples x) evs)"
  have inc: "sorted_wrt (<) (map fst ?ps)" "\<forall>q \<in> set ?ps. fst q < NewTime now"
    using assms(2) by (auto simp: sorted_wrt_append periodic_samples_def)
  have "series_of (pd_series s) x = sample_points ?ps"
    using pd.run_records [OF assms(1) _ inc(1)] by (simp add: NewPeriodicDataSource_def series_of_def Source_GetData_def)
  then show ?thesis using later_sample_accepted [OF inc(2)] by simp
qed

lemma feed_errs_exact:
  assumes "errs_exact evs s" "gm_wf (pd_subjects s)" "periodic_feed e s = Ret s'"
    and appended: "\<And>x now v. e = Ticked x now (ReadOk v) \<Longrightarrow> fst (Synced_Append (NewTime now) v (series_of (pd_series s) x)) = None"
  shows "errs_exact (evs @ [e]) s'"
proof (cases e)
  case (SubjectAdded x sensor)
  with assms show ?thesis
    by (auto simp: periodic_feed_def AddSubject_def bind_outcome_Ret errs_exact_def gomap_simps split: if_splits)
next
  case (SubjectRemoved x)
  with assms show ?thesis
    by (auto simp: periodic_feed_def RemoveSubject_def bind_outcome_Ret errs_exact_def gomap_simps split: option.splits if_splits)
next
  case (Ticked x now answer)
  with assms appended [of x now] show ?thesis
    by (cases answer)
       (auto simp: periodic_feed_def collect_def errs_exact_def gomap_simps split: option.splits if_splits prod.splits)
next
  case SourceShutdown
  with assms show ?thesis
    by (auto simp: periodic_feed_def Periodic_Shutdown_def bind_outcome_Ret errs_exact_def stop_all_get)
qed

lemma run_errs_exact:
  assumes "run_events periodic_feed evs NewPeriodicDataSource = Ret s"
    and "\<forall>x. sorted_wrt (<) (map fst (concat (map (periodic_samples x) evs)))"
  shows "errs_exact evs s"
  using assms
proof (induction evs arbitrary: s rule: rev_induct)
  case Nil
  then show ?case by (auto simp: errs_exact_def NewPeriodicDataSource_def)
next
  case (snoc e evs)
  then obtain s0 where s0: "run_events periodic_feed evs NewPeriodicDataSource = Ret s0" "periodic_feed e s0 = Ret s"
    by (auto simp: run_events_append bind_outcome_Ret)
  have "errs_exact evs s0"
    using snoc.prems(2) by (intro snoc.IH [OF s0(1)]) (simp add: sorted_wrt_append)
  moreover have "gm_wf (pd_subjects s0)" using run_subjects_known [OF s0(1)] by (simp add: subjects_known_def)
  moreover have "fst (Synced_Append (NewTime now) v (series_of (pd_series s0) x)) = None"
    if "e = Ticked x now (ReadOk v)" for x now v
    using later_sample_appended [OF s0(1), of x now v] snoc.prems(2) that by blast
  ultimately show ?case using feed_errs_exact s0(2) by blast
qed

end
