(* ===== verification/Monitor_Periodic_Properties.thy ===== *)
theory Monitor_Periodic_Properties
  imports Monitor_Periodic
begin

text \<open>
  What the periodic sources record and report, when they panic, and that the stakes of a validator and the values of a
  Prometheus metric are recorded under their subject.
\<close>

text \<open>
  C14: A periodic source has a series for exactly the subjects that were added, however often they were removed and added again; if the
  times of the successful readings of a subject increase, its series consists of exactly these readings, in order. The process of a subject then reports
  exactly the errors its sensor gave since it was added, without those of an empty network.
\<close>

theorem periodic_source_exact:
  assumes run: "run_events periodic_feed evs NewPeriodicDataSource = Ret s"
    and inc: "\<forall>y. sorted_wrt (<) (map fst (concat (map (periodic_samples y) evs)))"
  shows "Source_GetData x (pd_series s) =
      (if x \<in> added evs then Some (sample_points (concat (map (periodic_samples x) evs))) else None) \<and>
    (gm_get (pd_subjects s) x = Some p \<longrightarrow> pr_errs p = map SensorFailed (failures x evs))"
proof -
  have "series_of (pd_series s) x = sample_points (concat (map (periodic_samples x) evs))"
    using pd.run_records [OF run, of x] inc by (simp add: NewPeriodicDataSource_def series_of_def Source_GetData_def)
  moreover have "Source_GetData x (pd_series s) \<noteq> None \<longleftrightarrow> x \<in> added evs"
    using run_subjects_known [OF run] by (simp add: subjects_known_def Source_GetData_def)
  ultimately show ?thesis
    using run_errs_exact [OF run inc] by (auto simp: series_of_def errs_exact_def split: option.splits)
qed

theorem periodic_source_exact_witness:
  "\<exists>s. run_events periodic_feed [SubjectAdded ''A'' True, Ticked ''A'' 5 (ReadOk (7 :: int)), Ticked ''A'' 6 (ReadError ''gone''),
       SubjectAdded ''A'' True, Ticked ''A'' 8 (ReadError ''late''), Ticked ''A'' 9 (ReadOk 3)] NewPeriodicDataSource = Ret s
     \<and> Source_GetData ''A'' (pd_series s) = Some [\<lparr>Position = 5, Value = 7\<rparr>, \<lparr>Position = 9, Value = 3\<rparr>]
     \<and> gm_get (pd_subjects s) ''A'' = Some \<lparr>pr_sensor = True, pr_stopped = False, pr_errs = [SensorFailed ''late'']\<rparr>"
proof -
  let ?evs = "[SubjectAdded ''A'' True, Ticked ''A'' 5 (ReadOk (7 :: int)), Ticked ''A'' 6 (ReadError ''gone''),
       SubjectAdded ''A'' True, Ticked ''A'' 8 (ReadError ''late''), Ticked ''A'' 9 (ReadOk 3)]"
  obtain s p where s: "run_events periodic_feed ?evs NewPeriodicDataSource = Ret s" "gm_get (pd_subjects s) ''A'' = Some p"
      "pr_sensor p" "\<not> pr_stopped p"
    by (simp add: NewPeriodicDataSource_def periodic_feed_def AddSubject_def process_Stop_def collect_def Synced_Append_def NewTime_def
        series_of_def Source_GetData_def GetOrAddSubject_def)
  have inc: "\<forall>y. sorted_wrt (<) (map fst (concat (map (periodic_samples y) ?evs)))"
    by (simp add: periodic_samples_def NewTime_def)
  have "''A'' \<in> added ?evs" by (auto simp: added_def)
  then have "Source_GetData ''A'' (pd_series s) = Some [\<lparr>Position = 5, Value = 7\<rparr>, \<lparr>Position = 9, Value = 3\<rparr>]"
    "pr_errs p = [SensorFailed ''late'']"
    using periodic_source_exact [OF s(1) inc, of "''A''" p] s(2)
    by (simp_all add: periodic_samples_def NewTime_def sample_points_def failures_def)
  then show ?thesis using s by (cases p) auto
qed

section \<open>Panics\<close>

text \<open>While the source is not shut down and every subject has a sensor, its processes run.\<close>

definition all_running :: "('s, 'v) PeriodicDataSource \<Rightarrow> bool" where
  "all_running s \<longleftrightarrow> gm_wf (pd_subjects s) \<and> (\<forall>x p. gm_get (pd_subjects s) x = Some p \<longrightarrow> pr_sensor p \<and> \<not> pr_stopped p)"

definition harmless :: "('s, 'v) periodic_event \<Rightarrow> bool" where
  "harmless e = (case e of SubjectAdded _ sensor \<Rightarrow> sensor | SourceShutdown \<Rightarrow> False | _ \<Rightarrow> True)"

lemma feed_running:
  assumes "all_running s" "harmless e"
  shows "(\<forall>p. periodic_feed e s \<noteq> Panic p) \<and> (\<forall>s'. periodic_feed e s = Ret s' \<longrightarrow> all_running s')"
proof (cases e)
  case (SubjectAdded x sensor)
  with assms show ?thesis
    by (auto simp: harmless_def all_running_def periodic_feed_def AddSubject_def process_Stop_def gomap_simps split: option.splits if_splits)
next
  case (SubjectRemoved x)
  with assms show ?thesis
    by (auto simp: all_running_def periodic_feed_def RemoveSubject_def process_Stop_def gomap_simps split: option.splits if_splits)
next
  case (Ticked x now answer)
  with assms show ?thesis
    by (auto simp: all_running_def periodic_feed_def collect_def Let_def gomap_simps split: option.splits if_splits reading.splits prod.splits)
qed (use assms in \<open>simp add: harmless_def\<close>)

lemma run_no_panic: "all_running s \<Longrightarrow> list_all harmless evs \<Longrightarrow> run_events periodic_feed evs s \<noteq> Panic p"
proof (induction evs arbitrary: s)
  case (Cons e evs)
  then show ?case using feed_running [of s e] by (cases "periodic_feed e s") auto
qed simp

lemma run_running: "all_running s \<Longrightarrow> list_all harmless evs \<Longrightarrow> run_events periodic_feed evs s = Ret s' \<Longrightarrow> all_running s'"
proof (induction evs arbitrary: s)
  case (Cons e evs)
  then show ?case using feed_running [of s e] by (cases "periodic_feed e s") auto
qed simp

lemma stop_all_running: "\<forall>(x, p) \<in> set m. \<not> pr_stopped p \<Longrightarrow> \<exists>errs m'. stop_all m = Ret (errs, m')"
  by (induction m rule: stop_all.induct) (auto simp: process_Stop_def)

text \<open>
  C27: A periodic source never panics as long as every subject comes with a sensor and nothing follows its shutdown, which itself returns.
  A subject added without a sensor makes the program panic at its first tick. The source of the nodes adds such subjects when the factory
  fails; the source of the applications does not.
\<close>

theorem missing_sensor_panics:
  assumes harmless: "list_all harmless evs" and run: "run_events periodic_feed evs NewPeriodicDataSource = r"
  shows "r \<noteq> Panic p \<and>
    (r = Ret s \<longrightarrow>
       (\<exists>errs s'. Periodic_Shutdown s = Ret (errs, s')) \<and>
       bind_outcome (periodicNode_AfterNodeCreation label False s) (collect label now answer) = Panic NilDereference \<and>
       periodicApp_AfterApplicationCreation label False s = Ret s)"
proof -
  have start: "all_running NewPeriodicDataSource" by (simp add: all_running_def NewPeriodicDataSource_def)
  have running: "all_running s" if "run_events periodic_feed evs NewPeriodicDataSource = Ret s"
    using run_running [OF start harmless that] .
  have "\<exists>errs s'. Periodic_Shutdown s = Ret (errs, s')" if "all_running s"
  proof -
    have "\<forall>(x, p) \<in> set (pd_subjects s). \<not> pr_stopped p" using that by (auto simp: all_running_def gm_get_Some_iff)
    from stop_all_running [OF this] show ?thesis by (auto simp: Periodic_Shutdown_def)
  qed
  moreover have "bind_outcome (periodicNode_AfterNodeCreation label False s) (collect label now answer) = Panic NilDereference" if "all_running s"
    using that by (auto simp: all_running_def periodicNode_AfterNodeCreation_def AddSubject_def process_Stop_def collect_def gomap_simps
        split: option.splits)
  ultimately show ?thesis
    using run run_no_panic [OF start harmless] running by (auto simp: periodicApp_AfterApplicationCreation_def)
qed

theorem missing_sensor_panics_witness:
  "\<exists>s. run_events periodic_feed [SubjectAdded ''A'' True, SubjectRemoved ''A''] NewPeriodicDataSource = Ret s
     \<and> bind_outcome (periodicNode_AfterNodeCreation ''B'' False s) (collect ''B'' 1 (ReadOk (0 :: int))) = Panic NilDereference"
proof -
  obtain s :: "(string, int) PeriodicDataSource" where
    s: "run_events periodic_feed [SubjectAdded ''A'' True, SubjectRemoved ''A''] NewPeriodicDataSource = Ret s"
    by (simp add: NewPeriodicDataSource_def periodic_feed_def AddSubject_def RemoveSubject_def process_Stop_def)
  then show ?thesis using missing_sensor_panics [OF _ s, of CloseOfNil s "''B''" 1 "ReadOk 0"] by (auto simp: harmless_def)
qed

text \<open>
  The series of a validator are the stakes that were read for it at increasing times, whatever failed in between.
\<close>

lemma validator_stakes_recorded:
  assumes "run_events validatorStake_feed evs newValidatorStakeSource = Ret s"
    and "sorted_wrt (<) (map fst (concat (map (stake_samples (validator_subject i)) evs)))"
  shows "series_of (vs_series s) (validator_subject i) = sample_points (concat (map (stake_samples (validator_subject i)) evs))"
  using vs.run_records [OF assms(1) _ assms(2)] by (simp add: newValidatorStakeSource_def series_of_def Source_GetData_def)

end
