(* ===== verification/Monitor_Prometheus.thy ===== *)
theory Monitor_Prometheus
  imports Monitor_Periodic
begin

text \<open>
  The dispatcher of Prometheus metrics (\<open>driver/monitoring/prom_log_provider.go\<close>): one goroutine signals all nodes at every tick of
  a clock, one goroutine per node reads the metrics of the node for every signal and distributes them to the listeners. All of them
  share the map of nodes under a lock, which the first one holds while it sends.
\<close>

section \<open>Keys\<close>

record PrometheusLogKey =
  pk_Name :: string
  pk_Quantile :: string

definition PrometheusLogKey_String :: "PrometheusLogKey \<Rightarrow> string" where
  "PrometheusLogKey_String k = (if pk_Quantile k = [] then pk_Name k else pk_Name k @ '' (q: '' @ pk_Quantile k @ '')'')"

definition NewPrometheusKey :: "string \<Rightarrow> string \<Rightarrow> PrometheusLogKey" where
  "NewPrometheusKey name quantile = \<lparr>pk_Name = name, pk_Quantile = quantile\<rparr>"

definition NewPrometheusNameKey :: "string \<Rightarrow> PrometheusLogKey" where
  "NewPrometheusNameKey name = \<lparr>pk_Name = name, pk_Quantile = []\<rparr>"

definition log_key :: "PrometheusLogValue \<Rightarrow> PrometheusLogKey" where
  "log_key v = \<lparr>pk_Name = pv_Name v, pk_Quantile = pv_Quantile v\<rparr>"

section \<open>State\<close>

text \<open>
  A channel belongs to one node and one reader: its signals, whether it is closed, and where the goroutine of
  \<open>startNodeLogsDispatch\<close> is: at the head of its loop, in the call of the log reader, distributing the values it has got, waiting for the lock
  after an error, or ended. \<open>nodes\<close> maps labels to channels by their numbers.
\<close>

datatype reader_phase = Receiving | ReadingLog | Distributing u64 "PrometheusLogValue list" | LockingNodes | ReaderEnded

record prom_channel =
  ch_node :: string
  ch_buffer :: "u64 list"
  ch_closed :: bool
  ch_reader :: reader_phase

datatype dispatch_phase = AwaitingTick | Sending u64 "nat list" | DispatchEnded

record PrometheusLogDispatcher =
  pm_nodes :: "(string, nat) gomap"
  pm_channels :: "prom_channel list"
  pm_listeners :: "(PrometheusLogKey, nat list) gomap"
  pm_phase :: dispatch_phase
  pm_stopped :: bool
  pm_reports :: "(nat \<times> string \<times> u64 \<times> real) list"

definition newPrometheusLogDispatcher :: PrometheusLogDispatcher where
  "newPrometheusLogDispatcher =
     \<lparr>pm_nodes = [], pm_channels = [], pm_listeners = [], pm_phase = AwaitingTick, pm_stopped = False, pm_reports = []\<rparr>"

definition nodes_locked :: "PrometheusLogDispatcher \<Rightarrow> bool" where
  "nodes_locked d = (case pm_phase d of Sending _ _ \<Rightarrow> True | _ \<Rightarrow> False)"

definition capacity :: nat where
  "capacity = 100"

section \<open>Listeners and nodes\<close>

definition Prom_RegisterLogListener :: "PrometheusLogKey \<Rightarrow> nat \<Rightarrow> PrometheusLogDispatcher \<Rightarrow> PrometheusLogDispatcher" where
  "Prom_RegisterLogListener key l d =
     (let listeners = (case gm_get (pm_listeners d) key of None \<Rightarrow> [] | Some ls \<Rightarrow> ls)
      in d\<lparr>pm_listeners := gm_set key (List.insert l listeners) (pm_listeners d)\<rparr>)"

definition Prom_UnregisterLogListener :: "PrometheusLogKey \<Rightarrow> nat \<Rightarrow> PrometheusLogDispatcher \<Rightarrow> PrometheusLogDispatcher" where
  "Prom_UnregisterLogListener key l d =
     (case gm_get (pm_listeners d) key of
        None \<Rightarrow> d
      | Some ls \<Rightarrow> d\<lparr>pm_listeners := gm_set key (removeAll l ls) (pm_listeners d)\<rparr>)"

text \<open>\<open>url_ok\<close> is whether the node offers the debug service.\<close>

definition Prom_AfterNodeCreation :: "string \<Rightarrow> bool \<Rightarrow> PrometheusLogDispatcher \<Rightarrow> PrometheusLogDispatcher outcome" where
  "Prom_AfterNodeCreation label url_ok d =
     (if nodes_locked d then Blocked
      else if gm_get (pm_nodes d) label \<noteq> None then Ret d
      else if \<not> url_ok then Ret d
      else Ret (d\<lparr>pm_nodes := gm_set label (length (pm_channels d)) (pm_nodes d),
                  pm_channels := pm_channels d @ [\<lparr>ch_node = label, ch_buffer = [], ch_closed = False, ch_reader = Receiving\<rparr>]\<rparr>))"

text \<open>Closing a channel and draining it; the channel of a node that is not in the map is nil.\<close>

definition close_channel :: "nat \<Rightarrow> prom_channel list \<Rightarrow> prom_channel list outcome" where
  "close_channel c chans =
     (if ch_closed (chans ! c) then Panic CloseOfClosed
      else Ret (chans[c := (chans ! c)\<lparr>ch_buffer := [], ch_closed := True\<rparr>]))"

definition Prom_BeforeNodeRemoval :: "string \<Rightarrow> PrometheusLogDispatcher \<Rightarrow> PrometheusLogDispatcher outcome" where
  "Prom_BeforeNodeRemoval label d =
     (if nodes_locked d then Blocked
      else case gm_get (pm_nodes d) label of
             None \<Rightarrow> Panic CloseOfNil
           | Some c \<Rightarrow>
               bind_outcome (close_channel c (pm_channels d))
                 (\<lambda>chans. Ret (d\<lparr>pm_nodes := gm_del label (pm_nodes d), pm_channels := chans\<rparr>)))"

text \<open>\<open>Shutdown\<close> closes the channel that ends the dispatch and returns when all readers have ended.\<close>

definition Prom_Shutdown :: "PrometheusLogDispatcher \<Rightarrow> PrometheusLogDispatcher" where
  "Prom_Shutdown d = d\<lparr>pm_stopped := True\<rparr>"

definition Shutdown_returns :: "PrometheusLogDispatcher \<Rightarrow> bool" where
  "Shutdown_returns d \<longleftrightarrow> pm_stopped d \<and> list_all (\<lambda>ch. ch_reader ch = ReaderEnded) (pm_channels d)"

section \<open>Dispatch\<close>

definition dispatch_tick :: "gotime \<Rightarrow> PrometheusLogDispatcher \<Rightarrow> PrometheusLogDispatcher outcome" where
  "dispatch_tick t d =
     (if pm_phase d = AwaitingTick then Ret (d\<lparr>pm_phase := Sending (NewTime t) (map snd (pm_nodes d))\<rparr>) else Blocked)"

definition dispatch_send :: "PrometheusLogDispatcher \<Rightarrow> PrometheusLogDispatcher outcome" where
  "dispatch_send d =
     (case pm_phase d of
        Sending t (c # cs) \<Rightarrow>
          (let ch = pm_channels d ! c
           in if ch_closed ch then Panic SendOnClosed
              else if length (ch_buffer ch) < capacity
              then Ret (d\<lparr>pm_phase := Sending t cs, pm_channels := (pm_channels d)[c := ch\<lparr>ch_buffer := ch_buffer ch @ [t]\<rparr>]\<rparr>)
              else Blocked)
      | Sending t [] \<Rightarrow> Ret (d\<lparr>pm_phase := AwaitingTick\<rparr>)
      | _ \<Rightarrow> Blocked)"

fun close_channels :: "nat list \<Rightarrow> prom_channel list \<Rightarrow> prom_channel list outcome" where
  "close_channels [] chans = Ret chans"
| "close_channels (c # cs) chans = bind_outcome (close_channel c chans) (close_channels cs)"

definition dispatch_done :: "PrometheusLogDispatcher \<Rightarrow> PrometheusLogDispatcher outcome" where
  "dispatch_done d =
     (if pm_phase d = AwaitingTick \<and> pm_stopped d then
        bind_outcome (close_channels (map snd (pm_nodes d)) (pm_channels d))
          (\<lambda>chans. Ret (d\<lparr>pm_nodes := [], pm_channels := chans, pm_phase := DispatchEnded\<rparr>))
      else Blocked)"

section \<open>Readers\<close>

definition set_reader :: "nat \<Rightarrow> reader_phase \<Rightarrow> PrometheusLogDispatcher \<Rightarrow> PrometheusLogDispatcher" where
  "set_reader i ph d = d\<lparr>pm_channels := (pm_channels d)[i := (pm_channels d ! i)\<lparr>ch_reader := ph\<rparr>]\<rparr>"

definition reader_receive :: "nat \<Rightarrow> PrometheusLogDispatcher \<Rightarrow> PrometheusLogDispatcher outcome" where
  "reader_receive i d =
     (if i < length (pm_channels d) \<and> ch_reader (pm_channels d ! i) = Receiving then
        (case ch_buffer (pm_channels d ! i) of
           [] \<Rightarrow> if ch_closed (pm_channels d ! i) then Ret (set_reader i ReaderEnded d) else Blocked
         | _ # rest \<Rightarrow>
             Ret (d\<lparr>pm_channels := (pm_channels d)[i := (pm_channels d ! i)\<lparr>ch_buffer := rest, ch_reader := ReadingLog\<rparr>]\<rparr>))
      else Blocked)"

definition reader_read :: "nat \<Rightarrow> gotime \<Rightarrow> string + PrometheusLogValue list \<Rightarrow> PrometheusLogDispatcher \<Rightarrow> PrometheusLogDispatcher outcome" where
  "reader_read i now answer d =
     (if i < length (pm_channels d) \<and> ch_reader (pm_channels d ! i) = ReadingLog then
        (case answer of
           Inr logs \<Rightarrow> Ret (set_reader i (Distributing (NewTime now) logs) d)
         | Inl _ \<Rightarrow> Ret (set_reader i LockingNodes d))
      else Blocked)"

text \<open>One value of \<open>distributeLog\<close>, to the listeners registered for its key at that moment.\<close>

definition distributeLog :: "nat \<Rightarrow> PrometheusLogDispatcher \<Rightarrow> PrometheusLogDispatcher outcome" where
  "distributeLog i d =
     (if i < length (pm_channels d) then
        (case ch_reader (pm_channels d ! i) of
           Distributing t (v # vs) \<Rightarrow>
             (let listeners = (case gm_get (pm_listeners d) (log_key v) of None \<Rightarrow> [] | Some ls \<Rightarrow> ls);
                  node = ch_node (pm_channels d ! i)
              in Ret (set_reader i (Distributing t vs)
                   (d\<lparr>pm_reports := pm_reports d @ map (\<lambda>l. (l, node, t, pv_value v)) listeners\<rparr>)))
         | Distributing t [] \<Rightarrow> Ret (set_reader i Receiving d)
         | _ \<Rightarrow> Blocked)
      else Blocked)"

text \<open>After an error the reader takes the lock to look whether its node is still there.\<close>

definition reader_lock :: "nat \<Rightarrow> PrometheusLogDispatcher \<Rightarrow> PrometheusLogDispatcher outcome" where
  "reader_lock i d =
     (if i < length (pm_channels d) \<and> ch_reader (pm_channels d ! i) = LockingNodes \<and> \<not> nodes_locked d
      then Ret (set_reader i Receiving d) else Blocked)"

inductive prom_step :: "PrometheusLogDispatcher \<Rightarrow> PrometheusLogDispatcher \<Rightarrow> bool" where
  register: "prom_step d (Prom_RegisterLogListener key l d)"
| unregister: "prom_step d (Prom_UnregisterLogListener key l d)"
| created: "Prom_AfterNodeCreation label url_ok d = Ret d' \<Longrightarrow> prom_step d d'"
| removal: "Prom_BeforeNodeRemoval label d = Ret d' \<Longrightarrow> prom_step d d'"
| shutdown: "prom_step d (Prom_Shutdown d)"
| tick: "dispatch_tick t d = Ret d' \<Longrightarrow> prom_step d d'"
| send: "dispatch_send d = Ret d' \<Longrightarrow> prom_step d d'"
| ending: "dispatch_done d = Ret d' \<Longrightarrow> prom_step d d'"
| receive: "reader_receive i d = Ret d' \<Longrightarrow> prom_step d d'"
| read: "reader_read i now answer d = Ret d' \<Longrightarrow> prom_step d d'"
| distribute: "distributeLog i d = Ret d' \<Longrightarrow> prom_step d d'"
| lock: "reader_lock i d = Ret d' \<Longrightarrow> prom_step d d'"

inductive_cases prom_stepE: "prom_step d d'"

definition prom_reachable :: "PrometheusLogDispatcher \<Rightarrow> bool" where
  "prom_reachable d \<longleftrightarrow> prom_step\<^sup>*\<^sup>* newPrometheusLogDispatcher d"

end
