(* ===== verification/Monitor_Prometheus_Properties.thy ===== *)
theory Monitor_Prometheus_Properties
  imports Monitor_Prometheus
begin

text \<open>
  What holds of the dispatcher of Prometheus metrics in every reachable state, how a node that is suspended and then removed, or
  suspended twice, makes it panic, and how a slow node stops it for good.
\<close>

section \<open>Invariant\<close>

definition nodes_ok :: "(string, nat) gomap \<Rightarrow> prom_channel list \<Rightarrow> bool" where
  "nodes_ok nodes chans \<longleftrightarrow>
     gm_wf nodes \<and>
     (\<forall>n c. gm_get nodes n = Some c \<longrightarrow> c < length chans \<and> \<not> ch_closed (chans ! c) \<and> ch_node (chans ! c) = n) \<and>
     (\<forall>c < length chans. \<not> ch_closed (chans ! c) \<longrightarrow> gm_get nodes (ch_node (chans ! c)) = Some c)"

definition channels_ok :: "prom_channel list \<Rightarrow> bool" where
  "channels_ok chans \<longleftrightarrow> (\<forall>ch \<in> set chans. length (ch_buffer ch) \<le> capacity \<and> (ch_closed ch \<longrightarrow> ch_buffer ch = []))"

definition prom_inv :: "PrometheusLogDispatcher \<Rightarrow> bool" where
  "prom_inv d \<longleftrightarrow>
     nodes_ok (pm_nodes d) (pm_channels d) \<and> channels_ok (pm_channels d) \<and>
     (\<forall>t cs. pm_phase d = Sending t cs \<longrightarrow> (\<forall>c \<in> set cs. \<exists>n. gm_get (pm_nodes d) n = Some c)) \<and>
     (pm_phase d = DispatchEnded \<longrightarrow> pm_stopped d)"

text \<open>A change of one channel that keeps its node and whether it is closed.\<close>

lemma nodes_ok_update:
  assumes "nodes_ok nodes chans" "ch_node ch = ch_node (chans ! i)" "ch_closed ch = ch_closed (chans ! i)"
  shows "nodes_ok nodes (chans[i := ch])"
proof -
  have "ch_node (chans[i := ch] ! c) = ch_node (chans ! c) \<and> ch_closed (chans[i := ch] ! c) = ch_closed (chans ! c)" for c
    using assms(2,3) by (cases "i < length chans"; cases "i = c") (auto simp: list_update_beyond)
  then show ?thesis using assms(1) by (simp add: nodes_ok_def)
qed

lemma channels_ok_update:
  assumes "channels_ok chans" "length (ch_buffer ch) \<le> capacity" "ch_closed ch \<Longrightarrow> ch_buffer ch = []"
  shows "channels_ok (chans[i := ch])"
  using assms set_update_subset_insert [of chans i ch] by (auto simp: channels_ok_def)

lemma channels_ok_nth:
  "channels_ok chans \<Longrightarrow> c < length chans \<Longrightarrow>
     length (ch_buffer (chans ! c)) \<le> capacity \<and> (ch_closed (chans ! c) \<longrightarrow> ch_buffer (chans ! c) = [])"
  by (simp add: channels_ok_def)

lemma nodes_ok_del:
  assumes ok: "nodes_ok nodes chans" and c: "gm_get nodes n = Some c" and closed: "ch_closed ch"
  shows "nodes_ok (gm_del n nodes) (chans[c := ch])"
proof -
  have wf: "gm_wf nodes" and c_ok: "c < length chans" "ch_node (chans ! c) = n" using ok c by (auto simp: nodes_ok_def)
  have "e < length chans \<and> \<not> ch_closed (chans[c := ch] ! e) \<and> ch_node (chans[c := ch] ! e) = m"
    if "gm_get (gm_del n nodes) m = Some e" for m e
  proof -
    have "m \<noteq> n" "gm_get nodes m = Some e" using that wf by (auto simp: gomap_simps split: if_splits)
    then show ?thesis using ok c_ok by (auto simp: nodes_ok_def nth_list_update)
  qed
  moreover have "gm_get (gm_del n nodes) (ch_node (chans[c := ch] ! e)) = Some e"
    if "e < length chans" "\<not> ch_closed (chans[c := ch] ! e)" for e
  proof -
    have "e \<noteq> c" using that closed c_ok by auto
    then have e: "gm_get nodes (ch_node (chans ! e)) = Some e" using ok that by (simp add: nodes_ok_def)
    then have "ch_node (chans ! e) \<noteq> n" using c \<open>e \<noteq> c\<close> by auto
    then show ?thesis using e wf \<open>e \<noteq> c\<close> by (simp add: gomap_simps)
  qed
  ultimately show ?thesis using wf by (simp add: nodes_ok_def gomap_simps)
qed

lemma close_channel_ok:
  assumes "nodes_ok nodes chans" "channels_ok chans" "gm_get nodes n = Some c"
  shows "\<exists>chans'. close_channel c chans = Ret chans' \<and> nodes_ok (gm_del n nodes) chans' \<and> channels_ok chans'"
proof -
  have "\<not> ch_closed (chans ! c)" using assms(1,3) by (auto simp: nodes_ok_def)
  then show ?thesis using assms by (simp add: close_channel_def channels_ok_update nodes_ok_del)
qed

lemma set_reader_inv:
  assumes "prom_inv d" "i < length (pm_channels d)"
  shows "prom_inv (set_reader i ph d)"
  using assms channels_ok_nth [of "pm_channels d" i]
  by (auto simp: prom_inv_def set_reader_def intro!: nodes_ok_update channels_ok_update)

text \<open>At the end all channels of the map are closed, one after the other.\<close>

lemma close_channels_ok:
  "nodes_ok nodes chans \<Longrightarrow> channels_ok chans \<Longrightarrow>
     \<exists>chans'. close_channels (map snd nodes) chans = Ret chans' \<and> nodes_ok [] chans' \<and> channels_ok chans'"
proof (induction nodes arbitrary: chans)
  case (Cons nc nodes)
  obtain n c where nc: "nc = (n, c)" by (cases nc)
  have "gm_get (nc # nodes) n = Some c" by (simp add: nc)
  from close_channel_ok [OF Cons.prems this] obtain chans1 where
    chans1: "close_channel c chans = Ret chans1" "nodes_ok (gm_del n (nc # nodes)) chans1" "channels_ok chans1" by blast
  have "gm_del n (nc # nodes) = nodes"
    using Cons.prems(1) by (simp add: nc nodes_ok_def gm_wf_def gm_del_def gm_delete_absent)
  then have "nodes_ok nodes chans1" using chans1(2) by simp
  from Cons.IH [OF this chans1(3)] show ?case using chans1(1) by (simp add: nc)
qed simp

lemma created_inv: "Prom_AfterNodeCreation label url_ok d = Ret d' \<Longrightarrow> prom_inv d \<Longrightarrow> prom_inv d'"
proof -
  assume ret: "Prom_AfterNodeCreation label url_ok d = Ret d'" and inv: "prom_inv d"
  show ?thesis
  proof (cases "d' = d")
    case False
    with ret have fresh: "gm_get (pm_nodes d) label = None" and unlocked: "\<not> nodes_locked d"
      and d': "d' = d\<lparr>pm_nodes := gm_set label (length (pm_channels d)) (pm_nodes d),
        pm_channels := pm_channels d @ [\<lparr>ch_node = label, ch_buffer = [], ch_closed = False, ch_reader = Receiving\<rparr>]\<rparr>"
      by (auto simp: Prom_AfterNodeCreation_def split: if_splits)
    have "nodes_ok (pm_nodes d') (pm_channels d')"
      using inv fresh by (fastforce simp: d' prom_inv_def nodes_ok_def nth_append gomap_simps less_Suc_eq split: if_splits)
    moreover have "channels_ok (pm_channels d')" using inv by (simp add: d' prom_inv_def channels_ok_def)
    ultimately show ?thesis using inv unlocked by (auto simp: d' prom_inv_def nodes_locked_def)
  qed (use inv in simp)
qed

lemma removal_inv: "Prom_BeforeNodeRemoval label d = Ret d' \<Longrightarrow> prom_inv d \<Longrightarrow> prom_inv d'"
  using close_channel_ok [of "pm_nodes d" "pm_channels d" label]
  by (fastforce simp: Prom_BeforeNodeRemoval_def prom_inv_def nodes_locked_def bind_outcome_Ret split: if_splits option.splits)

lemma send_inv: "dispatch_send d = Ret d' \<Longrightarrow> prom_inv d \<Longrightarrow> prom_inv d'"
  by (auto simp: dispatch_send_def prom_inv_def Let_def intro!: nodes_ok_update channels_ok_update
      split: dispatch_phase.splits list.splits if_splits)

lemma done_inv: "dispatch_done d = Ret d' \<Longrightarrow> prom_inv d \<Longrightarrow> prom_inv d'"
  using close_channels_ok [of "pm_nodes d" "pm_channels d"]
  by (auto simp: dispatch_done_def prom_inv_def bind_outcome_Ret split: if_splits)

lemma receive_inv: "reader_receive i d = Ret d' \<Longrightarrow> prom_inv d \<Longrightarrow> prom_inv d'"
  using channels_ok_nth [of "pm_channels d" i]
  by (auto simp: reader_receive_def intro: set_reader_inv split: if_splits list.splits)
     (auto simp: prom_inv_def intro!: nodes_ok_update channels_ok_update)

lemma quiet_inv:
  assumes "prom_inv d"
  shows "prom_inv (Prom_RegisterLogListener key l d)" "prom_inv (Prom_UnregisterLogListener key l d)" "prom_inv (Prom_Shutdown d)"
  using assms
  by (auto simp: prom_inv_def Prom_RegisterLogListener_def Prom_UnregisterLogListener_def Prom_Shutdown_def Let_def split: option.splits)

lemma prom_step_inv: "prom_step d d' \<Longrightarrow> prom_inv d \<Longrightarrow> prom_inv d'"
proof (induction rule: prom_step.induct)
  case (tick t d d')
  then show ?case
    by (auto simp: dispatch_tick_def prom_inv_def nodes_ok_def gm_get_Some_iff split: if_splits) blast
next
  case (distribute i d d')
  then show ?case
    by (auto simp: distributeLog_def Let_def intro!: set_reader_inv split: if_splits reader_phase.splits list.splits)
       (auto simp: prom_inv_def)
next
  case (read i now answer d d')
  then show ?case by (auto simp: reader_read_def intro: set_reader_inv split: if_splits sum.splits)
next
  case (lock i d d')
  then show ?case by (auto simp: reader_lock_def intro: set_reader_inv split: if_splits)
qed (simp_all add: quiet_inv created_inv removal_inv send_inv done_inv receive_inv)

lemma reachable_inv: "prom_reachable d \<Longrightarrow> prom_inv d"
  unfolding prom_reachable_def
proof (induction rule: rtranclp_induct)
  case base
  show ?case by (simp add: newPrometheusLogDispatcher_def prom_inv_def nodes_ok_def channels_ok_def)
qed (rule prom_step_inv)

section \<open>Panics\<close>

lemma send_no_panic: "prom_inv d \<Longrightarrow> dispatch_send d \<noteq> Panic p"
  by (fastforce simp: prom_inv_def nodes_ok_def dispatch_send_def Let_def split: dispatch_phase.splits list.splits if_splits)

lemma done_no_panic: "prom_inv d \<Longrightarrow> dispatch_done d \<noteq> Panic p"
  using close_channels_ok [of "pm_nodes d" "pm_channels d"] by (auto simp: prom_inv_def dispatch_done_def)

lemma removal_panic_iff:
  "prom_inv d \<Longrightarrow> Prom_BeforeNodeRemoval label d = Panic p \<longleftrightarrow>
     p = CloseOfNil \<and> gm_get (pm_nodes d) label = None \<and> \<not> nodes_locked d"
  using close_channel_ok [of "pm_nodes d" "pm_channels d" label]
  by (auto simp: prom_inv_def Prom_BeforeNodeRemoval_def split: option.splits)

text \<open>
  C8: In every reachable state of the dispatcher, over all interleavings of its goroutines, with nodes coming and going and a shutdown
  at any time, no channel holds more than 100 signals, the dispatch never sends on a closed channel nor closes one twice, and a
  removal panics exactly if the node has no channel.
\<close>

theorem dispatcher_panics_only_without_channel:
  assumes "prom_reachable d"
  shows "list_all (\<lambda>ch. length (ch_buffer ch) \<le> 100) (pm_channels d) \<and> dispatch_send d \<noteq> Panic p \<and> dispatch_done d \<noteq> Panic p \<and>
    (Prom_BeforeNodeRemoval label d = Panic p \<longleftrightarrow> p = CloseOfNil \<and> gm_get (pm_nodes d) label = None \<and> \<not> nodes_locked d)"
  using reachable_inv [OF assms] send_no_panic [of d p] done_no_panic [of d p] removal_panic_iff [of d label p]
  by (simp add: prom_inv_def channels_ok_def capacity_def list_all_iff)

definition one_node :: "u64 list \<Rightarrow> reader_phase \<Rightarrow> dispatch_phase \<Rightarrow> PrometheusLogDispatcher" where
  "one_node signals reader ph =
     \<lparr>pm_nodes = [(''A'', 0)],
      pm_channels = [\<lparr>ch_node = ''A'', ch_buffer = signals, ch_closed = False, ch_reader = reader\<rparr>],
      pm_listeners = [], pm_phase = ph, pm_stopped = False, pm_reports = []\<rparr>"

lemma one_node_created: "prom_reachable (one_node [] Receiving AwaitingTick)"
proof -
  have "Prom_AfterNodeCreation ''A'' True newPrometheusLogDispatcher = Ret (one_node [] Receiving AwaitingTick)"
    by (simp add: Prom_AfterNodeCreation_def newPrometheusLogDispatcher_def nodes_locked_def one_node_def)
  then show ?thesis unfolding prom_reachable_def by (blast intro: prom_step.created)
qed

theorem dispatcher_panics_only_without_channel_witness:
  "prom_reachable (one_node [] Receiving AwaitingTick)
     \<and> Prom_BeforeNodeRemoval ''B'' (one_node [] Receiving AwaitingTick) = Panic CloseOfNil"
  using one_node_created dispatcher_panics_only_without_channel [OF one_node_created, of CloseOfNil "''B''"]
  by (simp add: one_node_def nodes_locked_def)

section \<open>A slow node\<close>

text \<open>
  The dispatch is about to send to a full channel, with the lock on the map of nodes, and the reader of that channel waits for the lock.
\<close>

definition deadlocked :: "PrometheusLogDispatcher \<Rightarrow> bool" where
  "deadlocked d \<longleftrightarrow>
     (case pm_phase d of
        Sending _ (c # _) \<Rightarrow>
          c < length (pm_channels d) \<and> capacity \<le> length (ch_buffer (pm_channels d ! c)) \<and> \<not> ch_closed (pm_channels d ! c) \<and>
          ch_reader (pm_channels d ! c) = LockingNodes
      | _ \<Rightarrow> False)"

lemma deadlockedE:
  assumes "deadlocked d"
  obtains t c cs where "pm_phase d = Sending t (c # cs)" "c < length (pm_channels d)"
    "capacity \<le> length (ch_buffer (pm_channels d ! c))" "\<not> ch_closed (pm_channels d ! c)" "ch_reader (pm_channels d ! c) = LockingNodes"
  using assms by (auto simp: deadlocked_def split: dispatch_phase.splits list.splits)

lemma deadlocked_locks: "deadlocked d \<Longrightarrow> nodes_locked d"
  by (erule deadlockedE) (simp add: nodes_locked_def)

text \<open>Other readers may go on.\<close>

lemma deadlocked_update:
  assumes "deadlocked d" "ch_reader (pm_channels d ! i) \<noteq> LockingNodes"
  shows "deadlocked (d\<lparr>pm_channels := (pm_channels d)[i := ch]\<rparr>)"
  using assms(1)
proof (rule deadlockedE)
  fix t c cs
  assume "pm_phase d = Sending t (c # cs)" "c < length (pm_channels d)" "ch_reader (pm_channels d ! c) = LockingNodes"
    "capacity \<le> length (ch_buffer (pm_channels d ! c))" "\<not> ch_closed (pm_channels d ! c)"
  moreover from this assms(2) have "i \<noteq> c" by auto
  ultimately show ?thesis by (simp add: deadlocked_def)
qed

lemma deadlocked_quiet:
  "deadlocked d \<Longrightarrow> deadlocked (Prom_RegisterLogListener key l d)" "deadlocked d \<Longrightarrow> deadlocked (Prom_UnregisterLogListener key l d)"
  "deadlocked d \<Longrightarrow> deadlocked (Prom_Shutdown d)" "deadlocked d \<Longrightarrow> deadlocked (d\<lparr>pm_reports := rs\<rparr>)"
  by (auto simp: deadlocked_def Prom_RegisterLogListener_def Prom_UnregisterLogListener_def Prom_Shutdown_def Let_def
      split: option.splits dispatch_phase.splits list.splits)

lemma deadlocked_blocked:
  assumes "deadlocked d"
  shows "Prom_AfterNodeCreation label url_ok d = Blocked" "Prom_BeforeNodeRemoval label d = Blocked" "dispatch_tick t d = Blocked"
    "dispatch_send d = Blocked" "dispatch_done d = Blocked" "reader_lock i d = Blocked"
  using assms deadlocked_locks [OF assms]
  by (auto simp: Prom_AfterNodeCreation_def Prom_BeforeNodeRemoval_def dispatch_tick_def dispatch_send_def dispatch_done_def
      reader_lock_def Let_def elim!: deadlockedE)

lemma deadlocked_distribute:
  assumes "deadlocked d" "distributeLog i d = Ret d'"
  shows "deadlocked d'"
proof -
  have "ch_reader (pm_channels d ! i) \<noteq> LockingNodes" using assms(2) by (auto simp: distributeLog_def split: if_splits)
  then have "deadlocked (set_reader i ph (d\<lparr>pm_reports := rs\<rparr>))" "deadlocked (set_reader i ph d)" for ph rs
    using deadlocked_update [OF deadlocked_quiet(4) [OF assms(1)]] deadlocked_update [OF assms(1)] by (simp_all add: set_reader_def)
  then show ?thesis
    using assms(2) by (auto simp: distributeLog_def Let_def split: if_splits reader_phase.splits list.splits)
qed

lemma deadlocked_stays:
  assumes "prom_step d d'" "deadlocked d"
  shows "deadlocked d'"
  using assms
proof (induction rule: prom_step.induct)
  case (receive i d d')
  then show ?case
    by (auto simp: reader_receive_def set_reader_def intro!: deadlocked_update split: if_splits list.splits)
next
  case (read i now answer d d')
  then show ?case by (auto simp: reader_read_def set_reader_def intro!: deadlocked_update split: if_splits sum.splits)
qed (simp_all add: deadlocked_quiet deadlocked_blocked deadlocked_distribute)

definition stuck_for_good :: "PrometheusLogDispatcher \<Rightarrow> bool" where
  "stuck_for_good d \<longleftrightarrow>
     (\<forall>d'. prom_step\<^sup>*\<^sup>* d d' \<longrightarrow>
        \<not> Shutdown_returns d' \<and> dispatch_send d' = Blocked \<and>
        (\<forall>label url_ok. Prom_AfterNodeCreation label url_ok d' = Blocked) \<and> (\<forall>label. Prom_BeforeNodeRemoval label d' = Blocked))"

lemma deadlocked_stuck: "deadlocked d \<Longrightarrow> stuck_for_good d"
proof -
  assume d: "deadlocked d"
  have "deadlocked d'" if "prom_step\<^sup>*\<^sup>* d d'" for d'
    using that by (induction rule: rtranclp_induct) (use d deadlocked_stays in blast)+
  moreover have "\<not> Shutdown_returns d'" if "deadlocked d'" for d'
    using that by (auto simp: Shutdown_returns_def list_all_length elim!: deadlockedE)
  ultimately show ?thesis by (simp add: stuck_for_good_def deadlocked_blocked)
qed

text \<open>While a reader is in a call that takes long, every second adds a signal to its channel.\<close>

lemma one_node_fills:
  "k \<le> capacity \<Longrightarrow> prom_step\<^sup>*\<^sup>* (one_node [] ReadingLog AwaitingTick) (one_node (replicate k (NewTime 0)) ReadingLog AwaitingTick)"
proof (induction k)
  case (Suc k)
  let ?d = "one_node (replicate k (NewTime 0)) ReadingLog"
  have "prom_step (?d AwaitingTick) (?d (Sending (NewTime 0) [0]))"
    by (rule prom_step.tick [of 0]) (simp add: dispatch_tick_def one_node_def)
  moreover have "prom_step (?d (Sending (NewTime 0) [0])) (one_node (replicate (Suc k) (NewTime 0)) ReadingLog (Sending (NewTime 0) []))"
    using Suc.prems by (intro prom_step.send) (simp add: dispatch_send_def one_node_def replicate_append_same)
  moreover have "prom_step (one_node (replicate (Suc k) (NewTime 0)) ReadingLog (Sending (NewTime 0) []))
      (one_node (replicate (Suc k) (NewTime 0)) ReadingLog AwaitingTick)"
    by (intro prom_step.send) (simp add: dispatch_send_def one_node_def)
  ultimately show ?case using Suc by (meson Suc_leD rtranclp.rtrancl_into_rtrancl)
qed simp

text \<open>
  C26: The dispatcher has a reachable state from which, whatever happens, it never sends again, no node can be announced or removed
  any more and its shutdown does not return: the dispatch holds the lock on the nodes while it waits for room in a channel, and the reader of that
  channel, whose call to the node has failed after 100 further seconds, waits for the lock.
\<close>

theorem slow_node_stops_dispatcher: "\<exists>d. prom_reachable d \<and> stuck_for_good d"
proof -
  let ?full = "replicate capacity (NewTime 0)"
  have "prom_step\<^sup>*\<^sup>* (one_node [] Receiving AwaitingTick) (one_node [] ReadingLog AwaitingTick)"
  proof -
    have "prom_step (one_node [] Receiving AwaitingTick) (one_node [] Receiving (Sending (NewTime 0) [0]))"
      by (rule prom_step.tick [of 0]) (simp add: dispatch_tick_def one_node_def)
    moreover have "prom_step (one_node [] Receiving (Sending (NewTime 0) [0])) (one_node [NewTime 0] Receiving (Sending (NewTime 0) []))"
      by (intro prom_step.send) (simp add: dispatch_send_def one_node_def capacity_def)
    moreover have "prom_step (one_node [NewTime 0] Receiving (Sending (NewTime 0) [])) (one_node [NewTime 0] Receiving AwaitingTick)"
      by (intro prom_step.send) (simp add: dispatch_send_def one_node_def)
    moreover have "prom_step (one_node [NewTime 0] Receiving AwaitingTick) (one_node [] ReadingLog AwaitingTick)"
      by (rule prom_step.receive [of 0]) (simp add: reader_receive_def one_node_def)
    ultimately show ?thesis by (meson rtranclp.rtrancl_into_rtrancl rtranclp.rtrancl_refl)
  qed
  moreover have "prom_step\<^sup>*\<^sup>* (one_node [] ReadingLog AwaitingTick) (one_node ?full ReadingLog AwaitingTick)"
    by (rule one_node_fills) simp
  moreover have "prom_step (one_node ?full ReadingLog AwaitingTick) (one_node ?full ReadingLog (Sending (NewTime 0) [0]))"
    by (rule prom_step.tick [of 0]) (simp add: dispatch_tick_def one_node_def)
  moreover have "prom_step (one_node ?full ReadingLog (Sending (NewTime 0) [0])) (one_node ?full LockingNodes (Sending (NewTime 0) [0]))"
    by (rule prom_step.read [of 0 0 "Inl []"]) (simp add: reader_read_def one_node_def set_reader_def)
  ultimately have "prom_reachable (one_node ?full LockingNodes (Sending (NewTime 0) [0]))"
    using one_node_created unfolding prom_reachable_def by (meson rtranclp.rtrancl_into_rtrancl rtranclp_trans)
  moreover have "deadlocked (one_node ?full LockingNodes (Sending (NewTime 0) [0]))"
    by (simp add: deadlocked_def one_node_def)
  ultimately show ?thesis using deadlocked_stuck by blast
qed

section \<open>Suspended nodes\<close>

text \<open>
  A node that has been announced as leaving and is announced so once more, as by a step that kills its client followed by a step that
  stops the node, makes the dispatcher panic, unless the node has come back in between: then the second announcement
  is as good as the first.
\<close>

theorem second_removal_panics:
  assumes reachable: "prom_reachable d" and removed: "Prom_BeforeNodeRemoval label d = Ret d1"
  shows "Prom_BeforeNodeRemoval label d1 = Panic CloseOfNil \<and>
    (\<exists>d2 d3. Prom_AfterNodeCreation label True d1 = Ret d2 \<and> Prom_BeforeNodeRemoval label d2 = Ret d3)"
proof -
  have inv: "prom_inv d" using reachable by (rule reachable_inv)
  have inv1: "prom_inv d1" using removal_inv [OF removed inv] .
  have d1: "gm_get (pm_nodes d1) label = None" "\<not> nodes_locked d1"
    using removed inv
    by (auto simp: Prom_BeforeNodeRemoval_def prom_inv_def nodes_ok_def nodes_locked_def bind_outcome_Ret gomap_simps
        split: if_splits option.splits)
  then obtain d2 where d2: "Prom_AfterNodeCreation label True d1 = Ret d2" "gm_get (pm_nodes d2) label \<noteq> None" "\<not> nodes_locked d2"
    by (auto simp: Prom_AfterNodeCreation_def nodes_locked_def gomap_simps)
  then obtain d3 where "Prom_BeforeNodeRemoval label d2 = Ret d3"
    using close_channel_ok [of "pm_nodes d2" "pm_channels d2" label] created_inv [OF d2(1) inv1]
    by (auto simp: Prom_BeforeNodeRemoval_def prom_inv_def)
  then show ?thesis using d1 d2(1) by (simp add: Prom_BeforeNodeRemoval_def)
qed

theorem second_removal_panics_witness:
  "\<exists>d1. Prom_BeforeNodeRemoval ''A'' (one_node [] Receiving AwaitingTick) = Ret d1 \<and>
      Prom_BeforeNodeRemoval ''A'' d1 = Panic CloseOfNil"
proof -
  obtain d1 where "Prom_BeforeNodeRemoval ''A'' (one_node [] Receiving AwaitingTick) = Ret d1"
    by (simp add: Prom_BeforeNodeRemoval_def one_node_def nodes_locked_def close_channel_def)
  then show ?thesis using second_removal_panics [OF one_node_created] by blast
qed

end
