(* ===== verification/Monitor_Export.thy ===== *)
theory Monitor_Export
  imports Monitor_Prometheus
begin

text \<open>
  The monitor (\<open>driver/monitoring/monitor.go\<close>), the registry of metrics (\<open>source.go\<close>) with all metrics the program registers, the records of an export
  (\<open>record.go\<close>) and the file they are written to (\<open>csv_raw_exporter.go\<close>).
\<close>

section \<open>Records\<close>

datatype subject = NetworkSubject | NodeSubject string | AppSubject string | UserSubject string int | OtherSubject

datatype position = BlockPosition int | TimePosition u64 | WorkerPosition int | OtherPosition

datatype metric_value =
  IntValue int | Float64Value real | Float32Value real | StringValue string | TimeValue gotime | DurationValue duration
| BlockStatusValue BlockStatus | OtherValue

record Record =
  rc_Network :: string
  rc_Node :: string
  rc_App :: string
  rc_Time :: "int option"
  rc_Block :: "int option"
  rc_Worker :: "int option"
  rc_Value :: string

definition empty_record :: Record where
  "empty_record = \<lparr>rc_Network = [], rc_Node = [], rc_App = [], rc_Time = None, rc_Block = None, rc_Worker = None, rc_Value = []\<rparr>"

definition SetSubject :: "subject \<Rightarrow> Record \<Rightarrow> Record outcome" where
  "SetSubject s r =
     (let r1 = r\<lparr>rc_Network := ''network''\<rparr>
      in case s of
           NetworkSubject \<Rightarrow> Ret r1
         | NodeSubject n \<Rightarrow> Ret (r1\<lparr>rc_Node := n\<rparr>)
         | AppSubject a \<Rightarrow> Ret (r1\<lparr>rc_App := a\<rparr>)
         | UserSubject a i \<Rightarrow> Ret (r1\<lparr>rc_App := a, rc_Worker := Some i\<rparr>)
         | OtherSubject \<Rightarrow> Panic UnsupportedType)"

text \<open>
  \<open>Time.Time\<close> as nanoseconds since 1970: seconds and the rest of an unsigned number, both read as signed ones. \<open>UnixNano\<close> wraps around at 64 bits.
\<close>

definition Time_Time :: "u64 \<Rightarrow> gotime" where
  "Time_Time t = sint (t div 1000000000) * 1000000000 + sint (t mod 1000000000)"

definition UnixNano :: "gotime \<Rightarrow> int" where
  "UnixNano t = sint (word_of_int t :: u64)"

definition SetPosition :: "position \<Rightarrow> Record \<Rightarrow> Record outcome" where
  "SetPosition p r =
     (case p of
        BlockPosition b \<Rightarrow> Ret (r\<lparr>rc_Block := Some b\<rparr>)
      | TimePosition t \<Rightarrow> Ret (r\<lparr>rc_Time := Some (UnixNano (Time_Time t))\<rparr>)
      | WorkerPosition w \<Rightarrow> Ret (r\<lparr>rc_Worker := Some w\<rparr>)
      | OtherPosition \<Rightarrow> Panic UnsupportedType)"

text \<open>\<open>fmt64\<close> and \<open>fmt32\<close> print floating-point numbers of the two widths.\<close>

definition SetValue :: "(real \<Rightarrow> string) \<Rightarrow> (real \<Rightarrow> string) \<Rightarrow> metric_value \<Rightarrow> Record \<Rightarrow> Record outcome" where
  "SetValue fmt64 fmt32 v r =
     (case v of
        IntValue i \<Rightarrow> Ret (r\<lparr>rc_Value := fmt_d i\<rparr>)
      | Float64Value x \<Rightarrow> Ret (r\<lparr>rc_Value := fmt64 x\<rparr>)
      | Float32Value x \<Rightarrow> Ret (r\<lparr>rc_Value := fmt32 x\<rparr>)
      | StringValue s \<Rightarrow> Ret (r\<lparr>rc_Value := s\<rparr>)
      | TimeValue t \<Rightarrow> Ret (r\<lparr>rc_Value := fmt_d (UnixNano t)\<rparr>)
      | DurationValue d \<Rightarrow> Ret (r\<lparr>rc_Value := fmt_d d\<rparr>)
      | BlockStatusValue b \<Rightarrow> Ret (r\<lparr>rc_Value := fmt_d (uint (bst_BlockHeight b))\<rparr>)
      | OtherValue \<Rightarrow> Panic UnsupportedType)"

text \<open>The records of one series, as \<open>ForEachRecord\<close> of a source makes them; the points are those of \<open>series_records\<close>.\<close>

fun point_records ::
  "(real \<Rightarrow> string) \<Rightarrow> (real \<Rightarrow> string) \<Rightarrow> (position \<times> metric_value) list \<Rightarrow> Record \<Rightarrow> Record list outcome" where
  "point_records fmt64 fmt32 [] r = Ret []"
| "point_records fmt64 fmt32 ((p, v) # ps) r =
     bind_outcome (SetPosition p r) (\<lambda>r1. bind_outcome (SetValue fmt64 fmt32 v r1) (\<lambda>r2.
       bind_outcome (point_records fmt64 fmt32 ps r2) (\<lambda>rs. Ret (r2 # rs))))"

fun source_records ::
  "(real \<Rightarrow> string) \<Rightarrow> (real \<Rightarrow> string) \<Rightarrow> (subject \<times> (position \<times> metric_value) list) list \<Rightarrow> Record list outcome" where
  "source_records fmt64 fmt32 [] = Ret []"
| "source_records fmt64 fmt32 ((s, ps) # rest) =
     bind_outcome (SetSubject s empty_record) (\<lambda>r. bind_outcome (point_records fmt64 fmt32 ps r) (\<lambda>rs.
       bind_outcome (source_records fmt64 fmt32 rest) (\<lambda>rs1. Ret (rs @ rs1))))"

section \<open>The file\<close>

record CsvRecord =
  cv_Record :: Record
  cv_Metric :: string
  cv_Run :: string

definition csv_header :: string where
  "csv_header = ''run,metric,network,node,app,time,block,workers,value'' @ [CHR 0x0A]"

definition toStr :: "int option \<Rightarrow> string" where
  "toStr x = (case x of None \<Rightarrow> [] | Some i \<Rightarrow> fmt_d i)"

definition row_fields :: "CsvRecord \<Rightarrow> string list" where
  "row_fields r =
     [cv_Run r, cv_Metric r, rc_Network (cv_Record r), rc_Node (cv_Record r), rc_App (cv_Record r),
      toStr (rc_Time (cv_Record r)), toStr (rc_Block (cv_Record r)), toStr (rc_Worker (cv_Record r)), rc_Value (cv_Record r)]"

definition csv_line :: "CsvRecord \<Rightarrow> string" where
  "csv_line r = str_join '', '' (row_fields r) @ [CHR 0x0A]"

text \<open>
  A writer: what has been written, and which texts it fails on. A text that fails is not written and the error is returned.
\<close>

record writer =
  wr_out :: string
  wr_fails :: "string \<Rightarrow> bool"

definition write_text :: "string \<Rightarrow> writer \<Rightarrow> bool \<times> writer" where
  "write_text s w = (if wr_fails w s then (False, w) else (True, w\<lparr>wr_out := wr_out w @ s\<rparr>))"

definition WriteCsvHeader :: "writer \<Rightarrow> bool \<times> writer" where
  "WriteCsvHeader w = write_text csv_header w"

definition CsvRecord_WriteTo :: "CsvRecord \<Rightarrow> writer \<Rightarrow> bool \<times> writer" where
  "CsvRecord_WriteTo r w = write_text (csv_line r) w"

section \<open>Metrics and sources\<close>

datatype subject_type = NetworkT | NodeT | AppT | UserT

datatype position_type = BlockNumberT | TimeT

datatype value_type = IntT | Float64T | Float32T | StringT | TimeValueT | DurationT | BlockStatusT

text \<open>A metric has a name, a description and the types of its subjects and of its series.\<close>

record Metric =
  mt_Name :: string
  mt_Description :: string
  mt_type :: "subject_type \<times> position_type \<times> value_type"

text \<open>
  A source as the monitor sees it: its metric, its subjects and their data \<open>'d\<close>, the error of its shutdown, and the records it
  enumerates after it.
\<close>

record 'd source =
  so_metric :: Metric
  so_subjects :: "subject list"
  so_data :: "subject \<Rightarrow> 'd option"
  so_shutdown :: "string option"
  so_records :: "Record list"

record 'd Monitor =
  mn_EvaluationLabel :: string
  mn_OutputDir :: string
  mn_sources :: "(string, 'd source) gomap"

definition NewMonitor :: "string \<Rightarrow> string \<Rightarrow> bool \<Rightarrow> 'd Monitor option" where
  "NewMonitor label outputDir dispatcher_ok =
     (if dispatcher_ok
      then Some \<lparr>mn_EvaluationLabel = label, mn_OutputDir = if outputDir = [] then ''.'' else outputDir, mn_sources = []\<rparr>
      else None)"

definition GetMeasurementFileName :: "'d Monitor \<Rightarrow> string" where
  "GetMeasurementFileName m = mn_OutputDir m @ ''/measurements.csv''"

record 'd source_factory =
  fc_metric :: Metric
  fc_create :: "'d Monitor \<Rightarrow> 'd source"

datatype monitor_error =
  AlreadyPresent string | MetricCollision string | NoDefinition string | SourceShutdownFailed string | CreateFailed | WriteFailed

definition InstallSource :: "'d source_factory \<Rightarrow> 'd Monitor \<Rightarrow> monitor_error option \<times> 'd Monitor" where
  "InstallSource f m =
     (let name = mt_Name (fc_metric f)
      in if gm_get (mn_sources m) name \<noteq> None then (Some (AlreadyPresent name), m)
         else (None, m\<lparr>mn_sources := gm_set name (fc_create f m) (mn_sources m)\<rparr>))"

definition IsSupported :: "'d Monitor \<Rightarrow> Metric \<Rightarrow> bool" where
  "IsSupported m metric \<longleftrightarrow> gm_get (mn_sources m) (mt_Name metric) \<noteq> None"

text \<open>The type assertion on the source panics if it is of another type.\<close>

definition Monitor_GetSubjects :: "'d Monitor \<Rightarrow> Metric \<Rightarrow> subject list outcome" where
  "Monitor_GetSubjects m metric =
     (case gm_get (mn_sources m) (mt_Name metric) of
        None \<Rightarrow> Ret []
      | Some s \<Rightarrow> if mt_type (so_metric s) = mt_type metric then Ret (so_subjects s) else Panic FailedAssertion)"

definition Monitor_GetData :: "'d Monitor \<Rightarrow> subject \<Rightarrow> Metric \<Rightarrow> 'd option outcome" where
  "Monitor_GetData m s metric =
     (case gm_get (mn_sources m) (mt_Name metric) of
        None \<Rightarrow> Ret None
      | Some src \<Rightarrow> if mt_type (so_metric src) = mt_type metric then Ret (so_data src s) else Panic FailedAssertion)"

type_synonym 'd registry = "(string, 'd source_factory) gomap"

definition RegisterFactory :: "'d source_factory \<Rightarrow> 'd registry \<Rightarrow> monitor_error option \<times> 'd registry" where
  "RegisterFactory f reg =
     (let name = mt_Name (fc_metric f)
      in if gm_get reg name \<noteq> None then (Some (MetricCollision name), reg) else (None, gm_set name f reg))"

definition RegisterSource :: "Metric \<Rightarrow> ('d Monitor \<Rightarrow> 'd source) \<Rightarrow> 'd registry \<Rightarrow> monitor_error option \<times> 'd registry" where
  "RegisterSource metric create reg = RegisterFactory \<lparr>fc_metric = metric, fc_create = create\<rparr> reg"

fun InstallAllRegisteredSources :: "'d registry \<Rightarrow> 'd Monitor \<Rightarrow> monitor_error list \<times> 'd Monitor" where
  "InstallAllRegisteredSources [] m = ([], m)"
| "InstallAllRegisteredSources ((_, f) # reg) m =
     (let (err, m1) = InstallSource f m;
          (errs, m2) = InstallAllRegisteredSources reg m1
      in (case err of None \<Rightarrow> errs | Some e \<Rightarrow> e # errs, m2))"

definition InstallSourceFor :: "Metric \<Rightarrow> 'd registry \<Rightarrow> 'd Monitor \<Rightarrow> monitor_error option \<times> 'd Monitor" where
  "InstallSourceFor metric reg m =
     (case gm_get reg (mt_Name metric) of
        None \<Rightarrow> (Some (NoDefinition (mt_Name metric)), m)
      | Some f \<Rightarrow> InstallSource f m)"

section \<open>Shutdown\<close>

text \<open>
  The sources are shut down, then the file is created, with \<open>created\<close> whether that works, and all records of all sources are written to it. The file is
  what the writer has at the end.
\<close>

definition shutdown_errors :: "'d Monitor \<Rightarrow> monitor_error list" where
  "shutdown_errors m =
     concat (map (\<lambda>(_, s). case so_shutdown s of None \<Rightarrow> [] | Some e \<Rightarrow> [SourceShutdownFailed e]) (mn_sources m))"

definition monitor_rows :: "'d Monitor \<Rightarrow> CsvRecord list" where
  "monitor_rows m =
     concat (map (\<lambda>(metric, s). map (\<lambda>r. \<lparr>cv_Record = r, cv_Metric = metric, cv_Run = mn_EvaluationLabel m\<rparr>) (so_records s)) (mn_sources m))"

fun write_rows :: "CsvRecord list \<Rightarrow> monitor_error list \<Rightarrow> writer \<Rightarrow> monitor_error list \<times> writer" where
  "write_rows [] errs w = (errs, w)"
| "write_rows (r # rs) errs w =
     (let (ok, w1) = CsvRecord_WriteTo r w in write_rows rs (if ok then errs else errs @ [WriteFailed]) w1)"

definition Monitor_Shutdown :: "bool \<Rightarrow> (string \<Rightarrow> bool) \<Rightarrow> 'd Monitor \<Rightarrow> monitor_error list \<times> string option" where
  "Monitor_Shutdown created fails m =
     (let errs = shutdown_errors m
      in if \<not> created then (CreateFailed # errs, None)
         else
           let (ok, w) = WriteCsvHeader \<lparr>wr_out = [], wr_fails = fails\<rparr>;
               (errs1, w1) = write_rows (monitor_rows m) (if ok then errs else errs @ [WriteFailed]) w
           in (errs1, Some (wr_out w1)))"

text \<open>
  The timings of the steps are appended to the file after the run, with \<open>opened\<close> whether it can be opened; the first error ends it.
\<close>

fun append_timings :: "string \<Rightarrow> (string \<times> gotime \<times> gotime) list \<Rightarrow> writer \<Rightarrow> monitor_error option \<times> writer" where
  "append_timings label [] w = (None, w)"
| "append_timings label ((name, start, end) # events) w =
     (let r = \<lparr>rc_Network = ''network'', rc_Node = [], rc_App = name, rc_Time = Some (UnixNano start), rc_Block = None, rc_Worker = None,
               rc_Value = fmt_d (time_sub end start)\<rparr>;
          (ok, w1) = CsvRecord_WriteTo \<lparr>cv_Record = r, cv_Metric = ''ScenarioStepExecutionDuration'', cv_Run = label\<rparr> w
      in if ok then append_timings label events w1 else (Some WriteFailed, w1))"

definition appendScenarioStepTimings ::
  "bool \<Rightarrow> string \<Rightarrow> (string \<times> gotime \<times> gotime) list \<Rightarrow> writer \<Rightarrow> monitor_error option \<times> writer" where
  "appendScenarioStepTimings opened label events w =
     (if events = [] then (None, w) else if \<not> opened then (Some CreateFailed, w) else append_timings label events w)"

end
