(* ===== verification/Monitor_Metrics.thy ===== *)
theory Monitor_Metrics
  imports Monitor_Export
begin

text \<open>
  The metrics that the packages under \<open>driver/monitoring\<close> register when the program starts, each with the types of its subjects, positions and
  values.
\<close>

section \<open>Metrics\<close>

definition BlockNumberOfTransactions :: Metric where
  "BlockNumberOfTransactions = \<lparr>mt_Name = ''BlockNumberOfTransactions'',
     mt_Description = ''The number of transactions processed in a block'',
     mt_type = (NetworkT, BlockNumberT, IntT)\<rparr>"

definition BlockGasUsed :: Metric where
  "BlockGasUsed = \<lparr>mt_Name = ''BlockGasUsed'',
     mt_Description = ''The gas used in a block'',
     mt_type = (NetworkT, BlockNumberT, IntT)\<rparr>"

definition BlockGasBaseFee :: Metric where
  "BlockGasBaseFee = \<lparr>mt_Name = ''BlockGasBaseFee'',
     mt_Description = ''The base fee per gas used in a block'',
     mt_type = (NetworkT, BlockNumberT, IntT)\<rparr>"

definition BlockGasRate :: Metric where
  "BlockGasRate = \<lparr>mt_Name = ''BlockGasRate'',
     mt_Description = ''The gas rate in a block'',
     mt_type = (NetworkT, BlockNumberT, Float64T)\<rparr>"

definition NumberOfNodes :: Metric where
  "NumberOfNodes = \<lparr>mt_Name = ''NumberOfNodes'',
     mt_Description = ''The number of connected nodes at various times.'',
     mt_type = (NetworkT, TimeT, IntT)\<rparr>"

definition ValidatorStake :: Metric where
  "ValidatorStake = \<lparr>mt_Name = ''ValidatorStake'',
     mt_Description = ''The current-epoch received stake per validator obtained from SFC.GetEpochReceivedStake().'',
     mt_type = (NodeT, TimeT, StringT)\<rparr>"

definition BlockCompletionTime :: Metric where
  "BlockCompletionTime = \<lparr>mt_Name = ''BlockCompletionTime'',
     mt_Description = ''Time the block was completed'',
     mt_type = (NodeT, BlockNumberT, TimeValueT)\<rparr>"

definition BlockEventAndTxsProcessingTime :: Metric where
  "BlockEventAndTxsProcessingTime = \<lparr>mt_Name = ''BlockEventAndTxsProcessingTime'',
     mt_Description = ''Time to process a block, it applies all lachesis events, applies all transactions, and commits stateDB'',
     mt_type = (NodeT, BlockNumberT, DurationT)\<rparr>"

definition NodeBlockStatus :: Metric where
  "NodeBlockStatus = \<lparr>mt_Name = ''NodeBlockStatus'',
     mt_Description = ''The epoch number and block height of nodes at various times.'',
     mt_type = (NodeT, TimeT, BlockStatusT)\<rparr>"

definition NodeCpuProfile :: Metric where
  "NodeCpuProfile = \<lparr>mt_Name = ''NodeCpuProfile'',
     mt_Description = ''CpuProfile samples of a node at various times.'',
     mt_type = (NodeT, TimeT, StringT)\<rparr>"

definition NodeEpochStatus :: Metric where
  "NodeEpochStatus = \<lparr>mt_Name = ''NodeEpochStatus'',
     mt_Description = ''The epoch number of nodes at various times.'',
     mt_type = (NodeT, TimeT, IntT)\<rparr>"

definition TransactionsThroughput :: Metric where
  "TransactionsThroughput = \<lparr>mt_Name = ''TransactionsThroughput'',
     mt_Description = ''The number of transactions processed per certain time period by each node'',
     mt_type = (NodeT, BlockNumberT, Float32T)\<rparr>"

definition ReceivedTransactions :: Metric where
  "ReceivedTransactions = \<lparr>mt_Name = ''ReceivedTransactions'',
     mt_Description = ''The number of transactions actually received by an application over time'',
     mt_type = (AppT, TimeT, IntT)\<rparr>"

definition SentTransactions :: Metric where
  "SentTransactions = \<lparr>mt_Name = ''SentTransactions'',
     mt_Description = ''The number of transactions attempted to be sent to an application'',
     mt_type = (UserT, TimeT, IntT)\<rparr>"

definition TransactionsPending :: Metric where
  "TransactionsPending = \<lparr>mt_Name = ''TransactionsPending'',
     mt_Description = ''The number of submitted transactions the network could emit right away, waiting for capacity'',
     mt_type = (AppT, TimeT, IntT)\<rparr>"

definition TransactionsStalled :: Metric where
  "TransactionsStalled = \<lparr>mt_Name = ''TransactionsStalled'',
     mt_Description = ''The number of submitted transactions stalling in a pool behind a missing nonce of their own sender'',
     mt_type = (AppT, TimeT, IntT)\<rparr>"

definition TransactionsEmitted :: Metric where
  "TransactionsEmitted = \<lparr>mt_Name = ''TransactionsEmitted'',
     mt_Description = ''The number of transactions carried by an event of the DAG but not yet by a block'',
     mt_type = (AppT, TimeT, IntT)\<rparr>"

definition TransactionsIncluded :: Metric where
  "TransactionsIncluded = \<lparr>mt_Name = ''TransactionsIncluded'',
     mt_Description = ''The total number of transactions that became part of a block'',
     mt_type = (AppT, TimeT, IntT)\<rparr>"

definition TransactionsRejected :: Metric where
  "TransactionsRejected = \<lparr>mt_Name = ''TransactionsRejected'',
     mt_Description = ''The total number of transactions a node refused to accept'',
     mt_type = (AppT, TimeT, IntT)\<rparr>"

definition BlockTransactionsPerApp :: Metric where
  "BlockTransactionsPerApp = \<lparr>mt_Name = ''BlockTransactionsPerApp'',
     mt_Description = ''The number of transactions of an application in a block, the transactions of none of them under '' @ OtherTransactions,
     mt_type = (AppT, BlockNumberT, IntT)\<rparr>"

definition BlockGasPerApp :: Metric where
  "BlockGasPerApp = \<lparr>mt_Name = ''BlockGasPerApp'',
     mt_Description = ''The gas used in a block by the transactions of an application, the transactions of none of them under '' @ OtherTransactions,
     mt_type = (AppT, BlockNumberT, IntT)\<rparr>"

definition BlockGasLimit :: Metric where
  "BlockGasLimit = \<lparr>mt_Name = ''BlockGasLimit'',
     mt_Description = ''The gas limit a block was formed under, as reported by its header'',
     mt_type = (NetworkT, BlockNumberT, IntT)\<rparr>"

definition EventGasLimit :: Metric where
  "EventGasLimit = \<lparr>mt_Name = ''EventGasLimit'',
     mt_Description = ''The gas one event carrying the transactions of a block may hold, the MaxEventGas rule'',
     mt_type = (NetworkT, BlockNumberT, IntT)\<rparr>"

definition GasPowerAllocPerSec :: Metric where
  "GasPowerAllocPerSec = \<lparr>mt_Name = ''GasPowerAllocPerSec'',
     mt_Description = ''The gas per second the validators of the network may spend together, the ShortGasPower.AllocPerSec rule'',
     mt_type = (NetworkT, BlockNumberT, IntT)\<rparr>"

definition TransactionTimeToEmit :: Metric where
  "TransactionTimeToEmit = \<lparr>mt_Name = ''TransactionTimeToEmit'',
     mt_Description = ''The time transactions spent between their submission and being emitted in an event'',
     mt_type = (AppT, TimeT, DurationT)\<rparr>"

definition TransactionTimeToInclude :: Metric where
  "TransactionTimeToInclude = \<lparr>mt_Name = ''TransactionTimeToInclude'',
     mt_Description = ''The time transactions spent between their submission and becoming part of a block'',
     mt_type = (AppT, TimeT, DurationT)\<rparr>"

definition TransactionTimeEmitToInclude :: Metric where
  "TransactionTimeEmitToInclude = \<lparr>mt_Name = ''TransactionTimeEmitToInclude'',
     mt_Description = ''The time emitted transactions needed to reach a block'',
     mt_type = (AppT, TimeT, DurationT)\<rparr>"

section \<open>Metrics of a family\<close>

text \<open>The moving averages of the throughput and the metrics read from Prometheus.\<close>

definition smaPeriods :: "nat list" where
  "smaPeriods = [10, 100, 1000]"

definition TransactionThroughputSMA :: "nat \<Rightarrow> Metric" where
  "TransactionThroughputSMA period =
     \<lparr>mt_Name = ''TransactionsThroughputSMA_'' @ itoa period, mt_Description = ''Transaction throughput standard moving average'',
      mt_type = (NodeT, BlockNumberT, Float32T)\<rparr>"

definition prometheus_metrics :: "PrometheusLogKey list" where
  "prometheus_metrics = map NewPrometheusNameKey
     [''txpool_received'', ''txpool_valid'', ''txpool_invalid'', ''txpool_underpriced'', ''txpool_overflowed'',
      ''txpool_pending'', ''txpool_queued'', ''system_cpu_procload'', ''system_memory_used'', ''db_size'', ''statedb_disksize'',
      ''emitter_events'', ''emitter_txs'', ''emitter_gas'', ''emitter_skip_emission_throttle'']"

definition toMetric :: "PrometheusLogKey \<Rightarrow> Metric" where
  "toMetric k =
     (let name = (if pk_Quantile k \<noteq> [] then pk_Name k @ ''_q'' @ pk_Quantile k else pk_Name k)
      in \<lparr>mt_Name = name, mt_Description = ''Prometheus metric for '' @ name, mt_type = (NodeT, TimeT, Float64T)\<rparr>)"

definition transaction_metrics :: "Metric list" where
  "transaction_metrics =
     [TransactionsPending, TransactionsStalled, TransactionsEmitted, TransactionsIncluded, TransactionsRejected,
      BlockTransactionsPerApp, BlockGasPerApp, BlockGasLimit, EventGasLimit, GasPowerAllocPerSec,
      TransactionTimeToEmit, TransactionTimeToInclude, TransactionTimeEmitToInclude]"

definition network_metrics :: "Metric list" where
  "network_metrics = [BlockNumberOfTransactions, BlockGasUsed, BlockGasBaseFee, BlockGasRate, NumberOfNodes, ValidatorStake]"

definition node_metrics :: "Metric list" where
  "node_metrics =
     [BlockCompletionTime, BlockEventAndTxsProcessingTime, NodeBlockStatus, NodeCpuProfile, NodeEpochStatus, TransactionsThroughput]
     @ map TransactionThroughputSMA smaPeriods @ map toMetric prometheus_metrics"

definition registered_metrics :: "Metric list" where
  "registered_metrics = network_metrics @ node_metrics @ [ReceivedTransactions, SentTransactions] @ transaction_metrics"

end
