(* ===== verification/Monitor_Export_Properties.thy ===== *)
theory Monitor_Export_Properties
  imports Monitor_Metrics
begin

text \<open>
  What is exported can be read back, times keep their value on the way, and all metrics of the program can be registered and installed.
\<close>

section \<open>Times\<close>

lemma Time_Time_uint: "Time_Time t = uint t"
proof -
  have small: "sint w = uint w" if "uint w < 2 ^ 63" for w :: u64
  proof -
    have "- (2 ^ 63) \<le> uint w" by (rule order_trans [OF _ uint_ge_0]) simp
    then show ?thesis using that signed_take_bit_int_eq_self [of 63 "uint w"] by (simp add: sint_uint)
  qed
  have "uint t < 18446744073709551616" using uint_bounded [of t] by simp
  then have "uint (t div 1000000000) < 2 ^ 63" "uint (t mod 1000000000) < 2 ^ 63"
    by (simp_all add: uint_div uint_mod)
  then show ?thesis by (simp add: Time_Time_def small uint_div uint_mod)
qed

text \<open>
  A moment within the range of 64-bit nanoseconds, before or after 1970, that enters a series as an unsigned number is exported as itself: \<open>NewTime\<close>, the position of
  a record and the nanoseconds in the file wrap around and back.
\<close>

theorem exported_time_exact:
  assumes "- (2 ^ 63) \<le> t" "t < 2 ^ 63" "SetPosition (TimePosition (NewTime t)) r = Ret r'"
  shows "rc_Time r' = Some t"
proof -
  have "UnixNano (Time_Time (NewTime t)) = sint (word_of_int t :: u64)"
    by (simp add: Time_Time_uint UnixNano_def NewTime_def)
  also have "\<dots> = t"
    using assms(1,2) by (simp add: signed_of_int signed_take_bit_int_eq_self)
  finally show ?thesis using assms(3) by (auto simp: SetPosition_def)
qed

theorem exported_time_exact_witness:
  "SetPosition (TimePosition (NewTime (- 5))) empty_record = Ret (empty_record\<lparr>rc_Time := Some (- 5)\<rparr>)"
proof -
  obtain r where r: "SetPosition (TimePosition (NewTime (- 5))) empty_record = Ret r" "r = empty_record\<lparr>rc_Time := rc_Time r\<rparr>"
    by (simp add: SetPosition_def)
  then show ?thesis using exported_time_exact [OF _ _ r(1)] by simp
qed

section \<open>Reading the file back\<close>

text \<open>The reader of the reports splits lines at commas and trims white space.\<close>

definition read_rows :: "string \<Rightarrow> string list list" where
  "read_rows file = map (\<lambda>line. map TrimSpace (str_split CHR '','' line)) (tl (butlast (str_split CHR 0x0A file)))"

definition plain :: "string \<Rightarrow> bool" where
  "plain s \<longleftrightarrow> CHR '','' \<notin> set s \<and> CHR 0x0A \<notin> set s \<and> TrimSpace s = s"

lemma TrimSpace_blank: "TrimSpace (CHR '' '' # s) = TrimSpace s"
  by (simp add: TrimSpace_def is_space_def)

lemma split_join_plain:
  "fs \<noteq> [] \<Longrightarrow> list_all plain fs \<Longrightarrow> map TrimSpace (str_split CHR '','' (str_join '', '' fs)) = fs"
proof (induction fs rule: induct_list012)
  case (3 f g fs)
  let ?rest = "str_join '', '' (g # fs)"
  have "str_split CHR '','' (str_join '', '' (f # g # fs)) = [f] @ str_split CHR '','' (CHR '' '' # ?rest)"
    using 3(4) split_append [of "CHR '',''" f "CHR '' '' # ?rest"] by (simp add: split_single plain_def)
  moreover have "map TrimSpace (str_split CHR '','' (CHR '' '' # ?rest)) = map TrimSpace (str_split CHR '','' ?rest)"
    by (cases "str_split CHR '','' ?rest") (simp_all add: TrimSpace_blank)
  ultimately show ?case using 3 by (simp add: plain_def)
qed (auto simp: split_single plain_def)

lemma split_lines:
  "\<forall>l \<in> set ls. c \<notin> set l \<Longrightarrow> str_split c (concat (map (\<lambda>l. l @ [c]) ls)) = ls @ [[]]"
proof (induction ls)
  case (Cons l ls)
  then show ?case using split_append [of c l "concat (map (\<lambda>l. l @ [c]) ls)"] by (simp add: split_single)
qed simp

lemma fmt_d_chars: "c \<in> set (fmt_d n) \<Longrightarrow> is_digit c \<or> c = CHR ''-''"
  using itoa_digits by (auto simp: fmt_d_def list_all_iff split: if_splits)

lemma plain_no_space: "(\<And>c. c \<in> set s \<Longrightarrow> c \<noteq> CHR '','' \<and> \<not> is_space c) \<Longrightarrow> plain s"
  by (cases "s = []") (auto simp: plain_def is_space_def intro!: TrimSpace_id)

lemma fmt_d_plain: "plain (fmt_d n)"
  by (rule plain_no_space) (auto dest!: fmt_d_chars simp: is_digit_def is_space_def)

lemma toStr_plain: "plain (toStr x)"
  by (cases x) (simp_all add: toStr_def fmt_d_plain, simp add: plain_def TrimSpace_def)

lemma fmt_d_inject: "fmt_d m = fmt_d n \<Longrightarrow> m = n"
proof -
  assume eq: "fmt_d m = fmt_d n"
  have sign: "itoa k \<noteq> CHR ''-'' # s" for k s
    using itoa_digits [of k] by (auto simp: is_digit_def)
  then have "(m < 0) = (n < 0)" using eq by (auto simp: fmt_d_def split: if_splits dest: sym)
  moreover from this eq have "itoa (nat \<bar>m\<bar>) = itoa (nat \<bar>n\<bar>)" by (auto simp: fmt_d_def split: if_splits)
  then have "nat \<bar>m\<bar> = nat \<bar>n\<bar>" by (metis itoa_val)
  ultimately show ?thesis by (auto simp: abs_if split: if_splits)
qed

lemma toStr_inject: "toStr x = toStr y \<longleftrightarrow> x = y"
proof -
  have "fmt_d n \<noteq> []" for n using itoa_digits by (simp add: fmt_d_def)
  from this this [symmetric] show ?thesis by (cases x; cases y) (auto simp: toStr_def dest: fmt_d_inject)
qed

lemma row_fields_inj: "inj row_fields"
proof (rule injI)
  fix r s :: CsvRecord
  assume "row_fields r = row_fields s"
  then have "cv_Record r = cv_Record s \<and> cv_Metric r = cv_Metric s \<and> cv_Run r = cv_Run s"
    by (simp add: row_fields_def toStr_inject Record.equality)
  then show "r = s" by (simp add: CsvRecord.equality)
qed

definition plain_row :: "CsvRecord \<Rightarrow> bool" where
  "plain_row r \<longleftrightarrow>
     list_all plain [cv_Run r, cv_Metric r, rc_Network (cv_Record r), rc_Node (cv_Record r), rc_App (cv_Record r), rc_Value (cv_Record r)]"

lemma plain_row_fields: "plain_row r \<Longrightarrow> list_all plain (row_fields r)"
  by (simp add: plain_row_def row_fields_def toStr_plain)

lemma row_fields_nonempty: "row_fields r \<noteq> []"
  by (simp add: row_fields_def)

lemma str_join_chars: "c \<in> set (str_join sep fs) \<Longrightarrow> c \<in> set sep \<or> (\<exists>f \<in> set fs. c \<in> set f)"
  by (induction sep fs rule: str_join.induct) auto

lemma csv_line_one_line: "plain_row r \<Longrightarrow> CHR 0x0A \<notin> set (str_join '', '' (row_fields r))"
  using plain_row_fields [of r] by (auto simp: list_all_iff plain_def dest!: str_join_chars)

lemma write_rows_all:
  "\<not> (\<exists>s. wr_fails w s) \<Longrightarrow> write_rows rs errs w = (errs, w\<lparr>wr_out := wr_out w @ concat (map csv_line rs)\<rparr>)"
  by (induction rs arbitrary: w) (auto simp: CsvRecord_WriteTo_def write_text_def)


lemma minus_five: "fmt_d (- 5) = ''-5''"
  by code_simp


section \<open>Metrics\<close>

text \<open>Registering one factory after the other, as the packages do at the start; an error there makes the program panic.\<close>

fun register_all :: "'d source_factory list \<Rightarrow> 'd registry \<Rightarrow> monitor_error list \<times> 'd registry" where
  "register_all [] reg = ([], reg)"
| "register_all (f # fs) reg =
     (let (err, reg1) = RegisterFactory f reg; (errs, reg2) = register_all fs reg1
      in (case err of None \<Rightarrow> errs | Some e \<Rightarrow> e # errs, reg2))"

abbreviation factory_name :: "'d source_factory \<Rightarrow> string" where
  "factory_name f \<equiv> mt_Name (fc_metric f)"

lemma gm_set_appends: "gm_get m k = None \<Longrightarrow> gm_set k v m = m @ [(k, v)]"
  by (induction m) auto

lemma register_all_distinct:
  "distinct (map fst reg @ map factory_name fs) \<Longrightarrow> register_all fs reg = ([], reg @ map (\<lambda>f. (factory_name f, f)) fs)"
proof (induction fs arbitrary: reg)
  case (Cons f fs)
  then have "gm_get reg (factory_name f) = None" by (auto simp: gm_get_None_iff gm_keys_def)
  then have "RegisterFactory f reg = (None, reg @ [(factory_name f, f)])" by (simp add: RegisterFactory_def gm_set_appends)
  with Cons show ?case by auto
qed simp

lemma install_all_distinct:
  "distinct (gm_keys (mn_sources m) @ map (factory_name \<circ> snd) reg) \<Longrightarrow>
     \<exists>m'. InstallAllRegisteredSources reg m = ([], m') \<and>
       gm_keys (mn_sources m') = gm_keys (mn_sources m) @ map (factory_name \<circ> snd) reg"
proof (induction reg arbitrary: m)
  case (Cons nf reg)
  obtain n f where nf: "nf = (n, f)" by (cases nf)
  let ?m1 = "m\<lparr>mn_sources := mn_sources m @ [(factory_name f, fc_create f m)]\<rparr>"
  have "gm_get (mn_sources m) (factory_name f) = None" using Cons.prems by (auto simp: gm_get_None_iff nf)
  then have step: "InstallSource f m = (None, ?m1)" by (simp add: InstallSource_def gm_set_appends)
  have "distinct (gm_keys (mn_sources ?m1) @ map (factory_name \<circ> snd) reg)" using Cons.prems by (auto simp: gm_keys_def nf o_def)
  from Cons.IH [OF this] step show ?case by (auto simp: gm_keys_def nf)
qed simp

lemma install_all_again:
  "set (map (factory_name \<circ> snd) reg) \<subseteq> set (gm_keys (mn_sources m)) \<Longrightarrow>
     InstallAllRegisteredSources reg m = (map (AlreadyPresent \<circ> factory_name \<circ> snd) reg, m)"
  by (induction reg) (auto simp: InstallSource_def gm_get_None_iff)

lemma registered_metrics_distinct: "distinct (map mt_Name registered_metrics)"
  by code_simp

text \<open>
  The factories of all 45 metrics of the program can be registered in any order without a collision, and a new monitor installs all of
  them, in whichever order the registry is walked, without an error; it then supports exactly these metrics, and installing
  them once more gives one error for each.
\<close>

theorem metrics_installed:
  assumes factories: "mset (map fc_metric fs) = mset registered_metrics"
    and walk: "mset reg = mset (snd (register_all fs []))" and new: "NewMonitor label dir True = Some m"
  shows "fst (register_all fs []) = [] \<and>
    (\<exists>m1. InstallAllRegisteredSources reg m = ([], m1) \<and>
       (\<forall>metric. IsSupported m1 metric \<longleftrightarrow> mt_Name metric \<in> mt_Name ` set registered_metrics) \<and>
       length (fst (InstallAllRegisteredSources reg m1)) = 45)"
proof -
  have len: "length registered_metrics = 45" by code_simp
  have "mset (map factory_name fs) = mset (map mt_Name registered_metrics)"
    using arg_cong [OF factories, of "image_mset mt_Name"] by (simp add: image_mset.compositionality o_def)
  then have names: "distinct (map factory_name fs)" "set (map factory_name fs) = mt_Name ` set registered_metrics"
    using registered_metrics_distinct mset_eq_imp_distinct_iff mset_eq_setD by (blast, fastforce)
  then have registered: "register_all fs [] = ([], map (\<lambda>f. (factory_name f, f)) fs)"
    using register_all_distinct [of "[]" fs] by simp
  then have same: "mset (map (factory_name \<circ> snd) reg) = mset (map factory_name fs)"
    using arg_cong [OF walk, of "image_mset (factory_name \<circ> snd)"] by (simp add: image_mset.compositionality o_def)
  have reg: "distinct (map (factory_name \<circ> snd) reg)" "set (map (factory_name \<circ> snd) reg) = mt_Name ` set registered_metrics"
    using mset_eq_imp_distinct_iff [OF same] mset_eq_setD [OF same] names by (blast, fastforce)
  have size_reg: "length reg = 45"
    using len arg_cong [OF walk, of size] arg_cong [OF factories, of size] registered by simp
  have "mn_sources m = []" using new by (auto simp: NewMonitor_def)
  then obtain m1 where m1: "InstallAllRegisteredSources reg m = ([], m1)" "gm_keys (mn_sources m1) = map (factory_name \<circ> snd) reg"
    using install_all_distinct [of m reg] reg(1) by (auto simp: gm_keys_def)
  have "IsSupported m1 metric \<longleftrightarrow> mt_Name metric \<in> mt_Name ` set registered_metrics" for metric
    using reg(2) m1(2) by (simp add: IsSupported_def gm_get_None_iff)
  moreover have "length (fst (InstallAllRegisteredSources reg m1)) = 45"
    using install_all_again [of reg m1] m1(2) size_reg by simp
  ultimately show ?thesis using registered m1(1) by auto
qed

definition example_factory :: "Metric \<Rightarrow> unit source_factory" where
  "example_factory metric =
     \<lparr>fc_metric = metric,
      fc_create = \<lambda>_. \<lparr>so_metric = metric, so_subjects = [], so_data = \<lambda>_. None, so_shutdown = None, so_records = []\<rparr>\<rparr>"

theorem metrics_installed_witness:
  "fst (register_all (map example_factory (rev registered_metrics)) []) = []"
proof -
  have "mset (map fc_metric (map example_factory (rev registered_metrics))) = mset registered_metrics"
    by (simp add: example_factory_def o_def)
  moreover obtain m :: "unit Monitor" where "NewMonitor ''label'' [] True = Some m" by (simp add: NewMonitor_def)
  ultimately show ?thesis using metrics_installed by blast
qed

end
