(* ===== verification/Docker_Logs.thy ===== *)
theory Docker_Logs
  imports Go_Strings Go_Outcome
begin

text \<open>
  The output of a client (\<open>driver/docker/logs.go\<close>): a stream of bytes is split into lines, which are published to any number of
  subscribers with a buffer each; a subscriber that falls behind loses lines, and one that comes late sees the last 150 lines first.
\<close>

section \<open>Lines\<close>

abbreviation newline :: char where
  "newline \<equiv> CHR 0x0A"

definition IndexByte :: "char \<Rightarrow> string \<Rightarrow> nat option" where
  "IndexByte c s = (if c \<in> set s then Some (length (takeWhile (\<lambda>x. x \<noteq> c) s)) else None)"

lemma IndexByte_SomeD: "IndexByte c s = Some i \<Longrightarrow> i < length s"
proof -
  assume "IndexByte c s = Some i"
  then have "i = length (takeWhile (\<lambda>x. x \<noteq> c) s)" "c \<in> set s" by (auto simp: IndexByte_def split: if_splits)
  moreover have "length (takeWhile (\<lambda>x. x \<noteq> c) s) < length s" if "c \<in> set s"
    using that by (induction s) auto
  ultimately show ?thesis by simp
qed

text \<open>The loop of \<open>lineSplitter.Write\<close> over its buffer: the lines it emits and what stays in the buffer.\<close>

function (sequential) split_buffer :: "string \<Rightarrow> string list \<times> string" where
  "split_buffer buf =
     (case IndexByte newline buf of
        None \<Rightarrow> ([], buf)
      | Some i \<Rightarrow> let (ls, rest) = split_buffer (drop (i + 1) buf) in (take (i + 1) buf # ls, rest))"
  by pat_completeness auto
termination by (relation "measure length") (auto dest: IndexByte_SomeD)

declare split_buffer.simps [simp del]

definition lineSplitter_Write :: "string \<Rightarrow> string \<Rightarrow> string list \<times> string" where
  "lineSplitter_Write p buf = split_buffer (buf @ p)"

definition lineSplitter_flush :: "string \<Rightarrow> string list \<times> string" where
  "lineSplitter_flush buf = (if buf = [] then ([], buf) else ([buf], []))"

text \<open>All that is emitted for a stream that arrives in chunks.\<close>

fun split_stream :: "string list \<Rightarrow> string \<Rightarrow> string list" where
  "split_stream [] buf = fst (lineSplitter_flush buf)"
| "split_stream (p # ps) buf = (let (ls, rest) = lineSplitter_Write p buf in ls @ split_stream ps rest)"

text \<open>\<open>strings.Lines\<close>: the lines of a text, with their ends.\<close>

function (sequential) Lines :: "string \<Rightarrow> string list" where
  "Lines s =
     (case IndexByte newline s of
        None \<Rightarrow> if s = [] then [] else [s]
      | Some i \<Rightarrow> take (i + 1) s # Lines (drop (i + 1) s))"
  by pat_completeness auto
termination by (relation "measure length") (auto dest: IndexByte_SomeD)

declare Lines.simps [simp del]

lemma IndexByte_append: "IndexByte c s = Some i \<Longrightarrow> IndexByte c (s @ t) = Some i"
  by (auto simp: IndexByte_def takeWhile_append split: if_splits)

lemma split_buffer_append:
  "split_buffer (s @ t) =
     (let (ls, rest) = split_buffer s; (ls1, rest1) = split_buffer (rest @ t) in (ls @ ls1, rest1))"
proof (induction s rule: split_buffer.induct)
  case (1 s)
  show ?case
  proof (cases "IndexByte newline s")
    case None
    then show ?thesis by (simp add: split_buffer.simps [of s])
  next
    case (Some i)
    then have "i < length s" by (rule IndexByte_SomeD)
    with 1 [OF Some] IndexByte_append [OF Some, of t] Some show ?thesis
      by (simp add: split_buffer.simps [of s] split_buffer.simps [of "s @ t"] split_beta Let_def)
  qed
qed

lemma split_buffer_Lines: "fst (split_buffer s) @ fst (lineSplitter_flush (snd (split_buffer s))) = Lines s"
proof (induction s rule: split_buffer.induct)
  case (1 s)
  show ?case
  proof (cases "IndexByte newline s")
    case None
    then show ?thesis by (simp add: split_buffer.simps [of s] Lines.simps [of s] lineSplitter_flush_def)
  next
    case (Some i)
    then show ?thesis using 1 [OF Some] by (simp add: split_buffer.simps [of s] Lines.simps [of s] split_beta)
  qed
qed

lemma split_stream_Lines: "fst (split_buffer s) @ split_stream ps (snd (split_buffer s)) = Lines (s @ concat ps)"
proof (induction ps arbitrary: s)
  case Nil
  show ?case by (simp add: split_buffer_Lines)
next
  case (Cons p ps)
  then show ?case using Cons.IH [of "s @ p"] by (simp add: split_buffer_append [of s p] lineSplitter_Write_def split_beta Let_def)
qed

section \<open>The broadcaster\<close>

text \<open>
  A subscription: the lines in its channel, whether the channel is closed, the line it is about to hand out, how many lines were
  dropped, and whether it was closed by its reader. Its history is kept with it: the lines it was offered and the bytes it has
  handed out. The subscriptions are numbered; \<open>subscribers\<close> are those the broadcaster serves, and all lines it has published are
  its history.
\<close>

record logSubscription =
  ls_lines :: "string list"
  ls_linesClosed :: bool
  ls_pending :: string
  ls_dropped :: nat
  ls_done :: bool
  ls_offered :: "string list"
  ls_delivered :: string

record logBroadcaster =
  lb_subs :: "logSubscription list"
  lb_subscribers :: "nat list"
  lb_replay :: "string list"
  lb_closed :: bool
  lb_published :: "string list"

definition logReplayLines :: nat where
  "logReplayLines = 150"

definition logSubscriberBuffer :: nat where
  "logSubscriberBuffer = 8192"

definition newLogBroadcaster :: logBroadcaster where
  "newLogBroadcaster = \<lparr>lb_subs = [], lb_subscribers = [], lb_replay = [], lb_closed = False, lb_published = []\<rparr>"

definition offer :: "string \<Rightarrow> logSubscription \<Rightarrow> logSubscription outcome" where
  "offer line s =
     (if ls_linesClosed s then Panic SendOnClosed
      else
        let s1 = s\<lparr>ls_offered := ls_offered s @ [line]\<rparr>
        in Ret (if length (ls_lines s) < logSubscriberBuffer then s1\<lparr>ls_lines := ls_lines s @ [line]\<rparr>
                else s1\<lparr>ls_dropped := ls_dropped s + 1\<rparr>))"

fun offer_to :: "string \<Rightarrow> nat list \<Rightarrow> logSubscription list \<Rightarrow> logSubscription list outcome" where
  "offer_to line [] subs = Ret subs"
| "offer_to line (i # is) subs = bind_outcome (offer line (subs ! i)) (\<lambda>s. offer_to line is (subs[i := s]))"

definition publish :: "string \<Rightarrow> logBroadcaster \<Rightarrow> logBroadcaster outcome" where
  "publish line b =
     (if lb_closed b then Ret b
      else
        let replay = (if length (lb_replay b) = logReplayLines then drop 1 (lb_replay b) else lb_replay b) @ [line]
        in bind_outcome (offer_to line (lb_subscribers b) (lb_subs b))
             (\<lambda>subs. Ret (b\<lparr>lb_replay := replay, lb_subs := subs, lb_published := lb_published b @ [line]\<rparr>)))"

fun close_lines :: "nat list \<Rightarrow> logSubscription list \<Rightarrow> logSubscription list outcome" where
  "close_lines [] subs = Ret subs"
| "close_lines (i # is) subs =
     (if ls_linesClosed (subs ! i) then Panic CloseOfClosed
      else close_lines is (subs[i := (subs ! i)\<lparr>ls_linesClosed := True\<rparr>]))"

definition broadcaster_close :: "logBroadcaster \<Rightarrow> logBroadcaster outcome" where
  "broadcaster_close b =
     (if lb_closed b then Ret b
      else bind_outcome (close_lines (lb_subscribers b) (lb_subs b))
             (\<lambda>subs. Ret (b\<lparr>lb_closed := True, lb_subs := subs, lb_subscribers := []\<rparr>)))"

fun replay_to :: "string list \<Rightarrow> logSubscription \<Rightarrow> logSubscription outcome" where
  "replay_to [] s = Ret s"
| "replay_to (line # lines) s = bind_outcome (offer line s) (replay_to lines)"

definition subscribe :: "logBroadcaster \<Rightarrow> logBroadcaster outcome" where
  "subscribe b =
     bind_outcome
       (replay_to (lb_replay b)
          \<lparr>ls_lines = [], ls_linesClosed = False, ls_pending = [], ls_dropped = 0, ls_done = False, ls_offered = [], ls_delivered = []\<rparr>)
       (\<lambda>s. Ret (if lb_closed b then b\<lparr>lb_subs := lb_subs b @ [s\<lparr>ls_linesClosed := True\<rparr>]\<rparr>
                 else b\<lparr>lb_subs := lb_subs b @ [s], lb_subscribers := lb_subscribers b @ [length (lb_subs b)]\<rparr>))"

text \<open>
  One call of \<open>Read\<close> with room for \<open>room\<close> bytes: \<open>None\<close> is the end of the stream. The loop takes lines from the channel until
  one is not empty; with none left it ends if the channel, the subscription or its context is closed, and blocks otherwise. An end
  that a waiting reader meets because its subscription or context ends is the answer to the channel as its first \<open>select\<close> saw it;
  it does not change the state, and a line that arrives in between stays in the channel.
\<close>

fun next_line :: "string list \<Rightarrow> string option \<times> string list" where
  "next_line [] = (None, [])"
| "next_line (l # ls) = (if l = [] then next_line ls else (Some l, ls))"

definition subscription_Read :: "nat \<Rightarrow> bool \<Rightarrow> logSubscription \<Rightarrow> (string option \<times> logSubscription) outcome" where
  "subscription_Read room ctxDone s =
     (let (line, rest) = (if ls_pending s = [] then next_line (ls_lines s) else (Some (ls_pending s), ls_lines s))
      in case line of
           Some p \<Rightarrow>
             Ret (Some (take room p),
               s\<lparr>ls_lines := rest, ls_pending := drop room p, ls_delivered := ls_delivered s @ take room p\<rparr>)
         | None \<Rightarrow>
             if ls_linesClosed s \<or> ls_done s \<or> ctxDone then Ret (None, s\<lparr>ls_lines := rest\<rparr>) else Blocked)"

definition subscription_Close :: "nat \<Rightarrow> logBroadcaster \<Rightarrow> logBroadcaster" where
  "subscription_Close i b =
     (if ls_done (lb_subs b ! i) then b
      else b\<lparr>lb_subscribers := removeAll i (lb_subscribers b), lb_subs := (lb_subs b)[i := (lb_subs b ! i)\<lparr>ls_done := True\<rparr>]\<rparr>)"

text \<open>All operations hold the lock of the broadcaster, except \<open>Read\<close>, which has the channel to itself.\<close>

inductive log_step :: "logBroadcaster \<Rightarrow> logBroadcaster \<Rightarrow> bool" where
  published: "publish line b = Ret b' \<Longrightarrow> log_step b b'"
| closed: "broadcaster_close b = Ret b' \<Longrightarrow> log_step b b'"
| subscribed: "subscribe b = Ret b' \<Longrightarrow> log_step b b'"
| read: "i < length (lb_subs b) \<Longrightarrow> subscription_Read room ctxDone (lb_subs b ! i) = Ret (answer, s) \<Longrightarrow>
    log_step b (b\<lparr>lb_subs := (lb_subs b)[i := s]\<rparr>)"
| unsubscribed: "i < length (lb_subs b) \<Longrightarrow> log_step b (subscription_Close i b)"

definition log_reachable :: "logBroadcaster \<Rightarrow> bool" where
  "log_reachable b \<longleftrightarrow> log_step\<^sup>*\<^sup>* newLogBroadcaster b"

end
