(* ===== verification/Docker_Images.thy ===== *)
theory Docker_Images
  imports Docker_Logs "HOL-Library.Char_ord" "HOL-Library.List_Lexorder"
begin

text \<open>
  Provisioning of the images of a run: which images are built and which are pulled, and the search for the directory they are
  built in (\<open>driver/docker/images.go\<close>), the versions the clients of the images report (\<open>driver/docker/client_version.go\<close>) and the
  sharing of one provisioning between nodes that start at the same time (\<open>ensureImageAvailable\<close> of \<open>driver/node/opera.go\<close>).
\<close>

section \<open>Plans\<close>

definition sonicRepositoryURL :: string where
  "sonicRepositoryURL = ''https://github.com/0xsoniclabs/sonic.git''"

definition DefaultSonicLocalPath :: string where
  "DefaultSonicLocalPath = ''sonic''"

text \<open>The package variable \<open>sonicLocalPath\<close> is the argument \<open>local\<close> of the definitions that read it.\<close>

definition SetSonicLocalPath :: "string \<Rightarrow> string" where
  "SetSonicLocalPath path = (if path = [] then DefaultSonicLocalPath else path)"

datatype imageBuildKind = imageBuildNone | imageBuildSonicRemote | imageBuildSonicLocal

record imageBuildPlan =
  ip_kind :: imageBuildKind
  ip_clientSrc :: string

definition planImage :: "string \<Rightarrow> string \<Rightarrow> imageBuildPlan" where
  "planImage local imageRef =
     (if imageRef = ''sonic'' then \<lparr>ip_kind = imageBuildSonicRemote, ip_clientSrc = sonicRepositoryURL\<rparr>
      else if imageRef = ''sonic:local'' then \<lparr>ip_kind = imageBuildSonicLocal, ip_clientSrc = local\<rparr>
      else if imageRef = ''sonic:latest'' then \<lparr>ip_kind = imageBuildSonicRemote, ip_clientSrc = sonicRepositoryURL\<rparr>
      else if HasPrefix imageRef ''sonic:'' \<and> TrimPrefix imageRef ''sonic:'' \<noteq> []
      then \<lparr>ip_kind = imageBuildSonicRemote, ip_clientSrc = sonicRepositoryURL @ ''#'' @ TrimPrefix imageRef ''sonic:''\<rparr>
      else \<lparr>ip_kind = imageBuildNone, ip_clientSrc = []\<rparr>)"

definition WillBuildImage :: "string \<Rightarrow> string \<Rightarrow> bool" where
  "WillBuildImage local imageRef =
     (let plan = planImage local imageRef in ip_kind plan = imageBuildSonicRemote \<or> ip_kind plan = imageBuildSonicLocal)"

text \<open>
  The set of references is a list of keys in the order a range over the map visits them; the result is sorted, so that this order
  does not matter.
\<close>

fun collect_refs :: "string list \<Rightarrow> string list \<Rightarrow> string list" where
  "collect_refs [] seen = seen"
| "collect_refs (imageRef # refs) seen = collect_refs refs (if TrimSpace imageRef = [] then seen else List.insert imageRef seen)"

definition NormalizeImageRefs :: "string list \<Rightarrow> string list" where
  "NormalizeImageRefs refs = sort (collect_refs refs [])"

section \<open>The build root\<close>

text \<open>
  An absolute path is the list of its elements; the root has none. What \<open>os.Stat\<close> and \<open>os.ReadFile\<close> find there is a file with its
  content or a directory; \<open>None\<close> stands for every error.
\<close>

datatype fs_entry = RegularFile string | Directory

type_synonym file_tree = "string list \<Rightarrow> fs_entry option"

definition filepath_Dir :: "string list \<Rightarrow> string list" where
  "filepath_Dir dir = butlast dir"

definition fileExists :: "file_tree \<Rightarrow> string list \<Rightarrow> bool" where
  "fileExists fs path = (case fs path of Some info \<Rightarrow> info \<noteq> Directory | None \<Rightarrow> False)"

definition normaModulePath :: string where
  "normaModulePath = ''module github.com/0xsoniclabs/norma''"

definition isNormaModuleDir :: "file_tree \<Rightarrow> string list \<Rightarrow> bool" where
  "isNormaModuleDir fs dir =
     (case fs (dir @ [''go.mod'']) of
        Some (RegularFile content) \<Rightarrow> list_ex (\<lambda>line. TrimSpace line = normaModulePath) (Lines content)
      | _ \<Rightarrow> False)"

function (sequential) search_root :: "file_tree \<Rightarrow> string list \<Rightarrow> string list option" where
  "search_root fs dir =
     (if fileExists fs (dir @ [''Dockerfile'']) \<and> isNormaModuleDir fs dir then Some dir
      else
        let parent = filepath_Dir dir
        in if parent = dir then None else search_root fs parent)"
  by pat_completeness auto
termination
proof (relation "measure (length \<circ> snd)", goal_cases)
  case (2 fs dir parent)
  then have "dir \<noteq> []" by (auto simp: filepath_Dir_def)
  then show ?case using 2 by (simp add: filepath_Dir_def)
qed simp

declare search_root.simps [simp del]

section \<open>Provisioning\<close>

text \<open>The default case of the plans' kinds is not among the errors: \<open>planImage\<close> gives no fourth kind.\<close>

datatype image_error =
    GetwdFailed
  | AbsFailed
  | NoBuildRoot
  | ClientFailed
  | PullFailed string
  | PullOutputFailed string
  | BuildFailed string string
  | VersionRunFailed string string
  | NoVersionReported string string

text \<open>
  What the code calls: the working directory, absolute paths, the client of the engine, the pull of an image (an error, or a
  stream whose reading fails or not) and the commands \<open>docker build\<close> and \<open>docker run\<close> with their combined output and whether they
  succeed. They act on a world \<open>'w\<close>.
\<close>

record 'w image_tools =
  it_Getwd :: "string option"
  it_Abs :: "string \<Rightarrow> string list option"
  it_fs :: file_tree
  it_NewClient :: bool
  it_ImagePull :: "string \<Rightarrow> 'w \<Rightarrow> bool option \<times> 'w"
  it_build :: "string list \<Rightarrow> string list \<Rightarrow> 'w \<Rightarrow> (bool \<times> string) \<times> 'w"
  it_run :: "string list \<Rightarrow> 'w \<Rightarrow> (bool \<times> string) \<times> 'w"

definition ResolveBuildRoot :: "'w image_tools \<Rightarrow> string \<Rightarrow> image_error + string list" where
  "ResolveBuildRoot tools startDir =
     (case it_Abs tools startDir of
        None \<Rightarrow> Inl AbsFailed
      | Some dir \<Rightarrow> (case search_root (it_fs tools) dir of Some root \<Rightarrow> Inr root | None \<Rightarrow> Inl NoBuildRoot))"

definition pullImage :: "'w image_tools \<Rightarrow> string \<Rightarrow> 'w \<Rightarrow> image_error option \<times> 'w" where
  "pullImage tools imageRef w =
     (case it_ImagePull tools imageRef w of
        (None, w1) \<Rightarrow> (Some (PullFailed imageRef), w1)
      | (Some drained, w1) \<Rightarrow> (if drained then None else Some (PullOutputFailed imageRef), w1))"

definition buildImage :: "'w image_tools \<Rightarrow> string list \<Rightarrow> string \<Rightarrow> string \<Rightarrow> 'w \<Rightarrow> image_error option \<times> 'w" where
  "buildImage tools buildRoot imageRef clientSrc w =
     (case it_build tools buildRoot [''build'', ''--build-context'', ''client-src='' @ clientSrc, ''.'', ''-t'', imageRef] w of
        ((ok, output), w1) \<Rightarrow> (if ok then None else Some (BuildFailed imageRef (TrimSpace output)), w1))"

definition ensure_one :: "'w image_tools \<Rightarrow> string \<Rightarrow> string list \<Rightarrow> string \<Rightarrow> 'w \<Rightarrow> image_error option \<times> 'w" where
  "ensure_one tools local buildRoot ref w =
     (let plan = planImage local ref
      in case ip_kind plan of
           imageBuildSonicRemote \<Rightarrow> buildImage tools buildRoot ref (ip_clientSrc plan) w
         | imageBuildSonicLocal \<Rightarrow> buildImage tools buildRoot ref (ip_clientSrc plan) w
         | imageBuildNone \<Rightarrow> pullImage tools ref w)"

fun ensure_refs :: "(string \<Rightarrow> 'w \<Rightarrow> 'e option \<times> 'w) \<Rightarrow> string list \<Rightarrow> 'w \<Rightarrow> 'e option \<times> 'w" where
  "ensure_refs ensure [] w = (None, w)"
| "ensure_refs ensure (ref # refs) w =
     (case ensure ref w of
        (Some err, w1) \<Rightarrow> (Some err, w1)
      | (None, w1) \<Rightarrow> ensure_refs ensure refs w1)"

definition EnsureImages :: "'w image_tools \<Rightarrow> string \<Rightarrow> string list \<Rightarrow> string \<Rightarrow> 'w \<Rightarrow> image_error option \<times> 'w" where
  "EnsureImages tools local imageRefs buildRoot w =
     (if imageRefs = [] then (None, w)
      else
        case (if buildRoot = [] then it_Getwd tools else Some buildRoot) of
          None \<Rightarrow> (Some GetwdFailed, w)
        | Some start \<Rightarrow>
            (case ResolveBuildRoot tools start of
               Inl err \<Rightarrow> (Some err, w)
             | Inr root \<Rightarrow>
                 let refs = NormalizeImageRefs imageRefs
                 in if \<not> it_NewClient tools then (Some ClientFailed, w)
                    else ensure_refs (ensure_one tools local root) refs w))"

section \<open>Versions\<close>

definition SonicdBinaryPath :: string where
  "SonicdBinaryPath = ''/sonicd''"

text \<open>
  The expression \<open>(?m)^Version:[ \t]*(\S+)\<close>: the first line that starts with \<open>Version:\<close> and has a word after the blanks gives
  that word.
\<close>

definition regexp_space :: "char \<Rightarrow> bool" where
  "regexp_space c \<longleftrightarrow> c \<in> {CHR '' '', CHR 0x09, CHR 0x0A, CHR 0x0C, CHR 0x0D}"

definition match_version_line :: "string \<Rightarrow> string option" where
  "match_version_line line =
     (if HasPrefix line ''Version:''
      then
        let word = takeWhile (\<lambda>c. \<not> regexp_space c) (dropWhile (\<lambda>c. c \<in> {CHR '' '', CHR 0x09}) (TrimPrefix line ''Version:''))
        in if word = [] then None else Some word
      else None)"

definition parseReportedVersion :: "string \<Rightarrow> string option" where
  "parseReportedVersion output =
     (case filter (\<lambda>line. match_version_line line \<noteq> None) (str_split newline output) of
        [] \<Rightarrow> None
      | line # _ \<Rightarrow> match_version_line line)"

definition docker_clientVersion :: "'w image_tools \<Rightarrow> string \<Rightarrow> 'w \<Rightarrow> (image_error + string) \<times> 'w" where
  "docker_clientVersion tools imageRef w =
     (case it_run tools [''run'', ''--rm'', ''--entrypoint'', SonicdBinaryPath, imageRef, ''version''] w of
        ((ok, output), w1) \<Rightarrow>
          if \<not> ok then (Inl (VersionRunFailed imageRef (TrimSpace output)), w1)
          else
            case parseReportedVersion output of
              None \<Rightarrow> (Inl (NoVersionReported imageRef (TrimSpace output)), w1)
            | Some version \<Rightarrow> (Inr version, w1))"

fun ask_versions :: "'w image_tools \<Rightarrow> string list \<Rightarrow> string list \<Rightarrow> 'w \<Rightarrow> (image_error + string list) \<times> 'w" where
  "ask_versions tools [] versions w = (Inr versions, w)"
| "ask_versions tools (ref # refs) versions w =
     (case docker_clientVersion tools ref w of
        (Inl err, w1) \<Rightarrow> (Inl err, w1)
      | (Inr version, w1) \<Rightarrow> ask_versions tools refs (versions @ [version]) w1)"

definition ClientVersions :: "'w image_tools \<Rightarrow> string \<Rightarrow> string list \<Rightarrow> 'w \<Rightarrow> (image_error + string list) \<times> 'w" where
  "ClientVersions tools local imageRefs w =
     (let refs = NormalizeImageRefs imageRefs
      in case EnsureImages tools local refs [] w of
           (Some err, w1) \<Rightarrow> (Inl err, w1)
         | (None, w1) \<Rightarrow> ask_versions tools refs [] w1)"

section \<open>One provisioning for many nodes\<close>

text \<open>
  The entries of \<open>imageEnsureInFlight\<close> are numbered states with their completion signal and error. A goroutine in
  \<open>ensureImageAvailable\<close> has not looked at the map yet, waits for the state it found, runs \<open>EnsureImages\<close> for the state it
  entered, or has returned: with the result of a state, or with the error of its own context. Each step is what a goroutine does
  under the lock, or the end of its wait.
\<close>

record 'e imageEnsureState =
  ie_done :: bool
  ie_err :: "'e option"

datatype 'e ensure_thread =
    Entering string
  | Waiting string nat
  | Ensuring string nat
  | Finished string nat "'e option"
  | Cancelled string

record 'e ensure_world =
  ew_inFlight :: "string \<rightharpoonup> nat"
  ew_states :: "'e imageEnsureState list"
  ew_threads :: "'e ensure_thread list"

definition ensure_enter :: "nat \<Rightarrow> string \<Rightarrow> 'e ensure_world \<Rightarrow> 'e ensure_world" where
  "ensure_enter t img w =
     (case ew_inFlight w img of
        Some state \<Rightarrow> w\<lparr>ew_threads := (ew_threads w)[t := Waiting img state]\<rparr>
      | None \<Rightarrow>
          w\<lparr>ew_states := ew_states w @ [\<lparr>ie_done = False, ie_err = None\<rparr>],
            ew_inFlight := (ew_inFlight w)(img \<mapsto> length (ew_states w)),
            ew_threads := (ew_threads w)[t := Ensuring img (length (ew_states w))]\<rparr>)"

definition ensure_finish :: "nat \<Rightarrow> string \<Rightarrow> nat \<Rightarrow> 'e option \<Rightarrow> 'e ensure_world \<Rightarrow> 'e ensure_world" where
  "ensure_finish t img state err w =
     w\<lparr>ew_states := (ew_states w)[state := \<lparr>ie_done = True, ie_err = err\<rparr>],
       ew_inFlight := (ew_inFlight w)(img := None),
       ew_threads := (ew_threads w)[t := Finished img state err]\<rparr>"

inductive ensure_step :: "'e ensure_world \<Rightarrow> 'e ensure_world \<Rightarrow> bool" where
  call: "ensure_step w (w\<lparr>ew_threads := ew_threads w @ [Entering img]\<rparr>)"
| enter: "t < length (ew_threads w) \<Longrightarrow> ew_threads w ! t = Entering img \<Longrightarrow> ensure_step w (ensure_enter t img w)"
| finish: "t < length (ew_threads w) \<Longrightarrow> ew_threads w ! t = Ensuring img state \<Longrightarrow>
    ensure_step w (ensure_finish t img state err w)"
| signalled: "t < length (ew_threads w) \<Longrightarrow> ew_threads w ! t = Waiting img state \<Longrightarrow> ie_done (ew_states w ! state) \<Longrightarrow>
    ensure_step w (w\<lparr>ew_threads := (ew_threads w)[t := Finished img state (ie_err (ew_states w ! state))]\<rparr>)"
| cancelled: "t < length (ew_threads w) \<Longrightarrow> ew_threads w ! t = Waiting img state \<Longrightarrow>
    ensure_step w (w\<lparr>ew_threads := (ew_threads w)[t := Cancelled img]\<rparr>)"

definition ensure_reachable :: "'e ensure_world \<Rightarrow> bool" where
  "ensure_reachable w \<longleftrightarrow> ensure_step\<^sup>*\<^sup>* \<lparr>ew_inFlight = Map.empty, ew_states = [], ew_threads = []\<rparr> w"

end
