(* ===== verification/Docker_Images_Properties.thy ===== *)
theory Docker_Images_Properties
  imports Docker_Images
begin

text \<open>
  Images are provisioned once each, in the order of their names, in the nearest directory that holds the sources; nodes that ask for
  the same image at the same time share one provisioning.
\<close>

section \<open>References\<close>

lemma collect_refs_set: "set (collect_refs refs seen) = set seen \<union> {r \<in> set refs. TrimSpace r \<noteq> []}"
  by (induction refs seen rule: collect_refs.induct) auto

lemma collect_refs_distinct: "distinct seen \<Longrightarrow> distinct (collect_refs refs seen)"
  by (induction refs seen rule: collect_refs.induct) auto

lemma NormalizeImageRefs_sorted_set: "NormalizeImageRefs refs = sorted_list_of_set {r \<in> set refs. TrimSpace r \<noteq> []}"
  unfolding NormalizeImageRefs_def sorted_list_of_set_sort_remdups [of "collect_refs refs []", symmetric, simplified
      distinct_remdups_id [OF collect_refs_distinct [of "[]" refs, simplified]]]
  by (simp add: collect_refs_set)

definition ensure_effect :: "(string \<Rightarrow> 'w \<Rightarrow> 'e option \<times> 'w) \<Rightarrow> string list \<Rightarrow> 'w \<Rightarrow> 'w" where
  "ensure_effect ensure refs w = fold (\<lambda>r w. snd (ensure r w)) refs w"

lemma ensure_refs_prefix:
  "ensure_refs ensure refs w = (err, w') \<Longrightarrow>
     (err = None \<longrightarrow> w' = ensure_effect ensure refs w) \<and>
     (\<forall>e. err = Some e \<longrightarrow> (\<exists>handled ref rest w1. refs = handled @ ref # rest \<and> ensure_refs ensure handled w = (None, w1) \<and>
        ensure ref w1 = (Some e, w')))"
proof (induction refs arbitrary: w)
  case (Cons r refs)
  obtain e1 w1 where one: "ensure r w = (e1, w1)" by fastforce
  show ?case
  proof (cases e1)
    case None
    then have rest: "ensure_refs ensure refs w1 = (err, w')" using Cons.prems one by simp
    have "\<exists>handled ref tail w2. r # refs = handled @ ref # tail \<and> ensure_refs ensure handled w = (None, w2) \<and> ensure ref w2 = (Some e, w')"
      if err: "err = Some e" for e
    proof -
      obtain handled ref tail w2 where "refs = handled @ ref # tail" "ensure_refs ensure handled w1 = (None, w2)" "ensure ref w2 = (Some e, w')"
        using Cons.IH [OF rest, THEN conjunct2, rule_format, OF err] by blast
      then have "r # refs = (r # handled) @ ref # tail \<and> ensure_refs ensure (r # handled) w = (None, w2) \<and> ensure ref w2 = (Some e, w')"
        using one None by simp
      then show ?thesis by blast
    qed
    then show ?thesis using Cons.IH [OF rest] one by (simp add: ensure_effect_def)
  next
    case (Some e)
    then have "err = Some e" "w' = w1" using Cons.prems one by auto
    moreover have "r # refs = [] @ r # refs \<and> ensure_refs ensure [] w = (None, w) \<and> ensure r w = (Some e, w1)" using one Some by simp
    ultimately show ?thesis by blast
  qed
qed (simp add: ensure_effect_def)

text \<open>
  Provisioning depends only on which non-blank references are asked for: with the sources found and an engine to talk to, the images are handled one by
  one in the order of their names and each only once; success means that every one of them was built or pulled, and an error is that of the first image that failed,
  after all images before it were provisioned and before any later one was touched.
\<close>

theorem images_provisioned_in_order:
  assumes "ResolveBuildRoot tools start = Inr root" "it_NewClient tools" "refs \<noteq> []" "start \<noteq> []"
    and "EnsureImages tools local refs start w = (err, w')"
  shows "let todo = sorted_list_of_set {r \<in> set refs. TrimSpace r \<noteq> []}; ensure = ensure_one tools local root in
    (case err of
       None \<Rightarrow> w' = fold (\<lambda>r w. snd (ensure r w)) todo w
     | Some e \<Rightarrow> \<exists>handled ref rest w1. todo = handled @ ref # rest \<and> ensure_refs ensure handled w = (None, w1) \<and> ensure ref w1 = (Some e, w'))"
proof -
  have "ensure_refs (ensure_one tools local root) (sorted_list_of_set {r \<in> set refs. TrimSpace r \<noteq> []}) w = (err, w')"
    using assms by (simp add: EnsureImages_def Let_def NormalizeImageRefs_sorted_set)
  from ensure_refs_prefix [OF this] show ?thesis
    by (cases err) (simp_all add: ensure_effect_def Let_def)
qed

section \<open>The build root\<close>

definition is_build_root :: "file_tree \<Rightarrow> string list \<Rightarrow> bool" where
  "is_build_root fs dir \<longleftrightarrow> fileExists fs (dir @ [''Dockerfile'']) \<and> isNormaModuleDir fs dir"

lemma search_root_Nil: "search_root fs [] = (if is_build_root fs [] then Some [] else None)"
  by (simp add: search_root.simps [of fs "[]"] filepath_Dir_def is_build_root_def)

lemma search_root_snoc:
  "search_root fs (up @ [d]) = (if is_build_root fs (up @ [d]) then Some (up @ [d]) else search_root fs up)"
  by (simp add: search_root.simps [of fs "up @ [d]"] filepath_Dir_def is_build_root_def)

text \<open>
  The search for the build root ends for every starting directory, and its answer is the first, from the starting directory upwards through its
  ancestors to the root of the file system, that holds both a Dockerfile and the go.mod of this module; it fails exactly if none of them does.
\<close>

theorem build_root_is_nearest:
  "search_root fs dir = find (is_build_root fs) (map (\<lambda>k. take k dir) (rev [0..<Suc (length dir)]))"
proof (induction dir rule: rev_induct)
  case Nil
  show ?case by (simp add: search_root_Nil)
next
  case (snoc d up)
  have "map (\<lambda>k. take k (up @ [d])) (rev [0..<Suc (length (up @ [d]))]) =
    (up @ [d]) # map (\<lambda>k. take k up) (rev [0..<Suc (length up)])" by simp
  then show ?case by (simp only: search_root_snoc snoc.IH find.simps)
qed

text \<open>A run that asks for two images, one of them twice, and cannot pull the second.\<close>

definition sample_tree :: file_tree where
  "sample_tree path =
     (if path = [''src'', ''Dockerfile''] then Some (RegularFile [])
      else if path = [''src'', ''go.mod''] then Some (RegularFile ''module github.com/0xsoniclabs/norma'')
      else None)"

definition sample_tools :: "string list image_tools" where
  "sample_tools = \<lparr>it_Getwd = Some ''/src'', it_Abs = (\<lambda>d. Some [''src'', ''driver'']), it_fs = sample_tree, it_NewClient = True,
     it_ImagePull = (\<lambda>ref w. (if ref = ''redis'' then None else Some True, w @ [ref])),
     it_build = (\<lambda>root args w. ((True, []), w @ [last args])),
     it_run = (\<lambda>args w. ((True, ''Version: 2.0''), w))\<rparr>"

lemma sample_root: "ResolveBuildRoot sample_tools ''.'' = Inr [''src'']"
proof -
  have root: "is_build_root sample_tree [''src'']"
    by (simp add: is_build_root_def fileExists_def isNormaModuleDir_def sample_tree_def normaModulePath_def Lines.simps
        IndexByte_def TrimSpace_id is_space_def)
  have no: "\<not> is_build_root sample_tree [''src'', ''driver'']" by (simp add: is_build_root_def fileExists_def sample_tree_def)
  have "search_root sample_tree [''src'', ''driver''] = Some [''src'']"
    using search_root_snoc [of sample_tree "[''src'']" "''driver''"] search_root_snoc [of sample_tree "[]" "''src''"] root no by simp
  then show ?thesis by (simp add: ResolveBuildRoot_def sample_tools_def)
qed

lemma sample_run:
  "EnsureImages sample_tools ''sonic'' [''sonic'', ''redis'', ''alpine'', ''redis''] ''.'' [] = (Some (PullFailed ''redis''), [''alpine'', ''redis''])"
proof -
  have "NormalizeImageRefs [''sonic'', ''redis'', ''alpine'', ''redis''] = [''alpine'', ''redis'', ''sonic'']"
    by (simp add: NormalizeImageRefs_def TrimSpace_def is_space_def)
  then show ?thesis
    by (simp add: EnsureImages_def sample_root Let_def)
      (simp add: sample_tools_def ensure_one_def planImage_def pullImage_def HasPrefix_def)
qed

theorem images_provisioned_in_order_witness:
  "\<exists>handled ref rest w1. sorted_list_of_set {r \<in> set [''sonic'', ''redis'', ''alpine'', ''redis'']. TrimSpace r \<noteq> []} = handled @ ref # rest \<and>
     ensure_refs (ensure_one sample_tools ''sonic'' [''src'']) handled [] = (None, w1) \<and>
     ensure_one sample_tools ''sonic'' [''src''] ref w1 = (Some (PullFailed ''redis''), [''alpine'', ''redis''])"
  using images_provisioned_in_order [OF sample_root _ _ _ sample_run]
  by (simp add: sample_tools_def Let_def)

section \<open>Sharing\<close>

text \<open>
  The invariant: the entries of the map are states that are not done, each with the one goroutine that works for it; whoever waits for
  a state or has its result names a state of the same image.
\<close>

definition thread_ok :: "'e ensure_world \<Rightarrow> 'e ensure_thread \<Rightarrow> bool" where
  "thread_ok w th =
     (case th of
        Ensuring img s \<Rightarrow> ew_inFlight w img = Some s
      | Waiting img s \<Rightarrow> s < length (ew_states w) \<and> (ie_done (ew_states w ! s) \<or> ew_inFlight w img = Some s)
      | Finished img s err \<Rightarrow> s < length (ew_states w) \<and> ew_states w ! s = \<lparr>ie_done = True, ie_err = err\<rparr>
      | _ \<Rightarrow> True)"

definition entries_ok :: "'e ensure_world \<Rightarrow> bool" where
  "entries_ok w \<longleftrightarrow>
     (\<forall>img s. ew_inFlight w img = Some s \<longrightarrow>
        s < length (ew_states w) \<and> \<not> ie_done (ew_states w ! s) \<and> Ensuring img s \<in> set (ew_threads w)) \<and>
     (\<forall>img img' s. ew_inFlight w img = Some s \<longrightarrow> ew_inFlight w img' = Some s \<longrightarrow> img = img')"

definition owners_unique :: "'e ensure_world \<Rightarrow> bool" where
  "owners_unique w \<longleftrightarrow>
     (\<forall>t t' img s s'. t < length (ew_threads w) \<longrightarrow> t' < length (ew_threads w) \<longrightarrow>
        ew_threads w ! t = Ensuring img s \<longrightarrow> ew_threads w ! t' = Ensuring img s' \<longrightarrow> t = t')"

definition ensure_inv :: "'e ensure_world \<Rightarrow> bool" where
  "ensure_inv w \<longleftrightarrow> (\<forall>th \<in> set (ew_threads w). thread_ok w th) \<and> entries_ok w \<and> owners_unique w"

lemma set_update_other: "t < length xs \<Longrightarrow> y \<in> set xs \<Longrightarrow> y \<noteq> xs ! t \<Longrightarrow> y \<in> set (xs[t := z])"
  by (metis in_set_conv_nth length_list_update nth_list_update_neq)

lemma owners_unique_update:
  assumes "owners_unique w" "t < length (ew_threads w)" "ew_threads w' = (ew_threads w)[t := th]" "\<And>img s. th \<noteq> Ensuring img s"
  shows "owners_unique w'"
  unfolding owners_unique_def
proof (intro allI impI)
  fix k k' img s s'
  assume k: "k < length (ew_threads w')" "k' < length (ew_threads w')" "ew_threads w' ! k = Ensuring img s" "ew_threads w' ! k' = Ensuring img s'"
  then have "k \<noteq> t" "k' \<noteq> t" using assms(2-4) by auto
  then show "k = k'" using k assms(1,3) by (auto simp: owners_unique_def)
qed

text \<open>A goroutine that neither starts nor ends a provisioning leaves the entries and their owners as they are.\<close>

lemma ensure_inv_thread:
  assumes "ensure_inv w" "t < length (ew_threads w)" "thread_ok w th" "\<And>img s. th \<noteq> Ensuring img s"
    and "\<And>img s. ew_threads w ! t \<noteq> Ensuring img s"
  shows "ensure_inv (w\<lparr>ew_threads := (ew_threads w)[t := th]\<rparr>)"
proof -
  let ?w = "w\<lparr>ew_threads := (ew_threads w)[t := th]\<rparr>"
  have same: "thread_ok ?w x = thread_ok w x" for x by (simp add: thread_ok_def cong: ensure_thread.case_cong)
  have "\<forall>x \<in> set (ew_threads ?w). thread_ok ?w x"
    using assms(1,3) set_update_subset_insert [of "ew_threads w" t th] by (auto simp: same ensure_inv_def)
  moreover have "entries_ok ?w"
    using assms(1) set_update_other [OF assms(2) _ assms(5) [symmetric], of _ _ th] by (auto simp: ensure_inv_def entries_ok_def)
  moreover have "owners_unique ?w"
    using assms(1,2,4) by (auto simp: ensure_inv_def intro!: owners_unique_update [of w t ?w th])
  ultimately show ?thesis by (simp add: ensure_inv_def)
qed

lemma ensure_inv_call:
  assumes "ensure_inv w"
  shows "ensure_inv (w\<lparr>ew_threads := ew_threads w @ [Entering img]\<rparr>)"
proof -
  let ?w = "w\<lparr>ew_threads := ew_threads w @ [Entering img]\<rparr>"
  have same: "thread_ok ?w x = thread_ok w x" for x by (simp add: thread_ok_def cong: ensure_thread.case_cong)
  have "thread_ok w (Entering img)" by (simp add: thread_ok_def)
  then have "\<forall>x \<in> set (ew_threads ?w). thread_ok ?w x" using assms by (auto simp: same ensure_inv_def)
  moreover have "entries_ok ?w" using assms by (auto simp: ensure_inv_def entries_ok_def)
  moreover have "owners_unique ?w" using assms by (auto simp: ensure_inv_def owners_unique_def nth_append less_Suc_eq split: if_splits)
  ultimately show ?thesis by (simp add: ensure_inv_def)
qed

lemma ensure_inv_enter:
  assumes inv: "ensure_inv w" and t: "t < length (ew_threads w)" "ew_threads w ! t = Entering img"
  shows "ensure_inv (ensure_enter t img w)"
proof (cases "ew_inFlight w img")
  case (Some s)
  have "thread_ok w (Waiting img s)" using inv Some by (auto simp: ensure_inv_def entries_ok_def thread_ok_def)
  then show ?thesis using ensure_inv_thread [OF inv t(1), of "Waiting img s"] t(2) Some by (simp add: ensure_enter_def)
next
  case None
  let ?n = "length (ew_states w)"
  let ?w = "ensure_enter t img w"
  have w: "ew_states ?w = ew_states w @ [\<lparr>ie_done = False, ie_err = None\<rparr>]" "ew_inFlight ?w = (ew_inFlight w)(img \<mapsto> ?n)"
    "ew_threads ?w = (ew_threads w)[t := Ensuring img ?n]"
    using None by (simp_all add: ensure_enter_def)
  have kept: "thread_ok ?w x" if "thread_ok w x" for x
    using that None by (auto simp: thread_ok_def w nth_append split: ensure_thread.splits)
  have "\<forall>x \<in> set (ew_threads ?w). thread_ok ?w x"
    using inv kept set_update_subset_insert [of "ew_threads w" t "Ensuring img ?n"] by (auto simp: w ensure_inv_def thread_ok_def [of _ "Ensuring img ?n"])
  moreover have "entries_ok ?w"
    using inv t by (auto simp: ensure_inv_def entries_ok_def w nth_append less_Suc_eq intro: set_update_other set_update_memI)
  moreover have "owners_unique ?w"
    unfolding owners_unique_def
  proof (intro allI impI)
    fix k k' img' s s'
    assume k: "k < length (ew_threads ?w)" "k' < length (ew_threads ?w)" "ew_threads ?w ! k = Ensuring img' s" "ew_threads ?w ! k' = Ensuring img' s'"
    have none: "ew_threads w ! j \<noteq> Ensuring img s" if "j < length (ew_threads w)" for j s
    proof
      assume "ew_threads w ! j = Ensuring img s"
      then have "thread_ok w (Ensuring img s)" using inv that by (metis ensure_inv_def nth_mem)
      then show False using None by (simp add: thread_ok_def)
    qed
    show "k = k'"
      using k none inv t by (auto simp: w nth_list_update ensure_inv_def owners_unique_def split: if_splits)
  qed
  ultimately show ?thesis by (simp add: ensure_inv_def)
qed

lemma ensure_inv_finish:
  assumes inv: "ensure_inv w" and t: "t < length (ew_threads w)" "ew_threads w ! t = Ensuring img s"
  shows "ensure_inv (ensure_finish t img s err w)"
proof -
  let ?w = "ensure_finish t img s err w"
  have w: "ew_states ?w = (ew_states w)[s := \<lparr>ie_done = True, ie_err = err\<rparr>]" "ew_inFlight ?w = (ew_inFlight w)(img := None)"
    "ew_threads ?w = (ew_threads w)[t := Finished img s err]"
    by (simp_all add: ensure_finish_def)
  have "thread_ok w (ew_threads w ! t)" using inv t(1) by (simp add: ensure_inv_def)
  then have entry: "ew_inFlight w img = Some s" using t by (simp add: thread_ok_def)
  then have s: "s < length (ew_states w)" "\<not> ie_done (ew_states w ! s)" "\<And>img'. ew_inFlight w img' = Some s \<Longrightarrow> img' = img"
    using inv by (auto simp: ensure_inv_def entries_ok_def)
  have new: "thread_ok ?w (Finished img s err)" using s by (simp add: thread_ok_def w)
  have kept: "thread_ok ?w (ew_threads w ! k)" if "k < length (ew_threads w)" "k \<noteq> t" for k
  proof -
    have ok: "thread_ok w (ew_threads w ! k)" using inv that by (simp add: ensure_inv_def)
    show ?thesis
    proof (cases "ew_threads w ! k")
      case (Ensuring img' s')
      then have "img' \<noteq> img" using inv t that by (auto simp: ensure_inv_def owners_unique_def)
      then show ?thesis using ok Ensuring by (simp add: thread_ok_def w)
    next
      case (Waiting img' s')
      then show ?thesis using ok s(1) entry by (cases "img' = img") (auto simp: thread_ok_def w nth_list_update)
    next
      case (Finished img' s' err')
      then show ?thesis using ok s(2) by (cases "s' = s") (auto simp: thread_ok_def w)
    qed (simp_all add: thread_ok_def)
  qed
  have "thread_ok ?w (ew_threads ?w ! k)" if "k < length (ew_threads w)" for k
    using kept [OF that] new that by (cases "k = t") (simp_all add: w)
  then have "\<forall>x \<in> set (ew_threads ?w). thread_ok ?w x" by (auto simp: w in_set_conv_nth)
  moreover have other: "(ew_states w)[s := x] ! s' = ew_states w ! s'" if "ew_inFlight w img' = Some s'" "img' \<noteq> img" for img' s' x
    using that s(3) by (cases "s' = s") auto
  have "entries_ok ?w"
    using inv t by (auto simp: ensure_inv_def entries_ok_def w other intro: set_update_other split: if_splits)
  moreover have "owners_unique ?w"
    using inv t(1) by (auto simp: w ensure_inv_def intro!: owners_unique_update [of w t ?w "Finished img s err"])
  ultimately show ?thesis by (simp add: ensure_inv_def)
qed

lemma ensure_step_inv: "ensure_step w w' \<Longrightarrow> ensure_inv w \<Longrightarrow> ensure_inv w'"
proof (induction rule: ensure_step.induct)
  case (call w img)
  then show ?case by (rule ensure_inv_call)
next
  case (enter t w img)
  then show ?case by (blast intro: ensure_inv_enter)
next
  case (finish t w img s err)
  then show ?case by (blast intro: ensure_inv_finish)
next
  case (signalled t w img s)
  then have "thread_ok w (Waiting img s)" by (metis ensure_inv_def nth_mem)
  then have "thread_ok w (Finished img s (ie_err (ew_states w ! s)))" using signalled.hyps(3) by (simp add: thread_ok_def)
  then show ?case using signalled by (intro ensure_inv_thread) auto
next
  case (cancelled t w img s)
  then show ?case by (intro ensure_inv_thread) (auto simp: thread_ok_def)
qed

lemma ensure_reachable_inv: "ensure_reachable w \<Longrightarrow> ensure_inv w"
  unfolding ensure_reachable_def
proof (induction rule: rtranclp_induct)
  case base
  show ?case by (simp add: ensure_inv_def entries_ok_def owners_unique_def)
qed (rule ensure_step_inv)

text \<open>
  C19: However many nodes ask for images at the same time, no image is ever provisioned twice at once; a node that waits for the provisioning of another
  always waits for one of the same image that is under way or has ended, so that its wait ends; and the result it returns is the result of that provisioning.
\<close>

theorem one_provisioning_per_image:
  assumes "ensure_reachable w" "t < length (ew_threads w)"
  shows "case ew_threads w ! t of
      Ensuring img s \<Rightarrow> ew_inFlight w img = Some s \<and>
        (\<forall>t' s'. t' < length (ew_threads w) \<and> ew_threads w ! t' = Ensuring img s' \<longrightarrow> t' = t)
    | Waiting img s \<Rightarrow> ie_done (ew_states w ! s) \<or> Ensuring img s \<in> set (ew_threads w)
    | Finished img s err \<Rightarrow> ie_done (ew_states w ! s) \<and> ie_err (ew_states w ! s) = err
    | _ \<Rightarrow> True"
proof -
  have inv: "ensure_inv w" using assms(1) by (rule ensure_reachable_inv)
  then have ok: "thread_ok w (ew_threads w ! t)" using assms(2) by (simp add: ensure_inv_def)
  show ?thesis
  proof (cases "ew_threads w ! t")
    case (Ensuring img s)
    then show ?thesis using ok inv assms(2) by (auto simp: thread_ok_def ensure_inv_def owners_unique_def)
  next
    case (Waiting img s)
    then show ?thesis using ok inv by (auto simp: thread_ok_def ensure_inv_def entries_ok_def)
  next
    case (Finished img s err)
    then show ?thesis using ok by (simp add: thread_ok_def)
  qed simp_all
qed

definition shared_pull :: "string ensure_world" where
  "shared_pull = \<lparr>ew_inFlight = [''redis'' \<mapsto> 0], ew_states = [\<lparr>ie_done = False, ie_err = None\<rparr>],
     ew_threads = [Ensuring ''redis'' 0, Waiting ''redis'' 0]\<rparr>"

lemma shared_pull_reachable: "ensure_reachable shared_pull"
proof -
  let ?w = "\<lambda>ts. \<lparr>ew_inFlight = Map.empty, ew_states = [] :: string imageEnsureState list, ew_threads = ts\<rparr>"
  let ?v = "\<lambda>ts. \<lparr>ew_inFlight = [''redis'' \<mapsto> 0], ew_states = [\<lparr>ie_done = False, ie_err = None :: string option\<rparr>], ew_threads = ts\<rparr>"
  have s1: "ensure_step (?w []) (?w [Entering ''redis''])" using call [of "?w []" "''redis''"] by simp
  have s2: "ensure_step (?w [Entering ''redis'']) (?v [Ensuring ''redis'' 0])"
    using enter [of 0 "?w [Entering ''redis'']" "''redis''"] by (simp add: ensure_enter_def)
  have s3: "ensure_step (?v [Ensuring ''redis'' 0]) (?v [Ensuring ''redis'' 0, Entering ''redis''])"
    using call [of "?v [Ensuring ''redis'' 0]" "''redis''"] by simp
  have s4: "ensure_step (?v [Ensuring ''redis'' 0, Entering ''redis'']) (?v [Ensuring ''redis'' 0, Waiting ''redis'' 0])"
    using enter [of 1 "?v [Ensuring ''redis'' 0, Entering ''redis'']" "''redis''"] by (simp add: ensure_enter_def)
  note into = converse_rtranclp_into_rtranclp
  show ?thesis
    unfolding ensure_reachable_def shared_pull_def
    by (rule into [OF s1 into [OF s2 into [OF s3 into [OF s4 rtranclp.rtrancl_refl [of ensure_step]]]]])
qed

theorem one_provisioning_per_image_witness:
  "ensure_reachable shared_pull \<and>
   (ie_done (ew_states shared_pull ! 0) \<or> Ensuring ''redis'' 0 \<in> set (ew_threads shared_pull))"
  using one_provisioning_per_image [OF shared_pull_reachable, of 1] shared_pull_reachable by (simp add: shared_pull_def)

end
