(* ===== verification/Docker_Containers.thy ===== *)
theory Docker_Containers
  imports Docker_Logs Network_Local
begin

text \<open>
  Containers and networks of the engine (\<open>driver/docker/docker.go\<close>). The engine and the file system of the host are not part of the
  program: their answers are a parameter, a function of all that was asked of them before, so that every behaviour of them is
  covered. What was asked, with the answers, is the history of a run.
\<close>

section \<open>The engine\<close>

definition objectsLabel :: string where
  "objectsLabel = ''norma''"

text \<open>The part of \<open>container.Config\<close> and \<open>container.HostConfig\<close> the code sets.\<close>

record create_args =
  ca_Image :: string
  ca_Env :: "string list"
  ca_Entrypoint :: "string list"
  ca_Labels :: "(string \<times> string) list"
  ca_StopTimeout :: int
  ca_Init :: bool
  ca_CapAdd :: "string list"
  ca_Binds :: "string list"
  ca_Name :: string

datatype engine_call =
    ContainerCreate create_args
  | NetworkConnect string string
  | ContainerStart string
  | ContainerStop string string int
  | ContainerRemove string bool
  | ContainerKill string string
  | ContainerInspect string
  | ContainerList bool "string \<times> string"
  | NetworkCreate string "(string \<times> string) list"
  | NetworkDisconnect string string
  | NetworkRemove string
  | NetworkList "string \<times> string"
  | ContainerLogs string bool
  | ExecCreate string "string list" "string list"
  | ExecAttach string
  | ExecInspect string
  | StatFile string
  | OpenFile string
  | CreateFile string
  | Sleep

text \<open>Each call with its error, or with the identifier it returns (empty for a call that returns none).\<close>

type_synonym history = "(engine_call \<times> (string + string)) list"

record inspect_info =
  ii_Running :: bool
  ii_ExitCode :: int
  ii_Networks :: "(string \<times> string) list"

record container_summary =
  cs_ID :: string
  cs_NetworkIDs :: "string list"

text \<open>
  An attached stream: the chunks that demultiplexing hands over, and the error it ends with, if any.
\<close>

record exec_stream =
  ex_chunks :: "string list"
  ex_copyErr :: "string option"

record engine =
  en_call :: "history \<Rightarrow> engine_call \<Rightarrow> string + string"
  en_inspect :: "history \<Rightarrow> string \<Rightarrow> inspect_info"
  en_containers :: "history \<Rightarrow> container_summary list"
  en_networks :: "history \<Rightarrow> string list"
  en_attached :: "history \<Rightarrow> string \<Rightarrow> exec_stream"
  en_exitCode :: "history \<Rightarrow> string \<Rightarrow> int"
  en_ctxDone :: "history \<Rightarrow> bool"

definition request :: "engine \<Rightarrow> engine_call \<Rightarrow> history \<Rightarrow> (string + string) \<times> history" where
  "request en c h = (en_call en h c, h @ [(c, en_call en h c)])"

definition request_error :: "engine \<Rightarrow> engine_call \<Rightarrow> history \<Rightarrow> string option \<times> history" where
  "request_error en c h = (case request en c h of (Inl e, h1) \<Rightarrow> (Some e, h1) | (Inr _, h1) \<Rightarrow> (None, h1))"

text \<open>The containers that exist after a history: those created and not removed.\<close>

fun after_call :: "engine_call \<times> (string + string) \<Rightarrow> string set \<Rightarrow> string set" where
  "after_call (ContainerCreate args, Inr cid) live = insert cid live"
| "after_call (ContainerRemove cid force, Inr _) live = live - {cid}"
| "after_call _ live = live"

definition existing :: "history \<Rightarrow> string set" where
  "existing h = fold after_call h {}"

section \<open>Data\<close>

record docker_network =
  nt_id :: string
  nt_name :: string
  nt_cleaned :: bool

record ContainerConfig =
  cc_Hostname :: string
  cc_ImageName :: string
  cc_ShutdownTimeout :: "duration option"
  cc_Environment :: "(string \<times> string) list"
  cc_Entrypoint :: "string list"
  cc_Network :: "docker_network option"
  cc_DataDirBinding :: "string option"
  cc_GenesisFileBind :: "string option"
  cc_KeystoreBinding :: "string option"
  cc_LogsDir :: "string option"

record Container =
  ct_id :: string
  ct_ip :: string
  ct_config :: ContainerConfig
  ct_stopped :: bool
  ct_cleaned :: bool
  ct_execLogs :: "logBroadcaster option"
  ct_execLogPath :: string

datatype docker_error =
    EngineError string
  | StartFailed retry_error
  | GenesisMissing string string
  | InspectFailed string
  | NoIPOnNetwork string
  | NoIPAddress string
  | ResolveFailed docker_error
  | Exited int
  | ExecCreateFailed string
  | EmptyExecID
  | ExecAttachFailed string
  | ReadOutputFailed string
  | ExecInspectFailed string
  | ExecExitCode "string list" int
  | LogFileFailed string
  | StreamFailed string string
  | ExecTerminated "string list" int

text \<open>
  \<open>int(d.Seconds())\<close>: the whole seconds of a duration, rounded towards zero; the conversion to a floating-point number is exact
  enough for durations of less than three months.
\<close>

definition whole_seconds :: "duration \<Rightarrow> int" where
  "whole_seconds d = sgn d * (\<bar>d\<bar> div 1000000000)"

section \<open>Start\<close>

definition opt_list :: "'a option \<Rightarrow> 'a list" where
  "opt_list x = (case x of None \<Rightarrow> [] | Some y \<Rightarrow> [y])"

definition env_vars :: "(string \<times> string) list \<Rightarrow> string list" where
  "env_vars env = map (\<lambda>(key, v). key @ ''='' @ v) env"

definition create_call :: "ContainerConfig \<Rightarrow> int \<Rightarrow> engine_call" where
  "create_call config stopTimeout = ContainerCreate
     \<lparr>ca_Image = cc_ImageName config, ca_Env = env_vars (cc_Environment config), ca_Entrypoint = cc_Entrypoint config,
      ca_Labels = [(objectsLabel, ''true'')], ca_StopTimeout = stopTimeout, ca_Init = True, ca_CapAdd = [''NET_ADMIN''],
      ca_Binds = opt_list (cc_DataDirBinding config) @ opt_list (cc_GenesisFileBind config) @ opt_list (cc_KeystoreBinding config),
      ca_Name = cc_Hostname config\<rparr>"

text \<open>\<open>resolveIP\<close>: without a network of its own, the container takes the first address in the order of the map's iteration.\<close>

definition resolveIP :: "engine \<Rightarrow> Container \<Rightarrow> history \<Rightarrow> (docker_error option \<times> Container) \<times> history" where
  "resolveIP en c h =
     (case request en (ContainerInspect (ct_id c)) h of
        (Inl e, h1) \<Rightarrow> ((Some (InspectFailed e), c), h1)
      | (Inr _, h1) \<Rightarrow>
          let networks = ii_Networks (en_inspect en h (ct_id c))
          in (case cc_Network (ct_config c) of
                Some net \<Rightarrow>
                  (case map_of networks (nt_name net) of
                     None \<Rightarrow> (Some (NoIPOnNetwork (nt_name net)), c)
                   | Some ip \<Rightarrow> if ip = [] then (Some (NoIPOnNetwork (nt_name net)), c) else (None, c\<lparr>ct_ip := ip\<rparr>))
              | None \<Rightarrow>
                  (case filter (\<lambda>ip. ip \<noteq> []) (map snd networks) of
                     [] \<Rightarrow> (Some (NoIPAddress (ct_id c)), c)
                   | ip # _ \<Rightarrow> (None, c\<lparr>ct_ip := ip\<rparr>)), h1))"

definition genesis_check :: "engine \<Rightarrow> ContainerConfig \<Rightarrow> history \<Rightarrow> docker_error option \<times> history" where
  "genesis_check en config h =
     (case cc_GenesisFileBind config of
        None \<Rightarrow> (None, h)
      | Some bind \<Rightarrow>
          let genesisPath = hd (str_split CHR '':'' bind)
          in (case request_error en (StatFile genesisPath) h of
                (Some e, h1) \<Rightarrow> (Some (GenesisMissing genesisPath e), h1)
              | (None, h1) \<Rightarrow> (None, h1)))"

definition start_attempts :: "engine \<Rightarrow> string \<Rightarrow> history \<Rightarrow> retry_error option \<times> history" where
  "start_attempts en cid h =
     Retry (en_ctxDone en) DefaultRetryAttempts (\<lambda>h. h @ [(Sleep, Inr [])])
       (\<lambda>h. case request_error en (ContainerStart cid) h of (e, h1) \<Rightarrow> (map_option TransientError e, h1)) h"

definition new_container :: "string \<Rightarrow> ContainerConfig \<Rightarrow> Container" where
  "new_container cid config = \<lparr>ct_id = cid, ct_ip = [], ct_config = config, ct_stopped = False, ct_cleaned = False,
     ct_execLogs = None, ct_execLogPath = []\<rparr>"

text \<open>
  What follows the creation: the connection to the network, the start with its retries, and the address.
\<close>

definition start_created :: "engine \<Rightarrow> ContainerConfig \<Rightarrow> string \<Rightarrow> history \<Rightarrow> (docker_error + Container) \<times> history" where
  "start_created en config cid h =
     (case (case cc_Network config of None \<Rightarrow> (None, h) | Some net \<Rightarrow> request_error en (NetworkConnect (nt_id net) cid) h) of
        (Some e, h1) \<Rightarrow> (Inl (EngineError e), h1)
      | (None, h1) \<Rightarrow>
          (case start_attempts en cid h1 of
             (Some e, h2) \<Rightarrow> (Inl (StartFailed e), h2)
           | (None, h2) \<Rightarrow>
               (case cc_Network config of
                  None \<Rightarrow> (Inr (new_container cid config), h2)
                | Some net \<Rightarrow>
                    (case resolveIP en (new_container cid config) h2 of
                       ((Some e, _), h3) \<Rightarrow> (Inl e, h3)
                     | ((None, ctr), h3) \<Rightarrow> (Inr ctr, h3)))))"

definition Start :: "engine \<Rightarrow> ContainerConfig \<Rightarrow> history \<Rightarrow> ((docker_error + Container) \<times> history) outcome" where
  "Start en config h =
     (case genesis_check en config h of
        (Some e, h1) \<Rightarrow> Ret (Inl e, h1)
      | (None, h1) \<Rightarrow>
          (case cc_ShutdownTimeout config of
             None \<Rightarrow> outcome.Panic NilDereference
           | Some timeout \<Rightarrow>
               (case request en (create_call config (whole_seconds timeout)) h1 of
                  (Inl e, h2) \<Rightarrow> Ret (Inl (EngineError e), h2)
                | (Inr cid, h2) \<Rightarrow> Ret (start_created en config cid h2))))"

section \<open>Stop and clean-up\<close>

definition close_logs :: "logBroadcaster option \<Rightarrow> logBroadcaster option outcome" where
  "close_logs logs = (case logs of None \<Rightarrow> Ret None | Some b \<Rightarrow> bind_outcome (broadcaster_close b) (\<lambda>b1. Ret (Some b1)))"

definition Container_Stop :: "engine \<Rightarrow> Container \<times> history \<Rightarrow> (docker_error option \<times> Container \<times> history) outcome" where
  "Container_Stop en s =
     (case s of (c, h) \<Rightarrow>
        if ct_stopped c then Ret (None, c, h)
        else
          case cc_ShutdownTimeout (ct_config c) of
            None \<Rightarrow> outcome.Panic NilDereference
          | Some timeout \<Rightarrow>
              (case request_error en (ContainerStop (ct_id c) ''SIGINT'' (whole_seconds timeout)) h of
                 (err, h1) \<Rightarrow>
                   bind_outcome (close_logs (ct_execLogs c))
                     (\<lambda>logs. Ret (map_option EngineError err, c\<lparr>ct_stopped := True, ct_execLogs := logs\<rparr>, h1))))"

definition Container_Cleanup :: "engine \<Rightarrow> Container \<times> history \<Rightarrow> (docker_error option \<times> Container \<times> history) outcome" where
  "Container_Cleanup en s =
     (case s of (c, h) \<Rightarrow>
        if ct_cleaned c then Ret (None, c, h)
        else
          bind_outcome (Container_Stop en (c, h))
            (\<lambda>(err, c1, h1).
               case err of
                 Some e \<Rightarrow> Ret (Some e, c1, h1)
               | None \<Rightarrow>
                   (case request_error en (ContainerRemove (ct_id c1) False) h1 of
                      (err2, h2) \<Rightarrow> Ret (map_option EngineError err2, c1\<lparr>ct_cleaned := True\<rparr>, h2))))"

definition Container_IsRunning :: "Container \<Rightarrow> bool" where
  "Container_IsRunning c = (\<not> ct_stopped c)"

definition Container_CheckRunning :: "engine \<Rightarrow> Container \<Rightarrow> history \<Rightarrow> docker_error option \<times> history" where
  "Container_CheckRunning en c h =
     (case request en (ContainerInspect (ct_id c)) h of
        (Inl e, h1) \<Rightarrow> (Some (InspectFailed e), h1)
      | (Inr _, h1) \<Rightarrow>
          let info = en_inspect en h (ct_id c) in (if \<not> ii_Running info then Some (Exited (ii_ExitCode info)) else None, h1))"

definition SendSignal :: "engine \<Rightarrow> Container \<Rightarrow> string \<Rightarrow> history \<Rightarrow> docker_error option \<times> history" where
  "SendSignal en c sig h = (case request_error en (ContainerKill (ct_id c) sig) h of (e, h1) \<Rightarrow> (map_option EngineError e, h1))"

definition GetAddressForService :: "engine \<Rightarrow> nat \<Rightarrow> Container \<Rightarrow> history \<Rightarrow> ((docker_error + string) \<times> Container) \<times> history" where
  "GetAddressForService en port c h =
     (case (if ct_ip c = [] then resolveIP en c h else ((None, c), h)) of
        ((Some e, c1), h1) \<Rightarrow> ((Inl (ResolveFailed e), c1), h1)
      | ((None, c1), h1) \<Rightarrow> ((Inr (ct_ip c1 @ '':'' @ itoa port), c1), h1))"

section \<open>Objects of the engine\<close>

fun for_each :: "('a \<Rightarrow> 'w \<Rightarrow> 'e option \<times> 'w) \<Rightarrow> 'a list \<Rightarrow> 'w \<Rightarrow> 'e option \<times> 'w" where
  "for_each step [] w = (None, w)"
| "for_each step (x # xs) w =
     (case step x w of
        (Some err, w1) \<Rightarrow> (Some err, w1)
      | (None, w1) \<Rightarrow> for_each step xs w1)"

definition getObjectsLabelFilter :: "string \<times> string" where
  "getObjectsLabelFilter = (''label'', objectsLabel @ ''=true'')"

definition listContainers :: "engine \<Rightarrow> history \<Rightarrow> (string + container_summary list) \<times> history" where
  "listContainers en h =
     (case request_error en (ContainerList True getObjectsLabelFilter) h of
        (Some e, h1) \<Rightarrow> (Inl e, h1)
      | (None, h1) \<Rightarrow> (Inr (en_containers en h), h1))"

definition listNetworks :: "engine \<Rightarrow> history \<Rightarrow> (string + string list) \<times> history" where
  "listNetworks en h =
     (case request_error en (NetworkList getObjectsLabelFilter) h of
        (Some e, h1) \<Rightarrow> (Inl e, h1)
      | (None, h1) \<Rightarrow> (Inr (en_networks en h), h1))"

definition ContainerExists :: "engine \<Rightarrow> string \<Rightarrow> history \<Rightarrow> (string + bool) \<times> history" where
  "ContainerExists en name h =
     (case request_error en (ContainerList False (''name'', ''^/'' @ name @ ''$'')) h of
        (Some e, h1) \<Rightarrow> (Inl e, h1)
      | (None, h1) \<Rightarrow> (Inr (en_containers en h \<noteq> []), h1))"

text \<open>The failure of \<open>NewClient\<close> is \<open>client = Some error\<close>.\<close>

definition Purge :: "engine \<Rightarrow> string option \<Rightarrow> history \<Rightarrow> string option \<times> history" where
  "Purge en client h =
     (case client of
        Some e \<Rightarrow> (Some e, h)
      | None \<Rightarrow>
          (case listContainers en h of
             (Inl e, h1) \<Rightarrow> (Some e, h1)
           | (Inr containers, h1) \<Rightarrow>
               (case for_each (\<lambda>c. request_error en (ContainerRemove (cs_ID c) True)) containers h1 of
                  (Some e, h2) \<Rightarrow> (Some e, h2)
                | (None, h2) \<Rightarrow>
                    (case listNetworks en h2 of
                       (Inl e, h3) \<Rightarrow> (Some e, h3)
                     | (Inr networks, h3) \<Rightarrow> for_each (\<lambda>n. request_error en (NetworkRemove n)) networks h3))))"

text \<open>The random part of the name is \<open>suffix\<close>.\<close>

definition CreateBridgeNetwork :: "engine \<Rightarrow> nat \<Rightarrow> history \<Rightarrow> (string + docker_network) \<times> history" where
  "CreateBridgeNetwork en suffix h =
     (let name = ''norma_network_'' @ itoa suffix
      in case request en (NetworkCreate name [(objectsLabel, ''true'')]) h of
           (Inl e, h1) \<Rightarrow> (Inl e, h1)
         | (Inr nid, h1) \<Rightarrow> (Inr \<lparr>nt_id = nid, nt_name = name, nt_cleaned = False\<rparr>, h1))"

definition disconnect_all :: "engine \<Rightarrow> string \<Rightarrow> container_summary list \<Rightarrow> history \<Rightarrow> string option \<times> history" where
  "disconnect_all en nid =
     for_each (\<lambda>c. for_each (\<lambda>_. request_error en (NetworkDisconnect nid (cs_ID c))) (filter (\<lambda>n. n = nid) (cs_NetworkIDs c)))"

definition Network_Cleanup :: "engine \<Rightarrow> docker_network \<times> history \<Rightarrow> string option \<times> docker_network \<times> history" where
  "Network_Cleanup en s =
     (case s of (n, h) \<Rightarrow>
        if nt_cleaned n then (None, n, h)
        else
          case listContainers en h of
            (Inl e, h1) \<Rightarrow> (Some e, n, h1)
          | (Inr containers, h1) \<Rightarrow>
              (case disconnect_all en (nt_id n) containers h1 of
                 (Some e, h2) \<Rightarrow> (Some e, n, h2)
               | (None, h2) \<Rightarrow>
                   (case request_error en (NetworkRemove (nt_id n)) h2 of
                      (err, h3) \<Rightarrow> (err, n\<lparr>nt_cleaned := True\<rparr>, h3))))"

end
