(* ===== verification/Docker_Exec.thy ===== *)
theory Docker_Exec
  imports Docker_Containers
begin

text \<open>
  Commands in a container (\<open>Exec\<close>, \<open>ExecWithOptions\<close> and \<open>ExecBackground\<close> of \<open>driver/docker/docker.go\<close>) and where the log of a
  container comes from.
\<close>

section \<open>Commands\<close>

record ExecOptions =
  eo_Env :: "string list"
  eo_LogName :: string

definition startExec :: "engine \<Rightarrow> Container \<Rightarrow> string list \<Rightarrow> string list \<Rightarrow> history \<Rightarrow> (docker_error + string \<times> exec_stream) \<times> history" where
  "startExec en c cmd env h =
     (case request en (ExecCreate (ct_id c) cmd env) h of
        (Inl e, h1) \<Rightarrow> (Inl (ExecCreateFailed e), h1)
      | (Inr execID, h1) \<Rightarrow>
          if execID = [] then (Inl EmptyExecID, h1)
          else
            case request_error en (ExecAttach execID) h1 of
              (Some e, h2) \<Rightarrow> (Inl (ExecAttachFailed e), h2)
            | (None, h2) \<Rightarrow> (Inr (execID, en_attached en h1 execID), h2))"

text \<open>\<open>filepath.Join\<close> of a directory and a name, and the name with the time stamp \<open>ts\<close>.\<close>

definition join_path :: "string \<Rightarrow> string \<Rightarrow> string" where
  "join_path dir name = (if dir = [] then name else dir @ ''/'' @ name)"

definition createExecLogFile :: "engine \<Rightarrow> Container \<Rightarrow> string \<Rightarrow> string \<Rightarrow> string \<Rightarrow> history \<Rightarrow> (string + string) \<times> history" where
  "createExecLogFile en c logsDir ts name h =
     (let path = join_path logsDir (cc_Hostname (ct_config c) @ ''_'' @ name @ ''_'' @ ts @ ''.log'')
      in case request_error en (CreateFile path) h of
           (Some e, h1) \<Rightarrow> (Inl e, h1)
         | (None, h1) \<Rightarrow> (Inr path, h1))"

text \<open>The wish to keep the output: a name and a directory for it.\<close>

definition log_target :: "Container \<Rightarrow> ExecOptions \<Rightarrow> string option" where
  "log_target c opts = (if eo_LogName opts \<noteq> [] then cc_LogsDir (ct_config c) else None)"

definition exit_error :: "engine \<Rightarrow> (string list \<Rightarrow> int \<Rightarrow> docker_error) \<Rightarrow> string list \<Rightarrow> string \<Rightarrow> history \<Rightarrow> (int \<times> docker_error option) \<times> history" where
  "exit_error en terminated cmd execID h =
     (case request_error en (ExecInspect execID) h of
        (Some e, h1) \<Rightarrow> ((- 1, Some (ExecInspectFailed e)), h1)
      | (None, h1) \<Rightarrow>
          let code = en_exitCode en h execID in ((code, if code \<noteq> 0 then Some (terminated cmd code) else None), h1))"

text \<open>A failure to write the log of a command is only reported; it does not change the result.\<close>

definition ExecWithOptions :: "engine \<Rightarrow> Container \<Rightarrow> string \<Rightarrow> string list \<Rightarrow> ExecOptions \<Rightarrow> history \<Rightarrow> (string \<times> docker_error option) \<times> history" where
  "ExecWithOptions en c ts cmd opts h =
     (case startExec en c cmd (eo_Env opts) h of
        (Inl e, h1) \<Rightarrow> (([], Some e), h1)
      | (Inr (execID, stream), h1) \<Rightarrow>
          let output = concat (ex_chunks stream)
          in (case ex_copyErr stream of
                Some e \<Rightarrow> ((output, Some (ReadOutputFailed e)), h1)
              | None \<Rightarrow>
                  let h2 = (case log_target c opts of
                              None \<Rightarrow> h1
                            | Some dir \<Rightarrow> snd (createExecLogFile en c dir ts (eo_LogName opts) h1));
                      ((_, err), h3) = exit_error en ExecExitCode cmd execID h2
                  in ((output, err), h3)))"

definition Exec :: "engine \<Rightarrow> Container \<Rightarrow> string \<Rightarrow> string list \<Rightarrow> history \<Rightarrow> (string \<times> docker_error option) \<times> history" where
  "Exec en c ts cmd h = ExecWithOptions en c ts cmd \<lparr>eo_Env = [], eo_LogName = []\<rparr> h"

section \<open>Background commands\<close>

text \<open>A handle without its channel: \<open>eh_done\<close> says that \<open>Done\<close> is closed.\<close>

record ExecHandle =
  eh_ExecID :: string
  eh_LogPath :: string
  eh_done :: bool
  eh_err :: "docker_error option"
  eh_exitCode :: int

definition setResult :: "int \<Rightarrow> docker_error option \<Rightarrow> ExecHandle \<Rightarrow> ExecHandle" where
  "setResult exitCode err handle =
     handle\<lparr>eh_exitCode := exitCode, eh_err := (case eh_err handle of None \<Rightarrow> err | Some e \<Rightarrow> Some e)\<rparr>"

definition logBroadcasterForExec :: "Container \<Rightarrow> Container" where
  "logBroadcasterForExec c = (case ct_execLogs c of None \<Rightarrow> c\<lparr>ct_execLogs := Some newLogBroadcaster\<rparr> | Some _ \<Rightarrow> c)"

definition ExecBackground ::
  "engine \<Rightarrow> string \<Rightarrow> string list \<Rightarrow> ExecOptions \<Rightarrow> Container \<Rightarrow> history \<Rightarrow>
     ((docker_error + ExecHandle \<times> exec_stream) \<times> Container) \<times> history" where
  "ExecBackground en ts cmd opts c h =
     (let c1 = logBroadcasterForExec c
      in case (case log_target c1 opts of
                 None \<Rightarrow> (Inr [], h)
               | Some dir \<Rightarrow> createExecLogFile en c1 dir ts (eo_LogName opts) h) of
           (Inl e, h1) \<Rightarrow> ((Inl (LogFileFailed e), c1), h1)
         | (Inr logPath, h1) \<Rightarrow>
             (case startExec en c1 cmd (eo_Env opts) h1 of
                (Inl e, h2) \<Rightarrow> ((Inl e, c1), h2)
              | (Inr (execID, stream), h2) \<Rightarrow>
                  ((Inr (\<lparr>eh_ExecID = execID, eh_LogPath = logPath, eh_done = False, eh_err = None, eh_exitCode = 0\<rparr>, stream),
                    c1\<lparr>ct_execLogPath := logPath\<rparr>), h2)))"

text \<open>
  The goroutine that serves the output. Each line is written to the log file, if there is one (\<open>writes\<close> says whether the file
  takes a line), and published; \<open>None\<close> stands for no file. The demultiplexer hands over chunks, so the splitter emits the lines of
  \<open>split_stream\<close>.
\<close>

fun emit_lines :: "(string \<Rightarrow> bool) \<Rightarrow> string list \<Rightarrow> string option \<Rightarrow> logBroadcaster \<Rightarrow> (string option \<times> logBroadcaster) outcome" where
  "emit_lines writes [] logFile b = Ret (logFile, b)"
| "emit_lines writes (line # lines) logFile b =
     bind_outcome (publish line b)
       (emit_lines writes lines (map_option (\<lambda>content. if writes line then content @ line else content) logFile))"

definition serve_exec ::
  "engine \<Rightarrow> (string \<Rightarrow> bool) \<Rightarrow> bool \<Rightarrow> string list \<Rightarrow> exec_stream \<Rightarrow> ExecHandle \<Rightarrow> logBroadcaster \<Rightarrow> history \<Rightarrow>
     (ExecHandle \<times> string option \<times> logBroadcaster \<times> history) outcome" where
  "serve_exec en writes ctxErr cmd stream handle b h =
     bind_outcome
       (emit_lines writes (split_stream (ex_chunks stream) []) (if eh_LogPath handle = [] then None else Some []) b)
       (\<lambda>(logFile, b1).
          case (if ctxErr then None else ex_copyErr stream) of
            Some e \<Rightarrow> Ret ((setResult (- 1) (Some (StreamFailed (eh_ExecID handle) e)) handle)\<lparr>eh_done := True\<rparr>, logFile, b1, h)
          | None \<Rightarrow>
              (case exit_error en ExecTerminated cmd (eh_ExecID handle) h of
                 ((code, err), h1) \<Rightarrow> Ret ((setResult code err handle)\<lparr>eh_done := True\<rparr>, logFile, b1, h1)))"

section \<open>The log of a container\<close>

datatype log_source = FromExecFile string | FromBroadcaster | FromContainer

definition logSource :: "Container \<Rightarrow> logBroadcaster option" where
  "logSource c = ct_execLogs c"

text \<open>\<open>StreamLog\<close>: a subscription of the broadcaster, or the log of the container itself.\<close>

definition StreamLog :: "engine \<Rightarrow> Container \<Rightarrow> history \<Rightarrow> ((docker_error + log_source) \<times> Container \<times> history) outcome" where
  "StreamLog en c h =
     (case logSource c of
        Some b \<Rightarrow> bind_outcome (subscribe b) (\<lambda>b1. Ret (Inr FromBroadcaster, c\<lparr>ct_execLogs := Some b1\<rparr>, h))
      | None \<Rightarrow>
          (case request_error en (ContainerLogs (ct_id c) True) h of
             (Some e, h1) \<Rightarrow> Ret (Inl (EngineError e), c, h1)
           | (None, h1) \<Rightarrow> Ret (Inr FromContainer, c, h1)))"

text \<open>\<open>SaveLogTo\<close> with the source it copies; \<open>copied\<close> is the error of the copy of the bytes and of closing the file.\<close>

definition SaveLogTo :: "engine \<Rightarrow> string option \<Rightarrow> Container \<Rightarrow> string \<Rightarrow> history \<Rightarrow> (string option \<times> log_source option) \<times> history" where
  "SaveLogTo en copied c directory h =
     (let dst = join_path directory (cc_ImageName (ct_config c) @ ''_'' @ ct_id c @ ''.log'')
      in if ct_execLogPath c \<noteq> []
         then
           case request_error en (OpenFile (ct_execLogPath c)) h of
             (Some e, h1) \<Rightarrow> ((Some e, None), h1)
           | (None, h1) \<Rightarrow>
               (case request_error en (CreateFile dst) h1 of
                  (Some e, h2) \<Rightarrow> ((Some e, None), h2)
                | (None, h2) \<Rightarrow> ((copied, Some (FromExecFile (ct_execLogPath c))), h2))
         else
           case request_error en (ContainerLogs (ct_id c) False) h of
             (Some e, h1) \<Rightarrow> ((Some e, None), h1)
           | (None, h1) \<Rightarrow>
               (case request_error en (CreateFile dst) h1 of
                  (Some e, h2) \<Rightarrow> ((Some e, None), h2)
                | (None, h2) \<Rightarrow> ((copied, Some FromContainer), h2)))"

end
