(* ===== verification/Node_Container.thy ===== *)
theory Node_Container
  imports Docker_Exec Genesis_Model Parser_Model
begin

text \<open>
  The container side of a node (\<open>driver/node/opera.go\<close>): what is prepared on the host for a node, its container, and how both are
  given up. The actions of the client process inside are modelled in \<open>Node_Lifecycle\<close>. The answers of the host (directories, files,
  keys, images) are a parameter like those of the engine, a function of all that was asked before.
\<close>

section \<open>The host\<close>

datatype host_call =
    EnsureImage string
  | ClientVersionsOf "string list"
  | MkdirTemp string
  | ApplyRulesPatch
  | GenerateGenesis string "u64 list"
  | StatGenesis string
  | MkdirAll string
  | WriteValidatorKeystore string string
  | DeriveValidatorKey int
  | RemoveAll string

type_synonym host_history = "(host_call \<times> (string + string)) list"

text \<open>
  \<open>ho_stat\<close> is what a successful \<open>os.Stat\<close> of the genesis finds: whether it is a directory, and its size. \<open>ho_key\<close> is the private
  key, the public key and the address of a validator.
\<close>

record node_host =
  ho_call :: "host_history \<Rightarrow> host_call \<Rightarrow> string + string"
  ho_stat :: "host_history \<Rightarrow> string \<Rightarrow> bool \<times> nat"
  ho_key :: "int \<Rightarrow> string \<times> string \<times> string"

definition ask :: "node_host \<Rightarrow> host_call \<Rightarrow> host_history \<Rightarrow> (string + string) \<times> host_history" where
  "ask ho c h = (ho_call ho h c, h @ [(c, ho_call ho h c)])"

record network_config =
  ng_Validators :: "Validator list"
  ng_ClientImages :: "string list"

record opera_config =
  nc_Label :: string
  nc_Failing :: bool
  nc_Image :: string
  nc_ValidatorId :: "int option"
  nc_NetworkConfig :: "network_config option"
  nc_MountDataDir :: "string option"
  nc_GenesisJsonPath :: "string option"
  nc_PubKey :: string
  nc_PrivKey :: string
  nc_Address :: string
  nc_LogsDir :: string

record container_node =
  cn_container :: Container
  cn_config :: opera_config
  cn_tempDirs :: "string list"

datatype new_node_error =
    BadLabel string
  | NoDockerNetwork
  | ExistsFailed string
  | AlreadyRunning string
  | KeyFailed string
  | ImageFailed string
  | NoNetworkConfig
  | VersionsFailed string
  | TempDirFailed string
  | RulesConfigFailed string
  | GenesisFailed string
  | GenesisUnverified string
  | GenesisIsDirectory string
  | GenesisEmpty string
  | MountDirFailed string
  | KeystoreFailed string
  | LogsDirFailed string
  | ContainerFailed docker_error
  | BootFailed string

definition node_dataDir :: string where
  "node_dataDir = ''/datadir''"

definition containerShutdownTimeout :: duration where
  "containerShutdownTimeout = 180000000000"

definition containerEntrypoint :: "string list" where
  "containerEntrypoint = [''sleep'', ''infinity'']"

section \<open>Preparation\<close>

text \<open>
  Each helper returns its result or error together with the temporary directory it created, empty if none.
\<close>

definition verify_genesis :: "node_host \<Rightarrow> string \<Rightarrow> host_history \<Rightarrow> (new_node_error + string) \<times> host_history" where
  "verify_genesis ho path h =
     (case ask ho (StatGenesis path) h of
        (Inl e, h1) \<Rightarrow> (Inl (GenesisUnverified e), h1)
      | (Inr _, h1) \<Rightarrow>
          let (isDir, bytes) = ho_stat ho h path
          in (if isDir then Inl (GenesisIsDirectory path) else if bytes = 0 then Inl (GenesisEmpty path) else Inr path, h1))"

definition generate_in :: "node_host \<Rightarrow> network_config \<Rightarrow> string \<Rightarrow> host_history \<Rightarrow> (new_node_error + string) \<times> host_history" where
  "generate_in ho net tempDir h =
     (case ask ho ApplyRulesPatch h of
        (Inl e, h1) \<Rightarrow> (Inl (RulesConfigFailed e), h1)
      | (Inr _, h1) \<Rightarrow>
          let path = join_path tempDir ''genesis.json''
          in (case ask ho (GenerateGenesis path (GetValidatorStakes (ng_Validators net))) h1 of
                (Inl e, h2) \<Rightarrow> (Inl (GenesisFailed e), h2)
              | (Inr _, h2) \<Rightarrow> verify_genesis ho path h2))"

definition resolveGenesisFile :: "node_host \<Rightarrow> string \<Rightarrow> opera_config \<Rightarrow> host_history \<Rightarrow> ((new_node_error + string) \<times> string) \<times> host_history" where
  "resolveGenesisFile ho img config h =
     (case nc_GenesisJsonPath config of
        Some (c # cs) \<Rightarrow> ((Inr (c # cs), []), h)
      | _ \<Rightarrow>
          (case nc_NetworkConfig config of
             None \<Rightarrow> ((Inl NoNetworkConfig, []), h)
           | Some net \<Rightarrow>
               (case ask ho (ClientVersionsOf (GetClientImages (ng_Validators net) (ng_ClientImages net) @ [img])) h of
                  (Inl e, h1) \<Rightarrow> ((Inl (VersionsFailed e), []), h1)
                | (Inr _, h1) \<Rightarrow>
                    (case ask ho (MkdirTemp ''norma-node-genesis-*'') h1 of
                       (Inl e, h2) \<Rightarrow> ((Inl (TempDirFailed e), []), h2)
                     | (Inr tempDir, h2) \<Rightarrow> (case generate_in ho net tempDir h2 of (r, h3) \<Rightarrow> ((r, tempDir), h3))))))"

definition is_validator :: "opera_config \<Rightarrow> bool" where
  "is_validator config = (case nc_ValidatorId config of None \<Rightarrow> False | Some v \<Rightarrow> 0 < v)"

definition validator_env :: "opera_config \<Rightarrow> (string \<times> string) list" where
  "validator_env config =
     (if is_validator config then [(''VALIDATOR_PUBKEY'', nc_PubKey config), (''VALIDATOR_ADDRESS'', nc_Address config)] else [])"

definition resolveValidatorKeystore ::
  "node_host \<Rightarrow> (int \<Rightarrow> string) \<Rightarrow> opera_config \<Rightarrow> host_history \<Rightarrow> ((new_node_error + string option) \<times> string) \<times> host_history" where
  "resolveValidatorKeystore ho showId config h =
     (case nc_ValidatorId config of
        None \<Rightarrow> ((Inr None, []), h)
      | Some v \<Rightarrow>
          if v \<le> 0 then ((Inr None, []), h)
          else
            case nc_MountDataDir config of
              Some dir \<Rightarrow>
                (case ask ho (WriteValidatorKeystore (nc_PrivKey config) dir) h of
                   (Inl e, h1) \<Rightarrow> ((Inl (KeystoreFailed e), []), h1)
                 | (Inr _, h1) \<Rightarrow> ((Inr None, []), h1))
            | None \<Rightarrow>
                (case ask ho (MkdirTemp (''norma-validator-'' @ showId v @ ''-*'')) h of
                   (Inl e, h1) \<Rightarrow> ((Inl (TempDirFailed e), []), h1)
                 | (Inr tempDir, h1) \<Rightarrow>
                     (case ask ho (WriteValidatorKeystore (nc_PrivKey config) tempDir) h1 of
                        (Inl e, h2) \<Rightarrow> ((Inl (KeystoreFailed e), tempDir), h2)
                      | (Inr _, h2) \<Rightarrow> ((Inr (Some (join_path tempDir ''keystore'' @ '':'' @ node_dataDir @ ''/keystore:ro'')), tempDir), h2))))"

definition resolveLogsDir :: "node_host \<Rightarrow> opera_config \<Rightarrow> host_history \<Rightarrow> (new_node_error + string \<times> bool) \<times> host_history" where
  "resolveLogsDir ho config h =
     (if nc_LogsDir config = []
      then
        case ask ho (MkdirTemp ''norma-node-logs-*'') h of
          (Inl e, h1) \<Rightarrow> (Inl (LogsDirFailed e), h1)
        | (Inr dir, h1) \<Rightarrow> (Inr (dir, True), h1)
      else
        let dir = join_path (nc_LogsDir config) ''client-logs''
        in case ask ho (MkdirAll dir) h of
             (Inl e, h1) \<Rightarrow> (Inl (LogsDirFailed e), h1)
           | (Inr _, h1) \<Rightarrow> (Inr (dir, False), h1))"

definition track :: "string \<Rightarrow> string list \<Rightarrow> string list" where
  "track dir dirs = (if dir \<noteq> [] then dirs @ [dir] else dirs)"

definition mount_dir :: "node_host \<Rightarrow> opera_config \<Rightarrow> host_history \<Rightarrow> (new_node_error + string option) \<times> host_history" where
  "mount_dir ho config h =
     (case nc_MountDataDir config of
        None \<Rightarrow> (Inr None, h)
      | Some dir \<Rightarrow>
          (case ask ho (MkdirAll dir) h of
             (Inl e, h1) \<Rightarrow> (Inl (MountDirFailed e), h1)
           | (Inr _, h1) \<Rightarrow> (Inr (Some (dir @ '':'' @ node_dataDir)), h1)))"

text \<open>\<open>cleanupTempDirs\<close>: the errors are dropped.\<close>

fun remove_dirs :: "node_host \<Rightarrow> string list \<Rightarrow> host_history \<Rightarrow> string list \<times> host_history" where
  "remove_dirs ho [] h = ([], h)"
| "remove_dirs ho (dir # dirs) h =
     (case ask ho (RemoveAll dir) h of
        (answer, h1) \<Rightarrow>
          (case remove_dirs ho dirs h1 of
             (errs, h2) \<Rightarrow> ((case answer of Inl e \<Rightarrow> e # errs | Inr _ \<Rightarrow> errs), h2)))"

section \<open>Creation\<close>

definition node_container_config ::
  "opera_config \<Rightarrow> string \<Rightarrow> docker_network \<Rightarrow> string \<Rightarrow> string option \<Rightarrow> string option \<Rightarrow> string \<Rightarrow> ContainerConfig" where
  "node_container_config config img dn genesisPath dataDirBinding keystoreBinding logsDir =
     \<lparr>cc_Hostname = nc_Label config, cc_ImageName = img, cc_ShutdownTimeout = Some containerShutdownTimeout,
      cc_Environment = (''STATE_DB_DATADIR'', node_dataDir) # validator_env config, cc_Entrypoint = containerEntrypoint,
      cc_Network = Some dn, cc_DataDirBinding = dataDirBinding, cc_GenesisFileBind = Some (genesisPath @ '':/genesis.json:ro''),
      cc_KeystoreBinding = keystoreBinding, cc_LogsDir = Some logsDir\<rparr>"

text \<open>
  The steps that prepare the host, with the directories to give up: the genesis, the mounted directory, the keystore and the logs.
\<close>

definition prepare_host ::
  "node_host \<Rightarrow> (int \<Rightarrow> string) \<Rightarrow> string \<Rightarrow> docker_network \<Rightarrow> opera_config \<Rightarrow> host_history \<Rightarrow>
     ((new_node_error + string \<times> ContainerConfig) \<times> string list) \<times> host_history" where
  "prepare_host ho showId img dn config h =
     (case resolveGenesisFile ho img config h of
        ((r1, dir1), h1) \<Rightarrow>
          let dirs1 = track dir1 []
          in case r1 of
               Inl e \<Rightarrow> ((Inl e, dirs1), h1)
             | Inr genesisPath \<Rightarrow>
                 (case mount_dir ho config h1 of
                    (Inl e, h2) \<Rightarrow> ((Inl e, dirs1), h2)
                  | (Inr dataDirBinding, h2) \<Rightarrow>
                      (case resolveValidatorKeystore ho showId config h2 of
                         ((r3, dir3), h3) \<Rightarrow>
                           let dirs3 = track dir3 dirs1
                           in case r3 of
                                Inl e \<Rightarrow> ((Inl e, dirs3), h3)
                              | Inr keystoreBinding \<Rightarrow>
                                  (case resolveLogsDir ho config h3 of
                                     (Inl e, h4) \<Rightarrow> ((Inl e, dirs3), h4)
                                   | (Inr (logsDir, temporary), h4) \<Rightarrow>
                                       ((Inr (genesisPath, node_container_config config img dn genesisPath dataDirBinding keystoreBinding logsDir),
                                         if temporary then track logsDir dirs3 else dirs3), h4)))))"

definition private_config :: "opera_config \<Rightarrow> string \<Rightarrow> string \<Rightarrow> opera_config" where
  "private_config config img genesisPath =
     config\<lparr>nc_Image := img, nc_GenesisJsonPath := (if genesisPath \<noteq> [] then Some genesisPath else None)\<rparr>"

type_synonym node_world = "host_history \<times> history"

definition NewOperaNode ::
  "node_host \<Rightarrow> engine \<Rightarrow> (int \<Rightarrow> string) \<Rightarrow> docker_network \<Rightarrow> opera_config \<Rightarrow> node_world \<Rightarrow>
     ((new_node_error + container_node) \<times> node_world) outcome" where
  "NewOperaNode ho en showId dn config w =
     (case w of (h, d) \<Rightarrow>
        let img = ResolveClientImageName (nc_Image config)
        in case ask ho (EnsureImage img) h of
             (Inl e, h1) \<Rightarrow> Ret (Inl (ImageFailed e), h1, d)
           | (Inr _, h1) \<Rightarrow>
               (case prepare_host ho showId img dn config h1 of
                  ((Inl e, dirs), h2) \<Rightarrow> Ret (Inl e, snd (remove_dirs ho dirs h2), d)
                | ((Inr (genesisPath, cconfig), dirs), h2) \<Rightarrow>
                    bind_outcome (Start en cconfig d)
                      (\<lambda>(r, d1).
                         case r of
                           Inl e \<Rightarrow> Ret (Inl (ContainerFailed e), snd (remove_dirs ho dirs h2), d1)
                         | Inr ctr \<Rightarrow>
                             Ret (Inr \<lparr>cn_container = ctr, cn_config = private_config config img genesisPath, cn_tempDirs = dirs\<rparr>, h2, d1))))"

section \<open>Giving up\<close>

definition node_Cleanup ::
  "node_host \<Rightarrow> engine \<Rightarrow> container_node \<times> node_world \<Rightarrow> ((docker_error option \<times> string list) \<times> container_node \<times> node_world) outcome" where
  "node_Cleanup ho en s =
     (case s of (n, h, d) \<Rightarrow>
        bind_outcome (Container_Cleanup en (cn_container n, d))
          (\<lambda>(err, c1, d1).
             case remove_dirs ho (cn_tempDirs n) h of
               (errs, h1) \<Rightarrow> Ret ((err, errs), n\<lparr>cn_container := c1, cn_tempDirs := []\<rparr>, h1, d1)))"

text \<open>
  \<open>Stop\<close>: the client is stopped as far as possible (\<open>StopSonicd\<close> of \<open>Node_Lifecycle\<close>; its error is dropped and its effect on the
  container is \<open>stopClient\<close>), the permissions of a mounted data directory are relaxed, and the container is stopped.
\<close>

definition node_Stop ::
  "engine \<Rightarrow> string \<Rightarrow> (Container \<times> history \<Rightarrow> Container \<times> history) \<Rightarrow> container_node \<times> history \<Rightarrow> (docker_error option \<times> container_node \<times> history) outcome" where
  "node_Stop en ts stopClient s =
     (case s of (n, d) \<Rightarrow>
        case stopClient (cn_container n, d) of
          (c1, d1) \<Rightarrow>
            let d2 = (if nc_MountDataDir (cn_config n) \<noteq> None then snd (Exec en c1 ts [''chmod'', ''-R'', ''777'', node_dataDir] d1) else d1)
            in bind_outcome (Container_Stop en (c1, d2)) (\<lambda>(err, c2, d3). Ret (err, n\<lparr>cn_container := c2\<rparr>, d3)))"

section \<open>Start\<close>

definition node_label :: "string \<Rightarrow> string" where
  "node_label label = replace_char CHR ''_'' CHR ''-'' (replace_char CHR ''/'' CHR ''-'' label)"

definition derive_key :: "node_host \<Rightarrow> opera_config \<Rightarrow> host_history \<Rightarrow> (new_node_error + opera_config) \<times> host_history" where
  "derive_key ho config h =
     (case nc_ValidatorId config of
        None \<Rightarrow> (Inr config, h)
      | Some v \<Rightarrow>
          if v \<le> 0 then (Inr config, h)
          else
            case ask ho (DeriveValidatorKey v) h of
              (Inl e, h1) \<Rightarrow> (Inl (KeyFailed e), h1)
            | (Inr _, h1) \<Rightarrow>
                (case ho_key ho v of (priv, pub, addr) \<Rightarrow> (Inr (config\<lparr>nc_PrivKey := priv, nc_PubKey := pub, nc_Address := addr\<rparr>), h1)))"

text \<open>
  The boot sequence inside the container (\<open>Initialize\<close>, \<open>StartSonicd\<close> and \<open>WaitForSync\<close>) is a list of steps on the container, each
  with its error, if any; the first error ends it.
\<close>

fun boot_node ::
  "(Container \<times> history \<Rightarrow> string option \<times> Container \<times> history) list \<Rightarrow> Container \<times> history \<Rightarrow> string option \<times> Container \<times> history" where
  "boot_node [] s = (None, s)"
| "boot_node (step # steps) s =
     (case step s of
        (Some e, s1) \<Rightarrow> (Some e, s1)
      | (None, s1) \<Rightarrow> boot_node steps s1)"

definition StartOperaDockerNode ::
  "node_host \<Rightarrow> engine \<Rightarrow> (int \<Rightarrow> string) \<Rightarrow> (Container \<times> history \<Rightarrow> string option \<times> Container \<times> history) list \<Rightarrow> docker_network option \<Rightarrow>
     opera_config \<Rightarrow> node_world \<Rightarrow> ((new_node_error + container_node) \<times> node_world) outcome" where
  "StartOperaDockerNode ho en showId boot dn config w =
     (case w of (h, d) \<Rightarrow>
        let label = node_label (nc_Label config)
        in if \<not> MatchName label then Ret (Inl (BadLabel label), h, d)
           else
             case dn of
               None \<Rightarrow> Ret (Inl NoDockerNetwork, h, d)
             | Some net \<Rightarrow>
                 (case ContainerExists en label d of
                    (Inl e, d1) \<Rightarrow> Ret (Inl (ExistsFailed e), h, d1)
                  | (Inr True, d1) \<Rightarrow> Ret (Inl (AlreadyRunning label), h, d1)
                  | (Inr False, d1) \<Rightarrow>
                      (case derive_key ho (config\<lparr>nc_Label := label\<rparr>) h of
                         (Inl e, h1) \<Rightarrow> Ret (Inl e, h1, d1)
                       | (Inr config1, h1) \<Rightarrow>
                           bind_outcome (NewOperaNode ho en showId net config1 (h1, d1))
                             (\<lambda>(r, h2, d2).
                                case r of
                                  Inl e \<Rightarrow> Ret (Inl e, h2, d2)
                                | Inr node \<Rightarrow>
                                    (case boot_node boot (cn_container node, d2) of
                                       (None, c3, d3) \<Rightarrow> Ret (Inr (node\<lparr>cn_container := c3\<rparr>), h2, d3)
                                     | (Some e, c3, d3) \<Rightarrow>
                                         bind_outcome (node_Cleanup ho en (node\<lparr>cn_container := c3\<rparr>, h2, d3))
                                           (\<lambda>(_, _, w4). Ret (Inl (BootFailed e), w4)))))))"

section \<open>Services\<close>

record ServiceDescription =
  sd_Name :: string
  sd_Port :: nat
  sd_Protocol :: string

definition OperaRpcService :: ServiceDescription where
  "OperaRpcService = \<lparr>sd_Name = ''OperaRPC'', sd_Port = 18545, sd_Protocol = ''http''\<rparr>"

definition OperaWsService :: ServiceDescription where
  "OperaWsService = \<lparr>sd_Name = ''OperaWs'', sd_Port = 18546, sd_Protocol = ''ws''\<rparr>"

definition OperaDebugService :: ServiceDescription where
  "OperaDebugService = \<lparr>sd_Name = ''OperaPprof'', sd_Port = 6060, sd_Protocol = ''http''\<rparr>"

definition RegisterService :: "ServiceDescription \<Rightarrow> (nat \<rightharpoonup> ServiceDescription) \<Rightarrow> (nat \<rightharpoonup> ServiceDescription) option" where
  "RegisterService service services = (if services (sd_Port service) \<noteq> None then None else Some (services(sd_Port service \<mapsto> service)))"

text \<open>The package's \<open>init\<close>; \<open>None\<close> is its panic.\<close>

definition operaServices :: "(nat \<rightharpoonup> ServiceDescription) option" where
  "operaServices =
     Option.bind (RegisterService OperaRpcService Map.empty)
       (\<lambda>g. Option.bind (RegisterService OperaWsService g) (RegisterService OperaDebugService))"

definition GetServiceUrl :: "engine \<Rightarrow> ServiceDescription \<Rightarrow> container_node \<Rightarrow> history \<Rightarrow> ((docker_error + string) \<times> container_node) \<times> history" where
  "GetServiceUrl en service n d =
     (case GetAddressForService en (sd_Port service) (cn_container n) d of
        ((Inl e, c1), d1) \<Rightarrow> ((Inl e, n\<lparr>cn_container := c1\<rparr>), d1)
      | ((Inr addr, c1), d1) \<Rightarrow> ((Inr (sd_Protocol service @ ''://'' @ addr), n\<lparr>cn_container := c1\<rparr>), d1))"

text \<open>
  \<open>GetRoundTripTime\<close> with the durations that were read from the output of ping; the median of none is an index out of range.
\<close>

definition median_duration :: "duration list \<Rightarrow> duration option" where
  "median_duration durations =
     (let sorted_durations = sort durations; i = length durations div 2
      in if i < length sorted_durations then Some (sorted_durations ! i) else None)"

end
