(* ===== verification/Docker_Logs_Properties.thy ===== *)
theory Docker_Logs_Properties
  imports Docker_Logs
begin

text \<open>
  The lines of a stream do not depend on how it arrives, and what a subscriber of the log reads is complete unless it falls behind.
\<close>

text \<open>
  C22: However the output of a process is cut into chunks, the splitter emits exactly the lines of the whole output, each with its end, and at
  last what follows the last end of a line; nothing is lost, doubled or joined.
\<close>

theorem splitter_emits_lines: "split_stream chunks [] = Lines (concat chunks) \<and> concat (split_stream chunks []) = concat chunks"
proof -
  have start: "split_buffer [] = ([], [])" by (simp add: split_buffer.simps IndexByte_def)
  have lines: "split_stream chunks [] = Lines (concat chunks)" using split_stream_Lines [of "[]" chunks] by (simp add: start)
  have "concat (Lines s) = s" for s
  proof (induction s rule: Lines.induct)
    case (1 s)
    show ?case
    proof (cases "IndexByte newline s")
      case None
      then show ?thesis by (simp add: Lines.simps [of s])
    next
      case (Some i)
      then show ?thesis using 1 [OF Some] by (simp add: Lines.simps [of s])
    qed
  qed
  then show ?thesis using lines by simp
qed

section \<open>Invariant of the broadcaster\<close>

definition accept :: "string \<Rightarrow> logSubscription \<Rightarrow> logSubscription" where
  "accept line s =
     (let s1 = s\<lparr>ls_offered := ls_offered s @ [line]\<rparr>
      in if length (ls_lines s) < logSubscriberBuffer then s1\<lparr>ls_lines := ls_lines s @ [line]\<rparr>
         else s1\<lparr>ls_dropped := ls_dropped s + 1\<rparr>)"

lemma offer_accept: "offer line s = (if ls_linesClosed s then Panic SendOnClosed else Ret (accept line s))"
  by (simp add: offer_def accept_def Let_def)

lemma accept_simps [simp]:
  "ls_linesClosed (accept line s) = ls_linesClosed s" "ls_done (accept line s) = ls_done s"
  "ls_offered (accept line s) = ls_offered s @ [line]"
  by (simp_all add: accept_def Let_def)

definition sub_ok :: "logSubscription \<Rightarrow> bool" where
  "sub_ok s \<longleftrightarrow>
     length (ls_lines s) \<le> logSubscriberBuffer \<and>
     (ls_dropped s = 0 \<longrightarrow> concat (ls_offered s) = ls_delivered s @ ls_pending s @ concat (ls_lines s))"

lemma accept_ok: "sub_ok s \<Longrightarrow> sub_ok (accept line s)"
  by (auto simp: sub_ok_def accept_def Let_def)

lemma offer_to_Ret:
  assumes "distinct is" "\<forall>i \<in> set is. i < length subs \<and> \<not> ls_linesClosed (subs ! i)"
  shows "offer_to line is subs = Ret (map (\<lambda>i. if i \<in> set is then accept line (subs ! i) else subs ! i) [0..<length subs])"
  using assms
proof (induction "is" arbitrary: subs)
  case Nil
  show ?case by (simp add: map_nth)
next
  case (Cons i "is")
  have step: "offer line (subs ! i) = Ret (accept line (subs ! i))" using Cons.prems by (simp add: offer_accept)
  have "offer_to line is (subs[i := accept line (subs ! i)]) =
    Ret (map (\<lambda>j. if j \<in> set is then accept line (subs[i := accept line (subs ! i)] ! j) else subs[i := accept line (subs ! i)] ! j)
      [0..<length subs])"
    using Cons.prems by (subst Cons.IH) (auto simp: nth_list_update)
  also have "map (\<lambda>j. if j \<in> set is then accept line (subs[i := accept line (subs ! i)] ! j) else subs[i := accept line (subs ! i)] ! j)
      [0..<length subs] = map (\<lambda>j. if j \<in> set (i # is) then accept line (subs ! j) else subs ! j) [0..<length subs]"
    using Cons.prems by (auto simp: nth_list_update)
  finally show ?case using step by simp
qed

lemma close_lines_Ret:
  assumes "distinct is" "\<forall>i \<in> set is. i < length subs \<and> \<not> ls_linesClosed (subs ! i)"
  shows "close_lines is subs =
    Ret (map (\<lambda>i. if i \<in> set is then (subs ! i)\<lparr>ls_linesClosed := True\<rparr> else subs ! i) [0..<length subs])"
  using assms
proof (induction "is" arbitrary: subs)
  case Nil
  show ?case by (simp add: map_nth)
next
  case (Cons i "is")
  let ?subs = "subs[i := (subs ! i)\<lparr>ls_linesClosed := True\<rparr>]"
  have "close_lines is ?subs = Ret (map (\<lambda>j. if j \<in> set is then (?subs ! j)\<lparr>ls_linesClosed := True\<rparr> else ?subs ! j) [0..<length subs])"
    using Cons.prems by (subst Cons.IH) (auto simp: nth_list_update)
  also have "map (\<lambda>j. if j \<in> set is then (?subs ! j)\<lparr>ls_linesClosed := True\<rparr> else ?subs ! j) [0..<length subs] =
    map (\<lambda>j. if j \<in> set (i # is) then (subs ! j)\<lparr>ls_linesClosed := True\<rparr> else subs ! j) [0..<length subs]"
    using Cons.prems by (auto simp: nth_list_update)
  finally show ?case using Cons.prems by simp
qed

text \<open>
  The replay is the tail of what was published, the subscribers have open channels, and a subscription that its reader has not closed has been
  offered all that was published from some line on.
\<close>

definition followed :: "string list \<Rightarrow> logSubscription \<Rightarrow> bool" where
  "followed pub s \<longleftrightarrow> (\<exists>n \<le> length pub. length pub - n \<ge> min logReplayLines (length pub) \<and> ls_offered s = drop n pub)"

definition log_inv :: "logBroadcaster \<Rightarrow> bool" where
  "log_inv b \<longleftrightarrow>
     distinct (lb_subscribers b) \<and>
     (\<forall>i \<in> set (lb_subscribers b). i < length (lb_subs b) \<and> \<not> ls_linesClosed (lb_subs b ! i)) \<and>
     lb_replay b = drop (length (lb_published b) - logReplayLines) (lb_published b) \<and>
     (\<forall>i < length (lb_subs b). sub_ok (lb_subs b ! i) \<and>
        (\<not> ls_done (lb_subs b ! i) \<longrightarrow> followed (lb_published b) (lb_subs b ! i) \<and> (\<not> lb_closed b \<longrightarrow> i \<in> set (lb_subscribers b))))"

lemma followed_publish: "followed pub s \<Longrightarrow> followed (pub @ [line]) (accept line s)"
proof -
  assume "followed pub s"
  then obtain n where n: "n \<le> length pub" "length pub - n \<ge> min logReplayLines (length pub)" "ls_offered s = drop n pub"
    by (auto simp: followed_def)
  then have "n \<le> length (pub @ [line])" "length (pub @ [line]) - n \<ge> min logReplayLines (length (pub @ [line]))"
    "ls_offered (accept line s) = drop n (pub @ [line])" by auto
  then show ?thesis unfolding followed_def by blast
qed

lemma replay_publish:
  assumes "replay = drop (length pub - logReplayLines) pub"
  shows "(if length replay = logReplayLines then drop 1 replay else replay) @ [line] =
    drop (length (pub @ [line]) - logReplayLines) (pub @ [line])"
  using assms by (auto simp: logReplayLines_def intro: arg_cong [where f = "\<lambda>n. drop n pub"])

lemma publish_inv: "log_inv b \<Longrightarrow> publish line b = Ret b' \<Longrightarrow> log_inv b'"
proof -
  assume inv: "log_inv b" and ret: "publish line b = Ret b'"
  show ?thesis
  proof (cases "lb_closed b")
    case False
    let ?subs = "map (\<lambda>i. if i \<in> set (lb_subscribers b) then accept line (lb_subs b ! i) else lb_subs b ! i) [0..<length (lb_subs b)]"
    have "offer_to line (lb_subscribers b) (lb_subs b) = Ret ?subs"
      using inv by (intro offer_to_Ret) (auto simp: log_inv_def)
    then have b': "b' = b\<lparr>lb_replay := (if length (lb_replay b) = logReplayLines then drop 1 (lb_replay b) else lb_replay b) @ [line],
        lb_subs := ?subs, lb_published := lb_published b @ [line]\<rparr>"
      using ret False by (simp add: publish_def Let_def)
    have "lb_replay b' = drop (length (lb_published b') - logReplayLines) (lb_published b')"
      using replay_publish [of "lb_replay b" "lb_published b" line] inv by (simp add: b' log_inv_def)
    then show ?thesis
      using inv False by (auto simp: log_inv_def b' accept_ok followed_publish)
  qed (use inv ret in \<open>simp add: publish_def\<close>)
qed

lemma close_channel_simps [simp]:
  "sub_ok (s\<lparr>ls_linesClosed := True\<rparr>) = sub_ok s" "followed pub (s\<lparr>ls_linesClosed := True\<rparr>) = followed pub s"
  by (simp_all add: sub_ok_def followed_def)

lemma close_inv: "log_inv b \<Longrightarrow> broadcaster_close b = Ret b' \<Longrightarrow> log_inv b'"
proof -
  assume inv: "log_inv b" and ret: "broadcaster_close b = Ret b'"
  show ?thesis
  proof (cases "lb_closed b")
    case False
    have "close_lines (lb_subscribers b) (lb_subs b) =
        Ret (map (\<lambda>i. if i \<in> set (lb_subscribers b) then (lb_subs b ! i)\<lparr>ls_linesClosed := True\<rparr> else lb_subs b ! i) [0..<length (lb_subs b)])"
      using inv by (intro close_lines_Ret) (auto simp: log_inv_def)
    then show ?thesis
      using inv ret False by (auto simp: log_inv_def broadcaster_close_def split: if_splits)
  qed (use inv ret in \<open>simp add: broadcaster_close_def\<close>)
qed

lemma replay_to_fresh:
  assumes "\<not> ls_linesClosed s" "ls_dropped s = 0" "length (ls_lines s) + length lines \<le> logSubscriberBuffer"
  shows "replay_to lines s = Ret (s\<lparr>ls_lines := ls_lines s @ lines, ls_offered := ls_offered s @ lines\<rparr>)"
  using assms by (induction lines arbitrary: s) (auto simp: offer_accept accept_def Let_def)

lemma subscribe_inv: "log_inv b \<Longrightarrow> subscribe b = Ret b' \<Longrightarrow> log_inv b'"
proof -
  assume inv: "log_inv b" and ret: "subscribe b = Ret b'"
  define s where "s = \<lparr>ls_lines = lb_replay b, ls_linesClosed = False, ls_pending = [], ls_dropped = 0, ls_done = False,
    ls_offered = lb_replay b, ls_delivered = []\<rparr>"
  have replay: "lb_replay b = drop (length (lb_published b) - logReplayLines) (lb_published b)" using inv by (simp add: log_inv_def)
  have short: "length (lb_replay b) \<le> logSubscriberBuffer" by (simp add: replay logReplayLines_def logSubscriberBuffer_def)
  have b': "b' = (if lb_closed b then b\<lparr>lb_subs := lb_subs b @ [s\<lparr>ls_linesClosed := True\<rparr>]\<rparr>
      else b\<lparr>lb_subs := lb_subs b @ [s], lb_subscribers := lb_subscribers b @ [length (lb_subs b)]\<rparr>)"
    using ret short by (cases "lb_closed b") (simp_all add: subscribe_def replay_to_fresh s_def)
  have "followed (lb_published b) s"
    unfolding followed_def s_def using replay by (intro exI [of _ "length (lb_published b) - logReplayLines"]) auto
  moreover have "sub_ok s" using short by (simp add: sub_ok_def s_def)
  ultimately have ok: "sub_ok s" "followed (lb_published b) s" "sub_ok (s\<lparr>ls_linesClosed := True\<rparr>)"
    "followed (lb_published b) (s\<lparr>ls_linesClosed := True\<rparr>)"
    by (simp_all add: sub_ok_def followed_def)
  have "\<not> ls_linesClosed s" by (simp add: s_def)
  then show ?thesis
    using inv ok by (auto simp: log_inv_def b' nth_append less_Suc_eq)
qed

lemma next_line_concat: "next_line ls = (line, rest) \<Longrightarrow>
    concat ls = (case line of None \<Rightarrow> [] | Some l \<Rightarrow> l) @ concat rest \<and> length rest \<le> length ls \<and> (line = None \<longrightarrow> rest = [])"
  by (induction ls rule: next_line.induct) (auto split: if_splits)

lemma read_ok:
  assumes "subscription_Read room ctxDone s = Ret (answer, s')"
  shows "(sub_ok s \<longrightarrow> sub_ok s') \<and> ls_linesClosed s' = ls_linesClosed s \<and> ls_done s' = ls_done s \<and> ls_offered s' = ls_offered s \<and>
    (answer = None \<longrightarrow> ls_pending s' = [] \<and> ls_lines s' = [])"
proof (cases "ls_pending s = []")
  case True
  then show ?thesis
    using assms next_line_concat [of "ls_lines s"]
    by (cases "next_line (ls_lines s)") (auto simp: subscription_Read_def sub_ok_def split: option.splits if_splits)
qed (use assms in \<open>auto simp: subscription_Read_def sub_ok_def\<close>)

lemma unsubscribe_inv: "log_inv b \<Longrightarrow> i < length (lb_subs b) \<Longrightarrow> log_inv (subscription_Close i b)"
  by (auto simp: log_inv_def subscription_Close_def nth_list_update sub_ok_def distinct_removeAll)

lemma log_step_inv: "log_step b b' \<Longrightarrow> log_inv b \<Longrightarrow> log_inv b'"
proof (induction rule: log_step.induct)
  case (published line b b')
  then show ?case by (blast intro: publish_inv)
next
  case (closed b b')
  then show ?case by (blast intro: close_inv)
next
  case (subscribed b b')
  then show ?case by (blast intro: subscribe_inv)
next
  case (unsubscribed i b)
  then show ?case by (blast intro: unsubscribe_inv)
next
  case (read i b room ctxDone answer s)
  have "followed pub s = followed pub (lb_subs b ! i)" for pub using read_ok [OF read(2)] by (simp add: followed_def)
  then show ?case using read read_ok [OF read(2)] by (auto simp: log_inv_def nth_list_update)
qed

lemma log_reachable_inv: "log_reachable b \<Longrightarrow> log_inv b"
  unfolding log_reachable_def
proof (induction rule: rtranclp_induct)
  case base
  show ?case by (simp add: newLogBroadcaster_def log_inv_def)
qed (rule log_step_inv)


text \<open>A log with two lines is closed after a reader has subscribed and read the first; the reader meets the end after the second.\<close>

definition closed_log :: logBroadcaster where
  "closed_log = \<lparr>lb_subs = [\<lparr>ls_lines = [], ls_linesClosed = True, ls_pending = [], ls_dropped = 0, ls_done = False,
       ls_offered = [''a'', ''b''], ls_delivered = ''ab''\<rparr>],
     lb_subscribers = [], lb_replay = [''a'', ''b''], lb_closed = True, lb_published = [''a'', ''b'']\<rparr>"

lemma closed_log_reachable: "log_reachable closed_log"
proof -
  define s where "s ls closed offered delivered = \<lparr>ls_lines = ls, ls_linesClosed = closed, ls_pending = [], ls_dropped = 0,
      ls_done = False, ls_offered = offered, ls_delivered = delivered\<rparr>" for ls closed offered delivered
  define b where "b subs is replay closed = \<lparr>lb_subs = subs, lb_subscribers = is, lb_replay = replay, lb_closed = closed,
      lb_published = replay\<rparr>" for subs "is" replay closed
  note defs = s_def b_def publish_def subscribe_def broadcaster_close_def offer_def subscription_Read_def logReplayLines_def
    logSubscriberBuffer_def
  have start: "newLogBroadcaster = b [] [] [] False" by (simp add: newLogBroadcaster_def b_def)
  have s1: "log_step (b [] [] [] False) (b [] [] [''a''] False)" by (rule published [of "''a''"]) (simp add: defs)
  have s2: "log_step (b [] [] [''a''] False) (b [s [''a''] False [''a''] []] [0] [''a''] False)"
    by (rule subscribed) (simp add: defs)
  have s3: "log_step (b [s [''a''] False [''a''] []] [0] [''a''] False) (b [s [] False [''a''] ''a''] [0] [''a''] False)"
    using read [of 0 "b [s [''a''] False [''a''] []] [0] [''a''] False" 10 False "Some ''a''" "s [] False [''a''] ''a''"]
    by (simp add: defs)
  have s4: "log_step (b [s [] False [''a''] ''a''] [0] [''a''] False) (b [s [''b''] False [''a'', ''b''] ''a''] [0] [''a'', ''b''] False)"
    by (rule published [of "''b''"]) (simp add: defs)
  have s5: "log_step (b [s [''b''] False [''a'', ''b''] ''a''] [0] [''a'', ''b''] False)
      (b [s [''b''] True [''a'', ''b''] ''a''] [] [''a'', ''b''] True)"
    by (rule closed) (simp add: defs)
  have s6: "log_step (b [s [''b''] True [''a'', ''b''] ''a''] [] [''a'', ''b''] True)
      (b [s [] True [''a'', ''b''] ''ab''] [] [''a'', ''b''] True)"
    using read [of 0 "b [s [''b''] True [''a'', ''b''] ''a''] [] [''a'', ''b''] True" 10 False "Some ''b''" "s [] True [''a'', ''b''] ''ab''"]
    by (simp add: defs)
  have final: "closed_log = b [s [] True [''a'', ''b''] ''ab''] [] [''a'', ''b''] True" by (simp add: closed_log_def b_def s_def)
  note into = converse_rtranclp_into_rtranclp
  show ?thesis
    unfolding log_reachable_def start final
    by (rule into [OF s1 into [OF s2 into [OF s3 into [OF s4 into [OF s5 into [OF s6 rtranclp.rtrancl_refl [of log_step]]]]]]])
qed


end
