(* ===== verification/Docker_Containers_Properties.thy ===== *)
theory Docker_Containers_Properties
  imports Docker_Exec Docker_Logs_Properties
begin

text \<open>
  What the operations on containers ask of the engine: a container is stopped and removed at most once, a purge removes all that the
  engine lists, and the output of a background command reaches the log file and the subscribers as it is.
\<close>

section \<open>Histories\<close>

text \<open>
  \<open>adds P h h'\<close>: \<open>h'\<close> continues \<open>h\<close> with calls that satisfy \<open>P\<close>.
\<close>

definition adds :: "(engine_call \<Rightarrow> bool) \<Rightarrow> history \<Rightarrow> history \<Rightarrow> bool" where
  "adds P h h' \<longleftrightarrow> (\<exists>evs. h' = h @ evs \<and> list_all (P \<circ> fst) evs)"

lemma request_error_answers [simp]:
  "en_call en h c = Inl e \<Longrightarrow> request_error en c h = (Some e, h @ [(c, Inl e)])"
  "en_call en h c = Inr a \<Longrightarrow> request_error en c h = (None, h @ [(c, Inr a)])"
  by (simp_all add: request_error_def request_def)

lemma adds_refl [simp]: "adds P h h"
  by (simp add: adds_def)

lemma adds_trans: "adds P h h1 \<Longrightarrow> adds P h1 h2 \<Longrightarrow> adds P h h2"
  by (auto simp: adds_def)

lemma adds_request: "P c \<Longrightarrow> request en c h = (answer, h1) \<Longrightarrow> adds P h h1"
  by (auto simp: adds_def request_def Let_def)

lemma adds_request_error: "P c \<Longrightarrow> request_error en c h = (err, h1) \<Longrightarrow> adds P h h1"
  by (auto simp: request_error_def split: prod.splits sum.splits intro: adds_request)

fun is_stop :: "engine_call \<Rightarrow> bool" where
  "is_stop (ContainerStop _ _ _) = True" | "is_stop _ = False"

fun is_remove :: "engine_call \<Rightarrow> bool" where
  "is_remove (ContainerRemove _ _) = True" | "is_remove _ = False"

fun is_create :: "engine_call \<Rightarrow> bool" where
  "is_create (ContainerCreate _) = True" | "is_create _ = False"

text \<open>Calls that neither create nor stop nor remove a container.\<close>

definition quiet_call :: "engine_call \<Rightarrow> bool" where
  "quiet_call c \<longleftrightarrow> \<not> is_stop c \<and> \<not> is_remove c \<and> \<not> is_create c"

lemma quiet_call_simps [simp]:
  "quiet_call (NetworkConnect a b)" "quiet_call (ContainerStart a)" "quiet_call (ContainerKill a b)" "quiet_call (ContainerInspect a)"
  "quiet_call (ContainerList x y)" "quiet_call (NetworkRemove a)" "quiet_call (NetworkList y)" "quiet_call (NetworkDisconnect a b)"
  "quiet_call (ContainerLogs a x)" "quiet_call (ExecCreate a l m)" "quiet_call (ExecAttach a)" "quiet_call (ExecInspect a)"
  "quiet_call (StatFile a)" "quiet_call (OpenFile a)" "quiet_call (CreateFile a)" "quiet_call Sleep"
  by (simp_all add: quiet_call_def)

lemma existing_append: "existing (h @ evs) = fold after_call evs (existing h)"
  by (simp add: existing_def)

lemma quiet_call_existing: "adds quiet_call h h' \<Longrightarrow> existing h' = existing h"
proof -
  have one: "quiet_call c \<Longrightarrow> after_call (c, r) live = live" for c r live
    by (cases c; cases r) (simp_all add: quiet_call_def)
  have "list_all (quiet_call \<circ> fst) evs \<Longrightarrow> fold after_call evs live = live" for evs live
    by (induction evs arbitrary: live) (auto simp: one)
  then show "adds quiet_call h h' \<Longrightarrow> existing h' = existing h" by (auto simp: adds_def existing_append)
qed

section \<open>Start\<close>

lemma retry_loop_adds:
  assumes "\<And>h v e h1. attempt h = ((v, e), h1) \<Longrightarrow> adds P h h1" "\<And>h. adds P h (sleep h)"
  shows "retry_loop stop sleep attempt n out err h = (r, h') \<Longrightarrow> adds P h h'"
proof (induction n arbitrary: out err h)
  case (Suc n)
  obtain v e h1 where one: "attempt h = ((v, e), h1)" by (metis prod.exhaust)
  then have first: "adds P h h1" "adds P h (sleep h1)" using assms by (blast intro: adds_trans)+
  show ?case
  proof (cases "\<not> stop h \<and> \<not> stop (sleep h1) \<and> (\<exists>x. e = Some x \<and> \<not> is_permanent x)")
    case True
    then have "retry_loop stop sleep attempt n v e (sleep h1) = (r, h')" using Suc.prems one by auto
    then show ?thesis using Suc.IH first(2) by (blast intro: adds_trans)
  next
    case False
    then have "h' \<in> {h, h1, sleep h1}" using Suc.prems one by (auto simp: Let_def split: if_splits option.splits)
    then show ?thesis using first by auto
  qed
qed simp

lemma start_attempts_quiet: "start_attempts en cid h = (err, h') \<Longrightarrow> adds quiet_call h h'"
proof -
  assume run: "start_attempts en cid h = (err, h')"
  let ?attempt = "\<lambda>h. let (e, h1) = (case request_error en (ContainerStart cid) h of (e, h1) \<Rightarrow> (map_option TransientError e, h1)) in (((), e), h1)"
  obtain r where "retry_loop (en_ctxDone en) (\<lambda>h. h @ [(Sleep, Inr [])]) ?attempt DefaultRetryAttempts () None h = (r, h')"
    using run by (auto simp: start_attempts_def Retry_def RetryReturn_def split: prod.splits)
  moreover have "adds quiet_call h1 h2" if "?attempt h1 = ((v, e), h2)" for h1 v e h2
    using that adds_request_error [of quiet_call "ContainerStart cid" en h1] by (auto split: prod.splits)
  moreover have "adds quiet_call h1 (h1 @ [(Sleep, Inr [])])" for h1 by (simp add: adds_def)
  ultimately show ?thesis using retry_loop_adds [of ?attempt quiet_call "\<lambda>h. h @ [(Sleep, Inr [])]"] by blast
qed

lemma resolveIP_facts:
  assumes "resolveIP en c h = ((err, c'), h')"
  shows "adds quiet_call h h' \<and> ct_id c' = ct_id c \<and> ct_config c' = ct_config c \<and> ct_stopped c' = ct_stopped c \<and> ct_cleaned c' = ct_cleaned c \<and>
    ct_execLogs c' = ct_execLogs c"
proof -
  obtain answer h1 where ask: "request en (ContainerInspect (ct_id c)) h = (answer, h1)" by fastforce
  then have "adds quiet_call h h1" by (rule adds_request [rotated]) simp
  then show ?thesis using assms ask by (auto simp: resolveIP_def Let_def split: sum.splits option.splits list.splits if_splits)
qed

lemma new_container_simps [simp]:
  "ct_id (new_container cid config) = cid" "ct_config (new_container cid config) = config" "ct_execLogs (new_container cid config) = None"
  "\<not> ct_stopped (new_container cid config)" "\<not> ct_cleaned (new_container cid config)"
  by (simp_all add: new_container_def)

lemma start_created_facts:
  assumes "start_created en config cid h = (r, h')"
  shows "adds quiet_call h h' \<and> (\<forall>c. r = Inr c \<longrightarrow> ct_id c = cid \<and> ct_config c = config \<and> \<not> ct_stopped c \<and> \<not> ct_cleaned c \<and> ct_execLogs c = None)"
proof -
  obtain e1 h1 where conn: "(case cc_Network config of None \<Rightarrow> (None, h) | Some net \<Rightarrow> request_error en (NetworkConnect (nt_id net) cid) h) = (e1, h1)"
    by fastforce
  then have a1: "adds quiet_call h h1" by (auto split: option.splits intro: adds_request_error [rotated])
  obtain e2 h2 where st: "start_attempts en cid h1 = (e2, h2)" by fastforce
  have a2: "adds quiet_call h h2" using a1 start_attempts_quiet [OF st] by (rule adds_trans)
  obtain e3 c3 h3 where ip: "resolveIP en (new_container cid config) h2 = ((e3, c3), h3)" by (metis prod.exhaust)
  note facts = resolveIP_facts [OF ip]
  have a3: "adds quiet_call h h3" using a2 facts by (blast intro: adds_trans)
  show ?thesis
    using assms a1 a2 a3 facts unfolding start_created_def conn
    by (auto simp: st ip split: option.splits)
qed

text \<open>
  A started container exists and is running; a start that fails leaves the containers as they were, or with one more: the container it
  had created before the failure.
\<close>

lemma start_existing:
  assumes "Start en config h = Ret (r, h')"
  shows "case r of
      Inr c \<Rightarrow> existing h' = insert (ct_id c) (existing h) \<and> ct_config c = config \<and> \<not> ct_stopped c \<and> \<not> ct_cleaned c \<and> ct_execLogs c = None \<and>
        cc_ShutdownTimeout config \<noteq> None
    | Inl e \<Rightarrow> existing h' = existing h \<or> (\<exists>cid. existing h' = insert cid (existing h))"
proof -
  obtain e1 h1 where check: "genesis_check en config h = (e1, h1)" by fastforce
  then have "adds quiet_call h h1"
    by (auto simp: genesis_check_def Let_def split: option.splits prod.splits intro: adds_request_error [rotated])
  then have h1: "existing h1 = existing h" by (rule quiet_call_existing)
  show ?thesis
  proof (cases "e1 = None \<and> cc_ShutdownTimeout config \<noteq> None")
    case False
    then show ?thesis using assms check h1 by (auto simp: Start_def split: option.splits)
  next
    case True
    then obtain timeout where timeout: "cc_ShutdownTimeout config = Some timeout" "e1 = None" by auto
    let ?create = "create_call config (whole_seconds timeout)"
    show ?thesis
    proof (cases "en_call en h1 ?create")
      case (Inl e)
      then show ?thesis
        using assms check timeout h1 by (auto simp: Start_def request_def Let_def create_call_def existing_append)
    next
      case (Inr cid)
      then have run: "start_created en config cid (h1 @ [(?create, Inr cid)]) = (r, h')"
        using assms check timeout by (simp add: Start_def request_def Let_def)
      note facts = start_created_facts [OF run]
      have "existing h' = insert cid (existing h)"
        using quiet_call_existing [OF facts [THEN conjunct1]] h1 by (simp add: existing_append create_call_def)
      then show ?thesis using facts timeout by (auto split: sum.splits)
    qed
  qed
qed

section \<open>Stop and clean-up\<close>

text \<open>The operations on one container, in any order.\<close>

inductive container_step :: "engine \<Rightarrow> Container \<times> history \<Rightarrow> Container \<times> history \<Rightarrow> bool" for en where
  stop: "Container_Stop en s = Ret (err, s') \<Longrightarrow> container_step en s s'"
| cleanup: "Container_Cleanup en s = Ret (err, s') \<Longrightarrow> container_step en s s'"
| check: "Container_CheckRunning en c h = (err, h') \<Longrightarrow> container_step en (c, h) (c, h')"
| signal: "SendSignal en c sig h = (err, h') \<Longrightarrow> container_step en (c, h) (c, h')"
| address: "GetAddressForService en port c h = ((r, c'), h') \<Longrightarrow> container_step en (c, h) (c', h')"
| exec: "ExecWithOptions en c ts cmd opts h = (r, h') \<Longrightarrow> container_step en (c, h) (c, h')"
| background: "ExecBackground en ts cmd opts c h = ((r, c'), h') \<Longrightarrow> container_step en (c, h) (c', h')"
| stream: "StreamLog en c h = Ret (r, c', h') \<Longrightarrow> container_step en (c, h) (c', h')"

definition ends :: "history \<Rightarrow> engine_call list" where
  "ends evs = filter (\<lambda>c. is_stop c \<or> is_remove c) (map fst evs)"

text \<open>The stops and removals since the start, as the flags of the container tell them.\<close>

definition ends_expected :: "Container \<Rightarrow> engine_call list" where
  "ends_expected c =
     (if ct_stopped c then [ContainerStop (ct_id c) ''SIGINT'' (whole_seconds (the (cc_ShutdownTimeout (ct_config c))))] else []) @
     (if ct_cleaned c then [ContainerRemove (ct_id c) False] else [])"

definition life_inv :: "Container \<Rightarrow> history \<Rightarrow> Container \<times> history \<Rightarrow> bool" where
  "life_inv c0 h0 s \<longleftrightarrow>
     (case s of (c, h) \<Rightarrow> ct_id c = ct_id c0 \<and> ct_config c = ct_config c0 \<and> (ct_cleaned c \<longrightarrow> ct_stopped c) \<and> (\<exists>evs. h = h0 @ evs \<and> ends evs = ends_expected c))"

definition same_life :: "Container \<Rightarrow> Container \<Rightarrow> bool" where
  "same_life c c' \<longleftrightarrow> ct_id c' = ct_id c \<and> ct_config c' = ct_config c \<and> ct_stopped c' = ct_stopped c \<and> ct_cleaned c' = ct_cleaned c"

lemma same_life_refl [simp]: "same_life c c"
  by (simp add: same_life_def)

lemma life_inv_quiet: "life_inv k0 h0 (c, h) \<Longrightarrow> adds quiet_call h h' \<Longrightarrow> same_life c c' \<Longrightarrow> life_inv k0 h0 (c', h')"
proof -
  have "list_all (quiet_call \<circ> fst) evs \<Longrightarrow> ends evs = []" for evs
    by (induction evs) (auto simp: ends_def quiet_call_def)
  then show "life_inv k0 h0 (c, h) \<Longrightarrow> adds quiet_call h h' \<Longrightarrow> same_life c c' \<Longrightarrow> life_inv k0 h0 (c', h')"
    by (auto simp: life_inv_def adds_def same_life_def ends_expected_def ends_def)
qed

lemma startExec_quiet: "startExec en c cmd env h = (r, h') \<Longrightarrow> adds quiet_call h h'"
proof -
  assume run: "startExec en c cmd env h = (r, h')"
  obtain answer h1 where ask: "request en (ExecCreate (ct_id c) cmd env) h = (answer, h1)" by fastforce
  then have a1: "adds quiet_call h h1" by (rule adds_request [rotated]) simp
  have "adds quiet_call h h2" if "request_error en (ExecAttach execID) h1 = (e, h2)" for execID e h2
    using a1 adds_request_error [of quiet_call, OF _ that] by (simp add: adds_trans)
  then show ?thesis
    using run ask a1 by (auto simp: startExec_def split: sum.splits if_splits prod.splits option.splits)
qed

lemma createExecLogFile_quiet: "createExecLogFile en c dir ts name h = (r, h') \<Longrightarrow> adds quiet_call h h'"
  by (auto simp: createExecLogFile_def Let_def split: prod.splits option.splits intro: adds_request_error [rotated])

lemma exit_error_quiet: "exit_error en terminated cmd execID h = (r, h') \<Longrightarrow> adds quiet_call h h'"
  by (auto simp: exit_error_def Let_def split: prod.splits option.splits intro: adds_request_error [rotated])

lemma ExecWithOptions_quiet: "ExecWithOptions en c ts cmd opts h = (r, h') \<Longrightarrow> adds quiet_call h h'"
proof -
  assume run: "ExecWithOptions en c ts cmd opts h = (r, h')"
  obtain x h1 where start: "startExec en c cmd (eo_Env opts) h = (x, h1)" by fastforce
  note a1 = startExec_quiet [OF start]
  show ?thesis
  proof (cases x)
    case (Inl e)
    then show ?thesis using run start a1 by (simp add: ExecWithOptions_def)
  next
    case (Inr y)
    obtain execID stream where y: "y = (execID, stream)" by fastforce
    define h2 where "h2 = (case log_target c opts of None \<Rightarrow> h1 | Some dir \<Rightarrow> snd (createExecLogFile en c dir ts (eo_LogName opts) h1))"
    have "adds quiet_call h1 h2"
      using createExecLogFile_quiet by (auto simp: h2_def split: option.splits) (metis prod.collapse)
    moreover obtain z h3 where exit: "exit_error en ExecExitCode cmd execID h2 = (z, h3)" by fastforce
    ultimately have "adds quiet_call h h3" using a1 exit_error_quiet by (blast intro: adds_trans)
    then show ?thesis
      using run start Inr y a1 exit by (auto simp: ExecWithOptions_def Let_def h2_def [symmetric] split: option.splits prod.splits)
  qed
qed

lemma ExecBackground_quiet: "ExecBackground en ts cmd opts c h = ((r, c'), h') \<Longrightarrow> adds quiet_call h h' \<and> same_life c c'"
proof -
  assume run: "ExecBackground en ts cmd opts c h = ((r, c'), h')"
  define c1 where "c1 = logBroadcasterForExec c"
  have same: "same_life c c1" by (simp add: c1_def logBroadcasterForExec_def same_life_def split: option.splits)
  obtain x h1 where file_step: "(case log_target c1 opts of None \<Rightarrow> (Inr [], h) | Some dir \<Rightarrow> createExecLogFile en c1 dir ts (eo_LogName opts) h) = (x, h1)"
    by fastforce
  then have a1: "adds quiet_call h h1" by (auto split: option.splits intro: createExecLogFile_quiet)
  obtain y h2 where start: "startExec en c1 cmd (eo_Env opts) h1 = (y, h2)" by fastforce
  have a2: "adds quiet_call h h2" using a1 startExec_quiet [OF start] by (rule adds_trans)
  show ?thesis
    using run a1 a2 same unfolding ExecBackground_def Let_def c1_def [symmetric] file_step
    by (cases x; cases y) (auto simp: start same_life_def)
qed

lemma stop_life:
  assumes "life_inv k0 h0 (c, h)" "Container_Stop en (c, h) = Ret (err, c1, h1)"
  shows "life_inv k0 h0 (c1, h1) \<and> ct_stopped c1 \<and> ct_cleaned c1 = ct_cleaned c \<and> ct_id c1 = ct_id c"
proof (cases "ct_stopped c")
  case False
  then obtain timeout where timeout: "cc_ShutdownTimeout (ct_config c) = Some timeout"
    using assms(2) by (cases "cc_ShutdownTimeout (ct_config c)") (auto simp: Container_Stop_def)
  let ?call = "ContainerStop (ct_id c) ''SIGINT'' (whole_seconds timeout)"
  obtain logs where "close_logs (ct_execLogs c) = Ret logs"
    using assms(2) False timeout by (cases "close_logs (ct_execLogs c)") (auto simp: Container_Stop_def split: prod.splits)
  then have "c1 = c\<lparr>ct_stopped := True, ct_execLogs := logs\<rparr>" "h1 = h @ [(?call, en_call en h ?call)]"
    using assms(2) False timeout by (auto simp: Container_Stop_def request_error_def request_def Let_def split: prod.splits sum.splits)
  moreover obtain evs where "h = h0 @ evs" "ends evs = []" "\<not> ct_cleaned c" "ct_id c = ct_id k0" "ct_config c = ct_config k0"
    using assms(1) False by (auto simp: life_inv_def ends_expected_def)
  ultimately show ?thesis using timeout by (simp add: life_inv_def ends_def ends_expected_def)
qed (use assms in \<open>auto simp: Container_Stop_def\<close>)

lemma cleanup_life:
  assumes "life_inv k0 h0 (c, h)" "Container_Cleanup en (c, h) = Ret (err, s')"
  shows "life_inv k0 h0 s'"
proof (cases "ct_cleaned c")
  case False
  obtain err1 c1 h1 where stop: "Container_Stop en (c, h) = Ret (err1, c1, h1)"
    using assms(2) False by (cases "Container_Stop en (c, h)") (auto simp: Container_Cleanup_def)
  note life = stop_life [OF assms(1) stop]
  show ?thesis
  proof (cases err1)
    case (Some e)
    then show ?thesis using assms(2) False stop life by (simp add: Container_Cleanup_def)
  next
    case None
    let ?call = "ContainerRemove (ct_id c1) False"
    have s': "s' = (c1\<lparr>ct_cleaned := True\<rparr>, h1 @ [(?call, en_call en h1 ?call)])"
      using assms(2) False stop None by (auto simp: Container_Cleanup_def request_error_def request_def Let_def split: prod.splits sum.splits)
    obtain evs where h1: "h1 = h0 @ evs" and evs: "ends evs = ends_expected c1" using life by (auto simp: life_inv_def)
    have "ends (evs @ [(?call, en_call en h1 ?call)]) = ends evs @ [?call]" by (simp add: ends_def)
    also have "\<dots> = ends_expected (c1\<lparr>ct_cleaned := True\<rparr>)" using life False evs by (simp add: ends_expected_def)
    finally have "ends (evs @ [(?call, en_call en h1 ?call)]) = ends_expected (c1\<lparr>ct_cleaned := True\<rparr>)" .
    moreover have "ct_id c1 = ct_id k0" "ct_config c1 = ct_config k0" "ct_stopped c1" using life by (simp_all add: life_inv_def)
    ultimately show ?thesis unfolding s' life_inv_def prod.case h1 by (intro conjI exI [of _ "evs @ [(?call, en_call en (h0 @ evs) ?call)]"]) simp_all
  qed
qed (use assms in \<open>auto simp: Container_Cleanup_def\<close>)

lemma container_step_life: "container_step en s s' \<Longrightarrow> life_inv k0 h0 s \<Longrightarrow> life_inv k0 h0 s'"
proof (induction rule: container_step.induct)
  case (stop s err s')
  then show ?case using stop_life [of k0 h0 "fst s" "snd s" en err "fst s'" "snd s'"] by simp
next
  case (cleanup s err s')
  then show ?case using cleanup_life [of k0 h0 "fst s" "snd s" en err s'] by simp
next
  case (check c h err h')
  then have "adds quiet_call h h'"
    by (auto simp: Container_CheckRunning_def Let_def split: prod.splits sum.splits intro: adds_request [rotated])
  then show ?case using check.prems by (simp add: life_inv_quiet)
next
  case (signal c sig h err h')
  then have "adds quiet_call h h'" by (auto simp: SendSignal_def split: prod.splits intro: adds_request_error [rotated])
  then show ?case using signal.prems by (simp add: life_inv_quiet)
next
  case (address port c h r c' h')
  have "adds quiet_call h h' \<and> same_life c c'"
  proof (cases "ct_ip c = []")
    case True
    obtain e c1 h1 where ip: "resolveIP en c h = ((e, c1), h1)" by (metis prod.exhaust)
    then have "c' = c1" "h' = h1" using address.hyps True by (auto simp: GetAddressForService_def split: option.splits)
    then show ?thesis using resolveIP_facts [OF ip] by (simp add: same_life_def)
  qed (use address.hyps in \<open>simp add: GetAddressForService_def\<close>)
  then show ?case using address.prems by (blast intro: life_inv_quiet)
next
  case (exec c ts cmd opts h r h')
  then show ?case using ExecWithOptions_quiet by (blast intro: life_inv_quiet same_life_refl)
next
  case (background ts cmd opts c h r c' h')
  then show ?case using ExecBackground_quiet by (blast intro: life_inv_quiet)
next
  case (stream c h r c' h')
  show ?case
  proof (cases "logSource c")
    case None
    then have "adds quiet_call h h' \<and> c' = c"
      using stream.hyps by (auto simp: StreamLog_def split: prod.splits option.splits intro: adds_request_error [rotated])
    then show ?thesis using stream.prems by (auto intro: life_inv_quiet)
  next
    case (Some b)
    then have "h' = h \<and> same_life c c'"
      using stream.hyps by (cases "subscribe b") (auto simp: StreamLog_def same_life_def)
    then show ?thesis using stream.prems by (auto intro: life_inv_quiet)
  qed
qed

lemma container_steps_life: "(container_step en)\<^sup>*\<^sup>* s s' \<Longrightarrow> life_inv k0 h0 s \<Longrightarrow> life_inv k0 h0 s'"
  by (induction rule: rtranclp_induct) (auto intro: container_step_life)

text \<open>
  C12: A container that was started is, whatever operations follow in whatever order and however the engine answers, asked to stop at most once and removed at most once, and
  never removed before it was asked to stop; while neither flag is set the engine has been asked for neither.
\<close>

theorem container_ends_once:
  assumes "Start en config h = Ret (Inr c0, h0)" "(container_step en)\<^sup>*\<^sup>* (c0, h0) (c, h1)"
  shows "\<exists>evs. h1 = h0 @ evs \<and> ct_id c = ct_id c0 \<and>
    filter (\<lambda>call. is_stop call \<or> is_remove call) (map fst evs) =
      (if ct_stopped c then [ContainerStop (ct_id c) ''SIGINT'' (whole_seconds (the (cc_ShutdownTimeout (ct_config c))))] else []) @
      (if ct_stopped c \<and> ct_cleaned c then [ContainerRemove (ct_id c) False] else [])"
proof -
  have "life_inv c0 h0 (c0, h0)" using start_existing [OF assms(1)] by (simp add: life_inv_def ends_def ends_expected_def)
  then have "life_inv c0 h0 (c, h1)" using container_steps_life [OF assms(2)] by blast
  then show ?thesis by (auto simp: life_inv_def ends_def ends_expected_def)
qed

definition obliging :: engine where
  "obliging = \<lparr>en_call = (\<lambda>h c. Inr ''c1''), en_inspect = (\<lambda>h c. \<lparr>ii_Running = True, ii_ExitCode = 0, ii_Networks = []\<rparr>),
     en_containers = (\<lambda>h. [\<lparr>cs_ID = ''c1'', cs_NetworkIDs = []\<rparr>]), en_networks = (\<lambda>h. [''n1'']), en_attached = (\<lambda>h e. \<lparr>ex_chunks = [], ex_copyErr = None\<rparr>),
     en_exitCode = (\<lambda>h e. 0), en_ctxDone = (\<lambda>h. False)\<rparr>"

definition plain_config :: ContainerConfig where
  "plain_config = \<lparr>cc_Hostname = ''n'', cc_ImageName = ''sonic'', cc_ShutdownTimeout = Some 180000000000, cc_Environment = [], cc_Entrypoint = [],
     cc_Network = None, cc_DataDirBinding = None, cc_GenesisFileBind = None, cc_KeystoreBinding = None, cc_LogsDir = None\<rparr>"

definition plain_history :: history where
  "plain_history = [(create_call plain_config 180, Inr ''c1''), (ContainerStart ''c1'', Inr ''c1'')]"

lemma obliging_attempts: "start_attempts obliging cid h = (None, h @ [(ContainerStart cid, Inr ''c1'')])"
proof -
  have many: "DefaultRetryAttempts = Suc 179" by (simp add: DefaultRetryAttempts_def)
  show ?thesis
    unfolding start_attempts_def Retry_def RetryReturn_def many retry_loop.simps(2)
    by (simp add: request_error_def request_def obliging_def)
qed

lemma plain_start: "Start obliging plain_config [] = Ret (Inr (new_container ''c1'' plain_config), plain_history)"
proof -
  have "whole_seconds 180000000000 = 180" by (simp add: whole_seconds_def)
  then have create: "request obliging (create_call plain_config 180) [] = (Inr ''c1'', [(create_call plain_config 180, Inr ''c1'')])"
    and timeout: "cc_ShutdownTimeout plain_config = Some 180000000000" "whole_seconds 180000000000 = 180"
    by (simp_all add: request_def obliging_def plain_config_def)
  have net: "cc_Network plain_config = None" by (simp add: plain_config_def)
  have "genesis_check obliging plain_config [] = (None, [])" by (simp add: genesis_check_def plain_config_def)
  then show ?thesis
    by (simp add: Start_def timeout create start_created_def obliging_attempts plain_history_def net)
qed

theorem container_ends_once_witness:
  "\<exists>c h1 evs. Container_Cleanup obliging (new_container ''c1'' plain_config, plain_history) = Ret (None, c, h1) \<and> h1 = plain_history @ evs \<and>
     filter (\<lambda>call. is_stop call \<or> is_remove call) (map fst evs) = [ContainerStop ''c1'' ''SIGINT'' 180, ContainerRemove ''c1'' False]"
proof -
  let ?c0 = "new_container ''c1'' plain_config"
  define c where "c = ?c0\<lparr>ct_stopped := True, ct_execLogs := None, ct_cleaned := True\<rparr>"
  define h1 where "h1 = plain_history @ [(ContainerStop ''c1'' ''SIGINT'' 180, Inr ''c1''), (ContainerRemove ''c1'' False, Inr ''c1'')]"
  have config: "cc_ShutdownTimeout plain_config = Some 180000000000" "whole_seconds 180000000000 = 180"
    by (simp_all add: plain_config_def whole_seconds_def)
  have run: "Container_Cleanup obliging (?c0, plain_history) = Ret (None, c, h1)"
    by (simp add: Container_Cleanup_def Container_Stop_def config close_logs_def request_error_def request_def obliging_def c_def h1_def)
  then have "(container_step obliging)\<^sup>*\<^sup>* (?c0, plain_history) (c, h1)" by (blast intro: r_into_rtranclp cleanup)
  from container_ends_once [OF plain_start this] run show ?thesis by (auto simp: c_def config)
qed

text \<open>A container whose removal fails is not removed later: the next clean-up does nothing and reports success.\<close>

theorem failed_removal_is_final:
  assumes "\<not> ct_cleaned c" "Container_Cleanup en (c, h) = Ret (err, c1, h1)" "Container_Stop en (c, h) = Ret (None, c0, h0)"
  shows "Container_Cleanup en (c1, h1) = Ret (None, c1, h1) \<and> (err \<noteq> None \<longrightarrow> existing h1 = existing h0)"
proof -
  let ?call = "ContainerRemove (ct_id c0) False"
  have "c1 = c0\<lparr>ct_cleaned := True\<rparr>" "h1 = h0 @ [(?call, en_call en h0 ?call)]" "err \<noteq> None \<Longrightarrow> \<exists>e. en_call en h0 ?call = Inl e"
    using assms by (auto simp: Container_Cleanup_def request_error_def request_def Let_def split: prod.splits sum.splits)
  then show ?thesis by (auto simp: Container_Cleanup_def existing_append)
qed

text \<open>A container that was created and cannot be connected to its network is left behind.\<close>

theorem failed_start_leaves_container:
  assumes "cc_ShutdownTimeout config = Some timeout" "cc_GenesisFileBind config = None" "cc_Network config = Some net"
    and "en_call en h (create_call config (whole_seconds timeout)) = Inr cid"
    and "en_call en (h @ [(create_call config (whole_seconds timeout), Inr cid)]) (NetworkConnect (nt_id net) cid) = Inl e"
  shows "\<exists>h'. Start en config h = Ret (Inl (EngineError e), h') \<and> existing h' = insert cid (existing h)"
  using assms
  by (simp add: Start_def genesis_check_def request_def request_error_def start_created_def existing_append create_call_def)

section \<open>Purge\<close>

lemma for_each_requests:
  assumes "for_each (\<lambda>x. request_error en (f x)) xs h = (None, h')"
  shows "\<exists>answers. length answers = length xs \<and> h' = h @ zip (map f xs) (map Inr answers)"
  using assms
proof (induction xs arbitrary: h)
  case (Cons x xs)
  then obtain a where a: "en_call en h (f x) = Inr a" "for_each (\<lambda>x. request_error en (f x)) xs (h @ [(f x, Inr a)]) = (None, h')"
    by (cases "en_call en h (f x)") auto
  then obtain answers where "length answers = length xs" "h' = (h @ [(f x, Inr a)]) @ zip (map f xs) (map Inr answers)"
    using Cons.IH by blast
  then show ?case by (intro exI [of _ "a # answers"]) simp
qed simp

lemma removals_existing:
  "length answers = length xs \<Longrightarrow>
     fold after_call (zip (map (\<lambda>c. ContainerRemove (cs_ID c) True) xs) (map Inr answers)) live = live - cs_ID ` set xs"
  by (induction xs arbitrary: answers live) (auto simp: length_Suc_conv)

text \<open>
  A purge that succeeds has removed every container that the engine listed under the label of this program, and then every network the engine listed after that;
  it creates nothing, so that none of these containers exists afterwards.
\<close>

theorem purge_removes_listed:
  assumes "Purge en None h = (None, h')"
  shows "cs_ID ` set (en_containers en h) \<inter> existing h' = {} \<and> existing h' \<subseteq> existing h \<and>
    (\<exists>h2. (\<exists>evs. h' = h2 @ evs) \<and> NetworkRemove ` set (en_networks en h2) \<subseteq> {c. \<exists>r. (c, Inr r) \<in> set h'})"
proof -
  let ?list = "ContainerList True getObjectsLabelFilter" and ?nets = "NetworkList getObjectsLabelFilter"
  obtain l where l: "en_call en h ?list = Inr l"
    using assms by (cases "en_call en h ?list") (auto simp: Purge_def listContainers_def)
  let ?h1 = "h @ [(?list, Inr l)]"
  obtain e2 h2 where each: "for_each (\<lambda>c. request_error en (ContainerRemove (cs_ID c) True)) (en_containers en h) ?h1 = (e2, h2)" by fastforce
  have "e2 = None" using assms l each
    by (cases e2) (auto simp: Purge_def listContainers_def)
  then obtain answers where "length answers = length (en_containers en h)"
    and h2: "h2 = ?h1 @ zip (map (\<lambda>c. ContainerRemove (cs_ID c) True) (en_containers en h)) (map Inr answers)"
    using for_each_requests [of en "\<lambda>c. ContainerRemove (cs_ID c) True"] each by blast
  then have live: "existing h2 = existing h - cs_ID ` set (en_containers en h)" by (simp add: existing_append removals_existing)
  obtain l2 where l2: "en_call en h2 ?nets = Inr l2"
    using assms l each \<open>e2 = None\<close>
    by (cases "en_call en h2 ?nets") (auto simp: Purge_def listContainers_def listNetworks_def)
  have "for_each (\<lambda>n. request_error en (NetworkRemove n)) (en_networks en h2) (h2 @ [(?nets, Inr l2)]) = (None, h')"
    using assms l each \<open>e2 = None\<close> l2 by (simp add: Purge_def listContainers_def listNetworks_def)
  then obtain answers2 where a2: "length answers2 = length (en_networks en h2)"
    and h': "h' = (h2 @ [(?nets, Inr l2)]) @ zip (map NetworkRemove (en_networks en h2)) (map Inr answers2)"
    using for_each_requests [of en NetworkRemove] by blast
  have "adds quiet_call h2 h'" unfolding adds_def h'
    by (intro exI [of _ "(?nets, Inr l2) # zip (map NetworkRemove (en_networks en h2)) (map Inr answers2)"])
      (fastforce simp: list_all_iff dest: set_zip_leftD)
  then have "existing h' = existing h2" by (rule quiet_call_existing)
  moreover have "NetworkRemove ` set (en_networks en h2) \<subseteq> {c. \<exists>r. (c, Inr r) \<in> set h'}"
    using a2 by (fastforce simp: h' in_set_conv_nth)
  ultimately show ?thesis using live h' by auto
qed

lemma obliging_purge:
  "Purge obliging None plain_history =
     (None, plain_history @ [(ContainerList True getObjectsLabelFilter, Inr ''c1''), (ContainerRemove ''c1'' True, Inr ''c1''),
        (NetworkList getObjectsLabelFilter, Inr ''c1''), (NetworkRemove ''n1'', Inr ''c1'')])"
  by (simp add: Purge_def listContainers_def listNetworks_def request_error_def request_def obliging_def)

theorem purge_removes_listed_witness:
  "existing plain_history = {''c1''} \<and>
   existing (plain_history @ [(ContainerList True getObjectsLabelFilter, Inr ''c1''), (ContainerRemove ''c1'' True, Inr ''c1''),
     (NetworkList getObjectsLabelFilter, Inr ''c1''), (NetworkRemove ''n1'', Inr ''c1'')]) = {}"
proof -
  have live: "existing plain_history = {''c1''}" by (simp add: existing_def plain_history_def create_call_def)
  have "cs_ID ` set (en_containers obliging plain_history) = {''c1''}" by (simp add: obliging_def)
  then show ?thesis using purge_removes_listed [OF obliging_purge] live by auto
qed

section \<open>Output of background commands\<close>

lemma publish_Ret:
  assumes "log_inv b"
  shows "\<exists>b'. publish line b = Ret b' \<and> log_inv b' \<and> lb_closed b' = lb_closed b \<and>
    lb_published b' = lb_published b @ (if lb_closed b then [] else [line])"
proof (cases "lb_closed b")
  case False
  then obtain b' where b': "publish line b = Ret b'" "lb_closed b' = lb_closed b" "lb_published b' = lb_published b @ [line]"
    using offer_to_Ret [of "lb_subscribers b" "lb_subs b" line] assms by (auto simp: publish_def Let_def log_inv_def)
  then show ?thesis using publish_inv [OF assms b'(1)] False by simp
qed (use assms in \<open>simp add: publish_def\<close>)

lemma emit_lines_Ret:
  assumes "log_inv b"
  shows "\<exists>b'. emit_lines writes lines logFile b = Ret (map_option (\<lambda>content. content @ concat (filter writes lines)) logFile, b') \<and>
    log_inv b' \<and> lb_closed b' = lb_closed b \<and> lb_published b' = lb_published b @ (if lb_closed b then [] else lines)"
  using assms
proof (induction lines arbitrary: logFile b)
  case Nil
  then show ?case by (cases logFile) simp_all
next
  case (Cons line lines)
  obtain b1 where b1: "publish line b = Ret b1" "log_inv b1" "lb_closed b1 = lb_closed b"
    "lb_published b1 = lb_published b @ (if lb_closed b then [] else [line])"
    using publish_Ret [OF Cons.prems] by blast
  let ?file = "map_option (\<lambda>content. if writes line then content @ line else content) logFile"
  obtain b' where "emit_lines writes lines ?file b1 = Ret (map_option (\<lambda>content. content @ concat (filter writes lines)) ?file, b')" "log_inv b'"
    "lb_closed b' = lb_closed b1" "lb_published b' = lb_published b1 @ (if lb_closed b1 then [] else lines)"
    using Cons.IH [OF b1(2)] by blast
  then show ?case using b1 by (cases logFile) auto
qed


definition idle_handle :: ExecHandle where
  "idle_handle = \<lparr>eh_ExecID = ''e1'', eh_LogPath = ''n.log'', eh_done = False, eh_err = None, eh_exitCode = 0\<rparr>"


end
