(* ===== verification/Node_Container_Properties.thy ===== *)
theory Node_Container_Properties
  imports Node_Container Docker_Containers_Properties
begin

text \<open>
  What is created on the host for a node is given up again: at once if the start of the node fails, and by the clean-up of the node
  otherwise.
\<close>

section \<open>Directories\<close>

fun created_dir :: "host_call \<times> (string + string) \<Rightarrow> string list" where
  "created_dir (MkdirTemp pattern, Inr dir) = (if dir = [] then [] else [dir])"
| "created_dir _ = []"

fun removed_dir :: "host_call \<times> (string + string) \<Rightarrow> string list" where
  "removed_dir (RemoveAll dir, _) = [dir]"
| "removed_dir _ = []"

definition temp_created :: "host_history \<Rightarrow> string list" where
  "temp_created evs = concat (map created_dir evs)"

definition temp_removed :: "host_history \<Rightarrow> string list" where
  "temp_removed evs = concat (map removed_dir evs)"

lemma temp_append: "temp_created (xs @ ys) = temp_created xs @ temp_created ys" "temp_removed (xs @ ys) = temp_removed xs @ temp_removed ys"
  by (simp_all add: temp_created_def temp_removed_def)

text \<open>\<open>owes dirs h h'\<close>: from \<open>h\<close> to \<open>h'\<close> the temporary directories \<open>dirs\<close> were created, and none was removed.\<close>

definition owes :: "string list \<Rightarrow> host_history \<Rightarrow> host_history \<Rightarrow> bool" where
  "owes dirs h h' \<longleftrightarrow> (\<exists>evs. h' = h @ evs \<and> temp_created evs = dirs \<and> temp_removed evs = [])"

lemma owes_refl [simp]: "owes [] h h"
  by (simp add: owes_def temp_created_def temp_removed_def)

lemma owes_trans: "owes xs h h1 \<Longrightarrow> owes ys h1 h2 \<Longrightarrow> owes (xs @ ys) h h2"
  by (auto simp: owes_def temp_created_def temp_removed_def)

lemma owes_quiet: "owes xs h h1 \<Longrightarrow> owes [] h1 h2 \<Longrightarrow> owes xs h h2"
  using owes_trans [of xs h h1 "[]" h2] by simp

fun plain_call :: "host_call \<Rightarrow> bool" where
  "plain_call (MkdirTemp _) = False" | "plain_call (RemoveAll _) = False" | "plain_call _ = True"

lemma ask_plain: "ask ho c h = (r, h1) \<Longrightarrow> plain_call c \<Longrightarrow> owes [] h h1"
  by (cases c) (auto simp: ask_def owes_def temp_created_def temp_removed_def)

lemma ask_MkdirTemp: "ask ho (MkdirTemp p) h = (r, h1) \<Longrightarrow> owes (case r of Inr dir \<Rightarrow> track dir [] | Inl _ \<Rightarrow> []) h h1"
  by (cases r) (auto simp: ask_def owes_def temp_created_def temp_removed_def track_def)

lemma verify_genesis_owes: "verify_genesis ho path h = (r, h1) \<Longrightarrow> owes [] h h1"
  by (auto simp: verify_genesis_def Let_def split: prod.splits sum.splits dest: ask_plain)

lemma generate_in_owes: "generate_in ho net tempDir h = (r, h1) \<Longrightarrow> owes [] h h1"
proof -
  assume run: "generate_in ho net tempDir h = (r, h1)"
  obtain r2 h2 where rules: "ask ho ApplyRulesPatch h = (r2, h2)" by fastforce
  obtain r3 h3 where gen: "ask ho (GenerateGenesis (join_path tempDir ''genesis.json'') (GetValidatorStakes (ng_Validators net))) h2 = (r3, h3)"
    by fastforce
  obtain r4 h4 where ver: "verify_genesis ho (join_path tempDir ''genesis.json'') h3 = (r4, h4)" by fastforce
  have a2: "owes [] h h2" and a3: "owes [] h2 h3" using ask_plain [OF rules] ask_plain [OF gen] by simp_all
  then have "owes [] h h3" "owes [] h h4" using verify_genesis_owes [OF ver] owes_quiet by blast+
  then show ?thesis using run rules gen ver a2 by (auto simp: generate_in_def Let_def split: sum.splits)
qed

lemma resolveGenesisFile_owes: "resolveGenesisFile ho img config h = ((r, dir), h') \<Longrightarrow> owes (track dir []) h h'"
proof -
  assume run: "resolveGenesisFile ho img config h = ((r, dir), h')"
  have none: "track [] [] = []" by (simp add: track_def)
  show ?thesis
  proof (cases "\<exists>c cs. nc_GenesisJsonPath config = Some (c # cs)")
    case True
    then show ?thesis using run none by (auto simp: resolveGenesisFile_def)
  next
    case False
    show ?thesis
    proof (cases "nc_NetworkConfig config")
      case None
      then show ?thesis using False run none by (auto simp: resolveGenesisFile_def split: option.splits list.splits)
    next
      case (Some net)
      let ?imgs = "GetClientImages (ng_Validators net) (ng_ClientImages net) @ [img]"
      obtain r1 h1 where vers: "ask ho (ClientVersionsOf ?imgs) h = (r1, h1)" by fastforce
      obtain r2 h2 where temp: "ask ho (MkdirTemp ''norma-node-genesis-*'') h1 = (r2, h2)" by fastforce
      have a1: "owes [] h h1" using ask_plain [OF vers] by simp
      have a2: "owes (case r2 of Inr dir \<Rightarrow> track dir [] | Inl _ \<Rightarrow> []) h h2"
        using owes_trans [OF a1 ask_MkdirTemp [OF temp]] by simp
      have tail: "resolveGenesisFile ho img config h =
          (case r1 of Inl e \<Rightarrow> ((Inl (VersionsFailed e), []), h1)
           | Inr _ \<Rightarrow> (case r2 of Inl e \<Rightarrow> ((Inl (TempDirFailed e), []), h2)
              | Inr tempDir \<Rightarrow> (case generate_in ho net tempDir h2 of (r, h3) \<Rightarrow> ((r, tempDir), h3))))"
        using False Some vers temp
        by (auto simp: resolveGenesisFile_def split: option.splits list.splits sum.splits)
      show ?thesis
      proof (cases r1)
        case (Inl e)
        then show ?thesis using run tail a1 none by auto
      next
        case Inr1: (Inr v)
        show ?thesis
        proof (cases r2)
          case (Inl e)
          then show ?thesis using run tail Inr1 a2 none by auto
        next
          case (Inr tempDir)
          obtain r3 h3 where gen: "generate_in ho net tempDir h2 = (r3, h3)" by fastforce
          have "owes (track tempDir []) h h3" using owes_quiet [OF _ generate_in_owes [OF gen]] a2 Inr by simp
          then show ?thesis using run tail Inr1 Inr gen by auto
        qed
      qed
    qed
  qed
qed

lemma resolveValidatorKeystore_owes: "resolveValidatorKeystore ho showId config h = ((r, dir), h') \<Longrightarrow> owes (track dir []) h h'"
proof -
  assume run: "resolveValidatorKeystore ho showId config h = ((r, dir), h')"
  have none: "track [] [] = []" by (simp add: track_def)
  show ?thesis
  proof (cases "is_validator config")
    case False
    then show ?thesis using run none by (auto simp: resolveValidatorKeystore_def is_validator_def split: option.splits if_splits)
  next
    case True
    then obtain v where v: "nc_ValidatorId config = Some v" "0 < v" by (auto simp: is_validator_def split: option.splits)
    show ?thesis
    proof (cases "nc_MountDataDir config")
      case (Some mount)
      then show ?thesis
        using run v none by (auto simp: resolveValidatorKeystore_def split: prod.splits sum.splits dest: ask_plain)
    next
      case None
      obtain r1 h1 where temp: "ask ho (MkdirTemp (''norma-validator-'' @ showId v @ ''-*'')) h = (r1, h1)" by fastforce
      note a1 = ask_MkdirTemp [OF temp]
      show ?thesis
      proof (cases r1)
        case (Inl e)
        then show ?thesis using run v None temp a1 none by (auto simp: resolveValidatorKeystore_def)
      next
        case (Inr tempDir)
        obtain r2 h2 where key: "ask ho (WriteValidatorKeystore (nc_PrivKey config) tempDir) h1 = (r2, h2)" by fastforce
        have "owes (track tempDir []) h h2" using a1 Inr owes_quiet [OF _ ask_plain [OF key]] by simp
        then show ?thesis using run v None temp Inr key by (auto simp: resolveValidatorKeystore_def split: sum.splits)
      qed
    qed
  qed
qed

lemma resolveLogsDir_owes:
  "resolveLogsDir ho config h = (r, h') \<Longrightarrow> owes (case r of Inr (dir, temporary) \<Rightarrow> if temporary then track dir [] else [] | Inl _ \<Rightarrow> []) h h'"
  by (auto simp: resolveLogsDir_def Let_def split: prod.splits sum.splits if_splits dest: ask_plain ask_MkdirTemp)

lemma mount_dir_owes: "mount_dir ho config h = (r, h') \<Longrightarrow> owes [] h h'"
  by (auto simp: mount_dir_def split: option.splits prod.splits sum.splits dest: ask_plain)

lemma track_append: "track d xs = xs @ track d []"
  by (simp add: track_def)

lemma remove_dirs_facts: "remove_dirs ho dirs h = (errs, h') \<Longrightarrow> \<exists>evs. h' = h @ evs \<and> temp_created evs = [] \<and> temp_removed evs = dirs"
proof (induction dirs arbitrary: h errs h')
  case Nil
  then show ?case by (simp add: temp_created_def temp_removed_def)
next
  case (Cons dir dirs)
  obtain answer h1 where one: "ask ho (RemoveAll dir) h = (answer, h1)" by fastforce
  obtain errs1 h2 where rest: "remove_dirs ho dirs h1 = (errs1, h2)" by fastforce
  obtain evs where "h2 = h1 @ evs" "temp_created evs = []" "temp_removed evs = dirs" using Cons.IH [OF rest] by blast
  moreover have "h' = h2" using Cons.prems one rest by simp
  moreover have "h1 = h @ [(RemoveAll dir, answer)]" using one by (auto simp: ask_def)
  ultimately show ?case by (intro exI [of _ "(RemoveAll dir, answer) # evs"]) (simp add: temp_created_def temp_removed_def)
qed

lemma prepare_host_owes: "prepare_host ho showId img dn config h = ((r, dirs), h') \<Longrightarrow> owes dirs h h'"
proof -
  assume run: "prepare_host ho showId img dn config h = ((r, dirs), h')"
  obtain r1 dir1 h1 where g: "resolveGenesisFile ho img config h = ((r1, dir1), h1)" by (metis prod.exhaust)
  obtain r2 h2 where m: "mount_dir ho config h1 = (r2, h2)" by fastforce
  obtain r3 dir3 h3 where k: "resolveValidatorKeystore ho showId config h2 = ((r3, dir3), h3)" by (metis prod.exhaust)
  obtain r4 h4 where l: "resolveLogsDir ho config h3 = (r4, h4)" by fastforce
  let ?dirs4 = "case r4 of Inr (dir, temporary) \<Rightarrow> if temporary then track dir [] else [] | Inl _ \<Rightarrow> []"
  have a1: "owes (track dir1 []) h h1" using resolveGenesisFile_owes [OF g] .
  have a2: "owes (track dir1 []) h h2" using owes_quiet [OF a1 mount_dir_owes [OF m]] .
  have a3: "owes (track dir3 (track dir1 [])) h h3"
    using owes_trans [OF a2 resolveValidatorKeystore_owes [OF k]] by (simp only: track_append [of dir3 "track dir1 []"])
  have a4: "owes (track dir3 (track dir1 []) @ ?dirs4) h h4" using owes_trans [OF a3 resolveLogsDir_owes [OF l]] .
  show ?thesis
  proof (cases r1)
    case (Inl e)
    then show ?thesis using run g a1 by (simp add: prepare_host_def)
  next
    case Inr1: (Inr genesisPath)
    show ?thesis
    proof (cases r2)
      case (Inl e)
      then show ?thesis using run g m Inr1 a2 by (simp add: prepare_host_def)
    next
      case Inr2: (Inr binding)
      show ?thesis
      proof (cases r3)
        case (Inl e)
        then show ?thesis using run g m k Inr1 Inr2 a3 by (simp add: prepare_host_def)
      next
        case Inr3: (Inr keystore)
        show ?thesis
        proof (cases r4)
          case (Inl e)
          then show ?thesis using run g m k l Inr1 Inr2 Inr3 a4 by (simp add: prepare_host_def)
        next
          case (Inr dt)
          obtain logsDir temporary where dt: "dt = (logsDir, temporary)" by fastforce
          have dirs: "dirs = (if temporary then track logsDir (track dir3 (track dir1 [])) else track dir3 (track dir1 []))" "h' = h4"
            using run g m k l Inr1 Inr2 Inr3 Inr dt by (simp_all add: prepare_host_def Let_def)
          show ?thesis
            unfolding dirs using a4 Inr dt by (cases temporary) (simp_all add: track_append [of logsDir "track dir3 (track dir1 [])"])
        qed
      qed
    qed
  qed
qed

lemma remove_owed:
  assumes "owes dirs h h1"
  shows "\<exists>evs. snd (remove_dirs ho dirs h1) = h @ evs \<and> temp_removed evs = temp_created evs"
proof -
  obtain errs h2 where rm: "remove_dirs ho dirs h1 = (errs, h2)" by fastforce
  obtain evs where "h2 = h1 @ evs" "temp_created evs = []" "temp_removed evs = dirs" using remove_dirs_facts [OF rm] by blast
  moreover obtain evs0 where "h1 = h @ evs0" "temp_created evs0 = dirs" "temp_removed evs0 = []" using assms by (auto simp: owes_def)
  ultimately show ?thesis
    using rm by (intro exI [of _ "evs0 @ evs"]) (simp add: temp_append)
qed

lemma new_node_dirs:
  assumes "NewOperaNode ho en showId dn config (h, d) = Ret (r, h', d')"
  shows "case r of
      Inl e \<Rightarrow> \<exists>evs. h' = h @ evs \<and> temp_removed evs = temp_created evs
    | Inr n \<Rightarrow> owes (cn_tempDirs n) h h' \<and> (\<exists>cconfig. Start en cconfig d = Ret (Inr (cn_container n), d'))"
proof -
  let ?img = "ResolveClientImageName (nc_Image config)"
  obtain r1 h1 where img: "ask ho (EnsureImage ?img) h = (r1, h1)" by fastforce
  have a1: "owes [] h h1" using ask_plain [OF img] by simp
  show ?thesis
  proof (cases r1)
    case (Inl e)
    then show ?thesis using assms img a1 by (auto simp: NewOperaNode_def owes_def)
  next
    case Inr1: (Inr v)
    obtain r2 dirs h2 where prep: "prepare_host ho showId ?img dn config h1 = ((r2, dirs), h2)" by (metis prod.exhaust)
    have a2: "owes dirs h h2" using owes_trans [OF a1 prepare_host_owes [OF prep]] by simp
    show ?thesis
    proof (cases r2)
      case (Inl e)
      then show ?thesis using assms img Inr1 prep remove_owed [OF a2] by (auto simp: NewOperaNode_def)
    next
      case (Inr gc)
      obtain genesisPath cconfig where gc: "gc = (genesisPath, cconfig)" by fastforce
      show ?thesis
      proof (cases "Start en cconfig d")
        case (Ret rd)
        obtain r3 d3 where rd: "rd = (r3, d3)" by fastforce
        show ?thesis
          using assms img Inr1 prep Inr gc Ret rd remove_owed [OF a2, of ho] a2 by (cases r3) (auto simp: NewOperaNode_def)
      qed (use assms img Inr1 prep Inr gc in \<open>simp_all add: NewOperaNode_def\<close>)
    qed
  qed
qed

text \<open>
  C31: The creation of a node that fails, at whatever step, removes every temporary directory it has created on the host; one that succeeds hands exactly these
  directories to the node, and the clean-up of the node removes them and leaves the node with none.
\<close>

theorem node_owns_its_directories:
  assumes "NewOperaNode ho en showId dn config (h, d) = Ret (r, h1, d1)"
  shows "\<exists>evs. h1 = h @ evs \<and>
    (case r of
       Inl e \<Rightarrow> temp_removed evs = temp_created evs
     | Inr n \<Rightarrow> temp_removed evs = [] \<and> temp_created evs = cn_tempDirs n \<and>
         (\<forall>res n' h2 d2. node_Cleanup ho en (n, h1, d1) = Ret (res, n', h2, d2) \<longrightarrow>
            cn_tempDirs n' = [] \<and> (\<exists>evs'. h2 = h1 @ evs' \<and> temp_removed evs' = temp_created evs)))"
proof (cases r)
  case (Inl e)
  then show ?thesis using new_node_dirs [OF assms] by simp
next
  case (Inr n)
  then obtain evs where evs: "h1 = h @ evs" "temp_created evs = cn_tempDirs n" "temp_removed evs = []"
    using new_node_dirs [OF assms] by (auto simp: owes_def)
  have "cn_tempDirs n' = [] \<and> (\<exists>evs'. h2 = h1 @ evs' \<and> temp_removed evs' = cn_tempDirs n)"
    if clean: "node_Cleanup ho en (n, h1, d1) = Ret (res, n', h2, d2)" for res n' h2 d2
  proof -
    obtain errs h3 where rm: "remove_dirs ho (cn_tempDirs n) h1 = (errs, h3)" by fastforce
    then have "h2 = h3" "cn_tempDirs n' = []"
      using clean by (cases "Container_Cleanup en (cn_container n, d1)"; auto simp: node_Cleanup_def split: prod.splits)+
    then show ?thesis using remove_dirs_facts [OF rm] by blast
  qed
  then show ?thesis using evs Inr by auto
qed

text \<open>A host where a directory is created for the logs, and an engine that cannot start containers.\<close>

definition sample_host :: node_host where
  "sample_host = \<lparr>ho_call = (\<lambda>h c. case c of MkdirTemp p \<Rightarrow> Inr ''/tmp/logs'' | _ \<Rightarrow> Inr []), ho_stat = (\<lambda>h p. (False, 1)), ho_key = (\<lambda>v. ([], [], []))\<rparr>"

definition sample_config :: opera_config where
  "sample_config = \<lparr>nc_Label = ''n'', nc_Failing = False, nc_Image = ''sonic'', nc_ValidatorId = None, nc_NetworkConfig = None, nc_MountDataDir = None,
     nc_GenesisJsonPath = Some ''g.json'', nc_PubKey = [], nc_PrivKey = [], nc_Address = [], nc_LogsDir = []\<rparr>"

definition refusing :: engine where
  "refusing = obliging\<lparr>en_call := (\<lambda>h c. if is_create c then Inl ''no space'' else Inr [])\<rparr>"

lemma sample_new_node:
  "\<exists>h1 d1. NewOperaNode sample_host refusing (\<lambda>v. []) \<lparr>nt_id = ''n1'', nt_name = ''net'', nt_cleaned = False\<rparr> sample_config ([], []) =
     Ret (Inl (ContainerFailed (EngineError ''no space'')), h1, d1)"
proof -
  let ?dn = "\<lparr>nt_id = ''n1'', nt_name = ''net'', nt_cleaned = False\<rparr>"
  have img: "ResolveClientImageName (nc_Image sample_config) = ''sonic''" by (simp add: sample_config_def ResolveClientImageName_def)
  have prep: "\<exists>h2 cconfig. prepare_host sample_host (\<lambda>v. []) ''sonic'' ?dn sample_config h = ((Inr (''g.json'', cconfig), [''/tmp/logs'']), h2) \<and>
      cc_ShutdownTimeout cconfig = Some 180000000000 \<and> cc_GenesisFileBind cconfig = Some ''g.json:/genesis.json:ro''" for h
    by (simp add: prepare_host_def resolveGenesisFile_def mount_dir_def resolveValidatorKeystore_def resolveLogsDir_def sample_config_def ask_def
        sample_host_def track_def node_container_config_def containerShutdownTimeout_def)
  obtain h2 cconfig where p: "prepare_host sample_host (\<lambda>v. []) ''sonic'' ?dn sample_config [(EnsureImage ''sonic'', Inr [])] = ((Inr (''g.json'', cconfig), [''/tmp/logs'']), h2)"
    "cc_ShutdownTimeout cconfig = Some 180000000000" "cc_GenesisFileBind cconfig = Some ''g.json:/genesis.json:ro''"
    using prep by blast
  have "\<exists>d1. Start refusing cconfig [] = Ret (Inl (EngineError ''no space''), d1)"
    using p(2,3) by (simp add: Start_def genesis_check_def request_error_def request_def refusing_def create_call_def)
  then show ?thesis
    using p(1) by (auto simp: NewOperaNode_def img ask_def sample_host_def [symmetric])
      (simp add: sample_host_def)
qed

theorem node_owns_its_directories_witness:
  "\<exists>h1 d1 evs. NewOperaNode sample_host refusing (\<lambda>v. []) \<lparr>nt_id = ''n1'', nt_name = ''net'', nt_cleaned = False\<rparr> sample_config ([], []) =
       Ret (Inl (ContainerFailed (EngineError ''no space'')), h1, d1) \<and> h1 = [] @ evs \<and> temp_removed evs = temp_created evs"
proof -
  obtain h1 d1 where run: "NewOperaNode sample_host refusing (\<lambda>v. []) \<lparr>nt_id = ''n1'', nt_name = ''net'', nt_cleaned = False\<rparr> sample_config ([], []) =
       Ret (Inl (ContainerFailed (EngineError ''no space'')), h1, d1)"
    using sample_new_node by blast
  then show ?thesis using node_owns_its_directories [OF run] by auto
qed

section \<open>Failed starts\<close>

lemma boot_node_steps:
  assumes "boot_node boot s = (err, s')" "\<And>step s err s'. step \<in> set boot \<Longrightarrow> step s = (err, s') \<Longrightarrow> (container_step en)\<^sup>*\<^sup>* s s'"
  shows "(container_step en)\<^sup>*\<^sup>* s s'"
  using assms
proof (induction boot arbitrary: s)
  case (Cons step boot)
  obtain e1 s1 where one: "step s = (e1, s1)" by (metis prod.exhaust)
  then have first: "(container_step en)\<^sup>*\<^sup>* s s1" using Cons.prems(2) [of step] by simp
  show ?case
  proof (cases e1)
    case None
    then have rest: "boot_node boot s1 = (err, s')" using Cons.prems(1) one by simp
    have "(container_step en)\<^sup>*\<^sup>* s1 s'"
    proof (rule Cons.IH [OF rest])
      fix f s err s'
      assume "f \<in> set boot" "f s = (err, s')"
      then show "(container_step en)\<^sup>*\<^sup>* s s'" using Cons.prems(2) [of f] by simp
    qed
    then show ?thesis using first by (rule rtranclp_trans [rotated])
  next
    case (Some e)
    then show ?thesis using Cons.prems(1) one first by simp
  qed
qed simp

lemma cleanup_asks:
  assumes life: "life_inv k0 h0 (c, h)" and run: "Container_Cleanup en (c, h) = Ret (err, c1, h1)"
  shows "\<exists>timeout. ContainerStop (ct_id k0) ''SIGINT'' timeout \<in> fst ` set h1 \<and>
    (ContainerRemove (ct_id k0) False \<in> fst ` set h1 \<or> (\<exists>e. (ContainerStop (ct_id k0) ''SIGINT'' timeout, Inl e) \<in> set h1))"
proof -
  let ?timeout = "whole_seconds (the (cc_ShutdownTimeout (ct_config c1)))"
  have life1: "life_inv k0 h0 (c1, h1)" using cleanup_life [OF life run] .
  then obtain evs where evs: "h1 = h0 @ evs" "ends evs = ends_expected c1" and k0: "ct_id c1 = ct_id k0" "ct_config c1 = ct_config k0"
    by (auto simp: life_inv_def)
  have calls: "set (ends_expected c1) \<subseteq> fst ` set h1" unfolding evs(2) [symmetric] evs(1) ends_def by auto
  have "ct_stopped c1 \<and> (ct_cleaned c1 \<or> (\<exists>e. (ContainerStop (ct_id k0) ''SIGINT'' ?timeout, Inl e) \<in> set h1))"
  proof (cases "ct_cleaned c")
    case True
    then show ?thesis using run life by (auto simp: Container_Cleanup_def life_inv_def)
  next
    case False
    obtain err2 c2 h2 where stop: "Container_Stop en (c, h) = Ret (err2, c2, h2)"
      using run False by (cases "Container_Stop en (c, h)") (auto simp: Container_Cleanup_def)
    note life2 = stop_life [OF life stop]
    show ?thesis
    proof (cases err2)
      case None
      then show ?thesis using run False stop life2 by (auto simp: Container_Cleanup_def split: prod.splits)
    next
      case (Some e)
      then have same: "c1 = c2" "h1 = h2" using run False stop by (auto simp: Container_Cleanup_def)
      obtain timeout where timeout: "cc_ShutdownTimeout (ct_config c) = Some timeout" "\<not> ct_stopped c"
        using stop Some by (cases "cc_ShutdownTimeout (ct_config c)") (auto simp: Container_Stop_def split: if_splits)
      have c: "ct_id c = ct_id k0" "ct_config c = ct_config k0" using life by (simp_all add: life_inv_def)
      have "\<exists>x. (ContainerStop (ct_id c) ''SIGINT'' (whole_seconds timeout), Inl x) \<in> set h2"
        using stop timeout Some
        by (cases "close_logs (ct_execLogs c)"; cases "en_call en h (ContainerStop (ct_id c) ''SIGINT'' (whole_seconds timeout))")
          (auto simp: Container_Stop_def)
      then show ?thesis using same life2 timeout c k0 by auto
    qed
  qed
  then show ?thesis using calls k0(1) by (intro exI [of _ ?timeout]) (auto simp: ends_expected_def)
qed

text \<open>The errors of the preparation are not those of the boot sequence.\<close>

lemma preparation_errors:
  "derive_key ho config h = (Inl e, h1) \<Longrightarrow> e \<noteq> BootFailed m"
  "resolveGenesisFile ho img config h = ((Inl e, dir), h1) \<Longrightarrow> e \<noteq> BootFailed m"
  "mount_dir ho config h = (Inl e, h1) \<Longrightarrow> e \<noteq> BootFailed m"
  "resolveValidatorKeystore ho showId config h = ((Inl e, dir), h1) \<Longrightarrow> e \<noteq> BootFailed m"
  "resolveLogsDir ho config h = (Inl e, h1) \<Longrightarrow> e \<noteq> BootFailed m"
  by (auto simp: derive_key_def resolveGenesisFile_def generate_in_def verify_genesis_def mount_dir_def resolveValidatorKeystore_def
      resolveLogsDir_def Let_def split: option.splits list.splits prod.splits sum.splits if_splits)

lemma prepare_host_errors: "prepare_host ho showId img dn config h = ((Inl e, dirs), h1) \<Longrightarrow> e \<noteq> BootFailed m"
  by (auto simp: prepare_host_def Let_def split: prod.splits sum.splits dest: preparation_errors)

lemma new_node_errors: "NewOperaNode ho en showId dn config w = Ret (Inl e, w1) \<Longrightarrow> e \<noteq> BootFailed m"
proof -
  assume run: "NewOperaNode ho en showId dn config w = Ret (Inl e, w1)"
  let ?img = "ResolveClientImageName (nc_Image config)"
  obtain h d where w: "w = (h, d)" by fastforce
  obtain r1 h1 where img: "ask ho (EnsureImage ?img) h = (r1, h1)" by fastforce
  obtain r2 dirs h2 where prep: "prepare_host ho showId ?img dn config h1 = ((r2, dirs), h2)" by (metis prod.exhaust)
  show ?thesis
  proof (cases r1)
    case (Inl e1)
    then show ?thesis using run w img by (auto simp: NewOperaNode_def)
  next
    case Inr1: (Inr v)
    show ?thesis
    proof (cases r2)
      case (Inl e2)
      then have "e = e2" using run w img Inr1 prep by (simp add: NewOperaNode_def)
      then show ?thesis using prepare_host_errors prep Inl by blast
    next
      case (Inr gc)
      then show ?thesis
        using run w img Inr1 prep by (cases gc; cases "Start en (snd gc) d") (auto simp: NewOperaNode_def split: sum.splits)
    qed
  qed
qed


text \<open>An engine that starts the container, on a network where it has an address; the boot sequence fails at once.\<close>

definition sample_net :: docker_network where
  "sample_net = \<lparr>nt_id = ''n1'', nt_name = ''net'', nt_cleaned = False\<rparr>"

definition sample_engine :: engine where
  "sample_engine = obliging\<lparr>en_inspect := (\<lambda>h c. \<lparr>ii_Running = True, ii_ExitCode = 0, ii_Networks = [(''net'', ''10.0.0.2'')]\<rparr>),
     en_containers := (\<lambda>h. [])\<rparr>"

lemma sample_engine_simps [simp]:
  "en_call sample_engine h c = Inr ''c1''" "en_containers sample_engine h = []"
  "ii_Networks (en_inspect sample_engine h cid) = [(''net'', ''10.0.0.2'')]" "en_ctxDone sample_engine h = False"
  by (simp_all add: sample_engine_def obliging_def)

lemma sample_attempts: "start_attempts sample_engine cid h = (None, h @ [(ContainerStart cid, Inr ''c1'')])"
proof -
  have many: "DefaultRetryAttempts = Suc 179" by (simp add: DefaultRetryAttempts_def)
  show ?thesis unfolding start_attempts_def Retry_def RetryReturn_def many retry_loop.simps(2) by simp
qed

lemma sample_start: "cc_ShutdownTimeout cconfig = Some timeout \<Longrightarrow> cc_Network cconfig = Some sample_net \<Longrightarrow>
    \<exists>d'. Start sample_engine cconfig d = Ret (Inr ((new_container ''c1'' cconfig)\<lparr>ct_ip := ''10.0.0.2''\<rparr>), d')"
  by (cases "cc_GenesisFileBind cconfig")
    (simp_all add: Start_def genesis_check_def start_created_def sample_attempts resolveIP_def request_def sample_net_def)

lemma sample_prepared:
  "\<exists>h1 dirs cconfig. prepare_host sample_host showId img sample_net sample_config h = ((Inr (''g.json'', cconfig), dirs), h1) \<and>
     cc_ShutdownTimeout cconfig = Some containerShutdownTimeout \<and> cc_Network cconfig = Some sample_net"
  by (simp add: prepare_host_def resolveGenesisFile_def mount_dir_def resolveValidatorKeystore_def resolveLogsDir_def sample_config_def ask_def
      sample_host_def node_container_config_def)

lemma sample_boot_fails:
  "\<exists>h' d'. StartOperaDockerNode sample_host sample_engine (\<lambda>v. []) [\<lambda>s. (Some ''no database'', s)] (Some sample_net) sample_config ([], []) =
     Ret (Inl (BootFailed ''no database''), h', d')"
proof -
  have label: "node_label (nc_Label sample_config) = ''n''" "MatchName ''n''" "sample_config\<lparr>nc_Label := ''n''\<rparr> = sample_config"
    by (simp_all add: sample_config_def node_label_def replace_char_def MatchName_def)
  obtain d1 where exists: "ContainerExists sample_engine ''n'' [] = (Inr False, d1)" by (simp add: ContainerExists_def)
  have key: "derive_key sample_host sample_config [] = (Inr sample_config, [])" by (simp add: derive_key_def sample_config_def)
  let ?img = "ResolveClientImageName (nc_Image sample_config)"
  obtain h1 where img: "ask sample_host (EnsureImage ?img) [] = (Inr [], h1)" by (simp add: ask_def sample_host_def)
  obtain h2 dirs cconfig where prep: "prepare_host sample_host (\<lambda>v. []) ?img sample_net sample_config h1 = ((Inr (''g.json'', cconfig), dirs), h2)"
    "cc_ShutdownTimeout cconfig = Some containerShutdownTimeout" "cc_Network cconfig = Some sample_net"
    using sample_prepared by blast
  obtain d2 where st: "Start sample_engine cconfig d1 = Ret (Inr ((new_container ''c1'' cconfig)\<lparr>ct_ip := ''10.0.0.2''\<rparr>), d2)"
    using sample_start [OF prep(2,3)] by blast
  define node where "node = \<lparr>cn_container = (new_container ''c1'' cconfig)\<lparr>ct_ip := ''10.0.0.2''\<rparr>, cn_config = private_config sample_config ?img ''g.json'', cn_tempDirs = dirs\<rparr>"
  have new: "NewOperaNode sample_host sample_engine (\<lambda>v. []) sample_net sample_config ([], d1) = Ret (Inr node, h2, d2)"
    using img prep(1) st by (simp add: NewOperaNode_def node_def)
  have "\<exists>res n' h3 d3. node_Cleanup sample_host sample_engine (node, h2, d2) = Ret (res, n', h3, d3)"
    using prep(2) by (simp add: node_Cleanup_def Container_Cleanup_def Container_Stop_def close_logs_def node_def new_container_def split: prod.splits)
  then show ?thesis
    using label exists key new by (auto simp: StartOperaDockerNode_def)
qed


end
