(* ===== verification/Rpc_Client.thy ===== *)
theory Rpc_Client
  imports Norma_Prelude
begin

text \<open>
  The RPC client (\<open>driver/rpc/rpc.go\<close>): waiting for the receipt of a transaction and for the result of a bundle, the status of a
  transaction in the pool, and the rules of the network. The server, the clock and the context are operations on a world \<open>'w\<close>.
\<close>

section \<open>Replies\<close>

text \<open>Decoded JSON; an object is a map, in the order of its iteration.\<close>

datatype json = JNull | JBool bool | JNumber string | JString string | JArray "json list" | JObject "(string \<times> json) list"

definition json_delete :: "string \<Rightarrow> json \<Rightarrow> json" where
  "json_delete key j = (case j of JObject fields \<Rightarrow> JObject (filter (\<lambda>(k, _). k \<noteq> key) fields) | _ \<Rightarrow> j)"

definition strip_timestamps :: "(string \<times> json) list \<Rightarrow> (string \<times> json) list" where
  "strip_timestamps result =
     map (\<lambda>(k, v). if k = ''logs'' then (k, case v of JArray logs \<Rightarrow> JArray (map (json_delete ''blockTimestamp'') logs) | _ \<Rightarrow> v) else (k, v)) result"

datatype TxPoolStatus = TxPoolStatusNotPresent | TxPoolStatusPending | TxPoolStatusQueued

fun TxPoolStatus_String :: "TxPoolStatus \<Rightarrow> string" where
  "TxPoolStatus_String TxPoolStatusPending = ''pending''"
| "TxPoolStatus_String TxPoolStatusQueued = ''queued''"
| "TxPoolStatus_String TxPoolStatusNotPresent = ''not present''"

text \<open>The transactions of the pool by sender and nonce.\<close>

record txPoolContent =
  tp_Pending :: "(string \<times> (string \<times> hash) list) list"
  tp_Queued :: "(string \<times> (string \<times> hash) list) list"

datatype rpc_error =
    CallFailed string
  | NotFound
  | DecodeFailed
  | EncodeFailed
  | ReceiptAborted
  | ReceiptFailed rpc_error
  | ReceiptTimeout TxPoolStatus
  | ReceiptTimeoutNoStatus rpc_error
  | PoolFailed string
  | BundleFailed rpc_error
  | ContextCanceled
  | RulesFailed string
  | NoRules string

text \<open>
  Calls return an error or the decoded result, \<open>None\<close> for a null. \<open>rc_wait d\<close> is the \<open>select\<close> over the context and \<open>time.After(d)\<close>:
  true if the time has passed, false if the context was done. \<open>rc_marshal\<close> and \<open>rc_unmarshal\<close> stand for the JSON library and the
  receipt type of the Ethereum library.
\<close>

record ('w, 'receipt, 'info, 'rules) rpc_ops =
  rc_now :: "'w \<Rightarrow> gotime"
  rc_ctxErr :: "'w \<Rightarrow> bool"
  rc_wait :: "duration \<Rightarrow> 'w \<Rightarrow> bool \<times> 'w"
  rc_getReceipt :: "hash \<Rightarrow> 'w \<Rightarrow> (string + (string \<times> json) list option) \<times> 'w"
  rc_marshal :: "(string \<times> json) list \<Rightarrow> string option"
  rc_unmarshal :: "string \<Rightarrow> 'receipt option"
  rc_txpoolContent :: "'w \<Rightarrow> (string + txPoolContent) \<times> 'w"
  rc_getBundleInfo :: "hash \<Rightarrow> 'w \<Rightarrow> (string + 'info option) \<times> 'w"
  rc_getRules :: "string \<Rightarrow> 'w \<Rightarrow> (string + 'rules option) \<times> 'w"

section \<open>Receipts\<close>

definition transactionReceipt :: "('w, 'r, 'i, 'u) rpc_ops \<Rightarrow> hash \<Rightarrow> 'w \<Rightarrow> (rpc_error + 'r) \<times> 'w" where
  "transactionReceipt ops txHash w =
     (case rc_getReceipt ops txHash w of
        (Inl e, w1) \<Rightarrow> (Inl (CallFailed e), w1)
      | (Inr None, w1) \<Rightarrow> (Inl NotFound, w1)
      | (Inr (Some result), w1) \<Rightarrow>
          (case rc_marshal ops (strip_timestamps result) of
             None \<Rightarrow> (Inl EncodeFailed, w1)
           | Some encoded \<Rightarrow>
               (case rc_unmarshal ops encoded of
                  None \<Rightarrow> (Inl DecodeFailed, w1)
                | Some receipt \<Rightarrow> (Inr receipt, w1))))"

definition in_pool :: "hash \<Rightarrow> (string \<times> (string \<times> hash) list) list \<Rightarrow> bool" where
  "in_pool txHash pool = list_ex (\<lambda>(_, txsByNonce). list_ex (\<lambda>(_, h). h = txHash) txsByNonce) pool"

definition GetTransactionPoolStatus :: "('w, 'r, 'i, 'u) rpc_ops \<Rightarrow> hash \<Rightarrow> 'w \<Rightarrow> (rpc_error + TxPoolStatus) \<times> 'w" where
  "GetTransactionPoolStatus ops txHash w =
     (case rc_txpoolContent ops w of
        (Inl e, w1) \<Rightarrow> (Inl (PoolFailed e), w1)
      | (Inr content, w1) \<Rightarrow>
          (Inr (if in_pool txHash (tp_Pending content) then TxPoolStatusPending
                else if in_pool txHash (tp_Queued content) then TxPoolStatusQueued
                else TxPoolStatusNotPresent), w1))"

definition millisecond :: duration where
  "millisecond = 1000000"

definition maxDelay :: duration where
  "maxDelay = 5000 * millisecond"

definition next_delay :: "duration \<Rightarrow> duration" where
  "next_delay delay = (if 2 * delay > maxDelay then maxDelay else 2 * delay)"

definition receipt_timeout :: "('w, 'r, 'i, 'u) rpc_ops \<Rightarrow> hash \<Rightarrow> 'w \<Rightarrow> (rpc_error + 'r) \<times> 'w" where
  "receipt_timeout ops txHash w =
     (case GetTransactionPoolStatus ops txHash w of
        (Inl e, w1) \<Rightarrow> (Inl (ReceiptTimeoutNoStatus e), w1)
      | (Inr status, w1) \<Rightarrow> (Inl (ReceiptTimeout status), w1))"

text \<open>
  The loop of \<open>WaitTransactionReceipt\<close>, with the number of requests for the receipt counted in \<open>n\<close>. It need not end if the clock
  stands still.
\<close>

partial_function (option) receipt_loop ::
  "('w, 'r, 'i, 'u) rpc_ops \<Rightarrow> hash \<Rightarrow> gotime \<Rightarrow> duration \<Rightarrow> duration \<Rightarrow> nat \<Rightarrow> 'w \<Rightarrow> (((rpc_error + 'r) \<times> 'w) \<times> nat) option" where
  "receipt_loop ops txHash start timeout delay n w =
     (if \<not> time_sub (rc_now ops w) start < timeout then Some (receipt_timeout ops txHash w, n)
      else if rc_ctxErr ops w then Some ((Inl ReceiptAborted, w), n)
      else
        let (r, w1) = transactionReceipt ops txHash w
        in if r = Inl NotFound
           then
             (let (passed, w2) = rc_wait ops delay w1
              in if \<not> passed then Some ((Inl ReceiptAborted, w2), n + 1)
                 else receipt_loop ops txHash start timeout (next_delay delay) (n + 1) w2)
           else
             (case r of
                Inl e \<Rightarrow> Some ((Inl (ReceiptFailed e), w1), n + 1)
              | Inr receipt \<Rightarrow> Some ((Inr receipt, w1), n + 1)))"

definition txReceiptTimeout :: duration where
  "txReceiptTimeout = 90000 * millisecond"

definition WaitTransactionReceipt ::
  "('w, 'r, 'i, 'u) rpc_ops \<Rightarrow> duration \<Rightarrow> hash \<Rightarrow> 'w \<Rightarrow> (((rpc_error + 'r) \<times> 'w) \<times> nat) option" where
  "WaitTransactionReceipt ops timeout txHash w = receipt_loop ops txHash (rc_now ops w) timeout millisecond 0 w"

section \<open>Bundles and rules\<close>

definition GetBundleInfo :: "('w, 'r, 'i, 'u) rpc_ops \<Rightarrow> hash \<Rightarrow> 'w \<Rightarrow> (rpc_error + 'i option) \<times> 'w" where
  "GetBundleInfo ops planHash w =
     (case rc_getBundleInfo ops planHash w of (Inl e, w1) \<Rightarrow> (Inl (CallFailed e), w1) | (Inr info, w1) \<Rightarrow> (Inr info, w1))"

partial_function (option) bundle_loop ::
  "('w, 'r, 'i, 'u) rpc_ops \<Rightarrow> hash \<Rightarrow> duration \<Rightarrow> 'w \<Rightarrow> ((rpc_error + 'i option) \<times> 'w) option" where
  "bundle_loop ops planHash delay w =
     (case GetBundleInfo ops planHash w of
        (Inl e, w1) \<Rightarrow> Some (Inl (BundleFailed e), w1)
      | (Inr (Some info), w1) \<Rightarrow> Some (Inr (Some info), w1)
      | (Inr None, w1) \<Rightarrow>
          (let (passed, w2) = rc_wait ops delay w1
           in if \<not> passed then Some (Inl ContextCanceled, w2)
              else bundle_loop ops planHash (next_delay delay) w2))"

definition WaitForBundleInfo :: "('w, 'r, 'i, 'u) rpc_ops \<Rightarrow> hash \<Rightarrow> 'w \<Rightarrow> ((rpc_error + 'i option) \<times> 'w) option" where
  "WaitForBundleInfo ops planHash w = bundle_loop ops planHash (10 * millisecond) w"

definition GetNetworkRules :: "('w, 'r, 'i, 'u) rpc_ops \<Rightarrow> string \<Rightarrow> 'w \<Rightarrow> (rpc_error + 'u) \<times> 'w" where
  "GetNetworkRules ops block w =
     (let block1 = (if block = [] then ''latest'' else block)
      in case rc_getRules ops block1 w of
           (Inl e, w1) \<Rightarrow> (Inl (RulesFailed e), w1)
         | (Inr None, w1) \<Rightarrow> (Inl (NoRules block1), w1)
         | (Inr (Some rules), w1) \<Rightarrow> (Inr rules, w1))"

end
