(* ===== verification/Rpc_Client_Properties.thy ===== *)
theory Rpc_Client_Properties
  imports Rpc_Client
begin

text \<open>
  Waiting for a receipt ends and does not flood the server; waiting for a bundle ends with a result or an error.
\<close>

section \<open>Receipts\<close>

fun sum_delays :: "duration \<Rightarrow> nat \<Rightarrow> duration" where
  "sum_delays delay 0 = 0"
| "sum_delays delay (Suc n) = delay + sum_delays (next_delay delay) n"

lemma next_delay_pos: "0 < delay \<Longrightarrow> 0 < next_delay delay"
  by (simp add: next_delay_def maxDelay_def millisecond_def)

lemma sum_delays_mono: "0 < delay \<Longrightarrow> n \<le> m \<Longrightarrow> sum_delays delay n \<le> sum_delays delay m"
proof (induction delay n arbitrary: m rule: sum_delays.induct)
  case (1 delay)
  have "0 < delay \<Longrightarrow> 0 \<le> sum_delays delay m" for delay
  proof (induction delay m rule: sum_delays.induct)
    case (2 delay n)
    then show ?case using next_delay_pos [of delay] by simp
  qed simp
  then show ?case using 1 by simp
next
  case (2 delay n)
  then show ?case by (cases m) (auto dest: next_delay_pos)
qed

text \<open>
  The clock does not run backwards during a request, and a wait that is not ended by the context lasts at least as long as it was told to.
\<close>

definition clock_laws :: "('w, 'r, 'i, 'u) rpc_ops \<Rightarrow> bool" where
  "clock_laws ops \<longleftrightarrow>
     (\<forall>h w. rc_now ops w \<le> rc_now ops (snd (rc_getReceipt ops h w))) \<and>
     (\<forall>d w. fst (rc_wait ops d w) \<longrightarrow> rc_now ops w + d \<le> rc_now ops (snd (rc_wait ops d w)))"

lemma receipt_clock: "clock_laws ops \<Longrightarrow> rc_now ops w \<le> rc_now ops (snd (transactionReceipt ops txHash w))"
proof -
  assume "clock_laws ops"
  then have "rc_now ops w \<le> rc_now ops (snd (rc_getReceipt ops txHash w))" by (simp add: clock_laws_def)
  then show ?thesis
    by (auto simp: transactionReceipt_def split: prod.splits sum.splits option.splits)
qed

lemma time_sub_less: "minDuration < d \<Longrightarrow> d \<le> maxDuration \<Longrightarrow> time_sub t u < d \<longleftrightarrow> t - u < d"
  by (auto simp: time_sub_def)

lemma receipt_loop_ends:
  assumes laws: "clock_laws ops" and timeout: "minDuration < timeout" "timeout \<le> maxDuration" and delay: "0 < delay"
  shows "\<exists>r m. receipt_loop ops txHash start timeout delay n w = Some (r, n + m) \<and>
    (m = 0 \<or> sum_delays delay (m - 1) < timeout - (rc_now ops w - start))"
  using delay
proof (induction "nat (start + timeout - rc_now ops w)" arbitrary: delay n w rule: less_induct)
  case less
  let ?loop = "receipt_loop ops txHash start timeout"
  obtain r w1 where one: "transactionReceipt ops txHash w = (r, w1)" by fastforce
  obtain passed w2 where wait: "rc_wait ops delay w1 = (passed, w2)" by fastforce
  show ?case
  proof (cases "rc_now ops w - start < timeout \<and> \<not> rc_ctxErr ops w \<and> r = Inl NotFound \<and> passed")
    case False
    show ?thesis
    proof (cases "rc_now ops w - start < timeout \<and> \<not> rc_ctxErr ops w")
      case True
      then have "\<exists>r. ?loop delay n w = Some (r, n + 1)"
        using False one wait by (subst receipt_loop.simps) (auto simp: time_sub_less timeout split: sum.splits)
      then obtain r1 where "?loop delay n w = Some (r1, n + 1)" by blast
      then show ?thesis using True by (intro exI [of _ r1] exI [of _ 1]) auto
    next
      case False
      then have "\<exists>r. ?loop delay n w = Some (r, n + 0)"
        by (subst receipt_loop.simps) (auto simp: time_sub_less timeout)
      then show ?thesis by blast
    qed
  next
    case True
    have "rc_now ops w \<le> rc_now ops w1" using receipt_clock [OF laws, of w txHash] one by simp
    moreover have "rc_now ops w1 + delay \<le> rc_now ops w2" using laws wait True by (metis clock_laws_def fst_conv snd_conv)
    ultimately have later: "rc_now ops w + delay \<le> rc_now ops w2" by simp
    have "nat (start + timeout - rc_now ops w2) < nat (start + timeout - rc_now ops w)" using later less.prems True by simp
    then obtain r' m where ih: "?loop (next_delay delay) (n + 1) w2 = Some (r', n + 1 + m)"
      "m = 0 \<or> sum_delays (next_delay delay) (m - 1) < timeout - (rc_now ops w2 - start)"
      using less.hyps next_delay_pos [OF less.prems] by blast
    have "?loop delay n w = ?loop (next_delay delay) (n + 1) w2"
      using True one wait by (subst receipt_loop.simps) (simp add: time_sub_less timeout)
    moreover have "sum_delays delay m < timeout - (rc_now ops w - start)"
      using ih(2) later True by (cases m) auto
    ultimately show ?thesis using ih(1) by (intro exI [of _ r'] exI [of _ "m + 1"]) simp
  qed
qed

text \<open>
  C30: Waiting for a receipt ends as long as the clock runs: with the timeout of 90 seconds it ends with a receipt or an error after at most 30 requests to the
  server, because the wait between two requests doubles from a millisecond up to five seconds.
\<close>

theorem receipt_wait_ends:
  assumes "clock_laws ops"
  shows "\<exists>r w' n. WaitTransactionReceipt ops txReceiptTimeout txHash w = Some ((r, w'), n) \<and> n \<le> 30"
proof -
  have bounds: "minDuration < txReceiptTimeout" "txReceiptTimeout \<le> maxDuration" "0 < millisecond"
    by (simp_all add: txReceiptTimeout_def millisecond_def minDuration_def maxDuration_def)
  obtain r m where run: "WaitTransactionReceipt ops txReceiptTimeout txHash w = Some (r, m)" "m = 0 \<or> sum_delays millisecond (m - 1) < txReceiptTimeout"
    using receipt_loop_ends [OF assms bounds, of txHash "rc_now ops w" 0 w] by (auto simp: WaitTransactionReceipt_def)
  have total: "sum_delays millisecond 30 = 93191 * millisecond"
    by (simp add: eval_nat_numeral next_delay_def maxDelay_def millisecond_def)
  have "m \<le> 30"
  proof (rule ccontr)
    assume "\<not> m \<le> 30"
    then have "sum_delays millisecond 30 \<le> sum_delays millisecond (m - 1)" using bounds(3) by (intro sum_delays_mono) auto
    then show False using run(2) \<open>\<not> m \<le> 30\<close> total by (simp add: txReceiptTimeout_def millisecond_def)
  qed
  then show ?thesis using run(1) by (cases r) blast
qed

text \<open>A server that knows the transaction after four seconds; the world is the time.\<close>

definition slow_server :: "(gotime, string, unit, unit) rpc_ops" where
  "slow_server = \<lparr>rc_now = id, rc_ctxErr = (\<lambda>w. False), rc_wait = (\<lambda>d w. (True, w + d)),
     rc_getReceipt = (\<lambda>h w. (Inr (if w < 4000 * millisecond then None else Some [(''status'', JString ''0x1'')]), w)),
     rc_marshal = (\<lambda>j. Some ''0x1''), rc_unmarshal = (\<lambda>s. Some s), rc_txpoolContent = (\<lambda>w. (Inl ''unavailable'', w)),
     rc_getBundleInfo = (\<lambda>h w. (Inr None, w)), rc_getRules = (\<lambda>b w. (Inr None, w))\<rparr>"

theorem receipt_wait_ends_witness:
  "\<exists>r w' n. WaitTransactionReceipt slow_server txReceiptTimeout 0 0 = Some ((r, w'), n) \<and> n \<le> 30"
proof -
  have "clock_laws slow_server" by (simp add: clock_laws_def slow_server_def)
  then show ?thesis by (rule receipt_wait_ends)
qed

section \<open>Bundles\<close>

text \<open>
  A wait for a bundle that ends never reports success without a result, also not when the context expires: that is an error.
\<close>

lemma bundle_loop_result:
  assumes "bundle_loop ops planHash delay w = Some y"
  shows "fst y \<noteq> Inr None"
  using assms
  by (rule bundle_loop.raw_induct [rotated]) (auto split: prod.splits sum.splits option.splits if_splits)

theorem bundle_wait_has_result:
  assumes "WaitForBundleInfo ops planHash w = Some (r, w')"
  shows "r \<noteq> Inr None"
  using bundle_loop_result [of ops planHash "10 * millisecond" w "(r, w')"] assms by (simp add: WaitForBundleInfo_def)

end
