(* ===== verification/Norma_Command.thy ===== *)
theory Norma_Command
  imports Docker_Images Genesis_Properties
begin

text \<open>
  The commands of the program (\<open>driver/norma\<close>): collecting scenario files, building their images, running scenarios with all that is
  started and stopped around a run, comparing runs, rendering reports (\<open>analysis/report/report.go\<close>), and the progress output.
\<close>

section \<open>Files and images\<close>

definition ToLower :: "string \<Rightarrow> string" where
  "ToLower s = map (\<lambda>c. if CHR ''A'' \<le> c \<and> c \<le> CHR ''Z'' then char_of (of_char c + 32 :: nat) else c) s"

text \<open>\<open>filepath.Ext\<close>: from the last dot of the last element on, or empty.\<close>

definition filepath_Ext :: "string \<Rightarrow> string" where
  "filepath_Ext path =
     (let base = rev (takeWhile (\<lambda>c. c \<noteq> CHR ''/'') (rev path)); suffix = takeWhile (\<lambda>c. c \<noteq> CHR ''.'') (rev base)
      in if CHR ''.'' \<in> set base then CHR ''.'' # rev suffix else [])"

definition isYAML :: "string \<Rightarrow> bool" where
  "isYAML path = (let ext = ToLower (filepath_Ext path) in ext = ''.yml'' \<or> ext = ''.yaml'')"

text \<open>The errors of a run of one scenario, and those of the commands.\<close>

datatype run_error =
    OutputDirFailed
  | ParseFailed string
  | CheckFailed "scenario_error list"
  | LatestFailed
  | CopyFailed
  | BootstrapFailed bootstrap_error
  | NetworkFailed string
  | MonitorFailed string
  | SourcesFailed
  | ExecutionFailed string

datatype command_error =
    NoAccess string
  | NotYAML string
  | WalkFailed string
  | NoScenarios string
  | ScenarioUnparsable string string
  | ScenarioInvalid "scenario_error list"
  | BuildRootMissing image_error
  | ImagesFailed image_error
  | DockerCommandFailed "string list"
  | MissingArgument
  | RunCancelled
  | RunFailed string run_error

text \<open>
  \<open>cf_isDir\<close> is \<open>os.Stat\<close>; \<open>cf_walk\<close> the entries of a directory tree, with their paths and whether they are directories, or the error
  the walk ends with.
\<close>

record command_files =
  cf_isDir :: "string \<Rightarrow> bool option"
  cf_walk :: "string \<Rightarrow> (string \<times> bool) list option"
  cf_parse :: "string \<Rightarrow> string + Scenario"
  cf_validRules :: "NetworkRulesPatch \<Rightarrow> bool"

definition collectScenarioFiles :: "command_files \<Rightarrow> string \<Rightarrow> command_error + string list" where
  "collectScenarioFiles cf path =
     (case cf_isDir cf path of
        None \<Rightarrow> Inl (NoAccess path)
      | Some isDir \<Rightarrow>
          if \<not> isDir then (if \<not> isYAML path then Inl (NotYAML path) else Inr [path])
          else
            case cf_walk cf path of
              None \<Rightarrow> Inl (WalkFailed path)
            | Some entries \<Rightarrow> Inr (sort (map fst (filter (\<lambda>(current, dir). \<not> dir \<and> isYAML current) entries))))"

fun collect_images :: "command_files \<Rightarrow> string \<Rightarrow> string list \<Rightarrow> string list \<Rightarrow> command_error + string list" where
  "collect_images cf local [] seen = Inr seen"
| "collect_images cf local (path # paths) seen =
     (case cf_parse cf path of
        Inl e \<Rightarrow> Inl (ScenarioUnparsable path e)
      | Inr scenario \<Rightarrow>
          let errs = Scenario_Check (cf_validRules cf) scenario
          in if errs \<noteq> [] then Inl (ScenarioInvalid errs)
             else collect_images cf local paths (fold List.insert (filter (WillBuildImage local) (collectClientImages scenario)) seen))"

definition collectBuildableImages :: "command_files \<Rightarrow> string \<Rightarrow> string list \<Rightarrow> command_error + string list" where
  "collectBuildableImages cf local paths =
     (case collect_images cf local paths [] of Inl e \<Rightarrow> Inl e | Inr images \<Rightarrow> Inr (NormalizeImageRefs images))"

text \<open>The build root is passed as the path \<open>buildRoot\<close>, which is not empty.\<close>

definition ensureClientImages ::
  "'w image_tools \<Rightarrow> command_files \<Rightarrow> string \<Rightarrow> string list \<Rightarrow> string \<Rightarrow> bool \<Rightarrow> 'w \<Rightarrow> (command_error + string list) \<times> 'w" where
  "ensureClientImages tools cf local files buildRoot runDry w =
     (case collectBuildableImages cf local files of
        Inl e \<Rightarrow> (Inl e, w)
      | Inr images \<Rightarrow>
          if images = [] then (Inr images, w)
          else if runDry then (Inr images, w)
          else
            case EnsureImages tools local images buildRoot w of
              (Some err, w1) \<Rightarrow> (Inl (ImagesFailed err), w1)
            | (None, w1) \<Rightarrow> (Inr images, w1))"

text \<open>\<open>runDockerCommand\<close> is the command \<open>docker\<close> of the tools; its output goes to the terminal.\<close>

definition runDockerCommand :: "'w image_tools \<Rightarrow> string list \<Rightarrow> string list \<Rightarrow> 'w \<Rightarrow> command_error option \<times> 'w" where
  "runDockerCommand tools dir args w =
     (case it_build tools dir args w of ((ok, _), w1) \<Rightarrow> (if ok then None else Some (DockerCommandFailed args), w1))"

fun docker_commands :: "'w image_tools \<Rightarrow> string list \<Rightarrow> bool \<Rightarrow> string list list \<Rightarrow> 'w \<Rightarrow> command_error option \<times> 'w" where
  "docker_commands tools dir runDry [] w = (None, w)"
| "docker_commands tools dir runDry (args # rest) w =
     (if runDry then docker_commands tools dir runDry rest w
      else
        case runDockerCommand tools dir args w of
          (Some e, w1) \<Rightarrow> (Some e, w1)
        | (None, w1) \<Rightarrow> docker_commands tools dir runDry rest w1)"

definition abs_path :: "string list \<Rightarrow> string" where
  "abs_path elems = concat (map (\<lambda>e. ''/'' @ e) elems)"

definition build :: "'w image_tools \<Rightarrow> command_files \<Rightarrow> string \<Rightarrow> string list \<Rightarrow> bool \<Rightarrow> 'w \<Rightarrow> command_error option \<times> 'w" where
  "build tools cf local args runDry w =
     (let targetPath = (case args of [] \<Rightarrow> ''scenarios'' | a # _ \<Rightarrow> a)
      in case collectScenarioFiles cf targetPath of
           Inl e \<Rightarrow> (Some e, w)
         | Inr files \<Rightarrow>
             if files = [] then (Some (NoScenarios targetPath), w)
             else
               case ResolveBuildRoot tools ''.'' of
                 Inl e \<Rightarrow> (Some (BuildRootMissing e), w)
               | Inr repoRoot \<Rightarrow>
                   (case ensureClientImages tools cf local files (abs_path repoRoot) runDry w of
                      (Inl e, w1) \<Rightarrow> (Some e, w1)
                    | (Inr _, w1) \<Rightarrow>
                        docker_commands tools repoRoot runDry
                          [[''image'', ''pull'', ''hello-world:latest''], [''image'', ''pull'', ''alpine:latest''],
                           [''build'', ''analysis/report/'', ''-t'', ''norma-r-renderer'']] w1))"

definition check :: "command_files \<Rightarrow> string list \<Rightarrow> command_error option" where
  "check cf args =
     (case args of
        [] \<Rightarrow> Some MissingArgument
      | path # _ \<Rightarrow>
          (case cf_parse cf path of
             Inl e \<Rightarrow> Some (ScenarioUnparsable path e)
           | Inr scenario \<Rightarrow>
               let errs = Scenario_Check (cf_validRules cf) scenario in if errs \<noteq> [] then Some (ScenarioInvalid errs) else None))"

section \<open>Running a scenario\<close>

datatype run_effect =
    OutputCreated string
  | LatestRemoved
  | LatestLinked
  | ScenarioCopied
  | NetworkStarted "Validator list" "string list"
  | MonitorStarted
  | SourcesInstalled
  | ChecksCreated
  | LoggerStarted
  | Executed "(string, int) gomap"
  | LogsDumped
  | LoggerStopped
  | MonitorStopped
  | TimingsAppended "EventExecution list"
  | ReportRendered string
  | BrowserOpened string
  | NetworkStopped

text \<open>
  What the surroundings answer: directories and files, the network and the monitor, the sources, the run of the executor with the
  steps it observed, whether the context is done at the end, and the rendering of the report.
\<close>

record run_env =
  rv_mkdirTemp :: "string option"
  rv_parse :: "string + Scenario"
  rv_validRules :: "NetworkRulesPatch \<Rightarrow> bool"
  rv_latestExists :: bool
  rv_removeLatest :: bool
  rv_symlink :: bool
  rv_readFile :: bool
  rv_writeFile :: bool
  rv_newNetwork :: "string option"
  rv_newMonitor :: "string option"
  rv_install :: bool
  rv_execute :: "(string, int) gomap \<Rightarrow> string option \<times> EventExecution list"
  rv_ctxErr :: bool
  rv_render :: "string option"

record run_flags =
  rf_skipChecks :: bool
  rf_skipReport :: bool
  rf_openReport :: bool

text \<open>The deferred end of the monitor: the timings are appended to its file if there are any, then the report is rendered.\<close>

definition end_monitor :: "run_env \<Rightarrow> run_flags \<Rightarrow> EventExecution list \<Rightarrow> run_effect list" where
  "end_monitor env flags events =
     [MonitorStopped] @ (if events = [] then [] else [TimingsAppended events]) @
     (if \<not> rf_skipReport flags \<and> \<not> rv_ctxErr env
      then
        case rv_render env of
          None \<Rightarrow> []
        | Some report \<Rightarrow> ReportRendered report # (if rf_openReport flags then [BrowserOpened report] else [])
      else [])"

definition run_monitored ::
  "run_env \<Rightarrow> run_flags \<Rightarrow> (string, int) gomap \<Rightarrow> (run_error option \<times> EventExecution list) \<times> run_effect list" where
  "run_monitored env flags genesisIds =
     (if \<not> rv_install env then ((Some SourcesFailed, []), [])
      else
        let setup = [SourcesInstalled] @ (if rf_skipChecks flags then [] else [ChecksCreated]) @ [LoggerStarted, Executed genesisIds];
            (err, events) = rv_execute env genesisIds
        in case err of
             Some e \<Rightarrow> ((Some (ExecutionFailed e), events), setup @ [LogsDumped, LoggerStopped])
           | None \<Rightarrow> ((None, events), setup @ [LoggerStopped]))"

definition run_networked ::
  "run_env \<Rightarrow> run_flags \<Rightarrow> Scenario \<Rightarrow> Validator list \<Rightarrow> (string, int) gomap \<Rightarrow> run_error option \<times> run_effect list" where
  "run_networked env flags scenario validators genesisIds =
     (case rv_newNetwork env of
        Some e \<Rightarrow> (Some (NetworkFailed e), [])
      | None \<Rightarrow>
          let start = [NetworkStarted validators (collectClientImages scenario)]
          in (case rv_newMonitor env of
                Some e \<Rightarrow> (Some (MonitorFailed e), start @ [NetworkStopped])
              | None \<Rightarrow>
                  (case run_monitored env flags genesisIds of
                     ((err, events), effects) \<Rightarrow>
                       (err, start @ [MonitorStarted] @ effects @ end_monitor env flags events @ [NetworkStopped]))))"

definition prepare_output :: "run_env \<Rightarrow> string \<Rightarrow> run_error option \<times> run_effect list" where
  "prepare_output env dir =
     (if rv_latestExists env \<and> \<not> rv_removeLatest env then (Some LatestFailed, [])
      else
        let removed = (if rv_latestExists env then [LatestRemoved] else [])
        in if \<not> rv_symlink env then (Some LatestFailed, removed)
           else if \<not> rv_readFile env \<or> \<not> rv_writeFile env then (Some CopyFailed, removed @ [LatestLinked])
           else (None, removed @ [LatestLinked, ScenarioCopied]))"

definition runScenario :: "run_env \<Rightarrow> run_flags \<Rightarrow> run_error option \<times> run_effect list" where
  "runScenario env flags =
     (case rv_mkdirTemp env of
        None \<Rightarrow> (Some OutputDirFailed, [])
      | Some dir \<Rightarrow>
          (case rv_parse env of
             Inl e \<Rightarrow> (Some (ParseFailed e), [OutputCreated dir])
           | Inr scenario \<Rightarrow>
               let errs = Scenario_Check (rv_validRules env) scenario
               in if errs \<noteq> [] then (Some (CheckFailed errs), [OutputCreated dir])
                  else
                    case prepare_output env dir of
                      (Some e, effects) \<Rightarrow> (Some e, OutputCreated dir # effects)
                    | (None, effects) \<Rightarrow>
                        (case extractBootstrapValidators scenario of
                           Inl e \<Rightarrow> (Some (BootstrapFailed e), OutputCreated dir # effects)
                         | Inr (validators, genesisIds) \<Rightarrow>
                             (case run_networked env flags scenario validators genesisIds of
                                (err, effects2) \<Rightarrow> (err, OutputCreated dir # effects @ effects2)))))"

text \<open>The command \<open>run\<close>: the scenarios one after the other; \<open>envs\<close> are the surroundings of each and whether the context is done before it.\<close>

fun run_files :: "run_flags \<Rightarrow> (string \<Rightarrow> bool \<times> run_env) \<Rightarrow> string list \<Rightarrow> command_error option \<times> (string \<times> run_effect list) list" where
  "run_files flags envs [] = (None, [])"
| "run_files flags envs (path # paths) =
     (case envs path of
        (ctxErr, env) \<Rightarrow>
          if ctxErr then (Some RunCancelled, [])
          else
            case runScenario env flags of
              (Some e, effects) \<Rightarrow> (Some (RunFailed path e), [(path, effects)])
            | (None, effects) \<Rightarrow> (case run_files flags envs paths of (err, rest) \<Rightarrow> (err, (path, effects) # rest)))"

definition run :: "command_files \<Rightarrow> run_flags \<Rightarrow> (string \<Rightarrow> bool \<times> run_env) \<Rightarrow> string list \<Rightarrow> command_error option \<times> (string \<times> run_effect list) list" where
  "run cf flags envs args =
     (case args of
        [] \<Rightarrow> (Some MissingArgument, [])
      | path # _ \<Rightarrow>
          (case collectScenarioFiles cf path of
             Inl e \<Rightarrow> (Some e, [])
           | Inr files \<Rightarrow> run_files flags envs files))"

section \<open>Reports\<close>

datatype file_error = NoInput | CreateFailed | ReadFailed string | WriteFailed | CloseFailed | AlreadyClosed | RemoveFailed | GetwdError | RenderFailed

text \<open>\<open>Close\<close> of a file: closing a closed one is an error. The state is whether the file is open.\<close>

definition file_Close :: "bool \<Rightarrow> bool \<Rightarrow> file_error list \<times> bool" where
  "file_Close ok is_open = (if \<not> is_open then ([AlreadyClosed], False) else (if ok then [] else [CloseFailed], False))"

record diff_env =
  de_create :: bool
  de_read :: "string \<Rightarrow> string option"
  de_write :: "string \<Rightarrow> bool"
  de_close :: bool
  de_remove :: bool
  de_getwd :: bool
  de_render :: "string \<Rightarrow> bool"

fun merge_files :: "diff_env \<Rightarrow> string list \<Rightarrow> string \<Rightarrow> file_error list \<times> string" where
  "merge_files env [] content = ([], content)"
| "merge_files env (src # srcs) content =
     (case de_read env src of
        None \<Rightarrow> ([ReadFailed src], content)
      | Some text \<Rightarrow> if \<not> de_write env text then ([WriteFailed], content) else merge_files env srcs (content @ text))"

text \<open>
  The command \<open>diff\<close>, with \<open>errors.Join\<close> as the concatenation of errors. The deferred calls run in reverse order: the removal, if it
  was reached, then the close of the file.
\<close>

definition diff :: "diff_env \<Rightarrow> string list \<Rightarrow> file_error list" where
  "diff env args =
     (if args = [] then [NoInput]
      else if \<not> de_create env then [CreateFailed]
      else
        case merge_files env args [] of
          (errs, content) \<Rightarrow>
            if errs \<noteq> [] then errs @ fst (file_Close (de_close env) True)
            else
              case file_Close (de_close env) True of
                (errs1, still_open) \<Rightarrow>
                  if errs1 \<noteq> [] then errs1 @ fst (file_Close (de_close env) still_open)
                  else
                    (if \<not> de_getwd env then [GetwdError] else if \<not> de_render env content then [RenderFailed] else []) @
                    (if de_remove env then [] else [RemoveFailed]) @ fst (file_Close (de_close env) still_open))"

text \<open>The name of the rendered report (\<open>Report.Render\<close>): that of the scenario file, if there is one. The path is that of a file, without a slash at its end.\<close>

definition filepath_Base :: "string \<Rightarrow> string" where
  "filepath_Base path = rev (takeWhile (\<lambda>c. c \<noteq> CHR ''/'') (rev path))"

definition TrimSuffix :: "string \<Rightarrow> string \<Rightarrow> string" where
  "TrimSuffix s p = (if HasSuffix s p then take (length s - length p) s else s)"

definition report_name :: "string \<Rightarrow> string \<Rightarrow> string" where
  "report_name name scenarioFilePath =
     (if scenarioFilePath \<noteq> []
      then
        let base = TrimSuffix (filepath_Base scenarioFilePath) (filepath_Ext scenarioFilePath)
        in if base \<noteq> [] then base @ ''.html'' else name @ ''.html''
      else name @ ''.html'')"

section \<open>Progress\<close>

text \<open>The nodes the progress output shows, as listener of the network.\<close>

definition active_AfterNodeCreation :: "string \<Rightarrow> string set \<Rightarrow> string set" where
  "active_AfterNodeCreation label nodes = insert label nodes"

definition active_BeforeNodeRemoval :: "string \<Rightarrow> string set \<Rightarrow> string set" where
  "active_BeforeNodeRemoval label nodes = nodes - {label}"

definition validatorIDFromMetricSubject :: "string \<Rightarrow> int option" where
  "validatorIDFromMetricSubject name =
     (if \<not> HasPrefix name ''validator-'' then None else Atoi (TrimPrefix name ''validator-''))"

text \<open>\<open>latest\<close> is the last value of the series of a node, if there is a series and it has a point.\<close>

definition getLastValAllSubjects :: "string set \<Rightarrow> string list \<Rightarrow> (string \<Rightarrow> string option) \<Rightarrow> string list" where
  "getLastValAllSubjects active nodes latest =
     map (\<lambda>n. case latest n of None \<Rightarrow> ''N/A'' | Some v \<Rightarrow> v) (filter (\<lambda>n. n \<in> active) (sort nodes))"

text \<open>\<open>getValidatorStakes\<close> after the subjects are ordered: the stakes, \<open>None\<close> where there is none, as rounded percentages (stakes
  are not negative, so that the division is that of \<open>big.Int\<close>).\<close>

definition stake_total :: "int option list \<Rightarrow> int" where
  "stake_total stakes = sum_list (map (\<lambda>s. case s of None \<Rightarrow> 0 | Some n \<Rightarrow> n) stakes)"

definition stake_percent :: "int \<Rightarrow> int \<Rightarrow> int" where
  "stake_percent total_stake stake = (stake * 100 + total_stake div 2) div total_stake"

definition stake_percentages :: "int option list \<Rightarrow> int option list" where
  "stake_percentages stakes =
     (let total_stake = stake_total stakes
      in if total_stake = 0 then map (\<lambda>_. None) stakes else map (map_option (stake_percent total_stake)) stakes)"

end
