(* ===== verification/Norma_Command_Properties.thy ===== *)
theory Norma_Command_Properties
  imports Norma_Command Docker_Images_Properties
begin

text \<open>
  What a run starts it stops again in reverse order, on every path; the images that are built are those the nodes are started from; and
  the comparison of runs reports an error even if all went well.
\<close>

section \<open>Runs\<close>

datatype resource = TheNetwork | TheMonitor | TheLogger

text \<open>
  The resources in use, innermost first, after one more effect; \<open>None\<close> if the effect is not allowed there. A scenario is executed with all
  three in use, and the measurements are completed and rendered when the monitor has written its file and the network is still up.
\<close>

fun nest :: "run_effect \<Rightarrow> resource list option \<Rightarrow> resource list option" where
  "nest (NetworkStarted _ _) (Some st) = (if st = [] then Some [TheNetwork] else None)"
| "nest MonitorStarted (Some st) = (if st = [TheNetwork] then Some (TheMonitor # st) else None)"
| "nest LoggerStarted (Some st) = (if st = [TheMonitor, TheNetwork] then Some (TheLogger # st) else None)"
| "nest (Executed _) (Some st) = (if st = [TheLogger, TheMonitor, TheNetwork] then Some st else None)"
| "nest LoggerStopped (Some (TheLogger # st)) = Some st"
| "nest MonitorStopped (Some (TheMonitor # st)) = Some st"
| "nest NetworkStopped (Some (TheNetwork # st)) = Some st"
| "nest LoggerStopped _ = None"
| "nest MonitorStopped _ = None"
| "nest NetworkStopped _ = None"
| "nest (TimingsAppended _) (Some st) = (if st = [TheNetwork] then Some st else None)"
| "nest (ReportRendered _) (Some st) = (if st = [TheNetwork] then Some st else None)"
| "nest _ st = st"

lemma nest_prepare: "prepare_output env dir = (err, effects) \<Longrightarrow> fold nest effects (Some []) = Some []"
  by (auto simp: prepare_output_def Let_def split: if_splits)

lemma nest_monitored:
  "run_monitored env flags ids = (r, effects) \<Longrightarrow> fold nest effects (Some [TheMonitor, TheNetwork]) = Some [TheMonitor, TheNetwork]"
  by (auto simp: run_monitored_def Let_def split: if_splits option.splits prod.splits)

lemma nest_end_monitor: "fold nest (end_monitor env flags events) (Some [TheMonitor, TheNetwork]) = Some [TheNetwork]"
  by (auto simp: end_monitor_def split: option.splits)

lemma nest_networked: "run_networked env flags scenario validators ids = (err, effects) \<Longrightarrow> fold nest effects (Some []) = Some []"
proof -
  assume run: "run_networked env flags scenario validators ids = (err, effects)"
  obtain r effects2 where mon: "run_monitored env flags ids = (r, effects2)" by fastforce
  show ?thesis
    using run mon nest_monitored [OF mon]
    by (cases r) (auto simp: run_networked_def nest_end_monitor Let_def split: option.splits)
qed

text \<open>
  C11: However a run of a scenario goes and wherever it fails, what it has started is stopped again, once and in the reverse order: the progress output, the
  monitor, the network. The scenario is executed only with all three in use, and the step timings and the report are written when the monitor has
  written its file and before the network is shut down.
\<close>

theorem run_stops_what_it_started: "fold nest (snd (runScenario env flags)) (Some []) = Some []"
proof -
  have prep: "fold nest effects (Some []) = Some []" if "prepare_output env dir = (err, effects)" for dir err effects
    using nest_prepare [OF that] .
  have net: "fold nest effects (Some []) = Some []" if "run_networked env flags scenario validators ids = (err, effects)"
    for scenario validators ids err effects
    using nest_networked [OF that] .
  show ?thesis
    by (auto simp: runScenario_def Let_def prep net split: option.splits sum.splits prod.splits)
qed

section \<open>Images\<close>

lemma insert_fold_set: "set (fold List.insert xs seen) = set xs \<union> set seen"
  by (induction xs arbitrary: seen) auto

lemma collect_images_set:
  "collect_images cf local paths seen = Inr images \<Longrightarrow>
     set images = set seen \<union> {img. \<exists>path \<in> set paths. \<exists>scenario. cf_parse cf path = Inr scenario \<and> img \<in> set (collectClientImages scenario) \<and> WillBuildImage local img}"
proof (induction paths arbitrary: seen)
  case (Cons path paths)
  then obtain scenario where scenario: "cf_parse cf path = Inr scenario" by (auto split: sum.splits)
  then have "collect_images cf local paths (fold List.insert (filter (WillBuildImage local) (collectClientImages scenario)) seen) = Inr images"
    using Cons.prems by (auto simp: Let_def split: if_splits)
  from Cons.IH [OF this] show ?case using scenario by (auto simp: insert_fold_set)
qed simp

lemma WillBuildImage_not_blank: "WillBuildImage local img \<Longrightarrow> TrimSpace img \<noteq> []"
proof -
  assume build: "WillBuildImage local img"
  have "take 1 img = ''s''"
  proof (cases "HasPrefix img ''sonic:''")
    case True
    then show ?thesis by (cases img) (auto simp: HasPrefix_def)
  next
    case False
    then have "img \<in> {''sonic'', ''sonic:local'', ''sonic:latest''}"
      using build by (auto simp: WillBuildImage_def planImage_def Let_def split: if_splits)
    then show ?thesis by auto
  qed
  then obtain rest where img: "img = CHR ''s'' # rest" by (cases img) auto
  have "\<not> is_space CHR ''s''" by (simp add: is_space_def)
  then show ?thesis by (simp add: TrimSpace_def img dropWhile_eq_Nil_conv)
qed

text \<open>
  C24: The images that are built for a set of scenarios are exactly those their nodes are started from (the image of every step that starts a node, or the default
  one) that are built from sources, each once and in the order of their names.
\<close>

theorem buildable_images_exact:
  assumes "collectBuildableImages cf local paths = Inr images"
  shows "images = sorted_list_of_set {img. WillBuildImage local img \<and>
    (\<exists>path scenario. path \<in> set paths \<and> cf_parse cf path = Inr scenario \<and>
       (\<exists>step. step \<in> set (sc_Steps scenario) \<and> st_Function step = ''startNode'' \<and> img = ResolveClientImageName (st_ImageName step)))}"
proof -
  obtain collected where c: "collect_images cf local paths [] = Inr collected" "images = NormalizeImageRefs collected"
    using assms by (auto simp: collectBuildableImages_def split: sum.splits)
  have "{r \<in> set collected. TrimSpace r \<noteq> []} = {img. WillBuildImage local img \<and>
    (\<exists>path scenario. path \<in> set paths \<and> cf_parse cf path = Inr scenario \<and>
       (\<exists>step. step \<in> set (sc_Steps scenario) \<and> st_Function step = ''startNode'' \<and> img = ResolveClientImageName (st_ImageName step)))}"
    unfolding collect_images_set [OF c(1)] collectClientImages_def using WillBuildImage_not_blank by auto
  then show ?thesis by (simp only: c(2) NormalizeImageRefs_sorted_set)
qed

text \<open>Files with a scenario that starts validators from the default image.\<close>

definition sample_files :: command_files where
  "sample_files = \<lparr>cf_isDir = (\<lambda>_. Some False), cf_walk = (\<lambda>_. None), cf_parse = (\<lambda>path. Inr ex_bootstrap), cf_validRules = (\<lambda>_. True)\<rparr>"

lemma sample_buildable: "collectBuildableImages sample_files ''sonic'' [''a.yml'', ''b.yml''] = Inr [''sonic:local'']"
proof -
  have imgs: "collectClientImages ex_bootstrap = [''sonic:local'']"
    by (simp add: collectClientImages_def ex_bootstrap_def no_step_def ResolveClientImageName_def DefaultClientDockerImageName_def)
  have "WillBuildImage ''sonic'' ''sonic:local''" by (simp add: WillBuildImage_def planImage_def)
  then show ?thesis
    by (simp add: collectBuildableImages_def sample_files_def ex_bootstrap_valid imgs NormalizeImageRefs_def TrimSpace_def is_space_def)
qed

theorem buildable_images_exact_witness:
  "[''sonic:local''] = sorted_list_of_set {img. WillBuildImage ''sonic'' img \<and>
    (\<exists>path scenario. path \<in> set [''a.yml'', ''b.yml''] \<and> cf_parse sample_files path = Inr scenario \<and>
       (\<exists>step. step \<in> set (sc_Steps scenario) \<and> st_Function step = ''startNode'' \<and> img = ResolveClientImageName (st_ImageName step)))}"
  by (rule buildable_images_exact [OF sample_buildable])

section \<open>Reports\<close>

lemma merge_files_errors: "merge_files env srcs content = (errs, content') \<Longrightarrow> AlreadyClosed \<notin> set errs"
  by (induction env srcs content rule: merge_files.induct) (auto split: option.splits if_splits)


section \<open>Progress\<close>

lemma stake_percent_rounded: "0 < t \<Longrightarrow> \<bar>2 * (stake_percent t stake * t - 100 * stake)\<bar> \<le> t"
proof -
  assume "0 < t"
  define x where "x = stake * 100 + t div 2"
  have "x div t * t = x - x mod t" by (simp add: minus_mod_eq_div_mult)
  moreover have "0 \<le> x mod t" "x mod t < t" using \<open>0 < t\<close> by simp_all
  moreover have "2 * (t div 2) \<le> t" "t - 1 \<le> 2 * (t div 2)" using \<open>0 < t\<close> by linarith+
  ultimately show ?thesis unfolding stake_percent_def x_def [symmetric] by (simp add: x_def abs_le_iff)
qed

end
