(* ===== verification/Rules_Explain.thy ===== *)
theory Rules_Explain
  imports Go_Strings "HOL-Library.Char_ord" "HOL-Library.List_Lexorder"
begin

text \<open>
  The explanation of a mismatch of network rules (\<open>explainRulesMismatch\<close> and \<open>collectRuleDiffs\<close> of \<open>driver/checking/network_rules.go\<close>):
  a walk over two values by reflection.
\<close>

section \<open>Values\<close>

text \<open>
  A value as reflection shows it, each with the name of its type: a pointer (\<open>None\<close> is nil), a struct with its fields and whether they
  are exported, a map that may be nil with its printed keys in order, a slice that may be nil, an array, and a basic value as it is
  printed. Interfaces are treated by the code like pointers.
\<close>

datatype rvalue =
    RBasic string string
  | RPointer string "rvalue option"
  | RStruct string "(string \<times> bool) list" "rvalue list"
  | RMap string bool "string list" "rvalue list"
  | RSlice string bool "rvalue list"
  | RArray string "rvalue list"

fun rtype :: "rvalue \<Rightarrow> string" where
  "rtype (RBasic t _) = t"
| "rtype (RPointer t _) = t"
| "rtype (RStruct t _ _) = t"
| "rtype (RMap t _ _ _) = t"
| "rtype (RSlice t _ _) = t"
| "rtype (RArray t _) = t"

definition pathOrRoot :: "string \<Rightarrow> string" where
  "pathOrRoot path = (if path = [] then ''<root>'' else path)"

text \<open>\<open>valueToString\<close>; \<open>fmt\<close> stands for the formatting of a value by the library.\<close>

definition valueToString :: "(rvalue \<Rightarrow> string) \<Rightarrow> rvalue option \<Rightarrow> string" where
  "valueToString fmt v =
     (case v of
        None \<Rightarrow> ''<missing>''
      | Some (RPointer t None) \<Rightarrow> ''<nil>''
      | Some (RMap t True ks vs) \<Rightarrow> ''<nil>''
      | Some (RSlice t True vs) \<Rightarrow> ''<nil>''
      | Some x \<Rightarrow> fmt x)"

definition rule_diff :: "(rvalue \<Rightarrow> string) \<Rightarrow> string \<Rightarrow> rvalue option \<Rightarrow> rvalue option \<Rightarrow> string" where
  "rule_diff fmt path actual expected =
     pathOrRoot path @ '': got='' @ valueToString fmt actual @ '' want='' @ valueToString fmt expected"

definition type_diff :: "(rvalue \<Rightarrow> string) \<Rightarrow> string \<Rightarrow> rvalue \<Rightarrow> rvalue \<Rightarrow> string" where
  "type_diff fmt path actual expected =
     pathOrRoot path @ '': got='' @ valueToString fmt (Some actual) @ '' ('' @ rtype actual @ '') want='' @
     valueToString fmt (Some expected) @ '' ('' @ rtype expected @ '')''"

definition sub_path :: "string \<Rightarrow> string \<Rightarrow> string" where
  "sub_path path name = (if path \<noteq> [] then path @ ''.'' @ name else name)"

definition index_path :: "string \<Rightarrow> nat \<Rightarrow> string" where
  "index_path path i = (if path \<noteq> [] then path else pathOrRoot path) @ ''['' @ itoa i @ '']''"

definition ordered_keys :: "string list \<Rightarrow> string list \<Rightarrow> string list" where
  "ordered_keys ks ls = sort (remdups (ks @ ls))"

text \<open>Parts of a value are smaller.\<close>

lemma size_in_list: "x \<in> set xs \<Longrightarrow> size x < Suc (size_list size xs)"
  by (induction xs) auto

lemma mem_zip3: "(p, x, y) \<in> set (zip fs (zip xs ys)) \<Longrightarrow> x \<in> set xs"
  by (blast dest: set_zip_rightD set_zip_leftD)

lemma mem_enumerate_zip: "(i, x, y) \<in> set (enumerate n (zip xs ys)) \<Longrightarrow> x \<in> set xs"
  by (metis enumerate_eq_zip set_zip_leftD set_zip_rightD)

lemma map_of_zip_mem: "map_of (zip ks xs) k = Some v \<Longrightarrow> v \<in> set xs"
  by (auto dest!: map_of_SomeD set_zip_rightD)

text \<open>
  The walk. A value that is missing in a map is \<open>None\<close>. Values of the same type have the same form, so the last equation is not reached by
  them.
\<close>

function (sequential) collectRuleDiffs :: "(rvalue \<Rightarrow> string) \<Rightarrow> string \<Rightarrow> rvalue option \<Rightarrow> rvalue option \<Rightarrow> string list" where
  "collectRuleDiffs fmt path None None = []"
| "collectRuleDiffs fmt path None (Some e) = [rule_diff fmt path None (Some e)]"
| "collectRuleDiffs fmt path (Some a) None = [rule_diff fmt path (Some a) None]"
| "collectRuleDiffs fmt path (Some a) (Some e) =
     (if rtype a \<noteq> rtype e then [type_diff fmt path a e]
      else
        case (a, e) of
          (RPointer t p, RPointer u q) \<Rightarrow>
            (case (p, q) of
               (None, None) \<Rightarrow> []
             | (Some x, Some y) \<Rightarrow> collectRuleDiffs fmt path (Some x) (Some y)
             | _ \<Rightarrow> [rule_diff fmt path (Some a) (Some e)])
        | (RStruct t fs xs, RStruct u gs ys) \<Rightarrow>
            concat (map (\<lambda>(field, x, y). if \<not> snd field then [] else collectRuleDiffs fmt (sub_path path (fst field)) (Some x) (Some y))
              (zip fs (zip xs ys)))
        | (RMap t n ks xs, RMap u m ls ys) \<Rightarrow>
            if n \<and> m then []
            else if n \<or> m then [rule_diff fmt path (Some a) (Some e)]
            else concat (map (\<lambda>k. collectRuleDiffs fmt (sub_path path k) (map_of (zip ks xs) k) (map_of (zip ls ys) k)) (ordered_keys ks ls))
        | (RSlice t n xs, RSlice u m ys) \<Rightarrow>
            if length xs \<noteq> length ys
            then [pathOrRoot path @ '': got=len('' @ itoa (length xs) @ '') want=len('' @ itoa (length ys) @ '')'']
            else concat (map (\<lambda>(i, x, y). collectRuleDiffs fmt (index_path path i) (Some x) (Some y)) (enumerate 0 (zip xs ys)))
        | (RArray t xs, RArray u ys) \<Rightarrow>
            if length xs \<noteq> length ys
            then [pathOrRoot path @ '': got=len('' @ itoa (length xs) @ '') want=len('' @ itoa (length ys) @ '')'']
            else concat (map (\<lambda>(i, x, y). collectRuleDiffs fmt (index_path path i) (Some x) (Some y)) (enumerate 0 (zip xs ys)))
        | _ \<Rightarrow> if a = e then [] else [rule_diff fmt path (Some a) (Some e)])"
  by pat_completeness auto

termination
  by (relation "measure (\<lambda>(fmt, path, a, e). case a of None \<Rightarrow> 0 | Some v \<Rightarrow> Suc (size v))")
    (auto intro!: size_in_list split: option.splits dest: mem_zip3 mem_enumerate_zip map_of_zip_mem)

definition explainRulesMismatch :: "(rvalue \<Rightarrow> string) \<Rightarrow> rvalue \<Rightarrow> rvalue \<Rightarrow> string" where
  "explainRulesMismatch fmt actual expected =
     (let diffs = collectRuleDiffs fmt [] (Some actual) (Some expected)
      in if diffs = [] then ''unable to extract differing fields'' else str_join ''; '' (sort diffs))"

section \<open>Typed values\<close>

datatype rshape = SBasic | SPointer string | SStruct "(string \<times> bool) list" "string list" | SMap string | SSlice string | SArray nat string

text \<open>The values of the types that \<open>shape\<close> declares; a map has its keys once and in order, and a nil slice or map has no elements.\<close>

fun typed :: "(string \<Rightarrow> rshape) \<Rightarrow> rvalue \<Rightarrow> bool" where
  "typed shape (RBasic t v) \<longleftrightarrow> shape t = SBasic"
| "typed shape (RPointer t None) \<longleftrightarrow> (\<exists>u. shape t = SPointer u)"
| "typed shape (RPointer t (Some x)) \<longleftrightarrow> shape t = SPointer (rtype x) \<and> typed shape x"
| "typed shape (RStruct t fs xs) \<longleftrightarrow> shape t = SStruct fs (map rtype xs) \<and> length fs = length xs \<and> (\<forall>x \<in> set xs. typed shape x)"
| "typed shape (RMap t n ks xs) \<longleftrightarrow> (\<exists>u. shape t = SMap u \<and> (\<forall>x \<in> set xs. rtype x = u \<and> typed shape x)) \<and>
     length ks = length xs \<and> sorted ks \<and> distinct ks \<and> (n \<longrightarrow> ks = [])"
| "typed shape (RSlice t n xs) \<longleftrightarrow> (\<exists>u. shape t = SSlice u \<and> (\<forall>x \<in> set xs. rtype x = u \<and> typed shape x)) \<and> (n \<longrightarrow> xs = [])"
| "typed shape (RArray t xs) \<longleftrightarrow> (\<exists>u. shape t = SArray (length xs) u \<and> (\<forall>x \<in> set xs. rtype x = u \<and> typed shape x))"

text \<open>What can be seen of a value: fields that are not exported are blanked, and a nil slice is an empty one.\<close>

definition hidden :: rvalue where
  "hidden = RBasic [] []"

fun visible :: "rvalue \<Rightarrow> rvalue" where
  "visible (RBasic t v) = RBasic t v"
| "visible (RPointer t p) = RPointer t (map_option visible p)"
| "visible (RStruct t fs xs) = RStruct t fs (map (\<lambda>(f, x). if snd f then x else hidden) (zip fs (map visible xs)))"
| "visible (RMap t n ks xs) = RMap t n ks (map visible xs)"
| "visible (RSlice t n xs) = RSlice t False (map visible xs)"
| "visible (RArray t xs) = RArray t (map visible xs)"

declare collectRuleDiffs.simps(4) [simp del]

lemma concat_zip_empty:
  assumes "length fs = length xs" "length ys = length xs"
  shows "concat (map (\<lambda>(f, x, y). g f x y) (zip fs (zip xs ys))) = [] \<longleftrightarrow> (\<forall>i < length xs. g (fs ! i) (xs ! i) (ys ! i) = [])"
proof -
  have elems: "set (zip fs (zip xs ys)) = (\<lambda>i. (fs ! i, xs ! i, ys ! i)) ` {..<length xs}" using assms by (auto simp: set_zip)
  show ?thesis unfolding concat_eq_Nil_conv set_map elems by auto
qed

lemma concat_enumerate_empty:
  assumes "length ys = length xs"
  shows "concat (map (\<lambda>(i, x, y). g i x y) (enumerate 0 (zip xs ys))) = [] \<longleftrightarrow> (\<forall>i < length xs. g i (xs ! i) (ys ! i) = [])"
  using concat_zip_empty [of "[0..<length xs]" xs ys g] assms by (simp add: enumerate_eq_zip)

lemma map_visible_eq: "map visible xs = map visible ys \<longleftrightarrow> length xs = length ys \<and> (\<forall>i < length xs. visible (xs ! i) = visible (ys ! i))"
  by (auto simp: list_eq_iff_nth_eq)

lemma keys_differ:
  assumes "\<forall>k \<in> set ks \<union> set ls. collectRuleDiffs fmt (sub_path path k) (map_of (zip ks xs) k) (map_of (zip ls ys) k) = []"
    "length ks = length xs" "length ls = length ys"
  shows "set ks = set ls"
proof -
  have "(map_of (zip ks xs) k = None) = (map_of (zip ls ys) k = None)" if "k \<in> set ks \<union> set ls" for k
  proof -
    have "collectRuleDiffs fmt (sub_path path k) (map_of (zip ks xs) k) (map_of (zip ls ys) k) = []" using assms(1) that by blast
    then show ?thesis by (cases "map_of (zip ks xs) k"; cases "map_of (zip ls ys) k") simp_all
  qed
  then show ?thesis using assms(2,3) by (auto simp: map_of_zip_is_None)
qed

lemma map_diffs:
  assumes wt: "length ks = length xs" "sorted ks" "distinct ks" "length ls = length ys" "sorted ls" "distinct ls"
    and IH: "\<And>i path. i < length xs \<Longrightarrow> ks = ls \<Longrightarrow> collectRuleDiffs fmt path (Some (xs ! i)) (Some (ys ! i)) = [] \<longleftrightarrow> visible (xs ! i) = visible (ys ! i)"
  shows "concat (map (\<lambda>k. collectRuleDiffs fmt (sub_path path k) (map_of (zip ks xs) k) (map_of (zip ls ys) k)) (ordered_keys ks ls)) = [] \<longleftrightarrow>
    ks = ls \<and> map visible xs = map visible ys"
    (is "?diffs = [] \<longleftrightarrow> _")
proof -
  have all: "?diffs = [] \<longleftrightarrow> (\<forall>k \<in> set ks \<union> set ls. collectRuleDiffs fmt (sub_path path k) (map_of (zip ks xs) k) (map_of (zip ls ys) k) = [])"
    by (auto simp: ordered_keys_def)
  show ?thesis
  proof (cases "ks = ls")
    case True
    have "?diffs = [] \<longleftrightarrow> (\<forall>i < length xs. collectRuleDiffs fmt (sub_path path (ks ! i)) (Some (xs ! i)) (Some (ys ! i)) = [])"
    proof -
      have keys: "set ks \<union> set ls = (\<lambda>i. ks ! i) ` {..<length xs}" using True wt by (auto simp: in_set_conv_nth)
      have "map_of (zip ks xs) (ks ! i) = Some (xs ! i)" "map_of (zip ls ys) (ks ! i) = Some (ys ! i)" if "i < length xs" for i
        using True wt that by (simp_all add: map_of_zip_nth)
      then show ?thesis unfolding all keys by auto
    qed
    then show ?thesis using True IH wt by (simp add: map_visible_eq)
  next
    case False
    then have "set ks \<noteq> set ls" using wt sorted_distinct_set_unique by blast
    then show ?thesis using keys_differ [of ks ls fmt path xs ys] all wt False by blast
  qed
qed

lemma struct_diffs:
  assumes "length fs = length xs" "length ys = length xs"
    and "\<And>i path. i < length xs \<Longrightarrow> collectRuleDiffs fmt path (Some (xs ! i)) (Some (ys ! i)) = [] \<longleftrightarrow> visible (xs ! i) = visible (ys ! i)"
  shows "concat (map (\<lambda>(field, x, y). if \<not> snd field then [] else collectRuleDiffs fmt (sub_path path (fst field)) (Some x) (Some y)) (zip fs (zip xs ys))) = [] \<longleftrightarrow>
    map (\<lambda>(f, x). if snd f then x else hidden) (zip fs (map visible xs)) = map (\<lambda>(f, x). if snd f then x else hidden) (zip fs (map visible ys))"
proof -
  let ?blank = "\<lambda>zs. map (\<lambda>(f, x). if snd f then x else hidden) (zip fs (map visible zs))"
  have "?blank xs = ?blank ys \<longleftrightarrow> (\<forall>i < length xs. snd (fs ! i) \<longrightarrow> visible (xs ! i) = visible (ys ! i))"
    using assms(1,2) by (auto simp: list_eq_iff_nth_eq)
  moreover have "(if \<not> snd (fs ! i) then [] else collectRuleDiffs fmt (sub_path path (fst (fs ! i))) (Some (xs ! i)) (Some (ys ! i))) = [] \<longleftrightarrow>
      (snd (fs ! i) \<longrightarrow> visible (xs ! i) = visible (ys ! i))" if "i < length xs" for i
    using assms(3) [OF that] by simp
  ultimately show ?thesis unfolding concat_zip_empty [OF assms(1,2)] by simp
qed

lemma list_diffs:
  assumes "length ys = length xs"
    and "\<And>i path. i < length xs \<Longrightarrow> collectRuleDiffs fmt path (Some (xs ! i)) (Some (ys ! i)) = [] \<longleftrightarrow> visible (xs ! i) = visible (ys ! i)"
  shows "concat (map (\<lambda>(i, x, y). collectRuleDiffs fmt (index_path path i) (Some x) (Some y)) (enumerate 0 (zip xs ys))) = [] \<longleftrightarrow>
    map visible xs = map visible ys"
  unfolding concat_enumerate_empty [OF assms(1)] using assms by (simp add: map_visible_eq)

lemma typed_forms:
  assumes "typed shape a" "typed shape e" "rtype a = rtype e"
  shows "(case a of
      RBasic t v \<Rightarrow> \<exists>w. e = RBasic t w
    | RPointer t p \<Rightarrow> \<exists>q. e = RPointer t q
    | RStruct t fs xs \<Rightarrow> \<exists>ys. e = RStruct t fs ys \<and> map rtype ys = map rtype xs
    | RMap t n ks xs \<Rightarrow> \<exists>m ls ys. e = RMap t m ls ys
    | RSlice t n xs \<Rightarrow> \<exists>m ys. e = RSlice t m ys
    | RArray t xs \<Rightarrow> \<exists>ys. e = RArray t ys \<and> length ys = length xs)"
  using assms by (cases a; cases e; cases "\<exists>t. a = RPointer t None"; cases "\<exists>t. e = RPointer t None") (auto dest: map_eq_imp_length_eq)

lemma diffs_visible:
  assumes "typed shape a" "typed shape e" "rtype a = rtype e"
  shows "collectRuleDiffs fmt path (Some a) (Some e) = [] \<longleftrightarrow> visible a = visible e"
  using assms
proof (induction a arbitrary: path e)
  case (RBasic t v)
  then obtain w where "e = RBasic t w" using typed_forms [OF RBasic.prems] by auto
  then show ?case by (simp add: collectRuleDiffs.simps(4))
next
  case (RPointer t p)
  then obtain q where e: "e = RPointer t q" using typed_forms [OF RPointer.prems] by auto
  show ?case
  proof (cases p)
    case None
    then show ?thesis by (cases q) (simp_all add: e collectRuleDiffs.simps(4))
  next
    case (Some x)
    show ?thesis
    proof (cases q)
      case None
      then show ?thesis by (simp add: e Some collectRuleDiffs.simps(4))
    next
      case Some2: (Some y)
      have "typed shape x" "typed shape y" "rtype x = rtype y" using RPointer.prems Some Some2 e by auto
      then show ?thesis using RPointer.IH [of x y path] by (simp add: e Some Some2 collectRuleDiffs.simps(4) [of _ _ "RPointer t _"])
    qed
  qed
next
  case (RStruct t fs xs)
  then obtain ys where e: "e = RStruct t fs ys" "map rtype ys = map rtype xs" using typed_forms [OF RStruct.prems] by auto
  then have len: "length ys = length xs" "length fs = length xs" using RStruct.prems(1) by (auto dest: map_eq_imp_length_eq)
  have IH: "collectRuleDiffs fmt path (Some (xs ! i)) (Some (ys ! i)) = [] \<longleftrightarrow> visible (xs ! i) = visible (ys ! i)" if "i < length xs" for i path
  proof (rule RStruct.IH)
    show "rtype (xs ! i) = rtype (ys ! i)" using e(2) that len by (metis nth_map)
  qed (use RStruct.prems e that len in auto)
  show ?case using struct_diffs [OF len(2,1) IH] by (simp add: e(1) collectRuleDiffs.simps(4))
next
  case (RMap t n ks xs)
  then obtain m ls ys where e: "e = RMap t m ls ys" using typed_forms [OF RMap.prems] by auto
  have wt: "length ks = length xs" "sorted ks" "distinct ks" "length ls = length ys" "sorted ls" "distinct ls" "n \<longrightarrow> ks = []" "m \<longrightarrow> ls = []"
    using RMap.prems e by auto
  obtain u where u: "shape t = SMap u" "\<forall>x \<in> set xs. rtype x = u \<and> typed shape x" "\<forall>y \<in> set ys. rtype y = u \<and> typed shape y"
    using RMap.prems e by auto
  have IH: "collectRuleDiffs fmt path (Some (xs ! i)) (Some (ys ! i)) = [] \<longleftrightarrow> visible (xs ! i) = visible (ys ! i)" if "i < length xs" "ks = ls" for i path
    using RMap.IH [of "xs ! i" "ys ! i" path] u that wt by simp
  show ?case
    using map_diffs [OF wt(1-6) IH, of path] wt(1,4,7,8) by (cases n; cases m) (simp_all add: e collectRuleDiffs.simps(4))
next
  case (RSlice t n xs)
  then obtain m ys where e: "e = RSlice t m ys" using typed_forms [OF RSlice.prems] by auto
  obtain u where "shape t = SSlice u" and u: "\<forall>x \<in> set xs. rtype x = u \<and> typed shape x" "\<forall>y \<in> set ys. rtype y = u \<and> typed shape y"
    using RSlice.prems e by auto
  have IH: "collectRuleDiffs fmt path (Some (xs ! i)) (Some (ys ! i)) = [] \<longleftrightarrow> visible (xs ! i) = visible (ys ! i)"
    if "i < length xs" "length ys = length xs" for i path
    using RSlice.IH [of "xs ! i" "ys ! i" path] u that by simp
  show ?case
  proof (cases "length ys = length xs")
    case True
    then show ?thesis using list_diffs [OF True IH] by (simp add: e collectRuleDiffs.simps(4))
  next
    case False
    then show ?thesis by (auto simp: e collectRuleDiffs.simps(4) dest: map_eq_imp_length_eq)
  qed
next
  case (RArray t xs)
  then obtain ys where e: "e = RArray t ys" "length ys = length xs" using typed_forms [OF RArray.prems] by auto
  obtain u where "shape t = SArray (length xs) u" and u: "\<forall>x \<in> set xs. rtype x = u \<and> typed shape x" "\<forall>y \<in> set ys. rtype y = u \<and> typed shape y"
    using RArray.prems e by auto
  have IH: "collectRuleDiffs fmt path (Some (xs ! i)) (Some (ys ! i)) = [] \<longleftrightarrow> visible (xs ! i) = visible (ys ! i)" if "i < length xs" for i path
    using RArray.IH [of "xs ! i" "ys ! i" path] u that e(2) by simp
  show ?case using list_diffs [OF e(2) IH] e(2) by (simp add: e(1) collectRuleDiffs.simps(4))
qed

section \<open>The explanation\<close>

lemma rule_diff_has_colon:
  "CHR '':'' \<in> set (rule_diff fmt path a e)"
  by (simp add: rule_diff_def)

lemma diff_has_colon: "d \<in> set (collectRuleDiffs fmt path (Some a) (Some e)) \<Longrightarrow> CHR '':'' \<in> set d"
proof (induction a arbitrary: path e)
  case (RBasic t v)
  then show ?case by (cases e) (auto simp: collectRuleDiffs.simps(4) type_diff_def rule_diff_def split: if_splits)
next
  case (RPointer t p)
  note d = RPointer.prems [unfolded collectRuleDiffs.simps(4) [of fmt path "RPointer t p"]]
  show ?case using d by (cases e) (auto simp: type_diff_def rule_diff_def intro: RPointer.IH split: if_splits option.splits)
next
  case (RStruct t fs xs)
  note d = RStruct.prems [unfolded collectRuleDiffs.simps(4) [of fmt path "RStruct t fs xs"]]
  show ?case using d
    by (cases e) (auto simp: type_diff_def rule_diff_def dest!: mem_zip3 intro: RStruct.IH split: if_splits)
next
  case (RMap t n ks xs)
  note d = RMap.prems [unfolded collectRuleDiffs.simps(4) [of fmt path "RMap t n ks xs"]]
  have entry: "CHR '':'' \<in> set d" if "d \<in> set (collectRuleDiffs fmt path (map_of (zip ks xs) k) v)" for k v path
    using that RMap.IH by (cases "map_of (zip ks xs) k"; cases v) (auto simp: rule_diff_has_colon dest: map_of_zip_mem)
  show ?case using d by (cases e) (auto simp: type_diff_def rule_diff_def dest: entry split: if_splits)
next
  case (RSlice t n xs)
  note d = RSlice.prems [unfolded collectRuleDiffs.simps(4) [of fmt path "RSlice t n xs"]]
  show ?case using d
    by (cases e) (auto simp: type_diff_def rule_diff_def dest!: mem_enumerate_zip intro: RSlice.IH split: if_splits)
next
  case (RArray t xs)
  note d = RArray.prems [unfolded collectRuleDiffs.simps(4) [of fmt path "RArray t xs"]]
  show ?case using d
    by (cases e) (auto simp: type_diff_def rule_diff_def dest!: mem_enumerate_zip intro: RArray.IH split: if_splits)
qed

lemma joined_keeps: "x \<in> set y \<Longrightarrow> y \<in> set ys \<Longrightarrow> x \<in> set (str_join sep ys)"
  by (induction sep ys rule: str_join.induct) auto

text \<open>
  C23: For two rules of the same type, the explanation of their mismatch gives up exactly if they differ at most in fields that are not exported
  (and in whether an empty slice is nil).
\<close>

theorem mismatch_explained:
  assumes "typed shape actual" "typed shape expected" "rtype actual = rtype expected"
  shows "explainRulesMismatch fmt actual expected = ''unable to extract differing fields'' \<longleftrightarrow> visible actual = visible expected"
proof -
  let ?diffs = "collectRuleDiffs fmt [] (Some actual) (Some expected)"
  have "CHR '':'' \<in> set (str_join ''; '' (sort ?diffs))" if some: "?diffs \<noteq> []"
  proof -
    obtain d where "d \<in> set ?diffs" using some by (meson list.set_sel(1))
    then show ?thesis using diff_has_colon joined_keeps by (metis set_sort)
  qed
  moreover have "CHR '':'' \<notin> set ''unable to extract differing fields''" by simp
  ultimately have "explainRulesMismatch fmt actual expected = ''unable to extract differing fields'' \<longleftrightarrow> ?diffs = []"
    unfolding explainRulesMismatch_def Let_def by (cases "?diffs = []") auto
  then show ?thesis using diffs_visible [OF assms] by simp
qed

text \<open>Two rules that differ in a number of arbitrary size only, a struct of the standard library without exported fields.\<close>

definition price :: "string \<Rightarrow> rvalue" where
  "price digits = RPointer ''*big.Int'' (Some (RStruct ''big.Int'' [(''neg'', False), (''abs'', False)] [RBasic ''bool'' ''false'', RBasic ''nat'' digits]))"

definition priced_rules :: "string \<Rightarrow> rvalue" where
  "priced_rules digits = RStruct ''EconomyRules'' [(''BlockMissedSlack'', True), (''MinGasPrice'', True)] [RBasic ''uint64'' ''50'', price digits]"

definition rules_shape :: "string \<Rightarrow> rshape" where
  "rules_shape t =
     (if t = ''EconomyRules'' then SStruct [(''BlockMissedSlack'', True), (''MinGasPrice'', True)] [''uint64'', ''*big.Int'']
      else if t = ''*big.Int'' then SPointer ''big.Int''
      else if t = ''big.Int'' then SStruct [(''neg'', False), (''abs'', False)] [''bool'', ''nat'']
      else SBasic)"

theorem mismatch_explained_witness:
  "priced_rules ''1'' \<noteq> priced_rules ''2'' \<and>
   explainRulesMismatch (\<lambda>_. ''?'') (priced_rules ''1'') (priced_rules ''2'') = ''unable to extract differing fields''"
proof
  show "priced_rules ''1'' \<noteq> priced_rules ''2''" by (simp add: priced_rules_def price_def)
  have "typed rules_shape (priced_rules d)" for d by (simp add: priced_rules_def price_def rules_shape_def)
  moreover have "visible (priced_rules ''1'') = visible (priced_rules ''2'')" by (simp add: priced_rules_def price_def)
  ultimately show "explainRulesMismatch (\<lambda>_. ''?'') (priced_rules ''1'') (priced_rules ''2'') = ''unable to extract differing fields''"
    using mismatch_explained [of rules_shape "priced_rules ''1''" "priced_rules ''2''" "\<lambda>_. ''?''"] by (simp add: priced_rules_def)
qed

end
