(* ===== verification/Spec2Isabelle.thy ===== *)
theory Spec2Isabelle
  imports Txmon_Inclusions Txmon_Series Data_Series_Properties Node_Properties Checking_Properties Load_Properties
    Executor_Stakes Scenario_Properties Genesis_Properties Network_Properties Network_Pool_Properties
    Monitor_Logs_Properties Monitor_Properties Load_Apps_Properties Monitor_Periodic_Properties Monitor_Prometheus_Properties
    Monitor_Export_Properties Docker_Images_Properties Node_Container_Properties Rpc_Client_Properties
    Norma_Command_Properties Rules_Explain
begin

text \<open>
  A verification development for Norma, the system testing infrastructure for Sonic networks (Go, under
  \<open>src/\<close>). Norma reads a scenario, sets up a network of client containers, runs the steps of the
  scenario on it, generates load, monitors what happens and checks the outcome.

  \<^bold>\<open>The parts and how they interact.\<close> A scenario file is decoded and checked
  (\<open>driver/parser\<close>); its first step gives the bootstrap validators, from which a genesis is generated
  (\<open>driver/norma/run.go\<close>, \<open>genesis\<close>). The executor (\<open>driver/executor\<close>) runs the steps one after the other over
  a network (\<open>driver/network\<close>, \<open>driver/network/local\<close>) of nodes (\<open>driver/node\<close>), keeps the books on
  nodes, validators, delegators and stakes, and calls the checkers (\<open>driver/checking\<close>). Applications
  (\<open>load\<close>) follow the shape of a traffic rate and hand their transactions to the worker pool
  (\<open>driver/network/rpc\<close>), which submits them to the nodes and tells the transaction monitor
  (\<open>driver/monitoring/transactions\<close>). The logs of the nodes are read, dispatched and recorded in data series
  (\<open>driver/monitoring\<close>), which the checkers read.

  \<^bold>\<open>Conventions.\<close> Go's integers of fixed width are words or integers with their wrap-around written out, its
  strings are lists of ASCII characters, its maps association lists whose order stands for Go's arbitrary one, its
  errors values of a sum or an option, and a panic is an outcome of its own. What the code calls outside of the
  repository, the Docker engine, the RPC clients, contracts, clocks and random numbers, is a parameter: a record of
  operations on a world \<open>'w\<close>, an argument function, or an answer that may be anything, also depending on all that was asked before. Floating-point numbers are rational
  or real. Logging is left out except where it is the observable result. Goroutines are steps of a relation where their
  interleaving matters (node actions, worker pool, dispatcher) and are taken in order otherwise.

  \<^bold>\<open>Theories.\<close>

    \<^item> \<open>Norma_Prelude\<close>, \<open>Go_Strings\<close>, \<open>Go_Search\<close>, \<open>Go_Duration\<close>: times, durations, maps with the
      locale \<open>counted_map\<close> and its interpretation on association lists, the parts of \<open>strings\<close>, \<open>strconv\<close>,
      \<open>sort.Search\<close> and \<open>time.ParseDuration\<close> that the code uses.

    \<^item> \<open>Txmon_Samples\<close>, \<open>Txmon_Tracker\<close>, \<open>Txmon_Invariant\<close>, \<open>Txmon_Runs\<close>, \<open>Txmon_Properties\<close>: the tracker of
      transactions (\<open>tracker.go\<close>, \<open>samples.go\<close>) with its operations as steps; its counters are exact, the runs of
      emittable nonces are in flight, and a transaction counts as stalled exactly behind a nonce gap.
      \<open>Txmon_Observers\<close>, \<open>Txmon_Inclusions\<close>: the walk over emitted events and the bounded queue of announced blocks.
      \<open>Txmon_Series\<close>: the series read from the tracker, as instances of the series interface.

    \<^item> \<open>Data_Series\<close>, \<open>Data_Series_Properties\<close>: the interface of a series as the locales \<open>series\<close> and
      \<open>strict_series\<close>, its implementation, sources and exports, and the moving average, which equals its definition
      as an average of a window however reads and growth interleave.

    \<^item> \<open>Monitor_Logs\<close>, \<open>Monitor_Logs_Properties\<close>: the readers of client logs and of metrics; what is printed is read back.
      \<open>Monitor_Sources\<close>, \<open>Monitor_Properties\<close>: the dispatcher of logs and the block metrics; the series hold the highest
      blocks in order, replays after a restart are recognised, and a log has one reader.

    \<^item> \<open>Monitor_Periodic\<close>, \<open>Monitor_Periodic_Properties\<close>: the sources that sample sensors at intervals; that their events
      feed series is the locale \<open>sampled_source\<close>, interpreted on the periodic source, the number of nodes, the stakes and the
      Prometheus metrics. \<open>Monitor_Prometheus\<close>, \<open>Monitor_Prometheus_Properties\<close>: the dispatcher of Prometheus metrics over
      all interleavings of its goroutines; its channels are never misused, but it panics for a node removed twice and can be
      stopped for good by a slow node. \<open>Monitor_Export\<close>, \<open>Monitor_Metrics\<close>, \<open>Monitor_Export_Properties\<close>: the monitor, the
      registry with all metrics, the records and the CSV file, which is read back.

    \<^item> \<open>Node_Lifecycle\<close>, \<open>Node_Semantics\<close>, \<open>Node_Properties\<close>: the states and actions of a node
      (\<open>node_state.go\<close>, \<open>node_actions.go\<close>) as programs of locked sections and calls, against every behaviour of the
      container and every crash of the client; the data directory is never used by two processes.

    \<^item> \<open>Go_Outcome\<close>: operations that return, panic or block. \<open>Docker_Logs\<close>, \<open>Docker_Logs_Properties\<close>: the output of clients, its
      lines and its subscribers. \<open>Docker_Images\<close>, \<open>Docker_Images_Properties\<close>: the images of a run, the search for the build
      root and the provisioning that nodes share. \<open>Docker_Containers\<close>, \<open>Docker_Exec\<close>, \<open>Docker_Containers_Properties\<close>: containers,
      networks and commands (\<open>docker.go\<close>) against an engine that may answer anything; the calls and answers of a run are its
      history, over which the theorems speak. \<open>Node_Container\<close>, \<open>Node_Container_Properties\<close>: what is prepared on the host for a
      node (\<open>opera.go\<close>), and that all of it is given up again.

    \<^item> \<open>Rpc_Client\<close>, \<open>Rpc_Client_Properties\<close>: receipts with their backoff, bundles and rules (\<open>rpc.go\<close>).

    \<^item> \<open>Checking_Model\<close>, \<open>Checking_Consensus\<close>, \<open>Checking_Properties\<close>: the checkers with their configuration, windows
      and convergence loops, and what each verdict means. \<open>Rules_Explain\<close>: how a mismatch of rules is explained, over
      values as reflection shows them (\<open>network_rules.go\<close>), and which mismatches are not.

    \<^item> \<open>Load_Shaper\<close>, \<open>Load_Controller\<close>, \<open>Load_Properties\<close>: rates and shapes (locale \<open>timed_shape\<close>), the pacing loop,
      accounts, pools and funding.

    \<^item> \<open>Load_Contracts\<close>, \<open>Load_Apps\<close>, \<open>Load_Bundles\<close>, \<open>Load_Setup\<close>, \<open>Load_Users\<close>: the contracts, users and applications
      that generate load, with the locales \<open>counting_user\<close> and \<open>own_nonce_user\<close> for what every user keeps.
      \<open>Load_Execution\<close>, \<open>Load_Bundle_Runs\<close>, \<open>Load_Apps_Properties\<close>: what becomes of their transactions on a chain that
      executes them (locale \<open>accounted_rounds\<close>): an application receives exactly as many as its users have sent.

    \<^item> \<open>Rules_Patch\<close>, \<open>Parser_Model\<close>, \<open>Scenario_Properties\<close>: rules patches, the decoding of scenarios from YAML
      nodes, their semantic check, and that a checked observation is accepted by its checker.

    \<^item> \<open>Network_Staking\<close>: stakes on the chain, with the contract and the validator registry as predicates on operations.

    \<^item> \<open>Executor_Model\<close>: the executor as functions in a monad of state, world, error and divergence.
      \<open>Executor_Logic\<close>: triples over it. \<open>Executor_Invariants\<close>: the locales \<open>quiet_ops\<close>, \<open>stake_invariant\<close> and
      \<open>run_invariant\<close> lift a property of single updates to whole runs. \<open>Executor_Properties\<close>, \<open>Executor_Stakes\<close>: their
      interpretations and the theorems on runs; \<open>Executor_Example\<close>: a small ledger on which a run is evaluated.

    \<^item> \<open>Genesis_Model\<close>, \<open>Genesis_Properties\<close>: validators, client versions with their linear order, the genesis, and
      its agreement with the executor.

    \<^item> \<open>Network_Local\<close>, \<open>Network_Properties\<close>: retries, epochs, rules and the local network.
      \<open>Network_Pool\<close>, \<open>Network_Pool_Properties\<close>: the worker pool over all interleavings.

    \<^item> \<open>Norma_Command\<close>, \<open>Norma_Command_Properties\<close>: the commands (\<open>driver/norma\<close>) that collect scenarios, build their images,
      check, run and compare them, a run as the sequence of what it starts and stops.

  \<^bold>\<open>What the lemmas show.\<close> Per component: the invariants of its state are kept by every operation and hold in every reachable
  state; the results of its operations are what they promise, on the error branches too; loops end, given a clock that
  advances where they wait for one; texts are read back as printed. Across components: the executor's books equal the
  chain's; a run returns by its deadline; the genesis has the validators the executor starts; checked scenarios are
  accepted by the checkers; blocks and transactions are neither lost nor doubled on their way to the monitoring.

  \<^bold>\<open>Loops.\<close> Recursion is structural or has a measure, except where the code waits for the world: these loops are partial
  functions in the option type, whose \<open>None\<close> is divergence, and theorems show that they return. No fuel is
  used except the numbers of attempts that the code itself has.

  \<^bold>\<open>Not modelled.\<close> The Docker engine, the client program, the server behind an RPC and the contract bindings: other programs and
  generated code, which appear as operations on a world or as answers. The contracts of the Uniswap application beyond the amounts it asks for, the
  smart account, and the client's builder and processor of bundles, which are parameters. The YAML library, JSON and the text
  of messages. The flags of the command line, the rendering of reports and the text of the progress output. Data races: every operation under a mutex is one step.
\<close>

end
